(* ===== verification/Prelude.thy ===== *)
theory Prelude
  imports Main "HOL-Library.Word"
begin

text \<open>
  Shared ground of the development: the machine integers and byte orders of the code
  (a little-endian host), the result codes of \<^verbatim>\<open>common/hresult.h\<close>, the block copy
  \<^verbatim>\<open>memcpy\<close> and the C strings the code keeps in fixed character arrays, with the lemmas
  about them that every component uses.
\<close>

unbundle bit_operations_syntax

named_theorems hresult_simps \<open>how the result codes compare\<close>
named_theorems memory_simps \<open>block copies and byte strings\<close>

subsection \<open>Machine integers\<close>

type_synonym u8 = "8 word"
type_synonym u16 = "16 word"
type_synonym u32 = "32 word"
type_synonym u64 = "64 word"

text \<open>
  \<open>host16\<close> and \<open>host32\<close> are the bytes of an integer as the (little-endian) host keeps it in
  memory, \<open>unhost16\<close> and \<open>unhost32\<close> read such bytes back; \<open>be16\<close>, \<open>be32\<close>, \<open>unbe16\<close> and
  \<open>unbe32\<close> are the same for network byte order. \<^verbatim>\<open>htons\<close> is the value whose memory image is
  the network byte order of its argument.
\<close>

definition host16 :: "u16 \<Rightarrow> u8 list" where
  "host16 w = [ucast w, ucast (drop_bit 8 w)]"

fun unhost16 :: "u8 list \<Rightarrow> u16" where
  "unhost16 (b0 # b1 # bs) = ucast b0 OR push_bit 8 (ucast b1)"
| "unhost16 _ = 0"

definition be16 :: "u16 \<Rightarrow> u8 list" where
  "be16 w = [ucast (drop_bit 8 w), ucast w]"

fun unbe16 :: "u8 list \<Rightarrow> u16" where
  "unbe16 (b0 # b1 # bs) = push_bit 8 (ucast b0) OR ucast b1"
| "unbe16 _ = 0"

definition host32 :: "u32 \<Rightarrow> u8 list" where
  "host32 w = [ucast w, ucast (drop_bit 8 w), ucast (drop_bit 16 w), ucast (drop_bit 24 w)]"

fun unhost32 :: "u8 list \<Rightarrow> u32" where
  "unhost32 (b0 # b1 # b2 # b3 # bs) =
     ucast b0 OR push_bit 8 (ucast b1) OR push_bit 16 (ucast b2) OR push_bit 24 (ucast b3)"
| "unhost32 _ = 0"

definition be32 :: "u32 \<Rightarrow> u8 list" where
  "be32 w = [ucast (drop_bit 24 w), ucast (drop_bit 16 w), ucast (drop_bit 8 w), ucast w]"

fun unbe32 :: "u8 list \<Rightarrow> u32" where
  "unbe32 (b0 # b1 # b2 # b3 # bs) =
     push_bit 24 (ucast b0) OR push_bit 16 (ucast b1) OR push_bit 8 (ucast b2) OR ucast b3"
| "unbe32 _ = 0"

definition host64 :: "u64 \<Rightarrow> u8 list" where
  "host64 w = [ucast w, ucast (drop_bit 8 w), ucast (drop_bit 16 w), ucast (drop_bit 24 w),
     ucast (drop_bit 32 w), ucast (drop_bit 40 w), ucast (drop_bit 48 w), ucast (drop_bit 56 w)]"

fun unhost64 :: "u8 list \<Rightarrow> u64" where
  "unhost64 (b0 # b1 # b2 # b3 # b4 # b5 # b6 # b7 # bs) =
     ucast b0 OR push_bit 8 (ucast b1) OR push_bit 16 (ucast b2) OR push_bit 24 (ucast b3) OR
     push_bit 32 (ucast b4) OR push_bit 40 (ucast b5) OR push_bit 48 (ucast b6) OR push_bit 56 (ucast b7)"
| "unhost64 _ = 0"

definition htons :: "u16 \<Rightarrow> u16" where
  "htons w = unhost16 (be16 w)"

definition ntohs :: "u16 \<Rightarrow> u16" where
  "ntohs w = unbe16 (host16 w)"

definition htonl :: "u32 \<Rightarrow> u32" where
  "htonl w = unhost32 (be32 w)"

definition ntohl :: "u32 \<Rightarrow> u32" where
  "ntohl w = unbe32 (host32 w)"

lemma unat_less [simp]:
  "unat (w8 :: u8) < 256" "unat (w16 :: u16) < 65536" "unat (w32 :: u32) < 4294967296"
  using unsigned_less [where ?'a = nat and w = w8] unsigned_less [where ?'a = nat and w = w16]
    unsigned_less [where ?'a = nat and w = w32] by simp_all

lemma bit_u8 [dest]: "bit (b :: u8) n \<Longrightarrow> n < 8"
  using bit_imp_le_length [of b n] by simp

lemma bit_u8_ge [simp]: "8 \<le> n \<Longrightarrow> \<not> bit (b :: u8) n"
  by (auto simp: not_less [symmetric])

lemma word_bytes_cases:
  assumes "n < 8 * (m :: nat)"
  obtains k i where "n = 8 * i + k" "k < 8" "i < m"
proof
  show "n = 8 * (n div 8) + n mod 8" by simp
  show "n mod 8 < 8" by simp
  show "n div 8 < m" using assms by (simp add: less_mult_imp_div_less mult.commute)
qed

lemma word32_eqI:
  fixes v w :: u32
  assumes "\<And>k. k < 8 \<Longrightarrow> bit v k = bit w k"
    and "\<And>k. k < 8 \<Longrightarrow> bit v (8 + k) = bit w (8 + k)"
    and "\<And>k. k < 8 \<Longrightarrow> bit v (16 + k) = bit w (16 + k)"
    and "\<And>k. k < 8 \<Longrightarrow> bit v (24 + k) = bit w (24 + k)"
  shows "v = w"
proof (rule bit_word_eqI)
  fix n assume "n < LENGTH(32)"
  then have "n < 8 * 4" by simp
  then obtain k i where n: "n = 8 * i + k" "k < 8" "i < 4" by (rule word_bytes_cases)
  then have "i = 0 \<or> i = 1 \<or> i = 2 \<or> i = 3" by auto
  with n assms show "bit v n = bit w n" by auto
qed

lemma word16_eqI:
  fixes v w :: u16
  assumes "\<And>k. k < 8 \<Longrightarrow> bit v k = bit w k"
    and "\<And>k. k < 8 \<Longrightarrow> bit v (8 + k) = bit w (8 + k)"
  shows "v = w"
proof (rule bit_word_eqI)
  fix n assume "n < LENGTH(16)"
  then have "n < 8 * 2" by simp
  then obtain k i where n: "n = 8 * i + k" "k < 8" "i < 2" by (rule word_bytes_cases)
  then have "i = 0 \<or> i = 1" by auto
  with n assms show "bit v n = bit w n" by auto
qed

lemma word64_eqI:
  fixes v w :: u64
  assumes "\<And>i k. i < 8 \<Longrightarrow> k < 8 \<Longrightarrow> bit v (8 * i + k) = bit w (8 * i + k)"
  shows "v = w"
proof (rule bit_word_eqI)
  fix n assume "n < LENGTH(64)"
  then have "n < 8 * 8" by simp
  then obtain k i where "n = 8 * i + k" "k < 8" "i < 8" by (rule word_bytes_cases)
  with assms show "bit v n = bit w n" by simp
qed

lemma unhost64_host64 [simp]: "unhost64 (host64 w @ xs) = w"
proof (rule word64_eqI)
  fix i k :: nat assume i: "i < 8" and k: "k < 8"
  then have "i = 0 \<or> i = 1 \<or> i = 2 \<or> i = 3 \<or> i = 4 \<or> i = 5 \<or> i = 6 \<or> i = 7" by auto
  then show "bit (unhost64 (host64 w @ xs)) (8 * i + k) = bit w (8 * i + k)"
    using k by (elim disjE) (simp_all add: host64_def bit_simps)
qed

lemma host64_unhost64: "host64 (unhost64 [a, b, c, d, e, f, g, h]) = [a, b, c, d, e, f, g, h]"
  by (auto intro!: bit_word_eqI simp: host64_def bit_simps)

lemma length_host64 [simp]: "length (host64 w) = 8" "host64 w \<noteq> []"
  by (simp_all add: host64_def)

lemma unhost64_inject: "length xs = 8 \<Longrightarrow> length ys = 8 \<Longrightarrow> unhost64 xs = unhost64 ys \<longleftrightarrow> xs = ys"
proof -
  assume l: "length xs = 8" "length ys = 8"
  have "host64 (unhost64 zs) = zs" if "length zs = 8" for zs
  proof -
    from that obtain a b c d e f g h where "zs = [a, b, c, d, e, f, g, h]"
      by (auto simp: length_Suc_conv numeral_eq_Suc)
    then show ?thesis by (simp only: host64_unhost64)
  qed
  then show "unhost64 xs = unhost64 ys \<longleftrightarrow> xs = ys" using l by metis
qed

lemma unhost16_host16 [simp]: "unhost16 (host16 w @ xs) = w"
  by (rule word16_eqI) (auto simp: host16_def bit_simps)

lemma unbe16_be16 [simp]: "unbe16 (be16 w @ xs) = w"
  by (rule word16_eqI) (auto simp: be16_def bit_simps)

lemma unhost32_host32 [simp]: "unhost32 (host32 w @ xs) = w"
  by (rule word32_eqI) (auto simp: host32_def bit_simps)

lemma unbe32_be32 [simp]: "unbe32 (be32 w @ xs) = w"
  by (rule word32_eqI) (auto simp: be32_def bit_simps)

lemma be16_unbe16: "be16 (unbe16 [a, b]) = [a, b]"
  by (auto intro!: bit_word_eqI simp: be16_def bit_simps)

lemma host16_unhost16: "host16 (unhost16 [a, b]) = [a, b]"
  by (auto intro!: bit_word_eqI simp: host16_def bit_simps)

lemma be32_unbe32: "be32 (unbe32 [a, b, c, d]) = [a, b, c, d]"
  by (auto intro!: bit_word_eqI simp: be32_def bit_simps)

lemma host32_unhost32: "host32 (unhost32 [a, b, c, d]) = [a, b, c, d]"
  by (auto intro!: bit_word_eqI simp: host32_def bit_simps)

lemma length_byte_orders [simp]:
  "length (host16 w) = 2" "length (be16 w) = 2" "length (host32 v) = 4" "length (be32 v) = 4"
  by (simp_all add: host16_def be16_def host32_def be32_def)

lemma byte_orders_not_Nil [simp]:
  "host16 w \<noteq> []" "be16 w \<noteq> []" "host32 v \<noteq> []" "be32 v \<noteq> []"
  by (simp_all add: host16_def be16_def host32_def be32_def)

lemmas byte_orders_closed [simp] =
  unhost16_host16 [where xs = "[]", simplified] unbe16_be16 [where xs = "[]", simplified]
  unhost32_host32 [where xs = "[]", simplified] unbe32_be32 [where xs = "[]", simplified]

lemma list_of_length2: "length xs = 2 \<Longrightarrow> \<exists>a b. xs = [a, b]"
  by (auto simp: numeral_2_eq_2 length_Suc_conv)

lemma list_of_length4: "length xs = 4 \<Longrightarrow> \<exists>a b c d. xs = [a, b, c, d]"
  by (auto simp: numeral_eq_Suc length_Suc_conv)

lemma host16_unhost16' [simp]: "length xs = 2 \<Longrightarrow> host16 (unhost16 xs) = xs"
  by (metis list_of_length2 host16_unhost16)

lemma be16_unbe16' [simp]: "length xs = 2 \<Longrightarrow> be16 (unbe16 xs) = xs"
  by (metis list_of_length2 be16_unbe16)

lemma host32_unhost32' [simp]: "length xs = 4 \<Longrightarrow> host32 (unhost32 xs) = xs"
  by (metis list_of_length4 host32_unhost32)

lemma be32_unbe32' [simp]: "length xs = 4 \<Longrightarrow> be32 (unbe32 xs) = xs"
  by (metis list_of_length4 be32_unbe32)

lemma host16_htons [simp]: "host16 (htons w) = be16 w"
  by (simp add: htons_def)

lemma host32_htonl [simp]: "host32 (htonl w) = be32 w"
  by (simp add: htonl_def)

lemma ntohs_unhost16 [simp]: "length xs \<ge> 2 \<Longrightarrow> ntohs (unhost16 xs) = unbe16 xs"
  by (cases xs rule: unhost16.cases)
    (auto simp: ntohs_def host16_unhost16 host16_def intro!: word16_eqI simp: bit_simps)

lemma ntohl_unhost32 [simp]: "length xs \<ge> 4 \<Longrightarrow> ntohl (unhost32 xs) = unbe32 xs"
  by (cases xs rule: unhost32.cases)
    (auto simp: ntohl_def host32_def intro!: word32_eqI simp: bit_simps)

lemma htons_ntohs [simp]: "htons (ntohs w) = w"
  by (simp add: htons_def ntohs_def)

lemma ntohs_htons [simp]: "ntohs (htons w) = w"
  by (simp add: ntohs_def)

lemma htonl_ntohl [simp]: "htonl (ntohl w) = w"
  by (simp add: htonl_def ntohl_def)

lemma ntohl_htonl [simp]: "ntohl (htonl w) = w"
  by (simp add: ntohl_def)

lemma host16_ntohs [simp]: "host16 (ntohs w) = be16 w"
proof -
  have "ntohs w = htons w"
    by (rule word16_eqI) (auto simp: htons_def ntohs_def be16_def host16_def bit_simps)
  then show ?thesis by simp
qed

lemma unbe16_append [simp]: "length xs \<ge> 2 \<Longrightarrow> unbe16 (xs @ ys) = unbe16 xs"
  by (cases xs rule: unbe16.cases) auto

lemma unbe32_append [simp]: "length xs \<ge> 4 \<Longrightarrow> unbe32 (xs @ ys) = unbe32 xs"
  by (cases xs rule: unbe32.cases) auto

subsection \<open>Result codes\<close>

text \<open>
  An \<^verbatim>\<open>HRESULT\<close> is a signed 32-bit integer, of which the negative values are failures
  (\<^verbatim>\<open>common/hresult.h\<close>). The macros \<^verbatim>\<open>Chk\<close>, \<^verbatim>\<open>ChkIf\<close> and their \<^verbatim>\<open>A\<close> variants, which leave a
  function with a failure code (\<^verbatim>\<open>common/chkmacros.h\<close>), are the \<open>if\<close>s of the models: the
  assertion some of them make in a debug build has no effect on the result.
\<close>

type_synonym HRESULT = int

definition SUCCEEDED :: "HRESULT \<Rightarrow> bool" where
  "SUCCEEDED hr \<longleftrightarrow> 0 \<le> hr"

definition FAILED :: "HRESULT \<Rightarrow> bool" where
  "FAILED hr \<longleftrightarrow> hr < 0"

definition S_OK :: HRESULT where "S_OK = 0"

definition S_FALSE :: HRESULT where "S_FALSE = 1"

definition E_UNEXPECTED :: HRESULT where "E_UNEXPECTED = 0x8000FFFF - 0x100000000"

definition E_OUTOFMEMORY :: HRESULT where "E_OUTOFMEMORY = 0x8007000E - 0x100000000"

definition E_INVALIDARG :: HRESULT where "E_INVALIDARG = 0x80070057 - 0x100000000"

definition E_FAIL :: HRESULT where "E_FAIL = 0x80004005 - 0x100000000"

lemmas hresult_defs = SUCCEEDED_def FAILED_def S_OK_def S_FALSE_def E_UNEXPECTED_def
  E_OUTOFMEMORY_def E_INVALIDARG_def E_FAIL_def

lemma FAILED_iff [simp]: "FAILED hr \<longleftrightarrow> \<not> SUCCEEDED hr"
  by (auto simp: hresult_defs)

lemma SUCCEEDED_codes [simp]:
  "SUCCEEDED S_OK" "SUCCEEDED S_FALSE" "\<not> SUCCEEDED E_FAIL" "\<not> SUCCEEDED E_UNEXPECTED"
  "\<not> SUCCEEDED E_INVALIDARG" "\<not> SUCCEEDED E_OUTOFMEMORY"
  by (simp_all add: hresult_defs)

lemma hresult_distinct [simp]:
  "S_OK \<noteq> E_FAIL" "S_OK \<noteq> E_UNEXPECTED" "S_OK \<noteq> E_INVALIDARG" "S_OK \<noteq> E_OUTOFMEMORY"
  "S_OK \<noteq> S_FALSE" "E_FAIL \<noteq> S_OK" "E_UNEXPECTED \<noteq> S_OK" "E_INVALIDARG \<noteq> S_OK"
  "E_OUTOFMEMORY \<noteq> S_OK" "S_FALSE \<noteq> S_OK" "E_FAIL \<noteq> E_INVALIDARG" "E_INVALIDARG \<noteq> E_FAIL"
  "E_FAIL \<noteq> E_UNEXPECTED" "E_UNEXPECTED \<noteq> E_FAIL" "E_INVALIDARG \<noteq> E_UNEXPECTED"
  "E_UNEXPECTED \<noteq> E_INVALIDARG"
  by (simp_all add: hresult_defs)

text \<open>
  \<open>ChkTo cleanup r k\<close> is \<^verbatim>\<open>Chk(r); k\<close>: with a failure code the function leaves through its
  \<^verbatim>\<open>Cleanup\<close> label with what \<open>cleanup\<close> makes of the state, and it goes on with \<open>k\<close>, which is given
  the (success) code now in \<^verbatim>\<open>hr\<close>, otherwise. In \<open>Chk\<close> the state is left as it is.
\<close>

definition ChkTo :: "('a \<Rightarrow> 'b) \<Rightarrow> HRESULT \<times> 'a \<Rightarrow> (HRESULT \<Rightarrow> 'a \<Rightarrow> HRESULT \<times> 'b) \<Rightarrow> HRESULT \<times> 'b" where
  "ChkTo cleanup r k = (if FAILED (fst r) then (fst r, cleanup (snd r)) else k (fst r) (snd r))"

abbreviation Chk :: "HRESULT \<times> 'a \<Rightarrow> (HRESULT \<Rightarrow> 'a \<Rightarrow> HRESULT \<times> 'a) \<Rightarrow> HRESULT \<times> 'a" where
  "Chk \<equiv> ChkTo (\<lambda>s. s)"

lemma ChkTo_ok [simp]: "SUCCEEDED (fst r) \<Longrightarrow> ChkTo c r k = k (fst r) (snd r)"
  by (simp add: ChkTo_def)

lemma ChkTo_fail [simp]: "\<not> SUCCEEDED (fst r) \<Longrightarrow> ChkTo c r k = (fst r, c (snd r))"
  by (simp add: ChkTo_def)

lemma ChkTo_cases:
  obtains "\<not> SUCCEEDED (fst r)" "ChkTo c r k = (fst r, c (snd r))"
  | "SUCCEEDED (fst r)" "ChkTo c r k = k (fst r) (snd r)"
  by (cases "SUCCEEDED (fst r)") auto

lemma find_SomeD: "find P xs = Some x \<Longrightarrow> x \<in> set xs \<and> P x"
  by (induction xs) (auto split: if_splits)

subsection \<open>Memory blocks\<close>

text \<open>
  \<open>uninit_byte\<close> stands for a byte the code allocates and does not write. No property below
  rests on its value.
\<close>

definition uninit_byte :: u8 where
  "uninit_byte = 0"

text \<open>\<open>poke p d m\<close> is the block \<open>m\<close> after \<^verbatim>\<open>memcpy(m + p, d, size of d)\<close>.\<close>

definition poke :: "nat \<Rightarrow> 'a list \<Rightarrow> 'a list \<Rightarrow> 'a list" where
  "poke p d m = take p m @ d @ drop (p + length d) m"

definition peek :: "nat \<Rightarrow> nat \<Rightarrow> 'a list \<Rightarrow> 'a list" where
  "peek p n m = take n (drop p m)"

text \<open>A byte read through a pointer; beyond the block it is some byte of foreign memory.\<close>

definition mem_at :: "u8 list \<Rightarrow> nat \<Rightarrow> u8" where
  "mem_at m i = (if i < length m then m ! i else uninit_byte)"

lemma length_poke [simp]: "p + length d \<le> length m \<Longrightarrow> length (poke p d m) = length m"
  by (simp add: poke_def)

lemma take_poke_before [memory_simps]: "n \<le> p \<Longrightarrow> p \<le> length m \<Longrightarrow> take n (poke p d m) = take n m"
  by (simp add: poke_def min_def)

lemma drop_poke_after [memory_simps]:
  "p + length d \<le> n \<Longrightarrow> p \<le> length m \<Longrightarrow> drop n (poke p d m) = drop n m"
  by (simp add: poke_def)

lemma take_poke_through [memory_simps]:
  "p \<le> length m \<Longrightarrow> take (p + length d) (poke p d m) = take p m @ d"
  by (simp add: poke_def)

lemma poke_take_inside: "p + length d \<le> n \<Longrightarrow> poke p d (take n m) = take n (poke p d m)"
proof -
  assume le: "p + length d \<le> n"
  then have "take n (poke p d m) = take p m @ d @ take (n - (p + length d)) (drop (p + length d) m)"
    if "p \<le> length m" using that by (simp add: poke_def min_absorb2)
  moreover have "take n (poke p d m) = m @ d" if "length m < p"
    using that le by (simp add: poke_def)
  ultimately show ?thesis
    using le by (cases "p \<le> length m") (simp_all add: poke_def drop_take min_absorb1)
qed

lemma poke_take_across:
  "n < p + length d \<Longrightarrow> p \<le> n \<Longrightarrow> n \<le> length m \<Longrightarrow>
   poke p d (take n m) = take (p + length d) (poke p d m)"
  by (simp add: poke_def min_def)

lemma take_max_poke:
  assumes "p \<le> n" "n \<le> length m"
  shows "take (max n (p + length d)) (poke p d m) = poke p d (take n m)"
  using assms
  by (cases "p + length d \<le> n") (simp_all add: poke_take_inside poke_take_across max_def)

lemma length_peek [simp]: "p + n \<le> length m \<Longrightarrow> length (peek p n m) = n"
  by (simp add: peek_def)

lemma nth_peek: "i < n \<Longrightarrow> p + n \<le> length xs \<Longrightarrow> peek p n xs ! i = xs ! (p + i)"
  by (simp add: peek_def)

lemma peek_peek: "p + n \<le> k \<Longrightarrow> peek p n (peek q k xs) = peek (q + p) n xs"
  by (simp add: peek_def drop_take min_def add.commute)

lemma peek_append_left [memory_simps]: "p + n \<le> length xs \<Longrightarrow> peek p n (xs @ ys) = peek p n xs"
  by (simp add: peek_def)

lemma peek_append_right [memory_simps]:
  "length xs \<le> p \<Longrightarrow> peek p n (xs @ ys) = peek (p - length xs) n ys"
  by (simp add: peek_def)

lemma peek_self [memory_simps]: "n = length xs \<Longrightarrow> peek 0 n (xs @ ys) = xs"
  by (simp add: peek_def)

lemma peek_take [memory_simps]: "p + n \<le> k \<Longrightarrow> peek p n (take k xs) = peek p n xs"
  by (simp add: peek_def drop_take min_def)

lemma peek_0 [simp]: "peek p 0 xs = []"
  by (simp add: peek_def)

subsection \<open>C strings in fixed arrays\<close>

text \<open>
  \<open>c_str m\<close> is the string a C function sees at the start of the block \<open>m\<close>; \<open>strcpy_to\<close> copies
  such a string with its terminator over the start of a destination block.
\<close>

definition c_str :: "u8 list \<Rightarrow> u8 list" where
  "c_str m = takeWhile (\<lambda>b. b \<noteq> 0) m"

definition strcpy_to :: "u8 list \<Rightarrow> u8 list \<Rightarrow> u8 list" where
  "strcpy_to dst src = poke 0 (c_str src @ [0]) dst"

lemma c_str_nonzero: "0 \<notin> set (c_str m)"
  by (auto simp: c_str_def dest: set_takeWhileD)

lemma c_str_append_zero [simp]: "0 \<notin> set s \<Longrightarrow> c_str (s @ 0 # m) = s"
  by (auto simp: c_str_def takeWhile_append)

lemma c_str_no_zero: "0 \<notin> set s \<Longrightarrow> c_str s = s"
  by (auto simp: c_str_def takeWhile_eq_all_conv)

lemma c_str_strcpy_to [simp]: "c_str (strcpy_to dst src) = c_str src"
  by (simp add: strcpy_to_def poke_def c_str_nonzero)

lemma length_c_str_le: "length (c_str m) \<le> length m"
  by (simp add: c_str_def length_takeWhile_le)

lemma length_c_str_less: "0 \<in> set m \<Longrightarrow> length (c_str m) < length m"
  unfolding c_str_def by (induction m) auto

lemma length_strcpy_to:
  "length (c_str src) < length dst \<Longrightarrow> length (strcpy_to dst src) = length dst"
  by (simp add: strcpy_to_def)

end
