(* ===== verification/StunTypes.thy ===== *)
theory StunTypes
  imports Prelude
begin

text \<open>The constants and types of \<^verbatim>\<open>stuncore/stuntypes.h\<close>.\<close>

definition DEFAULT_STUN_PORT :: u16 where "DEFAULT_STUN_PORT = 3478"

definition STUN_ATTRIBUTE_MAPPEDADDRESS :: u16 where "STUN_ATTRIBUTE_MAPPEDADDRESS = 0x0001"
definition STUN_ATTRIBUTE_RESPONSEADDRESS :: u16 where "STUN_ATTRIBUTE_RESPONSEADDRESS = 0x0002"
definition STUN_ATTRIBUTE_CHANGEREQUEST :: u16 where "STUN_ATTRIBUTE_CHANGEREQUEST = 0x0003"
definition STUN_ATTRIBUTE_SOURCEADDRESS :: u16 where "STUN_ATTRIBUTE_SOURCEADDRESS = 0x0004"
definition STUN_ATTRIBUTE_CHANGEDADDRESS :: u16 where "STUN_ATTRIBUTE_CHANGEDADDRESS = 0x0005"
definition STUN_ATTRIBUTE_USERNAME :: u16 where "STUN_ATTRIBUTE_USERNAME = 0x0006"
definition STUN_ATTRIBUTE_LEGACY_PASSWORD :: u16 where "STUN_ATTRIBUTE_LEGACY_PASSWORD = 0x0007"
definition STUN_ATTRIBUTE_MESSAGEINTEGRITY :: u16 where "STUN_ATTRIBUTE_MESSAGEINTEGRITY = 0x0008"
definition STUN_ATTRIBUTE_ERRORCODE :: u16 where "STUN_ATTRIBUTE_ERRORCODE = 0x0009"
definition STUN_ATTRIBUTE_UNKNOWNATTRIBUTES :: u16 where "STUN_ATTRIBUTE_UNKNOWNATTRIBUTES = 0x000A"
definition STUN_ATTRIBUTE_REFLECTEDFROM :: u16 where "STUN_ATTRIBUTE_REFLECTEDFROM = 0x000B"
definition STUN_ATTRIBUTE_REALM :: u16 where "STUN_ATTRIBUTE_REALM = 0x0014"
definition STUN_ATTRIBUTE_NONCE :: u16 where "STUN_ATTRIBUTE_NONCE = 0x0015"
definition STUN_ATTRIBUTE_XORMAPPEDADDRESS :: u16 where "STUN_ATTRIBUTE_XORMAPPEDADDRESS = 0x0020"
definition STUN_ATTRIBUTE_PADDING :: u16 where "STUN_ATTRIBUTE_PADDING = 0x0026"
definition STUN_ATTRIBUTE_RESPONSE_PORT :: u16 where "STUN_ATTRIBUTE_RESPONSE_PORT = 0x0027"
definition STUN_ATTRIBUTE_XORMAPPEDADDRESS_OPTIONAL :: u16 where
  "STUN_ATTRIBUTE_XORMAPPEDADDRESS_OPTIONAL = 0x8020"
definition STUN_ATTRIBUTE_SOFTWARE :: u16 where "STUN_ATTRIBUTE_SOFTWARE = 0x8022"
definition STUN_ATTRIBUTE_ALTERNATESERVER :: u16 where "STUN_ATTRIBUTE_ALTERNATESERVER = 0x8023"
definition STUN_ATTRIBUTE_FINGERPRINT :: u16 where "STUN_ATTRIBUTE_FINGERPRINT = 0x8028"
definition STUN_ATTRIBUTE_RESPONSE_ORIGIN :: u16 where "STUN_ATTRIBUTE_RESPONSE_ORIGIN = 0x802b"
definition STUN_ATTRIBUTE_OTHER_ADDRESS :: u16 where "STUN_ATTRIBUTE_OTHER_ADDRESS = 0x802c"

lemmas stun_attribute_defs = STUN_ATTRIBUTE_MAPPEDADDRESS_def STUN_ATTRIBUTE_RESPONSEADDRESS_def
  STUN_ATTRIBUTE_CHANGEREQUEST_def STUN_ATTRIBUTE_SOURCEADDRESS_def STUN_ATTRIBUTE_CHANGEDADDRESS_def
  STUN_ATTRIBUTE_USERNAME_def STUN_ATTRIBUTE_LEGACY_PASSWORD_def STUN_ATTRIBUTE_MESSAGEINTEGRITY_def
  STUN_ATTRIBUTE_ERRORCODE_def STUN_ATTRIBUTE_UNKNOWNATTRIBUTES_def STUN_ATTRIBUTE_REFLECTEDFROM_def
  STUN_ATTRIBUTE_REALM_def STUN_ATTRIBUTE_NONCE_def STUN_ATTRIBUTE_XORMAPPEDADDRESS_def
  STUN_ATTRIBUTE_PADDING_def STUN_ATTRIBUTE_RESPONSE_PORT_def
  STUN_ATTRIBUTE_XORMAPPEDADDRESS_OPTIONAL_def STUN_ATTRIBUTE_SOFTWARE_def
  STUN_ATTRIBUTE_ALTERNATESERVER_def STUN_ATTRIBUTE_FINGERPRINT_def
  STUN_ATTRIBUTE_RESPONSE_ORIGIN_def STUN_ATTRIBUTE_OTHER_ADDRESS_def

definition STUN_TRANSACTION_ID_LENGTH :: nat where "STUN_TRANSACTION_ID_LENGTH = 16"
definition STUN_ATTRIBUTE_FIELD_IPV4 :: u8 where "STUN_ATTRIBUTE_FIELD_IPV4 = 1"
definition STUN_ATTRIBUTE_FIELD_IPV6 :: u8 where "STUN_ATTRIBUTE_FIELD_IPV6 = 2"
definition STUN_IPV4_LENGTH :: nat where "STUN_IPV4_LENGTH = 4"
definition STUN_IPV6_LENGTH :: nat where "STUN_IPV6_LENGTH = 16"

definition STUN_ERROR_TRYALTERNATE :: u16 where "STUN_ERROR_TRYALTERNATE = 300"
definition STUN_ERROR_BADREQUEST :: u16 where "STUN_ERROR_BADREQUEST = 400"
definition STUN_ERROR_UNAUTHORIZED :: u16 where "STUN_ERROR_UNAUTHORIZED = 401"
definition STUN_ERROR_UNKNOWNATTRIB :: u16 where "STUN_ERROR_UNKNOWNATTRIB = 420"
definition STUN_ERROR_STALENONCE :: u16 where "STUN_ERROR_STALENONCE = 438"
definition STUN_ERROR_SERVERERROR :: u16 where "STUN_ERROR_SERVERERROR = 500"

lemmas stun_error_defs = STUN_ERROR_TRYALTERNATE_def STUN_ERROR_BADREQUEST_def
  STUN_ERROR_UNAUTHORIZED_def STUN_ERROR_UNKNOWNATTRIB_def STUN_ERROR_STALENONCE_def
  STUN_ERROR_SERVERERROR_def

text \<open>The message classes and types are plain enumerations, cast to and from integers.\<close>

type_synonym StunMessageClass = u16
type_synonym StunMessageType = u16

definition StunMsgClassRequest :: StunMessageClass where "StunMsgClassRequest = 0x00"
definition StunMsgClassIndication :: StunMessageClass where "StunMsgClassIndication = 0x01"
definition StunMsgClassSuccessResponse :: StunMessageClass where "StunMsgClassSuccessResponse = 0x02"
definition StunMsgClassFailureResponse :: StunMessageClass where "StunMsgClassFailureResponse = 0x03"
definition StunMsgClassInvalidMessageClass :: StunMessageClass where
  "StunMsgClassInvalidMessageClass = 0xff"

definition StunMsgTypeBinding :: StunMessageType where "StunMsgTypeBinding = 0x0001"
definition StunMsgTypeInvalid :: StunMessageType where "StunMsgTypeInvalid = 0xffff"

lemmas stun_message_defs = StunMsgClassRequest_def StunMsgClassIndication_def
  StunMsgClassSuccessResponse_def StunMsgClassFailureResponse_def
  StunMsgClassInvalidMessageClass_def StunMsgTypeBinding_def StunMsgTypeInvalid_def

record StunAttribute =
  attributeType :: u16
  sa_size :: u16
  sa_offset :: u16

record StunChangeRequestAttribute =
  fChangeIP :: bool
  fChangePort :: bool

definition STUN_ATTRIBUTE_MAPPEDADDRESS_SIZE_IPV4 :: u16 where "STUN_ATTRIBUTE_MAPPEDADDRESS_SIZE_IPV4 = 8"
definition STUN_ATTRIBUTE_MAPPEDADDRESS_SIZE_IPV6 :: u16 where "STUN_ATTRIBUTE_MAPPEDADDRESS_SIZE_IPV6 = 20"
definition STUN_ATTRIBUTE_RESPONSE_PORT_SIZE :: u16 where "STUN_ATTRIBUTE_RESPONSE_PORT_SIZE = 2"
definition STUN_ATTRIBUTE_CHANGEREQUEST_SIZE :: u16 where "STUN_ATTRIBUTE_CHANGEREQUEST_SIZE = 4"

text \<open>The class predicates on the raw message type (a \<^verbatim>\<open>uint16_t\<close> everywhere).\<close>

definition STUN_IS_REQUEST :: "u16 \<Rightarrow> bool" where
  "STUN_IS_REQUEST msg_type \<longleftrightarrow> msg_type AND 0x0110 = 0x0000"
definition STUN_IS_INDICATION :: "u16 \<Rightarrow> bool" where
  "STUN_IS_INDICATION msg_type \<longleftrightarrow> msg_type AND 0x0110 = 0x0010"
definition STUN_IS_SUCCESS_RESP :: "u16 \<Rightarrow> bool" where
  "STUN_IS_SUCCESS_RESP msg_type \<longleftrightarrow> msg_type AND 0x0110 = 0x0100"
definition STUN_IS_ERR_RESP :: "u16 \<Rightarrow> bool" where
  "STUN_IS_ERR_RESP msg_type \<longleftrightarrow> msg_type AND 0x0110 = 0x0110"

text \<open>The transaction id with the magic cookie in front: the 16 bytes of \<^verbatim>\<open>id\<close>.\<close>

type_synonym StunTransactionId = "u8 list"

definition STUN_COOKIE :: u32 where "STUN_COOKIE = 0x2112A442"
definition STUN_COOKIE_B1 :: u8 where "STUN_COOKIE_B1 = 0x21"
definition STUN_COOKIE_B2 :: u8 where "STUN_COOKIE_B2 = 0x12"
definition STUN_COOKIE_B3 :: u8 where "STUN_COOKIE_B3 = 0xA4"
definition STUN_COOKIE_B4 :: u8 where "STUN_COOKIE_B4 = 0x42"
definition STUN_FINGERPRINT_XOR :: u32 where "STUN_FINGERPRINT_XOR = 0x5354554e"
definition STUN_HEADER_SIZE :: nat where "STUN_HEADER_SIZE = 20"
definition MAX_STUN_MESSAGE_SIZE :: nat where "MAX_STUN_MESSAGE_SIZE = 800"
definition MAX_STUN_ATTRIBUTE_SIZE :: nat where "MAX_STUN_ATTRIBUTE_SIZE = 780"

lemmas stun_size_defs = STUN_TRANSACTION_ID_LENGTH_def STUN_IPV4_LENGTH_def STUN_IPV6_LENGTH_def
  STUN_HEADER_SIZE_def MAX_STUN_MESSAGE_SIZE_def MAX_STUN_ATTRIBUTE_SIZE_def

lemmas stun_cookie_defs = STUN_COOKIE_def STUN_COOKIE_B1_def STUN_COOKIE_B2_def STUN_COOKIE_B3_def
  STUN_COOKIE_B4_def

datatype NatBehavior = UnknownBehavior | DirectMapping | EndpointIndependentMapping
  | AddressDependentMapping | AddressAndPortDependentMapping

datatype NatFiltering = UnknownFiltering | DirectConnectionFiltering | EndpointIndependentFiltering
  | AddressDependentFiltering | AddressAndPortDependentFiltering

text \<open>
  \<^verbatim>\<open>SocketRole\<close> (\<^verbatim>\<open>stuncore/socketrole.h\<close>): primary or alternate address, then primary or
  alternate port; an enumeration the code also uses as an integer and as an array index.
\<close>

type_synonym SocketRole = u32

definition RolePP :: SocketRole where "RolePP = 0"
definition RolePA :: SocketRole where "RolePA = 1"
definition RoleAP :: SocketRole where "RoleAP = 2"
definition RoleAA :: SocketRole where "RoleAA = 3"

definition IsValidSocketRole :: "SocketRole \<Rightarrow> bool" where
  "IsValidSocketRole sr \<longleftrightarrow> 0 \<le> sr \<and> sr \<le> 3"

definition SocketRoleSwapPort :: "SocketRole \<Rightarrow> SocketRole" where
  "SocketRoleSwapPort sr = ucast ((ucast sr :: u16) XOR 0x01)"

definition SocketRoleSwapIP :: "SocketRole \<Rightarrow> SocketRole" where
  "SocketRoleSwapIP sr = ucast ((ucast sr :: u16) XOR 0x02)"

lemmas socket_role_defs = RolePP_def RolePA_def RoleAP_def RoleAA_def

lemma SocketRole_cases:
  assumes "IsValidSocketRole sr"
  obtains "sr = RolePP" | "sr = RolePA" | "sr = RoleAP" | "sr = RoleAA"
proof -
  have "unat sr \<le> 3" using assms by (simp add: IsValidSocketRole_def word_le_nat_alt)
  then have "unat sr = 0 \<or> unat sr = 1 \<or> unat sr = 2 \<or> unat sr = 3" by auto
  then have "sr = 0 \<or> sr = 1 \<or> sr = 2 \<or> sr = 3" by (auto simp: word_unat_eq_iff)
  with that show ?thesis by (auto simp: socket_role_defs)
qed

lemma SocketRole_swap_simps [simp]:
  "SocketRoleSwapPort RolePP = RolePA" "SocketRoleSwapPort RolePA = RolePP"
  "SocketRoleSwapPort RoleAP = RoleAA" "SocketRoleSwapPort RoleAA = RoleAP"
  "SocketRoleSwapIP RolePP = RoleAP" "SocketRoleSwapIP RoleAP = RolePP"
  "SocketRoleSwapIP RolePA = RoleAA" "SocketRoleSwapIP RoleAA = RolePA"
  "IsValidSocketRole RolePP" "IsValidSocketRole RolePA" "IsValidSocketRole RoleAP"
  "IsValidSocketRole RoleAA"
  by (simp_all add: SocketRoleSwapPort_def SocketRoleSwapIP_def IsValidSocketRole_def socket_role_defs)

text \<open>Swapping address and port are involutions that commute and stay among the four roles.\<close>

lemma SocketRole_swap_swap:
  assumes "IsValidSocketRole sr"
  shows "SocketRoleSwapPort (SocketRoleSwapPort sr) = sr \<and> SocketRoleSwapIP (SocketRoleSwapIP sr) = sr \<and>
    SocketRoleSwapIP (SocketRoleSwapPort sr) = SocketRoleSwapPort (SocketRoleSwapIP sr) \<and>
    IsValidSocketRole (SocketRoleSwapPort sr) \<and> IsValidSocketRole (SocketRoleSwapIP sr)"
  using assms by (cases rule: SocketRole_cases) simp_all

text \<open>The bytes that fill an attribute of \<open>n\<close> bytes up to a multiple of four.\<close>

definition pad4 :: "nat \<Rightarrow> nat" where
  "pad4 n = (if n mod 4 \<noteq> 0 then 4 - n mod 4 else 0)"

lemma pad4_le: "pad4 n \<le> 3"
  by (auto simp: pad4_def)

lemma pad4_mod [simp]: "(n + pad4 n) mod 4 = 0"
  by (auto simp: pad4_def) presburger

end
