(* ===== verification/Buffer.thy ===== *)
theory Buffer
  imports Prelude
begin

text \<open>
  The byte buffer \<^verbatim>\<open>CBuffer\<close> (\<^verbatim>\<open>stuncore/buffer.cpp\<close>): a block of memory, the number of bytes
  the block can hold and the number of bytes in use. \<open>None\<close> is the null pointer. Allocation is
  C++ \<^verbatim>\<open>new\<close>, which does not return without a block.
\<close>

record CBuffer =
  b_data :: "u8 list option"
  b_size :: nat
  b_allocated :: nat

definition CBuffer_null :: CBuffer where
  "CBuffer_null = \<lparr>b_data = None, b_size = 0, b_allocated = 0\<rparr>"

definition CBuffer_Reset :: "CBuffer \<Rightarrow> CBuffer" where
  "CBuffer_Reset b = b\<lparr>b_data := None, b_size := 0, b_allocated := 0\<rparr>"

text \<open>Two bytes more than asked for are allocated and zeroed, and not counted.\<close>

definition CBuffer_InitWithAllocation :: "nat \<Rightarrow> CBuffer \<Rightarrow> HRESULT \<times> CBuffer" where
  "CBuffer_InitWithAllocation sz b =
     (let b = CBuffer_Reset b;
          b = b\<lparr>b_data := Some (replicate sz uninit_byte @ [0, 0])\<rparr>;
          b = b\<lparr>b_size := (if b_data b \<noteq> None then sz else 0)\<rparr>;
          b = b\<lparr>b_allocated := b_size b\<rparr>
      in ((if b_data b \<noteq> None then S_OK else E_FAIL), b))"

definition CBuffer_InitNoAlloc :: "u8 list option \<Rightarrow> nat \<Rightarrow> CBuffer \<Rightarrow> HRESULT \<times> CBuffer" where
  "CBuffer_InitNoAlloc pByteArray sz b =
     (let b = CBuffer_Reset b;
          sz = (if pByteArray = None then 0 else sz)
      in (S_OK, b\<lparr>b_data := pByteArray, b_size := sz, b_allocated := sz\<rparr>))"

definition CBuffer_InitWithAllocAndCopy ::
  "u8 list option \<Rightarrow> nat \<Rightarrow> CBuffer \<Rightarrow> HRESULT \<times> CBuffer" where
  "CBuffer_InitWithAllocAndCopy pByteArray sz b =
     (let b = CBuffer_Reset b;
          sz = (if pByteArray = None then 0 else sz);
          (hr, b) = CBuffer_InitWithAllocation sz b
      in if SUCCEEDED hr
         then (hr, b\<lparr>b_data := map_option
                (poke 0 (case pByteArray of None \<Rightarrow> [] | Some p \<Rightarrow> take (b_size b) p)) (b_data b)\<rparr>)
         else (hr, b))"

definition CBuffer_alloc :: "nat \<Rightarrow> CBuffer" where
  "CBuffer_alloc nSize = snd (CBuffer_InitWithAllocation nSize CBuffer_null)"

definition CBuffer_of_bytes :: "u8 list option \<Rightarrow> nat \<Rightarrow> bool \<Rightarrow> CBuffer" where
  "CBuffer_of_bytes pByteArray sz fCopy =
     (if fCopy = False then snd (CBuffer_InitNoAlloc pByteArray sz CBuffer_null)
      else snd (CBuffer_InitWithAllocAndCopy pByteArray sz CBuffer_null))"

definition CBuffer_GetSize :: "CBuffer \<Rightarrow> nat" where
  "CBuffer_GetSize b = b_size b"

definition CBuffer_GetAllocatedSize :: "CBuffer \<Rightarrow> nat" where
  "CBuffer_GetAllocatedSize b = b_allocated b"

text \<open>
  The result code is the comparison itself, a C++ \<^verbatim>\<open>bool\<close> stored in an \<^verbatim>\<open>HRESULT\<close>: 1 or 0,
  neither of which is a failure.
\<close>

definition CBuffer_SetSize :: "nat \<Rightarrow> CBuffer \<Rightarrow> HRESULT \<times> CBuffer" where
  "CBuffer_SetSize sz b =
     (let hr = (if sz \<le> b_allocated b then 1 else 0) :: HRESULT
      in if SUCCEEDED hr then (hr, b\<lparr>b_size := sz\<rparr>) else (hr, b))"

definition CBuffer_IsValid :: "CBuffer \<Rightarrow> bool" where
  "CBuffer_IsValid b \<longleftrightarrow> b_data b \<noteq> None"

subsection \<open>Well-formed buffers and their content\<close>

text \<open>A well-formed buffer has a block, which holds at least the bytes it counts.\<close>

definition buf_wf :: "CBuffer \<Rightarrow> bool" where
  "buf_wf b \<longleftrightarrow> (case b_data b of None \<Rightarrow> False
     | Some m \<Rightarrow> b_size b \<le> b_allocated b \<and> b_allocated b \<le> length m)"

definition buf_bytes :: "CBuffer \<Rightarrow> u8 list" where
  "buf_bytes b = (case b_data b of None \<Rightarrow> [] | Some m \<Rightarrow> take (b_size b) m)"

lemma length_buf_bytes [simp]: "buf_wf b \<Longrightarrow> length (buf_bytes b) = b_size b"
  by (auto simp: buf_wf_def buf_bytes_def split: option.splits)

lemma CBuffer_alloc_simps [simp]:
  "b_size (CBuffer_alloc n) = n" "b_allocated (CBuffer_alloc n) = n" "buf_wf (CBuffer_alloc n)"
  "b_data (CBuffer_alloc n) = Some (replicate n uninit_byte @ [0, 0])"
  by (simp_all add: CBuffer_alloc_def CBuffer_InitWithAllocation_def CBuffer_null_def
      CBuffer_Reset_def buf_wf_def)

lemma CBuffer_of_bytes_simps [simp]:
  "b_size (CBuffer_of_bytes (Some bs) n False) = n"
  "b_allocated (CBuffer_of_bytes (Some bs) n False) = n"
  "b_data (CBuffer_of_bytes (Some bs) n False) = Some bs"
  "n \<le> length bs \<Longrightarrow> buf_wf (CBuffer_of_bytes (Some bs) n False)"
  "n \<le> length bs \<Longrightarrow> buf_bytes (CBuffer_of_bytes (Some bs) n False) = take n bs"
  by (simp_all add: CBuffer_of_bytes_def CBuffer_InitNoAlloc_def CBuffer_null_def
      CBuffer_Reset_def buf_wf_def buf_bytes_def)

lemma buf_bytes_copy:
  "n \<le> length bs \<Longrightarrow> buf_bytes (CBuffer_of_bytes (Some bs) n True) = take n bs"
  by (simp add: CBuffer_of_bytes_def CBuffer_InitWithAllocAndCopy_def
      CBuffer_InitWithAllocation_def CBuffer_null_def CBuffer_Reset_def buf_bytes_def poke_def)

lemma SetSize_simps [simp]:
  "SUCCEEDED (fst (CBuffer_SetSize n b))" "snd (CBuffer_SetSize n b) = b\<lparr>b_size := n\<rparr>"
  by (auto simp: CBuffer_SetSize_def hresult_defs Let_def)

lemma buf_wf_SetSize: "buf_wf b \<Longrightarrow> n \<le> b_allocated b \<Longrightarrow> buf_wf (b\<lparr>b_size := n\<rparr>)"
  by (auto simp: buf_wf_def split: option.splits)

end
