(* ===== verification/DataStream.thy ===== *)
theory DataStream
  imports Buffer
begin

text \<open>
  The byte stream \<^verbatim>\<open>CDataStream\<close> (\<^verbatim>\<open>stuncore/datastream.cpp\<close>): a cursor over a shared buffer.
  The stream's buffer is kept by value. Another owner of the buffer a stream was attached to sees
  the writes of the stream until \<^verbatim>\<open>Grow\<close> replaces the buffer: \<open>ds_released\<close> keeps the buffers
  \<^verbatim>\<open>Grow\<close> has given up, so \<open>ds_attached_view\<close> is the buffer such an owner sees.
  Sizes are natural numbers, below \<open>2 ^ 64\<close>.
\<close>

record CDataStream =
  ds_buffer :: "CBuffer option"
  ds_pos :: nat
  ds_nogrow :: bool
  ds_released :: "CBuffer list"

definition CDataStream_empty :: CDataStream where
  "CDataStream_empty = \<lparr>ds_buffer = None, ds_pos = 0, ds_nogrow = False, ds_released = []\<rparr>"

definition CDataStream_on :: "CBuffer option \<Rightarrow> CDataStream" where
  "CDataStream_on spBuffer =
     \<lparr>ds_buffer = spBuffer, ds_pos = 0, ds_nogrow = False, ds_released = []\<rparr>"

definition DS_Reset :: "CDataStream \<Rightarrow> CDataStream" where
  "DS_Reset s = s\<lparr>ds_buffer := None, ds_pos := 0, ds_nogrow := False, ds_released := []\<rparr>"

definition DS_Attach :: "CBuffer option \<Rightarrow> bool \<Rightarrow> CDataStream \<Rightarrow> CDataStream" where
  "DS_Attach buf fForWriting s =
     (let s = (DS_Reset s)\<lparr>ds_buffer := buf\<rparr>
      in case buf of
           None \<Rightarrow> s
         | Some b \<Rightarrow> if fForWriting then s\<lparr>ds_buffer := Some (snd (CBuffer_SetSize 0 b))\<rparr> else s)"

definition DS_GetSize :: "CDataStream \<Rightarrow> nat" where
  "DS_GetSize s = (case ds_buffer s of None \<Rightarrow> 0 | Some b \<Rightarrow> CBuffer_GetSize b)"

definition DS_GetPos :: "CDataStream \<Rightarrow> nat" where
  "DS_GetPos s = ds_pos s"

definition DS_IsEOF :: "CDataStream \<Rightarrow> bool" where
  "DS_IsEOF s \<longleftrightarrow> DS_GetSize s \<le> ds_pos s"

definition DS_SetNoGrow :: "bool \<Rightarrow> CDataStream \<Rightarrow> CDataStream" where
  "DS_SetNoGrow fNoGrow s = s\<lparr>ds_nogrow := fNoGrow\<rparr>"

definition DS_GetBuffer :: "CDataStream \<Rightarrow> CBuffer option" where
  "DS_GetBuffer s = ds_buffer s"

definition DS_GetDataPointerUnsafe :: "CDataStream \<Rightarrow> u8 list option" where
  "DS_GetDataPointerUnsafe s = (case ds_buffer s of None \<Rightarrow> None | Some b \<Rightarrow> b_data b)"

definition DS_Read :: "nat \<Rightarrow> CDataStream \<Rightarrow> HRESULT \<times> u8 list \<times> CDataStream" where
  "DS_Read sz s =
     (let newpos = sz + ds_pos s;
          currentSize = DS_GetSize s
      in if newpos > currentSize then (E_INVALIDARG, [], s)
         else (S_OK,
               (case DS_GetDataPointerUnsafe s of None \<Rightarrow> [] | Some m \<Rightarrow> peek (ds_pos s) sz m),
               s\<lparr>ds_pos := newpos\<rparr>))"

definition DS_Grow :: "nat \<Rightarrow> CDataStream \<Rightarrow> HRESULT \<times> CDataStream" where
  "DS_Grow sz s =
     (let currentAllocated =
            (case ds_buffer s of None \<Rightarrow> 0 | Some b \<Rightarrow> CBuffer_GetAllocatedSize b);
          currentSize = DS_GetSize s
      in if sz \<le> currentAllocated then (S_OK, s)
         else if ds_nogrow s then (E_FAIL, s)
         else
           (let newallocationsize =
                  (if sz > currentAllocated * 2 then sz else currentAllocated * 2);
                spNewBuffer = CBuffer_alloc newallocationsize
            in if CBuffer_IsValid spNewBuffer = False then (E_OUTOFMEMORY, s)
               else
                 (let spNewBuffer = snd (CBuffer_SetSize currentSize spNewBuffer);
                      spNewBuffer =
                        (case DS_GetDataPointerUnsafe s of
                           None \<Rightarrow> spNewBuffer
                         | Some m \<Rightarrow>
                             if currentSize > 0
                             then spNewBuffer\<lparr>b_data :=
                                    map_option (poke 0 (take currentSize m)) (b_data spNewBuffer)\<rparr>
                             else spNewBuffer)
                  in (S_OK, s\<lparr>ds_buffer := Some spNewBuffer,
                              ds_released :=
                                (case ds_buffer s of None \<Rightarrow> ds_released s
                                                   | Some b \<Rightarrow> b # ds_released s)\<rparr>))))"

definition DS_SetSizeHint :: "nat \<Rightarrow> CDataStream \<Rightarrow> HRESULT \<times> CDataStream" where
  "DS_SetSizeHint sz s = DS_Grow sz s"

text \<open>A null data pointer is the empty list: \<^verbatim>\<open>Write\<close> refuses both alike.\<close>

definition DS_Write :: "u8 list \<Rightarrow> CDataStream \<Rightarrow> HRESULT \<times> CDataStream" where
  "DS_Write data s =
     (let sz = length data;
          newposition = sz + ds_pos s;
          currentSize = DS_GetSize s
      in if sz = 0 then (E_FAIL, s)
         else
           (let (hr, s) = DS_Grow newposition s
            in if FAILED hr then (hr, s)
               else
                 case ds_buffer s of
                   None \<Rightarrow> (hr, s)
                 | Some b \<Rightarrow>
                     (let b = b\<lparr>b_data := map_option (poke (ds_pos s) data) (b_data b)\<rparr>;
                          s = s\<lparr>ds_pos := newposition\<rparr>
                      in if newposition > currentSize
                         then (let (hr, b) = CBuffer_SetSize newposition b
                               in (hr, s\<lparr>ds_buffer := Some b\<rparr>))
                         else (hr, s\<lparr>ds_buffer := Some b\<rparr>))))"

definition DS_SeekDirect :: "nat \<Rightarrow> CDataStream \<Rightarrow> HRESULT \<times> CDataStream" where
  "DS_SeekDirect pos s =
     (let currentSize = DS_GetSize s
      in if pos \<le> currentSize then (S_OK, s\<lparr>ds_pos := pos\<rparr>) else (E_FAIL, s))"

text \<open>The sum of the signed offset and the position is converted to \<^verbatim>\<open>size_t\<close>.\<close>

definition DS_SeekRelative :: "int \<Rightarrow> CDataStream \<Rightarrow> HRESULT \<times> CDataStream" where
  "DS_SeekRelative offset s = DS_SeekDirect (nat ((offset + int (ds_pos s)) mod 2 ^ 64)) s"

definition DS_WriteUint8 :: "u8 \<Rightarrow> CDataStream \<Rightarrow> HRESULT \<times> CDataStream" where
  "DS_WriteUint8 val s = DS_Write [val] s"

definition DS_WriteUint16 :: "u16 \<Rightarrow> CDataStream \<Rightarrow> HRESULT \<times> CDataStream" where
  "DS_WriteUint16 val s = DS_Write (host16 val) s"

definition DS_WriteUint32 :: "u32 \<Rightarrow> CDataStream \<Rightarrow> HRESULT \<times> CDataStream" where
  "DS_WriteUint32 val s = DS_Write (host32 val) s"

definition DS_ReadUint8 :: "CDataStream \<Rightarrow> HRESULT \<times> u8 \<times> CDataStream" where
  "DS_ReadUint8 s = (case DS_Read 1 s of (hr, d, s) \<Rightarrow> (hr, (if d = [] then 0 else hd d), s))"

definition DS_ReadUint16 :: "CDataStream \<Rightarrow> HRESULT \<times> u16 \<times> CDataStream" where
  "DS_ReadUint16 s = (case DS_Read 2 s of (hr, d, s) \<Rightarrow> (hr, unhost16 d, s))"

definition DS_ReadUint32 :: "CDataStream \<Rightarrow> HRESULT \<times> u32 \<times> CDataStream" where
  "DS_ReadUint32 s = (case DS_Read 4 s of (hr, d, s) \<Rightarrow> (hr, unhost32 d, s))"

definition DS_WriteUint64 :: "u64 \<Rightarrow> CDataStream \<Rightarrow> HRESULT \<times> CDataStream" where
  "DS_WriteUint64 w s = DS_Write (host64 w) s"

definition DS_ReadUint64 :: "CDataStream \<Rightarrow> HRESULT \<times> u64 \<times> CDataStream" where
  "DS_ReadUint64 s = (case DS_Read 8 s of (hr, d, s) \<Rightarrow> (hr, unhost64 d, s))"

text \<open>Signed integers are written and read in two's complement at their width.\<close>

definition DS_WriteInt8 :: "int \<Rightarrow> CDataStream \<Rightarrow> HRESULT \<times> CDataStream" where
  "DS_WriteInt8 w s = DS_Write [word_of_int w] s"

definition DS_WriteInt16 :: "int \<Rightarrow> CDataStream \<Rightarrow> HRESULT \<times> CDataStream" where
  "DS_WriteInt16 w s = DS_Write (host16 (word_of_int w)) s"

definition DS_WriteInt32 :: "int \<Rightarrow> CDataStream \<Rightarrow> HRESULT \<times> CDataStream" where
  "DS_WriteInt32 w s = DS_Write (host32 (word_of_int w)) s"

definition DS_WriteInt64 :: "int \<Rightarrow> CDataStream \<Rightarrow> HRESULT \<times> CDataStream" where
  "DS_WriteInt64 w s = DS_Write (host64 (word_of_int w)) s"

definition DS_ReadInt8 :: "CDataStream \<Rightarrow> HRESULT \<times> int \<times> CDataStream" where
  "DS_ReadInt8 s = (case DS_Read 1 s of (hr, d, s) \<Rightarrow> (hr, (case d of [] \<Rightarrow> 0 | b # _ \<Rightarrow> sint b), s))"

definition DS_ReadInt16 :: "CDataStream \<Rightarrow> HRESULT \<times> int \<times> CDataStream" where
  "DS_ReadInt16 s = (case DS_Read 2 s of (hr, d, s) \<Rightarrow> (hr, sint (unhost16 d), s))"

definition DS_ReadInt32 :: "CDataStream \<Rightarrow> HRESULT \<times> int \<times> CDataStream" where
  "DS_ReadInt32 s = (case DS_Read 4 s of (hr, d, s) \<Rightarrow> (hr, sint (unhost32 d), s))"

definition DS_ReadInt64 :: "CDataStream \<Rightarrow> HRESULT \<times> int \<times> CDataStream" where
  "DS_ReadInt64 s = (case DS_Read 8 s of (hr, d, s) \<Rightarrow> (hr, sint (unhost64 d), s))"

definition ds_attached_view :: "CDataStream \<Rightarrow> CBuffer option" where
  "ds_attached_view s = (if ds_released s = [] then ds_buffer s else Some (last (ds_released s)))"

subsection \<open>Well-formed streams and their content\<close>

definition ds_wf :: "CDataStream \<Rightarrow> bool" where
  "ds_wf s \<longleftrightarrow> (case ds_buffer s of None \<Rightarrow> ds_pos s = 0 | Some b \<Rightarrow> buf_wf b \<and> ds_pos s \<le> b_size b)"

definition ds_bytes :: "CDataStream \<Rightarrow> u8 list" where
  "ds_bytes s = (case ds_buffer s of None \<Rightarrow> [] | Some b \<Rightarrow> buf_bytes b)"

definition ds_capacity :: "CDataStream \<Rightarrow> nat" where
  "ds_capacity s = (case ds_buffer s of None \<Rightarrow> 0 | Some b \<Rightarrow> b_allocated b)"

text \<open>A stream that can be written: well-formed and free to grow.\<close>

definition ds_ok :: "CDataStream \<Rightarrow> bool" where
  "ds_ok s \<longleftrightarrow> ds_wf s \<and> \<not> ds_nogrow s"

lemmas ds_defs = ds_wf_def ds_bytes_def ds_capacity_def DS_GetSize_def CBuffer_GetSize_def
  CBuffer_GetAllocatedSize_def DS_GetDataPointerUnsafe_def buf_wf_def buf_bytes_def

lemma ds_empty_simps [simp]:
  "ds_ok CDataStream_empty" "ds_bytes CDataStream_empty = []" "ds_pos CDataStream_empty = 0"
  "ds_released CDataStream_empty = []"
  by (simp_all add: CDataStream_empty_def ds_ok_def ds_defs)

lemma DS_GetSize_bytes: "ds_wf s \<Longrightarrow> DS_GetSize s = length (ds_bytes s)"
  by (auto simp: ds_defs split: option.splits)

lemma ds_pos_le: "ds_wf s \<Longrightarrow> ds_pos s \<le> length (ds_bytes s)"
  by (auto simp: ds_defs split: option.splits)

lemma ds_bytes_le_capacity: "ds_wf s \<Longrightarrow> length (ds_bytes s) \<le> ds_capacity s"
  by (auto simp: ds_defs split: option.splits)

lemma DS_Attach_simps [simp]:
  "ds_pos (DS_Attach b w s) = 0" "ds_nogrow (DS_Attach b w s) = False"
  "ds_released (DS_Attach b w s) = []"
  by (auto simp: DS_Attach_def DS_Reset_def Let_def split: option.splits)

lemma DS_Attach_write:
  "buf_wf b \<Longrightarrow> ds_ok (DS_Attach (Some b) True s)"
  "buf_wf b \<Longrightarrow> ds_bytes (DS_Attach (Some b) True s) = []"
  "ds_capacity (DS_Attach (Some b) True s) = b_allocated b"
  by (auto simp: DS_Attach_def DS_Reset_def ds_ok_def ds_defs Let_def split: option.splits)

lemma DS_Attach_read:
  "buf_wf b \<Longrightarrow> ds_ok (DS_Attach (Some b) False s)"
  "buf_wf b \<Longrightarrow> ds_bytes (DS_Attach (Some b) False s) = buf_bytes b"
  by (auto simp: DS_Attach_def DS_Reset_def ds_ok_def ds_defs Let_def split: option.splits)

lemma CDataStream_on_simps [simp]:
  "ds_pos (CDataStream_on b) = 0" "ds_nogrow (CDataStream_on b) = False"
  "buf_wf c \<Longrightarrow> ds_ok (CDataStream_on (Some c))"
  "ds_bytes (CDataStream_on (Some c)) = buf_bytes c"
  by (auto simp: CDataStream_on_def ds_ok_def ds_defs split: option.splits)

lemma DS_Grow_fits: "sz \<le> ds_capacity s \<Longrightarrow> DS_Grow sz s = (S_OK, s)"
  by (auto simp: DS_Grow_def ds_defs Let_def split: option.splits)

lemma DS_Grow_ok:
  assumes "ds_ok s"
  shows "fst (DS_Grow sz s) = S_OK" "ds_ok (snd (DS_Grow sz s))"
    "ds_bytes (snd (DS_Grow sz s)) = ds_bytes s" "ds_pos (snd (DS_Grow sz s)) = ds_pos s"
    "sz \<le> ds_capacity (snd (DS_Grow sz s))"
    "ds_buffer (snd (DS_Grow sz s)) = None \<longrightarrow> ds_buffer s = None \<and> sz = 0"
proof -
  have "fst (DS_Grow sz s) = S_OK \<and> ds_ok (snd (DS_Grow sz s)) \<and>
    ds_bytes (snd (DS_Grow sz s)) = ds_bytes s \<and> ds_pos (snd (DS_Grow sz s)) = ds_pos s \<and>
    sz \<le> ds_capacity (snd (DS_Grow sz s)) \<and>
    (ds_buffer (snd (DS_Grow sz s)) = None \<longrightarrow> ds_buffer s = None \<and> sz = 0)"
  proof (cases "ds_buffer s")
    case None
    with assms show ?thesis
      by (auto simp: DS_Grow_def Let_def ds_ok_def ds_defs CBuffer_IsValid_def poke_def)
  next
    case (Some b)
    with assms show ?thesis
      by (cases "b_data b")
        (auto simp: DS_Grow_def Let_def ds_ok_def ds_defs CBuffer_IsValid_def poke_def)
  qed
  then show "fst (DS_Grow sz s) = S_OK" "ds_ok (snd (DS_Grow sz s))"
    "ds_bytes (snd (DS_Grow sz s)) = ds_bytes s" "ds_pos (snd (DS_Grow sz s)) = ds_pos s"
    "sz \<le> ds_capacity (snd (DS_Grow sz s))"
    "ds_buffer (snd (DS_Grow sz s)) = None \<longrightarrow> ds_buffer s = None \<and> sz = 0"
    by blast+
qed

text \<open>
  Writing overwrites what is at the cursor and extends the stream beyond its end; a write that
  fits the buffer does not replace it.
\<close>

lemma DS_Write_grown:
  assumes ok: "ds_ok s" and d: "d \<noteq> []" and cap: "length d + ds_pos s \<le> ds_capacity s"
  shows "SUCCEEDED (fst (DS_Write d s))" "ds_ok (snd (DS_Write d s))"
    "ds_bytes (snd (DS_Write d s)) = poke (ds_pos s) d (ds_bytes s)"
    "ds_pos (snd (DS_Write d s)) = ds_pos s + length d"
    "ds_capacity (snd (DS_Write d s)) = ds_capacity s"
    "ds_released (snd (DS_Write d s)) = ds_released s"
proof -
  have grow: "DS_Grow (length d + ds_pos s) s = (S_OK, s)"
    using cap by (rule DS_Grow_fits)
  from d cap obtain b where b: "ds_buffer s = Some b"
    by (cases "ds_buffer s") (auto simp: ds_defs)
  with ok obtain m where m: "b_data b = Some m"
    by (cases "b_data b") (auto simp: ds_ok_def ds_defs)
  have wf: "b_size b \<le> b_allocated b" "b_allocated b \<le> length m" "ds_pos s \<le> b_size b"
      "length d + ds_pos s \<le> b_allocated b" "\<not> ds_nogrow s"
    using ok b m cap by (auto simp: ds_ok_def ds_defs)
  let ?b = "b\<lparr>b_data := Some (poke (ds_pos s) d m), b_size := max (b_size b) (length d + ds_pos s)\<rparr>"
  have wr: "SUCCEEDED (fst (DS_Write d s))"
      "snd (DS_Write d s) = s\<lparr>ds_pos := length d + ds_pos s, ds_buffer := Some ?b\<rparr>"
    using d grow b m
    by (auto simp: DS_Write_def Let_def DS_GetSize_def CBuffer_GetSize_def CBuffer_SetSize_def
        SUCCEEDED_def S_OK_def max_def)
  have len: "length (poke (ds_pos s) d m) = length m" using wf by simp
  show "SUCCEEDED (fst (DS_Write d s))" by (rule wr(1))
  show "ds_ok (snd (DS_Write d s))"
    using wf len by (simp add: wr(2) ds_ok_def ds_wf_def buf_wf_def)
  show "ds_pos (snd (DS_Write d s)) = ds_pos s + length d" by (simp add: wr(2))
  show "ds_capacity (snd (DS_Write d s)) = ds_capacity s"
    using b by (simp add: wr(2) ds_capacity_def)
  show "ds_released (snd (DS_Write d s)) = ds_released s" by (simp add: wr(2))
  have "take (max (b_size b) (length d + ds_pos s)) (poke (ds_pos s) d m)
      = poke (ds_pos s) d (take (b_size b) m)"
    using take_max_poke [of "ds_pos s" "b_size b" m d] wf by (simp add: add.commute)
  then show "ds_bytes (snd (DS_Write d s)) = poke (ds_pos s) d (ds_bytes s)"
    using b m by (simp add: wr(2) ds_bytes_def buf_bytes_def)
qed

lemma DS_Write_after_Grow:
  assumes "ds_ok s" "d \<noteq> []"
  shows "DS_Write d s = DS_Write d (snd (DS_Grow (length d + ds_pos s) s))"
proof -
  let ?g = "DS_Grow (length d + ds_pos s) s"
  have sz: "DS_GetSize (snd ?g) = DS_GetSize s"
    using DS_Grow_ok [OF assms(1), of "length d + ds_pos s"] assms(1)
    by (auto simp: ds_ok_def DS_GetSize_bytes)
  have again: "DS_Grow (length d + ds_pos s) (snd ?g) = (S_OK, snd ?g)"
    by (rule DS_Grow_fits) (rule DS_Grow_ok(5) [OF assms(1)])
  obtain hr s' where g: "?g = (hr, s')" by fastforce
  have "hr = S_OK" "ds_pos s' = ds_pos s" "ds_buffer s' \<noteq> None"
    using DS_Grow_ok [OF assms(1), of "length d + ds_pos s"] g assms(2) by auto
  with assms(2) g again sz show ?thesis
    by (auto simp: DS_Write_def Let_def DS_GetSize_def CBuffer_GetSize_def split: option.splits)
qed

lemma DS_Write_ok:
  assumes "ds_ok s" "d \<noteq> []"
  shows "SUCCEEDED (fst (DS_Write d s))" "ds_ok (snd (DS_Write d s))"
    "ds_bytes (snd (DS_Write d s)) = poke (ds_pos s) d (ds_bytes s)"
    "ds_pos (snd (DS_Write d s)) = ds_pos s + length d"
proof -
  let ?s = "snd (DS_Grow (length d + ds_pos s) s)"
  note g = DS_Grow_ok [OF assms(1), of "length d + ds_pos s"]
  have "length d + ds_pos ?s \<le> ds_capacity ?s" using g by simp
  note w = DS_Write_grown [OF g(2) assms(2) this]
  show "SUCCEEDED (fst (DS_Write d s))" "ds_ok (snd (DS_Write d s))"
    "ds_bytes (snd (DS_Write d s)) = poke (ds_pos s) d (ds_bytes s)"
    "ds_pos (snd (DS_Write d s)) = ds_pos s + length d"
    using w g by (simp_all add: DS_Write_after_Grow [OF assms])
qed

lemma DS_Read_ok:
  assumes "ds_ok s" "n + ds_pos s \<le> length (ds_bytes s)"
  shows "DS_Read n s = (S_OK, peek (ds_pos s) n (ds_bytes s), s\<lparr>ds_pos := n + ds_pos s\<rparr>)"
    and "ds_ok (s\<lparr>ds_pos := n + ds_pos s\<rparr>)"
  using assms
  by (auto simp: DS_Read_def ds_ok_def Let_def ds_defs peek_take split: option.splits)

lemma DS_Read_short:
  assumes "ds_ok s" "length (ds_bytes s) < n + ds_pos s"
  shows "DS_Read n s = (E_INVALIDARG, [], s)"
  using assms by (auto simp: DS_Read_def ds_ok_def DS_GetSize_bytes Let_def)

lemma ds_pos_update [simp]:
  "ds_bytes (s\<lparr>ds_pos := p\<rparr>) = ds_bytes s" "ds_capacity (s\<lparr>ds_pos := p\<rparr>) = ds_capacity s"
  "p \<le> length (ds_bytes s) \<Longrightarrow> ds_ok s \<Longrightarrow> ds_ok (s\<lparr>ds_pos := p\<rparr>)"
  by (auto simp: ds_ok_def ds_defs split: option.splits)

lemma DS_SeekDirect_ok:
  "ds_ok s \<Longrightarrow> p \<le> length (ds_bytes s) \<Longrightarrow> DS_SeekDirect p s = (S_OK, s\<lparr>ds_pos := p\<rparr>)"
  by (simp add: DS_SeekDirect_def ds_ok_def DS_GetSize_bytes)

lemma DS_SeekDirect_far:
  "ds_ok s \<Longrightarrow> length (ds_bytes s) < p \<Longrightarrow> DS_SeekDirect p s = (E_FAIL, s)"
  by (simp add: DS_SeekDirect_def ds_ok_def DS_GetSize_bytes)

lemma DS_SeekRelative_nat:
  assumes "int (ds_pos s) + i \<ge> 0" "int (ds_pos s) + i < 2 ^ 64"
  shows "DS_SeekRelative i s = DS_SeekDirect (nat (int (ds_pos s) + i)) s"
  using assms by (simp add: DS_SeekRelative_def add.commute)

text \<open>Guarded reads and seeks, as the code chains them.\<close>

lemma Chk_Read:
  "ds_ok s \<Longrightarrow> ChkTo c (DS_Read n s) k =
    (if n + ds_pos s \<le> length (ds_bytes s)
     then k S_OK (peek (ds_pos s) n (ds_bytes s), s\<lparr>ds_pos := n + ds_pos s\<rparr>)
     else (E_INVALIDARG, c ([], s)))"
  using DS_Read_ok [of s n] DS_Read_short [of s n] by auto

lemma Chk_ReadUint8:
  "ds_ok s \<Longrightarrow> ChkTo c (DS_ReadUint8 s) k =
    (if 1 + ds_pos s \<le> length (ds_bytes s)
     then k S_OK (ds_bytes s ! ds_pos s, s\<lparr>ds_pos := 1 + ds_pos s\<rparr>)
     else (E_INVALIDARG, c (0, s)))"
  using DS_Read_ok [of s 1] DS_Read_short [of s 1]
  by (auto simp: DS_ReadUint8_def peek_def take_Suc_conv_app_nth hd_drop_conv_nth split: prod.split)

lemma Chk_ReadUint16:
  "ds_ok s \<Longrightarrow> ChkTo c (DS_ReadUint16 s) k =
    (if 2 + ds_pos s \<le> length (ds_bytes s)
     then k S_OK (unhost16 (peek (ds_pos s) 2 (ds_bytes s)), s\<lparr>ds_pos := 2 + ds_pos s\<rparr>)
     else (E_INVALIDARG, c (0, s)))"
  using DS_Read_ok [of s 2] DS_Read_short [of s 2] by (auto simp: DS_ReadUint16_def)

lemma Chk_ReadUint32:
  "ds_ok s \<Longrightarrow> ChkTo c (DS_ReadUint32 s) k =
    (if 4 + ds_pos s \<le> length (ds_bytes s)
     then k S_OK (unhost32 (peek (ds_pos s) 4 (ds_bytes s)), s\<lparr>ds_pos := 4 + ds_pos s\<rparr>)
     else (E_INVALIDARG, c (0, s)))"
  using DS_Read_ok [of s 4] DS_Read_short [of s 4] by (auto simp: DS_ReadUint32_def)

lemma Chk_SeekDirect:
  "ds_ok s \<Longrightarrow> ChkTo c (DS_SeekDirect p s) k =
    (if p \<le> length (ds_bytes s) then k S_OK (s\<lparr>ds_pos := p\<rparr>) else (E_FAIL, c s))"
  using DS_SeekDirect_ok [of s p] DS_SeekDirect_far [of s p] by auto

lemma DS_SeekRelative_direct:
  assumes "int (ds_pos s) + i < 2 ^ 64" "0 \<le> int (ds_pos s) + i"
  shows "DS_SeekRelative i s = DS_SeekDirect (nat (int (ds_pos s) + i)) s"
  using assms by (simp add: DS_SeekRelative_nat)

lemmas Chk_streams = Chk_Read Chk_ReadUint8 Chk_ReadUint16 Chk_ReadUint32 Chk_SeekDirect

subsection \<open>The stream interface\<close>

text \<open>
  What the users of a stream rely on: a stream holds a byte string and a cursor, writing pokes,
  reading peeks, seeking moves the cursor within the string.
\<close>

locale byte_stream =
  fixes ok :: "'s \<Rightarrow> bool" and bytes :: "'s \<Rightarrow> u8 list" and pos :: "'s \<Rightarrow> nat"
    and swrite :: "u8 list \<Rightarrow> 's \<Rightarrow> HRESULT \<times> 's"
    and sread :: "nat \<Rightarrow> 's \<Rightarrow> HRESULT \<times> u8 list \<times> 's"
    and sseek :: "nat \<Rightarrow> 's \<Rightarrow> HRESULT \<times> 's"
  assumes write_ok: "ok s \<Longrightarrow> d \<noteq> [] \<Longrightarrow> SUCCEEDED (fst (swrite d s)) \<and> ok (snd (swrite d s))"
    and write_bytes: "ok s \<Longrightarrow> d \<noteq> [] \<Longrightarrow> bytes (snd (swrite d s)) = poke (pos s) d (bytes s)"
    and write_pos: "ok s \<Longrightarrow> d \<noteq> [] \<Longrightarrow> pos (snd (swrite d s)) = pos s + length d"
    and pos_le: "ok s \<Longrightarrow> pos s \<le> length (bytes s)"
    and seek_ok: "ok s \<Longrightarrow> p \<le> length (bytes s) \<Longrightarrow> SUCCEEDED (fst (sseek p s)) \<and> ok (snd (sseek p s))
      \<and> bytes (snd (sseek p s)) = bytes s \<and> pos (snd (sseek p s)) = p"
    and read_ok: "ok s \<Longrightarrow> n + pos s \<le> length (bytes s) \<Longrightarrow>
      SUCCEEDED (fst (sread n s)) \<and> fst (snd (sread n s)) = peek (pos s) n (bytes s)"
begin

definition at_end :: "'s \<Rightarrow> bool" where
  "at_end s \<longleftrightarrow> ok s \<and> pos s = length (bytes s)"

fun write_all :: "u8 list list \<Rightarrow> 's \<Rightarrow> 's" where
  "write_all [] s = s"
| "write_all (d # ds) s = write_all ds (snd (swrite d s))"

lemma write_at_end:
  assumes "at_end s" "d \<noteq> []"
  shows "SUCCEEDED (fst (swrite d s))" "at_end (snd (swrite d s))"
    "bytes (snd (swrite d s)) = bytes s @ d"
  using assms write_ok [of s d] write_bytes [of s d] write_pos [of s d]
  by (simp_all add: at_end_def poke_def)

lemma write_all_at_end:
  assumes "at_end s" "[] \<notin> set ds"
  shows "at_end (write_all ds s) \<and> bytes (write_all ds s) = bytes s @ concat ds"
  using assms
proof (induction ds arbitrary: s)
  case (Cons d ds)
  then have "at_end (snd (swrite d s))" "bytes (snd (swrite d s)) = bytes s @ d"
    by (auto simp: write_at_end)
  with Cons.IH [of "snd (swrite d s)"] Cons.prems show ?case by simp
qed simp

lemma read_back:
  assumes "at_end s" "d \<noteq> []"
  shows "fst (snd (sread (length d) (snd (sseek (pos s) (snd (swrite d s)))))) = d"
proof -
  let ?w = "snd (swrite d s)"
  have w: "at_end ?w" "bytes ?w = bytes s @ d" using assms by (simp_all add: write_at_end)
  have le: "pos s \<le> length (bytes ?w)" using assms(1) w(2) by (simp add: at_end_def)
  have k: "ok (snd (sseek (pos s) ?w))" "bytes (snd (sseek (pos s) ?w)) = bytes s @ d"
      "pos (snd (sseek (pos s) ?w)) = length (bytes s)"
    using seek_ok [OF _ le] w assms(1) by (auto simp: at_end_def)
  show ?thesis
    using read_ok [of "snd (sseek (pos s) ?w)" "length d"] k by (simp add: peek_def)
qed

end

interpretation ds: byte_stream ds_ok ds_bytes ds_pos DS_Write DS_Read DS_SeekDirect
  by unfold_locales
    (auto simp: DS_Write_ok DS_SeekDirect_ok DS_Read_ok ds_pos_le ds_ok_def [THEN iffD1, THEN conjunct1])

end
