(* ===== verification/SocketAddress.thy ===== *)
theory SocketAddress
  imports StunTypes DataStream
begin

text \<open>
  Socket addresses (\<^verbatim>\<open>stuncore/socketaddress.cpp\<close>) and the helpers of
  \<^verbatim>\<open>stuncore/stunutils.cpp\<close> that decode them. The union of \<^verbatim>\<open>sockaddr\<close>, \<^verbatim>\<open>sockaddr_in\<close> and
  \<^verbatim>\<open>sockaddr_in6\<close> is kept as its bytes: family, port, four bytes that are the IPv4 address
  (the flow label of an IPv6 address), sixteen bytes that are the IPv6 address (of which the
  first eight are the padding of an IPv4 one), and the scope id.
\<close>

definition AF_INET :: u16 where "AF_INET = 2"
definition AF_INET6 :: u16 where "AF_INET6 = 10"

lemma AF_distinct [simp]: "AF_INET \<noteq> AF_INET6" "AF_INET6 \<noteq> AF_INET"
  by (simp_all add: AF_INET_def AF_INET6_def)

record CSocketAddress =
  sa_family :: u16
  sa_port :: "u8 list"
  sa_addr4 :: "u8 list"
  sa_addr6 :: "u8 list"
  sa_scope :: "u8 list"

text \<open>The bytes after the family in \<^verbatim>\<open>struct sockaddr\<close>.\<close>

definition sa_data :: "CSocketAddress \<Rightarrow> u8 list" where
  "sa_data a = sa_port a @ sa_addr4 a @ take 8 (sa_addr6 a)"

definition CSocketAddress_zero :: CSocketAddress where
  "CSocketAddress_zero = \<lparr>sa_family = AF_INET, sa_port = replicate 2 0, sa_addr4 = replicate 4 0,
     sa_addr6 = replicate 16 0, sa_scope = replicate 4 0\<rparr>"

text \<open>
  The constructor from a \<^verbatim>\<open>sockaddr\<close>: an IPv6 address is copied whole, of any other sixteen bytes
  are copied.
\<close>

definition CSocketAddress_CommonConstructor :: "CSocketAddress \<Rightarrow> CSocketAddress" where
  "CSocketAddress_CommonConstructor addr =
     (if sa_family addr = AF_INET6 then addr
      else \<lparr>sa_family = sa_family addr, sa_port = sa_port addr, sa_addr4 = sa_addr4 addr,
            sa_addr6 = take 8 (sa_addr6 addr) @ replicate 8 uninit_byte,
            sa_scope = replicate 4 uninit_byte\<rparr>)"

definition CSocketAddress_ip4 :: "u32 \<Rightarrow> u16 \<Rightarrow> CSocketAddress" where
  "CSocketAddress_ip4 ipHostByteOrder port =
     \<lparr>sa_family = AF_INET, sa_port = host16 (htons port), sa_addr4 = host32 (htonl ipHostByteOrder),
      sa_addr6 = replicate 8 0 @ replicate 8 uninit_byte, sa_scope = replicate 4 uninit_byte\<rparr>"

text \<open>A zeroed \<^verbatim>\<open>sockaddr_in6\<close> with family, port and address filled in.\<close>

definition CSocketAddress_ip6 :: "u16 \<Rightarrow> u8 list \<Rightarrow> CSocketAddress" where
  "CSocketAddress_ip6 portNBO ip6 =
     \<lparr>sa_family = AF_INET6, sa_port = host16 portNBO, sa_addr4 = replicate 4 0,
      sa_addr6 = ip6, sa_scope = replicate 4 0\<rparr>"

definition CSocketAddress_GetPort_NBO :: "CSocketAddress \<Rightarrow> u16" where
  "CSocketAddress_GetPort_NBO a = unhost16 (sa_port a)"

definition CSocketAddress_GetPort :: "CSocketAddress \<Rightarrow> u16" where
  "CSocketAddress_GetPort a = ntohs (CSocketAddress_GetPort_NBO a)"

definition CSocketAddress_SetPort :: "u16 \<Rightarrow> CSocketAddress \<Rightarrow> CSocketAddress" where
  "CSocketAddress_SetPort port a = a\<lparr>sa_port := host16 (htons port)\<rparr>"

definition CSocketAddress_GetIPLength :: "CSocketAddress \<Rightarrow> nat" where
  "CSocketAddress_GetIPLength a = (if sa_family a = AF_INET then 4 else 16)"

text \<open>The bytes copied out; their number is the return value.\<close>

definition CSocketAddress_GetIPImpl :: "nat \<Rightarrow> bool \<Rightarrow> CSocketAddress \<Rightarrow> u8 list" where
  "CSocketAddress_GetIPImpl len fNBO a =
     (if len \<le> 0 then []
      else if len < CSocketAddress_GetIPLength a then []
      else if sa_family a = AF_INET
      then (let ip = unhost32 (sa_addr4 a);
                ip = (if fNBO = False then htonl ip else ip)
            in host32 ip)
      else sa_addr6 a)"

definition CSocketAddress_GetIP :: "nat \<Rightarrow> CSocketAddress \<Rightarrow> u8 list" where
  "CSocketAddress_GetIP len a = CSocketAddress_GetIPImpl len False a"

definition CSocketAddress_GetIP_NBO :: "nat \<Rightarrow> CSocketAddress \<Rightarrow> u8 list" where
  "CSocketAddress_GetIP_NBO len a = CSocketAddress_GetIPImpl len True a"

definition CSocketAddress_GetFamily :: "CSocketAddress \<Rightarrow> u16" where
  "CSocketAddress_GetFamily a = sa_family a"

text \<open>Byte \<open>i\<close> of the address is xored with byte \<open>i\<close> of the id, for the first \<open>n\<close> bytes.\<close>

fun xor_bytes :: "nat \<Rightarrow> u8 list \<Rightarrow> u8 list \<Rightarrow> u8 list" where
  "xor_bytes (Suc n) (b # bs) (i # is) = (b XOR i) # xor_bytes n bs is"
| "xor_bytes n bs is = bs"

definition CSocketAddress_ApplyStunXorMap :: "StunTransactionId \<Rightarrow> CSocketAddress \<Rightarrow> CSocketAddress" where
  "CSocketAddress_ApplyStunXorMap transid a =
     (let iplen = (if sa_family a = AF_INET then STUN_IPV4_LENGTH else STUN_IPV6_LENGTH);
          a = a\<lparr>sa_port := xor_bytes 2 (sa_port a) transid\<rparr>
      in if sa_family a = AF_INET
         then a\<lparr>sa_addr4 := xor_bytes iplen (sa_addr4 a) transid\<rparr>
         else a\<lparr>sa_addr6 := xor_bytes iplen (sa_addr6 a) transid\<rparr>)"

definition CSocketAddress_GetSockAddrLength :: "CSocketAddress \<Rightarrow> nat" where
  "CSocketAddress_GetSockAddrLength a = (if sa_family a = AF_INET then 16 else 28)"

definition CSocketAddress_IsSameIP :: "CSocketAddress \<Rightarrow> CSocketAddress \<Rightarrow> bool" where
  "CSocketAddress_IsSameIP a other \<longleftrightarrow>
     sa_family a = sa_family other \<and>
     (if sa_family a = AF_INET then sa_addr4 a = sa_addr4 other
      else if sa_family a = AF_INET6 then sa_addr6 a = sa_addr6 other
      else sa_data a = sa_data other)"

definition CSocketAddress_IsSameIP_and_Port :: "CSocketAddress \<Rightarrow> CSocketAddress \<Rightarrow> bool" where
  "CSocketAddress_IsSameIP_and_Port a other \<longleftrightarrow>
     CSocketAddress_IsSameIP a other \<and> CSocketAddress_GetPort a = CSocketAddress_GetPort other"

definition CSocketAddress_IsIPAddressZero :: "CSocketAddress \<Rightarrow> bool" where
  "CSocketAddress_IsIPAddressZero a \<longleftrightarrow>
     (if sa_family a = AF_INET then sa_addr4 a = replicate 4 0
      else if sa_family a = AF_INET6 then sa_addr6 a = replicate 16 0
      else sa_data a = replicate 14 0)"

text \<open>
  The text form. \<^verbatim>\<open>inet_ntop\<close> of the C library (with the code \<^verbatim>\<open>errnohr\<close> the failure of it is
  turned into) is a parameter; \<open>dec_str\<close> is the \<^verbatim>\<open>%d\<close> of \<^verbatim>\<open>sprintf\<close> for a port. The result is
  the string left in the caller's array, if anything was stored there.
\<close>

fun dec_str :: "nat \<Rightarrow> string" where
  "dec_str n = (if n < 10 then [char_of (48 + n)] else dec_str (n div 10) @ [char_of (48 + n mod 10)])"

declare dec_str.simps [simp del]

definition INET_ADDRSTRLEN :: nat where "INET_ADDRSTRLEN = 16"
definition INET6_ADDRSTRLEN :: nat where "INET6_ADDRSTRLEN = 46"

definition CSocketAddress_ToStringBuffer ::
  "(u16 \<Rightarrow> u8 list \<Rightarrow> nat \<Rightarrow> string option) \<Rightarrow> HRESULT \<Rightarrow> nat \<Rightarrow> CSocketAddress
   \<Rightarrow> HRESULT \<times> string option" where
  "CSocketAddress_ToStringBuffer inet_ntop errnohr len a =
     (let family = CSocketAddress_GetFamily a;
          portLength = 6;
          delimiter = (if family = AF_INET then CHR '':'' else CHR ''.'')
      in if len \<le> 0 then (E_INVALIDARG, None)
         else if family = AF_INET \<and> len < INET_ADDRSTRLEN + portLength then (E_INVALIDARG, Some '''')
         else if family = AF_INET6 \<and> len < INET6_ADDRSTRLEN + portLength then (E_INVALIDARG, Some '''')
         else if family \<noteq> AF_INET \<and> family \<noteq> AF_INET6 then (E_FAIL, Some '''')
         else
           (let pAddrBytes = (if family = AF_INET then sa_addr4 a else sa_addr6 a)
            in case inet_ntop family pAddrBytes len of
                 None \<Rightarrow> (errnohr, Some '''')
               | Some str \<Rightarrow>
                   (S_OK, Some (str @ delimiter # dec_str (unat (CSocketAddress_GetPort a))))))"

definition CSocketAddress_GetLocalHost :: "u16 \<Rightarrow> CSocketAddress \<Rightarrow> HRESULT \<times> CSocketAddress" where
  "CSocketAddress_GetLocalHost family pAddr =
     (if family \<noteq> AF_INET \<and> family \<noteq> AF_INET6 then (E_FAIL, pAddr)
      else if family = AF_INET then (S_OK, CSocketAddress_ip4 0x7f000001 0)
      else (S_OK, CSocketAddress_ip6 0 ((replicate 16 0)[15 := 1])))"

subsection \<open>Decoding addresses\<close>

definition IsTransactionIdValid :: "StunTransactionId \<Rightarrow> bool" where
  "IsTransactionIdValid transid \<longleftrightarrow> transid \<noteq> replicate STUN_TRANSACTION_ID_LENGTH 0"

definition GetMappedAddress :: "u8 list \<Rightarrow> nat \<Rightarrow> CSocketAddress \<Rightarrow> HRESULT \<times> CSocketAddress" where
  "GetMappedAddress pData sz pAddr =
     (let stream = CDataStream_on (Some (CBuffer_of_bytes (Some pData) sz False))
      in ChkTo (\<lambda>_. pAddr) (DS_SeekDirect 1 stream) (\<lambda>_ stream.
         ChkTo (\<lambda>_. pAddr) (DS_ReadUint8 stream) (\<lambda>_ (attributeid, stream).
         ChkTo (\<lambda>_. pAddr) (DS_ReadUint16 stream) (\<lambda>_ (port, stream).
         (let port = ntohs port
          in if attributeid = STUN_ATTRIBUTE_FIELD_IPV4
             then ChkTo (\<lambda>_. pAddr) (DS_ReadUint32 stream) (\<lambda>hr (ip4, stream).
                    (hr, CSocketAddress_ip4 (ntohl ip4) port))
             else ChkTo (\<lambda>_. pAddr) (DS_Read STUN_IPV6_LENGTH stream) (\<lambda>hr (ip6, stream).
                    (hr, CSocketAddress_ip6 (htons port) ip6)))))))"

definition GetXorMappedAddress ::
  "u8 list \<Rightarrow> nat \<Rightarrow> StunTransactionId \<Rightarrow> CSocketAddress \<Rightarrow> HRESULT \<times> CSocketAddress" where
  "GetXorMappedAddress pData sz transid pAddr =
     Chk (GetMappedAddress pData sz pAddr)
       (\<lambda>hr pAddr. (hr, CSocketAddress_ApplyStunXorMap transid pAddr))"

fun NatBehaviorToString :: "NatBehavior \<Rightarrow> string" where
  "NatBehaviorToString UnknownBehavior = ''Unknown Behavior''"
| "NatBehaviorToString DirectMapping = ''Direct Mapping''"
| "NatBehaviorToString EndpointIndependentMapping = ''Endpoint Independent Mapping''"
| "NatBehaviorToString AddressDependentMapping = ''Address Dependent Mapping''"
| "NatBehaviorToString AddressAndPortDependentMapping = ''Address and Port Dependent Mapping''"

fun NatFilteringToString :: "NatFiltering \<Rightarrow> string" where
  "NatFilteringToString UnknownFiltering = ''Unknown Filtering''"
| "NatFilteringToString DirectConnectionFiltering = ''Direct Mapping (Filtering)''"
| "NatFilteringToString EndpointIndependentFiltering = ''Endpoint Independent Filtering''"
| "NatFilteringToString AddressDependentFiltering = ''Address Dependent Filtering''"
| "NatFilteringToString AddressAndPortDependentFiltering = ''Address and Port Dependent Filtering''"

subsection \<open>Well-formed addresses\<close>

definition sa_wf :: "CSocketAddress \<Rightarrow> bool" where
  "sa_wf a \<longleftrightarrow> (sa_family a = AF_INET \<or> sa_family a = AF_INET6) \<and> length (sa_port a) = 2 \<and>
     length (sa_addr4 a) = 4 \<and> length (sa_addr6 a) = 16 \<and> length (sa_scope a) = 4"

lemma sa_wf_constructors [simp]:
  "sa_wf CSocketAddress_zero" "sa_wf (CSocketAddress_ip4 ip port)"
  "length ip6 = 16 \<Longrightarrow> sa_wf (CSocketAddress_ip6 nport ip6)"
  "sa_wf a \<Longrightarrow> sa_wf (CSocketAddress_SetPort port a)"
  "sa_wf a \<Longrightarrow> sa_wf (CSocketAddress_CommonConstructor a)"
  by (auto simp: sa_wf_def CSocketAddress_zero_def CSocketAddress_ip4_def CSocketAddress_ip6_def
      CSocketAddress_SetPort_def CSocketAddress_CommonConstructor_def)

lemma GetPort_bytes [simp]: "length (sa_port a) = 2 \<Longrightarrow> CSocketAddress_GetPort a = unbe16 (sa_port a)"
  by (simp add: CSocketAddress_GetPort_def CSocketAddress_GetPort_NBO_def)

lemma GetPort_SetPort: "CSocketAddress_GetPort (CSocketAddress_SetPort port a) = port"
  by (simp add: CSocketAddress_SetPort_def)

lemma CommonConstructor_same:
  "sa_wf a \<Longrightarrow> CSocketAddress_IsSameIP_and_Port (CSocketAddress_CommonConstructor a) a"
  by (auto simp: CSocketAddress_IsSameIP_and_Port_def CSocketAddress_IsSameIP_def sa_wf_def
      CSocketAddress_CommonConstructor_def CSocketAddress_GetPort_def CSocketAddress_GetPort_NBO_def)

text \<open>\<^verbatim>\<open>GetIP_NBO\<close> gives the bytes in memory, \<^verbatim>\<open>GetIP\<close> those of an IPv4 address reversed.\<close>

definition sa_ip :: "CSocketAddress \<Rightarrow> u8 list" where
  "sa_ip a = (if sa_family a = AF_INET then sa_addr4 a else sa_addr6 a)"

lemma GetIP_NBO_bytes:
  "sa_wf a \<Longrightarrow> 16 \<le> len \<Longrightarrow> CSocketAddress_GetIP_NBO len a = sa_ip a"
  by (auto simp: CSocketAddress_GetIP_NBO_def CSocketAddress_GetIPImpl_def sa_wf_def sa_ip_def
      CSocketAddress_GetIPLength_def Let_def)

lemma IsSameIP_iff:
  "sa_wf a \<Longrightarrow> sa_wf b \<Longrightarrow>
   CSocketAddress_IsSameIP a b \<longleftrightarrow> sa_family a = sa_family b \<and> sa_ip a = sa_ip b"
  by (auto simp: CSocketAddress_IsSameIP_def sa_wf_def sa_ip_def)

lemma IsSameIP_and_Port_iff:
  "sa_wf a \<Longrightarrow> sa_wf b \<Longrightarrow> CSocketAddress_IsSameIP_and_Port a b \<longleftrightarrow>
   sa_family a = sa_family b \<and> sa_ip a = sa_ip b \<and> sa_port a = sa_port b"
  by (auto simp: CSocketAddress_IsSameIP_and_Port_def IsSameIP_iff)
    (auto simp: sa_wf_def dest: arg_cong [where f = be16])

lemma IsSameIP_and_Port_refl [simp]: "CSocketAddress_IsSameIP_and_Port a a"
  by (simp add: CSocketAddress_IsSameIP_and_Port_def CSocketAddress_IsSameIP_def)

subsection \<open>The XOR mapping\<close>

lemma length_xor_bytes [simp]: "length (xor_bytes n bs is) = length bs"
  by (induction n bs "is" rule: xor_bytes.induct) auto

lemma xor_bytes_invol [simp]: "xor_bytes n (xor_bytes n bs is) is = bs"
  by (induction n bs "is" rule: xor_bytes.induct) (auto simp: bit_eq_iff bit_simps)

lemma ApplyStunXorMap_wf [simp]:
  "sa_wf a \<Longrightarrow> sa_wf (CSocketAddress_ApplyStunXorMap transid a)"
  by (auto simp: sa_wf_def CSocketAddress_ApplyStunXorMap_def Let_def)

lemma ApplyStunXorMap_family [simp]:
  "sa_family (CSocketAddress_ApplyStunXorMap transid a) = sa_family a"
  by (simp add: CSocketAddress_ApplyStunXorMap_def Let_def)

lemma ApplyStunXorMap_invol [simp]:
  "CSocketAddress_ApplyStunXorMap transid (CSocketAddress_ApplyStunXorMap transid a) = a"
  by (simp add: CSocketAddress_ApplyStunXorMap_def Let_def)

subsection \<open>The wire form of an address\<close>

definition addr_attr :: "CSocketAddress \<Rightarrow> u8 list" where
  "addr_attr a = [0, (if sa_family a = AF_INET then STUN_ATTRIBUTE_FIELD_IPV4
     else STUN_ATTRIBUTE_FIELD_IPV6)] @ sa_port a @ sa_ip a"

lemma length_addr_attr:
  "sa_wf a \<Longrightarrow> length (addr_attr a) = (if sa_family a = AF_INET then 8 else 20)"
  by (auto simp: addr_attr_def sa_wf_def sa_ip_def)

lemma same_address_xor:
  assumes "sa_wf a" "sa_wf b" "CSocketAddress_IsSameIP_and_Port a b"
  shows "CSocketAddress_IsSameIP_and_Port (CSocketAddress_ApplyStunXorMap transid a)
    (CSocketAddress_ApplyStunXorMap transid b)"
  using assms
  by (simp add: IsSameIP_and_Port_iff)
    (auto simp: CSocketAddress_ApplyStunXorMap_def sa_ip_def Let_def)

text \<open>Decoding gives back the address that was encoded: same family, address and port.\<close>

lemma GetMappedAddress_stream:
  assumes "sz \<le> length bs"
  shows "GetMappedAddress bs sz p =
    (if sz < 1 then (E_FAIL, p)
     else if sz < 4 then (E_INVALIDARG, p)
     else if bs ! 1 = STUN_ATTRIBUTE_FIELD_IPV4
     then (if sz < 8 then (E_INVALIDARG, p)
           else (S_OK, CSocketAddress_ip4 (unbe32 (peek 4 4 bs)) (unbe16 (peek 2 2 bs))))
     else (if sz < 20 then (E_INVALIDARG, p)
           else (S_OK, CSocketAddress_ip6 (unhost16 (peek 2 2 bs)) (peek 4 16 bs))))"
proof -
  have len: "length (take sz bs) = sz" "ds_ok (CDataStream_on (Some (CBuffer_of_bytes (Some bs) sz False)))"
    using assms by simp_all
  have pk: "peek p n (take sz bs) = peek p n bs" if "p + n \<le> sz" for p n
    using that by (rule peek_take)
  have l: "length (peek p n bs) = n" if "p + n \<le> sz" for p n
    using that assms by simp
  show ?thesis
    using assms
    by (auto simp: GetMappedAddress_def Let_def Chk_streams pk l htons_def ntohs_def STUN_IPV6_LENGTH_def
        not_less) (simp_all add: numeral_eq_Suc)
qed

lemma unbe_inj:
  "length xs = 2 \<Longrightarrow> length ys = 2 \<Longrightarrow> unbe16 xs = unbe16 ys \<longleftrightarrow> xs = ys"
  "length us = 4 \<Longrightarrow> length vs = 4 \<Longrightarrow> unbe32 us = unbe32 vs \<longleftrightarrow> us = vs"
  by (metis be16_unbe16') (metis be32_unbe32')

lemma GetMappedAddress_addr_attr:
  assumes wf: "sa_wf a" and sz: "sz = length (addr_attr a)"
  obtains b where "GetMappedAddress (addr_attr a @ rest) sz p = (S_OK, b)" "sa_wf b"
    "CSocketAddress_IsSameIP_and_Port b a"
proof -
  have len: "length (sa_port a) = 2" "length (sa_ip a) = (if sa_family a = AF_INET then 4 else 16)"
    "sa_family a = AF_INET \<or> sa_family a = AF_INET6"
    using wf by (auto simp: sa_wf_def sa_ip_def)
  have pk: "peek 2 2 (addr_attr a @ rest) = sa_port a"
    "peek 4 (length (sa_ip a)) (addr_attr a @ rest) = sa_ip a"
    using len(1) by (simp_all add: addr_attr_def peek_def)
  show ?thesis
  proof (cases "sa_family a = AF_INET")
    case True
    then have "GetMappedAddress (addr_attr a @ rest) sz p =
        (S_OK, CSocketAddress_ip4 (unbe32 (sa_addr4 a)) (unbe16 (sa_port a)))"
      using sz pk len length_addr_attr [OF wf]
      by (simp add: GetMappedAddress_stream) (simp add: addr_attr_def sa_ip_def)
    then show ?thesis
      by (rule that)
        (use True wf in \<open>auto simp: IsSameIP_and_Port_iff\<close>,
         use True wf in \<open>auto simp: CSocketAddress_ip4_def sa_ip_def sa_wf_def\<close>)
  next
    case False
    then have "GetMappedAddress (addr_attr a @ rest) sz p =
        (S_OK, CSocketAddress_ip6 (unhost16 (sa_port a)) (sa_addr6 a))"
      using sz pk len length_addr_attr [OF wf]
      by (simp add: GetMappedAddress_stream)
        (simp add: addr_attr_def sa_ip_def STUN_ATTRIBUTE_FIELD_IPV4_def STUN_ATTRIBUTE_FIELD_IPV6_def)
    then show ?thesis
      by (rule that)
        (use False wf in \<open>auto simp: sa_wf_def\<close>,
         use False wf in \<open>auto simp: IsSameIP_and_Port_iff\<close>,
         use False wf in \<open>auto simp: CSocketAddress_ip6_def sa_ip_def sa_wf_def\<close>)
  qed
qed

end
