(* ===== verification/StunBuilder.thy ===== *)
theory StunBuilder
  imports SocketAddress
begin

text \<open>
  The message builder \<^verbatim>\<open>CStunMessageBuilder\<close> (\<^verbatim>\<open>stuncore/stunbuilder.cpp\<close>): attributes are
  appended to a stream, the length field is filled in when the result is taken, and the integrity
  and fingerprint attributes are computed over what has been written so far. \<open>hmac\<close>, \<open>md5\<close> and
  \<open>crc32\<close> are the library's digests, \<open>rnd x\<close> the value of \<^verbatim>\<open>rand() % 256\<close> drawn for position \<open>x\<close>.
\<close>

record CStunMessageBuilder =
  bd_stream :: CDataStream
  bd_transactionid :: StunTransactionId
  bd_fLegacyMode :: bool

definition Builder_new :: CStunMessageBuilder where
  "Builder_new = \<lparr>bd_stream = CDataStream_empty,
     bd_transactionid = replicate STUN_TRANSACTION_ID_LENGTH 0, bd_fLegacyMode = False\<rparr>"

definition Builder_SetLegacyMode :: "bool \<Rightarrow> CStunMessageBuilder \<Rightarrow> CStunMessageBuilder" where
  "Builder_SetLegacyMode fLegacyMode b = b\<lparr>bd_fLegacyMode := fLegacyMode\<rparr>"

text \<open>An operation of the stream member, as a step of the builder.\<close>

definition on_stream ::
  "(CDataStream \<Rightarrow> HRESULT \<times> CDataStream) \<Rightarrow> CStunMessageBuilder \<Rightarrow> HRESULT \<times> CStunMessageBuilder" where
  "on_stream f b = (case f (bd_stream b) of (hr, s) \<Rightarrow> (hr, b\<lparr>bd_stream := s\<rparr>))"

abbreviation bd_Write :: "u8 list \<Rightarrow> CStunMessageBuilder \<Rightarrow> HRESULT \<times> CStunMessageBuilder" where
  "bd_Write d \<equiv> on_stream (DS_Write d)"

definition Builder_AddHeader ::
  "StunMessageType \<Rightarrow> StunMessageClass \<Rightarrow> CStunMessageBuilder \<Rightarrow> HRESULT \<times> CStunMessageBuilder" where
  "Builder_AddHeader msgType msgClass b =
     Chk (on_stream (DS_SetSizeHint 200) b) (\<lambda>_ b.
     (let msgTypeField = push_bit 2 (msgType AND 0x0f80);
          msgTypeField = msgTypeField OR push_bit 1 (msgType AND 0x0070);
          msgTypeField = msgTypeField OR (msgType AND 0x000f);
          msgTypeField = msgTypeField OR push_bit 7 (msgClass AND 0x02);
          msgTypeField = msgTypeField OR push_bit 4 (msgClass AND 0x01)
      in Chk (on_stream (DS_WriteUint16 (htons msgTypeField)) b) (\<lambda>_ b.
           on_stream (DS_WriteUint16 0) b)))"

definition Builder_AddBindingRequestHeader :: "CStunMessageBuilder \<Rightarrow> HRESULT \<times> CStunMessageBuilder" where
  "Builder_AddBindingRequestHeader = Builder_AddHeader StunMsgTypeBinding StunMsgClassRequest"

definition Builder_AddBindingResponseHeader ::
  "bool \<Rightarrow> CStunMessageBuilder \<Rightarrow> HRESULT \<times> CStunMessageBuilder" where
  "Builder_AddBindingResponseHeader fSuccess =
     Builder_AddHeader StunMsgTypeBinding
       (if fSuccess then StunMsgClassSuccessResponse else StunMsgClassFailureResponse)"

definition Builder_AddTransactionId ::
  "StunTransactionId \<Rightarrow> CStunMessageBuilder \<Rightarrow> HRESULT \<times> CStunMessageBuilder" where
  "Builder_AddTransactionId transid b =
     (let b = b\<lparr>bd_transactionid := transid\<rparr> in bd_Write transid b)"

text \<open>The loop stops at \<^verbatim>\<open>STUN_TRANSACTION_ID_LENGTH-4\<close>: the last four bytes are not set.\<close>

definition Builder_AddRandomTransactionId ::
  "(nat \<Rightarrow> u8) \<Rightarrow> CStunMessageBuilder \<Rightarrow> HRESULT \<times> StunTransactionId \<times> CStunMessageBuilder" where
  "Builder_AddRandomTransactionId rnd b =
     (let transid = poke 0 (host32 (htonl STUN_COOKIE)) (replicate STUN_TRANSACTION_ID_LENGTH uninit_byte);
          transid = fold (\<lambda>x t. t[x := rnd x]) [4..<STUN_TRANSACTION_ID_LENGTH - 4] transid
      in case Builder_AddTransactionId transid b of (hr, b) \<Rightarrow> (hr, transid, b))"

definition Builder_AddAttributeHeader ::
  "u16 \<Rightarrow> u16 \<Rightarrow> CStunMessageBuilder \<Rightarrow> HRESULT \<times> CStunMessageBuilder" where
  "Builder_AddAttributeHeader attribType sz b =
     Chk (on_stream (DS_WriteUint16 (htons attribType)) b) (\<lambda>_ b.
       on_stream (DS_WriteUint16 (htons sz)) b)"

definition Builder_AddAttribute ::
  "u16 \<Rightarrow> u8 list option \<Rightarrow> u16 \<Rightarrow> CStunMessageBuilder \<Rightarrow> HRESULT \<times> CStunMessageBuilder" where
  "Builder_AddAttribute attribType data sz b =
     (let sizeheader = sz;
          sz = (if data = None then 0 else sz);
          padding = (if unat sz mod 4 \<noteq> 0 then 4 - unat sz mod 4 else 0);
          sizeheader = (if bd_fLegacyMode b then sizeheader + of_nat padding else sizeheader)
      in Chk (Builder_AddAttributeHeader attribType sizeheader b) (\<lambda>hr b.
         Chk (if sz > 0 then bd_Write (take (unat sz) (the data)) b else (hr, b)) (\<lambda>hr b.
         if padding > 0 then bd_Write (replicate padding 0) b else (hr, b))))"

text \<open>\<open>pstr\<close> is the block the pointer points to.\<close>

definition Builder_AddStringAttribute ::
  "u16 \<Rightarrow> u8 list \<Rightarrow> CStunMessageBuilder \<Rightarrow> HRESULT \<times> CStunMessageBuilder" where
  "Builder_AddStringAttribute attribType pstr b =
     (if c_str pstr = [] then (E_INVALIDARG, b)
      else Builder_AddAttribute attribType (Some (c_str pstr)) (of_nat (length (c_str pstr))) b)"

definition Builder_AddErrorCode ::
  "u16 \<Rightarrow> u8 list \<Rightarrow> CStunMessageBuilder \<Rightarrow> HRESULT \<times> CStunMessageBuilder" where
  "Builder_AddErrorCode errorNumber pszReason b =
     (let strsize = length (c_str pszReason);
          sz = strsize + 4;
          sizeheader = sz
      in if strsize \<ge> 128 then (E_INVALIDARG, b)
         else if errorNumber < 300 then (E_INVALIDARG, b)
         else if errorNumber > 600 then (E_INVALIDARG, b)
         else
           (let padding = (if sz mod 4 \<noteq> 0 then 4 - sz mod 4 else 0);
                padding = (if sz mod 4 \<noteq> 0 \<and> bd_fLegacyMode b then 4 - sz mod 4 else padding);
                sizeheader = (if bd_fLegacyMode b then sizeheader + padding else sizeheader)
            in Chk (Builder_AddAttributeHeader STUN_ATTRIBUTE_ERRORCODE (of_nat sizeheader) b) (\<lambda>_ b.
               Chk (on_stream (DS_WriteUint16 0) b) (\<lambda>_ b.
               (let cl = of_nat (unat errorNumber div 100);
                    ernum = of_nat (unat errorNumber mod 100)
                in Chk (on_stream (DS_WriteUint8 cl) b) (\<lambda>_ b.
                   Chk (on_stream (DS_WriteUint8 ernum) b) (\<lambda>hr b.
                   (let b = (if strsize > 0 then snd (bd_Write (c_str pszReason) b) else b)
                    in if padding > 0 then bd_Write (replicate padding 0) b else (hr, b)))))))))"

definition Builder_AddUnknownAttributes ::
  "u16 list \<Rightarrow> CStunMessageBuilder \<Rightarrow> HRESULT \<times> CStunMessageBuilder" where
  "Builder_AddUnknownAttributes arr b =
     (let cnt = length arr;
          sz = of_nat (cnt * 2) :: u16;
          unpaddedsize = sz
      in if cnt \<le> 0 then (E_INVALIDARG, b)
         else
           (let fPad = (bd_fLegacyMode b \<and> cnt mod 2 \<noteq> 0);
                sz = (if fPad then sz + 2 else sz)
            in Chk (Builder_AddAttributeHeader STUN_ATTRIBUTE_UNKNOWNATTRIBUTES sz b) (\<lambda>_ b.
               Chk (bd_Write (take (unat unpaddedsize) (concat (map host16 arr))) b) (\<lambda>hr b.
               if fPad then (hr, snd (bd_Write (host16 (arr ! (cnt - 1))) b)) else (hr, b)))))"

definition Builder_AddMappedAddressImpl ::
  "u16 \<Rightarrow> CSocketAddress \<Rightarrow> CStunMessageBuilder \<Rightarrow> HRESULT \<times> CStunMessageBuilder" where
  "Builder_AddMappedAddressImpl attribute addr b =
     (let family = (if CSocketAddress_GetFamily addr = AF_INET then STUN_ATTRIBUTE_FIELD_IPV4
                    else STUN_ATTRIBUTE_FIELD_IPV6);
          attributeSize = (if family = STUN_ATTRIBUTE_FIELD_IPV4
                           then STUN_ATTRIBUTE_MAPPEDADDRESS_SIZE_IPV4
                           else STUN_ATTRIBUTE_MAPPEDADDRESS_SIZE_IPV6)
      in Chk (Builder_AddAttributeHeader attribute attributeSize b) (\<lambda>_ b.
         (let port = CSocketAddress_GetPort_NBO addr;
              ip = CSocketAddress_GetIP_NBO STUN_IPV6_LENGTH addr
          in Chk (on_stream (DS_WriteUint8 0) b) (\<lambda>_ b.
             Chk (on_stream (DS_WriteUint8 family) b) (\<lambda>_ b.
             Chk (on_stream (DS_WriteUint16 port) b) (\<lambda>_ b.
               bd_Write ip b))))))"

definition Builder_AddXorMappedAddress ::
  "CSocketAddress \<Rightarrow> CStunMessageBuilder \<Rightarrow> HRESULT \<times> CStunMessageBuilder" where
  "Builder_AddXorMappedAddress addr b =
     (let attributeID = (if bd_fLegacyMode b then STUN_ATTRIBUTE_XORMAPPEDADDRESS_OPTIONAL
                         else STUN_ATTRIBUTE_XORMAPPEDADDRESS);
          addrxor = CSocketAddress_ApplyStunXorMap (bd_transactionid b) addr
      in Builder_AddMappedAddressImpl attributeID addrxor b)"

definition Builder_AddMappedAddress ::
  "CSocketAddress \<Rightarrow> CStunMessageBuilder \<Rightarrow> HRESULT \<times> CStunMessageBuilder" where
  "Builder_AddMappedAddress addr b = Builder_AddMappedAddressImpl STUN_ATTRIBUTE_MAPPEDADDRESS addr b"

definition Builder_AddResponseOriginAddress ::
  "CSocketAddress \<Rightarrow> CStunMessageBuilder \<Rightarrow> HRESULT \<times> CStunMessageBuilder" where
  "Builder_AddResponseOriginAddress addr b =
     (let attribid = (if bd_fLegacyMode b then STUN_ATTRIBUTE_SOURCEADDRESS
                      else STUN_ATTRIBUTE_RESPONSE_ORIGIN)
      in Builder_AddMappedAddressImpl attribid addr b)"

definition Builder_AddOtherAddress ::
  "CSocketAddress \<Rightarrow> CStunMessageBuilder \<Rightarrow> HRESULT \<times> CStunMessageBuilder" where
  "Builder_AddOtherAddress addr b =
     (let attribid = (if bd_fLegacyMode b then STUN_ATTRIBUTE_CHANGEDADDRESS
                      else STUN_ATTRIBUTE_OTHER_ADDRESS)
      in Builder_AddMappedAddressImpl attribid addr b)"

definition Builder_AddResponsePort :: "u16 \<Rightarrow> CStunMessageBuilder \<Rightarrow> HRESULT \<times> CStunMessageBuilder" where
  "Builder_AddResponsePort port b =
     (let port = htons port
      in Builder_AddAttribute STUN_ATTRIBUTE_RESPONSE_PORT (Some (host16 port)) 2 b)"

text \<open>The padding is written in blocks; the rounding up wraps at \<open>2 ^ 16\<close>.\<close>

definition PADDING_BUFFER_SIZE :: nat where "PADDING_BUFFER_SIZE = 128"

function Builder_PaddingLoop ::
  "nat \<Rightarrow> HRESULT \<Rightarrow> CStunMessageBuilder \<Rightarrow> HRESULT \<times> CStunMessageBuilder" where
  "Builder_PaddingLoop paddingSize hr b =
     (if paddingSize > 0
      then (let blocksize = (if paddingSize \<ge> PADDING_BUFFER_SIZE then PADDING_BUFFER_SIZE
                             else paddingSize)
            in Chk (bd_Write (replicate blocksize 0) b) (\<lambda>hr b.
                 Builder_PaddingLoop (paddingSize - blocksize) hr b))
      else (hr, b))"
  by pat_completeness auto
termination
  by (relation "measure (\<lambda>(n, hr, b). n)") (auto simp: PADDING_BUFFER_SIZE_def)

declare Builder_PaddingLoop.simps [simp del]

definition Builder_AddPaddingAttribute ::
  "u16 \<Rightarrow> CStunMessageBuilder \<Rightarrow> HRESULT \<times> CStunMessageBuilder" where
  "Builder_AddPaddingAttribute paddingSize b =
     (let paddingSize = (if paddingSize mod 4 \<noteq> 0 then paddingSize + 4 - paddingSize mod 4
                         else paddingSize)
      in Chk (Builder_AddAttributeHeader STUN_ATTRIBUTE_PADDING paddingSize b) (\<lambda>hr b.
           Builder_PaddingLoop (unat paddingSize) hr b))"

definition Builder_AddChangeRequest ::
  "StunChangeRequestAttribute \<Rightarrow> CStunMessageBuilder \<Rightarrow> HRESULT \<times> CStunMessageBuilder" where
  "Builder_AddChangeRequest changeAttrib b =
     (let changeData = 0 :: u32;
          changeData = (if fChangeIP changeAttrib then changeData OR 0x04 else changeData);
          changeData = (if fChangePort changeAttrib then changeData OR 0x02 else changeData);
          changeData = htonl changeData
      in Builder_AddAttribute STUN_ATTRIBUTE_CHANGEREQUEST (Some (host32 changeData)) 4 b)"

definition Builder_AddUserName :: "u8 list \<Rightarrow> CStunMessageBuilder \<Rightarrow> HRESULT \<times> CStunMessageBuilder" where
  "Builder_AddUserName = Builder_AddStringAttribute STUN_ATTRIBUTE_USERNAME"

definition Builder_AddNonce :: "u8 list \<Rightarrow> CStunMessageBuilder \<Rightarrow> HRESULT \<times> CStunMessageBuilder" where
  "Builder_AddNonce = Builder_AddStringAttribute STUN_ATTRIBUTE_NONCE"

definition Builder_AddRealm :: "u8 list \<Rightarrow> CStunMessageBuilder \<Rightarrow> HRESULT \<times> CStunMessageBuilder" where
  "Builder_AddRealm = Builder_AddStringAttribute STUN_ATTRIBUTE_REALM"

definition Builder_FixLengthField :: "CStunMessageBuilder \<Rightarrow> HRESULT \<times> CStunMessageBuilder" where
  "Builder_FixLengthField b =
     (let sz = DS_GetSize (bd_stream b);
          currentPos = DS_GetPos (bd_stream b)
      in if sz < STUN_HEADER_SIZE then (E_UNEXPECTED, b)
         else
           (let sz = (if sz < STUN_HEADER_SIZE then 0 else sz - STUN_HEADER_SIZE)
            in Chk (on_stream (DS_SeekDirect 2) b) (\<lambda>_ b.
               Chk (on_stream (DS_WriteUint16 (ntohs (of_nat sz))) b) (\<lambda>_ b.
                 on_stream (DS_SeekDirect currentPos) b))))"

definition Builder_AddFingerprintAttribute ::
  "(u8 list \<Rightarrow> u32) \<Rightarrow> CStunMessageBuilder \<Rightarrow> HRESULT \<times> CStunMessageBuilder" where
  "Builder_AddFingerprintAttribute crc32 b =
     Chk (on_stream (DS_WriteUint16 (htons STUN_ATTRIBUTE_FINGERPRINT)) b) (\<lambda>_ b.
     Chk (on_stream (DS_WriteUint16 (htons 4)) b) (\<lambda>_ b.
     Chk (on_stream (DS_WriteUint32 0) b) (\<lambda>_ b.
     Chk (Builder_FixLengthField b) (\<lambda>_ b.
     (let pData = (case DS_GetDataPointerUnsafe (bd_stream b) of None \<Rightarrow> [] | Some m \<Rightarrow> m);
          len = DS_GetSize (bd_stream b) - 8;
          val = crc32 (take len pData);
          val = val XOR STUN_FINGERPRINT_XOR;
          offset = -4
      in Chk (on_stream (DS_SeekRelative offset) b) (\<lambda>_ b.
           on_stream (DS_WriteUint32 (htonl val)) b))))))"

text \<open>The digest is written into the buffer itself, past the stream.\<close>

definition bd_poke :: "nat \<Rightarrow> u8 list \<Rightarrow> CStunMessageBuilder \<Rightarrow> CStunMessageBuilder" where
  "bd_poke p d b = b\<lparr>bd_stream := (bd_stream b)\<lparr>ds_buffer :=
     map_option (\<lambda>buf. buf\<lparr>b_data := map_option (poke p d) (b_data buf)\<rparr>)
       (ds_buffer (bd_stream b))\<rparr>\<rparr>"

definition Builder_AddMessageIntegrityImpl ::
  "(u8 list \<Rightarrow> u8 list \<Rightarrow> u8 list) \<Rightarrow> u8 list \<Rightarrow> CStunMessageBuilder \<Rightarrow> HRESULT \<times> CStunMessageBuilder" where
  "Builder_AddMessageIntegrityImpl hmac key b =
     (if length key \<le> 0 then (E_INVALIDARG, b)
      else
        Chk (Builder_AddAttribute STUN_ATTRIBUTE_MESSAGEINTEGRITY (Some (replicate 20 0)) 20 b) (\<lambda>_ b.
        Chk (Builder_FixLengthField b) (\<lambda>_ b.
        (let pData = (case DS_GetDataPointerUnsafe (bd_stream b) of None \<Rightarrow> [] | Some m \<Rightarrow> m);
             len = DS_GetSize (bd_stream b) - 24
         in (S_OK, bd_poke (len + 4) (hmac key (take len pData)) b)))))"

definition Builder_AddMessageIntegrityShortTerm ::
  "(u8 list \<Rightarrow> u8 list \<Rightarrow> u8 list) \<Rightarrow> u8 list \<Rightarrow> CStunMessageBuilder \<Rightarrow> HRESULT \<times> CStunMessageBuilder" where
  "Builder_AddMessageIntegrityShortTerm hmac pszPassword b =
     Builder_AddMessageIntegrityImpl hmac (c_str pszPassword) b"

definition MAX_STUN_AUTH_STRING_SIZE :: nat where "MAX_STUN_AUTH_STRING_SIZE = 64"

definition Builder_AddMessageIntegrityLongTerm ::
  "(u8 list \<Rightarrow> u8 list \<Rightarrow> u8 list) \<Rightarrow> (u8 list \<Rightarrow> u8 list) \<Rightarrow>
   u8 list \<Rightarrow> u8 list \<Rightarrow> u8 list \<Rightarrow> CStunMessageBuilder \<Rightarrow> HRESULT \<times> CStunMessageBuilder" where
  "Builder_AddMessageIntegrityLongTerm hmac md5 pszUserName pszRealm pszPassword b =
     (let MAX_KEY_SIZE = MAX_STUN_AUTH_STRING_SIZE * 3 + 2;
          lenTotal = length (c_str pszUserName) + length (c_str pszRealm) + length (c_str pszPassword) + 2
      in if lenTotal > MAX_KEY_SIZE then (E_INVALIDARG, b)
         else
           (let key = c_str pszUserName @ [0x3A] @ c_str pszRealm @ [0x3A] @ c_str pszPassword
            in Builder_AddMessageIntegrityImpl hmac (md5 key) b))"

definition Builder_GetResult ::
  "CStunMessageBuilder \<Rightarrow> (HRESULT \<times> CBuffer option) \<times> CStunMessageBuilder" where
  "Builder_GetResult b =
     (let (hr, b) = Builder_FixLengthField b
      in if SUCCEEDED hr then ((S_OK, DS_GetBuffer (bd_stream b)), b) else ((hr, None), b))"

definition Builder_GetStream :: "CStunMessageBuilder \<Rightarrow> CDataStream" where
  "Builder_GetStream b = bd_stream b"

end
