(* ===== verification/FastHash.thy ===== *)
theory FastHash
  imports Prelude
begin

text \<open>
  The fixed-size hash table \<^verbatim>\<open>FastHashBase\<close> (\<^verbatim>\<open>common/fasthash.h\<close>) as it is laid out: an array of
  items, a parallel array of list nodes that are threaded by index into a free list and one
  collision chain per column, and a circular array of item indices for access by position.
  Pointers to list nodes are indices of the node array, \<open>None\<close> is the null pointer. The hash
  function, an overload of \<^verbatim>\<open>FastHash_Hash\<close> chosen by the key type, is an argument.
\<close>

record ItemNode =
  in_index :: nat
  in_next :: "nat option"

record ('k, 'v) FastHash =
  fh_fsize :: nat
  fh_tsize :: nat
  fh_nodes :: "('k \<times> 'v) option list"
  fh_itemnodes :: "ItemNode list"
  fh_freelist :: "nat option"
  fh_lookuptable :: "nat option list"
  fh_indexlist :: "nat list option"
  fh_indexvalid :: bool
  fh_indexstart :: nat
  fh_size :: nat

text \<open>The overloads for integers: the value, converted to \<^verbatim>\<open>size_t\<close>.\<close>

definition FastHash_Hash_int :: "int \<Rightarrow> nat" where
  "FastHash_Hash_int x = nat (x mod 2 ^ 64)"

definition FastHash_Hash_u16 :: "u16 \<Rightarrow> nat" where
  "FastHash_Hash_u16 x = FastHash_Hash_int (uint x)"

subsection \<open>Collision chains\<close>

text \<open>
  The loop of \<^verbatim>\<open>Find\<close>. The fuel bounds the number of nodes visited; \<open>fh_probe_chain\<close> below shows
  that the size of the node array is always enough.
\<close>

fun fh_probe :: "nat \<Rightarrow> ('k, 'v) FastHash \<Rightarrow> 'k \<Rightarrow> nat option \<Rightarrow> nat option
    \<Rightarrow> nat option \<times> nat option" where
  "fh_probe fuel h key pPrev None = (pPrev, None)"
| "fh_probe 0 h key pPrev (Some p) = (pPrev, None)"
| "fh_probe (Suc fuel) h key pPrev (Some p) =
     (if map_option fst (fh_nodes h ! in_index (fh_itemnodes h ! p)) = Some key
      then (pPrev, Some p)
      else fh_probe fuel h key (Some p) (in_next (fh_itemnodes h ! p)))"

definition fh_Find :: "('k \<Rightarrow> nat) \<Rightarrow> 'k \<Rightarrow> ('k, 'v) FastHash \<Rightarrow> nat \<times> nat option \<times> nat option" where
  "fh_Find hash key h =
     (let hashindex = hash key mod fh_tsize h;
          (pPrev, pProbe) = fh_probe (fh_fsize h) h key None (fh_lookuptable h ! hashindex)
      in (hashindex, pPrev, pProbe))"

subsection \<open>Access by position\<close>

fun fh_reindex_chain :: "nat \<Rightarrow> ItemNode list \<Rightarrow> nat option \<Rightarrow> nat \<times> nat list \<Rightarrow> nat \<times> nat list" where
  "fh_reindex_chain fuel its None (index, il) = (index, il)"
| "fh_reindex_chain 0 its (Some p) (index, il) = (index, il)"
| "fh_reindex_chain (Suc fuel) its (Some p) (index, il) =
     fh_reindex_chain fuel its (in_next (its ! p)) (index + 1, il[index := in_index (its ! p)])"

definition fh_ReIndex :: "('k, 'v) FastHash \<Rightarrow> ('k, 'v) FastHash" where
  "fh_ReIndex h =
     (case fh_indexlist h of
        None \<Rightarrow> h
      | Some il \<Rightarrow>
          if fh_size h = 0 then h
          else (let (index, il) = fold (\<lambda>t. fh_reindex_chain (fh_fsize h) (fh_itemnodes h)
                                             (fh_lookuptable h ! t)) [0..<fh_tsize h] (0, il)
                in h\<lparr>fh_indexlist := Some il, fh_indexvalid := True, fh_indexstart := 0\<rparr>))"

definition fh_UpdateIndexWithAdd :: "nat \<Rightarrow> ('k, 'v) FastHash \<Rightarrow> ('k, 'v) FastHash" where
  "fh_UpdateIndexWithAdd pNode h =
     (case fh_indexlist h of
        Some il \<Rightarrow>
          if fh_indexvalid h \<and> fh_size h < fh_fsize h
          then (let pos = (fh_size h + fh_indexstart h) mod fh_fsize h
                in h\<lparr>fh_indexlist := Some (il[pos := in_index (fh_itemnodes h ! pNode)])\<rparr>)
          else h
      | None \<Rightarrow> h)"

definition fh_UpdateIndexWithRemove :: "nat \<Rightarrow> ('k, 'v) FastHash \<Rightarrow> ('k, 'v) FastHash" where
  "fh_UpdateIndexWithRemove pNode h =
     (case fh_indexlist h of
        None \<Rightarrow> h
      | Some il \<Rightarrow>
          if fh_size h = 0 \<or> (fh_size h > 1 \<and> fh_indexvalid h = False) then h
          else if fh_size h = 1 then h\<lparr>fh_indexvalid := True, fh_indexstart := 0\<rparr>
          else if in_index (fh_itemnodes h ! pNode) = il ! fh_indexstart h
          then h\<lparr>fh_indexstart := (fh_indexstart h + 1) mod fh_fsize h\<rparr>
          else (let indexlast = (fh_indexstart h + (fh_size h - 1)) mod fh_fsize h
                in if in_index (fh_itemnodes h ! pNode) = il ! indexlast then h
                   else h\<lparr>fh_indexvalid := False\<rparr>))"

subsection \<open>Construction\<close>

definition fh_Reset :: "('k, 'v) FastHash \<Rightarrow> ('k, 'v) FastHash" where
  "fh_Reset h =
     (let h = h\<lparr>fh_lookuptable := replicate (length (fh_lookuptable h)) None\<rparr>;
          h = (if fh_fsize h > 0
               then h\<lparr>fh_itemnodes := map (\<lambda>x. \<lparr>in_index = x,
                        in_next = (if x = fh_fsize h - 1 then None else Some (x + 1))\<rparr>)
                        [0..<fh_fsize h]\<rparr>
               else h)
      in h\<lparr>fh_freelist := (if fh_fsize h > 0 then Some 0 else None),
           fh_size := 0,
           fh_indexvalid := (fh_indexlist h \<noteq> None),
           fh_indexstart := 0\<rparr>)"

definition fh_Init :: "nat \<Rightarrow> nat \<Rightarrow> nat list option \<Rightarrow> ('k, 'v) FastHash" where
  "fh_Init fsize tsize indexlist =
     fh_Reset \<lparr>fh_fsize = fsize, fh_tsize = tsize, fh_nodes = replicate fsize None,
       fh_itemnodes = [], fh_freelist = None, fh_lookuptable = replicate tsize None,
       fh_indexlist = indexlist, fh_indexvalid = (indexlist \<noteq> None), fh_indexstart = 0,
       fh_size = 0\<rparr>"

text \<open>\<^verbatim>\<open>FastHash<K, V, FSIZE, TSIZE>\<close>, whose arrays are members of the object.\<close>

definition FastHash_new :: "nat \<Rightarrow> nat \<Rightarrow> ('k, 'v) FastHash" where
  "FastHash_new FSIZE TSIZE = fh_Init FSIZE TSIZE (Some (replicate FSIZE 0))"

subsection \<open>Operations\<close>

definition fh_Size :: "('k, 'v) FastHash \<Rightarrow> nat" where
  "fh_Size h = fh_size h"

definition fh_GetMaxCapacity :: "('k, 'v) FastHash \<Rightarrow> nat" where
  "fh_GetMaxCapacity h = fh_fsize h"

definition fh_Insert :: "('k \<Rightarrow> nat) \<Rightarrow> 'k \<Rightarrow> 'v \<Rightarrow> ('k, 'v) FastHash \<Rightarrow> int \<times> ('k, 'v) FastHash" where
  "fh_Insert hash key val h =
     (let hashindex = hash key mod fh_tsize h;
          pHead = fh_lookuptable h ! hashindex
      in case fh_freelist h of
           None \<Rightarrow> (-1, h)
         | Some pInsert \<Rightarrow>
             (let h = h\<lparr>fh_freelist := in_next (fh_itemnodes h ! pInsert)\<rparr>;
                  h = h\<lparr>fh_nodes := (fh_nodes h)
                          [in_index (fh_itemnodes h ! pInsert) := Some (key, val)]\<rparr>;
                  h = h\<lparr>fh_itemnodes := (fh_itemnodes h)
                          [pInsert := (fh_itemnodes h ! pInsert)\<lparr>in_next := pHead\<rparr>]\<rparr>;
                  h = h\<lparr>fh_lookuptable := (fh_lookuptable h)[hashindex := Some pInsert]\<rparr>;
                  h = fh_UpdateIndexWithAdd pInsert h
              in (1, h\<lparr>fh_size := fh_size h + 1\<rparr>)))"

definition fh_Remove :: "('k \<Rightarrow> nat) \<Rightarrow> 'k \<Rightarrow> ('k, 'v) FastHash \<Rightarrow> int \<times> ('k, 'v) FastHash" where
  "fh_Remove hash key h =
     (case fh_Find hash key h of (hashindex, pPrev, pProbe) \<Rightarrow>
        case pProbe of
          None \<Rightarrow> (-1, h)
        | Some pNode \<Rightarrow>
            (let pNext = in_next (fh_itemnodes h ! pNode);
                 h = (case pPrev of
                        None \<Rightarrow> h\<lparr>fh_lookuptable := (fh_lookuptable h)[hashindex := pNext]\<rparr>
                      | Some q \<Rightarrow> h\<lparr>fh_itemnodes := (fh_itemnodes h)
                                    [q := (fh_itemnodes h ! q)\<lparr>in_next := pNext\<rparr>]\<rparr>);
                 h = fh_UpdateIndexWithRemove pNode h;
                 h = h\<lparr>fh_itemnodes := (fh_itemnodes h)
                         [pNode := (fh_itemnodes h ! pNode)\<lparr>in_next := fh_freelist h\<rparr>]\<rparr>;
                 h = h\<lparr>fh_freelist := Some pNode\<rparr>
             in (1, h\<lparr>fh_size := fh_size h - 1\<rparr>)))"

definition fh_Lookup :: "('k \<Rightarrow> nat) \<Rightarrow> 'k \<Rightarrow> ('k, 'v) FastHash \<Rightarrow> 'v option" where
  "fh_Lookup hash key h =
     (case fh_Find hash key h of (_, _, pNode) \<Rightarrow>
        case pNode of
          None \<Rightarrow> None
        | Some p \<Rightarrow> map_option snd (fh_nodes h ! in_index (fh_itemnodes h ! p)))"

text \<open>An assignment through the pointer \<^verbatim>\<open>Lookup\<close> returns; nothing happens when it is null.\<close>

definition fh_Assign :: "('k \<Rightarrow> nat) \<Rightarrow> 'k \<Rightarrow> 'v \<Rightarrow> ('k, 'v) FastHash \<Rightarrow> ('k, 'v) FastHash" where
  "fh_Assign hash key val h =
     (case fh_Find hash key h of (_, _, pNode) \<Rightarrow>
        case pNode of
          None \<Rightarrow> h
        | Some p \<Rightarrow>
            h\<lparr>fh_nodes := (fh_nodes h)[in_index (fh_itemnodes h ! p) :=
                map_option (\<lambda>(k, v). (k, val)) (fh_nodes h ! in_index (fh_itemnodes h ! p))]\<rparr>)"

definition fh_Exists :: "('k \<Rightarrow> nat) \<Rightarrow> 'k \<Rightarrow> ('k, 'v) FastHash \<Rightarrow> bool" where
  "fh_Exists hash key h = (case fh_Find hash key h of (_, _, pNode) \<Rightarrow> pNode \<noteq> None)"

definition fh_LookupByIndex :: "nat \<Rightarrow> ('k, 'v) FastHash \<Rightarrow> ('k \<times> 'v) option \<times> ('k, 'v) FastHash" where
  "fh_LookupByIndex index h =
     (if index \<ge> fh_size h \<or> fh_indexlist h = None then (None, h)
      else
        (let h = (if fh_indexvalid h = False then fh_ReIndex h else h)
         in if fh_indexvalid h = False then (None, h)
            else
              (let indexadjusted = (fh_indexstart h + index) mod fh_fsize h;
                   itemindex = (case fh_indexlist h of None \<Rightarrow> 0 | Some il \<Rightarrow> il ! indexadjusted)
               in (fh_nodes h ! itemindex, h))))"

definition fh_LookupValueByIndex :: "nat \<Rightarrow> ('k, 'v) FastHash \<Rightarrow> 'v option \<times> ('k, 'v) FastHash" where
  "fh_LookupValueByIndex index h =
     (case fh_LookupByIndex index h of (pItem, h) \<Rightarrow> (map_option snd pItem, h))"

end
