(* ===== verification/FastHashProps.thy ===== *)
theory FastHashProps
  imports FastHash "HOL-Library.Multiset"
begin

text \<open>
  What the hash table promises. Abstractly it is a stack of values per key: \<^verbatim>\<open>Insert\<close> pushes
  (the documented "duplicate key insertions will not remove the previous item"), \<^verbatim>\<open>Lookup\<close>
  reads the top, \<^verbatim>\<open>Remove\<close> pops. The representation invariant says that the threaded node
  array is one free list and one acyclic chain per column, that every live node sits in the
  column its key hashes to, and that the position index, when it is marked valid, lists exactly
  the live nodes. The locale \<open>key_table\<close> is the contract its clients use.
\<close>

subsection \<open>Threaded lists\<close>

fun is_chain :: "ItemNode list \<Rightarrow> nat option \<Rightarrow> nat list \<Rightarrow> bool" where
  "is_chain its p [] \<longleftrightarrow> p = None"
| "is_chain its p (x # xs) \<longleftrightarrow> p = Some x \<and> x < length its \<and> is_chain its (in_next (its ! x)) xs"

fun fh_walk :: "nat \<Rightarrow> ItemNode list \<Rightarrow> nat option \<Rightarrow> nat list" where
  "fh_walk fuel its None = []"
| "fh_walk 0 its (Some p) = []"
| "fh_walk (Suc fuel) its (Some p) = p # fh_walk fuel its (in_next (its ! p))"

lemma is_chain_update [simp]: "y \<notin> set xs \<Longrightarrow> is_chain (its[y := n]) p xs = is_chain its p xs"
  by (induction xs arbitrary: p) auto

lemma is_chain_None [simp]: "is_chain its None xs \<longleftrightarrow> xs = []"
  by (cases xs) auto

lemma is_chain_Some: "is_chain its (Some p) xs \<longleftrightarrow>
    (\<exists>ys. xs = p # ys \<and> p < length its \<and> is_chain its (in_next (its ! p)) ys)"
  by (cases xs) auto

lemma is_chain_append_last:
  "is_chain its p (ys @ x # zs) \<Longrightarrow>
   (if ys = [] then p = Some x else in_next (its ! last ys) = Some x) \<and>
   is_chain its (in_next (its ! x)) zs"
proof (induction ys arbitrary: p)
  case (Cons y ys)
  then have "is_chain its (in_next (its ! y)) (ys @ x # zs)" by simp
  from Cons.IH [OF this] show ?case by (cases "ys = []") simp_all
qed simp

lemma is_chain_unlink:
  assumes "is_chain its p (ys @ x # zs)" "distinct (ys @ x # zs)" "ys \<noteq> []"
  shows "is_chain (its[last ys := (its ! last ys)\<lparr>in_next := in_next (its ! x)\<rparr>]) p (ys @ zs)"
  using assms
proof (induction ys arbitrary: p)
  case (Cons y ys)
  show ?case
  proof (cases "ys = []")
    case True
    with Cons.prems show ?thesis by auto
  next
    case False
    have "is_chain its (in_next (its ! y)) (ys @ x # zs)" "distinct (ys @ x # zs)"
      using Cons.prems by simp_all
    note ih = Cons.IH [OF this False]
    have "last ys \<noteq> y" using Cons.prems False last_in_set [OF False] by auto
    with ih Cons.prems False show ?thesis by simp
  qed
qed simp

lemma fh_walk_chain: "is_chain its p xs \<Longrightarrow> length xs \<le> fuel \<Longrightarrow> fh_walk fuel its p = xs"
proof (induction xs arbitrary: p fuel)
  case (Cons x xs)
  then show ?case by (cases fuel) auto
qed auto

definition fh_key_at :: "('k, 'v) FastHash \<Rightarrow> 'k \<Rightarrow> nat \<Rightarrow> bool" where
  "fh_key_at h key i \<longleftrightarrow> map_option fst (fh_nodes h ! in_index (fh_itemnodes h ! i)) = Some key"

lemma fh_probe_Some:
  "fh_probe (Suc fuel) h key prev (Some p) =
     (if fh_key_at h key p then (prev, Some p)
      else fh_probe fuel h key (Some p) (in_next (fh_itemnodes h ! p)))"
  by (simp add: fh_key_at_def)

declare fh_probe.simps(3) [simp del]

text \<open>The probe loop finds the first node of the chain with the key, whatever the spare fuel.\<close>

lemma fh_probe_chain:
  "is_chain (fh_itemnodes h) p xs \<Longrightarrow> length xs \<le> fuel \<Longrightarrow>
   fh_probe fuel h key prev p =
     (case dropWhile (\<lambda>i. \<not> fh_key_at h key i) xs of
        [] \<Rightarrow> (if xs = [] then prev else Some (last xs), None)
      | x # _ \<Rightarrow> (let ys = takeWhile (\<lambda>i. \<not> fh_key_at h key i) xs
                  in (if ys = [] then prev else Some (last ys), Some x)))"
proof (induction xs arbitrary: p prev fuel)
  case (Cons x xs)
  then obtain f where [simp]: "fuel = Suc f" by (cases fuel) auto
  from Cons.prems have p: "p = Some x" and c: "is_chain (fh_itemnodes h) (in_next (fh_itemnodes h ! x)) xs"
    by auto
  show ?case
  proof (cases "fh_key_at h key x")
    case True
    then show ?thesis using p by (simp add: fh_probe_Some)
  next
    case False
    with p have "fh_probe fuel h key prev p = fh_probe f h key (Some x) (in_next (fh_itemnodes h ! x))"
      by (simp add: fh_probe_Some)
    also have "\<dots> = (case dropWhile (\<lambda>i. \<not> fh_key_at h key i) xs of
        [] \<Rightarrow> (if xs = [] then Some x else Some (last xs), None)
      | x' # _ \<Rightarrow> (let ys = takeWhile (\<lambda>i. \<not> fh_key_at h key i) xs
                  in (if ys = [] then Some x else Some (last ys), Some x')))"
      using Cons.prems by (intro Cons.IH [OF c]) simp
    finally show ?thesis using False
      by (cases "dropWhile (\<lambda>i. \<not> fh_key_at h key i) xs")
        (simp_all add: Let_def del: dropWhile_eq_Nil_conv)
  qed
qed simp

subsection \<open>The representation invariant\<close>

definition fh_placed :: "('k \<Rightarrow> nat) \<Rightarrow> ('k, 'v) FastHash \<Rightarrow> nat \<Rightarrow> nat \<Rightarrow> bool" where
  "fh_placed hash h t i \<longleftrightarrow> (\<exists>k v. fh_nodes h ! i = Some (k, v) \<and> hash k mod fh_tsize h = t)"

definition fh_rep :: "('k \<Rightarrow> nat) \<Rightarrow> ('k, 'v) FastHash \<Rightarrow> nat list list \<Rightarrow> nat list \<Rightarrow> bool" where
  "fh_rep hash h cs fl \<longleftrightarrow>
     0 < fh_tsize h \<and> length (fh_nodes h) = fh_fsize h \<and> length (fh_itemnodes h) = fh_fsize h \<and>
     length (fh_lookuptable h) = fh_tsize h \<and> length cs = fh_tsize h \<and>
     (\<forall>i < fh_fsize h. in_index (fh_itemnodes h ! i) = i) \<and>
     is_chain (fh_itemnodes h) (fh_freelist h) fl \<and>
     (\<forall>t < fh_tsize h. is_chain (fh_itemnodes h) (fh_lookuptable h ! t) (cs ! t)) \<and>
     mset fl + mset (concat cs) = mset [0..<fh_fsize h] \<and>
     fh_size h = length (concat cs) \<and>
     (\<forall>t < fh_tsize h. \<forall>i \<in> set (cs ! t). fh_placed hash h t i)"

definition ring_window :: "nat \<Rightarrow> nat \<Rightarrow> nat \<Rightarrow> 'a list \<Rightarrow> 'a list" where
  "ring_window start n m xs = map (\<lambda>j. xs ! ((start + j) mod m)) [0..<n]"

definition fh_window :: "('k, 'v) FastHash \<Rightarrow> nat list \<Rightarrow> nat list" where
  "fh_window h il = ring_window (fh_indexstart h) (fh_size h) (fh_fsize h) il"

definition fh_index_ok :: "('k, 'v) FastHash \<Rightarrow> nat list \<Rightarrow> bool" where
  "fh_index_ok h live \<longleftrightarrow> (\<exists>il. fh_indexlist h = Some il \<and> length il = fh_fsize h \<and>
     fh_indexstart h < fh_fsize h \<and>
     (fh_indexvalid h \<longrightarrow> mset (fh_window h il) = mset live) \<and>
     (fh_size h = 0 \<longrightarrow> fh_indexvalid h))"

definition fh_inv :: "('k \<Rightarrow> nat) \<Rightarrow> ('k, 'v) FastHash \<Rightarrow> bool" where
  "fh_inv hash h \<longleftrightarrow> (\<exists>cs fl. fh_rep hash h cs fl \<and> fh_index_ok h (concat cs))"

text \<open>The values a chain holds for a key, the most recent first.\<close>

definition fh_vals :: "('k \<times> 'v) option list \<Rightarrow> 'k \<Rightarrow> nat list \<Rightarrow> 'v list" where
  "fh_vals nodes key xs = concat (map (\<lambda>i. case nodes ! i of None \<Rightarrow> []
     | Some (k, v) \<Rightarrow> if k = key then [v] else []) xs)"

definition fh_stack :: "('k \<Rightarrow> nat) \<Rightarrow> ('k, 'v) FastHash \<Rightarrow> 'k \<Rightarrow> 'v list" where
  "fh_stack hash h key = fh_vals (fh_nodes h) key
     (fh_walk (fh_fsize h) (fh_itemnodes h) (fh_lookuptable h ! (hash key mod fh_tsize h)))"

lemma mset_concat_update:
  "t < length cs \<Longrightarrow> mset (concat (cs[t := ys])) + mset (cs ! t) = mset (concat cs) + mset ys"
proof (induction cs arbitrary: t)
  case (Cons c cs)
  then show ?case by (cases t) (auto simp: ac_simps)
qed simp

lemma fh_rep_distinct:
  assumes "fh_rep hash h cs fl"
  shows "distinct (fl @ concat cs)" "set (fl @ concat cs) = {..<fh_fsize h}"
proof -
  have m: "mset (fl @ concat cs) = mset [0..<fh_fsize h]" using assms by (simp add: fh_rep_def)
  then show "distinct (fl @ concat cs)" by (metis distinct_upt mset_eq_imp_distinct_iff)
  from m have "set (fl @ concat cs) = set [0..<fh_fsize h]" by (rule mset_eq_setD)
  then show "set (fl @ concat cs) = {..<fh_fsize h}" by auto
qed

lemma fh_repD:
  assumes "fh_rep hash h cs fl"
  shows "0 < fh_tsize h" "length (fh_nodes h) = fh_fsize h" "length (fh_itemnodes h) = fh_fsize h"
    "length (fh_lookuptable h) = fh_tsize h" "length cs = fh_tsize h"
    "\<And>i. i < fh_fsize h \<Longrightarrow> in_index (fh_itemnodes h ! i) = i"
    "is_chain (fh_itemnodes h) (fh_freelist h) fl"
    "\<And>t. t < fh_tsize h \<Longrightarrow> is_chain (fh_itemnodes h) (fh_lookuptable h ! t) (cs ! t)"
    "mset fl + mset (concat cs) = mset [0..<fh_fsize h]"
    "fh_size h = length (concat cs)"
    "\<And>t i. t < fh_tsize h \<Longrightarrow> i \<in> set (cs ! t) \<Longrightarrow> fh_placed hash h t i"
  using assms by (simp_all only: fh_rep_def)

lemma fh_repI:
  assumes "0 < fh_tsize h" "length (fh_nodes h) = fh_fsize h" "length (fh_itemnodes h) = fh_fsize h"
    "length (fh_lookuptable h) = fh_tsize h" "length cs = fh_tsize h"
    "\<And>i. i < fh_fsize h \<Longrightarrow> in_index (fh_itemnodes h ! i) = i"
    "is_chain (fh_itemnodes h) (fh_freelist h) fl"
    "\<And>t. t < fh_tsize h \<Longrightarrow> is_chain (fh_itemnodes h) (fh_lookuptable h ! t) (cs ! t)"
    "mset fl + mset (concat cs) = mset [0..<fh_fsize h]"
    "fh_size h = length (concat cs)"
    "\<And>t i. t < fh_tsize h \<Longrightarrow> i \<in> set (cs ! t) \<Longrightarrow> fh_placed hash h t i"
  shows "fh_rep hash h cs fl"
  using assms by (simp only: fh_rep_def) blast

lemma fh_rep_length: "fh_rep hash h cs fl \<Longrightarrow> length fl + fh_size h = fh_fsize h"
  using arg_cong [OF fh_repD(9), of hash h cs fl size] by (simp add: fh_repD(10) del: length_concat)

lemma fh_rep_chain:
  assumes r: "fh_rep hash h cs fl" and t: "t < fh_tsize h"
  shows "is_chain (fh_itemnodes h) (fh_lookuptable h ! t) (cs ! t)" "distinct (cs ! t)"
    "set (cs ! t) \<subseteq> {..<fh_fsize h}" "length (cs ! t) \<le> fh_fsize h" "set (cs ! t) \<inter> set fl = {}"
proof -
  show "is_chain (fh_itemnodes h) (fh_lookuptable h ! t) (cs ! t)" using r t by (simp add: fh_rep_def)
  have "cs ! t \<in> set cs" using r t by (simp add: fh_rep_def)
  then have sub: "set (cs ! t) \<subseteq> set (concat cs)" by auto
  have "distinct (concat cs)" using fh_rep_distinct(1) [OF r] by simp
  then show d: "distinct (cs ! t)"
    using \<open>cs ! t \<in> set cs\<close> by (auto simp: distinct_concat_iff)
  show s: "set (cs ! t) \<subseteq> {..<fh_fsize h}" using sub fh_rep_distinct(2) [OF r] by auto
  show "length (cs ! t) \<le> fh_fsize h"
    using card_mono [OF _ s] distinct_card [OF d] by simp
  show "set (cs ! t) \<inter> set fl = {}" using sub fh_rep_distinct(1) [OF r] by auto
qed

lemma fh_rep_disjoint:
  assumes "fh_rep hash h cs fl" "t < fh_tsize h" "t' < fh_tsize h" "i \<in> set (cs ! t)" "i \<in> set (cs ! t')"
  shows "t' = t"
  using fh_repD(11) [OF assms(1,2,4)] fh_repD(11) [OF assms(1,3,5)] by (auto simp: fh_placed_def)

lemma fh_stack_rep:
  assumes "fh_rep hash h cs fl"
  shows "fh_stack hash h key = fh_vals (fh_nodes h) key (cs ! (hash key mod fh_tsize h))"
proof -
  have "hash key mod fh_tsize h < fh_tsize h" using assms by (simp add: fh_rep_def)
  from fh_rep_chain [OF assms this] show ?thesis
    by (simp add: fh_stack_def fh_walk_chain)
qed

subsection \<open>Lookup\<close>

lemma fh_key_at_rep:
  assumes "fh_rep hash h cs fl" "t < fh_tsize h" "i \<in> set (cs ! t)"
  shows "fh_key_at h key i \<longleftrightarrow> (\<exists>v. fh_nodes h ! i = Some (key, v))"
proof -
  have "i < fh_fsize h" using fh_rep_chain(3) [OF assms(1,2)] assms(3) by auto
  then show ?thesis using assms(1) by (auto simp: fh_key_at_def fh_rep_def)
qed

lemma fh_vals_simps [simp]:
  "fh_vals nodes key [] = []"
  "nodes ! i = Some (key, v) \<Longrightarrow> fh_vals nodes key (i # xs) = v # fh_vals nodes key xs"
  "\<nexists>v. nodes ! i = Some (key, v) \<Longrightarrow> fh_vals nodes key (i # xs) = fh_vals nodes key xs"
  "fh_vals nodes key (xs @ ys) = fh_vals nodes key xs @ fh_vals nodes key ys"
  by (auto simp: fh_vals_def split: option.splits)

lemma fh_vals_none: "(\<And>i. i \<in> set xs \<Longrightarrow> \<nexists>v. nodes ! i = Some (key, v)) \<Longrightarrow> fh_vals nodes key xs = []"
  by (induction xs) simp_all

lemma fh_vals_update [simp]: "y \<notin> set xs \<Longrightarrow> fh_vals (nodes[y := n]) key xs = fh_vals nodes key xs"
  by (induction xs) (auto simp: fh_vals_def)

text \<open>Where the chain of a key is cut: the nodes before the first one with the key, and the rest.\<close>

lemma fh_Find_rep:
  assumes r: "fh_rep hash h cs fl" and t: "t = hash key mod fh_tsize h"
  obtains (none) "fh_Find hash key h = (t, fst (snd (fh_Find hash key h)), None)"
      "fh_stack hash h key = []" "\<forall>i \<in> set (cs ! t). \<not> fh_key_at h key i"
  | (found) ys x zs v where "cs ! t = ys @ x # zs" "fh_nodes h ! x = Some (key, v)"
      "fh_Find hash key h = (t, (if ys = [] then None else Some (last ys)), Some x)"
      "fh_vals (fh_nodes h) key ys = []"
      "fh_stack hash h key = v # fh_vals (fh_nodes h) key zs"
proof -
  have tl: "t < fh_tsize h" using r t by (simp add: fh_rep_def)
  note c = fh_rep_chain [OF r tl]
  let ?P = "\<lambda>i. \<not> fh_key_at h key i"
  let ?ys = "takeWhile ?P (cs ! t)"
  have find: "fh_Find hash key h = (t, fh_probe (fh_fsize h) h key None (fh_lookuptable h ! t))"
    by (simp add: fh_Find_def t Let_def split: prod.split)
  have none: "fh_vals (fh_nodes h) key zs = []" if "\<forall>i \<in> set zs. i \<in> set (cs ! t) \<and> ?P i" for zs
  proof (rule fh_vals_none)
    fix i assume "i \<in> set zs"
    then show "\<nexists>v. fh_nodes h ! i = Some (key, v)" using that fh_key_at_rep [OF r tl] by blast
  qed
  show ?thesis
  proof (cases "dropWhile ?P (cs ! t)")
    case Nil
    then have all: "\<forall>i \<in> set (cs ! t). ?P i" by simp
    have "fh_probe (fh_fsize h) h key None (fh_lookuptable h ! t) =
        (if cs ! t = [] then None else Some (last (cs ! t)), None)"
      unfolding fh_probe_chain [OF c(1,4), of key None] Nil by simp
    then have "fh_Find hash key h = (t, fst (snd (fh_Find hash key h)), None)"
      unfolding find by simp
    moreover have "fh_stack hash h key = []"
      using none [of "cs ! t"] all by (simp add: fh_stack_rep [OF r] t)
    ultimately show ?thesis using all by (rule that(1))
  next
    case (Cons x zs)
    then have x: "x \<in> set (cs ! t)" "\<not> ?P x"
      using hd_dropWhile [of ?P "cs ! t"] set_dropWhileD [of x ?P "cs ! t"] by auto
    then obtain v where v: "fh_nodes h ! x = Some (key, v)" using fh_key_at_rep [OF r tl] by blast
    have split: "cs ! t = ?ys @ x # zs" using Cons by (metis takeWhile_dropWhile_id)
    have ys: "fh_vals (fh_nodes h) key ?ys = []" by (rule none) (auto dest: set_takeWhileD)
    have "fh_stack hash h key = fh_vals (fh_nodes h) key (?ys @ x # zs)"
      using fh_stack_rep [OF r, of key] split t by simp
    then have "fh_stack hash h key = v # fh_vals (fh_nodes h) key zs" using ys v by simp
    moreover have "fh_Find hash key h = (t, (if ?ys = [] then None else Some (last ?ys)), Some x)"
      using find fh_probe_chain [OF c(1,4), of key None] Cons by (simp add: Let_def)
    ultimately show ?thesis using split v ys that(2) by blast
  qed
qed

lemma fh_Lookup_rep:
  assumes "fh_rep hash h cs fl"
  shows "fh_Lookup hash key h = (case fh_stack hash h key of [] \<Rightarrow> None | v # vs \<Rightarrow> Some v)"
proof -
  have ix: "in_index (fh_itemnodes h ! x) = x" if "cs ! (hash key mod fh_tsize h) = ys @ x # zs" for ys x zs
    using fh_rep_chain(3) [OF assms, of "hash key mod fh_tsize h"] that assms by (auto simp: fh_rep_def)
  show ?thesis
  proof (rule fh_Find_rep [OF assms refl, where key = key], goal_cases none found)
    case none
    then show ?case by (auto simp: fh_Lookup_def split: prod.splits)
  next
    case (found ys x zs v)
    then show ?case by (simp add: fh_Lookup_def ix)
  qed
qed

subsection \<open>Insert\<close>

lemma fh_UpdateIndexWithAdd_simps [simp]:
  "fh_fsize (fh_UpdateIndexWithAdd p h) = fh_fsize h" "fh_tsize (fh_UpdateIndexWithAdd p h) = fh_tsize h"
  "fh_nodes (fh_UpdateIndexWithAdd p h) = fh_nodes h"
  "fh_itemnodes (fh_UpdateIndexWithAdd p h) = fh_itemnodes h"
  "fh_freelist (fh_UpdateIndexWithAdd p h) = fh_freelist h"
  "fh_lookuptable (fh_UpdateIndexWithAdd p h) = fh_lookuptable h"
  "fh_size (fh_UpdateIndexWithAdd p h) = fh_size h"
  by (auto simp: fh_UpdateIndexWithAdd_def Let_def split: option.splits)

lemma fh_Insert_simps:
  assumes "fh_freelist h = Some x"
  shows "fst (fh_Insert hash key v h) = 1"
    "fh_fsize (snd (fh_Insert hash key v h)) = fh_fsize h"
    "fh_tsize (snd (fh_Insert hash key v h)) = fh_tsize h"
    "fh_nodes (snd (fh_Insert hash key v h)) =
       (fh_nodes h)[in_index (fh_itemnodes h ! x) := Some (key, v)]"
    "fh_itemnodes (snd (fh_Insert hash key v h)) = (fh_itemnodes h)
       [x := (fh_itemnodes h ! x)\<lparr>in_next := fh_lookuptable h ! (hash key mod fh_tsize h)\<rparr>]"
    "fh_freelist (snd (fh_Insert hash key v h)) = in_next (fh_itemnodes h ! x)"
    "fh_lookuptable (snd (fh_Insert hash key v h)) =
       (fh_lookuptable h)[hash key mod fh_tsize h := Some x]"
    "fh_size (snd (fh_Insert hash key v h)) = fh_size h + 1"
  using assms by (simp_all add: fh_Insert_def Let_def)

lemma fh_Insert_rep:
  assumes r: "fh_rep hash h cs (x # fl)" and t: "t = hash key mod fh_tsize h"
  shows "fh_rep hash (snd (fh_Insert hash key v h)) (cs[t := x # cs ! t]) fl"
proof -
  let ?h = "snd (fh_Insert hash key v h)"
  note d = fh_repD [OF r]
  have tl: "t < fh_tsize h" using d(1) t by simp
  have free: "fh_freelist h = Some x" using d(7) by simp
  have xlt: "x < fh_fsize h" and xfl: "x \<notin> set fl" and xcs: "x \<notin> set (concat cs)"
    using fh_rep_distinct [OF r] by auto
  note ix = d(6) [OF xlt]
  have xc: "x \<notin> set (cs ! t')" if "t' < fh_tsize h" for t'
    using xcs that nth_mem [of t' cs] unfolding d(5) by auto
  have fl: "is_chain (fh_itemnodes h) (in_next (fh_itemnodes h ! x)) fl" using d(7) by simp
  note S = fh_Insert_simps [OF free, where hash = hash and key = key and v = v, folded t, unfolded ix]
  have c: "mset (concat (cs[t := x # cs ! t])) = mset (concat cs) + {#x#}"
    using mset_concat_update [of t cs "x # cs ! t"] tl by (simp add: d(5))
  show ?thesis
  proof (rule fh_repI, unfold S)
    show "mset fl + mset (concat (cs[t := x # cs ! t])) = mset [0..<fh_fsize h]"
      using d(9) unfolding c by simp
    show "fh_size h + 1 = length (concat (cs[t := x # cs ! t]))"
      using arg_cong [OF c, of size] d(10) by (simp only: size_mset size_union) simp
    fix t' assume t': "t' < fh_tsize h"
    show "is_chain ((fh_itemnodes h)[x := (fh_itemnodes h ! x)\<lparr>in_next := fh_lookuptable h ! t\<rparr>])
        ((fh_lookuptable h)[t := Some x] ! t') (cs[t := x # cs ! t] ! t')"
      using d(8) [OF t'] xc [OF t'] tl t' xlt by (cases "t' = t") (simp_all add: d(3,4,5))
    fix i assume "i \<in> set (cs[t := x # cs ! t] ! t')"
    then show "fh_placed hash ?h t' i"
      using d(11) [OF t'] xc [OF t'] tl t' xlt t
      by (cases "t' = t"; cases "i = x") (auto simp: S fh_placed_def d(2,5))
  qed (use d xfl fl in \<open>auto simp: nth_list_update\<close>)
qed

lemma fh_Insert_stack:
  assumes r: "fh_rep hash h cs (x # fl)"
  shows "fh_stack hash (snd (fh_Insert hash key v h)) =
      (fh_stack hash h)(key := v # fh_stack hash h key)"
proof
  fix k
  let ?t = "hash key mod fh_tsize h"
  note d = fh_repD [OF r]
  have tl: "?t < fh_tsize h" and kt: "hash k mod fh_tsize h < fh_tsize h" using d(1) by simp_all
  have free: "fh_freelist h = Some x" using d(7) by simp
  have xlt: "x < fh_fsize h" and xcs: "x \<notin> set (concat cs)"
    using fh_rep_distinct [OF r] by auto
  have xc: "x \<notin> set (cs ! t')" if "t' < fh_tsize h" for t'
    using xcs that nth_mem [of t' cs] unfolding d(5) by auto
  note S = fh_Insert_simps [OF free, where hash = hash and key = key and v = v, unfolded d(6) [OF xlt]]
  show "fh_stack hash (snd (fh_Insert hash key v h)) k =
      ((fh_stack hash h)(key := v # fh_stack hash h key)) k"
    unfolding fh_stack_rep [OF fh_Insert_rep [OF r refl]] fun_upd_apply fh_stack_rep [OF r] S
    using xc [OF kt] xc [OF tl] tl xlt d(2,5)
    by (cases "hash k mod fh_tsize h = ?t"; cases "k = key") simp_all
qed

subsection \<open>Remove\<close>

lemma fh_UpdateIndexWithRemove_simps [simp]:
  "fh_fsize (fh_UpdateIndexWithRemove p h) = fh_fsize h"
  "fh_tsize (fh_UpdateIndexWithRemove p h) = fh_tsize h"
  "fh_nodes (fh_UpdateIndexWithRemove p h) = fh_nodes h"
  "fh_itemnodes (fh_UpdateIndexWithRemove p h) = fh_itemnodes h"
  "fh_freelist (fh_UpdateIndexWithRemove p h) = fh_freelist h"
  "fh_lookuptable (fh_UpdateIndexWithRemove p h) = fh_lookuptable h"
  "fh_size (fh_UpdateIndexWithRemove p h) = fh_size h"
  by (auto simp: fh_UpdateIndexWithRemove_def Let_def split: option.splits)

text \<open>The node arrays once the found node \<open>x\<close> is unlinked from its chain.\<close>

definition fh_unlink :: "nat \<Rightarrow> nat list \<Rightarrow> nat \<Rightarrow> ('k, 'v) FastHash \<Rightarrow> ('k, 'v) FastHash" where
  "fh_unlink t ys x h =
     (if ys = [] then h\<lparr>fh_lookuptable := (fh_lookuptable h)[t := in_next (fh_itemnodes h ! x)]\<rparr>
      else h\<lparr>fh_itemnodes := (fh_itemnodes h)
        [last ys := (fh_itemnodes h ! last ys)\<lparr>in_next := in_next (fh_itemnodes h ! x)\<rparr>]\<rparr>)"

lemma fh_Remove_found:
  assumes "fh_Find hash key h = (t, (if ys = [] then None else Some (last ys)), Some x)"
    and "x \<notin> set ys"
  shows "fh_Remove hash key h = (1, (let g = fh_UpdateIndexWithRemove x (fh_unlink t ys x h) in
     g\<lparr>fh_itemnodes := (fh_itemnodes g)[x := (fh_itemnodes g ! x)\<lparr>in_next := fh_freelist h\<rparr>],
       fh_freelist := Some x, fh_size := fh_size h - 1\<rparr>))"
  using assms by (simp add: fh_Remove_def Let_def fh_unlink_def)

lemma fh_Remove_rep:
  assumes r: "fh_rep hash h cs fl" and split: "cs ! t = ys @ x # zs" and tl: "t < fh_tsize h"
    and find: "fh_Find hash key h = (t, (if ys = [] then None else Some (last ys)), Some x)"
  shows "fh_rep hash (snd (fh_Remove hash key h)) (cs[t := ys @ zs]) (x # fl)"
proof -
  note d = fh_repD [OF r]
  note ct = fh_rep_chain [OF r tl, unfolded split]
  have x: "x < fh_fsize h" "x \<notin> set fl" "x \<notin> set ys" "x \<notin> set zs" using ct by auto
  have lst: "last ys \<in> set (ys @ x # zs)" "last ys \<noteq> x" "last ys < fh_fsize h" if "ys \<noteq> []"
    using last_in_set [OF that] x ct(3) by auto
  have c: "mset (concat (cs[t := ys @ zs])) + {#x#} = mset (concat cs)"
    using mset_concat_update [of t cs "ys @ zs"] tl by (simp add: d(5) split)
  let ?u = "fh_unlink t ys x h"
  have len: "length (fh_itemnodes ?u) = fh_fsize h" "length (fh_lookuptable ?u) = fh_tsize h"
    "in_next (fh_itemnodes ?u ! x) = in_next (fh_itemnodes h ! x)"
    using lst x by (auto simp: fh_unlink_def d(3,4))
  have ii: "in_index (fh_itemnodes ?u ! i) = i" if "i < fh_fsize h" for i
    using d(6) [OF that] that lst(3)
    by (cases "i = last ys"; cases "ys = []") (simp_all add: fh_unlink_def d(3))
  have chains: "is_chain (fh_itemnodes ?u) (fh_lookuptable ?u ! t') ((cs[t := ys @ zs]) ! t')"
    if t': "t' < fh_tsize h" for t'
  proof (cases "t' = t")
    case True
    then show ?thesis
      using is_chain_unlink [OF ct(1,2)] is_chain_append_last [OF ct(1)] tl
      by (cases "ys = []") (simp_all add: fh_unlink_def d(4,5))
  next
    case False
    have "last ys \<notin> set (cs ! t')" if "ys \<noteq> []"
      using fh_rep_disjoint [OF r tl t', of "last ys"] lst(1) [OF that] False by (auto simp: split)
    with d(8) [OF t'] False show ?thesis by (simp add: fh_unlink_def)
  qed
  have xn: "x \<notin> set ((cs[t := ys @ zs]) ! t')" if t': "t' < fh_tsize h" for t'
    using fh_rep_disjoint [OF r tl t', of x] x tl by (cases "t' = t") (auto simp: d(5) split)
  have ufl: "is_chain (fh_itemnodes ?u) (fh_freelist h) fl"
  proof -
    have "last ys \<notin> set fl" if "ys \<noteq> []" using lst(1) [OF that] ct(5) by auto
    with d(7) show ?thesis by (simp add: fh_unlink_def)
  qed
  have same: "fh_fsize ?u = fh_fsize h" "fh_tsize ?u = fh_tsize h" "fh_nodes ?u = fh_nodes h"
    by (simp_all add: fh_unlink_def)
  let ?h = "snd (fh_Remove hash key h)"
  have S: "fh_fsize ?h = fh_fsize h" "fh_tsize ?h = fh_tsize h" "fh_nodes ?h = fh_nodes h"
    "fh_itemnodes ?h = (fh_itemnodes ?u)[x := (fh_itemnodes ?u ! x)\<lparr>in_next := fh_freelist h\<rparr>]"
    "fh_freelist ?h = Some x" "fh_lookuptable ?h = fh_lookuptable ?u" "fh_size ?h = fh_size h - 1"
    by (simp_all add: fh_Remove_found [OF find x(3)] Let_def same)
  show ?thesis
  proof (rule fh_repI, unfold S)
    show "mset (x # fl) + mset (concat (cs[t := ys @ zs])) = mset [0..<fh_fsize h]"
      using d(9) unfolding c [symmetric] by simp
    show "fh_size h - 1 = length (concat (cs[t := ys @ zs]))"
      using arg_cong [OF c, of size] d(10) by (simp only: size_mset size_union) simp
    fix t' assume t': "t' < fh_tsize h"
    show "is_chain ((fh_itemnodes ?u)[x := (fh_itemnodes ?u ! x)\<lparr>in_next := fh_freelist h\<rparr>])
        (fh_lookuptable ?u ! t') (cs[t := ys @ zs] ! t')"
      using chains [OF t'] xn [OF t'] by simp
    fix i assume "i \<in> set (cs[t := ys @ zs] ! t')"
    then have "i \<in> set (cs ! t')" using tl by (cases "t' = t") (auto simp: d(5) split)
    then show "fh_placed hash ?h t' i" using d(11) [OF t'] by (simp add: S fh_placed_def)
  qed (use d(1,2,5) len ii ufl x in \<open>auto simp: nth_list_update\<close>)
qed

lemma fh_Remove_stack:
  assumes r: "fh_rep hash h cs fl" and t: "t = hash key mod fh_tsize h"
    and split: "cs ! t = ys @ x # zs" and v: "fh_nodes h ! x = Some (key, v)"
    and ys: "fh_vals (fh_nodes h) key ys = []"
    and find: "fh_Find hash key h = (t, (if ys = [] then None else Some (last ys)), Some x)"
  shows "fh_stack hash (snd (fh_Remove hash key h)) = (fh_stack hash h)(key := tl (fh_stack hash h key))"
proof
  fix k
  have tl: "t < fh_tsize h" using fh_repD(1) [OF r] t by simp
  have "x \<notin> set ys" using fh_rep_chain(2) [OF r tl] by (simp add: split)
  note f = fh_Remove_found [OF find this]
  have S: "fh_tsize (snd (fh_Remove hash key h)) = fh_tsize h"
    "fh_nodes (snd (fh_Remove hash key h)) = fh_nodes h"
    unfolding f by (simp_all add: Let_def fh_unlink_def)
  show "fh_stack hash (snd (fh_Remove hash key h)) k =
      ((fh_stack hash h)(key := List.tl (fh_stack hash h key))) k"
    unfolding fh_stack_rep [OF fh_Remove_rep [OF r split tl find]] fun_upd_apply fh_stack_rep [OF r] S
    using tl v ys split fh_repD(5) [OF r]
    by (cases "hash k mod fh_tsize h = t"; cases "k = key") (simp_all add: t [symmetric])
qed

subsection \<open>The position index\<close>

lemma ring_window_simps [simp]:
  "length (ring_window start n m xs) = n" "ring_window start 0 m xs = []"
  by (simp_all add: ring_window_def)

lemma ring_window_snoc:
  "ring_window start (Suc n) m xs = ring_window start n m xs @ [xs ! ((start + n) mod m)]"
  by (simp add: ring_window_def)

lemma ring_mod: "a < m \<Longrightarrow> b < m \<Longrightarrow> (a + b) mod m = (if a + b < m then a + b else a + b - (m::nat))"
  by (simp add: mod_if)

lemma ring_window_Cons:
  assumes "start < m"
  shows "ring_window start (Suc n) m xs = xs ! start # ring_window ((start + 1) mod m) n m xs"
proof (rule nth_equalityI)
  fix i assume "i < length (ring_window start (Suc n) m xs)"
  then show "ring_window start (Suc n) m xs ! i =
      (xs ! start # ring_window ((start + 1) mod m) n m xs) ! i"
    using assms mod_add_left_eq [of "start + 1" m "i - 1"]
    by (cases i) (simp_all add: ring_window_def del: upt_Suc)
qed simp

lemma ring_window_update:
  assumes "n < m" "start < m" "length xs = m"
  shows "ring_window start n m (xs[(start + n) mod m := x]) = ring_window start n m xs"
proof -
  have "(start + n) mod m \<noteq> (start + j) mod m" if "j < n" for j
    using that assms by (auto simp: ring_mod)
  then show ?thesis by (simp add: ring_window_def)
qed

lemma fh_index_Add:
  assumes ok: "fh_index_ok h live" and room: "fh_size h < fh_fsize h"
    and x: "in_index (fh_itemnodes h ! x) = x" and live: "mset live' = add_mset x (mset live)"
    and g: "g = (fh_UpdateIndexWithAdd x h)\<lparr>fh_size := fh_size h + 1\<rparr>"
  shows "fh_index_ok g live'"
proof -
  obtain il where il: "fh_indexlist h = Some il" "length il = fh_fsize h" "fh_indexstart h < fh_fsize h"
    and m: "fh_indexvalid h \<Longrightarrow> mset (fh_window h il) = mset live"
    and z: "fh_size h = 0 \<Longrightarrow> fh_indexvalid h"
    using ok by (auto simp: fh_index_ok_def)
  show ?thesis
  proof (cases "fh_indexvalid h")
    case True
    have "fh_window g (il[(fh_indexstart h + fh_size h) mod fh_fsize h := x]) = fh_window h il @ [x]"
      using True il room ring_window_update [OF room il(3,2), of x]
      by (simp add: g fh_window_def fh_UpdateIndexWithAdd_def Let_def ring_window_snoc add.commute)
    with True m live show ?thesis
      using il room by (simp add: g x fh_index_ok_def fh_UpdateIndexWithAdd_def Let_def add.commute)
  next
    case False
    with il show ?thesis by (simp add: g fh_index_ok_def fh_UpdateIndexWithAdd_def)
  qed
qed

lemma fh_index_Remove:
  assumes ok: "fh_index_ok h live" and pos: "0 < fh_size h" and n: "fh_size h = length live"
    and x: "in_index (fh_itemnodes h ! x) = x" and live: "mset live = add_mset x (mset live')"
    and g: "g = (fh_UpdateIndexWithRemove x h)\<lparr>fh_size := fh_size h - 1\<rparr>"
  shows "fh_index_ok g live'"
proof -
  obtain il where il: "fh_indexlist h = Some il" "length il = fh_fsize h" "fh_indexstart h < fh_fsize h"
    and m: "fh_indexvalid h \<Longrightarrow> mset (fh_window h il) = mset live"
    using ok by (auto simp: fh_index_ok_def)
  obtain k where k: "fh_size h = Suc k" using pos by (cases "fh_size h") auto
  have mod: "(fh_indexstart h + 1) mod fh_fsize h < fh_fsize h" using il(3) by simp
  consider (one) "k = 0" | (invalid) "k > 0" "\<not> fh_indexvalid h"
    | (first) "k > 0" "fh_indexvalid h" "x = il ! fh_indexstart h"
    | (last) "k > 0" "fh_indexvalid h" "x \<noteq> il ! fh_indexstart h"
        "x = il ! ((fh_indexstart h + k) mod fh_fsize h)"
    | (middle) "k > 0" "x \<noteq> il ! fh_indexstart h" "x \<noteq> il ! ((fh_indexstart h + k) mod fh_fsize h)"
    by blast
  then show ?thesis
  proof cases
    case one
    have "size (mset live) = Suc (size (mset live'))" unfolding live by simp
    then have "live' = []" using one k n by simp
    with one k il show ?thesis
      by (simp add: g fh_index_ok_def fh_UpdateIndexWithRemove_def fh_window_def)
  next
    case invalid
    with k il show ?thesis by (simp add: g fh_index_ok_def fh_UpdateIndexWithRemove_def)
  next
    case first
    have "fh_window h il = x # fh_window g il"
      using first(1,2) k il ring_window_Cons [OF il(3), of k il]
      by (simp add: g fh_window_def fh_UpdateIndexWithRemove_def x first(3) [symmetric])
    with m [OF first(2)] live have "mset (fh_window g il) = mset live'" by simp
    with first(1,2) k il mod show ?thesis
      by (simp add: g fh_index_ok_def fh_UpdateIndexWithRemove_def x first(3) [symmetric])
  next
    case last
    have "fh_window h il = fh_window g il @ [x]"
      using last(1-3) k il
      by (simp add: g fh_window_def fh_UpdateIndexWithRemove_def x ring_window_snoc Let_def last(4) [symmetric])
    with m [OF last(2)] live have "mset (fh_window g il) = mset live'" by simp
    with last(1-3) k il show ?thesis
      by (simp add: g fh_index_ok_def fh_UpdateIndexWithRemove_def x Let_def last(4) [symmetric])
  next
    case middle
    with k il show ?thesis by (auto simp add: g fh_index_ok_def fh_UpdateIndexWithRemove_def x Let_def)
  qed
qed

subsection \<open>Every operation keeps the invariant\<close>

lemma fh_Reset_rep:
  assumes "0 < fh_fsize h" "0 < fh_tsize h" "length (fh_nodes h) = fh_fsize h"
    "length (fh_itemnodes h) \<in> {0, fh_fsize h}" "length (fh_lookuptable h) = fh_tsize h"
  shows "fh_rep hash (fh_Reset h) (replicate (fh_tsize h) []) [0..<fh_fsize h]"
proof -
  let ?its = "fh_itemnodes (fh_Reset h)"
  have its: "?its = map (\<lambda>x. \<lparr>in_index = x,
      in_next = (if x = fh_fsize h - 1 then None else Some (x + 1))\<rparr>) [0..<fh_fsize h]"
    using assms by (simp add: fh_Reset_def Let_def)
  have chain: "is_chain ?its (if i = fh_fsize h then None else Some i) [i..<fh_fsize h]"
    if "i \<le> fh_fsize h" for i
    using that
  proof (induction rule: inc_induct)
    case (step n)
    then have "[n..<fh_fsize h] = n # [Suc n..<fh_fsize h]" by (simp add: upt_conv_Cons)
    with step show ?case using assms(1) by (auto simp: its split: if_splits)
  qed simp
  show ?thesis
  proof (rule fh_repI)
    show "is_chain (fh_itemnodes (fh_Reset h)) (fh_freelist (fh_Reset h)) [0..<fh_fsize h]"
      using chain [of 0] assms(1) by (simp add: fh_Reset_def Let_def)
  qed (use assms its in \<open>simp_all add: fh_Reset_def Let_def\<close>)
qed

lemma FastHash_new_inv:
  assumes "0 < FSIZE" "0 < TSIZE"
  shows "fh_inv hash (FastHash_new FSIZE TSIZE)" "fh_stack hash (FastHash_new FSIZE TSIZE) = (\<lambda>_. [])"
proof -
  let ?i = "\<lparr>fh_fsize = FSIZE, fh_tsize = TSIZE, fh_nodes = replicate FSIZE None,
       fh_itemnodes = [], fh_freelist = None, fh_lookuptable = replicate TSIZE None,
       fh_indexlist = Some (replicate FSIZE 0), fh_indexvalid = True, fh_indexstart = 0,
       fh_size = 0\<rparr>"
  have new: "FastHash_new FSIZE TSIZE = fh_Reset ?i" by (simp add: FastHash_new_def fh_Init_def)
  have r: "fh_rep hash (FastHash_new FSIZE TSIZE) (replicate TSIZE []) [0..<FSIZE]"
    unfolding new using fh_Reset_rep [of ?i hash] assms by simp
  have "fh_index_ok (FastHash_new FSIZE TSIZE) (concat (replicate TSIZE []))"
    using assms by (simp add: new fh_Reset_def Let_def fh_index_ok_def fh_window_def)
  with r show "fh_inv hash (FastHash_new FSIZE TSIZE)" by (auto simp: fh_inv_def)
  have t: "fh_tsize (FastHash_new FSIZE TSIZE) = TSIZE"
    by (simp add: new fh_Reset_def Let_def)
  show "fh_stack hash (FastHash_new FSIZE TSIZE) = (\<lambda>_. [])"
    using assms by (intro ext) (simp add: fh_stack_rep [OF r] t)
qed

lemma FastHash_new_size: "fh_fsize (FastHash_new FSIZE TSIZE) = FSIZE" "fh_size (FastHash_new FSIZE TSIZE) = 0"
  by (simp_all add: FastHash_new_def fh_Init_def fh_Reset_def Let_def)

text \<open>Any table can be emptied, whatever it held: only its sizes matter.\<close>

lemma fh_Reset_inv:
  assumes inv: "fh_inv hash h"
  shows "fh_inv hash (fh_Reset h)" "fh_stack hash (fh_Reset h) = (\<lambda>_. [])"
    "fh_size (fh_Reset h) = 0" "fh_fsize (fh_Reset h) = fh_fsize h"
proof -
  obtain cs fl where r: "fh_rep hash h cs fl" and ok: "fh_index_ok h (concat cs)"
    using inv by (auto simp: fh_inv_def)
  note d = fh_repD [OF r]
  have pos: "0 < fh_fsize h" using ok by (auto simp: fh_index_ok_def)
  have r': "fh_rep hash (fh_Reset h) (replicate (fh_tsize h) []) [0..<fh_fsize h]"
    by (rule fh_Reset_rep) (use d pos in auto)
  have "fh_index_ok (fh_Reset h) (concat (replicate (fh_tsize h) []))"
    using ok pos by (auto simp: fh_Reset_def Let_def fh_index_ok_def fh_window_def)
  with r' show "fh_inv hash (fh_Reset h)" by (auto simp: fh_inv_def)
  have "fh_tsize (fh_Reset h) = fh_tsize h" by (simp add: fh_Reset_def Let_def)
  then show "fh_stack hash (fh_Reset h) = (\<lambda>_. [])"
    using d(1) by (intro ext) (simp add: fh_stack_rep [OF r'])
qed (simp_all add: fh_Reset_def Let_def)

definition fh_room :: "('k, 'v) FastHash \<Rightarrow> nat" where
  "fh_room h = fh_fsize h - fh_size h"

lemma fh_Insert_inv:
  assumes inv: "fh_inv hash h" and room: "0 < fh_room h"
  shows "fst (fh_Insert hash key v h) = 1" "fh_inv hash (snd (fh_Insert hash key v h))"
    "fh_room (snd (fh_Insert hash key v h)) = fh_room h - 1"
    "fh_stack hash (snd (fh_Insert hash key v h)) = (fh_stack hash h)(key := v # fh_stack hash h key)"
proof -
  obtain cs fl0 where r0: "fh_rep hash h cs fl0" and ok: "fh_index_ok h (concat cs)"
    using inv by (auto simp: fh_inv_def)
  have "fl0 \<noteq> []" using fh_rep_length [OF r0] room by (auto simp: fh_room_def)
  then obtain x fl where fl0: "fl0 = x # fl" by (cases fl0) auto
  note r = r0 [unfolded fl0]
  note d = fh_repD [OF r]
  have free: "fh_freelist h = Some x" and xlt: "x < fh_fsize h" using d(7) d(3) by simp_all
  note S = fh_Insert_simps [OF free, where hash = hash and key = key and v = v]
  show "fst (fh_Insert hash key v h) = 1" by (rule S)
  show "fh_room (snd (fh_Insert hash key v h)) = fh_room h - 1" by (simp add: fh_room_def S)
  show "fh_stack hash (snd (fh_Insert hash key v h)) = (fh_stack hash h)(key := v # fh_stack hash h key)"
    by (rule fh_Insert_stack [OF r])
  let ?t = "hash key mod fh_tsize h"
  let ?g = "h\<lparr>fh_freelist := fh_freelist (snd (fh_Insert hash key v h)),
      fh_nodes := fh_nodes (snd (fh_Insert hash key v h)),
      fh_itemnodes := fh_itemnodes (snd (fh_Insert hash key v h)),
      fh_lookuptable := fh_lookuptable (snd (fh_Insert hash key v h))\<rparr>"
  have tl: "?t < fh_tsize h" using d(1) by simp
  have "fh_index_ok (snd (fh_Insert hash key v h)) (concat (cs[?t := x # cs ! ?t]))"
  proof (rule fh_index_Add [of ?g "concat cs" x])
    show "fh_index_ok ?g (concat cs)" using ok by (simp add: fh_index_ok_def fh_window_def)
    show "fh_size ?g < fh_fsize ?g" using room by (simp add: fh_room_def)
    show "in_index (fh_itemnodes ?g ! x) = x" using d(6) [OF xlt] xlt d(3) by (simp add: S)
    show "mset (concat (cs[?t := x # cs ! ?t])) = add_mset x (mset (concat cs))"
      using mset_concat_update [of ?t cs "x # cs ! ?t"] tl by (simp add: d(5))
    show "snd (fh_Insert hash key v h) = (fh_UpdateIndexWithAdd x ?g)\<lparr>fh_size := fh_size ?g + 1\<rparr>"
      using free by (simp add: S) (simp add: fh_Insert_def Let_def)
  qed
  then show "fh_inv hash (snd (fh_Insert hash key v h))"
    using fh_Insert_rep [OF r refl] by (auto simp: fh_inv_def)
qed

lemma fh_Insert_full:
  assumes "fh_inv hash h" "fh_room h = 0"
  shows "fh_Insert hash key v h = (-1, h)"
proof -
  obtain cs fl where r: "fh_rep hash h cs fl" using assms by (auto simp: fh_inv_def)
  have "length fl = 0" using fh_rep_length [OF r] assms(2) unfolding fh_room_def by linarith
  then have "fl = []" by simp
  then have "fh_freelist h = None" using fh_repD(7) [OF r] by simp
  then show ?thesis by (simp add: fh_Insert_def)
qed

lemma fh_Remove_inv:
  assumes inv: "fh_inv hash h" and some: "fh_stack hash h key \<noteq> []"
  shows "fst (fh_Remove hash key h) = 1" "fh_inv hash (snd (fh_Remove hash key h))"
    "fh_room (snd (fh_Remove hash key h)) = fh_room h + 1"
    "fh_stack hash (snd (fh_Remove hash key h)) = (fh_stack hash h)(key := tl (fh_stack hash h key))"
proof -
  obtain cs fl where r: "fh_rep hash h cs fl" and ok: "fh_index_ok h (concat cs)"
    using inv by (auto simp: fh_inv_def)
  note d = fh_repD [OF r]
  let ?t = "hash key mod fh_tsize h"
  have tl: "?t < fh_tsize h" using d(1) by simp
  obtain ys x zs v where split: "cs ! ?t = ys @ x # zs" and v: "fh_nodes h ! x = Some (key, v)"
    and find: "fh_Find hash key h = (?t, (if ys = [] then None else Some (last ys)), Some x)"
    and ys: "fh_vals (fh_nodes h) key ys = []"
    by (rule fh_Find_rep [OF r refl, where key = key]) (use some in auto)
  have ct: "x < fh_fsize h" "x \<notin> set ys" using fh_rep_chain(2,3) [OF r tl] by (auto simp: split)
  note f = fh_Remove_found [OF find ct(2)]
  have c: "mset (concat cs) = add_mset x (mset (concat (cs[?t := ys @ zs])))"
    using mset_concat_update [of ?t cs "ys @ zs"] tl by (simp add: d(5) split)
  have pos: "0 < fh_size h" using arg_cong [OF c, of size] d(10) by (simp only: size_mset size_add_mset)
  show "fst (fh_Remove hash key h) = 1" by (simp add: f)
  have "fh_size (snd (fh_Remove hash key h)) = fh_size h - 1"
    "fh_fsize (snd (fh_Remove hash key h)) = fh_fsize h"
    by (simp_all add: f Let_def fh_unlink_def)
  then show "fh_room (snd (fh_Remove hash key h)) = fh_room h + 1"
    using pos fh_rep_length [OF r] unfolding fh_room_def by linarith
  show "fh_stack hash (snd (fh_Remove hash key h)) = (fh_stack hash h)(key := tl (fh_stack hash h key))"
    by (rule fh_Remove_stack [OF r refl split v ys find])
  let ?u = "fh_unlink ?t ys x h"
  let ?g = "(fh_UpdateIndexWithRemove x ?u)\<lparr>fh_size := fh_size ?u - 1\<rparr>"
  have u: "fh_size ?u = fh_size h" "fh_index_ok ?u (concat cs)"
    using ok by (simp_all add: fh_unlink_def fh_index_ok_def fh_window_def)
  have "in_index (fh_itemnodes ?u ! x) = x"
    using d(6) [OF ct(1)] ct(1) last_in_set [of ys] ct(2) d(3)
    by (cases "ys = []"; cases "x = last ys") (simp_all add: fh_unlink_def)
  then have "fh_index_ok ?g (concat (cs[?t := ys @ zs]))"
    using u pos d(10) by (intro fh_index_Remove [OF u(2) _ _ _ c refl]) simp_all
  then have "fh_index_ok (snd (fh_Remove hash key h)) (concat (cs[?t := ys @ zs]))"
    using u(1) by (simp add: f fh_index_ok_def fh_window_def Let_def)
  then show "fh_inv hash (snd (fh_Remove hash key h))"
    using fh_Remove_rep [OF r split tl find] by (auto simp: fh_inv_def)
qed

lemma fh_Remove_none:
  assumes inv: "fh_inv hash h" and "fh_stack hash h key = []"
  shows "fh_Remove hash key h = (-1, h)"
proof -
  obtain cs fl where r: "fh_rep hash h cs fl" using inv by (auto simp: fh_inv_def)
  show ?thesis
    by (rule fh_Find_rep [OF r refl, where key = key])
      (use assms(2) in \<open>auto simp: fh_Remove_def split: prod.splits\<close>)
qed

lemma fh_Lookup_inv:
  assumes "fh_inv hash h"
  shows "fh_Lookup hash key h = (case fh_stack hash h key of [] \<Rightarrow> None | v # vs \<Rightarrow> Some v)"
  using assms fh_Lookup_rep by (auto simp: fh_inv_def)

lemma fh_Exists_inv:
  assumes inv: "fh_inv hash h"
  shows "fh_Exists hash key h \<longleftrightarrow> fh_stack hash h key \<noteq> []"
proof -
  obtain cs fl where r: "fh_rep hash h cs fl" using inv by (auto simp: fh_inv_def)
  show ?thesis
    by (rule fh_Find_rep [OF r refl, where key = key]) (auto simp: fh_Exists_def split: prod.splits)
qed

lemma fh_Assign_inv:
  assumes inv: "fh_inv hash h"
  shows "fh_inv hash (fh_Assign hash key v h)" "fh_room (fh_Assign hash key v h) = fh_room h"
    "fh_stack hash (fh_Assign hash key v h) = (fh_stack hash h)(key :=
       (case fh_stack hash h key of [] \<Rightarrow> [] | _ # vs \<Rightarrow> v # vs))"
proof -
  obtain cs fl where r: "fh_rep hash h cs fl" and ok: "fh_index_ok h (concat cs)"
    using inv by (auto simp: fh_inv_def)
  note d = fh_repD [OF r]
  let ?t = "hash key mod fh_tsize h"
  have tl: "?t < fh_tsize h" using d(1) by simp
  have "fh_inv hash (fh_Assign hash key v h) \<and> fh_room (fh_Assign hash key v h) = fh_room h \<and>
    fh_stack hash (fh_Assign hash key v h) = (fh_stack hash h)(key :=
       (case fh_stack hash h key of [] \<Rightarrow> [] | _ # vs \<Rightarrow> v # vs))"
  proof (rule fh_Find_rep [OF r refl, where key = key], goal_cases none found)
    case none
    then have "fh_Assign hash key v h = h" by (auto simp: fh_Assign_def split: prod.splits)
    with none inv show ?case by auto
  next
    case (found ys x zs w)
    have x: "x < fh_fsize h" "x \<notin> set ys" "x \<notin> set zs"
      using fh_rep_chain(2,3) [OF r tl] by (auto simp: found(1))
    have a: "fh_Assign hash key v h = h\<lparr>fh_nodes := (fh_nodes h)[x := Some (key, v)]\<rparr>"
      using found(2,3) d(6) [OF x(1)] by (simp add: fh_Assign_def)
    have other: "x \<notin> set (cs ! t)" if "t < fh_tsize h" "t \<noteq> ?t" for t
      using fh_rep_disjoint [OF r tl that(1), of x] that(2) by (auto simp: found(1))
    have placed: "fh_placed hash (fh_Assign hash key v h) t i"
      if t: "t < fh_tsize h" and i: "i \<in> set (cs ! t)" for t i
    proof (cases "i = x")
      case True
      then have "t = ?t" using other [OF t] i by blast
      with True x(1) show ?thesis by (simp add: a fh_placed_def d(2))
    next
      case False
      then show ?thesis using d(11) [OF t i] by (simp add: a fh_placed_def)
    qed
    have r': "fh_rep hash (fh_Assign hash key v h) cs fl"
      by (rule fh_repI) (use d placed in \<open>simp_all add: a\<close>)
    have "fh_index_ok (fh_Assign hash key v h) (concat cs)"
      using ok by (simp add: a fh_index_ok_def fh_window_def)
    with r' have 1: "fh_inv hash (fh_Assign hash key v h)" by (auto simp: fh_inv_def)
    have nd: "fh_nodes (fh_Assign hash key v h) = (fh_nodes h)[x := Some (key, v)]"
      "fh_tsize (fh_Assign hash key v h) = fh_tsize h" by (simp_all add: a)
    have "fh_stack hash (fh_Assign hash key v h) k = ((fh_stack hash h)(key :=
        (case fh_stack hash h key of [] \<Rightarrow> [] | _ # vs \<Rightarrow> v # vs))) k" for k
    proof (cases "hash k mod fh_tsize h = ?t")
      case True
      then show ?thesis
        using found(1,2,4,5) x d(2)
        by (cases "k = key") (simp_all add: fh_stack_rep [OF r'] fh_stack_rep [OF r] nd)
    next
      case False
      then have "k \<noteq> key" by auto
      then show ?thesis
        using other [OF _ False] d(1) by (simp add: fh_stack_rep [OF r'] fh_stack_rep [OF r] nd)
    qed
    with 1 a show ?case by (auto simp: fh_room_def)
  qed
  then show "fh_inv hash (fh_Assign hash key v h)" "fh_room (fh_Assign hash key v h) = fh_room h"
    "fh_stack hash (fh_Assign hash key v h) = (fh_stack hash h)(key :=
       (case fh_stack hash h key of [] \<Rightarrow> [] | _ # vs \<Rightarrow> v # vs))"
    by auto
qed

subsection \<open>Enumeration by position\<close>

text \<open>What the table holds, as a bag of items: the live nodes in column order.\<close>

definition fh_items :: "('k, 'v) FastHash \<Rightarrow> ('k \<times> 'v) option list" where
  "fh_items h = map (\<lambda>i. fh_nodes h ! i) (concat (map (\<lambda>t.
     fh_walk (fh_fsize h) (fh_itemnodes h) (fh_lookuptable h ! t)) [0..<fh_tsize h]))"

lemma fh_items_rep:
  assumes r: "fh_rep hash h cs fl"
  shows "fh_items h = map (\<lambda>i. fh_nodes h ! i) (concat cs)"
proof -
  have "map (\<lambda>t. fh_walk (fh_fsize h) (fh_itemnodes h) (fh_lookuptable h ! t)) [0..<fh_tsize h] = cs"
    by (rule nth_equalityI)
      (simp_all add: fh_repD(5) [OF r] fh_walk_chain [OF fh_rep_chain(1) [OF r] fh_rep_chain(4) [OF r]])
  then show ?thesis by (simp add: fh_items_def)
qed

lemma fh_reindex_chain_chain:
  "is_chain its p xs \<Longrightarrow> length xs \<le> fuel \<Longrightarrow> length pre + length xs \<le> length pre + length rest \<Longrightarrow>
   (\<And>i. i \<in> set xs \<Longrightarrow> in_index (its ! i) = i) \<Longrightarrow>
   fh_reindex_chain fuel its p (length pre, pre @ rest) =
     (length (pre @ xs), (pre @ xs) @ drop (length xs) rest)"
proof (induction xs arbitrary: p fuel pre rest)
  case (Cons x xs)
  then obtain f r rs where [simp]: "fuel = Suc f" "rest = r # rs"
    by (cases fuel; cases rest) auto
  have "(pre @ rest)[length pre := x] = (pre @ [x]) @ rs" by simp
  then show ?case using Cons.prems Cons.IH [of "in_next (its ! x)" f "pre @ [x]" rs] by simp
qed simp

lemma fh_reindex_fold:
  assumes "\<And>t. t \<in> set ts \<Longrightarrow> is_chain its (p t) (c t) \<and> length (c t) \<le> fuel \<and>
      (\<forall>i \<in> set (c t). in_index (its ! i) = i)"
    and "length (concat (map c ts)) \<le> length rest"
  shows "fold (\<lambda>t. fh_reindex_chain fuel its (p t)) ts (length pre, pre @ rest) =
     (length (pre @ concat (map c ts)), (pre @ concat (map c ts)) @ drop (length (concat (map c ts))) rest)"
  using assms
proof (induction ts arbitrary: pre rest)
  case (Cons t ts)
  have "fh_reindex_chain fuel its (p t) (length pre, pre @ rest) =
      (length (pre @ c t), (pre @ c t) @ drop (length (c t)) rest)"
    using Cons.prems by (intro fh_reindex_chain_chain) auto
  moreover have "fold (\<lambda>t. fh_reindex_chain fuel its (p t)) ts
      (length (pre @ c t), (pre @ c t) @ drop (length (c t)) rest) =
    (length ((pre @ c t) @ concat (map c ts)), ((pre @ c t) @ concat (map c ts)) @
      drop (length (concat (map c ts))) (drop (length (c t)) rest))"
    using Cons.prems by (intro Cons.IH) auto
  ultimately show ?case by (simp add: add.commute)
qed simp

lemma fh_ReIndex_ok:
  assumes r: "fh_rep hash h cs fl" and ok: "fh_index_ok h (concat cs)" and pos: "0 < fh_size h"
  shows "fh_rep hash (fh_ReIndex h) cs fl" "fh_index_ok (fh_ReIndex h) (concat cs)"
    "fh_indexvalid (fh_ReIndex h)" "fh_nodes (fh_ReIndex h) = fh_nodes h"
    "fh_size (fh_ReIndex h) = fh_size h" "fh_fsize (fh_ReIndex h) = fh_fsize h"
proof -
  obtain il where il: "fh_indexlist h = Some il" "length il = fh_fsize h" "fh_indexstart h < fh_fsize h"
    using ok by (auto simp: fh_index_ok_def)
  note d = fh_repD [OF r]
  have cs: "map ((!) cs) [0..<fh_tsize h] = cs" by (rule nth_equalityI) (simp_all add: d(5))
  have ii: "in_index (fh_itemnodes h ! i) = i" if "t < fh_tsize h" "i \<in> set (cs ! t)" for t i
    using d(6) [of i] fh_rep_chain(3) [OF r that(1)] that(2) by auto
  have le: "length (concat cs) \<le> length il" using d(10) fh_rep_length [OF r] il(2) by linarith
  have "fold (\<lambda>t. fh_reindex_chain (fh_fsize h) (fh_itemnodes h) (fh_lookuptable h ! t))
      [0..<fh_tsize h] (length ([] :: nat list), [] @ il) =
    (length (([] :: nat list) @ concat (map ((!) cs) [0..<fh_tsize h])),
     ([] @ concat (map ((!) cs) [0..<fh_tsize h])) @ drop (length (concat (map ((!) cs) [0..<fh_tsize h]))) il)"
    by (rule fh_reindex_fold) (use fh_rep_chain(1,4) [OF r] ii le in \<open>auto simp: cs\<close>)
  then have fold: "fold (\<lambda>t. fh_reindex_chain (fh_fsize h) (fh_itemnodes h) (fh_lookuptable h ! t))
      [0..<fh_tsize h] (0, il) = (length (concat cs), concat cs @ drop (length (concat cs)) il)"
    unfolding cs by simp
  have ri: "fh_ReIndex h = h\<lparr>fh_indexlist := Some (concat cs @ drop (length (concat cs)) il),
      fh_indexvalid := True, fh_indexstart := 0\<rparr>"
    using pos il(1) by (simp add: fh_ReIndex_def fold del: length_concat)
  show "fh_rep hash (fh_ReIndex h) cs fl" by (rule fh_repI) (use d in \<open>simp_all add: ri fh_placed_def\<close>)
  have "ring_window 0 (fh_size h) (fh_fsize h) (concat cs @ drop (length (concat cs)) il) = concat cs"
    using d(10) le il(2) by (intro nth_equalityI) (simp_all add: ring_window_def nth_append del: length_concat)
  then show "fh_index_ok (fh_ReIndex h) (concat cs)"
    using le il pos by (simp add: ri fh_index_ok_def fh_window_def del: length_concat)
qed (use pos assms(2) in \<open>auto simp: fh_ReIndex_def fh_index_ok_def Let_def split: prod.split\<close>)

lemma fh_LookupByIndex_inv:
  assumes inv: "fh_inv hash h"
  shows "fh_inv hash (snd (fh_LookupByIndex i h))"
    "fh_stack hash (snd (fh_LookupByIndex i h)) = fh_stack hash h"
    "fh_room (snd (fh_LookupByIndex i h)) = fh_room h"
proof -
  obtain cs fl where r: "fh_rep hash h cs fl" and ok: "fh_index_ok h (concat cs)"
    using inv by (auto simp: fh_inv_def)
  have "snd (fh_LookupByIndex i h) = h \<or> snd (fh_LookupByIndex i h) = fh_ReIndex h \<and> 0 < fh_size h"
    by (auto simp: fh_LookupByIndex_def Let_def)
  then have "fh_inv hash (snd (fh_LookupByIndex i h)) \<and>
      fh_stack hash (snd (fh_LookupByIndex i h)) = fh_stack hash h \<and>
      fh_room (snd (fh_LookupByIndex i h)) = fh_room h"
  proof
    assume re: "snd (fh_LookupByIndex i h) = fh_ReIndex h \<and> 0 < fh_size h"
    note R = fh_ReIndex_ok [OF r ok re [THEN conjunct2]]
    have "fh_tsize (fh_ReIndex h) = fh_tsize h"
      by (auto simp: fh_ReIndex_def Let_def split: option.splits prod.splits)
    then have "fh_stack hash (fh_ReIndex h) = fh_stack hash h"
      by (intro ext) (simp add: fh_stack_rep [OF r] fh_stack_rep [OF R(1)] R(4))
    with R re show ?thesis by (auto simp: fh_inv_def fh_room_def)
  qed (use inv in simp)
  then show "fh_inv hash (snd (fh_LookupByIndex i h))"
    "fh_stack hash (snd (fh_LookupByIndex i h)) = fh_stack hash h"
    "fh_room (snd (fh_LookupByIndex i h)) = fh_room h" by auto
qed

text \<open>Reading every position of the table gives every live item once, and leaves it unchanged
  for the next read.\<close>

lemma fh_LookupByIndex_window:
  assumes r: "fh_rep hash h cs fl" and ok: "fh_index_ok h (concat cs)" and v: "fh_indexvalid h"
    and il: "fh_indexlist h = Some il" and i: "i < fh_size h"
  shows "fh_LookupByIndex i h = (fh_nodes h ! (fh_window h il ! i), h)"
  using i v il by (simp add: fh_LookupByIndex_def fh_window_def ring_window_def)

lemma fh_LookupByIndex_items:
  assumes inv: "fh_inv hash h"
  shows "mset (map (\<lambda>i. fst (fh_LookupByIndex i h)) [0..<fh_size h]) = mset (fh_items h)"
proof -
  obtain cs fl where r: "fh_rep hash h cs fl" and ok: "fh_index_ok h (concat cs)"
    using inv by (auto simp: fh_inv_def)
  define g where "g = (if fh_indexvalid h then h else fh_ReIndex h)"
  show ?thesis
  proof (cases "fh_size h = 0")
    case True
    then show ?thesis using fh_repD(10) [OF r] by (simp add: fh_items_rep [OF r] del: length_concat)
  next
    case False
    then have pos: "0 < fh_size h" by simp
    note R = fh_ReIndex_ok [OF r ok pos]
    have g: "fh_rep hash g cs fl" "fh_index_ok g (concat cs)" "fh_indexvalid g" "fh_nodes g = fh_nodes h"
      "fh_size g = fh_size h" using R r ok by (simp_all add: g_def)
    obtain il where il: "fh_indexlist g = Some il" and m: "mset (fh_window g il) = mset (concat cs)"
      using g(2,3) by (auto simp: fh_index_ok_def)
    have "fst (fh_LookupByIndex i h) = fh_nodes h ! (fh_window g il ! i)" if i: "i < fh_size h" for i
    proof -
      have "fst (fh_LookupByIndex i h) = fst (fh_LookupByIndex i g)"
        using R(3,5) i ok by (auto simp: g_def fh_LookupByIndex_def Let_def fh_index_ok_def
          fh_ReIndex_def split: prod.splits)
      with fh_LookupByIndex_window [OF g(1-3) il, of i] i show ?thesis by (simp add: g(4,5))
    qed
    then have "map (\<lambda>i. fst (fh_LookupByIndex i h)) [0..<fh_size h] =
        map (\<lambda>i. fh_nodes h ! i) (fh_window g il)"
      by (intro nth_equalityI) (simp_all add: fh_window_def g(5))
    then show ?thesis by (simp add: fh_items_rep [OF r] m)
  qed
qed

subsection \<open>The contract\<close>

text \<open>
  A bounded table of value stacks. Clients of the hash table (the attribute table of the message
  reader, the rate limiter, the connection tables of the TCP server) reason about it through these
  laws only.
\<close>

locale key_table =
  fixes inv :: "'t \<Rightarrow> bool"
    and room :: "'t \<Rightarrow> nat"
    and stack :: "'t \<Rightarrow> 'k \<Rightarrow> 'v list"
    and insert :: "'k \<Rightarrow> 'v \<Rightarrow> 't \<Rightarrow> int \<times> 't"
    and remove :: "'k \<Rightarrow> 't \<Rightarrow> int \<times> 't"
    and lookup :: "'k \<Rightarrow> 't \<Rightarrow> 'v option"
    and assign :: "'k \<Rightarrow> 'v \<Rightarrow> 't \<Rightarrow> 't"
  assumes insert_room: "inv t \<Longrightarrow> 0 < room t \<Longrightarrow> fst (insert k v t) = 1 \<and> inv (snd (insert k v t)) \<and>
      room (snd (insert k v t)) = room t - 1 \<and> stack (snd (insert k v t)) = (stack t)(k := v # stack t k)"
    and insert_full: "inv t \<Longrightarrow> room t = 0 \<Longrightarrow> insert k v t = (-1, t)"
    and remove_some: "inv t \<Longrightarrow> stack t k \<noteq> [] \<Longrightarrow> fst (remove k t) = 1 \<and> inv (snd (remove k t)) \<and>
      room (snd (remove k t)) = room t + 1 \<and> stack (snd (remove k t)) = (stack t)(k := tl (stack t k))"
    and remove_none: "inv t \<Longrightarrow> stack t k = [] \<Longrightarrow> remove k t = (-1, t)"
    and lookup_top: "inv t \<Longrightarrow> lookup k t = (case stack t k of [] \<Rightarrow> None | v # vs \<Rightarrow> Some v)"
    and assign_top: "inv t \<Longrightarrow> inv (assign k v t) \<and> room (assign k v t) = room t \<and>
      stack (assign k v t) = (stack t)(k := (case stack t k of [] \<Rightarrow> [] | _ # vs \<Rightarrow> v # vs))"
begin

lemma insert_ok_iff: "inv t \<Longrightarrow> 0 \<le> fst (insert k v t) \<longleftrightarrow> 0 < room t"
  using insert_room [of t k v] insert_full [of t k v] by (cases "room t = 0") auto

lemma insert_inv: "inv t \<Longrightarrow> inv (snd (insert k v t))"
  using insert_room [of t k v] insert_full [of t k v] by (cases "room t = 0") auto

lemma remove_inv: "inv t \<Longrightarrow> inv (snd (remove k t))"
  using remove_some [of t k] remove_none [of t k] by (cases "stack t k = []") auto

lemma lookup_insert: "inv t \<Longrightarrow> 0 < room t \<Longrightarrow>
    lookup k' (snd (insert k v t)) = (if k' = k then Some v else lookup k' t)"
  using insert_room [of t k v] insert_inv [of t k v] by (simp add: lookup_top)

lemma lookup_assign: "inv t \<Longrightarrow>
    lookup k' (assign k v t) = (if k' = k \<and> lookup k t \<noteq> None then Some v else lookup k' t)"
  using assign_top [of t k v] by (simp add: lookup_top split: list.splits)

text \<open>A removal undoes the insertion before it.\<close>

lemma remove_insert: "inv t \<Longrightarrow> 0 < room t \<Longrightarrow>
    stack (snd (remove k (snd (insert k v t)))) = stack t \<and>
    room (snd (remove k (snd (insert k v t)))) = room t"
  using insert_room [of t k v] remove_some [of "snd (insert k v t)" k] by auto

end

interpretation ft: key_table "fh_inv hash" fh_room "fh_stack hash"
  "fh_Insert hash" "fh_Remove hash" "fh_Lookup hash" "fh_Assign hash" for hash
  by unfold_locales
    (simp_all only: fh_Insert_inv fh_Insert_full fh_Remove_inv fh_Remove_none fh_Lookup_inv
      fh_Assign_inv simp_thms)

end
