(* ===== verification/StunReader.thy ===== *)
theory StunReader
  imports SocketAddress FastHashProps
begin

text \<open>
  The message reader \<^verbatim>\<open>CStunMessageReader\<close> (\<^verbatim>\<open>stuncore/stunreader.cpp\<close>): bytes are fed in as they
  arrive, the header is parsed once twenty bytes are there, the attributes once the length the
  header gives is there. The message digest functions of OpenSSL and the CRC of Boost are the
  parameters \<open>hmac\<close> (HMAC-SHA1 of a key and a message), \<open>md5\<close> and \<open>crc32\<close>.
\<close>

datatype ReaderParseState = HeaderNotRead | HeaderValidated | BodyValidated | ParseError

definition MAX_NUM_ATTRIBUTES :: nat where "MAX_NUM_ATTRIBUTES = 30"

record CStunMessageReader =
  rd_stream :: CDataStream
  rd_fAllowLegacyFormat :: bool
  rd_fMessageIsLegacyFormat :: bool
  rd_state :: ReaderParseState
  rd_mapAttributes :: "(u16, StunAttribute) FastHash"
  rd_indexFingerprint :: int
  rd_indexMessageIntegrity :: int
  rd_countAttributes :: int
  rd_transactionid :: StunTransactionId
  rd_msgTypeNormalized :: u16
  rd_msgClass :: StunMessageClass
  rd_msgLength :: u16

abbreviation rd_Lookup :: "u16 \<Rightarrow> CStunMessageReader \<Rightarrow> StunAttribute option" where
  "rd_Lookup t r \<equiv> fh_Lookup FastHash_Hash_u16 t (rd_mapAttributes r)"

definition Reader_Reset :: "CStunMessageReader \<Rightarrow> CStunMessageReader" where
  "Reader_Reset r = r\<lparr>
     rd_fAllowLegacyFormat := True,
     rd_fMessageIsLegacyFormat := False,
     rd_state := HeaderNotRead,
     rd_mapAttributes := fh_Reset (rd_mapAttributes r),
     rd_indexFingerprint := -1,
     rd_indexMessageIntegrity := -1,
     rd_countAttributes := 0,
     rd_transactionid := replicate STUN_TRANSACTION_ID_LENGTH 0,
     rd_msgTypeNormalized := 0xffff,
     rd_msgClass := StunMsgClassInvalidMessageClass,
     rd_msgLength := 0,
     rd_stream := DS_Reset (rd_stream r)\<rparr>"

text \<open>The members are constructed, then \<^verbatim>\<open>Reset\<close> gives every other one its value.\<close>

definition Reader_new :: CStunMessageReader where
  "Reader_new = Reader_Reset \<lparr>
     rd_stream = CDataStream_empty,
     rd_fAllowLegacyFormat = True,
     rd_fMessageIsLegacyFormat = False,
     rd_state = HeaderNotRead,
     rd_mapAttributes = FastHash_new MAX_NUM_ATTRIBUTES 53,
     rd_indexFingerprint = -1,
     rd_indexMessageIntegrity = -1,
     rd_countAttributes = 0,
     rd_transactionid = replicate STUN_TRANSACTION_ID_LENGTH 0,
     rd_msgTypeNormalized = 0xffff,
     rd_msgClass = StunMsgClassInvalidMessageClass,
     rd_msgLength = 0\<rparr>"

definition Reader_SetAllowLegacyFormat :: "bool \<Rightarrow> CStunMessageReader \<Rightarrow> CStunMessageReader" where
  "Reader_SetAllowLegacyFormat fAllowLegacyFormat r = r\<lparr>rd_fAllowLegacyFormat := fAllowLegacyFormat\<rparr>"

definition Reader_IsMessageLegacyFormat :: "CStunMessageReader \<Rightarrow> bool" where
  "Reader_IsMessageLegacyFormat r = rd_fMessageIsLegacyFormat r"

text \<open>The difference of the sizes is converted to a \<^verbatim>\<open>uint16_t\<close>.\<close>

definition Reader_HowManyBytesNeeded :: "CStunMessageReader \<Rightarrow> u16" where
  "Reader_HowManyBytesNeeded r =
     (let currentSize = DS_GetSize (rd_stream r)
      in case rd_state r of
           HeaderNotRead \<Rightarrow> word_of_int (int STUN_HEADER_SIZE - int currentSize)
         | HeaderValidated \<Rightarrow>
             word_of_int (int (unat (rd_msgLength r) + STUN_HEADER_SIZE) - int currentSize)
         | _ \<Rightarrow> 0)"

subsection \<open>Parsing\<close>

definition Reader_ReadHeader :: "CStunMessageReader \<Rightarrow> HRESULT \<times> CStunMessageReader" where
  "Reader_ReadHeader r =
     ChkTo (\<lambda>s. r\<lparr>rd_stream := s\<rparr>) (DS_SeekDirect 0 (rd_stream r)) (\<lambda>_ s.
     ChkTo (\<lambda>(_, s). r\<lparr>rd_stream := s\<rparr>) (DS_ReadUint16 s) (\<lambda>_ (msgType, s).
     ChkTo (\<lambda>(_, s). r\<lparr>rd_stream := s\<rparr>) (DS_ReadUint16 s) (\<lambda>_ (msgLength, s).
     ChkTo (\<lambda>(_, s). r\<lparr>rd_stream := s\<rparr>) (DS_Read STUN_TRANSACTION_ID_LENGTH s) (\<lambda>hr (transID, s).
     (let r = r\<lparr>rd_stream := s\<rparr>;
          msgType = ntohs msgType;
          msgLength = ntohs msgLength;
          cookie = ntohl (unhost32 (peek 0 4 transID));
          r = r\<lparr>rd_fMessageIsLegacyFormat := \<not> cookie = STUN_COOKIE\<rparr>;
          fHeaderValid = (0 = msgType AND 0xc000 \<and> msgLength mod 4 = 0);
          fHeaderValid = (fHeaderValid \<and> (rd_fAllowLegacyFormat r \<or> \<not> rd_fMessageIsLegacyFormat r))
      in if fHeaderValid = False then (E_FAIL, r)
         else
           (let r = r\<lparr>rd_msgTypeNormalized := (msgType AND 0x000f)
                       OR drop_bit 1 (msgType AND 0x00e0) OR drop_bit 2 (msgType AND 0x3E00)\<rparr>;
                r = r\<lparr>rd_msgLength := msgLength\<rparr>;
                r = r\<lparr>rd_transactionid := transID\<rparr>
            in if unat (rd_msgLength r) > MAX_STUN_MESSAGE_SIZE then (E_UNEXPECTED, r)
               else if STUN_IS_REQUEST msgType then (hr, r\<lparr>rd_msgClass := StunMsgClassRequest\<rparr>)
               else if STUN_IS_INDICATION msgType then (hr, r\<lparr>rd_msgClass := StunMsgClassIndication\<rparr>)
               else if STUN_IS_SUCCESS_RESP msgType
               then (hr, r\<lparr>rd_msgClass := StunMsgClassSuccessResponse\<rparr>)
               else if STUN_IS_ERR_RESP msgType
               then (hr, r\<lparr>rd_msgClass := StunMsgClassFailureResponse\<rparr>)
               else (E_FAIL, r\<lparr>rd_msgClass := StunMsgClassInvalidMessageClass\<rparr>)))))))"

text \<open>The block of the attribute loop that enters an attribute into the table and the indices.\<close>

definition Reader_RecordAttribute :: "StunAttribute \<Rightarrow> CStunMessageReader \<Rightarrow> HRESULT \<times> CStunMessageReader" where
  "Reader_RecordAttribute attrib r =
     (let (result, m) = fh_Insert FastHash_Hash_u16 (attributeType attrib) attrib (rd_mapAttributes r);
          r = r\<lparr>rd_mapAttributes := m\<rparr>
      in if \<not> result \<ge> 0 then (E_FAIL, r)
         else
           (let r = (if attributeType attrib = STUN_ATTRIBUTE_FINGERPRINT
                     then r\<lparr>rd_indexFingerprint := rd_countAttributes r\<rparr> else r);
                r = (if attributeType attrib = STUN_ATTRIBUTE_MESSAGEINTEGRITY
                     then r\<lparr>rd_indexMessageIntegrity := rd_countAttributes r\<rparr> else r)
            in (S_OK, r\<lparr>rd_countAttributes := rd_countAttributes r + 1\<rparr>)))"

text \<open>One turn of the attribute loop; the number of bytes consumed and the reader are its state.\<close>

definition Reader_ReadAttribute :: "nat \<Rightarrow> CStunMessageReader \<Rightarrow> HRESULT \<times> nat \<times> CStunMessageReader" where
  "Reader_ReadAttribute bytesConsumed r =
     ChkTo (\<lambda>(_, s). (bytesConsumed, r\<lparr>rd_stream := s\<rparr>)) (DS_ReadUint16 (rd_stream r)) (\<lambda>_ (attributeType, s).
     ChkTo (\<lambda>(_, s). (bytesConsumed, r\<lparr>rd_stream := s\<rparr>)) (DS_ReadUint16 s) (\<lambda>_ (attributeLength, s).
     (let r = r\<lparr>rd_stream := s\<rparr>;
          attributeOffset = of_nat (DS_GetPos s);
          attributeType = ntohs attributeType;
          attributeLength = ntohs attributeLength;
          paddingLength = (if unat attributeLength mod 4 \<noteq> 0 then 4 - unat attributeLength mod 4 else 0)
      in if \<not> unat attributeLength \<le> MAX_STUN_ATTRIBUTE_SIZE then (E_FAIL, bytesConsumed, r)
         else
           (let attrib = \<lparr>attributeType = attributeType, sa_size = attributeLength,
                          sa_offset = attributeOffset\<rparr>
            in ChkTo (\<lambda>r. (bytesConsumed, r)) (Reader_RecordAttribute attrib r) (\<lambda>_ r.
               ChkTo (\<lambda>s. (bytesConsumed, r\<lparr>rd_stream := s\<rparr>))
                 (DS_SeekRelative (int (unat attributeLength)) (rd_stream r)) (\<lambda>hr s.
               ChkTo (\<lambda>s. (bytesConsumed, r\<lparr>rd_stream := s\<rparr>))
                 (if paddingLength > 0 then DS_SeekRelative (int paddingLength) s else (hr, s)) (\<lambda>hr s.
               (hr, bytesConsumed + 2 + 2 + unat attributeLength + paddingLength,
                r\<lparr>rd_stream := s\<rparr>))))))))"

lemma ReadAttribute_progress:
  "Reader_ReadAttribute bc r = (hr, bc', r') \<Longrightarrow> SUCCEEDED hr \<Longrightarrow> bc + 4 \<le> bc'"
  unfolding Reader_ReadAttribute_def ChkTo_def
  by (auto simp: Let_def split: if_splits prod.splits)

function Reader_BodyLoop :: "nat \<Rightarrow> nat \<Rightarrow> CStunMessageReader \<Rightarrow> nat \<times> CStunMessageReader" where
  "Reader_BodyLoop currentSize bytesConsumed r =
     (if bytesConsumed < currentSize
      then (case Reader_ReadAttribute bytesConsumed r of (hr, bytesConsumed, r) \<Rightarrow>
              if SUCCEEDED hr then Reader_BodyLoop currentSize bytesConsumed r else (bytesConsumed, r))
      else (bytesConsumed, r))"
  by pat_completeness auto
termination
  by (relation "measure (\<lambda>(cs, bc, r). cs - bc)") (auto dest!: ReadAttribute_progress [OF sym])

declare Reader_BodyLoop.simps [simp del]

definition Reader_ReadBody :: "CStunMessageReader \<Rightarrow> HRESULT \<times> CStunMessageReader" where
  "Reader_ReadBody r =
     (let currentSize = DS_GetSize (rd_stream r);
          bytesConsumed = STUN_HEADER_SIZE
      in ChkTo (\<lambda>s. r\<lparr>rd_stream := s\<rparr>) (DS_SeekDirect STUN_HEADER_SIZE (rd_stream r)) (\<lambda>_ s.
         (let (bytesConsumed, r) = Reader_BodyLoop currentSize bytesConsumed (r\<lparr>rd_stream := s\<rparr>)
          in ((if bytesConsumed = currentSize then S_OK else E_FAIL), r))))"

text \<open>The three blocks of \<^verbatim>\<open>AddBytes\<close>: the header, the body, and the check for excess bytes.\<close>

definition Reader_TryHeader :: "nat \<Rightarrow> CStunMessageReader \<Rightarrow> CStunMessageReader" where
  "Reader_TryHeader currentSize r =
     (if rd_state r = HeaderNotRead \<and> currentSize \<ge> STUN_HEADER_SIZE
      then (let (hr, r) = Reader_ReadHeader r;
                r = r\<lparr>rd_state := (if SUCCEEDED hr then HeaderValidated else ParseError)\<rparr>
            in if SUCCEEDED hr \<and> rd_msgLength r = 0 then r\<lparr>rd_state := BodyValidated\<rparr> else r)
      else r)"

definition Reader_TryBody :: "nat \<Rightarrow> CStunMessageReader \<Rightarrow> CStunMessageReader" where
  "Reader_TryBody currentSize r =
     (if rd_state r = HeaderValidated \<and> currentSize \<ge> unat (rd_msgLength r) + STUN_HEADER_SIZE
      then if currentSize = unat (rd_msgLength r) + STUN_HEADER_SIZE
           then (let (hr, r) = Reader_ReadBody r
                 in r\<lparr>rd_state := (if SUCCEEDED hr then BodyValidated else ParseError)\<rparr>)
           else r\<lparr>rd_state := ParseError\<rparr>
      else r)"

definition Reader_CheckExcess :: "nat \<Rightarrow> CStunMessageReader \<Rightarrow> CStunMessageReader" where
  "Reader_CheckExcess currentSize r =
     (if rd_state r = BodyValidated \<and> currentSize > unat (rd_msgLength r) + STUN_HEADER_SIZE
      then r\<lparr>rd_state := ParseError\<rparr> else r)"

definition Reader_AddBytes :: "u8 list \<Rightarrow> CStunMessageReader \<Rightarrow> ReaderParseState \<times> CStunMessageReader" where
  "Reader_AddBytes pData r =
     (if rd_state r = ParseError then (ParseError, r)
      else if length pData = 0 then (rd_state r, r)
      else
        (let s = snd (DS_SeekDirect (DS_GetSize (rd_stream r)) (rd_stream r));
             (hr, s) = DS_Write pData s;
             r = r\<lparr>rd_stream := s\<rparr>
         in if FAILED hr then (ParseError, r)
            else
              (let currentSize = DS_GetSize (rd_stream r);
                   r = Reader_TryHeader currentSize r;
                   r = Reader_TryBody currentSize r;
                   r = Reader_CheckExcess currentSize r
               in (rd_state r, r))))"

subsection \<open>Access to the message\<close>

definition Reader_GetState :: "CStunMessageReader \<Rightarrow> ReaderParseState" where
  "Reader_GetState r = rd_state r"

definition Reader_GetTransactionId :: "CStunMessageReader \<Rightarrow> StunTransactionId" where
  "Reader_GetTransactionId r = rd_transactionid r"

definition Reader_GetMessageClass :: "CStunMessageReader \<Rightarrow> StunMessageClass" where
  "Reader_GetMessageClass r = rd_msgClass r"

definition Reader_GetMessageType :: "CStunMessageReader \<Rightarrow> u16" where
  "Reader_GetMessageType r = rd_msgTypeNormalized r"

definition Reader_GetBuffer :: "CStunMessageReader \<Rightarrow> HRESULT \<times> CBuffer option" where
  "Reader_GetBuffer r = (S_OK, DS_GetBuffer (rd_stream r))"

definition Reader_GetAttributeByIndex ::
  "int \<Rightarrow> CStunMessageReader \<Rightarrow> (HRESULT \<times> StunAttribute option) \<times> CStunMessageReader" where
  "Reader_GetAttributeByIndex index r =
     (let (pFound, m) = fh_LookupValueByIndex (nat (index mod 2 ^ 64)) (rd_mapAttributes r)
      in (case pFound of None \<Rightarrow> (E_FAIL, None) | Some a \<Rightarrow> (S_OK, Some a), r\<lparr>rd_mapAttributes := m\<rparr>))"

definition Reader_GetAttributeByType :: "u16 \<Rightarrow> CStunMessageReader \<Rightarrow> HRESULT \<times> StunAttribute option" where
  "Reader_GetAttributeByType attribType r =
     (case rd_Lookup attribType r of None \<Rightarrow> (E_FAIL, None) | Some a \<Rightarrow> (S_OK, Some a))"

definition Reader_GetAttributeCount :: "CStunMessageReader \<Rightarrow> int" where
  "Reader_GetAttributeCount r = int (fh_Size (rd_mapAttributes r))"

text \<open>Out parameters keep the value given as the argument when the function does not set them.\<close>

definition Reader_GetResponsePort :: "u16 \<Rightarrow> CStunMessageReader \<Rightarrow> HRESULT \<times> u16" where
  "Reader_GetResponsePort port r =
     (case rd_Lookup STUN_ATTRIBUTE_RESPONSE_PORT r of
        None \<Rightarrow> (E_FAIL, port)
      | Some attrib \<Rightarrow>
          if sa_size attrib \<noteq> STUN_ATTRIBUTE_RESPONSE_PORT_SIZE then (E_UNEXPECTED, port)
          else
            (case DS_GetDataPointerUnsafe (rd_stream r) of
               None \<Rightarrow> (E_UNEXPECTED, port)
             | Some pData \<Rightarrow>
                 (let portNBO = unhost16 (peek (unat (sa_offset attrib))
                                           (unat STUN_ATTRIBUTE_RESPONSE_PORT_SIZE) pData)
                  in (S_OK, ntohs portNBO))))"

definition Reader_GetChangeRequest :: "CStunMessageReader \<Rightarrow> HRESULT \<times> StunChangeRequestAttribute" where
  "Reader_GetChangeRequest r =
     (let no = \<lparr>fChangeIP = False, fChangePort = False\<rparr>
      in case rd_Lookup STUN_ATTRIBUTE_CHANGEREQUEST r of
        None \<Rightarrow> (E_FAIL, no)
      | Some attrib \<Rightarrow>
          if sa_size attrib \<noteq> STUN_ATTRIBUTE_CHANGEREQUEST_SIZE then (E_UNEXPECTED, no)
          else
            (case DS_GetDataPointerUnsafe (rd_stream r) of
               None \<Rightarrow> (E_UNEXPECTED, no)
             | Some pData \<Rightarrow>
                 (let value = unhost32 (peek (unat (sa_offset attrib))
                                         (unat STUN_ATTRIBUTE_CHANGEREQUEST_SIZE) pData);
                      value = ntohl value
                  in (S_OK, \<lparr>fChangeIP = (value AND 0x0004 \<noteq> 0), fChangePort = (value AND 0x0002 \<noteq> 0)\<rparr>))))"

definition Reader_GetPaddingAttributeSize :: "CStunMessageReader \<Rightarrow> HRESULT \<times> u16" where
  "Reader_GetPaddingAttributeSize r =
     (case rd_Lookup STUN_ATTRIBUTE_PADDING r of
        None \<Rightarrow> (E_FAIL, 0)
      | Some attrib \<Rightarrow> (S_OK, sa_size attrib))"

text \<open>The two bytes are read without a check of the attribute's size.\<close>

definition Reader_GetErrorCode :: "u16 \<Rightarrow> CStunMessageReader \<Rightarrow> HRESULT \<times> u16" where
  "Reader_GetErrorCode errorNumber r =
     (case rd_Lookup STUN_ATTRIBUTE_ERRORCODE r of
        None \<Rightarrow> (E_FAIL, errorNumber)
      | Some attrib \<Rightarrow>
          (let m = (case DS_GetDataPointerUnsafe (rd_stream r) of None \<Rightarrow> [] | Some m \<Rightarrow> m);
               ptr = unat (sa_offset attrib) + 2;
               cl = mem_at m ptr AND 0x07;
               num = mem_at m (ptr + 1)
           in (S_OK, word_of_int (uint cl * 100 + uint num))))"

definition Reader_GetAddressHelper ::
  "u16 \<Rightarrow> CSocketAddress \<Rightarrow> CStunMessageReader \<Rightarrow> HRESULT \<times> CSocketAddress" where
  "Reader_GetAddressHelper attribType pAddr r =
     (case rd_Lookup attribType r of
        None \<Rightarrow> (E_FAIL, pAddr)
      | Some attrib \<Rightarrow>
          (let m = (case DS_GetDataPointerUnsafe (rd_stream r) of None \<Rightarrow> [] | Some m \<Rightarrow> m);
               pAddrStart = drop (unat (sa_offset attrib)) m
           in GetMappedAddress pAddrStart (unat (sa_size attrib)) pAddr))"

definition Reader_GetMappedAddress :: "CSocketAddress \<Rightarrow> CStunMessageReader \<Rightarrow> HRESULT \<times> CSocketAddress" where
  "Reader_GetMappedAddress pAddr r = Reader_GetAddressHelper STUN_ATTRIBUTE_MAPPEDADDRESS pAddr r"

definition Reader_GetOtherAddress :: "CSocketAddress \<Rightarrow> CStunMessageReader \<Rightarrow> HRESULT \<times> CSocketAddress" where
  "Reader_GetOtherAddress pAddr r =
     (let (hr, pAddr) = Reader_GetAddressHelper STUN_ATTRIBUTE_OTHER_ADDRESS pAddr r
      in if FAILED hr then Reader_GetAddressHelper STUN_ATTRIBUTE_CHANGEDADDRESS pAddr r
         else (hr, pAddr))"

definition Reader_GetXorMappedAddress ::
  "CSocketAddress \<Rightarrow> CStunMessageReader \<Rightarrow> HRESULT \<times> CSocketAddress" where
  "Reader_GetXorMappedAddress pAddr r =
     (let (hr, pAddr) = Reader_GetAddressHelper STUN_ATTRIBUTE_XORMAPPEDADDRESS pAddr r;
          (hr, pAddr) =
            (if FAILED hr
             then Reader_GetAddressHelper STUN_ATTRIBUTE_XORMAPPEDADDRESS_OPTIONAL pAddr r
             else (hr, pAddr))
      in if SUCCEEDED hr
         then (hr, CSocketAddress_ApplyStunXorMap (rd_transactionid r) pAddr)
         else (hr, pAddr))"

definition Reader_GetResponseOriginAddress ::
  "CSocketAddress \<Rightarrow> CStunMessageReader \<Rightarrow> HRESULT \<times> CSocketAddress" where
  "Reader_GetResponseOriginAddress pAddr r =
     (let (hr, pAddr) = Reader_GetAddressHelper STUN_ATTRIBUTE_RESPONSE_ORIGIN pAddr r
      in if FAILED hr then Reader_GetAddressHelper STUN_ATTRIBUTE_SOURCEADDRESS pAddr r
         else (hr, pAddr))"

text \<open>The destination is an array of \<open>length pszValue\<close> characters, whose size is the argument.\<close>

definition Reader_GetStringAttributeByType ::
  "u16 \<Rightarrow> u8 list \<Rightarrow> CStunMessageReader \<Rightarrow> HRESULT \<times> u8 list" where
  "Reader_GetStringAttributeByType attribType pszValue r =
     (case rd_Lookup attribType r of
        None \<Rightarrow> (E_INVALIDARG, pszValue)
      | Some attrib \<Rightarrow>
          if unat (sa_size attrib) \<ge> length pszValue then (E_INVALIDARG, pszValue)
          else
            (let m = (case DS_GetDataPointerUnsafe (rd_stream r) of None \<Rightarrow> [] | Some m \<Rightarrow> m)
             in (S_OK, poke 0 (peek (unat (sa_offset attrib)) (unat (sa_size attrib)) m @ [0]) pszValue)))"

subsection \<open>Fingerprint and message integrity\<close>

definition Reader_HasFingerprintAttribute :: "CStunMessageReader \<Rightarrow> bool" where
  "Reader_HasFingerprintAttribute r \<longleftrightarrow> rd_Lookup STUN_ATTRIBUTE_FINGERPRINT r \<noteq> None"

definition Reader_IsFingerprintAttributeValid ::
  "(u8 list \<Rightarrow> u32) \<Rightarrow> CStunMessageReader \<Rightarrow> bool" where
  "Reader_IsFingerprintAttributeValid crc32 r =
     (case rd_Lookup STUN_ATTRIBUTE_FINGERPRINT r of
        None \<Rightarrow> False
      | Some attrib \<Rightarrow>
          if attributeType attrib \<noteq> STUN_ATTRIBUTE_FINGERPRINT then False
          else if sa_size attrib \<noteq> 4 then False
          else if rd_state r \<noteq> BodyValidated then False
          else
            (let sz = DS_GetSize (rd_stream r)
             in if sz < STUN_HEADER_SIZE then False
                else
                  (case DS_GetDataPointerUnsafe (rd_stream r) of
                     None \<Rightarrow> False
                   | Some ptr \<Rightarrow>
                       (let computedValue = crc32 (take (sz - 8) ptr);
                            computedValue = computedValue XOR STUN_FINGERPRINT_XOR;
                            readValue = unhost32 (peek (unat (sa_offset attrib)) 4 ptr);
                            readValue = ntohl readValue
                        in readValue = computedValue))))"

definition Reader_HasMessageIntegrityAttribute :: "CStunMessageReader \<Rightarrow> bool" where
  "Reader_HasMessageIntegrityAttribute r \<longleftrightarrow> rd_Lookup STUN_ATTRIBUTE_MESSAGEINTEGRITY r \<noteq> None"

text \<open>The bytes given to the digest, read in chunks of four.\<close>

fun Reader_HashChunks :: "nat \<Rightarrow> u8 list \<times> CDataStream \<Rightarrow> HRESULT \<times> u8 list \<times> CDataStream" where
  "Reader_HashChunks 0 (hashed, s) = (S_OK, hashed, s)"
| "Reader_HashChunks (Suc n) (hashed, s) =
     ChkTo (\<lambda>(_, s). (hashed, s)) (DS_ReadUint32 s) (\<lambda>_ (chunk32, s).
       Reader_HashChunks n (hashed @ host32 chunk32, s))"

definition Reader_ValidateMessageIntegrity ::
  "(u8 list \<Rightarrow> u8 list \<Rightarrow> u8 list) \<Rightarrow> u8 list \<Rightarrow> CStunMessageReader \<Rightarrow> HRESULT" where
  "Reader_ValidateMessageIntegrity hmac key r =
     (let lastAttributeIndex = rd_countAttributes r - 1
      in if rd_state r \<noteq> BodyValidated then E_FAIL
         else if rd_countAttributes r = 0 then E_FAIL
         else if rd_indexMessageIntegrity r = -1 then E_FAIL
         else if length key = 0 then E_INVALIDARG
         else
           (case rd_Lookup STUN_ATTRIBUTE_MESSAGEINTEGRITY r of
              None \<Rightarrow> E_FAIL
            | Some attribIntegrity \<Rightarrow>
                if sa_size attribIntegrity \<noteq> 20 then E_FAIL
                else
                  (let fNoOtherAttributesAfterIntegrity =
                         (rd_indexMessageIntegrity r = lastAttributeIndex \<or>
                          rd_indexMessageIntegrity r = lastAttributeIndex - 1 \<and>
                          rd_indexFingerprint r = lastAttributeIndex)
                   in if fNoOtherAttributesAfterIntegrity = False then E_FAIL
                      else
                        (let fFingerprintAdjustment = (rd_indexMessageIntegrity r = lastAttributeIndex - 1);
                             spBuffer = DS_GetBuffer (rd_stream r);
                             s = DS_Attach spBuffer False CDataStream_empty
                         in fst (ChkTo (\<lambda>_. ()) (DS_ReadUint16 s) (\<lambda>_ (chunk16, s).
                            (let hashed = host16 chunk16
                             in ChkTo (\<lambda>_. ()) (DS_ReadUint16 s) (\<lambda>_ (chunk16, s).
                                (let chunk16 = (if fFingerprintAdjustment
                                                then htons (ntohs chunk16 - 8) else chunk16);
                                     hashed = hashed @ host16 chunk16;
                                     len = nat ((int (unat (sa_offset attribIntegrity)) - 4 - 4) mod 2 ^ 64);
                                     nChunks = len div 4
                                 in ChkTo (\<lambda>_. ()) (Reader_HashChunks nChunks (hashed, s)) (\<lambda>_ (hashed, s).
                                    (let hmaccomputed = hmac key hashed;
                                         m = (case DS_GetDataPointerUnsafe (rd_stream r) of
                                                None \<Rightarrow> [] | Some m \<Rightarrow> m)
                                     in (if hmaccomputed = peek (unat (sa_offset attribIntegrity)) 20 m
                                         then S_OK else E_FAIL, ()))))))))))))"

text \<open>The strings are blocks that hold a C string; the null pointer is the empty block.\<close>

definition Reader_ValidateMessageIntegrityShort ::
  "(u8 list \<Rightarrow> u8 list \<Rightarrow> u8 list) \<Rightarrow> u8 list \<Rightarrow> CStunMessageReader \<Rightarrow> HRESULT" where
  "Reader_ValidateMessageIntegrityShort hmac pszPassword r =
     Reader_ValidateMessageIntegrity hmac (c_str pszPassword) r"

definition Reader_ValidateMessageIntegrityLong ::
  "(u8 list \<Rightarrow> u8 list \<Rightarrow> u8 list) \<Rightarrow> (u8 list \<Rightarrow> u8 list) \<Rightarrow>
   u8 list \<Rightarrow> u8 list \<Rightarrow> u8 list \<Rightarrow> CStunMessageReader \<Rightarrow> HRESULT" where
  "Reader_ValidateMessageIntegrityLong hmac md5 pszUser pszRealm pszPassword r =
     (if rd_state r \<noteq> BodyValidated then E_FAIL
      else if DS_GetDataPointerUnsafe (rd_stream r) = None then E_FAIL
      else
        (let key = c_str pszUser @ [0x3A] @ c_str pszRealm @ [0x3A] @ c_str pszPassword;
             hash = md5 key
         in Reader_ValidateMessageIntegrity hmac hash r))"

end
