(* ===== verification/ClientTests.thy ===== *)
theory ClientTests
  imports StunBuilder StunReader
begin

text \<open>
  The tests a client runs against a server (\<^verbatim>\<open>stuncore/stunclienttests.h\<close> and
  \<^verbatim>\<open>stunclienttests.cpp\<close>): basic binding, NAT behavior and NAT filtering. The three classes are
  one record with its kind; the configuration and the results they point to are those of the
  client logic, and are passed to the operations that use them.
\<close>

subsection \<open>Configuration and results\<close>

record StunClientLogicConfig =
  cfg_addrServer :: CSocketAddress
  cfg_fTimeoutIsInstant :: bool
  cfg_timeoutSeconds :: u32
  cfg_uMaxAttempts :: u32
  cfg_fBehaviorTest :: bool
  cfg_fFilteringTest :: bool

record StunClientResults =
  res_fBindingTestSuccess :: bool
  res_fIsDirect :: bool
  res_addrLocal :: CSocketAddress
  res_addrMapped :: CSocketAddress
  res_fHasOtherAddress :: bool
  res_addrPA :: CSocketAddress
  res_addrAP :: CSocketAddress
  res_addrAA :: CSocketAddress
  res_fBehaviorTestSuccess :: bool
  res_behavior :: NatBehavior
  res_addrMappingAP :: CSocketAddress
  res_addrMappingAA :: CSocketAddress
  res_fFilteringTestSuccess :: bool
  res_filtering :: NatFiltering
  res_fGotTest2Response :: bool
  res_fGotTest3Response :: bool
  res_errorBitmask :: u32

definition StunClientResults_Init :: StunClientResults where
  "StunClientResults_Init =
     \<lparr>res_fBindingTestSuccess = False, res_fIsDirect = False,
      res_addrLocal = CSocketAddress_zero, res_addrMapped = CSocketAddress_zero,
      res_fHasOtherAddress = False,
      res_addrPA = CSocketAddress_zero, res_addrAP = CSocketAddress_zero, res_addrAA = CSocketAddress_zero,
      res_fBehaviorTestSuccess = False, res_behavior = UnknownBehavior,
      res_addrMappingAP = CSocketAddress_zero, res_addrMappingAA = CSocketAddress_zero,
      res_fFilteringTestSuccess = False, res_filtering = UnknownFiltering,
      res_fGotTest2Response = False, res_fGotTest3Response = False, res_errorBitmask = 0\<rparr>"

subsection \<open>What the tests share\<close>

datatype ClientTestClass = CBasicBindingTest | CBehaviorTest | CFilteringTest

record CStunClientTest =
  ct_class :: ClientTestClass
  ct_fInit :: bool
  ct_fCompleted :: bool
  ct_transid :: StunTransactionId
  ct_fIsTest3 :: bool

definition CStunClientTest_new :: "ClientTestClass \<Rightarrow> CStunClientTest" where
  "CStunClientTest_new c = \<lparr>ct_class = c, ct_fInit = False, ct_fCompleted = False,
     ct_transid = replicate STUN_TRANSACTION_ID_LENGTH 0, ct_fIsTest3 = False\<rparr>"

definition Test_Init :: "CStunClientTest \<Rightarrow> CStunClientTest" where
  "Test_Init t = t\<lparr>ct_fInit := True, ct_fCompleted := False,
     ct_transid := replicate STUN_TRANSACTION_ID_LENGTH 0\<rparr>"

definition Test_IsCompleted :: "CStunClientTest \<Rightarrow> bool" where
  "Test_IsCompleted t = ct_fCompleted t"

definition Test_RunAsTest3 :: "bool \<Rightarrow> CStunClientTest \<Rightarrow> CStunClientTest" where
  "Test_RunAsTest3 fSetAsTest3 t = t\<lparr>ct_fIsTest3 := fSetAsTest3\<rparr>"

text \<open>The random bytes of a new transaction id are an argument.\<close>

definition Test_StartBindingRequest ::
  "(nat \<Rightarrow> u8) \<Rightarrow> CStunMessageBuilder \<Rightarrow> CStunClientTest \<Rightarrow> CStunMessageBuilder \<times> CStunClientTest" where
  "Test_StartBindingRequest rnd builder t =
     (let builder = snd (Builder_AddBindingRequestHeader builder)
      in if IsTransactionIdValid (ct_transid t)
         then (snd (Builder_AddTransactionId (ct_transid t) builder), t)
         else (case Builder_AddRandomTransactionId rnd builder of
                 (_, transid, builder) \<Rightarrow> (builder, t\<lparr>ct_transid := transid\<rparr>)))"

definition Test_BasicReaderValidation ::
  "CBuffer \<Rightarrow> CStunClientTest \<Rightarrow> HRESULT \<times> CStunMessageReader" where
  "Test_BasicReaderValidation spMsg t =
     (let (readerstate, reader) = Reader_AddBytes (buf_bytes spMsg) Reader_new;
          hr = (if readerstate = BodyValidated then S_OK else E_FAIL)
      in if FAILED hr then (hr, reader)
         else
           (let transid = Reader_GetTransactionId reader;
                hr = (if transid = ct_transid t then S_OK else E_FAIL)
            in (hr, reader)))"

text \<open>The address of the response that both kinds of binding tests use.\<close>

definition Test_GetMappedAddress :: "CStunMessageReader \<Rightarrow> HRESULT \<times> CSocketAddress" where
  "Test_GetMappedAddress reader =
     (let (hr, addrMapped) = Reader_GetXorMappedAddress CSocketAddress_zero reader
      in if FAILED hr then Reader_GetMappedAddress addrMapped reader else (hr, addrMapped))"

definition builder_on :: "CBuffer \<Rightarrow> CStunMessageBuilder" where
  "builder_on spMsg = Builder_new\<lparr>bd_stream := DS_Attach (Some spMsg) True (bd_stream Builder_new)\<rparr>"

definition message_of :: "CStunMessageBuilder \<Rightarrow> CBuffer \<Rightarrow> CBuffer" where
  "message_of builder spMsg = (case ds_attached_view (bd_stream builder) of None \<Rightarrow> spMsg | Some b \<Rightarrow> b)"

subsection \<open>The basic binding test\<close>

definition CBasicBindingTest_IsReadyToRun :: "CStunClientTest \<Rightarrow> bool" where
  "CBasicBindingTest_IsReadyToRun t \<longleftrightarrow> ct_fCompleted t = False"

definition CBasicBindingTest_GetMessage ::
  "(nat \<Rightarrow> u8) \<Rightarrow> StunClientLogicConfig \<Rightarrow> CBuffer \<Rightarrow> CStunClientTest
   \<Rightarrow> HRESULT \<times> CBuffer \<times> CSocketAddress \<times> CStunClientTest" where
  "CBasicBindingTest_GetMessage rnd cfg spMsg t =
     (let attribChangeRequest = \<lparr>fChangeIP = False, fChangePort = False\<rparr>;
          (builder, t) = Test_StartBindingRequest rnd (builder_on spMsg) t;
          builder = snd (Builder_AddChangeRequest attribChangeRequest builder);
          builder = snd (Builder_FixLengthField builder)
      in (S_OK, message_of builder spMsg, cfg_addrServer cfg, t))"

definition CBasicBindingTest_ProcessResponse ::
  "StunClientLogicConfig \<Rightarrow> CBuffer \<Rightarrow> CSocketAddress \<Rightarrow> CStunClientTest \<times> StunClientResults
   \<Rightarrow> HRESULT \<times> CStunClientTest \<times> StunClientResults" where
  "CBasicBindingTest_ProcessResponse cfg spMsg addrLocal = (\<lambda>(t, res).
     (case Test_BasicReaderValidation spMsg t of (hr, reader) \<Rightarrow>
        if FAILED hr then (hr, t, res)
        else
          (case Test_GetMappedAddress reader of (hr, addrMapped) \<Rightarrow>
             if FAILED hr then (hr, t, res)
             else
               (let (hrOther, addrOther) = Reader_GetOtherAddress CSocketAddress_zero reader;
                    fHasOtherAddress = SUCCEEDED hrOther;
                    t = t\<lparr>ct_fCompleted := True\<rparr>;
                    res = res\<lparr>res_fBindingTestSuccess := True,
                              res_fIsDirect := CSocketAddress_IsSameIP_and_Port addrLocal addrMapped,
                              res_addrLocal := addrLocal,
                              res_addrMapped := addrMapped,
                              res_fHasOtherAddress := fHasOtherAddress\<rparr>;
                    res = (if fHasOtherAddress
                           then
                             (let res = res\<lparr>res_addrAA := addrOther\<rparr>;
                                  res = res\<lparr>res_addrPA := cfg_addrServer cfg\<rparr>;
                                  res = res\<lparr>res_addrPA := CSocketAddress_SetPort (CSocketAddress_GetPort addrOther) (res_addrPA res)\<rparr>;
                                  res = res\<lparr>res_addrAP := addrOther\<rparr>
                              in res\<lparr>res_addrAP := CSocketAddress_SetPort (CSocketAddress_GetPort (cfg_addrServer cfg)) (res_addrAP res)\<rparr>)
                           else res)
                in (hr, t, res)))))"

definition CBasicBindingTest_NotifyTimeout ::
  "CStunClientTest \<times> StunClientResults \<Rightarrow> CStunClientTest \<times> StunClientResults" where
  "CBasicBindingTest_NotifyTimeout = (\<lambda>(t, res).
     (t\<lparr>ct_fCompleted := True\<rparr>, res\<lparr>res_fBindingTestSuccess := False\<rparr>))"

subsection \<open>The behavior tests\<close>

definition CBehaviorTest_PreRunCheck ::
  "CStunClientTest \<times> StunClientResults \<Rightarrow> CStunClientTest \<times> StunClientResults" where
  "CBehaviorTest_PreRunCheck = (\<lambda>(t, res).
     (if ct_fIsTest3 t = False
      then if res_fBindingTestSuccess res \<and> res_fIsDirect res
           then (t\<lparr>ct_fCompleted := True\<rparr>,
                 res\<lparr>res_behavior := DirectMapping, res_fBehaviorTestSuccess := True\<rparr>)
           else (t, res)
      else (t, res)))"

definition CBehaviorTest_IsReadyToRun :: "StunClientResults \<Rightarrow> CStunClientTest \<Rightarrow> bool" where
  "CBehaviorTest_IsReadyToRun res t =
     (let fRet = (ct_fCompleted t = False \<and> res_fBindingTestSuccess res \<and> res_fHasOtherAddress res \<and>
                  res_fBehaviorTestSuccess res = False)
      in if ct_fIsTest3 t then fRet \<and> CSocketAddress_IsIPAddressZero (res_addrMappingAP res) = False else fRet)"

definition CBehaviorTest_GetMessage ::
  "(nat \<Rightarrow> u8) \<Rightarrow> StunClientResults \<Rightarrow> CBuffer \<Rightarrow> CStunClientTest
   \<Rightarrow> HRESULT \<times> CBuffer \<times> CSocketAddress \<times> CStunClientTest" where
  "CBehaviorTest_GetMessage rnd res spMsg t =
     (let attribChangeRequest = \<lparr>fChangeIP = False, fChangePort = False\<rparr>;
          (builder, t) = Test_StartBindingRequest rnd (builder_on spMsg) t;
          builder = snd (Builder_AddChangeRequest attribChangeRequest builder);
          builder = snd (Builder_FixLengthField builder)
      in (S_OK, message_of builder spMsg,
          (if ct_fIsTest3 t = False then res_addrAP res else res_addrAA res), t))"

definition CBehaviorTest_ProcessResponse ::
  "CBuffer \<Rightarrow> CStunClientTest \<times> StunClientResults \<Rightarrow> HRESULT \<times> CStunClientTest \<times> StunClientResults" where
  "CBehaviorTest_ProcessResponse spMsg = (\<lambda>(t, res).
     (case Test_BasicReaderValidation spMsg t of (hr, reader) \<Rightarrow>
        if FAILED hr then (hr, t, res)
        else
          (case Test_GetMappedAddress reader of (hr, addrMapped) \<Rightarrow>
             if FAILED hr then (hr, t, res)
             else
               (let t = t\<lparr>ct_fCompleted := True\<rparr>
                in if ct_fIsTest3 t
                   then
                     (let res = res\<lparr>res_addrMappingAA := addrMapped\<rparr>;
                          res = res\<lparr>res_fBehaviorTestSuccess := True\<rparr>
                      in (hr, t, res\<lparr>res_behavior :=
                            (if CSocketAddress_IsSameIP_and_Port addrMapped (res_addrMappingAP res)
                             then AddressDependentMapping else AddressAndPortDependentMapping)\<rparr>))
                   else
                     (let res = res\<lparr>res_addrMappingAP := addrMapped\<rparr>
                      in if CSocketAddress_IsSameIP_and_Port addrMapped (res_addrMapped res)
                         then (hr, t, res\<lparr>res_fBehaviorTestSuccess := True,
                                          res_behavior := EndpointIndependentMapping\<rparr>)
                         else (hr, t, res))))))"

definition CBehaviorTest_NotifyTimeout ::
  "CStunClientTest \<times> StunClientResults \<Rightarrow> CStunClientTest \<times> StunClientResults" where
  "CBehaviorTest_NotifyTimeout = (\<lambda>(t, res).
     (t\<lparr>ct_fCompleted := True\<rparr>, res\<lparr>res_fBehaviorTestSuccess := False\<rparr>))"

subsection \<open>The filtering tests\<close>

definition CFilteringTest_IsReadyToRun :: "StunClientResults \<Rightarrow> CStunClientTest \<Rightarrow> bool" where
  "CFilteringTest_IsReadyToRun res t \<longleftrightarrow>
     ct_fCompleted t = False \<and> res_fBindingTestSuccess res \<and> res_fHasOtherAddress res \<and>
     res_fFilteringTestSuccess res = False \<and> res_fGotTest2Response res = False"

definition CFilteringTest_GetMessage ::
  "(nat \<Rightarrow> u8) \<Rightarrow> StunClientLogicConfig \<Rightarrow> CBuffer \<Rightarrow> CStunClientTest
   \<Rightarrow> HRESULT \<times> CBuffer \<times> CSocketAddress \<times> CStunClientTest" where
  "CFilteringTest_GetMessage rnd cfg spMsg t =
     (let (builder, t) = Test_StartBindingRequest rnd (builder_on spMsg) t;
          change = (if ct_fIsTest3 t = False then \<lparr>fChangeIP = True, fChangePort = True\<rparr>
                    else \<lparr>fChangeIP = False, fChangePort = True\<rparr>);
          builder = snd (Builder_AddChangeRequest change builder);
          builder = snd (Builder_FixLengthField builder)
      in (S_OK, message_of builder spMsg, cfg_addrServer cfg, t))"

definition CFilteringTest_ProcessResponse ::
  "CBuffer \<Rightarrow> CStunClientTest \<times> StunClientResults \<Rightarrow> HRESULT \<times> CStunClientTest \<times> StunClientResults" where
  "CFilteringTest_ProcessResponse spMsg = (\<lambda>(t, res).
     (case Test_BasicReaderValidation spMsg t of (hr, reader) \<Rightarrow>
        if FAILED hr then (hr, t, res)
        else
          (let t = t\<lparr>ct_fCompleted := True\<rparr>
           in if ct_fIsTest3 t
              then (hr, t, res\<lparr>res_fGotTest3Response := True, res_fFilteringTestSuccess := True,
                               res_filtering := AddressDependentFiltering\<rparr>)
              else (hr, t, res\<lparr>res_fGotTest2Response := True, res_fFilteringTestSuccess := True,
                               res_filtering := EndpointIndependentFiltering\<rparr>))))"

definition CFilteringTest_NotifyTimeout ::
  "CStunClientTest \<times> StunClientResults \<Rightarrow> CStunClientTest \<times> StunClientResults" where
  "CFilteringTest_NotifyTimeout = (\<lambda>(t, res).
     (let t = t\<lparr>ct_fCompleted := True\<rparr>
      in if ct_fIsTest3 t
         then (t, res\<lparr>res_fFilteringTestSuccess := True, res_filtering := AddressAndPortDependentFiltering\<rparr>)
         else (t, res)))"

subsection \<open>The virtual functions\<close>

definition Test_PreRunCheck :: "CStunClientTest \<times> StunClientResults \<Rightarrow> CStunClientTest \<times> StunClientResults" where
  "Test_PreRunCheck tr = (case ct_class (fst tr) of CBehaviorTest \<Rightarrow> CBehaviorTest_PreRunCheck tr | _ \<Rightarrow> tr)"

definition Test_IsReadyToRun :: "StunClientResults \<Rightarrow> CStunClientTest \<Rightarrow> bool" where
  "Test_IsReadyToRun res t = (case ct_class t of
     CBasicBindingTest \<Rightarrow> CBasicBindingTest_IsReadyToRun t
   | CBehaviorTest \<Rightarrow> CBehaviorTest_IsReadyToRun res t
   | CFilteringTest \<Rightarrow> CFilteringTest_IsReadyToRun res t)"

definition Test_GetMessage ::
  "(nat \<Rightarrow> u8) \<Rightarrow> StunClientLogicConfig \<Rightarrow> StunClientResults \<Rightarrow> CBuffer \<Rightarrow> CStunClientTest
   \<Rightarrow> HRESULT \<times> CBuffer \<times> CSocketAddress \<times> CStunClientTest" where
  "Test_GetMessage rnd cfg res spMsg t = (case ct_class t of
     CBasicBindingTest \<Rightarrow> CBasicBindingTest_GetMessage rnd cfg spMsg t
   | CBehaviorTest \<Rightarrow> CBehaviorTest_GetMessage rnd res spMsg t
   | CFilteringTest \<Rightarrow> CFilteringTest_GetMessage rnd cfg spMsg t)"

definition Test_ProcessResponse ::
  "StunClientLogicConfig \<Rightarrow> CBuffer \<Rightarrow> CSocketAddress \<Rightarrow> CStunClientTest \<times> StunClientResults
   \<Rightarrow> HRESULT \<times> CStunClientTest \<times> StunClientResults" where
  "Test_ProcessResponse cfg spMsg addrLocal tr = (case ct_class (fst tr) of
     CBasicBindingTest \<Rightarrow> CBasicBindingTest_ProcessResponse cfg spMsg addrLocal tr
   | CBehaviorTest \<Rightarrow> CBehaviorTest_ProcessResponse spMsg tr
   | CFilteringTest \<Rightarrow> CFilteringTest_ProcessResponse spMsg tr)"

definition Test_NotifyTimeout :: "CStunClientTest \<times> StunClientResults \<Rightarrow> CStunClientTest \<times> StunClientResults" where
  "Test_NotifyTimeout tr = (case ct_class (fst tr) of
     CBasicBindingTest \<Rightarrow> CBasicBindingTest_NotifyTimeout tr
   | CBehaviorTest \<Rightarrow> CBehaviorTest_NotifyTimeout tr
   | CFilteringTest \<Rightarrow> CFilteringTest_NotifyTimeout tr)"

end
