(* ===== verification/ClientLogic.thy ===== *)
theory ClientLogic
  imports ClientTests
begin

text \<open>
  The client's state machine (\<^verbatim>\<open>stuncore/stunclientlogic.h\<close> and \<^verbatim>\<open>stunclientlogic.cpp\<close>): a list of
  tests that are run one after the other, with retransmission and timeouts. The caller supplies
  the time in milliseconds, a 32-bit counter that wraps, and the random bytes.
\<close>

subsection \<open>The model\<close>

definition E_STUNCLIENT_STILL_WAITING :: HRESULT where "E_STUNCLIENT_STILL_WAITING = 0x81010001 - 0x100000000"
definition E_STUNCLIENT_RESULTS_READY :: HRESULT where "E_STUNCLIENT_RESULTS_READY = 0x81010002 - 0x100000000"
definition E_STUNCLIENT_TIMEOUT :: HRESULT where "E_STUNCLIENT_TIMEOUT = 0x81010003 - 0x100000000"
definition E_STUNCLIENT_BUFFER_TOO_SMALL :: HRESULT where "E_STUNCLIENT_BUFFER_TOO_SMALL = 0x81010004 - 0x100000000"

lemma client_errors [simp]:
  "\<not> SUCCEEDED E_STUNCLIENT_STILL_WAITING" "\<not> SUCCEEDED E_STUNCLIENT_RESULTS_READY"
  "E_STUNCLIENT_STILL_WAITING \<noteq> S_OK" "E_STUNCLIENT_RESULTS_READY \<noteq> S_OK"
  "E_STUNCLIENT_STILL_WAITING \<noteq> E_STUNCLIENT_RESULTS_READY" "E_STUNCLIENT_RESULTS_READY \<noteq> E_STUNCLIENT_STILL_WAITING"
  by (simp_all add: E_STUNCLIENT_STILL_WAITING_def E_STUNCLIENT_RESULTS_READY_def hresult_defs)

record CStunClientLogic =
  cl_config :: StunClientLogicConfig
  cl_results :: StunClientResults
  cl_fInitialized :: bool
  cl_timeLastMessageSent :: u32
  cl_sendCount :: u32
  cl_fPreCheckRunOnTest :: bool
  cl_testlist :: "CStunClientTest list"
  cl_nTestIndex :: nat

definition config_zero :: StunClientLogicConfig where
  "config_zero = \<lparr>cfg_addrServer = CSocketAddress_zero, cfg_fTimeoutIsInstant = False, cfg_timeoutSeconds = 0,
     cfg_uMaxAttempts = 0, cfg_fBehaviorTest = False, cfg_fFilteringTest = False\<rparr>"

definition CStunClientLogic_new :: CStunClientLogic where
  "CStunClientLogic_new =
     \<lparr>cl_config = config_zero, cl_results = StunClientResults_Init, cl_fInitialized = False,
      cl_timeLastMessageSent = 0, cl_sendCount = 0, cl_fPreCheckRunOnTest = False,
      cl_testlist = [], cl_nTestIndex = 0\<rparr>"

definition ClientLogic_Initialize :: "StunClientLogicConfig \<Rightarrow> CStunClientLogic \<Rightarrow> HRESULT \<times> CStunClientLogic" where
  "ClientLogic_Initialize config l =
     (if cl_fInitialized l then (E_UNEXPECTED, l)
      else if CSocketAddress_IsIPAddressZero (cfg_addrServer config) then (E_INVALIDARG, l)
      else if CSocketAddress_GetPort (cfg_addrServer config) = 0 then (E_INVALIDARG, l)
      else
        (let l = l\<lparr>cl_config := config, cl_fInitialized := True\<rparr>;
             cfg = cl_config l;
             cfg = (if cfg_fTimeoutIsInstant cfg then cfg\<lparr>cfg_timeoutSeconds := 0\<rparr>
                    else if cfg_timeoutSeconds cfg = 0 then cfg\<lparr>cfg_timeoutSeconds := 3\<rparr> else cfg);
             cfg = (if cfg_uMaxAttempts cfg \<le> 0 then cfg\<lparr>cfg_uMaxAttempts := 2\<rparr> else cfg);
             testlist = [Test_Init (CStunClientTest_new CBasicBindingTest)];
             testlist = (if cfg_fFilteringTest cfg
                         then testlist @ [Test_Init (CStunClientTest_new CFilteringTest),
                                          Test_RunAsTest3 True (Test_Init (CStunClientTest_new CFilteringTest))]
                         else testlist);
             testlist = (if cfg_fBehaviorTest cfg
                         then testlist @ [Test_Init (CStunClientTest_new CBehaviorTest),
                                          Test_RunAsTest3 True (Test_Init (CStunClientTest_new CBehaviorTest))]
                         else testlist)
         in (S_OK, l\<lparr>cl_config := cfg, cl_nTestIndex := 0, cl_testlist := testlist,
                     cl_fPreCheckRunOnTest := False, cl_timeLastMessageSent := 0\<rparr>)))"

text \<open>The current test, and an operation of it that changes the test and the results.\<close>

abbreviation cl_test :: "CStunClientLogic \<Rightarrow> CStunClientTest" where
  "cl_test l \<equiv> cl_testlist l ! cl_nTestIndex l"

definition on_test ::
  "(CStunClientTest \<times> StunClientResults \<Rightarrow> CStunClientTest \<times> StunClientResults) \<Rightarrow> CStunClientLogic \<Rightarrow> CStunClientLogic" where
  "on_test f l = (case f (cl_test l, cl_results l) of
     (t, res) \<Rightarrow> l\<lparr>cl_testlist := (cl_testlist l)[cl_nTestIndex l := t], cl_results := res\<rparr>)"

text \<open>The test gets its early chance to complete, once.\<close>

definition ClientLogic_PreCheck :: "CStunClientLogic \<Rightarrow> CStunClientLogic" where
  "ClientLogic_PreCheck l =
     (if cl_fPreCheckRunOnTest l = False
      then (on_test Test_PreRunCheck l)\<lparr>cl_fPreCheckRunOnTest := True\<rparr> else l)"

text \<open>
  One turn of the loop of \<^verbatim>\<open>GetNextMessage\<close>: it ends with a result, or goes on with the logic in the
  state it left.
\<close>

definition ClientLogic_loop_step ::
  "(nat \<Rightarrow> u8) \<Rightarrow> u32 \<Rightarrow> CBuffer \<Rightarrow> CSocketAddress \<Rightarrow> CStunClientLogic
   \<Rightarrow> (HRESULT \<times> CBuffer \<times> CSocketAddress \<times> CStunClientLogic) + CStunClientLogic" where
  "ClientLogic_loop_step rnd timeCurrentMilliseconds spMsg pAddrDest l =
     (if cl_nTestIndex l \<ge> length (cl_testlist l)
      then Inl (E_STUNCLIENT_RESULTS_READY, spMsg, pAddrDest, l)
      else
        (let l = ClientLogic_PreCheck l
         in if Test_IsCompleted (cl_test l) \<or> Test_IsReadyToRun (cl_results l) (cl_test l) = False
            then Inr (l\<lparr>cl_nTestIndex := cl_nTestIndex l + 1, cl_sendCount := 0, cl_fPreCheckRunOnTest := False\<rparr>)
            else
              (let diff = (timeCurrentMilliseconds - cl_timeLastMessageSent l) div 1000
               in if diff < cfg_timeoutSeconds (cl_config l) \<and> cl_sendCount l \<noteq> 0
                  then Inl (E_STUNCLIENT_STILL_WAITING, spMsg, pAddrDest, l)
                  else if cl_sendCount l \<ge> cfg_uMaxAttempts (cl_config l)
                  then Inr (on_test Test_NotifyTimeout l)
                  else
                    (case Test_GetMessage rnd (cl_config l) (cl_results l) spMsg (cl_test l) of
                       (hr, spMsg, addrDest, t) \<Rightarrow>
                         (let l = l\<lparr>cl_testlist := (cl_testlist l)[cl_nTestIndex l := t]\<rparr>
                          in if FAILED hr then Inl (hr, spMsg, addrDest, l)
                             else Inl (S_OK, spMsg, addrDest,
                                       l\<lparr>cl_sendCount := cl_sendCount l + 1,
                                         cl_timeLastMessageSent := timeCurrentMilliseconds\<rparr>))))))"

text \<open>The tests that are left; a turn that goes on completes the current test or moves to the next.\<close>

definition cl_left :: "CStunClientLogic \<Rightarrow> nat" where
  "cl_left l = 2 * (length (cl_testlist l) - cl_nTestIndex l) -
     (if cl_nTestIndex l < length (cl_testlist l) \<and> ct_fCompleted (cl_test l) then 1 else 0)"

lemma on_test_simps [simp]:
  "cl_nTestIndex (on_test f l) = cl_nTestIndex l" "length (cl_testlist (on_test f l)) = length (cl_testlist l)"
  "cl_config (on_test f l) = cl_config l" "cl_sendCount (on_test f l) = cl_sendCount l"
  "cl_timeLastMessageSent (on_test f l) = cl_timeLastMessageSent l" "cl_fInitialized (on_test f l) = cl_fInitialized l"
  "cl_nTestIndex l = i \<Longrightarrow> i < length (cl_testlist l) \<Longrightarrow>
    cl_testlist (on_test f l) ! i = fst (f (cl_testlist l ! i, cl_results l))"
  "cl_results (on_test f l) = snd (f (cl_test l, cl_results l))"
  "cl_fPreCheckRunOnTest (on_test f l) = cl_fPreCheckRunOnTest l"
  by (simp_all add: on_test_def split: prod.splits)

lemma NotifyTimeout_completes [simp]: "ct_fCompleted (fst (Test_NotifyTimeout tr))"
  by (cases tr) (simp add: Test_NotifyTimeout_def CBasicBindingTest_NotifyTimeout_def CBehaviorTest_NotifyTimeout_def
      CFilteringTest_NotifyTimeout_def Let_def split: ClientTestClass.splits)

lemma PreCheck_simps [simp]:
  "cl_nTestIndex (ClientLogic_PreCheck l) = cl_nTestIndex l"
  "length (cl_testlist (ClientLogic_PreCheck l)) = length (cl_testlist l)"
  "cl_config (ClientLogic_PreCheck l) = cl_config l" "cl_sendCount (ClientLogic_PreCheck l) = cl_sendCount l"
  "cl_timeLastMessageSent (ClientLogic_PreCheck l) = cl_timeLastMessageSent l"
  "cl_fInitialized (ClientLogic_PreCheck l) = cl_fInitialized l"
  by (simp_all add: ClientLogic_PreCheck_def)

lemma PreCheck_completed:
  assumes "cl_nTestIndex l < length (cl_testlist l)" "ct_fCompleted (cl_test l)"
  shows "ct_fCompleted (cl_test (ClientLogic_PreCheck l))"
  using assms by (auto simp: ClientLogic_PreCheck_def Test_PreRunCheck_def CBehaviorTest_PreRunCheck_def
      split: ClientTestClass.splits)

text \<open>The two ways to go on.\<close>

lemma loop_step_Inr:
  assumes "ClientLogic_loop_step rnd now spMsg pAddrDest l = Inr l'"
  shows "cl_nTestIndex l < length (cl_testlist l)"
    "l' = (ClientLogic_PreCheck l)\<lparr>cl_nTestIndex := cl_nTestIndex l + 1, cl_sendCount := 0, cl_fPreCheckRunOnTest := False\<rparr> \<or>
     l' = on_test Test_NotifyTimeout (ClientLogic_PreCheck l) \<and> \<not> ct_fCompleted (cl_test (ClientLogic_PreCheck l)) \<and>
       cfg_uMaxAttempts (cl_config l) \<le> cl_sendCount l"
  using assms
  by (auto simp: ClientLogic_loop_step_def Let_def Test_IsCompleted_def simp del: not_le split: if_splits prod.splits)

lemma loop_step_decreases:
  assumes "ClientLogic_loop_step rnd now spMsg pAddrDest l = Inr l'"
  shows "cl_left l' < cl_left l"
  using loop_step_Inr [OF assms] PreCheck_completed [of l] by (auto simp: cl_left_def)

function ClientLogic_loop ::
  "(nat \<Rightarrow> u8) \<Rightarrow> u32 \<Rightarrow> CBuffer \<Rightarrow> CSocketAddress \<Rightarrow> CStunClientLogic
   \<Rightarrow> HRESULT \<times> CBuffer \<times> CSocketAddress \<times> CStunClientLogic" where
  "ClientLogic_loop rnd now spMsg pAddrDest l =
     (case ClientLogic_loop_step rnd now spMsg pAddrDest l of
        Inl result \<Rightarrow> result
      | Inr l \<Rightarrow> ClientLogic_loop rnd now spMsg pAddrDest l)"
  by pat_completeness auto
termination
  by (relation "measure (\<lambda>(rnd, now, spMsg, pAddrDest, l). cl_left l)") (auto dest: loop_step_decreases)

declare ClientLogic_loop.simps [simp del]

definition ClientLogic_GetNextMessage ::
  "(nat \<Rightarrow> u8) \<Rightarrow> CBuffer \<Rightarrow> CSocketAddress \<Rightarrow> u32 \<Rightarrow> CStunClientLogic
   \<Rightarrow> HRESULT \<times> CBuffer \<times> CSocketAddress \<times> CStunClientLogic" where
  "ClientLogic_GetNextMessage rnd spMsg pAddrDest timeCurrentMilliseconds l =
     (if cl_fInitialized l = False then (E_FAIL, spMsg, pAddrDest, l)
      else if CBuffer_GetAllocatedSize spMsg = 0 then (E_INVALIDARG, spMsg, pAddrDest, l)
      else if CBuffer_GetAllocatedSize spMsg < MAX_STUN_MESSAGE_SIZE then (E_INVALIDARG, spMsg, pAddrDest, l)
      else ClientLogic_loop rnd timeCurrentMilliseconds spMsg pAddrDest l)"

definition ClientLogic_ProcessResponse ::
  "CBuffer \<Rightarrow> CSocketAddress \<Rightarrow> CSocketAddress \<Rightarrow> CStunClientLogic \<Rightarrow> HRESULT \<times> CStunClientLogic" where
  "ClientLogic_ProcessResponse spMsg addrRemote addrLocal l =
     (if cl_fInitialized l = False then (E_FAIL, l)
      else if CBuffer_GetSize spMsg = 0 then (E_INVALIDARG, l)
      else if cl_nTestIndex l \<ge> length (cl_testlist l) then (E_UNEXPECTED, l)
      else if Test_IsCompleted (cl_test l) then (E_UNEXPECTED, l)
      else
        (case Test_ProcessResponse (cl_config l) spMsg addrLocal (cl_test l, cl_results l) of
           (hr, t, res) \<Rightarrow>
             (hr, l\<lparr>cl_testlist := (cl_testlist l)[cl_nTestIndex l := t], cl_results := res\<rparr>)))"

definition ClientLogic_GetResults :: "CStunClientLogic \<Rightarrow> HRESULT \<times> StunClientResults" where
  "ClientLogic_GetResults l = (S_OK, cl_results l)"

end
