(* ===== verification/MessageHandler.thy ===== *)
theory MessageHandler
  imports StunReader StunBuilder
begin

text \<open>
  The request handler \<^verbatim>\<open>CStunRequestHandler\<close> (\<^verbatim>\<open>stuncore/messagehandler.cpp\<close>) with the interface
  of the authentication provider (\<^verbatim>\<open>stuncore/stunauth.h\<close>). The provider is a parameter: the
  function that \<^verbatim>\<open>DoAuthCheck\<close> is on the request's attributes and the response it is given, both
  of which it may change. The character arrays are blocks of 65 bytes.
\<close>

subsection \<open>The authentication interface\<close>

definition AUTH_ARRAY_SIZE :: nat where
  "AUTH_ARRAY_SIZE = MAX_STUN_AUTH_STRING_SIZE + 1"

record AuthAttributes =
  aa_szUser :: "u8 list"
  aa_szRealm :: "u8 list"
  aa_szNonce :: "u8 list"
  aa_szLegacyPassword :: "u8 list"
  aa_fMessageIntegrityPresent :: bool

datatype AuthCredentialMechanism = AuthCredShortTerm | AuthCredLongTerm

datatype AuthResponseType = Allow | AllowConditional | StaleNonce | Reject | Unauthorized

record AuthResponse =
  ar_responseType :: AuthResponseType
  ar_authCredMech :: AuthCredentialMechanism
  ar_szPassword :: "u8 list"
  ar_szRealm :: "u8 list"
  ar_szNonce :: "u8 list"

text \<open>The structures cleared by \<^verbatim>\<open>memset\<close>.\<close>

definition AuthAttributes_zero :: AuthAttributes where
  "AuthAttributes_zero = \<lparr>aa_szUser = replicate AUTH_ARRAY_SIZE 0, aa_szRealm = replicate AUTH_ARRAY_SIZE 0,
     aa_szNonce = replicate AUTH_ARRAY_SIZE 0, aa_szLegacyPassword = replicate AUTH_ARRAY_SIZE 0,
     aa_fMessageIntegrityPresent = False\<rparr>"

definition AuthResponse_zero :: AuthResponse where
  "AuthResponse_zero = \<lparr>ar_responseType = Allow, ar_authCredMech = AuthCredShortTerm,
     ar_szPassword = replicate AUTH_ARRAY_SIZE 0, ar_szRealm = replicate AUTH_ARRAY_SIZE 0,
     ar_szNonce = replicate AUTH_ARRAY_SIZE 0\<rparr>"

type_synonym IStunAuth = "AuthAttributes \<Rightarrow> AuthResponse \<Rightarrow> HRESULT \<times> AuthAttributes \<times> AuthResponse"

subsection \<open>The handler's data\<close>

record StunMessageIn =
  in_socketrole :: SocketRole
  in_addrLocal :: CSocketAddress
  in_addrRemote :: CSocketAddress
  in_pReader :: "CStunMessageReader option"
  in_fConnectionOriented :: bool

record StunMessageOut =
  out_socketrole :: SocketRole
  out_addrDest :: CSocketAddress
  out_spBufferOut :: "CBuffer option"

record StunMessageIntegrity =
  fSendWithIntegrity :: bool
  fUseLongTerm :: bool
  mg_szUser :: "u8 list"
  mg_szRealm :: "u8 list"
  mg_szPassword :: "u8 list"

record TransportAddress =
  ta_addr :: CSocketAddress
  ta_fValid :: bool

type_synonym TransportAddressSet = "TransportAddress list"

record StunErrorCode =
  er_errorcode :: u16
  er_msgclass :: StunMessageClass
  er_msgtype :: u16
  er_attribUnknown :: u16
  er_szNonce :: "u8 list"
  er_szRealm :: "u8 list"

record CStunRequestHandler =
  h_pAuth :: "IStunAuth option"
  h_pAddrSet :: "TransportAddressSet option"
  h_pMsgIn :: StunMessageIn
  h_pMsgOut :: StunMessageOut
  h_integrity :: StunMessageIntegrity
  h_error :: StunErrorCode
  h_fRequestHasResponsePort :: bool
  h_transid :: StunTransactionId
  h_fLegacyMode :: bool

text \<open>The zero-initialised handler, with the pointers \<^verbatim>\<open>ProcessRequest\<close> puts into it.\<close>

definition Handler_new ::
  "IStunAuth option \<Rightarrow> TransportAddressSet option \<Rightarrow> StunMessageIn \<Rightarrow> StunMessageOut \<Rightarrow> CStunRequestHandler" where
  "Handler_new pAuth pAddrSet pMsgIn pMsgOut =
     \<lparr>h_pAuth = pAuth, h_pAddrSet = pAddrSet, h_pMsgIn = pMsgIn, h_pMsgOut = pMsgOut,
      h_integrity = \<lparr>fSendWithIntegrity = False, fUseLongTerm = False,
        mg_szUser = replicate AUTH_ARRAY_SIZE 0, mg_szRealm = replicate AUTH_ARRAY_SIZE 0,
        mg_szPassword = replicate AUTH_ARRAY_SIZE 0\<rparr>,
      h_error = \<lparr>er_errorcode = 0, er_msgclass = StunMsgClassRequest, er_msgtype = 0,
        er_attribUnknown = 0, er_szNonce = replicate AUTH_ARRAY_SIZE 0,
        er_szRealm = replicate AUTH_ARRAY_SIZE 0\<rparr>,
      h_fRequestHasResponsePort = False,
      h_transid = replicate STUN_TRANSACTION_ID_LENGTH 0,
      h_fLegacyMode = False\<rparr>"

definition h_reader :: "CStunRequestHandler \<Rightarrow> CStunMessageReader" where
  "h_reader h = the (in_pReader (h_pMsgIn h))"

abbreviation h_set_error :: "u16 \<Rightarrow> CStunRequestHandler \<Rightarrow> CStunRequestHandler" where
  "h_set_error code h \<equiv> h\<lparr>h_error := (h_error h)\<lparr>er_errorcode := code\<rparr>\<rparr>"

definition Handler_HasAddress :: "SocketRole \<Rightarrow> CStunRequestHandler \<Rightarrow> bool" where
  "Handler_HasAddress role h \<longleftrightarrow>
     (case h_pAddrSet h of None \<Rightarrow> False
      | Some aset \<Rightarrow> IsValidSocketRole role \<and> ta_fValid (aset ! unat role))"

definition Handler_IsIPAddressZeroOrInvalid :: "SocketRole \<Rightarrow> CStunRequestHandler \<Rightarrow> bool" where
  "Handler_IsIPAddressZeroOrInvalid role h =
     (let fValid = (Handler_HasAddress role h \<and>
            CSocketAddress_IsIPAddressZero (ta_addr (the (h_pAddrSet h) ! unat role)) = False)
      in \<not> fValid)"

text \<open>The output buffer cleared, and a builder attached to it for writing.\<close>

definition Handler_Attach :: "CStunRequestHandler \<Rightarrow> CStunMessageBuilder \<times> CStunRequestHandler" where
  "Handler_Attach h =
     (let sp = map_option (\<lambda>b. snd (CBuffer_SetSize 0 b)) (out_spBufferOut (h_pMsgOut h));
          builder = Builder_new\<lparr>bd_stream := DS_Attach sp True (bd_stream Builder_new)\<rparr>
      in (builder, h\<lparr>h_pMsgOut := (h_pMsgOut h)\<lparr>out_spBufferOut := ds_attached_view (bd_stream builder)\<rparr>\<rparr>))"

text \<open>What the caller's buffer holds when the builder goes out of scope.\<close>

definition Handler_Detach :: "CStunMessageBuilder \<Rightarrow> CStunRequestHandler \<Rightarrow> CStunRequestHandler" where
  "Handler_Detach builder h =
     h\<lparr>h_pMsgOut := (h_pMsgOut h)\<lparr>out_spBufferOut := ds_attached_view (bd_stream builder)\<rparr>\<rparr>"

text \<open>The string constant \<^verbatim>\<open>FAILED\<close>.\<close>

definition FAILED_text :: "u8 list" where
  "FAILED_text = [0x46, 0x41, 0x49, 0x4C, 0x45, 0x44, 0]"

definition Handler_BuildErrorResponse :: "CStunRequestHandler \<Rightarrow> CStunRequestHandler" where
  "Handler_BuildErrorResponse h =
     (let (builder, h) = Handler_Attach h;
          err = h_error h;
          builder = Builder_SetLegacyMode (h_fLegacyMode h) builder;
          builder = snd (Builder_AddHeader (er_msgtype err) (er_msgclass err) builder);
          builder = snd (Builder_AddTransactionId (h_transid h) builder);
          builder = snd (Builder_AddErrorCode (er_errorcode err) FAILED_text builder);
          builder =
            (if er_errorcode err = STUN_ERROR_UNKNOWNATTRIB \<and> er_attribUnknown err \<noteq> 0
             then snd (Builder_AddUnknownAttributes [er_attribUnknown err] builder)
             else if er_errorcode err = STUN_ERROR_STALENONCE \<or> er_errorcode err = STUN_ERROR_UNAUTHORIZED
             then
               (let builder = (if er_szNonce err ! 0 \<noteq> 0
                      then snd (Builder_AddStringAttribute STUN_ATTRIBUTE_NONCE (er_szNonce err) builder)
                      else builder)
                in if er_szRealm err ! 0 \<noteq> 0
                   then snd (Builder_AddStringAttribute STUN_ATTRIBUTE_REALM (er_szRealm err) builder)
                   else builder)
             else builder);
          builder = snd (Builder_FixLengthField builder);
          builder = snd (Builder_GetResult builder)
      in Handler_Detach builder h)"

subsection \<open>Binding requests\<close>

text \<open>The role to answer from, or none when the request asks for one that is not there.\<close>

definition Handler_ChangeRole :: "CStunRequestHandler \<Rightarrow> SocketRole option" where
  "Handler_ChangeRole h =
     (let socketOutput = in_socketrole (h_pMsgIn h);
          (hrResult, changerequest) = Reader_GetChangeRequest (h_reader h)
      in if SUCCEEDED hrResult \<and> (fChangeIP changerequest \<or> fChangePort changerequest)
         then
           (let socketOutput = (if fChangeIP changerequest then SocketRoleSwapIP socketOutput else socketOutput);
                socketOutput = (if fChangePort changerequest then SocketRoleSwapPort socketOutput else socketOutput)
            in if Handler_HasAddress socketOutput h = False \<or> in_fConnectionOriented (h_pMsgIn h) then None
               else Some socketOutput)
         else Some socketOutput)"

definition Handler_OtherAddress :: "CStunRequestHandler \<Rightarrow> CSocketAddress option" where
  "Handler_OtherAddress h =
     (let fSendOtherAddress = (Handler_HasAddress RolePP h \<and> Handler_HasAddress RolePA h \<and>
            Handler_HasAddress RoleAP h \<and> Handler_HasAddress RoleAA h)
      in if fSendOtherAddress
         then
           (let socketOther = SocketRoleSwapIP (SocketRoleSwapPort (in_socketrole (h_pMsgIn h)));
                fSendOtherAddress = (Handler_IsIPAddressZeroOrInvalid socketOther h = False)
            in if fSendOtherAddress then Some (ta_addr (the (h_pAddrSet h) ! unat socketOther)) else None)
         else None)"

definition Handler_OriginAddress :: "SocketRole \<Rightarrow> CStunRequestHandler \<Rightarrow> CSocketAddress" where
  "Handler_OriginAddress socketOutput h =
     (let addrOrigin = ta_addr (the (h_pAddrSet h) ! unat socketOutput)
      in if CSocketAddress_IsIPAddressZero addrOrigin
         then if socketOutput = in_socketrole (h_pMsgIn h) then in_addrLocal (h_pMsgIn h) else addrOrigin
         else addrOrigin)"

definition Handler_ProcessBindingRequest ::
  "(u8 list \<Rightarrow> u8 list \<Rightarrow> u8 list) \<Rightarrow> (u8 list \<Rightarrow> u8 list)
   \<Rightarrow> CStunRequestHandler \<Rightarrow> HRESULT \<times> CStunRequestHandler" where
  "Handler_ProcessBindingRequest hmac md5 h =
     (let (builder, h) = Handler_Attach h;
          builder = Builder_SetLegacyMode (h_fLegacyMode h) builder;
          fRequestHasPaddingAttribute = SUCCEEDED (fst (Reader_GetPaddingAttributeSize (h_reader h)))
      in if h_fRequestHasResponsePort h \<and> fRequestHasPaddingAttribute
         then (E_FAIL, h_set_error STUN_ERROR_BADREQUEST h)
         else
           (case Handler_ChangeRole h of
              None \<Rightarrow> (E_FAIL, h_set_error STUN_ERROR_BADREQUEST h)
            | Some socketOutput \<Rightarrow>
                (let addrOther = Handler_OtherAddress h;
                     addrOrigin = Handler_OriginAddress socketOutput h;
                     fSendOriginAddress = (False = CSocketAddress_IsIPAddressZero addrOrigin);
                     h = h\<lparr>h_pMsgOut := (h_pMsgOut h)\<lparr>out_socketrole := socketOutput\<rparr>\<rparr>;
                     addrRemote = in_addrRemote (h_pMsgIn h);
                     builder = snd (Builder_AddHeader StunMsgTypeBinding StunMsgClassSuccessResponse builder);
                     builder = snd (Builder_AddTransactionId (h_transid h) builder);
                     builder = snd (Builder_AddMappedAddress addrRemote builder);
                     builder = (if fSendOriginAddress
                                then snd (Builder_AddResponseOriginAddress addrOrigin builder) else builder);
                     builder = (case addrOther of None \<Rightarrow> builder
                                | Some addrOther \<Rightarrow> snd (Builder_AddOtherAddress addrOther builder));
                     builder = snd (Builder_AddXorMappedAddress addrRemote builder);
                     mg = h_integrity h;
                     builder =
                       (if fSendWithIntegrity mg
                        then if fUseLongTerm mg = False
                             then snd (Builder_AddMessageIntegrityShortTerm hmac (mg_szPassword mg) builder)
                             else snd (Builder_AddMessageIntegrityLongTerm hmac md5 (mg_szUser mg)
                                         (mg_szRealm mg) (mg_szPassword mg) builder)
                        else builder);
                     builder = snd (Builder_FixLengthField builder)
                 in (S_OK, Handler_Detach builder h))))"

subsection \<open>Authentication\<close>

definition Handler_ReadAuthAttributes :: "CStunMessageReader \<Rightarrow> AuthAttributes" where
  "Handler_ReadAuthAttributes r =
     (let a = AuthAttributes_zero;
          a = a\<lparr>aa_szUser := snd (Reader_GetStringAttributeByType STUN_ATTRIBUTE_USERNAME (aa_szUser a) r)\<rparr>;
          a = a\<lparr>aa_szRealm := snd (Reader_GetStringAttributeByType STUN_ATTRIBUTE_REALM (aa_szRealm a) r)\<rparr>;
          a = a\<lparr>aa_szNonce := snd (Reader_GetStringAttributeByType STUN_ATTRIBUTE_NONCE (aa_szNonce a) r)\<rparr>;
          a = a\<lparr>aa_szLegacyPassword :=
                 snd (Reader_GetStringAttributeByType STUN_ATTRIBUTE_LEGACY_PASSWORD (aa_szLegacyPassword a) r)\<rparr>
      in a\<lparr>aa_fMessageIntegrityPresent := Reader_HasMessageIntegrityAttribute r\<rparr>)"

text \<open>The last character of each array of the response is overwritten with the terminator.\<close>

definition AuthResponse_terminate :: "AuthResponse \<Rightarrow> AuthResponse" where
  "AuthResponse_terminate p = p\<lparr>
     ar_szNonce := (ar_szNonce p)[AUTH_ARRAY_SIZE - 1 := 0],
     ar_szRealm := (ar_szRealm p)[AUTH_ARRAY_SIZE - 1 := 0],
     ar_szPassword := (ar_szPassword p)[AUTH_ARRAY_SIZE - 1 := 0]\<rparr>"

definition Handler_CheckIntegrity ::
  "(u8 list \<Rightarrow> u8 list \<Rightarrow> u8 list) \<Rightarrow> (u8 list \<Rightarrow> u8 list)
   \<Rightarrow> AuthAttributes \<Rightarrow> AuthResponse \<Rightarrow> CStunRequestHandler \<Rightarrow> CStunRequestHandler" where
  "Handler_CheckIntegrity hmac md5 authattributes authresponse h =
     (let hrRet =
            (if ar_authCredMech authresponse = AuthCredLongTerm
             then Reader_ValidateMessageIntegrityLong hmac md5 (aa_szUser authattributes)
                    (aa_szRealm authattributes) (ar_szPassword authresponse) (h_reader h)
             else Reader_ValidateMessageIntegrityShort hmac (ar_szPassword authresponse) (h_reader h))
      in if SUCCEEDED hrRet
         then
           (let mg = h_integrity h;
                mg = mg\<lparr>fSendWithIntegrity := True\<rparr>;
                mg = mg\<lparr>fUseLongTerm := (ar_authCredMech authresponse = AuthCredLongTerm)\<rparr>;
                mg = mg\<lparr>mg_szPassword := strcpy_to (mg_szPassword mg) (ar_szPassword authresponse)\<rparr>;
                mg = mg\<lparr>mg_szUser := strcpy_to (mg_szUser mg) (aa_szUser authattributes)\<rparr>;
                mg = mg\<lparr>mg_szRealm := strcpy_to (mg_szRealm mg) (aa_szRealm authattributes)\<rparr>
            in h\<lparr>h_integrity := mg\<rparr>)
         else h_set_error STUN_ERROR_UNAUTHORIZED h)"

definition Handler_ValidateAuth ::
  "(u8 list \<Rightarrow> u8 list \<Rightarrow> u8 list) \<Rightarrow> (u8 list \<Rightarrow> u8 list)
   \<Rightarrow> CStunRequestHandler \<Rightarrow> HRESULT \<times> CStunRequestHandler" where
  "Handler_ValidateAuth hmac md5 h =
     (case h_pAuth h of
        None \<Rightarrow> (S_OK, h)
      | Some DoAuthCheck \<Rightarrow>
          (case DoAuthCheck (Handler_ReadAuthAttributes (h_reader h)) AuthResponse_zero of
             (hr, authattributes, authresponse) \<Rightarrow>
               if FAILED hr then (hr, h)
               else
                 (let authresponse = AuthResponse_terminate authresponse;
                      h = (case ar_responseType authresponse of
                             StaleNonce \<Rightarrow> h_set_error STUN_ERROR_STALENONCE h
                           | Unauthorized \<Rightarrow> h_set_error STUN_ERROR_UNAUTHORIZED h
                           | Reject \<Rightarrow> h_set_error STUN_ERROR_BADREQUEST h
                           | Allow \<Rightarrow> h
                           | AllowConditional \<Rightarrow> Handler_CheckIntegrity hmac md5 authattributes authresponse h)
                  in if er_errorcode (h_error h) = STUN_ERROR_UNAUTHORIZED \<or>
                        er_errorcode (h_error h) = STUN_ERROR_STALENONCE
                     then (hr, h\<lparr>h_error := (h_error h)\<lparr>
                            er_szRealm := strcpy_to (er_szRealm (h_error h)) (ar_szRealm authresponse),
                            er_szNonce := strcpy_to (er_szNonce (h_error h)) (ar_szNonce authresponse)\<rparr>\<rparr>)
                     else (hr, h))))"

subsection \<open>Processing\<close>

text \<open>A failed step that left no error code is answered with a bad request error.\<close>

definition Handler_generic_error :: "HRESULT \<Rightarrow> CStunRequestHandler \<Rightarrow> CStunRequestHandler" where
  "Handler_generic_error hrResult h =
     (if FAILED hrResult \<and> er_errorcode (h_error h) = 0 then h_set_error STUN_ERROR_BADREQUEST h else h)"

definition Handler_ProcessRequestImpl ::
  "(u8 list \<Rightarrow> u8 list \<Rightarrow> u8 list) \<Rightarrow> (u8 list \<Rightarrow> u8 list)
   \<Rightarrow> CStunRequestHandler \<Rightarrow> HRESULT \<times> CStunRequestHandler" where
  "Handler_ProcessRequestImpl hmac md5 h =
     (let reader = h_reader h
      in if Reader_GetMessageClass reader \<noteq> StunMsgClassRequest then (E_FAIL, h)
         else
           (let h = h\<lparr>h_error := (h_error h)\<lparr>er_msgtype := Reader_GetMessageType reader,
                                             er_msgclass := StunMsgClassFailureResponse\<rparr>\<rparr>;
                h = h\<lparr>h_transid := Reader_GetTransactionId reader\<rparr>;
                h = h\<lparr>h_fLegacyMode := Reader_IsMessageLegacyFormat reader\<rparr>;
                responseport = snd (Reader_GetResponsePort 0 reader);
                h = (if responseport \<noteq> 0
                     then
                       (let h = h\<lparr>h_fRequestHasResponsePort := True\<rparr>
                        in if in_fConnectionOriented (h_pMsgIn h)
                           then h_set_error STUN_ERROR_BADREQUEST h
                           else h\<lparr>h_pMsgOut := (h_pMsgOut h)\<lparr>out_addrDest :=
                                   CSocketAddress_SetPort responseport (out_addrDest (h_pMsgOut h))\<rparr>\<rparr>)
                     else h);
                h = (if er_errorcode (h_error h) = 0
                     then if Reader_GetMessageType reader \<noteq> StunMsgTypeBinding
                          then h_set_error STUN_ERROR_BADREQUEST h else h
                     else h);
                h = (if er_errorcode (h_error h) = 0
                     then (case Handler_ValidateAuth hmac md5 h of (hrResult, h) \<Rightarrow>
                             Handler_generic_error hrResult h)
                     else h);
                h = (if er_errorcode (h_error h) = 0
                     then (case Handler_ProcessBindingRequest hmac md5 h of (hrResult, h) \<Rightarrow>
                             Handler_generic_error hrResult h)
                     else h);
                h = (if er_errorcode (h_error h) \<noteq> 0 then Handler_BuildErrorResponse h else h)
            in (S_OK, h)))"

definition Handler_ProcessRequest ::
  "(u8 list \<Rightarrow> u8 list \<Rightarrow> u8 list) \<Rightarrow> (u8 list \<Rightarrow> u8 list)
   \<Rightarrow> StunMessageIn \<Rightarrow> StunMessageOut \<Rightarrow> TransportAddressSet option \<Rightarrow> IStunAuth option
   \<Rightarrow> HRESULT \<times> StunMessageOut" where
  "Handler_ProcessRequest hmac md5 msgIn msgOut pAddressSet pAuth =
     (case in_pReader msgIn of
        None \<Rightarrow> (E_INVALIDARG, msgOut)
      | Some reader \<Rightarrow>
          if IsValidSocketRole (in_socketrole msgIn) = False then (E_INVALIDARG, msgOut)
          else
            (case out_spBufferOut msgOut of
               None \<Rightarrow> (E_INVALIDARG, msgOut)
             | Some spBufferOut \<Rightarrow>
                 if CBuffer_GetAllocatedSize spBufferOut < MAX_STUN_MESSAGE_SIZE then (E_INVALIDARG, msgOut)
                 else if pAddressSet = None then (E_INVALIDARG, msgOut)
                 else if Reader_GetState reader \<noteq> BodyValidated then (E_UNEXPECTED, msgOut)
                 else
                   (let msgOut = msgOut\<lparr>out_spBufferOut := Some (snd (CBuffer_SetSize 0 spBufferOut))\<rparr>;
                        msgOut = msgOut\<lparr>out_socketrole := in_socketrole msgIn\<rparr>;
                        msgOut = msgOut\<lparr>out_addrDest := in_addrRemote msgIn\<rparr>;
                        (hr, handler) = Handler_ProcessRequestImpl hmac md5
                          (Handler_new pAuth pAddressSet msgIn msgOut)
                    in (hr, h_pMsgOut handler))))"

end
