(* ===== verification/StunReaderProps.thy ===== *)
theory StunReaderProps
  imports StunReader
begin

text \<open>
  What the reader makes of a byte string. The reference is a parser of complete messages:
  \<open>parse_attrs\<close> splits the body into attributes, \<open>verdict\<close> classifies a prefix of a message.
  \<open>rd_inv\<close> says that a reader is exactly in the state the bytes fed to it call for, however they
  were cut; it is kept by \<^verbatim>\<open>AddBytes\<close> and gives the meaning of every accessor.
\<close>

subsection \<open>The reference parser\<close>

definition msg_field :: "u8 list \<Rightarrow> u16" where "msg_field bs = unbe16 (peek 0 2 bs)"
definition msg_len :: "u8 list \<Rightarrow> u16" where "msg_len bs = unbe16 (peek 2 2 bs)"
definition msg_id :: "u8 list \<Rightarrow> StunTransactionId" where "msg_id bs = peek 4 16 bs"
definition msg_cookie :: "u8 list \<Rightarrow> u32" where "msg_cookie bs = unbe32 (peek 4 4 bs)"

definition header_ok :: "bool \<Rightarrow> u8 list \<Rightarrow> bool" where
  "header_ok allow bs \<longleftrightarrow> msg_field bs AND 0xc000 = 0 \<and> msg_len bs mod 4 = 0 \<and>
     (allow \<or> msg_cookie bs = STUN_COOKIE) \<and> unat (msg_len bs) \<le> MAX_STUN_MESSAGE_SIZE"

definition attr_at :: "u8 list \<Rightarrow> nat \<Rightarrow> StunAttribute" where
  "attr_at bs p = \<lparr>attributeType = unbe16 (peek p 2 bs), sa_size = unbe16 (peek (p + 2) 2 bs),
     sa_offset = of_nat (p + 4)\<rparr>"

definition attr_span :: "StunAttribute \<Rightarrow> nat" where
  "attr_span a = 4 + unat (sa_size a) + pad4 (unat (sa_size a))"

definition attr_fits :: "u8 list \<Rightarrow> nat \<Rightarrow> bool" where
  "attr_fits bs p \<longleftrightarrow> p + 4 \<le> length bs \<and> unat (sa_size (attr_at bs p)) \<le> MAX_STUN_ATTRIBUTE_SIZE \<and>
     p + attr_span (attr_at bs p) \<le> length bs"

lemma attr_span_pos [simp]: "0 < attr_span a"
  by (simp add: attr_span_def)

function parse_attrs :: "u8 list \<Rightarrow> nat \<Rightarrow> StunAttribute list option" where
  "parse_attrs bs p =
     (if length bs \<le> p then (if p = length bs then Some [] else None)
      else if attr_fits bs p
      then map_option ((#) (attr_at bs p)) (parse_attrs bs (p + attr_span (attr_at bs p)))
      else None)"
  by pat_completeness auto
termination
  by (relation "measure (\<lambda>(bs, p). length bs - p)") (auto simp: attr_span_def)

declare parse_attrs.simps [simp del]

lemma parse_attrs_end [simp]: "parse_attrs bs (length bs) = Some []"
  by (simp add: parse_attrs.simps)

definition body_attrs :: "u8 list \<Rightarrow> StunAttribute list option" where
  "body_attrs bs = (case parse_attrs bs STUN_HEADER_SIZE of
     Some as \<Rightarrow> if length as \<le> MAX_NUM_ATTRIBUTES then Some as else None | None \<Rightarrow> None)"

definition verdict :: "bool \<Rightarrow> u8 list \<Rightarrow> ReaderParseState" where
  "verdict allow bs =
     (if length bs < STUN_HEADER_SIZE then HeaderNotRead
      else if \<not> header_ok allow bs then ParseError
      else if length bs < unat (msg_len bs) + STUN_HEADER_SIZE then HeaderValidated
      else if length bs = unat (msg_len bs) + STUN_HEADER_SIZE \<and> body_attrs bs \<noteq> None then BodyValidated
      else ParseError)"

lemma msg_view_append:
  assumes "20 \<le> length bs"
  shows "msg_field (bs @ d) = msg_field bs" "msg_len (bs @ d) = msg_len bs"
    "msg_id (bs @ d) = msg_id bs" "msg_cookie (bs @ d) = msg_cookie bs"
    "header_ok allow (bs @ d) = header_ok allow bs"
  using assms by (simp_all add: msg_field_def msg_len_def msg_id_def msg_cookie_def header_ok_def
      memory_simps)

lemma verdict_error_append: "verdict allow bs = ParseError \<Longrightarrow> verdict allow (bs @ d) = ParseError"
  by (cases d) (auto simp: verdict_def msg_view_append STUN_HEADER_SIZE_def split: if_splits)

lemma verdict_done_append:
  "verdict allow bs = BodyValidated \<Longrightarrow> d \<noteq> [] \<Longrightarrow> verdict allow (bs @ d) = ParseError"
  by (auto simp: verdict_def msg_view_append STUN_HEADER_SIZE_def split: if_splits)

subsection \<open>The attribute loop\<close>

abbreviation rd_push :: "StunAttribute \<Rightarrow> CStunMessageReader \<Rightarrow> CStunMessageReader" where
  "rd_push a r \<equiv> snd (Reader_RecordAttribute a r)"

lemma rd_push_simps [simp]:
  "rd_stream (rd_push a r) = rd_stream r" "rd_state (rd_push a r) = rd_state r"
  "rd_fAllowLegacyFormat (rd_push a r) = rd_fAllowLegacyFormat r"
  "rd_fMessageIsLegacyFormat (rd_push a r) = rd_fMessageIsLegacyFormat r"
  "rd_transactionid (rd_push a r) = rd_transactionid r" "rd_msgClass (rd_push a r) = rd_msgClass r"
  "rd_msgTypeNormalized (rd_push a r) = rd_msgTypeNormalized r"
  "rd_msgLength (rd_push a r) = rd_msgLength r"
  by (simp_all add: Reader_RecordAttribute_def Let_def split: prod.split)

lemma RecordAttribute_stream:
  "Reader_RecordAttribute a (r\<lparr>rd_stream := s\<rparr>) =
    map_prod id (\<lambda>r. r\<lparr>rd_stream := s\<rparr>) (Reader_RecordAttribute a r)"
  by (simp add: Reader_RecordAttribute_def Let_def split: prod.split)

abbreviation rd_map_inv :: "CStunMessageReader \<Rightarrow> bool" where
  "rd_map_inv r \<equiv> fh_inv FastHash_Hash_u16 (rd_mapAttributes r)"

abbreviation rd_room :: "CStunMessageReader \<Rightarrow> nat" where
  "rd_room r \<equiv> fh_room (rd_mapAttributes r)"

lemma SeekRelative_forward:
  assumes "ds_ok s" "ds_pos s + n < 2 ^ 64"
  shows "ChkTo c (DS_SeekRelative (int n) s) k =
    (if ds_pos s + n \<le> length (ds_bytes s) then k S_OK (s\<lparr>ds_pos := ds_pos s + n\<rparr>) else (E_FAIL, c s))"
proof -
  have "int (ds_pos s + n) < 2 ^ 64" using assms(2) by (metis of_nat_less_iff of_nat_numeral of_nat_power)
  then have "DS_SeekRelative (int n) s = DS_SeekDirect (ds_pos s + n) s"
    by (subst DS_SeekRelative_direct) (simp_all add: nat_add_distrib)
  then show ?thesis using assms by (simp add: Chk_SeekDirect)
qed

text \<open>The turn of the loop with the stream operations carried out.\<close>

lemma ReadAttribute_eq:
  assumes ok: "ds_ok (rd_stream r)" and p: "ds_pos (rd_stream r) = p"
    and bs: "ds_bytes (rd_stream r) = bs" and small: "length bs < 2 ^ 16"
  shows "fst (Reader_ReadAttribute p r) = E_INVALIDARG \<and> fst (snd (Reader_ReadAttribute p r)) = p
      \<and> \<not> p + 4 \<le> length bs \<or>
    Reader_ReadAttribute p r =
     (let a = attr_at bs p; l = unat (sa_size a); s = (rd_stream r)\<lparr>ds_pos := p + 4\<rparr>
      in if \<not> l \<le> MAX_STUN_ATTRIBUTE_SIZE then (E_FAIL, p, r\<lparr>rd_stream := s\<rparr>)
         else if \<not> SUCCEEDED (fst (Reader_RecordAttribute a r))
         then (fst (Reader_RecordAttribute a r), p, (rd_push a r)\<lparr>rd_stream := s\<rparr>)
         else if length bs < p + 4 + l then (E_FAIL, p, (rd_push a r)\<lparr>rd_stream := s\<rparr>)
         else if length bs < p + 4 + l + pad4 l
         then (E_FAIL, p, (rd_push a r)\<lparr>rd_stream := s\<lparr>ds_pos := p + 4 + l\<rparr>\<rparr>)
         else (S_OK, p + 4 + l + pad4 l, (rd_push a r)\<lparr>rd_stream := s\<lparr>ds_pos := p + 4 + l + pad4 l\<rparr>\<rparr>))
      \<and> p + 4 \<le> length bs"
proof (cases "p + 4 \<le> length bs")
  case False
  then show ?thesis using ok p bs
    by (simp add: Reader_ReadAttribute_def Chk_ReadUint16)
next
  case True
  let ?a = "attr_at bs p" and ?s = "(rd_stream r)\<lparr>ds_pos := p + 4\<rparr>"
  let ?l = "unat (sa_size (attr_at bs p))"
  have p4: "Suc (Suc (Suc (Suc p))) = p + 4" by simp
  have core: "Reader_ReadAttribute p r =
    (if \<not> ?l \<le> MAX_STUN_ATTRIBUTE_SIZE then (E_FAIL, p, r\<lparr>rd_stream := ?s\<rparr>)
     else ChkTo (\<lambda>r. (p, r)) (Reader_RecordAttribute ?a (r\<lparr>rd_stream := ?s\<rparr>)) (\<lambda>_ r.
          ChkTo (\<lambda>s. (p, r\<lparr>rd_stream := s\<rparr>)) (DS_SeekRelative (int ?l) (rd_stream r)) (\<lambda>hr s.
          ChkTo (\<lambda>s. (p, r\<lparr>rd_stream := s\<rparr>))
            (if pad4 ?l > 0 then DS_SeekRelative (int (pad4 ?l)) s else (hr, s)) (\<lambda>hr s.
          (hr, p + 2 + 2 + ?l + pad4 ?l, r\<lparr>rd_stream := s\<rparr>)))))"
    unfolding Reader_ReadAttribute_def attr_at_def pad4_def using ok p bs True
    by (simp add: Chk_ReadUint16 DS_GetPos_def Let_def p4 del: of_nat_unat of_nat_diff of_nat_Suc
      split del: if_split cong: if_cong)
  have l: "?l < 65536" "pad4 ?l < 65536"
    using unat_less(2) [of "sa_size (attr_at bs p)"] pad4_le [of ?l] by simp_all
  have sk: "DS_SeekRelative (int n) s =
      (if ds_pos s + n \<le> length (ds_bytes s) then (S_OK, s\<lparr>ds_pos := ds_pos s + n\<rparr>) else (E_FAIL, s))"
    if "ds_ok s" "ds_pos s \<le> length bs" "n < 65536" for n s
    using SeekRelative_forward [OF that(1), of n "\<lambda>s. s" Pair] that small
    by (simp add: ChkTo_def split: if_splits)
  show ?thesis
  proof (cases "?l \<le> MAX_STUN_ATTRIBUTE_SIZE \<and> SUCCEEDED (fst (Reader_RecordAttribute ?a r))")
    case False
    then show ?thesis using True
      by (auto simp: core Let_def RecordAttribute_stream)
  next
    case rec: True
    have s: "ds_ok ?s" "ds_pos ?s = p + 4" "ds_bytes ?s = bs" using ok bs True by simp_all
    have one: "DS_SeekRelative (int ?l) ?s = (if p + 4 + ?l \<le> length bs
        then (S_OK, ?s\<lparr>ds_pos := p + 4 + ?l\<rparr>) else (E_FAIL, ?s))"
      using sk [of ?s ?l] s True l by simp
    have two: "DS_SeekRelative (int (pad4 ?l)) (?s\<lparr>ds_pos := p + 4 + ?l\<rparr>) =
      (if p + 4 + ?l + pad4 ?l \<le> length bs
        then (S_OK, ?s\<lparr>ds_pos := p + 4 + ?l + pad4 ?l\<rparr>) else (E_FAIL, ?s\<lparr>ds_pos := p + 4 + ?l\<rparr>))"
      if "p + 4 + ?l \<le> length bs"
      using sk [of "?s\<lparr>ds_pos := p + 4 + ?l\<rparr>" "pad4 ?l"] ok bs that l by simp
    show ?thesis using rec True one two
      by (cases "pad4 ?l = 0") (auto simp: core Let_def RecordAttribute_stream not_less)
  qed
qed

subsection \<open>The attribute table\<close>

text \<open>The position of the last attribute of a type, -1 when there is none.\<close>

fun attr_index :: "u16 \<Rightarrow> StunAttribute list \<Rightarrow> int" where
  "attr_index t [] = -1"
| "attr_index t (a # as) =
     (if attr_index t as \<ge> 0 then attr_index t as + 1 else if attributeType a = t then 0 else -1)"

lemma attr_index_bounds: "-1 \<le> attr_index t as \<and> attr_index t as < int (length as)"
  by (induction as) auto

lemma attr_index_snoc [simp]:
  "attr_index t (as @ [a]) = (if attributeType a = t then int (length as) else attr_index t as)"
  by (induction as) auto

lemma attr_index_none: "attr_index t as = -1 \<longleftrightarrow> t \<notin> attributeType ` set as"
proof (induction as)
  case (Cons a as)
  then show ?case using attr_index_bounds [of t as] by auto
qed simp

definition rd_attrs :: "StunAttribute list \<Rightarrow> CStunMessageReader \<Rightarrow> bool" where
  "rd_attrs as r \<longleftrightarrow> rd_map_inv r \<and> length as \<le> MAX_NUM_ATTRIBUTES \<and>
     rd_room r = MAX_NUM_ATTRIBUTES - length as \<and>
     fh_stack FastHash_Hash_u16 (rd_mapAttributes r) = (\<lambda>t. rev (filter (\<lambda>a. attributeType a = t) as)) \<and>
     rd_countAttributes r = int (length as) \<and>
     rd_indexFingerprint r = attr_index STUN_ATTRIBUTE_FINGERPRINT as \<and>
     rd_indexMessageIntegrity r = attr_index STUN_ATTRIBUTE_MESSAGEINTEGRITY as"

text \<open>The lookup of a type gives its last attribute.\<close>

definition last_attr :: "u16 \<Rightarrow> StunAttribute list \<Rightarrow> StunAttribute option" where
  "last_attr t as = find (\<lambda>a. attributeType a = t) (rev as)"

lemma rd_Lookup_attrs:
  assumes "rd_attrs as r"
  shows "rd_Lookup t r = last_attr t as"
proof -
  have "(case filter P xs of [] \<Rightarrow> None | v # vs \<Rightarrow> Some v) = find P xs" for P and xs :: "StunAttribute list"
    by (induction xs) auto
  then show ?thesis using assms by (simp add: rd_attrs_def ft.lookup_top rev_filter last_attr_def)
qed

lemma rd_attrs_push:
  assumes r: "rd_attrs as r" and room: "length as < MAX_NUM_ATTRIBUTES"
  shows "SUCCEEDED (fst (Reader_RecordAttribute a r))" "rd_attrs (as @ [a]) (rd_push a r)"
proof -
  have inv: "rd_map_inv r" "0 < rd_room r" using r room by (simp_all add: rd_attrs_def)
  note ins = ft.insert_room [OF inv, of "attributeType a" a]
  obtain m where m: "fh_Insert FastHash_Hash_u16 (attributeType a) a (rd_mapAttributes r) = (1, m)"
    using ins by (metis prod.collapse)
  show "SUCCEEDED (fst (Reader_RecordAttribute a r))" by (simp add: Reader_RecordAttribute_def m Let_def)
  show "rd_attrs (as @ [a]) (rd_push a r)"
    using r room ins
    by (auto simp: Reader_RecordAttribute_def m rd_attrs_def Let_def stun_attribute_defs)
qed

lemma rd_attrs_full:
  assumes "rd_attrs as r" "length as = MAX_NUM_ATTRIBUTES"
  shows "\<not> SUCCEEDED (fst (Reader_RecordAttribute a r))"
  using assms ft.insert_full [of FastHash_Hash_u16 "rd_mapAttributes r" "attributeType a" a]
  by (simp add: rd_attrs_def Reader_RecordAttribute_def)

definition rd_head :: "CStunMessageReader \<Rightarrow> bool \<times> bool \<times> StunTransactionId \<times> u16 \<times> u16 \<times> u16" where
  "rd_head r = (rd_fAllowLegacyFormat r, rd_fMessageIsLegacyFormat r, rd_transactionid r,
     rd_msgTypeNormalized r, rd_msgClass r, rd_msgLength r)"

lemma rd_head_simps [simp]:
  "rd_head (rd_push a r) = rd_head r" "rd_head (r\<lparr>rd_stream := s\<rparr>) = rd_head r"
  "rd_attrs as (r\<lparr>rd_stream := s\<rparr>) = rd_attrs as r" "rd_attrs as (r\<lparr>rd_state := st\<rparr>) = rd_attrs as r"
  "rd_head (r\<lparr>rd_state := st\<rparr>) = rd_head r"
  by (simp_all add: rd_head_def rd_attrs_def)

lemma BodyLoop_parse:
  assumes "ds_ok (rd_stream r)" "ds_pos (rd_stream r) = p" "ds_bytes (rd_stream r) = bs"
    "p \<le> length bs" "length bs < 2 ^ 16" "rd_attrs as r"
  shows "case parse_attrs bs p of
      None \<Rightarrow> fst (Reader_BodyLoop (length bs) p r) < length bs
    | Some as' \<Rightarrow>
        if length as + length as' \<le> MAX_NUM_ATTRIBUTES
        then fst (Reader_BodyLoop (length bs) p r) = length bs \<and>
          rd_attrs (as @ as') (snd (Reader_BodyLoop (length bs) p r)) \<and>
          rd_head (snd (Reader_BodyLoop (length bs) p r)) = rd_head r \<and>
          ds_ok (rd_stream (snd (Reader_BodyLoop (length bs) p r))) \<and>
          ds_bytes (rd_stream (snd (Reader_BodyLoop (length bs) p r))) = bs
        else fst (Reader_BodyLoop (length bs) p r) < length bs"
  using assms
proof (induction bs p arbitrary: as r rule: parse_attrs.induct)
  case (1 bs p)
  note loop = Reader_BodyLoop.simps [of "length bs" p r]
  let ?a = "attr_at bs p"
  show ?case
  proof (cases "p < length bs")
    case False
    then have "p = length bs" using 1 by simp
    then have "Reader_BodyLoop (length bs) p r = (length bs, r)" "parse_attrs bs p = Some []"
      using loop by simp_all
    moreover have "length as \<le> MAX_NUM_ATTRIBUTES" using 1(7) by (simp add: rd_attrs_def)
    ultimately show ?thesis using 1(2-4,7) by simp
  next
    case lt: True
    note eq = ReadAttribute_eq [OF 1(2-4,6)]
    show ?thesis
    proof (cases "attr_fits bs p \<and> length as < MAX_NUM_ATTRIBUTES")
      case False
      have "\<not> SUCCEEDED (fst (Reader_ReadAttribute p r)) \<and> fst (snd (Reader_ReadAttribute p r)) = p"
      proof (cases "length as < MAX_NUM_ATTRIBUTES")
        case True
        with False eq show ?thesis
          by (auto simp: Let_def attr_fits_def attr_span_def split: if_splits)
      next
        case full: False
        then have "length as = MAX_NUM_ATTRIBUTES" using 1(7) by (simp add: rd_attrs_def)
        from rd_attrs_full [OF 1(7) this] eq show ?thesis
          by (auto simp: Let_def split: if_splits)
      qed
      then have "fst (Reader_BodyLoop (length bs) p r) < length bs"
        using lt by (simp add: loop case_prod_beta)
      then show ?thesis using False lt
        by (auto simp: parse_attrs.simps [of bs p] split: option.splits)
    next
      case True
      note push = rd_attrs_push [OF 1(7) True [THEN conjunct2], of ?a]
      let ?r = "(rd_push ?a r)\<lparr>rd_stream := (rd_stream r)\<lparr>ds_pos := p + attr_span ?a\<rparr>\<rparr>"
      have fits: "p + attr_span ?a \<le> length bs" "attr_fits bs p" using True by (simp_all add: attr_fits_def)
      have "Reader_ReadAttribute p r = (S_OK, p + attr_span ?a, ?r)"
        using eq True push(1)
        by (simp add: Let_def attr_fits_def attr_span_def add.assoc)
      then have l: "Reader_BodyLoop (length bs) p r = Reader_BodyLoop (length bs) (p + attr_span ?a) ?r"
        using lt by (simp add: loop)
      have ih: "case parse_attrs bs (p + attr_span ?a) of
          None \<Rightarrow> fst (Reader_BodyLoop (length bs) (p + attr_span ?a) ?r) < length bs
        | Some as' \<Rightarrow>
            if length (as @ [?a]) + length as' \<le> MAX_NUM_ATTRIBUTES
            then fst (Reader_BodyLoop (length bs) (p + attr_span ?a) ?r) = length bs \<and>
              rd_attrs ((as @ [?a]) @ as') (snd (Reader_BodyLoop (length bs) (p + attr_span ?a) ?r)) \<and>
              rd_head (snd (Reader_BodyLoop (length bs) (p + attr_span ?a) ?r)) = rd_head ?r \<and>
              ds_ok (rd_stream (snd (Reader_BodyLoop (length bs) (p + attr_span ?a) ?r))) \<and>
              ds_bytes (rd_stream (snd (Reader_BodyLoop (length bs) (p + attr_span ?a) ?r))) = bs
            else fst (Reader_BodyLoop (length bs) (p + attr_span ?a) ?r) < length bs"
        by (rule 1(1)) (use 1(2-6) lt fits push(2) in auto)
      then show ?thesis using lt fits(2)
        unfolding l by (auto simp: parse_attrs.simps [of bs p] split: option.splits if_splits)
    qed
  qed
qed

subsection \<open>The header\<close>

definition class_of_field :: "u16 \<Rightarrow> StunMessageClass" where
  "class_of_field w = (if STUN_IS_REQUEST w then StunMsgClassRequest
     else if STUN_IS_INDICATION w then StunMsgClassIndication
     else if STUN_IS_SUCCESS_RESP w then StunMsgClassSuccessResponse
     else StunMsgClassFailureResponse)"

definition type_of_field :: "u16 \<Rightarrow> u16" where
  "type_of_field w = (w AND 0x000f) OR drop_bit 1 (w AND 0x00e0) OR drop_bit 2 (w AND 0x3E00)"

lemma field_has_class: "STUN_IS_REQUEST w \<or> STUN_IS_INDICATION w \<or> STUN_IS_SUCCESS_RESP w \<or> STUN_IS_ERR_RESP w"
proof -
  have d: "w AND 0x0110 = (w AND 0x0100) OR (w AND 0x0010)"
    by (simp add: bit.conj_disj_distrib [symmetric])
  have g: "v AND 2 ^ n = (if bit v n then 2 ^ n else 0)" for v :: u16 and n :: nat
    by (auto intro!: bit_word_eqI simp: bit_simps)
  have b: "w AND 0x0100 = (if bit w 8 then 0x0100 else 0)" "w AND 0x0010 = (if bit w 4 then 0x0010 else 0)"
    using g [of w 8] g [of w 4] by simp_all
  show ?thesis
    by (simp add: STUN_IS_REQUEST_def STUN_IS_INDICATION_def STUN_IS_SUCCESS_RESP_def STUN_IS_ERR_RESP_def d b)
qed

lemma class_of_field_bits:
  "class_of_field w = (if bit w 8 then if bit w 4 then 3 else 2 else if bit w 4 then 1 else 0)"
proof -
  have d: "w AND 0x0110 = (w AND 0x0100) OR (w AND 0x0010)"
    by (simp add: bit.conj_disj_distrib [symmetric])
  have g: "v AND 2 ^ n = (if bit v n then 2 ^ n else 0)" for v :: u16 and n :: nat
    by (auto intro!: bit_word_eqI simp: bit_simps)
  have b: "w AND 0x0100 = (if bit w 8 then 0x0100 else 0)" "w AND 0x0010 = (if bit w 4 then 0x0010 else 0)"
    using g [of w 8] g [of w 4] by simp_all
  show ?thesis
    by (simp add: class_of_field_def STUN_IS_REQUEST_def STUN_IS_INDICATION_def STUN_IS_SUCCESS_RESP_def
        d b stun_message_defs)
qed

definition head_of :: "bool \<Rightarrow> u8 list \<Rightarrow> bool \<times> bool \<times> StunTransactionId \<times> u16 \<times> u16 \<times> u16" where
  "head_of allow bs = (allow, msg_cookie bs \<noteq> STUN_COOKIE, msg_id bs, type_of_field (msg_field bs),
     class_of_field (msg_field bs), msg_len bs)"

lemma ReadHeader_ok:
  assumes "ds_ok (rd_stream r)" "ds_bytes (rd_stream r) = bs" "20 \<le> length bs"
  shows "SUCCEEDED (fst (Reader_ReadHeader r)) \<longleftrightarrow> header_ok (rd_fAllowLegacyFormat r) bs"
    "header_ok (rd_fAllowLegacyFormat r) bs \<Longrightarrow>
      rd_head (snd (Reader_ReadHeader r)) = head_of (rd_fAllowLegacyFormat r) bs"
    "rd_attrs as (snd (Reader_ReadHeader r)) = rd_attrs as r"
    "rd_state (snd (Reader_ReadHeader r)) = rd_state r"
    "rd_fAllowLegacyFormat (snd (Reader_ReadHeader r)) = rd_fAllowLegacyFormat r"
    "ds_ok (rd_stream (snd (Reader_ReadHeader r)))"
    "ds_bytes (rd_stream (snd (Reader_ReadHeader r))) = bs"
proof -
  have pk: "unbe32 (peek 0 4 (peek 4 16 bs)) = msg_cookie bs"
    using assms(3) by (simp add: msg_cookie_def peek_def min_def drop_take)
  have len: "length (peek 0 4 (peek 4 16 bs)) = 4" using assms(3) by simp
  have p4: "Suc (Suc (Suc (Suc 0))) = 4" "Suc (Suc 0) = 2" by simp_all
  let ?r1 = "r\<lparr>rd_stream := (rd_stream r)\<lparr>ds_pos := 20\<rparr>,
      rd_fMessageIsLegacyFormat := (msg_cookie bs \<noteq> STUN_COOKIE)\<rparr>"
  let ?r2 = "?r1\<lparr>rd_msgTypeNormalized := type_of_field (msg_field bs), rd_msgLength := msg_len bs,
      rd_transactionid := msg_id bs\<rparr>"
  have core: "Reader_ReadHeader r =
    (if msg_field bs AND 0xc000 = 0 \<and> msg_len bs mod 4 = 0 \<and>
        (rd_fAllowLegacyFormat r \<or> msg_cookie bs = STUN_COOKIE)
     then if unat (msg_len bs) > MAX_STUN_MESSAGE_SIZE then (E_UNEXPECTED, ?r2)
          else (S_OK, ?r2\<lparr>rd_msgClass := class_of_field (msg_field bs)\<rparr>)
     else (E_FAIL, ?r1))"
    using assms len pk field_has_class [of "msg_field bs"]
    unfolding Reader_ReadHeader_def STUN_TRANSACTION_ID_LENGTH_def msg_field_def msg_len_def msg_id_def
    by (auto simp: Chk_streams Let_def p4 class_of_field_def type_of_field_def)
  show "SUCCEEDED (fst (Reader_ReadHeader r)) \<longleftrightarrow> header_ok (rd_fAllowLegacyFormat r) bs"
    by (auto simp: core header_ok_def)
  show "header_ok (rd_fAllowLegacyFormat r) bs \<Longrightarrow>
      rd_head (snd (Reader_ReadHeader r)) = head_of (rd_fAllowLegacyFormat r) bs"
    by (auto simp: core header_ok_def rd_head_def head_of_def)
  show "rd_attrs as (snd (Reader_ReadHeader r)) = rd_attrs as r"
    "rd_state (snd (Reader_ReadHeader r)) = rd_state r"
    "rd_fAllowLegacyFormat (snd (Reader_ReadHeader r)) = rd_fAllowLegacyFormat r"
    "ds_ok (rd_stream (snd (Reader_ReadHeader r)))"
    "ds_bytes (rd_stream (snd (Reader_ReadHeader r))) = bs"
    using assms by (simp_all add: core rd_attrs_def)
qed

subsection \<open>Feeding bytes\<close>

lemma ReadBody_ok:
  assumes ok: "ds_ok (rd_stream r)" and bs: "ds_bytes (rd_stream r) = bs"
    and len: "20 \<le> length bs" "length bs < 2 ^ 16" and none: "rd_attrs [] r"
  shows "SUCCEEDED (fst (Reader_ReadBody r)) \<longleftrightarrow> body_attrs bs \<noteq> None"
    "body_attrs bs = Some as \<Longrightarrow> rd_attrs as (snd (Reader_ReadBody r)) \<and>
      rd_head (snd (Reader_ReadBody r)) = rd_head r \<and> ds_ok (rd_stream (snd (Reader_ReadBody r))) \<and>
      ds_bytes (rd_stream (snd (Reader_ReadBody r))) = bs"
proof -
  let ?r = "r\<lparr>rd_stream := (rd_stream r)\<lparr>ds_pos := 20\<rparr>\<rparr>"
  have sz: "DS_GetSize (rd_stream r) = length bs"
    using ok bs by (simp add: ds_ok_def DS_GetSize_bytes)
  have eq: "Reader_ReadBody r = ((if fst (Reader_BodyLoop (length bs) 20 ?r) = length bs then S_OK else E_FAIL),
      snd (Reader_BodyLoop (length bs) 20 ?r))"
    using ok bs len by (simp add: Reader_ReadBody_def Let_def sz Chk_SeekDirect STUN_HEADER_SIZE_def
        case_prod_beta)
  have loop: "case parse_attrs bs 20 of
      None \<Rightarrow> fst (Reader_BodyLoop (length bs) 20 ?r) < length bs
    | Some as' \<Rightarrow>
        if length ([] :: StunAttribute list) + length as' \<le> MAX_NUM_ATTRIBUTES
        then fst (Reader_BodyLoop (length bs) 20 ?r) = length bs \<and>
          rd_attrs ([] @ as') (snd (Reader_BodyLoop (length bs) 20 ?r)) \<and>
          rd_head (snd (Reader_BodyLoop (length bs) 20 ?r)) = rd_head ?r \<and>
          ds_ok (rd_stream (snd (Reader_BodyLoop (length bs) 20 ?r))) \<and>
          ds_bytes (rd_stream (snd (Reader_BodyLoop (length bs) 20 ?r))) = bs
        else fst (Reader_BodyLoop (length bs) 20 ?r) < length bs"
    by (rule BodyLoop_parse) (use ok bs len none in auto)
  show "SUCCEEDED (fst (Reader_ReadBody r)) \<longleftrightarrow> body_attrs bs \<noteq> None"
    using loop by (auto simp: eq body_attrs_def STUN_HEADER_SIZE_def split: option.splits if_splits)
  show "body_attrs bs = Some as \<Longrightarrow> rd_attrs as (snd (Reader_ReadBody r)) \<and>
      rd_head (snd (Reader_ReadBody r)) = rd_head r \<and> ds_ok (rd_stream (snd (Reader_ReadBody r))) \<and>
      ds_bytes (rd_stream (snd (Reader_ReadBody r))) = bs"
    using loop by (auto simp: eq body_attrs_def STUN_HEADER_SIZE_def split: option.splits if_splits)
qed

definition verdict_attrs :: "bool \<Rightarrow> u8 list \<Rightarrow> StunAttribute list" where
  "verdict_attrs allow bs =
     (if verdict allow bs = BodyValidated then (case body_attrs bs of Some as \<Rightarrow> as | None \<Rightarrow> []) else [])"

definition rd_inv :: "bool \<Rightarrow> u8 list \<Rightarrow> CStunMessageReader \<Rightarrow> bool" where
  "rd_inv allow bs r \<longleftrightarrow> rd_state r = verdict allow bs \<and>
     (verdict allow bs \<noteq> ParseError \<longrightarrow>
        rd_fAllowLegacyFormat r = allow \<and> ds_ok (rd_stream r) \<and> ds_bytes (rd_stream r) = bs \<and>
        (verdict allow bs \<noteq> HeaderNotRead \<longrightarrow> rd_head r = head_of allow bs) \<and>
        rd_attrs (verdict_attrs allow bs) r)"

lemma Reader_Reset_inv:
  assumes "rd_map_inv r" "fh_fsize (rd_mapAttributes r) = MAX_NUM_ATTRIBUTES"
  shows "rd_inv True [] (Reader_Reset r)"
  using fh_Reset_inv [OF assms(1)] assms(2)
  by (simp add: rd_inv_def verdict_def STUN_HEADER_SIZE_def verdict_attrs_def rd_attrs_def Reader_Reset_def
      fh_room_def DS_Reset_def ds_ok_def ds_wf_def ds_bytes_def)

lemma Reader_new_inv: "rd_inv True [] Reader_new"
  unfolding Reader_new_def
  by (rule Reader_Reset_inv) (simp_all add: FastHash_new_inv FastHash_new_size MAX_NUM_ATTRIBUTES_def)

lemma SetAllowLegacyFormat_inv:
  "rd_inv True [] r \<Longrightarrow> rd_inv allow [] (Reader_SetAllowLegacyFormat allow r)"
  by (simp add: rd_inv_def verdict_def STUN_HEADER_SIZE_def verdict_attrs_def rd_attrs_def
      Reader_SetAllowLegacyFormat_def)

lemma AddBytes_stages:
  assumes ok: "ds_ok (rd_stream r)" and d: "d \<noteq> []" and st: "rd_state r \<noteq> ParseError"
  obtains s where "ds_ok s" "ds_bytes s = ds_bytes (rd_stream r) @ d"
    "Reader_AddBytes d r = (let n = length (ds_bytes (rd_stream r) @ d);
       r' = Reader_CheckExcess n (Reader_TryBody n (Reader_TryHeader n (r\<lparr>rd_stream := s\<rparr>))) in (rd_state r', r'))"
proof -
  let ?bs = "ds_bytes (rd_stream r)" and ?s = "rd_stream r"
  have sz: "DS_GetSize s = length (ds_bytes s)" if "ds_ok s" for s
    using that by (simp add: ds_ok_def DS_GetSize_bytes)
  have seek: "snd (DS_SeekDirect (DS_GetSize ?s) ?s) = ?s\<lparr>ds_pos := length ?bs\<rparr>"
    using DS_SeekDirect_ok [OF ok, of "length ?bs"] by (simp add: sz [OF ok])
  have ok': "ds_ok (?s\<lparr>ds_pos := length ?bs\<rparr>)" using ok by simp
  note w = DS_Write_ok [OF ok' d]
  show ?thesis
  proof (rule that)
    show "ds_ok (snd (DS_Write d (?s\<lparr>ds_pos := length ?bs\<rparr>)))" by (rule w)
    show "ds_bytes (snd (DS_Write d (?s\<lparr>ds_pos := length ?bs\<rparr>))) = ?bs @ d"
      using w(3) by (simp add: poke_def)
    then show "Reader_AddBytes d r = (let n = length (?bs @ d);
       r' = Reader_CheckExcess n (Reader_TryBody n (Reader_TryHeader n
         (r\<lparr>rd_stream := snd (DS_Write d (?s\<lparr>ds_pos := length ?bs\<rparr>))\<rparr>))) in (rd_state r', r'))"
      using w d st unfolding Reader_AddBytes_def seek
      by (simp add: case_prod_beta sz [OF w(2)] Let_def)
  qed
qed

lemma head_of_append: "20 \<le> length bs \<Longrightarrow> head_of allow (bs @ d) = head_of allow bs"
  by (simp add: head_of_def msg_view_append)

lemma rd_head_fields:
  "rd_head r = head_of allow bs \<Longrightarrow> rd_msgLength r = msg_len bs \<and> rd_fAllowLegacyFormat r = allow \<and>
    rd_transactionid r = msg_id bs \<and> rd_msgClass r = class_of_field (msg_field bs) \<and>
    rd_msgTypeNormalized r = type_of_field (msg_field bs) \<and>
    rd_fMessageIsLegacyFormat r = (msg_cookie bs \<noteq> STUN_COOKIE)"
  by (simp add: rd_head_def head_of_def)

lemma rd_inv_error: "rd_state r = ParseError \<Longrightarrow> verdict allow bs = ParseError \<Longrightarrow> rd_inv allow bs r"
  by (simp add: rd_inv_def)

lemma body_phase:
  assumes ok: "ds_ok (rd_stream r)" and bs: "ds_bytes (rd_stream r) = bs" and len: "20 \<le> length bs"
    and hd: "rd_head r = head_of allow bs" "header_ok allow bs" and none: "rd_attrs [] r"
    and st: "rd_state r = HeaderValidated \<or> rd_state r = BodyValidated \<and> msg_len bs = 0"
  shows "rd_inv allow bs (Reader_CheckExcess (length bs) (Reader_TryBody (length bs) r))"
proof -
  note f = rd_head_fields [OF hd(1)]
  let ?n = "unat (msg_len bs) + 20"
  have n: "?n \<le> 820" using hd(2) by (simp add: header_ok_def MAX_STUN_MESSAGE_SIZE_def)
  consider (short) "length bs < ?n" | (full) "length bs = ?n" | (long) "?n < length bs" by linarith
  then show ?thesis
  proof cases
    case short
    then have "rd_state r = HeaderValidated" using st len by auto
    with short f ok bs hd none len show ?thesis
      by (simp add: Reader_TryBody_def Reader_CheckExcess_def rd_inv_def verdict_def STUN_HEADER_SIZE_def
          verdict_attrs_def)
  next
    case long
    then have "verdict allow bs = ParseError"
      using hd(2) len by (simp add: verdict_def STUN_HEADER_SIZE_def)
    moreover have "rd_state (Reader_CheckExcess (length bs) (Reader_TryBody (length bs) r)) = ParseError"
      using st long f by (auto simp: Reader_TryBody_def Reader_CheckExcess_def STUN_HEADER_SIZE_def)
    ultimately show ?thesis by (rule rd_inv_error [rotated])
  next
    case full
    have v: "verdict allow bs = (if body_attrs bs = None then ParseError else BodyValidated)"
      using full hd(2) len by (simp add: verdict_def STUN_HEADER_SIZE_def)
    show ?thesis
    proof (cases "rd_state r = HeaderValidated")
      case True
      have small: "length bs < 2 ^ 16" using full n by simp
      note B = ReadBody_ok [OF ok bs len small none]
      let ?r = "(snd (Reader_ReadBody r))\<lparr>rd_state :=
          (if SUCCEEDED (fst (Reader_ReadBody r)) then BodyValidated else ParseError)\<rparr>"
      have "Reader_TryBody (length bs) r = ?r"
        using True full f by (simp add: Reader_TryBody_def STUN_HEADER_SIZE_def case_prod_beta Let_def)
      moreover have "rd_inv allow bs (Reader_CheckExcess (length bs) ?r)"
      proof (cases "body_attrs bs")
        case None
        then show ?thesis using B(1) v by (intro rd_inv_error) (simp_all add: Reader_CheckExcess_def)
      next
        case (Some as)
        with B v hd(1) f full show ?thesis
          by (simp add: Reader_CheckExcess_def rd_inv_def verdict_attrs_def STUN_HEADER_SIZE_def rd_head_def
              rd_attrs_def)
      qed
      ultimately show ?thesis by simp
    next
      case False
      then have *: "rd_state r = BodyValidated" "length bs = 20" using st full by auto
      then have "body_attrs bs = Some []"
        using parse_attrs_end [of bs] by (simp add: body_attrs_def STUN_HEADER_SIZE_def)
      with * v ok bs hd none f show ?thesis
        by (simp add: Reader_TryBody_def Reader_CheckExcess_def rd_inv_def verdict_attrs_def
            STUN_HEADER_SIZE_def)
    qed
  qed
qed

theorem AddBytes_inv:
  assumes inv: "rd_inv allow bs r"
  shows "fst (Reader_AddBytes d r) = verdict allow (bs @ d)"
    "rd_inv allow (bs @ d) (snd (Reader_AddBytes d r))"
proof -
  have "fst (Reader_AddBytes d r) = rd_state (snd (Reader_AddBytes d r)) \<and>
    rd_inv allow (bs @ d) (snd (Reader_AddBytes d r))"
  proof (cases "rd_state r = ParseError \<or> d = []")
    case True
    then show ?thesis using inv verdict_error_append [of allow bs d]
      by (auto simp: Reader_AddBytes_def rd_inv_def)
  next
    case False
    then have d: "d \<noteq> []" and ne: "rd_state r \<noteq> ParseError" by auto
    have v: "rd_state r = verdict allow bs" "verdict allow bs \<noteq> ParseError"
      and al: "rd_fAllowLegacyFormat r = allow" and ok: "ds_ok (rd_stream r)" and bs: "ds_bytes (rd_stream r) = bs"
      and hd: "verdict allow bs \<noteq> HeaderNotRead \<Longrightarrow> rd_head r = head_of allow bs"
      and at: "rd_attrs (verdict_attrs allow bs) r"
      using inv ne by (auto simp: rd_inv_def)
    obtain s where s: "ds_ok s" "ds_bytes s = bs @ d" and
      eq: "Reader_AddBytes d r = (let n = length (bs @ d); r' = Reader_CheckExcess n (Reader_TryBody n
        (Reader_TryHeader n (r\<lparr>rd_stream := s\<rparr>))) in (rd_state r', r'))"
      using AddBytes_stages [OF ok d ne] unfolding bs by metis
    let ?r = "r\<lparr>rd_stream := s\<rparr>" and ?n = "length (bs @ d)"
    have "rd_inv allow (bs @ d) (Reader_CheckExcess ?n (Reader_TryBody ?n (Reader_TryHeader ?n ?r)))"
    proof (cases "verdict allow bs")
      case HeaderNotRead
      then have none: "rd_attrs [] ?r" using at by (simp add: verdict_attrs_def)
      show ?thesis
      proof (cases "?n < 20")
        case True
        then show ?thesis using HeaderNotRead v none s al
          by (simp add: Reader_TryHeader_def Reader_TryBody_def Reader_CheckExcess_def STUN_HEADER_SIZE_def
              rd_inv_def verdict_def verdict_attrs_def)
      next
        case False
        have st: "rd_stream ?r = s" "ds_ok (rd_stream ?r)" "ds_bytes (rd_stream ?r) = bs @ d" "20 \<le> length (bs @ d)"
          using s False by simp_all
        note H = ReadHeader_ok [OF st(2-4), unfolded rd_head_simps]
        have th: "Reader_TryHeader ?n ?r = (let q = snd (Reader_ReadHeader ?r) in
            if header_ok allow (bs @ d)
            then q\<lparr>rd_state := (if rd_msgLength q = 0 then BodyValidated else HeaderValidated)\<rparr>
            else q\<lparr>rd_state := ParseError\<rparr>)"
          using H(1) HeaderNotRead v False al
          by (simp add: Reader_TryHeader_def STUN_HEADER_SIZE_def case_prod_beta Let_def)
        show ?thesis
        proof (cases "header_ok allow (bs @ d)")
          case ok': True
          let ?q = "snd (Reader_ReadHeader ?r)"
          have hq: "rd_head ?q = head_of allow (bs @ d)" using H(2) ok' al by simp
          have "rd_inv allow (bs @ d) (Reader_CheckExcess ?n (Reader_TryBody ?n
              (?q\<lparr>rd_state := (if rd_msgLength ?q = 0 then BodyValidated else HeaderValidated)\<rparr>)))"
            by (rule body_phase) (use H hq ok' al none False rd_head_fields [OF hq] in auto)
          then show ?thesis using ok' unfolding th Let_def by simp
        next
          case bad: False
          then have "verdict allow (bs @ d) = ParseError"
            using False by (simp add: verdict_def STUN_HEADER_SIZE_def)
          then show ?thesis using bad unfolding th Let_def
            by (intro rd_inv_error) (simp_all add: Reader_TryBody_def Reader_CheckExcess_def)
        qed
      qed
    next
      case HeaderValidated
      then have l: "20 \<le> length bs" "header_ok allow bs"
        by (auto simp: verdict_def STUN_HEADER_SIZE_def split: if_splits)
      have "rd_inv allow (bs @ d) (Reader_CheckExcess ?n (Reader_TryBody ?n ?r))"
        by (rule body_phase)
          (use HeaderValidated v s l hd at head_of_append [OF l(1)] in \<open>auto simp: msg_view_append verdict_attrs_def\<close>)
      then show ?thesis using HeaderValidated v by (simp add: Reader_TryHeader_def)
    next
      case BodyValidated
      then have "length bs = unat (msg_len bs) + 20"
        by (auto simp: verdict_def STUN_HEADER_SIZE_def split: if_splits)
      moreover have "rd_msgLength r = msg_len bs" using hd BodyValidated rd_head_fields by simp
      ultimately have "rd_state (Reader_CheckExcess ?n (Reader_TryBody ?n (Reader_TryHeader ?n ?r))) = ParseError"
        using BodyValidated v d
        by (simp add: Reader_TryHeader_def Reader_TryBody_def Reader_CheckExcess_def STUN_HEADER_SIZE_def)
      then show ?thesis using verdict_done_append [OF BodyValidated d] by (rule rd_inv_error)
    qed (use v in simp)
    then show ?thesis by (simp add: eq Let_def)
  qed
  then show "rd_inv allow (bs @ d) (snd (Reader_AddBytes d r))"
    "fst (Reader_AddBytes d r) = verdict allow (bs @ d)"
    by (auto simp: rd_inv_def)
qed

subsection \<open>Incremental parsing\<close>

text \<open>
  The contract of a parser fed piece by piece: its state is a function of what it has been fed.
\<close>

locale incremental_parser =
  fixes inv :: "'b list \<Rightarrow> 'r \<Rightarrow> bool"
    and add :: "'b list \<Rightarrow> 'r \<Rightarrow> 's \<times> 'r"
    and outcome :: "'b list \<Rightarrow> 's"
  assumes add_outcome: "inv bs r \<Longrightarrow> fst (add d r) = outcome (bs @ d)"
    and add_inv: "inv bs r \<Longrightarrow> inv (bs @ d) (snd (add d r))"
begin

fun feed :: "'b list list \<Rightarrow> 'r \<Rightarrow> 'r" where
  "feed [] r = r"
| "feed (d # ds) r = feed ds (snd (add d r))"

lemma feed_inv: "inv bs r \<Longrightarrow> inv (bs @ concat ds) (feed ds r)"
proof (induction ds arbitrary: bs r)
  case (Cons d ds)
  from Cons.IH [OF add_inv [OF Cons.prems, of d]] show ?case by simp
qed simp

lemma feed_last:
  assumes "inv bs r"
  shows "fst (add d (feed ds r)) = outcome (bs @ concat ds @ d)"
  using add_outcome [OF feed_inv [OF assms, of ds], of d] by simp

text \<open>Cutting the input differently, or not at all, does not change the outcome.\<close>

lemma feed_once:
  assumes "inv bs r"
  shows "fst (add d (feed ds r)) = fst (add (concat ds @ d) r)"
  using feed_last [OF assms] add_outcome [OF assms] by simp

end

interpretation rd: incremental_parser "rd_inv allow" Reader_AddBytes "verdict allow" for allow
  by unfold_locales (simp_all add: AddBytes_inv)

text \<open>The reader asks for exactly what is missing of the stage it is in, at most 800 bytes.\<close>

lemma HowManyBytesNeeded_inv:
  assumes inv: "rd_inv allow bs r"
  shows "unat (Reader_HowManyBytesNeeded r) =
    (case verdict allow bs of HeaderNotRead \<Rightarrow> 20 - length bs
     | HeaderValidated \<Rightarrow> unat (msg_len bs) + 20 - length bs | _ \<Rightarrow> 0)"
    "unat (Reader_HowManyBytesNeeded r) \<le> MAX_STUN_MESSAGE_SIZE"
proof -
  have u: "unat (word_of_int (int a - int b) :: u16) = a - b" if "b \<le> a" "a < 65536" for a b
  proof -
    have "word_of_int (int a - int b) = (of_nat (a - b) :: u16)"
      using that by (simp add: of_nat_diff)
    then have "unat (word_of_int (int a - int b) :: u16) = (a - b) mod 65536"
      by (simp only: unat_of_nat) simp
    then show ?thesis using that by simp
  qed
  have "unat (Reader_HowManyBytesNeeded r) =
    (case verdict allow bs of HeaderNotRead \<Rightarrow> 20 - length bs
     | HeaderValidated \<Rightarrow> unat (msg_len bs) + 20 - length bs | _ \<Rightarrow> 0) \<and>
    unat (Reader_HowManyBytesNeeded r) \<le> MAX_STUN_MESSAGE_SIZE"
  proof (cases "verdict allow bs")
    case HeaderNotRead
    then have "length bs < 20" by (auto simp: verdict_def STUN_HEADER_SIZE_def split: if_splits)
    moreover have "DS_GetSize (rd_stream r) = length bs" "rd_state r = HeaderNotRead"
      using inv HeaderNotRead by (auto simp: rd_inv_def ds_ok_def DS_GetSize_bytes)
    ultimately show ?thesis using u [of "length bs" 20] HeaderNotRead
      by (simp add: Reader_HowManyBytesNeeded_def STUN_HEADER_SIZE_def MAX_STUN_MESSAGE_SIZE_def)
  next
    case HeaderValidated
    then have l: "20 \<le> length bs" "length bs < unat (msg_len bs) + 20" "unat (msg_len bs) \<le> 800"
      by (auto simp: verdict_def STUN_HEADER_SIZE_def header_ok_def MAX_STUN_MESSAGE_SIZE_def split: if_splits)
    moreover have "DS_GetSize (rd_stream r) = length bs" "rd_state r = HeaderValidated"
      "rd_head r = head_of allow bs"
      using inv HeaderValidated by (auto simp: rd_inv_def ds_ok_def DS_GetSize_bytes)
    ultimately show ?thesis
      using u [of "length bs" "unat (msg_len bs) + 20"] HeaderValidated rd_head_fields [of r allow bs]
      by (simp add: Reader_HowManyBytesNeeded_def STUN_HEADER_SIZE_def MAX_STUN_MESSAGE_SIZE_def
          del: of_nat_unat of_nat_add)
  qed (use inv in \<open>simp_all add: rd_inv_def Reader_HowManyBytesNeeded_def\<close>)
  then show "unat (Reader_HowManyBytesNeeded r) =
    (case verdict allow bs of HeaderNotRead \<Rightarrow> 20 - length bs
     | HeaderValidated \<Rightarrow> unat (msg_len bs) + 20 - length bs | _ \<Rightarrow> 0)"
    "unat (Reader_HowManyBytesNeeded r) \<le> MAX_STUN_MESSAGE_SIZE" by auto
qed

end
