(* ===== verification/StunReaderAccess.thy ===== *)
theory StunReaderAccess
  imports StunReaderProps
begin

text \<open>
  The accessors of a reader that has validated a message: where its attributes lie, what each
  accessor gives in terms of them, and exactly when the integrity and fingerprint checks pass.
\<close>

subsection \<open>Where the attributes lie\<close>

definition attr_data :: "u8 list \<Rightarrow> StunAttribute \<Rightarrow> u8 list" where
  "attr_data bs a = peek (unat (sa_offset a)) (unat (sa_size a)) bs"

lemma parse_attrs_bounds:
  assumes "parse_attrs bs p = Some as" "length bs < 2 ^ 16" "p mod 4 = 0" "a \<in> set as"
  shows "p + 4 \<le> unat (sa_offset a)" "unat (sa_offset a) mod 4 = 0"
    "unat (sa_offset a) + unat (sa_size a) + pad4 (unat (sa_size a)) \<le> length bs"
    "unat (sa_size a) \<le> MAX_STUN_ATTRIBUTE_SIZE"
proof -
  have "p + 4 \<le> unat (sa_offset a) \<and> unat (sa_offset a) mod 4 = 0 \<and>
    unat (sa_offset a) + unat (sa_size a) + pad4 (unat (sa_size a)) \<le> length bs \<and>
    unat (sa_size a) \<le> MAX_STUN_ATTRIBUTE_SIZE"
    using assms
  proof (induction bs p arbitrary: as rule: parse_attrs.induct)
    case (1 bs p)
    show ?case
    proof (cases "length bs \<le> p")
      case True
      then show ?thesis using 1(2,5) by (auto simp: parse_attrs.simps [of bs p] split: if_splits)
    next
      case lt: False
      then obtain as' where fits: "attr_fits bs p" and as: "as = attr_at bs p # as'"
        and as': "parse_attrs bs (p + attr_span (attr_at bs p)) = Some as'"
        using 1(2) by (auto simp: parse_attrs.simps [of bs p] split: if_splits)
      have span: "attr_span (attr_at bs p) mod 4 = 0"
        using pad4_mod [of "unat (sa_size (attr_at bs p))"] by (simp add: attr_span_def add.assoc mod_simps)
      show ?thesis
      proof (cases "a = attr_at bs p")
        case True
        have "p + 4 < 65536" using fits 1(3) by (simp add: attr_fits_def)
        then have "unat (sa_offset a) = p + 4" by (simp add: True attr_at_def unat_of_nat del: of_nat_add)
        then show ?thesis using fits True 1(4) by (simp add: attr_fits_def attr_span_def)
      next
        case False
        then have "a \<in> set as'" using 1(5) as by simp
        moreover have "(p + attr_span (attr_at bs p)) mod 4 = 0" using span 1(4) by presburger
        ultimately show ?thesis using 1(1) [OF lt fits as' 1(3)] by simp
      qed
    qed
  qed
  then show "p + 4 \<le> unat (sa_offset a)" "unat (sa_offset a) mod 4 = 0"
    "unat (sa_offset a) + unat (sa_size a) + pad4 (unat (sa_size a)) \<le> length bs"
    "unat (sa_size a) \<le> MAX_STUN_ATTRIBUTE_SIZE" by auto
qed

text \<open>A validated reader over the message \<open>bs\<close> with the attributes \<open>as\<close>.\<close>

definition rd_valid :: "bool \<Rightarrow> u8 list \<Rightarrow> StunAttribute list \<Rightarrow> CStunMessageReader \<Rightarrow> bool" where
  "rd_valid allow bs as r \<longleftrightarrow> rd_inv allow bs r \<and> verdict allow bs = BodyValidated \<and> body_attrs bs = Some as"

lemma rd_validI:
  assumes "rd_inv allow bs r" "rd_state r = BodyValidated"
  obtains as where "rd_valid allow bs as r"
  using assms
  by (auto simp: rd_valid_def rd_inv_def verdict_def STUN_HEADER_SIZE_def split: if_splits)

lemma rd_validD:
  assumes "rd_valid allow bs as r"
  shows "rd_state r = BodyValidated" "rd_attrs as r" "rd_head r = head_of allow bs"
    "ds_ok (rd_stream r)" "ds_bytes (rd_stream r) = bs" "length bs = unat (msg_len bs) + 20"
    "20 \<le> length bs" "length bs \<le> 820" "parse_attrs bs 20 = Some as"
    "\<And>t. rd_Lookup t r = last_attr t as"
proof -
  have v: "verdict allow bs = BodyValidated" "body_attrs bs = Some as" and inv: "rd_inv allow bs r"
    using assms by (auto simp: rd_valid_def)
  show at: "rd_attrs as r" using inv v by (auto simp: rd_inv_def verdict_attrs_def)
  show "rd_state r = BodyValidated" "rd_head r = head_of allow bs"
    "ds_ok (rd_stream r)" "ds_bytes (rd_stream r) = bs"
    using inv v by (auto simp: rd_inv_def)
  show "length bs = unat (msg_len bs) + 20" "20 \<le> length bs" "length bs \<le> 820"
    using v by (auto simp: verdict_def STUN_HEADER_SIZE_def header_ok_def MAX_STUN_MESSAGE_SIZE_def
      split: if_splits)
  show "parse_attrs bs 20 = Some as"
    using v by (auto simp: body_attrs_def STUN_HEADER_SIZE_def split: option.splits if_splits)
  show "rd_Lookup t r = last_attr t as" for t by (rule rd_Lookup_attrs [OF at])
qed

lemma rd_valid_attr:
  assumes r: "rd_valid allow bs as r" and a: "a \<in> set as"
  shows "24 \<le> unat (sa_offset a)" "unat (sa_offset a) mod 4 = 0"
    "unat (sa_offset a) + unat (sa_size a) + pad4 (unat (sa_size a)) \<le> length bs"
    "length (attr_data bs a) = unat (sa_size a)"
  using parse_attrs_bounds [OF rd_validD(9) [OF r] _ _ a] rd_validD(8) [OF r]
  by (simp_all add: attr_data_def)

lemma last_attr_in: "last_attr t as = Some a \<Longrightarrow> a \<in> set as \<and> attributeType a = t"
  by (auto simp: last_attr_def dest: find_SomeD)

lemma last_attr_None: "last_attr t as = None \<longleftrightarrow> t \<notin> attributeType ` set as"
  by (auto simp: last_attr_def find_None_iff)

text \<open>The memory behind the stream begins with the message.\<close>

lemma rd_pointer:
  assumes "ds_ok (rd_stream r)" "ds_bytes (rd_stream r) = bs" "bs \<noteq> []"
  obtains m where "DS_GetDataPointerUnsafe (rd_stream r) = Some m" "length bs \<le> length m"
    "\<And>p n. p + n \<le> length bs \<Longrightarrow> peek p n m = peek p n bs" "take (length bs) m = bs"
proof -
  obtain b m where b: "ds_buffer (rd_stream r) = Some b" "b_data b = Some m" "b_size b \<le> length m"
    "bs = take (b_size b) m"
    using assms by (auto simp: ds_ok_def ds_wf_def ds_bytes_def buf_wf_def buf_bytes_def split: option.splits)
  show ?thesis
  proof (rule that [of m])
    show "DS_GetDataPointerUnsafe (rd_stream r) = Some m" by (simp add: DS_GetDataPointerUnsafe_def b)
    show "peek p n m = peek p n bs" if "p + n \<le> length bs" for p n
      using that b(3) by (simp add: b(4) peek_take)
  qed (use b in auto)
qed

subsection \<open>What the accessors give\<close>

lemma rd_valid_pointer:
  assumes r: "rd_valid allow bs as r"
  obtains m where "DS_GetDataPointerUnsafe (rd_stream r) = Some m" "length bs \<le> length m"
    "\<And>p n. p + n \<le> length bs \<Longrightarrow> peek p n m = peek p n bs" "take (length bs) m = bs"
proof (rule rd_pointer [OF rd_validD(4,5) [OF r]])
  show "bs \<noteq> []" using rd_validD(7) [OF r] by auto
qed (use that in auto)

lemma GetAddressHelper_valid:
  assumes r: "rd_valid allow bs as r"
  shows "Reader_GetAddressHelper t pAddr r = (case last_attr t as of None \<Rightarrow> (E_FAIL, pAddr)
    | Some a \<Rightarrow> GetMappedAddress (attr_data bs a) (unat (sa_size a)) pAddr)"
proof (cases "last_attr t as")
  case (Some a)
  obtain m where m: "DS_GetDataPointerUnsafe (rd_stream r) = Some m" "length bs \<le> length m"
    "\<And>p n. p + n \<le> length bs \<Longrightarrow> peek p n m = peek p n bs"
    by (rule rd_valid_pointer [OF r]) blast
  let ?o = "unat (sa_offset a)" and ?n = "unat (sa_size a)"
  have b: "?o + ?n \<le> length bs" "length (attr_data bs a) = ?n"
    using rd_valid_attr(3,4) [OF r] last_attr_in [OF Some] by force+
  have "peek p n (drop ?o m) = peek p n (attr_data bs a)" if "p + n \<le> ?n" for p n
    using that b(1) m(3) [of "?o + p" n]
    by (simp add: attr_data_def peek_peek) (simp add: peek_def add.commute)
  moreover have "drop ?o m ! 1 = attr_data bs a ! 1" if "4 \<le> ?n"
    using that b(1) m(2) arg_cong [OF m(3) [OF b(1)], of "\<lambda>xs. xs ! 1"]
    by (simp add: attr_data_def nth_peek)
  ultimately show ?thesis using b m(2) Some rd_validD(10) [OF r, of t]
    by (simp add: Reader_GetAddressHelper_def m(1) Let_def GetMappedAddress_stream)
qed (use rd_validD(10) [OF r, of t] in \<open>simp add: Reader_GetAddressHelper_def\<close>)

lemma GetStringAttribute_valid:
  assumes r: "rd_valid allow bs as r"
  shows "Reader_GetStringAttributeByType t dst r = (case last_attr t as of None \<Rightarrow> (E_INVALIDARG, dst)
    | Some a \<Rightarrow> if unat (sa_size a) < length dst then (S_OK, poke 0 (attr_data bs a @ [0]) dst)
        else (E_INVALIDARG, dst))"
proof (cases "last_attr t as")
  case (Some a)
  obtain m where m: "DS_GetDataPointerUnsafe (rd_stream r) = Some m"
    "\<And>p n. p + n \<le> length bs \<Longrightarrow> peek p n m = peek p n bs"
    by (rule rd_valid_pointer [OF r]) blast
  have "unat (sa_offset a) + unat (sa_size a) \<le> length bs"
    using rd_valid_attr(3) [OF r, of a] last_attr_in [OF Some] by force
  then show ?thesis using m Some rd_validD(10) [OF r, of t]
    by (simp add: Reader_GetStringAttributeByType_def Let_def attr_data_def)
qed (use rd_validD(10) [OF r, of t] in \<open>simp add: Reader_GetStringAttributeByType_def\<close>)

lemma GetResponsePort_valid:
  assumes r: "rd_valid allow bs as r"
  shows "Reader_GetResponsePort port r = (case last_attr STUN_ATTRIBUTE_RESPONSE_PORT as of
      None \<Rightarrow> (E_FAIL, port)
    | Some a \<Rightarrow> if sa_size a = 2 then (S_OK, unbe16 (attr_data bs a)) else (E_UNEXPECTED, port))"
proof (cases "last_attr STUN_ATTRIBUTE_RESPONSE_PORT as")
  case (Some a)
  obtain m where m: "DS_GetDataPointerUnsafe (rd_stream r) = Some m"
    "\<And>p n. p + n \<le> length bs \<Longrightarrow> peek p n m = peek p n bs"
    by (rule rd_valid_pointer [OF r]) blast
  have "unat (sa_offset a) + unat (sa_size a) \<le> length bs"
    using rd_valid_attr(3) [OF r, of a] last_attr_in [OF Some] by force
  then show ?thesis using m Some rd_validD(10) [OF r, of STUN_ATTRIBUTE_RESPONSE_PORT]
    by (auto simp: Reader_GetResponsePort_def Let_def attr_data_def STUN_ATTRIBUTE_RESPONSE_PORT_SIZE_def)
qed (use rd_validD(10) [OF r, of STUN_ATTRIBUTE_RESPONSE_PORT] in \<open>simp add: Reader_GetResponsePort_def\<close>)

lemma GetChangeRequest_valid:
  assumes r: "rd_valid allow bs as r"
  shows "Reader_GetChangeRequest r = (case last_attr STUN_ATTRIBUTE_CHANGEREQUEST as of
      None \<Rightarrow> (E_FAIL, \<lparr>fChangeIP = False, fChangePort = False\<rparr>)
    | Some a \<Rightarrow> if sa_size a = 4
        then (S_OK, \<lparr>fChangeIP = (unbe32 (attr_data bs a) AND 4 \<noteq> 0),
                     fChangePort = (unbe32 (attr_data bs a) AND 2 \<noteq> 0)\<rparr>)
        else (E_UNEXPECTED, \<lparr>fChangeIP = False, fChangePort = False\<rparr>))"
proof (cases "last_attr STUN_ATTRIBUTE_CHANGEREQUEST as")
  case (Some a)
  obtain m where m: "DS_GetDataPointerUnsafe (rd_stream r) = Some m"
    "\<And>p n. p + n \<le> length bs \<Longrightarrow> peek p n m = peek p n bs"
    by (rule rd_valid_pointer [OF r]) blast
  have "unat (sa_offset a) + unat (sa_size a) \<le> length bs"
    using rd_valid_attr(3) [OF r, of a] last_attr_in [OF Some] by force
  then show ?thesis using m Some rd_validD(10) [OF r, of STUN_ATTRIBUTE_CHANGEREQUEST]
    by (auto simp: Reader_GetChangeRequest_def Let_def attr_data_def STUN_ATTRIBUTE_CHANGEREQUEST_SIZE_def)
qed (use rd_validD(10) [OF r, of STUN_ATTRIBUTE_CHANGEREQUEST] in \<open>simp add: Reader_GetChangeRequest_def Let_def\<close>)

text \<open>
  The error number is read from the two bytes after the reserved ones whatever the size of the
  attribute: it is the code only when the attribute has at least four bytes.
\<close>

lemma GetErrorCode_valid:
  assumes r: "rd_valid allow bs as r" and a: "last_attr STUN_ATTRIBUTE_ERRORCODE as = Some a"
    and sz: "4 \<le> unat (sa_size a)"
  shows "Reader_GetErrorCode n r =
    (S_OK, word_of_int (uint (attr_data bs a ! 2 AND 7) * 100 + uint (attr_data bs a ! 3)))"
proof -
  obtain m where m: "DS_GetDataPointerUnsafe (rd_stream r) = Some m" "length bs \<le> length m"
    "\<And>p n. p + n \<le> length bs \<Longrightarrow> peek p n m = peek p n bs"
    by (rule rd_valid_pointer [OF r]) blast
  have b: "unat (sa_offset a) + unat (sa_size a) \<le> length bs"
    using rd_valid_attr(3) [OF r, of a] last_attr_in [OF a] by force
  have "mem_at m (unat (sa_offset a) + i) = attr_data bs a ! i" if "i < unat (sa_size a)" for i
    using that b m(2) arg_cong [OF m(3) [OF b], of "\<lambda>xs. xs ! i"]
    by (simp add: mem_at_def attr_data_def nth_peek)
  from this [of 2] this [of "2 + 1"] sz
  have at: "mem_at m (unat (sa_offset a) + 2) = attr_data bs a ! 2"
    "mem_at m (unat (sa_offset a) + 2 + 1) = attr_data bs a ! 3"
    unfolding add.assoc by simp_all
  show ?thesis using rd_validD(10) [OF r, of STUN_ATTRIBUTE_ERRORCODE]
    unfolding Reader_GetErrorCode_def a m(1) Let_def by (simp only: option.case at)
qed

subsection \<open>Message integrity\<close>

text \<open>
  The text a message is authenticated with: everything before the integrity attribute, with the
  length field as it was before a fingerprint was appended.
\<close>

definition mi_text :: "u8 list \<Rightarrow> StunAttribute \<Rightarrow> bool \<Rightarrow> u8 list" where
  "mi_text bs a fp = peek 0 2 bs @ be16 (if fp then msg_len bs - 8 else msg_len bs) @
     peek 4 (unat (sa_offset a) - 8) bs"

lemma HashChunks_ok:
  assumes "ds_ok s" "ds_pos s + 4 * n \<le> length (ds_bytes s)"
  shows "fst (Reader_HashChunks n (h, s)) = S_OK \<and>
    fst (snd (Reader_HashChunks n (h, s))) = h @ peek (ds_pos s) (4 * n) (ds_bytes s)"
  using assms
proof (induction n arbitrary: h s)
  case (Suc n)
  let ?s = "s\<lparr>ds_pos := 4 + ds_pos s\<rparr>"
  have "length (peek (ds_pos s) 4 (ds_bytes s)) = 4" using Suc.prems by simp
  then have step: "Reader_HashChunks (Suc n) (h, s) =
      Reader_HashChunks n (h @ peek (ds_pos s) 4 (ds_bytes s), ?s)"
    using Suc.prems by (simp add: Chk_ReadUint32)
  have "peek (ds_pos s) 4 (ds_bytes s) @ peek (4 + ds_pos s) (4 * n) (ds_bytes s) =
      peek (ds_pos s) (4 * Suc n) (ds_bytes s)"
    by (simp add: peek_def take_add add.commute)
  with Suc.IH [of ?s "h @ peek (ds_pos s) 4 (ds_bytes s)"] Suc.prems show ?case
    unfolding step by simp
qed simp

definition mi_last :: "StunAttribute list \<Rightarrow> bool" where
  "mi_last as \<longleftrightarrow> (let i = attr_index STUN_ATTRIBUTE_MESSAGEINTEGRITY as; n = int (length as) in
     i = n - 1 \<or> i = n - 2 \<and> attr_index STUN_ATTRIBUTE_FINGERPRINT as = n - 1)"

theorem ValidateMessageIntegrity_iff:
  assumes r: "rd_valid allow bs as r"
  shows "Reader_ValidateMessageIntegrity hmac key r = S_OK \<longleftrightarrow>
    key \<noteq> [] \<and> mi_last as \<and> (\<exists>a. last_attr STUN_ATTRIBUTE_MESSAGEINTEGRITY as = Some a \<and> sa_size a = 20 \<and>
      hmac key (mi_text bs a (attr_index STUN_ATTRIBUTE_MESSAGEINTEGRITY as = int (length as) - 2))
        = attr_data bs a)"
proof (cases "last_attr STUN_ATTRIBUTE_MESSAGEINTEGRITY as")
  case None
  then show ?thesis using rd_validD(10) [OF r, of STUN_ATTRIBUTE_MESSAGEINTEGRITY]
    by (auto simp: Reader_ValidateMessageIntegrity_def Let_def)
next
  case (Some a)
  have in_as: "a \<in> set as" "attributeType a = STUN_ATTRIBUTE_MESSAGEINTEGRITY"
    using last_attr_in [OF Some] by auto
  note b = rd_valid_attr [OF r in_as(1)]
  obtain m where m: "DS_GetDataPointerUnsafe (rd_stream r) = Some m"
    "\<And>p n. p + n \<le> length bs \<Longrightarrow> peek p n m = peek p n bs"
    by (rule rd_valid_pointer [OF r]) blast
  have idx: "rd_indexMessageIntegrity r = attr_index STUN_ATTRIBUTE_MESSAGEINTEGRITY as"
    "rd_indexFingerprint r = attr_index STUN_ATTRIBUTE_FINGERPRINT as" "rd_countAttributes r = int (length as)"
    using rd_validD(2) [OF r] by (simp_all add: rd_attrs_def)
  have i: "attr_index STUN_ATTRIBUTE_MESSAGEINTEGRITY as \<noteq> -1" "as \<noteq> []"
    using in_as by (force simp: attr_index_none)+
  let ?s = "DS_Attach (DS_GetBuffer (rd_stream r)) False CDataStream_empty"
  obtain buf where buf: "ds_buffer (rd_stream r) = Some buf" "buf_wf buf" "buf_bytes buf = bs"
    using rd_validD(4,5,7) [OF r]
    by (auto simp: ds_ok_def ds_wf_def ds_bytes_def split: option.splits)
  have s: "ds_ok ?s" "ds_bytes ?s = bs" "ds_pos ?s = 0"
    using buf by (simp_all add: DS_GetBuffer_def DS_Attach_read)
  have len: "nat ((int (unat (sa_offset a)) - 4 - 4) mod 2 ^ 64) div 4 = (unat (sa_offset a) - 8) div 4"
  proof -
    have "unat (sa_offset a) < 65536" by simp
    then have "nat ((int (unat (sa_offset a)) - 4 - 4) mod 2 ^ 64) = unat (sa_offset a) - 8"
      using b(1) by (simp del: of_nat_unat unat_less)
    then show ?thesis by simp
  qed
  let ?n = "(unat (sa_offset a) - 8) div 4" and ?s4 = "?s\<lparr>ds_pos := 4\<rparr>"
  have four: "4 * ?n = unat (sa_offset a) - 8" using b(1,2) by presburger
  have s4: "ds_ok ?s4" "ds_bytes ?s4 = bs" "ds_pos ?s4 = 4"
    using s rd_validD(7) [OF r] by simp_all
  have hash: "fst (Reader_HashChunks ?n (h, ?s4)) = S_OK"
    "fst (snd (Reader_HashChunks ?n (h, ?s4))) = h @ peek 4 (unat (sa_offset a) - 8) bs" for h
    using HashChunks_ok [OF s4(1), of ?n h] b(1,3) unfolding s4(2,3) four by auto
  have chain: "fst (ChkTo (\<lambda>_. ()) (DS_ReadUint16 ?s) (\<lambda>_ (chunk16, s).
      (let hashed = host16 chunk16
       in ChkTo (\<lambda>_. ()) (DS_ReadUint16 s) (\<lambda>_ (chunk16, s).
          (let chunk16 = (if fp then htons (ntohs chunk16 - 8) else chunk16);
               hashed = hashed @ host16 chunk16
           in ChkTo (\<lambda>_. ()) (Reader_HashChunks ?n (hashed, s)) (\<lambda>_ (hashed, s).
              (if hmac key hashed = peek (unat (sa_offset a)) 20 m then S_OK else E_FAIL, ())))))))
    = (if hmac key (mi_text bs a fp) = peek (unat (sa_offset a)) 20 m then S_OK else E_FAIL)" for fp
  proof -
    have l: "length (peek 0 2 bs) = 2" "length (peek 2 2 bs) = 2" using rd_validD(7) [OF r] by simp_all
    then show ?thesis
      using s rd_validD(7) [OF r]
      by (simp add: Chk_ReadUint16 Let_def hash case_prod_beta mi_text_def msg_len_def)
  qed
  show ?thesis
  proof (cases "sa_size a = 20")
    case True
    then have d: "attr_data bs a = peek (unat (sa_offset a)) 20 m"
      using m(2) [of "unat (sa_offset a)" 20] b(3) by (simp add: attr_data_def)
    have look: "rd_Lookup STUN_ATTRIBUTE_MESSAGEINTEGRITY r = Some a"
      using Some rd_validD(10) [OF r] by simp
    have two: "int (length as) - 1 - 1 = int (length as) - 2" by simp
    show ?thesis
      unfolding Reader_ValidateMessageIntegrity_def idx m(1) d look option.case len two
        chain [unfolded Let_def] Let_def
      using True Some rd_validD(1) [OF r] i by (auto simp: mi_last_def Let_def d)
  next
    case False
    then show ?thesis using Some rd_validD(10) [OF r, of STUN_ATTRIBUTE_MESSAGEINTEGRITY]
      by (auto simp: Reader_ValidateMessageIntegrity_def Let_def)
  qed
qed

subsection \<open>Fingerprint\<close>

theorem IsFingerprintAttributeValid_iff:
  assumes r: "rd_valid allow bs as r"
  shows "Reader_IsFingerprintAttributeValid crc32 r \<longleftrightarrow>
    (\<exists>a. last_attr STUN_ATTRIBUTE_FINGERPRINT as = Some a \<and> sa_size a = 4 \<and>
      unbe32 (attr_data bs a) = crc32 (take (length bs - 8) bs) XOR STUN_FINGERPRINT_XOR)"
proof (cases "last_attr STUN_ATTRIBUTE_FINGERPRINT as")
  case (Some a)
  have in_as: "a \<in> set as" "attributeType a = STUN_ATTRIBUTE_FINGERPRINT"
    using last_attr_in [OF Some] by auto
  obtain m where m: "DS_GetDataPointerUnsafe (rd_stream r) = Some m"
    "\<And>p n. p + n \<le> length bs \<Longrightarrow> peek p n m = peek p n bs"
    by (rule rd_valid_pointer [OF r]) blast
  have sz: "DS_GetSize (rd_stream r) = length bs"
    using rd_validD(4,5) [OF r] by (simp add: ds_ok_def DS_GetSize_bytes)
  have t: "take (length bs - 8) m = take (length bs - 8) bs"
    using m(2) [of 0 "length bs - 8"] by (simp add: peek_def)
  show ?thesis
  proof (cases "sa_size a = 4")
    case True
    then have "peek (unat (sa_offset a)) 4 m = attr_data bs a" "length (attr_data bs a) = 4"
      using m(2) [of "unat (sa_offset a)" 4] rd_valid_attr(3,4) [OF r in_as(1)]
      by (simp_all add: attr_data_def)
    then show ?thesis using True Some in_as rd_validD(1,7,10) [OF r] m(1)
      by (simp add: Reader_IsFingerprintAttributeValid_def Let_def sz t STUN_HEADER_SIZE_def)
  qed (use Some rd_validD(10) [OF r] in \<open>auto simp: Reader_IsFingerprintAttributeValid_def\<close>)
qed (use rd_validD(10) [OF r, of STUN_ATTRIBUTE_FINGERPRINT]
    in \<open>simp add: Reader_IsFingerprintAttributeValid_def\<close>)

end
