(* ===== verification/StunBuilderProps.thy ===== *)
theory StunBuilderProps
  imports StunBuilder
begin

text \<open>
  What the builder writes. Every \<^verbatim>\<open>Add\<close> operation of a builder whose cursor is at the end appends
  the encoding of its attribute, succeeds, and keeps the buffer it was given as long as the
  message fits in it; \<open>bd_appends\<close> is that contract, and it composes.
\<close>

subsection \<open>Appending\<close>

abbreviation bd_bytes :: "CStunMessageBuilder \<Rightarrow> u8 list" where
  "bd_bytes b \<equiv> ds_bytes (bd_stream b)"

abbreviation bd_end :: "CStunMessageBuilder \<Rightarrow> bool" where
  "bd_end b \<equiv> ds.at_end (bd_stream b)"

definition bd_appends :: "CStunMessageBuilder \<Rightarrow> u8 list \<Rightarrow> CStunMessageBuilder \<Rightarrow> bool" where
  "bd_appends b d b' \<longleftrightarrow> bd_end b' \<and> bd_bytes b' = bd_bytes b @ d \<and>
     bd_transactionid b' = bd_transactionid b \<and> bd_fLegacyMode b' = bd_fLegacyMode b \<and>
     (length (bd_bytes b) + length d \<le> ds_capacity (bd_stream b) \<longrightarrow>
        ds_capacity (bd_stream b') = ds_capacity (bd_stream b) \<and>
        ds_released (bd_stream b') = ds_released (bd_stream b))"

lemma bd_appends_refl: "bd_end b \<Longrightarrow> bd_appends b [] b"
  by (simp add: bd_appends_def)

lemma bd_appends_trans: "bd_appends b d b' \<Longrightarrow> bd_appends b' e b'' \<Longrightarrow> bd_appends b (d @ e) b''"
  by (auto simp: bd_appends_def)

lemma bd_appends_end: "bd_appends b d b' \<Longrightarrow> bd_end b'"
  by (simp add: bd_appends_def)

text \<open>An operation that succeeds and appends, and what it means for a chain of them.\<close>

definition appends :: "(CStunMessageBuilder \<Rightarrow> HRESULT \<times> CStunMessageBuilder) \<Rightarrow> u8 list
    \<Rightarrow> CStunMessageBuilder \<Rightarrow> bool" where
  "appends f d b \<longleftrightarrow> SUCCEEDED (fst (f b)) \<and> bd_appends b d (snd (f b))"

lemma appends_Chk:
  assumes "appends f d b" "\<And>hr b'. SUCCEEDED hr \<Longrightarrow> bd_appends b d b' \<Longrightarrow> appends (g hr) e b'"
  shows "appends (\<lambda>b. Chk (f b) (\<lambda>hr b. g hr b)) (d @ e) b"
  using assms(1) assms(2) [of "fst (f b)" "snd (f b)"] bd_appends_trans
  by (auto simp: appends_def)

lemma appends_Chk_here:
  assumes "appends f d b" "appends (g (fst (f b))) e (snd (f b))"
  shows "appends (\<lambda>b. Chk (f b) (\<lambda>hr b. g hr b)) (d @ e) b"
  using assms bd_appends_trans by (auto simp: appends_def)

lemma appends_return: "bd_end b \<Longrightarrow> SUCCEEDED hr \<Longrightarrow> appends (\<lambda>b. (hr, b)) [] b"
  by (simp add: appends_def bd_appends_refl)

lemma appends_Write: "bd_end b \<Longrightarrow> d \<noteq> [] \<Longrightarrow> appends (bd_Write d) d b"
  using ds.write_at_end [of "bd_stream b" d] DS_Write_grown [of "bd_stream b" d]
  by (auto simp: appends_def bd_appends_def on_stream_def case_prod_beta ds.at_end_def add.commute)

lemma appends_WriteUint8: "bd_end b \<Longrightarrow> appends (on_stream (DS_WriteUint8 w)) [w] b"
  using appends_Write [of b "[w]"] by (simp add: appends_def on_stream_def DS_WriteUint8_def)

lemma appends_WriteUint16: "bd_end b \<Longrightarrow> appends (on_stream (DS_WriteUint16 w)) (host16 w) b"
  using appends_Write [of b "host16 w"] by (simp add: appends_def on_stream_def DS_WriteUint16_def)

lemma appends_WriteUint32: "bd_end b \<Longrightarrow> appends (on_stream (DS_WriteUint32 w)) (host32 w) b"
  using appends_Write [of b "host32 w"] by (simp add: appends_def on_stream_def DS_WriteUint32_def)

subsection \<open>Attributes\<close>

text \<open>
  The encoding of an attribute. In legacy mode the length in the attribute header counts the
  padding.
\<close>

definition enc_attr :: "bool \<Rightarrow> u16 \<Rightarrow> u8 list \<Rightarrow> u8 list" where
  "enc_attr legacy t d =
     be16 t @ be16 (of_nat (length d + (if legacy then pad4 (length d) else 0))) @ d @
     replicate (pad4 (length d)) 0"

lemma length_enc_attr: "length (enc_attr legacy t d) = 4 + length d + pad4 (length d)"
  by (simp add: enc_attr_def)

lemma appends_AddAttributeHeader:
  "bd_end b \<Longrightarrow> appends (Builder_AddAttributeHeader t n) (be16 t @ be16 n) b"
  unfolding Builder_AddAttributeHeader_def
  by (rule appends_Chk)
    (use appends_WriteUint16 [of b "htons t"] appends_WriteUint16 [where w = "htons n"] in
      \<open>auto dest: bd_appends_end\<close>)

lemma appends_if_Write:
  "bd_end b \<Longrightarrow> SUCCEEDED hr \<Longrightarrow> (c \<longleftrightarrow> d \<noteq> []) \<Longrightarrow>
   appends (\<lambda>b. if c then bd_Write d b else (hr, b)) d b"
  using appends_Write [of b d] appends_return [of b hr] by (cases "d = []") (auto simp: appends_def)

lemma appends_AddAttribute:
  assumes b: "bd_end b" and len: "length d = unat n"
  shows "appends (Builder_AddAttribute t (Some d) n) (enc_attr (bd_fLegacyMode b) t d) b"
proof -
  let ?leg = "bd_fLegacyMode b"
  let ?h = "of_nat (unat n + (if ?leg then pad4 (unat n) else 0)) :: u16"
  have h: "(if ?leg then n + of_nat (pad4 (unat n)) else n) = ?h" by simp
  have tk: "take (unat n) d = d" using len by simp
  have nz: "0 < n \<longleftrightarrow> d \<noteq> []" using len by (cases "unat n") (auto simp: word_gt_0 unsigned_eq_0_iff)
  have "appends (\<lambda>b. Chk (Builder_AddAttributeHeader t ?h b) (\<lambda>hr b.
       Chk (if n > 0 then bd_Write d b else (hr, b)) (\<lambda>hr b.
       if pad4 (unat n) > 0 then bd_Write (replicate (pad4 (unat n)) 0) b else (hr, b))))
     ((be16 t @ be16 ?h) @ (d @ replicate (pad4 (unat n)) 0)) b"
  proof (rule appends_Chk [OF appends_AddAttributeHeader [OF b]], rule appends_Chk)
    fix hr b' assume "SUCCEEDED hr" "bd_appends b (be16 t @ be16 ?h) b'"
    then show "appends (\<lambda>b. if n > 0 then bd_Write d b else (hr, b)) d b'"
      by (intro appends_if_Write) (auto dest: bd_appends_end simp: nz)
  next
    fix hr b' hr' b'' assume "SUCCEEDED hr'" "bd_appends b' d b''"
    then show "appends (\<lambda>b. if pad4 (unat n) > 0 then bd_Write (replicate (pad4 (unat n)) 0) b
        else (hr', b)) (replicate (pad4 (unat n)) 0) b''"
      by (intro appends_if_Write) (auto dest: bd_appends_end)
  qed
  moreover have "Builder_AddAttribute t (Some d) n b = Chk (Builder_AddAttributeHeader t ?h b) (\<lambda>hr b.
       Chk (if n > 0 then bd_Write d b else (hr, b)) (\<lambda>hr b.
       if pad4 (unat n) > 0 then bd_Write (replicate (pad4 (unat n)) 0) b else (hr, b)))"
    by (simp only: Builder_AddAttribute_def Let_def option.distinct if_False option.sel tk
        pad4_def [symmetric] h)
  ultimately show ?thesis unfolding appends_def by (cases ?leg) (simp_all add: enc_attr_def len)
qed

lemma appends_cong: "f b = g b \<Longrightarrow> appends g d b \<Longrightarrow> appends f d b"
  by (simp add: appends_def)

lemma appends_AddStringAttribute:
  assumes "bd_end b" "c_str s \<noteq> []" "length (c_str s) < 65536"
  shows "appends (Builder_AddStringAttribute t s) (enc_attr (bd_fLegacyMode b) t (c_str s)) b"
  using appends_AddAttribute [OF assms(1), of "c_str s" "of_nat (length (c_str s))" t] assms(2,3)
  by (simp add: appends_def Builder_AddStringAttribute_def unat_of_nat)

lemma appends_AddResponsePort:
  "bd_end b \<Longrightarrow> appends (Builder_AddResponsePort port)
     (enc_attr (bd_fLegacyMode b) STUN_ATTRIBUTE_RESPONSE_PORT (be16 port)) b"
  using appends_AddAttribute [of b "be16 port" 2 STUN_ATTRIBUTE_RESPONSE_PORT]
  by (simp add: appends_def Builder_AddResponsePort_def)

definition change_flags :: "StunChangeRequestAttribute \<Rightarrow> u32" where
  "change_flags c = (if fChangeIP c then 4 else 0) OR (if fChangePort c then 2 else 0)"

lemma change_flags_bits:
  "change_flags c AND 4 \<noteq> 0 \<longleftrightarrow> fChangeIP c" "change_flags c AND 2 \<noteq> 0 \<longleftrightarrow> fChangePort c"
  by (simp_all add: change_flags_def)

lemma appends_AddChangeRequest:
  "bd_end b \<Longrightarrow> appends (Builder_AddChangeRequest c)
     (enc_attr (bd_fLegacyMode b) STUN_ATTRIBUTE_CHANGEREQUEST (be32 (change_flags c))) b"
  using appends_AddAttribute [of b "be32 (change_flags c)" 4 STUN_ATTRIBUTE_CHANGEREQUEST]
  by (cases "fChangeIP c"; cases "fChangePort c")
    (simp_all add: appends_def Builder_AddChangeRequest_def change_flags_def)

lemma appends_AddMappedAddressImpl:
  assumes b: "bd_end b" and wf: "sa_wf a"
  shows "appends (Builder_AddMappedAddressImpl t a)
     (enc_attr (bd_fLegacyMode b) t (addr_attr a)) b"
proof -
  let ?fam = "if sa_family a = AF_INET then STUN_ATTRIBUTE_FIELD_IPV4 else STUN_ATTRIBUTE_FIELD_IPV6"
  let ?n = "if sa_family a = AF_INET then 8 else 20 :: u16"
  have ip: "CSocketAddress_GetIP_NBO STUN_IPV6_LENGTH a = sa_ip a" "sa_ip a \<noteq> []"
    using wf GetIP_NBO_bytes [OF wf, of STUN_IPV6_LENGTH] by (auto simp: STUN_IPV6_LENGTH_def sa_wf_def sa_ip_def)
  have port: "host16 (CSocketAddress_GetPort_NBO a) = sa_port a"
    using wf by (simp add: CSocketAddress_GetPort_NBO_def sa_wf_def)
  have n: "length (addr_attr a) mod 4 = 0" "be16 (of_nat (length (addr_attr a))) = be16 ?n"
    using length_addr_attr [OF wf] by auto
  have "appends (\<lambda>b. Chk (Builder_AddAttributeHeader t ?n b) (\<lambda>_ b.
      Chk (on_stream (DS_WriteUint8 0) b) (\<lambda>_ b.
      Chk (on_stream (DS_WriteUint8 ?fam) b) (\<lambda>_ b.
      Chk (on_stream (DS_WriteUint16 (CSocketAddress_GetPort_NBO a)) b) (\<lambda>_ b. bd_Write (sa_ip a) b)))))
    ((be16 t @ be16 ?n) @ [0] @ [?fam] @ sa_port a @ sa_ip a) b"
  proof (rule appends_Chk [OF appends_AddAttributeHeader [OF b]])
    fix b1 assume "bd_appends b (be16 t @ be16 ?n) b1"
    then have b1: "bd_end b1" by (rule bd_appends_end)
    show "appends (\<lambda>b. Chk (on_stream (DS_WriteUint8 0) b) (\<lambda>_ b.
        Chk (on_stream (DS_WriteUint8 ?fam) b) (\<lambda>_ b.
        Chk (on_stream (DS_WriteUint16 (CSocketAddress_GetPort_NBO a)) b) (\<lambda>_ b. bd_Write (sa_ip a) b))))
      ([0] @ [?fam] @ sa_port a @ sa_ip a) b1"
    proof (rule appends_Chk [OF appends_WriteUint8 [OF b1]], rule appends_Chk)
      show "appends (on_stream (DS_WriteUint8 ?fam)) [?fam] b'" if "bd_appends b1 [0] b'" for b'
        using bd_appends_end [OF that] by (rule appends_WriteUint8)
    next
      fix b' b'' assume "bd_appends b' [?fam] b''"
      then have b'': "bd_end b''" by (rule bd_appends_end)
      show "appends (\<lambda>b. Chk (on_stream (DS_WriteUint16 (CSocketAddress_GetPort_NBO a)) b)
          (\<lambda>_ b. bd_Write (sa_ip a) b)) (sa_port a @ sa_ip a) b''"
        unfolding port [symmetric]
        by (rule appends_Chk [OF appends_WriteUint16 [OF b'']]) (use ip in \<open>auto intro!: appends_Write dest: bd_appends_end\<close>)
    qed
  qed
  moreover have "Builder_AddMappedAddressImpl t a b = Chk (Builder_AddAttributeHeader t ?n b) (\<lambda>_ b.
      Chk (on_stream (DS_WriteUint8 0) b) (\<lambda>_ b.
      Chk (on_stream (DS_WriteUint8 ?fam) b) (\<lambda>_ b.
      Chk (on_stream (DS_WriteUint16 (CSocketAddress_GetPort_NBO a)) b) (\<lambda>_ b. bd_Write (sa_ip a) b))))"
    by (cases "sa_family a = AF_INET")
      (simp_all add: Builder_AddMappedAddressImpl_def Let_def ip CSocketAddress_GetFamily_def
        STUN_ATTRIBUTE_FIELD_IPV4_def STUN_ATTRIBUTE_FIELD_IPV6_def
        STUN_ATTRIBUTE_MAPPEDADDRESS_SIZE_IPV4_def STUN_ATTRIBUTE_MAPPEDADDRESS_SIZE_IPV6_def)
  moreover have "enc_attr (bd_fLegacyMode b) t (addr_attr a) =
      (be16 t @ be16 ?n) @ [0] @ [?fam] @ sa_port a @ sa_ip a"
    using n by (simp add: enc_attr_def pad4_def) (simp add: addr_attr_def)
  ultimately show ?thesis by (simp add: appends_def)
qed

text \<open>The addresses of a message, and the attribute types they go under in either mode.\<close>

lemma appends_addresses:
  assumes "bd_end b" "sa_wf a"
  shows "appends (Builder_AddMappedAddress a)
      (enc_attr (bd_fLegacyMode b) STUN_ATTRIBUTE_MAPPEDADDRESS (addr_attr a)) b"
    "appends (Builder_AddXorMappedAddress a)
      (enc_attr (bd_fLegacyMode b) (if bd_fLegacyMode b then STUN_ATTRIBUTE_XORMAPPEDADDRESS_OPTIONAL
          else STUN_ATTRIBUTE_XORMAPPEDADDRESS)
        (addr_attr (CSocketAddress_ApplyStunXorMap (bd_transactionid b) a))) b"
    "appends (Builder_AddResponseOriginAddress a)
      (enc_attr (bd_fLegacyMode b) (if bd_fLegacyMode b then STUN_ATTRIBUTE_SOURCEADDRESS
          else STUN_ATTRIBUTE_RESPONSE_ORIGIN) (addr_attr a)) b"
    "appends (Builder_AddOtherAddress a)
      (enc_attr (bd_fLegacyMode b) (if bd_fLegacyMode b then STUN_ATTRIBUTE_CHANGEDADDRESS
          else STUN_ATTRIBUTE_OTHER_ADDRESS) (addr_attr a)) b"
  using appends_AddMappedAddressImpl [OF assms(1)] assms(2)
  by (simp_all add: appends_def Builder_AddMappedAddress_def Builder_AddXorMappedAddress_def
      Builder_AddResponseOriginAddress_def Builder_AddOtherAddress_def Let_def)

definition error_attr :: "u16 \<Rightarrow> u8 list \<Rightarrow> u8 list" where
  "error_attr n reason = [0, 0, of_nat (unat n div 100), of_nat (unat n mod 100)] @ reason"

lemma host16_0: "host16 0 = [0, 0]"
  by (simp add: host16_def)

lemma appends_AddErrorCode:
  assumes b: "bd_end b" and n: "300 \<le> n" "n \<le> 600" and len: "length (c_str s) < 128"
  shows "appends (Builder_AddErrorCode n s)
    (enc_attr (bd_fLegacyMode b) STUN_ATTRIBUTE_ERRORCODE (error_attr n (c_str s))) b"
proof -
  let ?l = "length (c_str s) + 4" and ?cl = "of_nat (unat n div 100) :: u8" and ?e = "of_nat (unat n mod 100) :: u8"
  let ?h = "of_nat (?l + (if bd_fLegacyMode b then pad4 ?l else 0)) :: u16"
  have "appends (\<lambda>b. Chk (Builder_AddAttributeHeader STUN_ATTRIBUTE_ERRORCODE ?h b) (\<lambda>_ b.
      Chk (on_stream (DS_WriteUint16 0) b) (\<lambda>_ b.
      Chk (on_stream (DS_WriteUint8 ?cl) b) (\<lambda>_ b.
      Chk (on_stream (DS_WriteUint8 ?e) b) (\<lambda>hr b.
        (let b = (if length (c_str s) > 0 then snd (bd_Write (c_str s) b) else b)
         in if pad4 ?l > 0 then bd_Write (replicate (pad4 ?l) 0) b else (hr, b)))))))
    ((be16 STUN_ATTRIBUTE_ERRORCODE @ be16 ?h) @ host16 0 @ [?cl] @ [?e] @ (c_str s @ replicate (pad4 ?l) 0)) b"
  proof (rule appends_Chk [OF appends_AddAttributeHeader [OF b]], rule appends_Chk)
    fix b' assume "bd_appends b (be16 STUN_ATTRIBUTE_ERRORCODE @ be16 ?h) b'"
    then show "appends (on_stream (DS_WriteUint16 0)) (host16 0) b'"
      by (intro appends_WriteUint16) (rule bd_appends_end)
  next
    fix b' b1 assume "bd_appends b' (host16 0) b1"
    then have b1: "bd_end b1" by (rule bd_appends_end)
    show "appends (\<lambda>b. Chk (on_stream (DS_WriteUint8 ?cl) b) (\<lambda>_ b.
        Chk (on_stream (DS_WriteUint8 ?e) b) (\<lambda>hr b.
        (let b = (if length (c_str s) > 0 then snd (bd_Write (c_str s) b) else b)
         in if pad4 ?l > 0 then bd_Write (replicate (pad4 ?l) 0) b else (hr, b)))))
      ([?cl] @ [?e] @ (c_str s @ replicate (pad4 ?l) 0)) b1"
    proof (rule appends_Chk [OF appends_WriteUint8 [OF b1]], rule appends_Chk)
      fix b2 assume "bd_appends b1 [?cl] b2"
      then show "appends (on_stream (DS_WriteUint8 ?e)) [?e] b2"
        by (intro appends_WriteUint8) (rule bd_appends_end)
    next
      fix b2 hr b3 assume hr: "SUCCEEDED hr" and "bd_appends b2 [?e] b3"
      then have b3: "bd_end b3" by (auto dest: bd_appends_end)
      have w: "appends (\<lambda>b. if length (c_str s) > 0 then bd_Write (c_str s) b else (hr, b)) (c_str s) b3"
        by (rule appends_if_Write [OF b3 hr]) simp
      show "appends (\<lambda>b. (let b = (if length (c_str s) > 0 then snd (bd_Write (c_str s) b) else b)
          in if pad4 ?l > 0 then bd_Write (replicate (pad4 ?l) 0) b else (hr, b)))
        (c_str s @ replicate (pad4 ?l) 0) b3"
        using appends_Chk [OF w, where g = "\<lambda>_ b. if pad4 ?l > 0 then bd_Write (replicate (pad4 ?l) 0) b else (hr, b)"
            and e = "replicate (pad4 ?l) 0"]
          appends_if_Write [of _ hr "pad4 ?l > 0" "replicate (pad4 ?l) 0"] hr bd_appends_end w
        by (cases "length (c_str s) > 0") (auto simp: appends_def Let_def)
    qed
  qed
  moreover have "Builder_AddErrorCode n s b = Chk (Builder_AddAttributeHeader STUN_ATTRIBUTE_ERRORCODE ?h b) (\<lambda>_ b.
      Chk (on_stream (DS_WriteUint16 0) b) (\<lambda>_ b.
      Chk (on_stream (DS_WriteUint8 ?cl) b) (\<lambda>_ b.
      Chk (on_stream (DS_WriteUint8 ?e) b) (\<lambda>hr b.
        (let b = (if length (c_str s) > 0 then snd (bd_Write (c_str s) b) else b)
         in if pad4 ?l > 0 then bd_Write (replicate (pad4 ?l) 0) b else (hr, b))))))"
  proof -
    have "(if ?l mod 4 \<noteq> 0 \<and> bd_fLegacyMode b then 4 - ?l mod 4 else pad4 ?l) = pad4 ?l"
      by (simp add: pad4_def)
    moreover have "(if bd_fLegacyMode b then ?l + pad4 ?l else ?l) = ?l + (if bd_fLegacyMode b then pad4 ?l else 0)"
      by simp
    moreover have "\<not> 128 \<le> length (c_str s)" "\<not> n < 300" "\<not> n > 600" using len n by auto
    ultimately show ?thesis
      by (simp only: Builder_AddErrorCode_def Let_def pad4_def [symmetric] if_False)
  qed
  moreover have "enc_attr (bd_fLegacyMode b) STUN_ATTRIBUTE_ERRORCODE (error_attr n (c_str s)) =
      (be16 STUN_ATTRIBUTE_ERRORCODE @ be16 ?h) @ host16 0 @ [?cl] @ [?e] @ (c_str s @ replicate (pad4 ?l) 0)"
  proof -
    have l: "length (error_attr n (c_str s)) = ?l" by (simp add: error_attr_def)
    show ?thesis unfolding enc_attr_def l by (simp add: error_attr_def host16_0)
  qed
  ultimately show ?thesis by (simp only: appends_def)
qed

subsection \<open>Header, length and result\<close>

definition msg_type_field :: "u16 \<Rightarrow> u16 \<Rightarrow> u16" where
  "msg_type_field t c = (((push_bit 2 (t AND 0x0f80) OR push_bit 1 (t AND 0x0070)) OR (t AND 0x000f))
     OR push_bit 7 (c AND 0x02)) OR push_bit 4 (c AND 0x01)"

lemma Builder_new_end [simp]: "bd_end Builder_new" "bd_bytes Builder_new = []" "bd_fLegacyMode Builder_new = False"
  by (simp_all add: Builder_new_def ds.at_end_def)

lemma AddHeader_ok:
  assumes b: "bd_end b"
  shows "SUCCEEDED (fst (Builder_AddHeader t c b))" "bd_end (snd (Builder_AddHeader t c b))"
    "bd_bytes (snd (Builder_AddHeader t c b)) = bd_bytes b @ be16 (msg_type_field t c) @ [0, 0]"
    "bd_fLegacyMode (snd (Builder_AddHeader t c b)) = bd_fLegacyMode b"
    "200 \<le> ds_capacity (bd_stream b) \<Longrightarrow> length (bd_bytes b) = 0 \<Longrightarrow>
      bd_appends b (be16 (msg_type_field t c) @ [0, 0]) (snd (Builder_AddHeader t c b))"
proof -
  let ?b = "snd (on_stream (DS_SetSizeHint 200) b)"
  have ok: "ds_ok (bd_stream b)" "ds_pos (bd_stream b) = length (bd_bytes b)" using b by (simp_all add: ds.at_end_def)
  have g: "SUCCEEDED (fst (on_stream (DS_SetSizeHint 200) b))" "bd_end ?b" "bd_bytes ?b = bd_bytes b"
    "bd_fLegacyMode ?b = bd_fLegacyMode b" "bd_transactionid ?b = bd_transactionid b"
    using DS_Grow_ok [OF ok(1), of 200] ok
    by (simp_all add: on_stream_def DS_SetSizeHint_def case_prod_beta ds.at_end_def)
  have same: "?b = b" if "200 \<le> ds_capacity (bd_stream b)"
    using DS_Grow_fits [OF that] by (simp add: on_stream_def DS_SetSizeHint_def)
  have w: "appends (\<lambda>b. Chk (on_stream (DS_WriteUint16 (htons (msg_type_field t c))) b) (\<lambda>_ b.
      on_stream (DS_WriteUint16 0) b)) (be16 (msg_type_field t c) @ [0, 0]) ?b"
    using appends_Chk [OF appends_WriteUint16 [OF g(2), of "htons (msg_type_field t c)"],
        of "\<lambda>_. on_stream (DS_WriteUint16 0)" "host16 0"]
    by (auto simp: host16_0 dest: bd_appends_end intro!: appends_WriteUint16 [where w = 0, unfolded host16_0])
  have eq: "Builder_AddHeader t c b = Chk (on_stream (DS_WriteUint16 (htons (msg_type_field t c))) ?b)
      (\<lambda>_ b. on_stream (DS_WriteUint16 0) b)"
    using g(1) by (simp add: Builder_AddHeader_def Let_def msg_type_field_def)
  show "SUCCEEDED (fst (Builder_AddHeader t c b))" "bd_end (snd (Builder_AddHeader t c b))"
    "bd_bytes (snd (Builder_AddHeader t c b)) = bd_bytes b @ be16 (msg_type_field t c) @ [0, 0]"
    "bd_fLegacyMode (snd (Builder_AddHeader t c b)) = bd_fLegacyMode b"
    using w g by (simp_all add: appends_def bd_appends_def eq)
  show "200 \<le> ds_capacity (bd_stream b) \<Longrightarrow> length (bd_bytes b) = 0 \<Longrightarrow>
      bd_appends b (be16 (msg_type_field t c) @ [0, 0]) (snd (Builder_AddHeader t c b))"
    using w same by (simp add: appends_def eq)
qed

lemma AddTransactionId_ok:
  assumes b: "bd_end b" and id: "length transid = 16"
  shows "SUCCEEDED (fst (Builder_AddTransactionId transid b))"
    "bd_appends (b\<lparr>bd_transactionid := transid\<rparr>) transid (snd (Builder_AddTransactionId transid b))"
  using appends_Write [of "b\<lparr>bd_transactionid := transid\<rparr>" transid] assms
  by (cases transid; auto simp: Builder_AddTransactionId_def Let_def appends_def)+

definition set_len :: "nat \<Rightarrow> u8 list \<Rightarrow> u8 list" where
  "set_len n bs = poke 2 (be16 (of_nat n)) bs"

lemma length_set_len [simp]: "4 \<le> length bs \<Longrightarrow> length (set_len n bs) = length bs"
  by (simp add: set_len_def)

lemma set_len_append: "4 \<le> length bs \<Longrightarrow> set_len n (bs @ d) = set_len n bs @ d"
  by (simp add: set_len_def poke_def)

lemma set_len_set_len [simp]: "4 \<le> length bs \<Longrightarrow> set_len n (set_len k bs) = set_len n bs"
  by (simp add: set_len_def poke_def)

lemma FixLengthField_ok:
  assumes b: "bd_end b" and len: "20 \<le> length (bd_bytes b)"
  shows "SUCCEEDED (fst (Builder_FixLengthField b))" "bd_end (snd (Builder_FixLengthField b))"
    "bd_bytes (snd (Builder_FixLengthField b)) = set_len (length (bd_bytes b) - 20) (bd_bytes b)"
    "bd_transactionid (snd (Builder_FixLengthField b)) = bd_transactionid b"
    "bd_fLegacyMode (snd (Builder_FixLengthField b)) = bd_fLegacyMode b"
    "ds_capacity (bd_stream (snd (Builder_FixLengthField b))) = ds_capacity (bd_stream b)"
    "ds_released (bd_stream (snd (Builder_FixLengthField b))) = ds_released (bd_stream b)"
proof -
  let ?s = "bd_stream b" and ?n = "length (bd_bytes b)"
  have ok: "ds_ok ?s" "ds_pos ?s = ?n" "DS_GetSize ?s = ?n"
    using b by (simp_all add: ds.at_end_def ds_ok_def DS_GetSize_bytes)
  have cap: "?n \<le> ds_capacity ?s" using ok(1) by (simp add: ds_ok_def ds_bytes_le_capacity)
  let ?s2 = "?s\<lparr>ds_pos := 2\<rparr>" and ?d = "host16 (ntohs (of_nat (?n - 20)))"
  have s2: "ds_ok ?s2" using ok len by simp
  have "length ?d + ds_pos ?s2 \<le> ds_capacity ?s2" using len cap by simp
  note w = DS_Write_grown [OF s2 byte_orders_not_Nil(1) this]
  let ?s3 = "snd (DS_Write ?d ?s2)"
  have by3: "ds_bytes ?s3 = set_len (?n - 20) (bd_bytes b)" using w(3) by (simp add: set_len_def)
  have eq: "Builder_FixLengthField b = (S_OK, b\<lparr>bd_stream := ?s3\<lparr>ds_pos := ?n\<rparr>\<rparr>)"
    using len ok w(1,2) by3 DS_SeekDirect_ok [of ?s 2] DS_SeekDirect_ok [of ?s3 ?n]
    by (simp add: Builder_FixLengthField_def STUN_HEADER_SIZE_def Let_def on_stream_def DS_GetPos_def
        DS_WriteUint16_def case_prod_beta)
  show "SUCCEEDED (fst (Builder_FixLengthField b))" "bd_end (snd (Builder_FixLengthField b))"
    "bd_bytes (snd (Builder_FixLengthField b)) = set_len (?n - 20) (bd_bytes b)"
    "bd_transactionid (snd (Builder_FixLengthField b)) = bd_transactionid b"
    "bd_fLegacyMode (snd (Builder_FixLengthField b)) = bd_fLegacyMode b"
    "ds_capacity (bd_stream (snd (Builder_FixLengthField b))) = ds_capacity ?s"
    "ds_released (bd_stream (snd (Builder_FixLengthField b))) = ds_released ?s"
    using w by3 len by (simp_all add: eq ds.at_end_def)
qed

subsection \<open>Integrity and fingerprint\<close>

text \<open>The message as it is when its digest is taken: the length already counts the attribute.\<close>

lemma AddMessageIntegrityImpl_ok:
  assumes b: "bd_end b" and len: "20 \<le> length (bd_bytes b)" and key: "key \<noteq> []"
    and hm: "\<And>k m. length (hmac k m) = 20"
  defines "body \<equiv> set_len (length (bd_bytes b) + 4) (bd_bytes b)"
  shows "SUCCEEDED (fst (Builder_AddMessageIntegrityImpl hmac key b))"
    "bd_end (snd (Builder_AddMessageIntegrityImpl hmac key b))"
    "bd_bytes (snd (Builder_AddMessageIntegrityImpl hmac key b)) =
      body @ enc_attr False STUN_ATTRIBUTE_MESSAGEINTEGRITY (hmac key body)"
    "bd_transactionid (snd (Builder_AddMessageIntegrityImpl hmac key b)) = bd_transactionid b"
    "bd_fLegacyMode (snd (Builder_AddMessageIntegrityImpl hmac key b)) = bd_fLegacyMode b"
    "length (bd_bytes b) + 24 \<le> ds_capacity (bd_stream b) \<Longrightarrow>
      ds_capacity (bd_stream (snd (Builder_AddMessageIntegrityImpl hmac key b))) = ds_capacity (bd_stream b) \<and>
      ds_released (bd_stream (snd (Builder_AddMessageIntegrityImpl hmac key b))) = ds_released (bd_stream b)"
proof -
  let ?n = "length (bd_bytes b)"
  let ?r1 = "Builder_AddAttribute STUN_ATTRIBUTE_MESSAGEINTEGRITY (Some (replicate 20 0)) 20 b"
  let ?b1 = "snd ?r1" and ?hd = "be16 STUN_ATTRIBUTE_MESSAGEINTEGRITY @ be16 20"
  have z: "enc_attr leg STUN_ATTRIBUTE_MESSAGEINTEGRITY d = ?hd @ d" if "length d = 20" for leg d
    using that by (simp add: enc_attr_def pad4_def)
  have a: "SUCCEEDED (fst ?r1)" "bd_appends b (?hd @ replicate 20 0) ?b1"
    using appends_AddAttribute [OF b, of "replicate 20 0" 20 STUN_ATTRIBUTE_MESSAGEINTEGRITY]
    by (simp_all add: appends_def z)
  then have b1: "bd_end ?b1" "bd_bytes ?b1 = bd_bytes b @ ?hd @ replicate 20 0" by (auto simp: bd_appends_def)
  let ?b2 = "snd (Builder_FixLengthField ?b1)"
  have "20 \<le> length (bd_bytes ?b1)" using len b1 by simp
  note f = FixLengthField_ok [OF b1(1) this]
  have b2: "bd_bytes ?b2 = body @ ?hd @ replicate 20 0"
    using f(3) b1(2) len by (simp add: body_def set_len_append add.commute)
  have nb: "length body = ?n" using len by (simp add: body_def)
  obtain buf m where buf: "ds_buffer (bd_stream ?b2) = Some buf" "b_data buf = Some m" "buf_wf buf"
    using f(2) b2 by (auto simp: ds.at_end_def ds_ok_def ds_wf_def buf_wf_def ds_bytes_def split: option.splits)
  have tk: "take (?n + 24) m = body @ ?hd @ replicate 20 0" "b_size buf = ?n + 24" "?n + 24 \<le> length m"
  proof -
    have sz: "length (bd_bytes ?b2) = ?n + 24" using b2 nb by simp
    have "bd_bytes ?b2 = take (b_size buf) m" using buf by (simp add: ds_bytes_def buf_bytes_def)
    moreover have "b_size buf \<le> length m" using buf by (simp add: buf_wf_def)
    ultimately show "b_size buf = ?n + 24" "take (?n + 24) m = body @ ?hd @ replicate 20 0" "?n + 24 \<le> length m"
      using sz b2 by auto
  qed
  have hash: "take ?n m = body" using arg_cong [OF tk(1), of "take ?n"] nb by simp
  let ?res = "bd_poke (?n + 4) (hmac key body) ?b2"
  have eq: "Builder_AddMessageIntegrityImpl hmac key b = (S_OK, ?res)"
    using key a(1) f(1) buf tk(2) hash
    by (simp add: Builder_AddMessageIntegrityImpl_def Let_def DS_GetDataPointerUnsafe_def DS_GetSize_def
        CBuffer_GetSize_def)
  have "take (?n + 24) (poke (?n + 4) (hmac key body) m) = poke (?n + 4) (hmac key body) (take (?n + 24) m)"
    using hm tk(3) by (simp add: poke_take_inside)
  also have "\<dots> = body @ ?hd @ hmac key body"
    using hm nb by (simp add: tk(1) poke_def)
  finally have mem: "take (?n + 24) (poke (?n + 4) (hmac key body) m) = body @ ?hd @ hmac key body" .
  have lp: "length (poke (?n + 4) (hmac key body) m) = length m" using hm tk(3) by simp
  show "SUCCEEDED (fst (Builder_AddMessageIntegrityImpl hmac key b))" by (simp add: eq)
  show "bd_bytes (snd (Builder_AddMessageIntegrityImpl hmac key b)) =
      body @ enc_attr False STUN_ATTRIBUTE_MESSAGEINTEGRITY (hmac key body)"
    using buf tk(2) mem hm by (simp add: eq bd_poke_def ds_bytes_def buf_bytes_def z)
  show "bd_end (snd (Builder_AddMessageIntegrityImpl hmac key b))"
    using f(2) buf tk(2) lp
    by (auto simp: eq bd_poke_def ds.at_end_def ds_ok_def ds_wf_def buf_wf_def ds_bytes_def buf_bytes_def)
  show "bd_transactionid (snd (Builder_AddMessageIntegrityImpl hmac key b)) = bd_transactionid b"
    "bd_fLegacyMode (snd (Builder_AddMessageIntegrityImpl hmac key b)) = bd_fLegacyMode b"
    using a(2) f by (simp_all add: eq bd_poke_def bd_appends_def)
  show "length (bd_bytes b) + 24 \<le> ds_capacity (bd_stream b) \<Longrightarrow>
      ds_capacity (bd_stream (snd (Builder_AddMessageIntegrityImpl hmac key b))) = ds_capacity (bd_stream b) \<and>
      ds_released (bd_stream (snd (Builder_AddMessageIntegrityImpl hmac key b))) = ds_released (bd_stream b)"
    using a(2) f buf by (simp add: eq bd_poke_def bd_appends_def ds_capacity_def)
qed

lemma AddFingerprintAttribute_ok:
  assumes b: "bd_end b" and len: "20 \<le> length (bd_bytes b)" and small: "length (bd_bytes b) < 2 ^ 32"
  defines "body \<equiv> set_len (length (bd_bytes b) - 12) (bd_bytes b)"
  shows "SUCCEEDED (fst (Builder_AddFingerprintAttribute crc32 b))"
    "bd_end (snd (Builder_AddFingerprintAttribute crc32 b))"
    "bd_bytes (snd (Builder_AddFingerprintAttribute crc32 b)) =
      body @ enc_attr False STUN_ATTRIBUTE_FINGERPRINT (be32 (crc32 body XOR STUN_FINGERPRINT_XOR))"
proof -
  let ?n = "length (bd_bytes b)"
  let ?hd = "be16 STUN_ATTRIBUTE_FINGERPRINT @ be16 4"
  let ?r1 = "on_stream (DS_WriteUint16 (htons STUN_ATTRIBUTE_FINGERPRINT)) b"
  let ?r2 = "on_stream (DS_WriteUint16 (htons 4)) (snd ?r1)"
  let ?r3 = "on_stream (DS_WriteUint32 0) (snd ?r2)"
  have z: "enc_attr leg STUN_ATTRIBUTE_FINGERPRINT d = ?hd @ d" if "length d = 4" for leg d
    using that by (simp add: enc_attr_def pad4_def)
  have r1: "SUCCEEDED (fst ?r1)" "bd_end (snd ?r1)" "bd_bytes (snd ?r1) = bd_bytes b @ be16 STUN_ATTRIBUTE_FINGERPRINT"
    using appends_WriteUint16 [OF b, of "htons STUN_ATTRIBUTE_FINGERPRINT"] by (auto simp: appends_def bd_appends_def)
  have r2: "SUCCEEDED (fst ?r2)" "bd_end (snd ?r2)" "bd_bytes (snd ?r2) = bd_bytes b @ ?hd"
    using appends_WriteUint16 [OF r1(2), of "htons 4"] r1(3) by (auto simp: appends_def bd_appends_def)
  have r3: "SUCCEEDED (fst ?r3)" "bd_end (snd ?r3)" "bd_bytes (snd ?r3) = bd_bytes b @ ?hd @ host32 0"
    using appends_WriteUint32 [OF r2(2), of 0] r2(3) by (auto simp: appends_def bd_appends_def)
  let ?b3 = "snd ?r3"
  let ?b4 = "snd (Builder_FixLengthField ?b3)"
  have "20 \<le> length (bd_bytes ?b3)" using len r3 by simp
  note f = FixLengthField_ok [OF r3(2) this]
  have b4: "bd_bytes ?b4 = body @ ?hd @ host32 0"
  proof -
    have "length (bd_bytes ?b3) - 20 = ?n - 12" by (simp add: r3(3))
    then show ?thesis using f(3) len unfolding r3(3) by (simp only: body_def) (rule set_len_append, simp)
  qed
  have nb: "length body = ?n" using len by (simp add: body_def)
  obtain buf m where buf: "ds_buffer (bd_stream ?b4) = Some buf" "b_data buf = Some m" "buf_wf buf"
    using f(2) b4 by (auto simp: ds.at_end_def ds_ok_def ds_wf_def buf_wf_def ds_bytes_def split: option.splits)
  have sz: "DS_GetSize (bd_stream ?b4) = ?n + 8" "ds_pos (bd_stream ?b4) = ?n + 8" "ds_ok (bd_stream ?b4)"
    using f(2) b4 nb by (simp_all add: ds.at_end_def ds_ok_def DS_GetSize_bytes)
  have "bd_bytes ?b4 = take (?n + 8) m"
    using buf sz(1) by (simp add: ds_bytes_def buf_bytes_def DS_GetSize_def CBuffer_GetSize_def)
  then have "take ?n (take (?n + 8) m) = take ?n (body @ ?hd @ host32 0)" using b4 by simp
  then have hash: "take ?n m = body" using nb by simp
  let ?v = "crc32 body XOR STUN_FINGERPRINT_XOR"
  let ?s5 = "(bd_stream ?b4)\<lparr>ds_pos := ?n + 4\<rparr>"
  have seek: "DS_SeekRelative (-4) (bd_stream ?b4) = (S_OK, ?s5)"
    using sz small b4 nb by (subst DS_SeekRelative_direct) (simp_all add: DS_SeekDirect_ok)
  have s5: "ds_ok ?s5" "ds_bytes ?s5 = body @ ?hd @ host32 0" "ds_pos ?s5 = ?n + 4" using sz b4 nb by simp_all
  note w = DS_Write_ok [OF s5(1) byte_orders_not_Nil(3), of "htonl ?v"]
  have eq: "Builder_AddFingerprintAttribute crc32 b =
      (fst (DS_Write (host32 (htonl ?v)) ?s5), ?b4\<lparr>bd_stream := snd (DS_Write (host32 (htonl ?v)) ?s5)\<rparr>)"
    using r1(1) r2(1) r3(1) f(1) buf hash sz(1) seek
    by (simp add: Builder_AddFingerprintAttribute_def Let_def DS_GetDataPointerUnsafe_def on_stream_def
        DS_WriteUint32_def case_prod_beta)
  have wb: "ds_bytes (snd (DS_Write (host32 (htonl ?v)) ?s5)) = body @ ?hd @ be32 ?v"
    using w(3) s5(2,3) nb by (simp add: poke_def)
  show "SUCCEEDED (fst (Builder_AddFingerprintAttribute crc32 b))" using w(1) by (simp add: eq)
  show "bd_bytes (snd (Builder_AddFingerprintAttribute crc32 b)) =
      body @ enc_attr False STUN_ATTRIBUTE_FINGERPRINT (be32 ?v)"
    using wb by (simp add: eq z)
  show "bd_end (snd (Builder_AddFingerprintAttribute crc32 b))"
    using w(2,4) wb nb s5(3) by (simp add: eq ds.at_end_def)
qed

text \<open>The result: the bytes with the length of the body in the header.\<close>

lemma GetResult_ok:
  assumes b: "bd_end b" and len: "20 \<le> length (bd_bytes b)"
  obtains buf where "fst (Builder_GetResult b) = (S_OK, Some buf)" "buf_wf buf"
    "buf_bytes buf = set_len (length (bd_bytes b) - 20) (bd_bytes b)"
    "ds_released (bd_stream (snd (Builder_GetResult b))) = ds_released (bd_stream b)"
    "ds_buffer (bd_stream (snd (Builder_GetResult b))) = Some buf"
    "ds_capacity (bd_stream (snd (Builder_GetResult b))) = ds_capacity (bd_stream b)"
proof -
  note f = FixLengthField_ok [OF b len]
  have "set_len (length (bd_bytes b) - 20) (bd_bytes b) \<noteq> []" using len by (auto simp: set_len_def poke_def)
  then obtain buf where buf: "ds_buffer (bd_stream (snd (Builder_FixLengthField b))) = Some buf"
    "buf_wf buf" "buf_bytes buf = set_len (length (bd_bytes b) - 20) (bd_bytes b)"
    using f(2,3) by (auto simp: ds.at_end_def ds_ok_def ds_wf_def ds_bytes_def split: option.splits)
  show ?thesis
    by (rule that [of buf])
      (use f buf in \<open>simp_all add: Builder_GetResult_def case_prod_beta DS_GetBuffer_def\<close>)
qed

lemma GetResult_short:
  assumes "ds_ok (bd_stream b)" "length (bd_bytes b) < 20"
  shows "Builder_GetResult b = ((E_UNEXPECTED, None), b)"
  using assms by (simp add: Builder_GetResult_def Builder_FixLengthField_def STUN_HEADER_SIZE_def
      ds_ok_def DS_GetSize_bytes Let_def)

subsection \<open>Padding and unknown attributes\<close>

lemma appends_PaddingLoop:
  "bd_end b \<Longrightarrow> SUCCEEDED hr \<Longrightarrow> appends (Builder_PaddingLoop n hr) (replicate n 0) b"
proof (induction n hr b rule: Builder_PaddingLoop.induct)
  case (1 n hr b)
  let ?k = "if n \<ge> PADDING_BUFFER_SIZE then PADDING_BUFFER_SIZE else n"
  show ?case
  proof (cases "n > 0")
    case False
    then show ?thesis using 1 by (auto simp: appends_def Builder_PaddingLoop.simps [of 0] bd_appends_refl)
  next
    case True
    then have w: "appends (bd_Write (replicate ?k 0)) (replicate ?k 0) b"
      using 1(2) by (intro appends_Write) (auto simp: PADDING_BUFFER_SIZE_def)
    have k: "replicate n (0 :: u8) = replicate ?k 0 @ replicate (n - ?k) 0"
      by (auto simp: replicate_add [symmetric])
    have "appends (Builder_PaddingLoop (n - ?k) (fst (bd_Write (replicate ?k 0) b)))
        (replicate (n - ?k) 0) (snd (bd_Write (replicate ?k 0) b))"
      using w by (intro 1(1) [OF True refl]) (auto simp: appends_def dest: bd_appends_end)
    then have "appends (\<lambda>b. Chk (bd_Write (replicate ?k 0) b) (\<lambda>hr b. Builder_PaddingLoop (n - ?k) hr b))
        (replicate n 0) b"
      unfolding k by (rule appends_Chk_here [OF w])
    then show ?thesis using True
      by (simp add: appends_def Builder_PaddingLoop.simps [of n] Let_def)
  qed
qed

text \<open>An odd number of unknown attributes is filled up in legacy mode only.\<close>

lemma appends_AddUnknownAttributes:
  assumes b: "bd_end b" and arr: "arr \<noteq> []" "length arr < 32768"
  defines "d \<equiv> concat (map host16 arr) @ (if bd_fLegacyMode b \<and> odd (length arr) then host16 (last arr) else [])"
  shows "appends (Builder_AddUnknownAttributes arr)
    (be16 STUN_ATTRIBUTE_UNKNOWNATTRIBUTES @ be16 (of_nat (length d)) @ d) b"
proof -
  let ?c = "concat (map host16 arr)" and ?pad = "bd_fLegacyMode b \<and> odd (length arr)"
  have lc: "length ?c = 2 * length arr" by (induction arr) auto
  have ld: "length d = 2 * length arr + (if ?pad then 2 else 0)" by (simp add: d_def lc)
  have u: "unat (of_nat (length arr * 2) :: u16) = length ?c"
    using arr lc by (simp add: unat_of_nat del: of_nat_mult)
  have ne: "?c \<noteq> []" using arr lc by auto
  let ?h = "of_nat (length d) :: u16"
  have h: "(if ?pad then of_nat (length arr * 2) + 2 else of_nat (length arr * 2)) = ?h"
    by (simp add: ld mult.commute)
  have "appends (\<lambda>b. Chk (Builder_AddAttributeHeader STUN_ATTRIBUTE_UNKNOWNATTRIBUTES ?h b) (\<lambda>_ b.
      Chk (bd_Write ?c b) (\<lambda>hr b. if ?pad then (hr, snd (bd_Write (host16 (last arr)) b)) else (hr, b))))
    ((be16 STUN_ATTRIBUTE_UNKNOWNATTRIBUTES @ be16 ?h) @ ?c @ (if ?pad then host16 (last arr) else [])) b"
  proof (rule appends_Chk [OF appends_AddAttributeHeader [OF b]], rule appends_Chk)
    fix b' assume "bd_appends b (be16 STUN_ATTRIBUTE_UNKNOWNATTRIBUTES @ be16 ?h) b'"
    then show "appends (bd_Write ?c) ?c b'" using ne by (intro appends_Write) (auto dest: bd_appends_end)
  next
    fix b' hr b'' assume "SUCCEEDED hr" "bd_appends b' ?c b''"
    then show "appends (\<lambda>b. if ?pad then (hr, snd (bd_Write (host16 (last arr)) b)) else (hr, b))
        (if ?pad then host16 (last arr) else []) b''"
      using appends_Write [of b'' "host16 (last arr)"] by (auto simp: appends_def bd_appends_refl dest: bd_appends_end)
  qed
  moreover have "Builder_AddUnknownAttributes arr b =
      Chk (Builder_AddAttributeHeader STUN_ATTRIBUTE_UNKNOWNATTRIBUTES ?h b) (\<lambda>_ b.
      Chk (bd_Write ?c b) (\<lambda>hr b. if ?pad then (hr, snd (bd_Write (host16 (last arr)) b)) else (hr, b)))"
  proof -
    have p: "(bd_fLegacyMode b \<and> length arr mod 2 \<noteq> 0) = ?pad" by (simp add: odd_iff_mod_2_eq_one)
    have l: "arr ! (length arr - 1) = last arr" using arr by (simp add: last_conv_nth)
    show ?thesis
      unfolding Builder_AddUnknownAttributes_def Let_def p h u l using arr by (simp del: of_nat_mult)
  qed
  ultimately show ?thesis by (simp add: appends_def d_def)
qed

end
