(* ===== verification/StunRoundTrip.thy ===== *)
theory StunRoundTrip
  imports StunReaderAccess StunBuilderProps
begin

text \<open>
  Builder and reader together: what the builder makes of a list of attributes is accepted by the
  reader, which finds every attribute again, and integrity and fingerprint attributes made by the
  one are accepted by the other.
\<close>

subsection \<open>Messages as attribute lists\<close>

type_synonym wire_attr = "u16 \<times> u8 list"

definition enc_attrs :: "wire_attr list \<Rightarrow> u8 list" where
  "enc_attrs as = concat (map (\<lambda>(t, d). enc_attr False t d) as)"

definition msg_bytes :: "u16 \<Rightarrow> StunTransactionId \<Rightarrow> wire_attr list \<Rightarrow> u8 list" where
  "msg_bytes field tid as = be16 field @ be16 (of_nat (length (enc_attrs as))) @ tid @ enc_attrs as"

definition wire_ok :: "wire_attr list \<Rightarrow> bool" where
  "wire_ok as \<longleftrightarrow> (\<forall>(t, d) \<in> set as. length d \<le> MAX_STUN_ATTRIBUTE_SIZE) \<and>
     length as \<le> MAX_NUM_ATTRIBUTES \<and> length (enc_attrs as) \<le> MAX_STUN_MESSAGE_SIZE"

text \<open>In legacy mode the padding is part of the value.\<close>

definition wire_value :: "bool \<Rightarrow> u8 list \<Rightarrow> u8 list" where
  "wire_value legacy d = (if legacy then d @ replicate (pad4 (length d)) 0 else d)"

lemma enc_attr_value: "enc_attr legacy t d = enc_attr False t (wire_value legacy d)"
proof -
  have "pad4 (length d + pad4 (length d)) = 0" using pad4_mod [of "length d"] by (simp add: pad4_def)
  then show ?thesis by (simp add: enc_attr_def wire_value_def)
qed

lemma wire_value_aligned [simp]: "length d mod 4 = 0 \<Longrightarrow> wire_value legacy d = d"
  by (simp add: wire_value_def pad4_def)

lemma enc_attrs_simps [simp]:
  "enc_attrs [] = []" "enc_attrs ((t, d) # as) = enc_attr False t d @ enc_attrs as"
  "enc_attrs (as @ bs) = enc_attrs as @ enc_attrs bs"
  by (simp_all add: enc_attrs_def)

lemma enc_attr_mod [simp]: "length (enc_attr False t d) mod 4 = 0"
  using pad4_mod [of "length d"] by (simp add: length_enc_attr add.assoc mod_simps)

lemma enc_attrs_mod [simp]: "length (enc_attrs as) mod 4 = 0"
proof (induction as)
  case (Cons a as)
  obtain t d where a: "a = (t, d)" by (cases a)
  show ?case using Cons enc_attr_mod [of t d] unfolding a enc_attrs_simps length_append by presburger
qed simp

subsection \<open>Parsing what was encoded\<close>

definition attr_is :: "u8 list \<Rightarrow> StunAttribute \<Rightarrow> wire_attr \<Rightarrow> bool" where
  "attr_is bs a td \<longleftrightarrow> attributeType a = fst td \<and> sa_size a = of_nat (length (snd td)) \<and>
     attr_data bs a = snd td"

fun attrs_at :: "nat \<Rightarrow> wire_attr list \<Rightarrow> StunAttribute list" where
  "attrs_at p [] = []"
| "attrs_at p ((t, d) # as) =
     \<lparr>attributeType = t, sa_size = of_nat (length d), sa_offset = of_nat (p + 4)\<rparr>
     # attrs_at (p + length (enc_attr False t d)) as"

lemma attrs_at_append: "attrs_at p (as @ bs) = attrs_at p as @ attrs_at (p + length (enc_attrs as)) bs"
  by (induction p as rule: attrs_at.induct) (simp_all add: add.assoc del: of_nat_add)

lemma length_attrs_at [simp]: "length (attrs_at p as) = length as"
  by (induction p as rule: attrs_at.induct) simp_all

lemma parse_enc_attrs:
  assumes "length (pre @ enc_attrs as) < 2 ^ 16" "\<forall>(t, d) \<in> set as. length d \<le> MAX_STUN_ATTRIBUTE_SIZE"
  shows "parse_attrs (pre @ enc_attrs as) (length pre) = Some (attrs_at (length pre) as) \<and>
    list_all2 (attr_is (pre @ enc_attrs as)) (attrs_at (length pre) as) as"
  using assms
proof (induction as arbitrary: pre)
  case (Cons td as)
  obtain t d where td: "td = (t, d)" by (cases td)
  let ?bs = "pre @ enc_attrs (td # as)" and ?n = "length d"
  have n: "?n \<le> 780" using Cons.prems(2) td by (auto simp: MAX_STUN_ATTRIBUTE_SIZE_def)
  have bs: "?bs = pre @ be16 t @ be16 (of_nat ?n) @ d @ replicate (pad4 ?n) 0 @ enc_attrs as"
    by (simp add: td enc_attr_def)
  have len: "length pre + 4 + ?n + pad4 ?n \<le> length ?bs" by (simp add: bs)
  have u: "unat (of_nat ?n :: u16) = ?n" "unat (of_nat (length pre + 4) :: u16) = length pre + 4"
    using n len Cons.prems(1) by (simp_all add: unat_of_nat del: of_nat_add)
  let ?a = "attr_at ?bs (length pre)"
  have pk: "peek (length pre) 2 ?bs = be16 t" "peek (length pre + 2) 2 ?bs = be16 (of_nat ?n)"
    "peek (length pre + 4) ?n ?bs = d"
    unfolding bs by (simp_all add: peek_def)
  have a: "?a = \<lparr>attributeType = t, sa_size = of_nat ?n, sa_offset = of_nat (length pre + 4)\<rparr>"
    unfolding attr_at_def pk by simp
  have span: "attr_span ?a = 4 + ?n + pad4 ?n" by (simp add: a attr_span_def u)
  have fits: "attr_fits ?bs (length pre)"
    using n len by (simp add: attr_fits_def span) (simp add: a u MAX_STUN_ATTRIBUTE_SIZE_def)
  let ?pre = "pre @ enc_attr False t d"
  have pre: "?pre @ enc_attrs as = ?bs" "length ?pre = length pre + attr_span ?a"
    unfolding span by (simp_all add: td length_enc_attr)
  let ?ps = "attrs_at (length ?pre) as"
  have ps: "parse_attrs ?bs (length pre + attr_span ?a) = Some ?ps" "list_all2 (attr_is ?bs) ?ps as"
    using Cons.IH [of ?pre] Cons.prems unfolding pre by auto
  have "parse_attrs ?bs (length pre) = Some (?a # ?ps)"
  proof -
    have "\<not> length ?bs \<le> length pre" using len by linarith
    then show ?thesis using fits ps(1) by (subst parse_attrs.simps) simp
  qed
  moreover have "attr_is ?bs ?a (t, d)"
    using pk(3) unfolding attr_is_def attr_data_def a by (simp add: u del: of_nat_add)
  then have "attr_is ?bs ?a td" by (simp only: td)
  moreover have "attrs_at (length pre) ((t, d) # as) = ?a # ?ps" unfolding attrs_at.simps a by simp
  then have "attrs_at (length pre) (td # as) = ?a # ?ps" by (simp only: td)
  ultimately show ?case using ps(2) by simp
qed (simp add: parse_attrs.simps)

lemma attr_is_last:
  assumes "list_all2 (attr_is bs) ps as"
  shows "case find (\<lambda>td. fst td = t) (rev as) of None \<Rightarrow> last_attr t ps = None
    | Some td \<Rightarrow> \<exists>a. last_attr t ps = Some a \<and> attr_is bs a td"
proof -
  have "list_all2 (attr_is bs) (rev ps) (rev as)" using assms by simp
  then show ?thesis unfolding last_attr_def
    by (induction rule: list_all2_induct) (auto simp: attr_is_def split: option.splits)
qed

lemma msg_bytes_view:
  assumes "length tid = 16"
  shows "msg_field (msg_bytes field tid as) = field"
    "msg_len (msg_bytes field tid as) = of_nat (length (enc_attrs as))"
    "msg_id (msg_bytes field tid as) = tid" "msg_cookie (msg_bytes field tid as) = unbe32 (take 4 tid)"
    "length (msg_bytes field tid as) = 20 + length (enc_attrs as)"
  using assms by (simp_all add: msg_bytes_def msg_field_def msg_len_def msg_id_def msg_cookie_def peek_def)

text \<open>A well-formed message is validated, with the attributes it was made of.\<close>

lemma verdict_msg_bytes:
  assumes tid: "length tid = 16" and ok: "wire_ok as" and field: "field AND 0xc000 = 0"
    and cookie: "allow \<or> unbe32 (take 4 tid) = STUN_COOKIE"
  shows "verdict allow (msg_bytes field tid as) = BodyValidated"
    "body_attrs (msg_bytes field tid as) = Some (attrs_at 20 as)"
    "list_all2 (attr_is (msg_bytes field tid as)) (attrs_at 20 as) as"
proof -
  let ?m = "msg_bytes field tid as" and ?n = "length (enc_attrs as)"
  note v = msg_bytes_view [OF tid, of field as]
  have n: "?n \<le> 800" "length as \<le> MAX_NUM_ATTRIBUTES" using ok by (simp_all add: wire_ok_def MAX_STUN_MESSAGE_SIZE_def)
  have un: "unat (of_nat ?n :: u16) = ?n" using n(1) by (simp add: unat_of_nat)
  have "of_nat ?n mod (4 :: u16) = 0"
  proof -
    have "unat (of_nat ?n mod (4 :: u16)) = 0" by (simp add: unat_mod_distrib un)
    then show ?thesis by (simp add: unsigned_eq_0_iff)
  qed
  then have ho: "header_ok allow ?m"
    using field cookie n(1) v by (simp add: header_ok_def un MAX_STUN_MESSAGE_SIZE_def)
  let ?pre = "be16 field @ be16 (of_nat ?n) @ tid"
  have pre: "?m = ?pre @ enc_attrs as" "length ?pre = 20" using tid by (simp_all add: msg_bytes_def)
  have small: "length (?pre @ enc_attrs as) < 2 ^ 16" using n(1) tid by simp
  have "\<forall>(t, d) \<in> set as. length d \<le> MAX_STUN_ATTRIBUTE_SIZE" using ok by (simp add: wire_ok_def)
  from parse_enc_attrs [OF small this]
  have ps: "parse_attrs ?m 20 = Some (attrs_at 20 as)" "list_all2 (attr_is ?m) (attrs_at 20 as) as"
    unfolding pre by auto
  then show b: "body_attrs ?m = Some (attrs_at 20 as)" using n(2) by (simp add: body_attrs_def STUN_HEADER_SIZE_def)
  show "list_all2 (attr_is ?m) (attrs_at 20 as) as" by (rule ps)
  show "verdict allow ?m = BodyValidated" using v un ho b by (simp add: verdict_def STUN_HEADER_SIZE_def)
qed

text \<open>The message type and class survive the split into the bits of the header field.\<close>

lemma field_masks:
  "(0x0f80 :: u16) = push_bit 7 (mask 5)" "(0x0070 :: u16) = push_bit 4 (mask 3)"
  "(0x000f :: u16) = mask 4" "(0x00e0 :: u16) = push_bit 5 (mask 3)"
  "(0x3e00 :: u16) = push_bit 9 (mask 5)" "(0xc000 :: u16) = push_bit 14 (mask 2)"
  "(0x02 :: u16) = push_bit 1 (mask 1)" "(0x01 :: u16) = mask 1"
  by (simp_all add: mask_eq_exp_minus_1)

lemma field_bits:
  assumes "n < 16"
  shows "bit (msg_type_field t c) n \<longleftrightarrow>
    (if n < 4 then bit t n else if n = 4 then bit c 0 else if n < 8 then bit t (n - 1)
     else if n = 8 then bit c 1 else if n < 14 then bit t (n - 2) else False)"
  unfolding msg_type_field_def field_masks using assms by (simp only: bit_simps) auto

lemma type_bits:
  assumes "n < 16"
  shows "bit (type_of_field w) n \<longleftrightarrow>
    (if n < 4 then bit w n else if n < 7 then bit w (n + 1) else if n < 12 then bit w (n + 2) else False)"
  unfolding type_of_field_def field_masks using assms by (simp only: bit_simps o_apply) auto

lemma field_roundtrip:
  "type_of_field (msg_type_field t c) = t AND 0x0fff"
  "c < 4 \<Longrightarrow> class_of_field (msg_type_field t c) = c"
  "msg_type_field t c AND 0xc000 = 0"
proof -
  have m: "(0x0fff :: u16) = mask 12" by (simp add: mask_eq_exp_minus_1)
  show "type_of_field (msg_type_field t c) = t AND 0x0fff"
    unfolding m by (rule bit_word_eqI) (auto simp: type_bits field_bits bit_and_iff bit_mask_iff)
  show "msg_type_field t c AND 0xc000 = 0"
    unfolding field_masks by (rule bit_word_eqI) (auto simp: field_bits bit_simps)
  show "class_of_field (msg_type_field t c) = c" if "c < 4"
  proof -
    have "unat c < 4" using that by (simp add: word_less_nat_alt)
    then have "unat c = 0 \<or> unat c = 1 \<or> unat c = 2 \<or> unat c = 3" by auto
    then have "c = 0 \<or> c = 1 \<or> c = 2 \<or> c = 3" by (auto simp: word_unat_eq_iff)
    then show ?thesis by (auto simp: class_of_field_bits field_bits)
  qed
qed

subsection \<open>The builder's message\<close>

definition bd_msg :: "u16 \<Rightarrow> StunTransactionId \<Rightarrow> wire_attr list \<Rightarrow> CStunMessageBuilder \<Rightarrow> bool" where
  "bd_msg field tid as b \<longleftrightarrow> bd_end b \<and> length tid = 16 \<and> bd_transactionid b = tid \<and>
     (\<exists>l. bd_bytes b = be16 field @ be16 l @ tid @ enc_attrs as)"

lemma bd_msg_length: "bd_msg field tid as b \<Longrightarrow> length (bd_bytes b) = 20 + length (enc_attrs as)"
  by (auto simp: bd_msg_def)

lemma bd_msg_start:
  assumes "bd_end b" "bd_bytes b = []" "length tid = 16"
  shows "bd_msg (msg_type_field t c) tid [] (snd (Builder_AddTransactionId tid (snd (Builder_AddHeader t c b))))"
proof -
  note h = AddHeader_ok [OF assms(1), of t c]
  note i = AddTransactionId_ok [OF h(2) assms(3)]
  have "\<exists>l. bd_bytes (snd (Builder_AddTransactionId tid (snd (Builder_AddHeader t c b)))) =
      be16 (msg_type_field t c) @ be16 l @ tid"
    using i(2) h(3) assms(2) by (intro exI [of _ 0]) (simp add: bd_appends_def be16_def)
  with i(2) assms(3) show ?thesis by (simp add: bd_msg_def bd_appends_def)
qed

lemma bd_msg_append:
  assumes "bd_msg field tid as b" "appends f (enc_attr legacy t d) b"
  shows "bd_msg field tid (as @ [(t, wire_value legacy d)]) (snd (f b))"
  using assms enc_attr_value [of legacy t d] by (auto simp: bd_msg_def appends_def bd_appends_def)

lemma bd_msg_set_len:
  assumes "bd_msg field tid as b"
  shows "set_len n (bd_bytes b) = be16 field @ be16 (of_nat n) @ tid @ enc_attrs as"
  using assms by (auto simp: bd_msg_def set_len_def poke_def)

lemma bd_msg_result:
  assumes m: "bd_msg field tid as b"
  obtains buf where "fst (Builder_GetResult b) = (S_OK, Some buf)" "buf_wf buf"
    "buf_bytes buf = msg_bytes field tid as"
    "ds_released (bd_stream (snd (Builder_GetResult b))) = ds_released (bd_stream b)"
    "ds_buffer (bd_stream (snd (Builder_GetResult b))) = Some buf"
    "ds_capacity (bd_stream (snd (Builder_GetResult b))) = ds_capacity (bd_stream b)"
proof -
  have "bd_end b" "20 \<le> length (bd_bytes b)" using m bd_msg_length [OF m] by (simp_all add: bd_msg_def)
  from GetResult_ok [OF this] bd_msg_set_len [OF m] bd_msg_length [OF m] that show ?thesis
    by (metis add_diff_cancel_left' msg_bytes_def)
qed

text \<open>The text a message with the attributes \<open>as\<close> and \<open>n\<close> more bytes to come is digested as.\<close>

definition digest_text :: "u16 \<Rightarrow> StunTransactionId \<Rightarrow> wire_attr list \<Rightarrow> nat \<Rightarrow> u8 list" where
  "digest_text field tid as n = be16 field @ be16 (of_nat (length (enc_attrs as) + n)) @ tid @ enc_attrs as"

lemma bd_msg_integrity:
  assumes m: "bd_msg field tid as b" and key: "key \<noteq> []" and hm: "\<And>k m. length (hmac k m) = 20"
  shows "SUCCEEDED (fst (Builder_AddMessageIntegrityImpl hmac key b))"
    "bd_msg field tid (as @ [(STUN_ATTRIBUTE_MESSAGEINTEGRITY, hmac key (digest_text field tid as 24))])
       (snd (Builder_AddMessageIntegrityImpl hmac key b))"
proof -
  have b: "bd_end b" "20 \<le> length (bd_bytes b)" using m bd_msg_length [OF m] by (simp_all add: bd_msg_def)
  note mi = AddMessageIntegrityImpl_ok [OF b key hm]
  have body: "set_len (length (bd_bytes b) + 4) (bd_bytes b) = digest_text field tid as 24"
    unfolding bd_msg_set_len [OF m] bd_msg_length [OF m] digest_text_def by (simp add: add.commute)
  show "SUCCEEDED (fst (Builder_AddMessageIntegrityImpl hmac key b))" by (rule mi)
  have "\<exists>l. bd_bytes (snd (Builder_AddMessageIntegrityImpl hmac key b)) = be16 field @ be16 l @ tid @
      enc_attrs (as @ [(STUN_ATTRIBUTE_MESSAGEINTEGRITY, hmac key (digest_text field tid as 24))])"
    unfolding mi(3) body by (intro exI [of _ "of_nat (length (enc_attrs as) + 24)"]) (simp add: digest_text_def)
  then show "bd_msg field tid (as @ [(STUN_ATTRIBUTE_MESSAGEINTEGRITY, hmac key (digest_text field tid as 24))])
       (snd (Builder_AddMessageIntegrityImpl hmac key b))"
    using m mi(2,4) unfolding bd_msg_def by simp
qed

lemma bd_msg_fingerprint:
  assumes m: "bd_msg field tid as b" and small: "length (enc_attrs as) < 65536"
  shows "SUCCEEDED (fst (Builder_AddFingerprintAttribute crc32 b))"
    "bd_end (snd (Builder_AddFingerprintAttribute crc32 b)) \<and>
     (\<exists>l. bd_bytes (snd (Builder_AddFingerprintAttribute crc32 b)) = be16 field @ be16 l @ tid @
       enc_attrs (as @ [(STUN_ATTRIBUTE_FINGERPRINT,
         be32 (crc32 (digest_text field tid as 8) XOR STUN_FINGERPRINT_XOR))]))"
proof -
  have b: "bd_end b" "20 \<le> length (bd_bytes b)" "length (bd_bytes b) < 2 ^ 32"
    using m bd_msg_length [OF m] small by (simp_all add: bd_msg_def)
  note fp = AddFingerprintAttribute_ok [OF b, of crc32]
  have n: "length (bd_bytes b) - 12 = length (enc_attrs as) + 8" using bd_msg_length [OF m] by simp
  have body: "set_len (length (bd_bytes b) - 12) (bd_bytes b) = digest_text field tid as 8"
    unfolding bd_msg_set_len [OF m] n digest_text_def by simp
  show "SUCCEEDED (fst (Builder_AddFingerprintAttribute crc32 b))" by (rule fp)
  show "bd_end (snd (Builder_AddFingerprintAttribute crc32 b)) \<and>
     (\<exists>l. bd_bytes (snd (Builder_AddFingerprintAttribute crc32 b)) = be16 field @ be16 l @ tid @
       enc_attrs (as @ [(STUN_ATTRIBUTE_FINGERPRINT,
         be32 (crc32 (digest_text field tid as 8) XOR STUN_FINGERPRINT_XOR))]))"
    using fp(2) unfolding fp(3) body
    by (auto simp: digest_text_def intro!: exI [of _ "of_nat (length (enc_attrs as) + 8)"])
qed

subsection \<open>The reader on the builder's message\<close>

text \<open>The value the reader finds for a type: the last one of the list.\<close>

definition wire_last :: "u16 \<Rightarrow> wire_attr list \<Rightarrow> u8 list option" where
  "wire_last t as = map_option snd (find (\<lambda>td. fst td = t) (rev as))"

lemma wire_last_simps [simp]:
  "wire_last t [] = None"
  "wire_last t (as @ [(t', d)]) = (if t' = t then Some d else wire_last t as)"
  by (simp_all add: wire_last_def)

lemma wire_last_in: "wire_last t as = Some d \<Longrightarrow> (t, d) \<in> set as"
  by (auto simp: wire_last_def dest!: find_SomeD)

lemma read_msg:
  assumes inv: "rd_inv allow [] r" and tid: "length tid = 16" and ok: "wire_ok as"
    and field: "field AND 0xc000 = 0" and cookie: "allow \<or> unbe32 (take 4 tid) = STUN_COOKIE"
  shows "fst (Reader_AddBytes (msg_bytes field tid as) r) = BodyValidated"
    "rd_valid allow (msg_bytes field tid as) (attrs_at 20 as) (snd (Reader_AddBytes (msg_bytes field tid as) r))"
  using AddBytes_inv [OF inv, of "msg_bytes field tid as"] verdict_msg_bytes [OF tid ok field cookie]
  by (simp_all add: rd_valid_def)

lemma read_wire_last:
  assumes all: "list_all2 (attr_is bs) ps as" and small: "\<forall>(t, d) \<in> set as. length d \<le> MAX_STUN_ATTRIBUTE_SIZE"
  shows "case wire_last t as of None \<Rightarrow> last_attr t ps = None
    | Some d \<Rightarrow> \<exists>a. last_attr t ps = Some a \<and> attr_data bs a = d \<and> unat (sa_size a) = length d \<and>
        sa_size a = of_nat (length d) \<and> length d \<le> MAX_STUN_ATTRIBUTE_SIZE"
proof (cases "find (\<lambda>td. fst td = t) (rev as)")
  case (Some td)
  then have "td \<in> set as" by (auto dest!: find_SomeD)
  then have "length (snd td) \<le> 780" using small by (auto simp: MAX_STUN_ATTRIBUTE_SIZE_def)
  then show ?thesis using attr_is_last [OF all, of t] Some
    by (auto simp: wire_last_def attr_is_def unat_of_nat MAX_STUN_ATTRIBUTE_SIZE_def)
qed (use attr_is_last [OF all, of t] in \<open>auto simp: wire_last_def\<close>)

text \<open>A reader that has validated such a message, in terms of the list.\<close>

definition rd_msg :: "bool \<Rightarrow> u16 \<Rightarrow> StunTransactionId \<Rightarrow> wire_attr list \<Rightarrow> CStunMessageReader \<Rightarrow> bool" where
  "rd_msg allow field tid as r \<longleftrightarrow> length tid = 16 \<and> wire_ok as \<and>
     rd_valid allow (msg_bytes field tid as) (attrs_at 20 as) r \<and>
     list_all2 (attr_is (msg_bytes field tid as)) (attrs_at 20 as) as"

lemma read_rd_msg:
  assumes "rd_inv allow [] r" "length tid = 16" "wire_ok as" "field AND 0xc000 = 0"
    "allow \<or> unbe32 (take 4 tid) = STUN_COOKIE"
  shows "rd_msg allow field tid as (snd (Reader_AddBytes (msg_bytes field tid as) r))"
  using read_msg [OF assms] verdict_msg_bytes(3) [OF assms(2-5)] assms(2,3) by (simp add: rd_msg_def)

lemma rd_msg_last:
  assumes "rd_msg allow field tid as r"
  shows "case wire_last t as of None \<Rightarrow> last_attr t (attrs_at 20 as) = None
    | Some d \<Rightarrow> \<exists>a. last_attr t (attrs_at 20 as) = Some a \<and> attr_data (msg_bytes field tid as) a = d \<and>
        unat (sa_size a) = length d \<and> sa_size a = of_nat (length d) \<and> length d \<le> MAX_STUN_ATTRIBUTE_SIZE"
  using assms by (intro read_wire_last) (auto simp: rd_msg_def wire_ok_def)

lemma rd_msg_head:
  assumes "rd_msg allow field tid as r"
  shows "Reader_GetTransactionId r = tid" "Reader_GetMessageClass r = class_of_field field"
    "Reader_GetMessageType r = type_of_field field"
    "Reader_IsMessageLegacyFormat r \<longleftrightarrow> unbe32 (take 4 tid) \<noteq> STUN_COOKIE"
  using assms rd_head_fields [OF rd_validD(3), of allow "msg_bytes field tid as" "attrs_at 20 as" r]
    msg_bytes_view [of tid field as]
  by (simp_all add: rd_msg_def Reader_GetTransactionId_def Reader_GetMessageClass_def
      Reader_GetMessageType_def Reader_IsMessageLegacyFormat_def)

lemma rd_msg_lookup:
  assumes r: "rd_msg allow field tid as r"
  shows "rd_Lookup t r = None \<longleftrightarrow> wire_last t as = None"
  using rd_msg_last [OF r, of t] rd_validD(10) r by (auto simp: rd_msg_def split: option.splits)

lemma rd_msg_string:
  assumes r: "rd_msg allow field tid as r"
  shows "Reader_GetStringAttributeByType t dst r = (case wire_last t as of None \<Rightarrow> (E_INVALIDARG, dst)
    | Some d \<Rightarrow> if length d < length dst then (S_OK, poke 0 (d @ [0]) dst) else (E_INVALIDARG, dst))"
  using rd_msg_last [OF r, of t] r
  by (auto simp: rd_msg_def GetStringAttribute_valid split: option.splits)

lemma rd_msg_address:
  assumes r: "rd_msg allow field tid as r"
  shows "Reader_GetAddressHelper t p r = (case wire_last t as of None \<Rightarrow> (E_FAIL, p)
    | Some d \<Rightarrow> GetMappedAddress d (length d) p)"
  using rd_msg_last [OF r, of t] r
  by (auto simp: rd_msg_def GetAddressHelper_valid split: option.splits)

text \<open>The integrity attribute the builder appends is the one the reader computes.\<close>

lemma mi_text_builder:
  assumes "length tid = 16" "length (enc_attrs as) + 24 + (if fp then 8 else 0) = length (enc_attrs all)"
    "all = as @ rest" "length (enc_attrs all) \<le> 800"
  shows "mi_text (msg_bytes field tid all)
      \<lparr>attributeType = t, sa_size = n, sa_offset = of_nat (20 + length (enc_attrs as) + 4)\<rparr> fp
    = digest_text field tid as 24"
proof -
  let ?m = "length (enc_attrs as)"
  have off: "unat (of_nat (20 + ?m + 4) :: u16) - 8 = 16 + ?m"
    using assms(2,4) by (simp add: unat_of_nat del: of_nat_add)
  have len: "(if fp then of_nat (length (enc_attrs all)) - 8 else of_nat (length (enc_attrs all))) = (of_nat (?m + 24) :: u16)"
    unfolding assms(2) [symmetric] by simp
  have v: "peek 0 2 (msg_bytes field tid all) = be16 field"
    "peek 4 (16 + ?m) (msg_bytes field tid all) = tid @ enc_attrs as"
    using assms(1,3) by (simp_all add: msg_bytes_def peek_def)
  have "mi_text (msg_bytes field tid all)
      \<lparr>attributeType = t, sa_size = n, sa_offset = of_nat (20 + ?m + 4)\<rparr> fp
    = be16 field @ be16 (of_nat (?m + 24)) @ tid @ enc_attrs as"
    unfolding mi_text_def msg_bytes_view(2) [OF assms(1)] len StunAttribute.select_convs off v ..
  then show ?thesis by (simp only: digest_text_def)
qed

lemma integrity_types [simp]:
  "STUN_ATTRIBUTE_MESSAGEINTEGRITY \<noteq> STUN_ATTRIBUTE_FINGERPRINT"
  "STUN_ATTRIBUTE_FINGERPRINT \<noteq> STUN_ATTRIBUTE_MESSAGEINTEGRITY"
  by (simp_all add: stun_attribute_defs)

theorem rd_msg_integrity:
  assumes r: "rd_msg allow field tid (as @ (STUN_ATTRIBUTE_MESSAGEINTEGRITY, mac) # fp) r"
    and mac: "length mac = 20"
    and fp: "fp = [] \<or> (\<exists>d. fp = [(STUN_ATTRIBUTE_FINGERPRINT, d)] \<and> length d = 4)"
  shows "Reader_ValidateMessageIntegrity hmac key r = S_OK \<longleftrightarrow>
    key \<noteq> [] \<and> mac = hmac key (digest_text field tid as 24)"
proof -
  let ?all = "as @ (STUN_ATTRIBUTE_MESSAGEINTEGRITY, mac) # fp"
  let ?a = "\<lparr>attributeType = STUN_ATTRIBUTE_MESSAGEINTEGRITY, sa_size = 20,
      sa_offset = of_nat (20 + length (enc_attrs as) + 4)\<rparr>"
  let ?ps = "attrs_at 20 ?all" and ?m = "msg_bytes field tid ?all"
  have R: "length tid = 16" "wire_ok ?all" "rd_valid allow ?m ?ps r" "list_all2 (attr_is ?m) ?ps ?all"
    using r by (simp_all add: rd_msg_def)
  have ps: "?ps = (attrs_at 20 as @ [?a]) @ map (\<lambda>(t, d). \<lparr>attributeType = t, sa_size = of_nat (length d),
      sa_offset = of_nat (20 + length (enc_attrs as) + 28)\<rparr>) fp"
    using fp mac by (auto simp: attrs_at_append length_enc_attr pad4_def simp del: of_nat_add)
  have last: "last_attr STUN_ATTRIBUTE_MESSAGEINTEGRITY ?ps = Some ?a"
    unfolding ps last_attr_def using fp by auto
  have "attr_data ?m ?a = mac" using rd_msg_last [OF r, of STUN_ATTRIBUTE_MESSAGEINTEGRITY] fp last
    by (auto simp: wire_last_def)
  have idx: "attr_index STUN_ATTRIBUTE_MESSAGEINTEGRITY ?ps = int (length as)"
    "fp \<noteq> [] \<Longrightarrow> attr_index STUN_ATTRIBUTE_FINGERPRINT ?ps = int (length as) + 1"
    unfolding ps using fp by (auto simp flip: append_assoc)
  have len: "length ?ps = length as + (if fp = [] then 1 else 2)" using fp by auto
  have "mi_last ?ps" using fp idx len by (auto simp: mi_last_def Let_def)
  have b: "(attr_index STUN_ATTRIBUTE_MESSAGEINTEGRITY ?ps = int (length ?ps) - 2) = (fp \<noteq> [])"
    unfolding idx len by simp
  have "length (enc_attrs as) + 24 + (if fp \<noteq> [] then 8 else 0) = length (enc_attrs ?all)"
    using fp mac by (auto simp: length_enc_attr pad4_def)
  moreover have "length (enc_attrs ?all) \<le> 800" using R(2) by (simp add: wire_ok_def MAX_STUN_MESSAGE_SIZE_def)
  ultimately have "mi_text ?m ?a (fp \<noteq> []) = digest_text field tid as 24"
    by (intro mi_text_builder [OF R(1) _ refl])
  with \<open>attr_data ?m ?a = mac\<close> \<open>mi_last ?ps\<close> last show ?thesis
    unfolding ValidateMessageIntegrity_iff [OF R(3)] b by auto
qed

theorem rd_msg_fingerprint:
  assumes r: "rd_msg allow field tid (as @ [(STUN_ATTRIBUTE_FINGERPRINT, d)]) r" and d: "length d = 4"
  shows "Reader_IsFingerprintAttributeValid crc32 r \<longleftrightarrow>
    d = be32 (crc32 (digest_text field tid as 8) XOR STUN_FINGERPRINT_XOR)"
proof -
  let ?all = "as @ [(STUN_ATTRIBUTE_FINGERPRINT, d)]" and ?m = "msg_bytes field tid (as @ [(STUN_ATTRIBUTE_FINGERPRINT, d)])"
  have R: "length tid = 16" "rd_valid allow ?m (attrs_at 20 ?all) r" using r by (simp_all add: rd_msg_def)
  obtain a where a: "last_attr STUN_ATTRIBUTE_FINGERPRINT (attrs_at 20 ?all) = Some a" "attr_data ?m a = d"
    "sa_size a = 4"
    using rd_msg_last [OF r, of STUN_ATTRIBUTE_FINGERPRINT] d by auto
  have "take (length ?m - 8) ?m = digest_text field tid as 8"
    using R(1) d by (simp add: msg_bytes_def digest_text_def enc_attr_def pad4_def)
  moreover have "unbe32 d = v \<longleftrightarrow> d = be32 v" for v
    using d unbe_inj(2) [of d "be32 v"] by simp
  ultimately show ?thesis using a by (simp add: IsFingerprintAttributeValid_iff [OF R(2)])
qed

end
