(* ===== verification/MessageHandlerProps.thy ===== *)
theory MessageHandlerProps
  imports MessageHandler StunRoundTrip
begin

text \<open>
  What the request handler answers. The answer is described as a list of attributes; a builder in
  the middle of writing one is related to the list by \<open>bd_reply\<close>, which also says that the caller's
  buffer is still the one being written.
\<close>

subsection \<open>Writing an answer into the caller's buffer\<close>

definition bd_reply :: "bool \<Rightarrow> nat \<Rightarrow> u16 \<Rightarrow> StunTransactionId \<Rightarrow> wire_attr list \<Rightarrow> CStunMessageBuilder \<Rightarrow> bool" where
  "bd_reply legacy cap field tid as b \<longleftrightarrow> bd_msg field tid as b \<and> bd_fLegacyMode b = legacy \<and>
     ds_capacity (bd_stream b) = cap \<and> ds_released (bd_stream b) = []"

lemma bd_reply_start:
  fixes legacy :: bool and s :: CDataStream
  assumes buf: "buf_wf buf" "200 \<le> b_allocated buf" and tid: "length tid = 16"
  defines "b \<equiv> Builder_SetLegacyMode legacy (Builder_new\<lparr>bd_stream := DS_Attach (Some buf) True s\<rparr>)"
  shows "bd_reply legacy (b_allocated buf) (msg_type_field t c) tid []
    (snd (Builder_AddTransactionId tid (snd (Builder_AddHeader t c b))))"
proof -
  have b: "bd_end b" "bd_bytes b = []" "bd_fLegacyMode b = legacy" "ds_capacity (bd_stream b) = b_allocated buf"
    "ds_released (bd_stream b) = []"
    using DS_Attach_write [of buf s] buf(1) by (simp_all add: b_def Builder_SetLegacyMode_def ds.at_end_def)
  let ?h = "snd (Builder_AddHeader t c b)"
  have h: "bd_appends b (be16 (msg_type_field t c) @ [0, 0]) ?h"
    using AddHeader_ok(5) [OF b(1), of t c] buf(2) b by simp
  have h': "bd_end ?h" "bd_bytes ?h = be16 (msg_type_field t c) @ [0, 0]" "bd_fLegacyMode ?h = legacy"
    "ds_capacity (bd_stream ?h) = b_allocated buf" "ds_released (bd_stream ?h) = []"
    using h buf(2) b by (simp_all add: bd_appends_def)
  have "bd_appends (?h\<lparr>bd_transactionid := tid\<rparr>) tid (snd (Builder_AddTransactionId tid ?h))"
    by (rule AddTransactionId_ok [OF h'(1) tid])
  then show ?thesis
    using bd_msg_start [OF b(1,2) tid, of t c] h' buf(2) tid by (simp add: bd_reply_def bd_appends_def)
qed

lemma bd_reply_append:
  assumes b: "bd_reply legacy cap field tid as b" and f: "appends f (enc_attr legacy t d) b"
    and fits: "20 + length (enc_attrs as) + length (enc_attr legacy t d) \<le> cap"
  shows "bd_reply legacy cap field tid (as @ [(t, wire_value legacy d)]) (snd (f b))"
proof -
  have m: "bd_msg field tid as b" using b by (simp add: bd_reply_def)
  show ?thesis
    using bd_msg_append [OF m f] bd_msg_length [OF m] f b fits
    by (simp add: bd_reply_def appends_def bd_appends_def)
qed

lemma bd_reply_end: "bd_reply legacy cap field tid as b \<Longrightarrow> bd_end b \<and> bd_fLegacyMode b = legacy \<and>
    bd_transactionid b = tid \<and> bd_bytes b \<noteq> []"
  using bd_msg_length [of field tid as b] by (auto simp: bd_reply_def bd_msg_def)

lemma bd_reply_integrity:
  assumes b: "bd_reply legacy cap field tid as b" and key: "key \<noteq> []" and hm: "\<And>k m. length (hmac k m) = 20"
    and fits: "20 + length (enc_attrs as) + 24 \<le> cap"
  shows "bd_reply legacy cap field tid (as @ [(STUN_ATTRIBUTE_MESSAGEINTEGRITY, hmac key (digest_text field tid as 24))])
    (snd (Builder_AddMessageIntegrityImpl hmac key b))"
proof -
  have m: "bd_msg field tid as b" using b by (simp add: bd_reply_def)
  have e: "bd_end b" "20 \<le> length (bd_bytes b)" using m bd_msg_length [OF m] by (simp_all add: bd_msg_def)
  note mi = AddMessageIntegrityImpl_ok [OF e key hm]
  show ?thesis
    using bd_msg_integrity(2) [OF m key hm] mi(5,6) bd_msg_length [OF m] b fits by (simp add: bd_reply_def)
qed

lemma bd_reply_done:
  assumes b: "bd_reply legacy cap field tid as b"
  obtains buf where "ds_attached_view (bd_stream (snd (Builder_FixLengthField b))) = Some buf" "buf_wf buf"
    "b_allocated buf = cap" "buf_bytes buf = msg_bytes field tid as"
    "bd_reply legacy cap field tid as (snd (Builder_FixLengthField b))"
proof -
  have m: "bd_msg field tid as b" using b by (simp add: bd_reply_def)
  have e: "bd_end b" "20 \<le> length (bd_bytes b)" using m bd_msg_length [OF m] by (simp_all add: bd_msg_def)
  note f = FixLengthField_ok [OF e]
  obtain buf where buf: "fst (Builder_GetResult b) = (S_OK, Some buf)" "buf_wf buf"
    "buf_bytes buf = msg_bytes field tid as"
    "ds_released (bd_stream (snd (Builder_GetResult b))) = ds_released (bd_stream b)"
    "ds_buffer (bd_stream (snd (Builder_GetResult b))) = Some buf"
    "ds_capacity (bd_stream (snd (Builder_GetResult b))) = ds_capacity (bd_stream b)"
    by (rule bd_msg_result [OF m])
  have eq: "snd (Builder_GetResult b) = snd (Builder_FixLengthField b)"
    using f(1) by (simp add: Builder_GetResult_def case_prod_beta)
  have "bd_bytes (snd (Builder_FixLengthField b)) =
      be16 field @ be16 (of_nat (length (bd_bytes b) - 20)) @ tid @ enc_attrs as"
    unfolding f(3) by (rule bd_msg_set_len [OF m])
  then have "bd_msg field tid as (snd (Builder_FixLengthField b))"
    using m f(2,4) by (auto simp: bd_msg_def)
  then have "bd_reply legacy cap field tid as (snd (Builder_FixLengthField b))"
    using b f(5-7) by (simp add: bd_reply_def)
  moreover have "b_allocated buf = cap"
    using buf(5,6) b eq by (simp add: bd_reply_def ds_capacity_def)
  ultimately show ?thesis
    using that [of buf] buf b eq by (simp add: bd_reply_def ds_attached_view_def)
qed

subsection \<open>The binding response\<close>

definition origin_type :: "bool \<Rightarrow> u16" where
  "origin_type legacy = (if legacy then STUN_ATTRIBUTE_SOURCEADDRESS else STUN_ATTRIBUTE_RESPONSE_ORIGIN)"

definition other_type :: "bool \<Rightarrow> u16" where
  "other_type legacy = (if legacy then STUN_ATTRIBUTE_CHANGEDADDRESS else STUN_ATTRIBUTE_OTHER_ADDRESS)"

definition xor_type :: "bool \<Rightarrow> u16" where
  "xor_type legacy = (if legacy then STUN_ATTRIBUTE_XORMAPPEDADDRESS_OPTIONAL else STUN_ATTRIBUTE_XORMAPPEDADDRESS)"

text \<open>The attributes of the success response sent from the socket \<open>out\<close>.\<close>

definition binding_attrs :: "SocketRole \<Rightarrow> CStunRequestHandler \<Rightarrow> wire_attr list" where
  "binding_attrs out h =
     [(STUN_ATTRIBUTE_MAPPEDADDRESS, addr_attr (in_addrRemote (h_pMsgIn h)))] @
     (if CSocketAddress_IsIPAddressZero (Handler_OriginAddress out h) then []
      else [(origin_type (h_fLegacyMode h), addr_attr (Handler_OriginAddress out h))]) @
     (case Handler_OtherAddress h of None \<Rightarrow> [] | Some a \<Rightarrow> [(other_type (h_fLegacyMode h), addr_attr a)]) @
     [(xor_type (h_fLegacyMode h),
       addr_attr (CSocketAddress_ApplyStunXorMap (h_transid h) (in_addrRemote (h_pMsgIn h))))]"

definition integrity_key :: "(u8 list \<Rightarrow> u8 list) \<Rightarrow> StunMessageIntegrity \<Rightarrow> u8 list" where
  "integrity_key md5 mg = (if fUseLongTerm mg
     then md5 (c_str (mg_szUser mg) @ [0x3A] @ c_str (mg_szRealm mg) @ [0x3A] @ c_str (mg_szPassword mg))
     else c_str (mg_szPassword mg))"

text \<open>The key of the response's integrity attribute, if it has one.\<close>

definition reply_key :: "(u8 list \<Rightarrow> u8 list) \<Rightarrow> StunMessageIntegrity \<Rightarrow> u8 list option" where
  "reply_key md5 mg = (if fSendWithIntegrity mg then Some (integrity_key md5 mg) else None)"

definition with_integrity ::
  "(u8 list \<Rightarrow> u8 list \<Rightarrow> u8 list) \<Rightarrow> u16 \<Rightarrow> StunTransactionId \<Rightarrow> u8 list option
   \<Rightarrow> wire_attr list \<Rightarrow> wire_attr list" where
  "with_integrity hmac field tid k as = (case k of None \<Rightarrow> as
     | Some key \<Rightarrow> as @ [(STUN_ATTRIBUTE_MESSAGEINTEGRITY, hmac key (digest_text field tid as 24))])"

definition success_field :: u16 where
  "success_field = msg_type_field StunMsgTypeBinding StunMsgClassSuccessResponse"

text \<open>A block of 65 bytes that holds a C string.\<close>

definition auth_array :: "u8 list \<Rightarrow> bool" where
  "auth_array s \<longleftrightarrow> length s = AUTH_ARRAY_SIZE \<and> 0 \<in> set s"

lemma auth_array_c_str: "auth_array s \<Longrightarrow> length (c_str s) \<le> 64"
  using length_c_str_less [of s] by (simp add: auth_array_def AUTH_ARRAY_SIZE_def MAX_STUN_AUTH_STRING_SIZE_def)

lemma auth_array_zero [simp]: "auth_array (replicate AUTH_ARRAY_SIZE 0)"
  by (simp add: auth_array_def AUTH_ARRAY_SIZE_def)

lemma auth_array_strcpy: "auth_array dst \<Longrightarrow> auth_array src \<Longrightarrow> auth_array (strcpy_to dst src)"
  using auth_array_c_str [of src] length_strcpy_to [of src dst]
  by (auto simp: auth_array_def AUTH_ARRAY_SIZE_def MAX_STUN_AUTH_STRING_SIZE_def strcpy_to_def poke_def)

text \<open>A handler at work: a caller's buffer that is large enough, and well-formed data.\<close>

definition h_wf :: "CStunRequestHandler \<Rightarrow> bool" where
  "h_wf h \<longleftrightarrow>
     (\<exists>buf. out_spBufferOut (h_pMsgOut h) = Some buf \<and> buf_wf buf \<and> MAX_STUN_MESSAGE_SIZE \<le> b_allocated buf) \<and>
     length (h_transid h) = 16 \<and> sa_wf (in_addrRemote (h_pMsgIn h)) \<and> sa_wf (in_addrLocal (h_pMsgIn h)) \<and>
     (\<exists>aset. h_pAddrSet h = Some aset \<and> length aset = 4 \<and> (\<forall>ta \<in> set aset. sa_wf (ta_addr ta))) \<and>
     IsValidSocketRole (in_socketrole (h_pMsgIn h)) \<and>
     auth_array (mg_szUser (h_integrity h)) \<and> auth_array (mg_szRealm (h_integrity h)) \<and>
     auth_array (mg_szPassword (h_integrity h)) \<and>
     auth_array (er_szNonce (h_error h)) \<and> auth_array (er_szRealm (h_error h))"

definition h_capacity :: "CStunRequestHandler \<Rightarrow> nat" where
  "h_capacity h = (case out_spBufferOut (h_pMsgOut h) of None \<Rightarrow> 0 | Some buf \<Rightarrow> b_allocated buf)"

definition h_answered :: "CStunRequestHandler \<Rightarrow> nat \<Rightarrow> u8 list \<Rightarrow> bool" where
  "h_answered h cap bs \<longleftrightarrow> (\<exists>buf. out_spBufferOut (h_pMsgOut h) = Some buf \<and> buf_wf buf \<and>
     b_allocated buf = cap \<and> buf_bytes buf = bs)"

lemma role_address_wf:
  assumes "h_wf h" "IsValidSocketRole role"
  shows "sa_wf (ta_addr (the (h_pAddrSet h) ! unat role))"
  using assms(2) assms(1) by (cases rule: SocketRole_cases) (auto simp: h_wf_def socket_role_defs)

lemma OtherAddress_wf: "h_wf h \<Longrightarrow> Handler_OtherAddress h = Some a \<Longrightarrow> sa_wf a"
  using role_address_wf [of h "SocketRoleSwapIP (SocketRoleSwapPort (in_socketrole (h_pMsgIn h)))"]
    SocketRole_swap_swap [of "in_socketrole (h_pMsgIn h)"] SocketRole_swap_swap [of "SocketRoleSwapPort (in_socketrole (h_pMsgIn h))"]
  by (auto simp: Handler_OtherAddress_def Let_def h_wf_def split: if_splits)

lemma OriginAddress_wf: "h_wf h \<Longrightarrow> IsValidSocketRole out \<Longrightarrow> sa_wf (Handler_OriginAddress out h)"
  using role_address_wf [of h out] by (auto simp: Handler_OriginAddress_def Let_def h_wf_def)

lemma ChangeRole_valid: "h_wf h \<Longrightarrow> Handler_ChangeRole h = Some out \<Longrightarrow> IsValidSocketRole out"
  by (auto simp: Handler_ChangeRole_def Let_def Handler_HasAddress_def h_wf_def split: if_splits option.splits prod.splits)

lemma length_enc_addr: "sa_wf a \<Longrightarrow> length (enc_attr legacy t (addr_attr a)) \<le> 24"
  using length_addr_attr [of a] by (auto simp: length_enc_attr pad4_def)

lemma wire_value_addr [simp]: "sa_wf a \<Longrightarrow> wire_value legacy (addr_attr a) = addr_attr a"
  using length_addr_attr [of a] by auto

lemma length_enc_addr_wire: "sa_wf a \<Longrightarrow> length (enc_attrs [(t, addr_attr a)]) \<le> 24"
  using length_enc_addr [of a False t] by simp

lemma bd_reply_addr:
  assumes b: "bd_reply legacy cap field tid as b" and wf: "sa_wf a"
    and f: "appends f (enc_attr (bd_fLegacyMode b) t (addr_attr a)) b"
    and fits: "length (enc_attrs as) \<le> n" "n + 44 \<le> cap"
  shows "bd_reply legacy cap field tid (as @ [(t, addr_attr a)]) (snd (f b)) \<and>
    length (enc_attrs (as @ [(t, addr_attr a)])) \<le> n + 24"
proof -
  have leg: "bd_fLegacyMode b = legacy" using bd_reply_end [OF b] by simp
  note l = length_enc_addr [OF wf, of legacy t] length_enc_addr [OF wf, of False t]
  have "bd_reply legacy cap field tid (as @ [(t, wire_value legacy (addr_attr a))]) (snd (f b))"
    using f fits l(1) by (intro bd_reply_append [OF b]) (simp_all add: leg)
  then show ?thesis using wf l fits by simp
qed

lemma Attach_ok:
  assumes "h_wf h"
  obtains buf h' where "Handler_Attach h = (Builder_new\<lparr>bd_stream := DS_Attach (Some buf) True CDataStream_empty\<rparr>, h')"
    "h' = h\<lparr>h_pMsgOut := (h_pMsgOut h)\<lparr>out_spBufferOut := Some buf\<rparr>\<rparr>"
    "buf_wf buf" "b_allocated buf = h_capacity h" "MAX_STUN_MESSAGE_SIZE \<le> b_allocated buf" "buf_bytes buf = []" "h_wf h'"
proof -
  obtain b where b: "out_spBufferOut (h_pMsgOut h) = Some b" "buf_wf b" "MAX_STUN_MESSAGE_SIZE \<le> b_allocated b"
    using assms by (auto simp: h_wf_def)
  let ?buf = "b\<lparr>b_size := 0\<rparr>"
  have wf: "buf_wf ?buf" using b by (intro buf_wf_SetSize) auto
  show ?thesis
    using that [of ?buf] b wf assms
    by (simp add: Handler_Attach_def Let_def ds_attached_view_def DS_Attach_def DS_Reset_def Builder_new_def
        h_capacity_def h_wf_def buf_bytes_def split: option.splits)
qed

lemma handler_upd_basic [simp]:
  "Handler_HasAddress r (h\<lparr>h_pMsgOut := m\<rparr>) = Handler_HasAddress r h"
  "Handler_IsIPAddressZeroOrInvalid r (h\<lparr>h_pMsgOut := m\<rparr>) = Handler_IsIPAddressZeroOrInvalid r h"
  "h_reader (h\<lparr>h_pMsgOut := m\<rparr>) = h_reader h"
  by (simp_all add: h_reader_def Handler_HasAddress_def Handler_IsIPAddressZeroOrInvalid_def)

lemma handler_upd_simps [simp]:
  "Handler_ChangeRole (h\<lparr>h_pMsgOut := m\<rparr>) = Handler_ChangeRole h"
  "Handler_OtherAddress (h\<lparr>h_pMsgOut := m\<rparr>) = Handler_OtherAddress h"
  "Handler_OriginAddress r (h\<lparr>h_pMsgOut := m\<rparr>) = Handler_OriginAddress r h"
  by (simp_all add: Handler_ChangeRole_def Handler_OtherAddress_def Handler_OriginAddress_def Let_def
      cong: prod.case_cong if_cong)

lemma binding_attrs_upd [simp]: "binding_attrs r (h\<lparr>h_pMsgOut := m\<rparr>) = binding_attrs r h"
  by (simp add: binding_attrs_def cong: option.case_cong)

lemma wire_value_20 [simp]: "length d = 20 \<Longrightarrow> wire_value legacy d = d"
  by simp

text \<open>The optional parts of the response, each a step that keeps \<open>bd_reply\<close>.\<close>

lemma reply_origin:
  assumes "bd_reply legacy cap field tid as b" "sa_wf a" "length (enc_attrs as) \<le> n" "n + 44 \<le> cap"
  shows "bd_reply legacy cap field tid
      (as @ (if CSocketAddress_IsIPAddressZero a then [] else [(origin_type legacy, addr_attr a)]))
      (if False = CSocketAddress_IsIPAddressZero a then snd (Builder_AddResponseOriginAddress a b) else b) \<and>
    length (enc_attrs (as @ (if CSocketAddress_IsIPAddressZero a then [] else [(origin_type legacy, addr_attr a)]))) \<le> n + 24"
proof -
  have e: "bd_end b" "bd_fLegacyMode b = legacy" using bd_reply_end [OF assms(1)] by simp_all
  show ?thesis
    using bd_reply_addr [OF assms(1,2) appends_addresses(3) [OF e(1) assms(2)] assms(3,4)] e(2) assms(1,3)
    by (auto simp: origin_type_def)
qed

lemma reply_other:
  assumes "bd_reply legacy cap field tid as b" "\<And>a. oa = Some a \<Longrightarrow> sa_wf a" "length (enc_attrs as) \<le> n" "n + 44 \<le> cap"
  shows "bd_reply legacy cap field tid
      (as @ (case oa of None \<Rightarrow> [] | Some a \<Rightarrow> [(other_type legacy, addr_attr a)]))
      (case oa of None \<Rightarrow> b | Some a \<Rightarrow> snd (Builder_AddOtherAddress a b)) \<and>
    length (enc_attrs (as @ (case oa of None \<Rightarrow> [] | Some a \<Rightarrow> [(other_type legacy, addr_attr a)]))) \<le> n + 24"
proof (cases oa)
  case (Some a)
  have e: "bd_end b" "bd_fLegacyMode b = legacy" using bd_reply_end [OF assms(1)] by simp_all
  have wf: "sa_wf a" using Some assms(2) by simp
  show ?thesis
    using bd_reply_addr [OF assms(1) wf appends_addresses(4) [OF e(1) wf] assms(3,4)] e(2) Some
    by (auto simp: other_type_def)
qed (use assms in simp)

lemma reply_integrity:
  assumes b: "bd_reply legacy cap field tid as b" and fits: "length (enc_attrs as) \<le> n" "n + 44 \<le> cap"
    and hm: "\<And>k m. length (hmac k m) = 20"
    and mg: "auth_array (mg_szUser mg)" "auth_array (mg_szRealm mg)" "auth_array (mg_szPassword mg)"
    and key: "reply_key md5 mg \<noteq> Some []"
  shows "bd_reply legacy cap field tid (with_integrity hmac field tid (reply_key md5 mg) as)
      (if fSendWithIntegrity mg
       then if fUseLongTerm mg = False
            then snd (Builder_AddMessageIntegrityShortTerm hmac (mg_szPassword mg) b)
            else snd (Builder_AddMessageIntegrityLongTerm hmac md5 (mg_szUser mg) (mg_szRealm mg) (mg_szPassword mg) b)
       else b)"
proof (cases "fSendWithIntegrity mg")
  case True
  have len: "\<not> length (c_str (mg_szUser mg)) + length (c_str (mg_szRealm mg)) + length (c_str (mg_szPassword mg)) + 2
      > MAX_STUN_AUTH_STRING_SIZE * 3 + 2"
    using mg [THEN auth_array_c_str] by (simp add: MAX_STUN_AUTH_STRING_SIZE_def)
  have "20 + length (enc_attrs as) + 24 \<le> cap" using fits by simp
  from bd_reply_integrity [where hmac = hmac, OF b _ _ this] hm len key show ?thesis
    using True by (cases "fUseLongTerm mg") (simp_all add: with_integrity_def reply_key_def integrity_key_def Builder_AddMessageIntegrityShortTerm_def
        Builder_AddMessageIntegrityLongTerm_def Let_def)
qed (use b in \<open>simp add: with_integrity_def reply_key_def\<close>)

lemma ProcessBindingRequest_ok:
  assumes h: "h_wf h" and role: "Handler_ChangeRole h = Some out"
    and port: "\<not> (h_fRequestHasResponsePort h \<and> SUCCEEDED (fst (Reader_GetPaddingAttributeSize (h_reader h))))"
    and hm: "\<And>k m. length (hmac k m) = 20"
    and key: "reply_key md5 (h_integrity h) \<noteq> Some []"
  obtains h' where "Handler_ProcessBindingRequest hmac md5 h = (S_OK, h')" "h_error h' = h_error h"
    "out_socketrole (h_pMsgOut h') = out" "out_addrDest (h_pMsgOut h') = out_addrDest (h_pMsgOut h)"
    "h_answered h' (h_capacity h) (msg_bytes success_field (h_transid h)
       (with_integrity hmac success_field (h_transid h) (reply_key md5 (h_integrity h)) (binding_attrs out h)))"
proof -
  obtain buf h1 where att: "Handler_Attach h = (Builder_new\<lparr>bd_stream := DS_Attach (Some buf) True CDataStream_empty\<rparr>, h1)"
    "h1 = h\<lparr>h_pMsgOut := (h_pMsgOut h)\<lparr>out_spBufferOut := Some buf\<rparr>\<rparr>"
    "buf_wf buf" "b_allocated buf = h_capacity h" "MAX_STUN_MESSAGE_SIZE \<le> b_allocated buf"
    by (rule Attach_ok [OF h])
  define leg tid remote aset mg where defs: "leg = h_fLegacyMode h" "tid = h_transid h"
    "remote = in_addrRemote (h_pMsgIn h)" "aset = Handler_OriginAddress out h" "mg = h_integrity h"
  have tid: "length tid = 16" and remote: "sa_wf remote" and org: "sa_wf aset"
    using h ChangeRole_valid [OF h role] OriginAddress_wf [OF h] by (simp_all add: h_wf_def defs)
  have mg: "auth_array (mg_szUser mg)" "auth_array (mg_szRealm mg)" "auth_array (mg_szPassword mg)"
    using h by (simp_all add: h_wf_def defs)
  let ?cap = "h_capacity h"
  have cap: "200 \<le> b_allocated buf" "800 \<le> ?cap" using att by (simp_all add: MAX_STUN_MESSAGE_SIZE_def)
  let ?b0 = "Builder_SetLegacyMode leg (Builder_new\<lparr>bd_stream := DS_Attach (Some buf) True CDataStream_empty\<rparr>)"
  define b1 where "b1 = snd (Builder_AddTransactionId tid (snd (Builder_AddHeader StunMsgTypeBinding
      StunMsgClassSuccessResponse ?b0)))"
  have b1: "bd_reply leg ?cap success_field tid [] b1"
    using bd_reply_start [OF att(3) cap(1) tid, of leg _ _ CDataStream_empty] att(4)
    unfolding b1_def success_field_def by (simp only:)
  define b2 where "b2 = snd (Builder_AddMappedAddress remote b1)"
  have b2: "bd_reply leg ?cap success_field tid ([] @ [(STUN_ATTRIBUTE_MAPPEDADDRESS, addr_attr remote)]) b2"
    "length (enc_attrs ([] @ [(STUN_ATTRIBUTE_MAPPEDADDRESS, addr_attr remote)])) \<le> 0 + 24"
    unfolding b2_def
    using bd_reply_addr [OF b1 remote appends_addresses(1) [OF _ remote], of 0] bd_reply_end [OF b1] cap
    by (auto simp del: enc_attrs_simps(2))
  define b3 where "b3 = (if False = CSocketAddress_IsIPAddressZero aset
      then snd (Builder_AddResponseOriginAddress aset b2) else b2)"
  have b3: "bd_reply leg ?cap success_field tid (([] @ [(STUN_ATTRIBUTE_MAPPEDADDRESS, addr_attr remote)]) @
      (if CSocketAddress_IsIPAddressZero aset then [] else [(origin_type leg, addr_attr aset)])) b3 \<and>
    length (enc_attrs (([] @ [(STUN_ATTRIBUTE_MAPPEDADDRESS, addr_attr remote)]) @
      (if CSocketAddress_IsIPAddressZero aset then [] else [(origin_type leg, addr_attr aset)]))) \<le> 0 + 24 + 24"
    unfolding b3_def using cap by (intro reply_origin [OF b2(1) org b2(2)]) simp
  define b4 where "b4 = (case Handler_OtherAddress h of None \<Rightarrow> b3 | Some a \<Rightarrow> snd (Builder_AddOtherAddress a b3))"
  have b4: "bd_reply leg ?cap success_field tid ((([] @ [(STUN_ATTRIBUTE_MAPPEDADDRESS, addr_attr remote)]) @
      (if CSocketAddress_IsIPAddressZero aset then [] else [(origin_type leg, addr_attr aset)])) @
      (case Handler_OtherAddress h of None \<Rightarrow> [] | Some a \<Rightarrow> [(other_type leg, addr_attr a)])) b4 \<and>
    length (enc_attrs ((([] @ [(STUN_ATTRIBUTE_MAPPEDADDRESS, addr_attr remote)]) @
      (if CSocketAddress_IsIPAddressZero aset then [] else [(origin_type leg, addr_attr aset)])) @
      (case Handler_OtherAddress h of None \<Rightarrow> [] | Some a \<Rightarrow> [(other_type leg, addr_attr a)]))) \<le> 0 + 24 + 24 + 24"
    unfolding b4_def
    by (rule reply_other [OF _ OtherAddress_wf [OF h]]) (use b3 cap in simp_all)
  define b5 where "b5 = snd (Builder_AddXorMappedAddress remote b4)"
  let ?as = "binding_attrs out h"
  have b5: "bd_reply leg ?cap success_field tid ?as b5 \<and> length (enc_attrs ?as) \<le> 0 + 24 + 24 + 24 + 24"
  proof -
    let ?x = "CSocketAddress_ApplyStunXorMap tid remote"
    have e: "bd_end b4" "bd_fLegacyMode b4 = leg" "bd_transactionid b4 = tid"
      using bd_reply_end [OF b4 [THEN conjunct1]] by simp_all
    have "appends (Builder_AddXorMappedAddress remote) (enc_attr (bd_fLegacyMode b4) (xor_type leg) (addr_attr ?x)) b4"
      using appends_addresses(2) [OF e(1) remote] e by (simp add: xor_type_def)
    from bd_reply_addr [OF b4 [THEN conjunct1] _ this b4 [THEN conjunct2]] remote cap show ?thesis
      unfolding b5_def binding_attrs_def defs [symmetric] by simp
  qed
  define b6 where "b6 = (if fSendWithIntegrity mg
       then if fUseLongTerm mg = False
            then snd (Builder_AddMessageIntegrityShortTerm hmac (mg_szPassword mg) b5)
            else snd (Builder_AddMessageIntegrityLongTerm hmac md5 (mg_szUser mg) (mg_szRealm mg) (mg_szPassword mg) b5)
       else b5)"
  let ?all = "with_integrity hmac success_field tid (reply_key md5 mg) ?as"
  have b6: "bd_reply leg ?cap success_field tid ?all b6"
    unfolding b6_def using b5 cap hm mg key
    by (intro reply_integrity [where n = "0 + 24 + 24 + 24 + 24"]) (simp_all add: defs)
  obtain buf' where done': "ds_attached_view (bd_stream (snd (Builder_FixLengthField b6))) = Some buf'"
    "buf_wf buf'" "b_allocated buf' = ?cap" "buf_bytes buf' = msg_bytes success_field tid ?all"
    using bd_reply_done [OF b6] by metis
  have eq: "Handler_ProcessBindingRequest hmac md5 h =
      (S_OK, Handler_Detach (snd (Builder_FixLengthField b6)) (h1\<lparr>h_pMsgOut := (h_pMsgOut h1)\<lparr>out_socketrole := out\<rparr>\<rparr>))"
    using role port
    unfolding Handler_ProcessBindingRequest_def att(1) Let_def prod.case
    by (simp add: att(2) b6_def b5_def b4_def b3_def b2_def b1_def defs cong: option.case_cong if_cong)
  show ?thesis
    by (rule that [OF eq]) (use done' in \<open>simp_all add: Handler_Detach_def att(2) h_answered_def defs\<close>)
qed

text \<open>A request for a response that cannot be sent that way is refused, with nothing written.\<close>

lemma ProcessBindingRequest_refused:
  assumes h: "h_wf h"
    and bad: "Handler_ChangeRole h = None \<or>
      h_fRequestHasResponsePort h \<and> SUCCEEDED (fst (Reader_GetPaddingAttributeSize (h_reader h)))"
  obtains h' where "Handler_ProcessBindingRequest hmac md5 h = (E_FAIL, h')"
    "er_errorcode (h_error h') = STUN_ERROR_BADREQUEST"
    "h_error h' = (h_error h)\<lparr>er_errorcode := STUN_ERROR_BADREQUEST\<rparr>" "h_wf h'" "h_capacity h' = h_capacity h"
    "h_transid h' = h_transid h" "h_fLegacyMode h' = h_fLegacyMode h"
    "out_socketrole (h_pMsgOut h') = out_socketrole (h_pMsgOut h)"
    "out_addrDest (h_pMsgOut h') = out_addrDest (h_pMsgOut h)"
proof -
  obtain buf h1 where att: "Handler_Attach h = (Builder_new\<lparr>bd_stream := DS_Attach (Some buf) True CDataStream_empty\<rparr>, h1)"
    "h1 = h\<lparr>h_pMsgOut := (h_pMsgOut h)\<lparr>out_spBufferOut := Some buf\<rparr>\<rparr>"
    "b_allocated buf = h_capacity h" "h_wf h1"
    by (rule Attach_ok [OF h])
  have "Handler_ProcessBindingRequest hmac md5 h = (E_FAIL, h_set_error STUN_ERROR_BADREQUEST h1)"
    unfolding Handler_ProcessBindingRequest_def att(1) Let_def prod.case using bad by (auto simp: att(2))
  from that [OF this] att show ?thesis by (simp add: h_wf_def h_capacity_def)
qed

subsection \<open>The error response\<close>

definition error_strings :: "bool \<Rightarrow> StunErrorCode \<Rightarrow> wire_attr list" where
  "error_strings legacy err =
     (if er_errorcode err = STUN_ERROR_STALENONCE \<or> er_errorcode err = STUN_ERROR_UNAUTHORIZED
      then (if c_str (er_szNonce err) = [] then []
            else [(STUN_ATTRIBUTE_NONCE, wire_value legacy (c_str (er_szNonce err)))]) @
           (if c_str (er_szRealm err) = [] then []
            else [(STUN_ATTRIBUTE_REALM, wire_value legacy (c_str (er_szRealm err)))])
      else [])"

definition error_attrs :: "bool \<Rightarrow> StunErrorCode \<Rightarrow> wire_attr list" where
  "error_attrs legacy err =
     (STUN_ATTRIBUTE_ERRORCODE, wire_value legacy (error_attr (er_errorcode err) (c_str FAILED_text)))
     # error_strings legacy err"

definition error_field :: "StunErrorCode \<Rightarrow> u16" where
  "error_field err = msg_type_field (er_msgtype err) (er_msgclass err)"

lemma c_str_FAILED_text: "c_str FAILED_text = [0x46, 0x41, 0x49, 0x4C, 0x45, 0x44]"
  by (simp add: FAILED_text_def c_str_def)

lemma c_str_empty: "auth_array s \<Longrightarrow> s ! 0 \<noteq> 0 \<longleftrightarrow> c_str s \<noteq> []"
  by (cases s) (auto simp: auth_array_def AUTH_ARRAY_SIZE_def c_str_def)

lemma length_enc_string: "length d \<le> 64 \<Longrightarrow> length (enc_attr legacy t d) \<le> 68"
  by (auto simp: length_enc_attr pad4_def) presburger

lemma length_wire_string: "length d \<le> 64 \<Longrightarrow> length (enc_attrs [(t, wire_value legacy d)]) \<le> 68"
  using length_enc_string [of d legacy t] by (simp add: enc_attr_value [symmetric])

lemma reply_string:
  assumes b: "bd_reply legacy cap field tid as b" and s: "auth_array s"
    and fits: "length (enc_attrs as) \<le> n" "n + 88 \<le> cap"
  shows "bd_reply legacy cap field tid (as @ (if c_str s = [] then [] else [(t, wire_value legacy (c_str s))]))
      (if s ! 0 \<noteq> 0 then snd (Builder_AddStringAttribute t s b) else b) \<and>
    length (enc_attrs (as @ (if c_str s = [] then [] else [(t, wire_value legacy (c_str s))]))) \<le> n + 68"
proof (cases "c_str s = []")
  case False
  have e: "bd_end b" "bd_fLegacyMode b = legacy" using bd_reply_end [OF b] by simp_all
  note l = length_enc_string [OF auth_array_c_str [OF s]]
  have "length (c_str s) < 65536" using auth_array_c_str [OF s] by simp
  then have "appends (Builder_AddStringAttribute t s) (enc_attr legacy t (c_str s)) b"
    using appends_AddStringAttribute [OF e(1) False] e(2) by simp
  from bd_reply_append [OF b this] fits l [of legacy t] False length_wire_string [OF auth_array_c_str [OF s], of t legacy]
    c_str_empty [OF s]
  show ?thesis by simp
qed (use assms c_str_empty [OF s] in simp)

lemma BuildErrorResponse_ok:
  assumes h: "h_wf h" and code: "300 \<le> er_errorcode (h_error h)" "er_errorcode (h_error h) \<le> 600"
    and unk: "er_attribUnknown (h_error h) = 0"
  shows "h_answered (Handler_BuildErrorResponse h) (h_capacity h)
      (msg_bytes (error_field (h_error h)) (h_transid h) (error_attrs (h_fLegacyMode h) (h_error h)))"
    "out_socketrole (h_pMsgOut (Handler_BuildErrorResponse h)) = out_socketrole (h_pMsgOut h)"
    "out_addrDest (h_pMsgOut (Handler_BuildErrorResponse h)) = out_addrDest (h_pMsgOut h)"
    "h_error (Handler_BuildErrorResponse h) = h_error h"
proof -
  obtain buf h1 where att: "Handler_Attach h = (Builder_new\<lparr>bd_stream := DS_Attach (Some buf) True CDataStream_empty\<rparr>, h1)"
    "h1 = h\<lparr>h_pMsgOut := (h_pMsgOut h)\<lparr>out_spBufferOut := Some buf\<rparr>\<rparr>"
    "buf_wf buf" "b_allocated buf = h_capacity h" "MAX_STUN_MESSAGE_SIZE \<le> b_allocated buf"
    by (rule Attach_ok [OF h])
  define leg tid err where defs: "leg = h_fLegacyMode h" "tid = h_transid h" "err = h_error h"
  have tid: "length tid = 16" and arr: "auth_array (er_szNonce err)" "auth_array (er_szRealm err)"
    using h by (simp_all add: h_wf_def defs)
  let ?cap = "h_capacity h" and ?f = "error_field err"
  have cap: "200 \<le> b_allocated buf" "800 \<le> ?cap" using att by (simp_all add: MAX_STUN_MESSAGE_SIZE_def)
  let ?b0 = "Builder_SetLegacyMode leg (Builder_new\<lparr>bd_stream := DS_Attach (Some buf) True CDataStream_empty\<rparr>)"
  define b1 where "b1 = snd (Builder_AddTransactionId tid (snd (Builder_AddHeader (er_msgtype err) (er_msgclass err) ?b0)))"
  have b1: "bd_reply leg ?cap ?f tid [] b1"
    using bd_reply_start [OF att(3) cap(1) tid, of leg _ _ CDataStream_empty] att(4)
    unfolding b1_def error_field_def by (simp only:)
  let ?d = "error_attr (er_errorcode err) (c_str FAILED_text)"
  define b2 where "b2 = snd (Builder_AddErrorCode (er_errorcode err) FAILED_text b1)"
  have d: "length ?d = 10" by (simp add: error_attr_def c_str_FAILED_text)
  have e: "bd_end b1" "bd_fLegacyMode b1 = leg" using bd_reply_end [OF b1] by simp_all
  have "appends (Builder_AddErrorCode (er_errorcode err) FAILED_text) (enc_attr leg STUN_ATTRIBUTE_ERRORCODE ?d) b1"
    using appends_AddErrorCode [OF e(1), of "er_errorcode err" FAILED_text] code e(2)
    by (simp add: defs c_str_FAILED_text)
  from bd_reply_append [OF b1 this] cap
  have b2: "bd_reply leg ?cap ?f tid ([] @ [(STUN_ATTRIBUTE_ERRORCODE, wire_value leg ?d)]) b2"
    by (simp add: b2_def length_enc_attr d pad4_def)
  have n2: "length (enc_attrs ([] @ [(STUN_ATTRIBUTE_ERRORCODE, wire_value leg ?d)])) \<le> 16"
    using enc_attr_value [of leg STUN_ATTRIBUTE_ERRORCODE ?d, symmetric]
    by (simp add: length_enc_attr d pad4_def)
  define b3 where "b3 = (if er_szNonce err ! 0 \<noteq> 0
      then snd (Builder_AddStringAttribute STUN_ATTRIBUTE_NONCE (er_szNonce err) b2) else b2)"
  note b3 = reply_string [OF b2 arr(1) n2, of STUN_ATTRIBUTE_NONCE, folded b3_def]
  define b4 where "b4 = (if er_szRealm err ! 0 \<noteq> 0
      then snd (Builder_AddStringAttribute STUN_ATTRIBUTE_REALM (er_szRealm err) b3) else b3)"
  note b4 = reply_string [OF conjunct1 [OF b3] arr(2) conjunct2 [OF b3], of STUN_ATTRIBUTE_REALM, folded b4_def]
  define b5 where "b5 = (if er_errorcode err = STUN_ERROR_STALENONCE \<or> er_errorcode err = STUN_ERROR_UNAUTHORIZED
      then b4 else b2)"
  have b5: "bd_reply leg ?cap ?f tid (error_attrs leg err) b5"
    using b2 b4 cap by (auto simp: b5_def error_attrs_def error_strings_def)
  obtain buf' where done': "buf_wf buf'" "b_allocated buf' = ?cap" "buf_bytes buf' = msg_bytes ?f tid (error_attrs leg err)"
    "ds_attached_view (bd_stream (snd (Builder_GetResult (snd (Builder_FixLengthField b5))))) = Some buf'"
  proof -
    have b6: "bd_reply leg ?cap ?f tid (error_attrs leg err) (snd (Builder_FixLengthField b5))"
      by (rule bd_reply_done [OF b5])
    have "snd (Builder_GetResult b) = snd (Builder_FixLengthField b)" for b
      by (simp add: Builder_GetResult_def case_prod_beta)
    then show ?thesis using bd_reply_done [OF b6] that by metis
  qed
  have eq: "Handler_BuildErrorResponse h = Handler_Detach (snd (Builder_GetResult (snd (Builder_FixLengthField b5)))) h1"
    unfolding Handler_BuildErrorResponse_def att(1) Let_def prod.case
    using unk by (simp add: att(2) b5_def b4_def b3_def b2_def b1_def defs)
  show "h_answered (Handler_BuildErrorResponse h) (h_capacity h)
      (msg_bytes (error_field (h_error h)) (h_transid h) (error_attrs (h_fLegacyMode h) (h_error h)))"
    "out_socketrole (h_pMsgOut (Handler_BuildErrorResponse h)) = out_socketrole (h_pMsgOut h)"
    "out_addrDest (h_pMsgOut (Handler_BuildErrorResponse h)) = out_addrDest (h_pMsgOut h)"
    "h_error (Handler_BuildErrorResponse h) = h_error h"
    using done' unfolding eq defs [symmetric] by (simp_all add: Handler_Detach_def att(2) h_answered_def defs)
qed

end
