(* ===== verification/RequestSpec.thy ===== *)
theory RequestSpec
  imports MessageHandlerProps
begin

text \<open>
  An abstract account of the request handler: the error code a request is answered with (zero for
  success), the key of the integrity attribute, and the attributes of the answer; and the lemma
  that \<^verbatim>\<open>CStunRequestHandler::ProcessRequest\<close> sends exactly that answer.
\<close>

subsection \<open>The decisions\<close>

text \<open>The provider's decision on a request; a failing provider counts as a bad request.\<close>

definition auth_integrity_ok ::
  "(u8 list \<Rightarrow> u8 list \<Rightarrow> u8 list) \<Rightarrow> (u8 list \<Rightarrow> u8 list) \<Rightarrow> AuthAttributes \<Rightarrow> AuthResponse
   \<Rightarrow> CStunMessageReader \<Rightarrow> bool" where
  "auth_integrity_ok hmac md5 a p r =
     SUCCEEDED (if ar_authCredMech p = AuthCredLongTerm
       then Reader_ValidateMessageIntegrityLong hmac md5 (aa_szUser a) (aa_szRealm a) (ar_szPassword p) r
       else Reader_ValidateMessageIntegrityShort hmac (ar_szPassword p) r)"

definition auth_call :: "IStunAuth \<Rightarrow> CStunMessageReader \<Rightarrow> HRESULT \<times> AuthAttributes \<times> AuthResponse" where
  "auth_call p r = (case p (Handler_ReadAuthAttributes r) AuthResponse_zero of
     (hr, a, resp) \<Rightarrow> (hr, a, AuthResponse_terminate resp))"

definition auth_code ::
  "(u8 list \<Rightarrow> u8 list \<Rightarrow> u8 list) \<Rightarrow> (u8 list \<Rightarrow> u8 list) \<Rightarrow> IStunAuth option \<Rightarrow> CStunMessageReader \<Rightarrow> u16" where
  "auth_code hmac md5 pAuth r = (case pAuth of None \<Rightarrow> 0 | Some p \<Rightarrow>
     (case auth_call p r of (hr, a, resp) \<Rightarrow>
        if \<not> SUCCEEDED hr then STUN_ERROR_BADREQUEST
        else case ar_responseType resp of
            Allow \<Rightarrow> 0
          | AllowConditional \<Rightarrow> if auth_integrity_ok hmac md5 a resp r then 0 else STUN_ERROR_UNAUTHORIZED
          | StaleNonce \<Rightarrow> STUN_ERROR_STALENONCE
          | Reject \<Rightarrow> STUN_ERROR_BADREQUEST
          | Unauthorized \<Rightarrow> STUN_ERROR_UNAUTHORIZED))"

text \<open>The key of the answer's integrity attribute, when the request was accepted by its integrity.\<close>

definition auth_key :: "(u8 list \<Rightarrow> u8 list) \<Rightarrow> IStunAuth option \<Rightarrow> CStunMessageReader \<Rightarrow> u8 list option" where
  "auth_key md5 pAuth r = (case pAuth of None \<Rightarrow> None | Some p \<Rightarrow>
     (case auth_call p r of (hr, a, resp) \<Rightarrow>
        if ar_responseType resp = AllowConditional
        then Some (if ar_authCredMech resp = AuthCredLongTerm
          then md5 (c_str (aa_szUser a) @ [0x3A] @ c_str (aa_szRealm a) @ [0x3A] @ c_str (ar_szPassword resp))
          else c_str (ar_szPassword resp))
        else None))"

definition response_port :: "CStunMessageReader \<Rightarrow> u16" where
  "response_port r = snd (Reader_GetResponsePort 0 r)"

definition has_padding :: "CStunMessageReader \<Rightarrow> bool" where
  "has_padding r = SUCCEEDED (fst (Reader_GetPaddingAttributeSize r))"

text \<open>The role asked for by the request is available, or it asks for none.\<close>

definition answer_role :: "TransportAddressSet option \<Rightarrow> StunMessageIn \<Rightarrow> SocketRole option" where
  "answer_role aset m = Handler_ChangeRole (Handler_new None aset m
     \<lparr>out_socketrole = 0, out_addrDest = CSocketAddress_zero, out_spBufferOut = None\<rparr>)"

definition request_code ::
  "(u8 list \<Rightarrow> u8 list \<Rightarrow> u8 list) \<Rightarrow> (u8 list \<Rightarrow> u8 list) \<Rightarrow> IStunAuth option \<Rightarrow> TransportAddressSet option
   \<Rightarrow> StunMessageIn \<Rightarrow> CStunMessageReader \<Rightarrow> u16" where
  "request_code hmac md5 pAuth aset m r =
     (if response_port r \<noteq> 0 \<and> in_fConnectionOriented m then STUN_ERROR_BADREQUEST
      else if Reader_GetMessageType r \<noteq> StunMsgTypeBinding then STUN_ERROR_BADREQUEST
      else if auth_code hmac md5 pAuth r \<noteq> 0 then auth_code hmac md5 pAuth r
      else if response_port r \<noteq> 0 \<and> has_padding r then STUN_ERROR_BADREQUEST
      else if answer_role aset m = None then STUN_ERROR_BADREQUEST
      else 0)"

definition answer_dest :: "StunMessageIn \<Rightarrow> CStunMessageReader \<Rightarrow> CSocketAddress" where
  "answer_dest m r = (if response_port r \<noteq> 0 \<and> \<not> in_fConnectionOriented m
     then CSocketAddress_SetPort (response_port r) (in_addrRemote m) else in_addrRemote m)"

text \<open>The error an unsuccessful request is answered with; the strings of a challenge come from the provider.\<close>

definition auth_string :: "(AuthResponse \<Rightarrow> u8 list) \<Rightarrow> u16 \<Rightarrow> IStunAuth option \<Rightarrow> CStunMessageReader \<Rightarrow> u8 list" where
  "auth_string f code pAuth r =
     (let zero = replicate AUTH_ARRAY_SIZE 0
      in if code = STUN_ERROR_UNAUTHORIZED \<or> code = STUN_ERROR_STALENONCE
         then (case pAuth of None \<Rightarrow> zero | Some p \<Rightarrow> strcpy_to zero (f (snd (snd (auth_call p r)))))
         else zero)"

definition request_error ::
  "(u8 list \<Rightarrow> u8 list \<Rightarrow> u8 list) \<Rightarrow> (u8 list \<Rightarrow> u8 list) \<Rightarrow> IStunAuth option \<Rightarrow> TransportAddressSet option
   \<Rightarrow> StunMessageIn \<Rightarrow> CStunMessageReader \<Rightarrow> StunErrorCode" where
  "request_error hmac md5 pAuth aset m r =
     (let code = request_code hmac md5 pAuth aset m r
      in \<lparr>er_errorcode = code, er_msgclass = StunMsgClassFailureResponse, er_msgtype = Reader_GetMessageType r,
          er_attribUnknown = 0, er_szNonce = auth_string ar_szNonce code pAuth r,
          er_szRealm = auth_string ar_szRealm code pAuth r\<rparr>)"

lemma request_code_cases:
  "request_code hmac md5 pAuth aset m r \<in> {0, STUN_ERROR_BADREQUEST, STUN_ERROR_UNAUTHORIZED, STUN_ERROR_STALENONCE}"
  by (auto simp: request_code_def auth_code_def split: option.splits prod.splits AuthResponseType.splits)

subsection \<open>Well-formed providers\<close>

definition attrs_wf :: "AuthAttributes \<Rightarrow> bool" where
  "attrs_wf a \<longleftrightarrow> auth_array (aa_szUser a) \<and> auth_array (aa_szRealm a) \<and> auth_array (aa_szNonce a) \<and>
     auth_array (aa_szLegacyPassword a)"

definition resp_wf :: "AuthResponse \<Rightarrow> bool" where
  "resp_wf p \<longleftrightarrow> length (ar_szPassword p) = AUTH_ARRAY_SIZE \<and> length (ar_szRealm p) = AUTH_ARRAY_SIZE \<and>
     length (ar_szNonce p) = AUTH_ARRAY_SIZE"

text \<open>A provider writes inside the arrays it is given and leaves the request's terminated.\<close>

definition auth_wf :: "IStunAuth \<Rightarrow> bool" where
  "auth_wf p \<longleftrightarrow> (\<forall>a resp. attrs_wf a \<longrightarrow> resp_wf resp \<longrightarrow>
     attrs_wf (fst (snd (p a resp))) \<and> resp_wf (snd (snd (p a resp))))"

lemma string_attr_array:
  assumes r: "rd_valid allow bs as r" and dst: "auth_array dst"
  shows "auth_array (snd (Reader_GetStringAttributeByType t dst r))"
proof (cases "last_attr t as")
  case (Some a)
  have "length (attr_data bs a) = unat (sa_size a)"
    using rd_valid_attr(4) [OF r, of a] last_attr_in [OF Some] by simp
  then show ?thesis using dst Some GetStringAttribute_valid [OF r, of t dst]
    by (auto simp: auth_array_def poke_def)
qed (use dst GetStringAttribute_valid [OF r, of t dst] in simp)

lemma ReadAuthAttributes_wf:
  "rd_valid allow bs as r \<Longrightarrow> attrs_wf (Handler_ReadAuthAttributes r)"
  by (simp add: Handler_ReadAuthAttributes_def AuthAttributes_zero_def attrs_wf_def string_attr_array)

lemma terminate_wf:
  assumes "resp_wf p"
  shows "auth_array (ar_szNonce (AuthResponse_terminate p))" "auth_array (ar_szRealm (AuthResponse_terminate p))"
    "auth_array (ar_szPassword (AuthResponse_terminate p))"
  using assms by (auto simp: resp_wf_def AuthResponse_terminate_def auth_array_def AUTH_ARRAY_SIZE_def
      set_update_memI)

lemma auth_call_wf:
  assumes "rd_valid allow bs as r" "auth_wf p" "auth_call p r = (hr, a, resp)"
  shows "attrs_wf a" "auth_array (ar_szNonce resp)" "auth_array (ar_szRealm resp)" "auth_array (ar_szPassword resp)"
proof -
  have z: "resp_wf AuthResponse_zero" by (simp add: resp_wf_def AuthResponse_zero_def)
  obtain resp0 where p: "p (Handler_ReadAuthAttributes r) AuthResponse_zero = (hr, a, resp0)" "resp = AuthResponse_terminate resp0"
    using assms(3) by (auto simp: auth_call_def split: prod.splits)
  from assms(2) [unfolded auth_wf_def, rule_format, OF ReadAuthAttributes_wf [OF assms(1)] z] p
  have "attrs_wf a" "resp_wf resp0" by simp_all
  then show "attrs_wf a" "auth_array (ar_szNonce resp)" "auth_array (ar_szRealm resp)" "auth_array (ar_szPassword resp)"
    using terminate_wf [of resp0] p by simp_all
qed

subsection \<open>The authentication step\<close>

text \<open>What the steps before the answer leave alone.\<close>

definition same_request :: "CStunRequestHandler \<Rightarrow> CStunRequestHandler \<Rightarrow> bool" where
  "same_request h h' \<longleftrightarrow> h_pAuth h' = h_pAuth h \<and> h_pAddrSet h' = h_pAddrSet h \<and> h_pMsgIn h' = h_pMsgIn h \<and>
     h_pMsgOut h' = h_pMsgOut h \<and> h_fRequestHasResponsePort h' = h_fRequestHasResponsePort h \<and>
     h_transid h' = h_transid h \<and> h_fLegacyMode h' = h_fLegacyMode h \<and>
     er_msgtype (h_error h') = er_msgtype (h_error h) \<and> er_msgclass (h_error h') = er_msgclass (h_error h) \<and>
     er_attribUnknown (h_error h') = er_attribUnknown (h_error h)"

lemma integrity_ok_key:
  assumes "auth_integrity_ok hmac md5 a p r"
  shows "(if ar_authCredMech p = AuthCredLongTerm
      then md5 (c_str (aa_szUser a) @ [0x3A] @ c_str (aa_szRealm a) @ [0x3A] @ c_str (ar_szPassword p))
      else c_str (ar_szPassword p)) \<noteq> []"
  using assms
  by (auto simp: auth_integrity_ok_def Reader_ValidateMessageIntegrityLong_def
      Reader_ValidateMessageIntegrityShort_def Reader_ValidateMessageIntegrity_def Let_def split: if_splits option.splits)

lemma CheckIntegrity_eq:
  "Handler_CheckIntegrity hmac md5 a p h =
     (if auth_integrity_ok hmac md5 a p (h_reader h)
      then h\<lparr>h_integrity := (h_integrity h)\<lparr>fSendWithIntegrity := True,
             fUseLongTerm := (ar_authCredMech p = AuthCredLongTerm),
             mg_szPassword := strcpy_to (mg_szPassword (h_integrity h)) (ar_szPassword p),
             mg_szUser := strcpy_to (mg_szUser (h_integrity h)) (aa_szUser a),
             mg_szRealm := strcpy_to (mg_szRealm (h_integrity h)) (aa_szRealm a)\<rparr>\<rparr>
      else h_set_error STUN_ERROR_UNAUTHORIZED h)"
  unfolding Handler_CheckIntegrity_def auth_integrity_ok_def Let_def by simp

lemma CheckIntegrity_ok:
  fixes hmac :: "u8 list \<Rightarrow> u8 list \<Rightarrow> u8 list" and md5 :: "u8 list \<Rightarrow> u8 list"
  assumes wf: "attrs_wf a" "auth_array (ar_szPassword p)" and h: "h_wf h" and e: "er_errorcode (h_error h) = 0"
  defines "h' \<equiv> Handler_CheckIntegrity hmac md5 a p h"
  shows "same_request h h'" "h_wf h'"
    "er_errorcode (h_error h') = (if auth_integrity_ok hmac md5 a p (h_reader h) then 0 else STUN_ERROR_UNAUTHORIZED)"
    "auth_integrity_ok hmac md5 a p (h_reader h) \<Longrightarrow> reply_key md5 (h_integrity h') =
       Some (if ar_authCredMech p = AuthCredLongTerm
         then md5 (c_str (aa_szUser a) @ [0x3A] @ c_str (aa_szRealm a) @ [0x3A] @ c_str (ar_szPassword p))
         else c_str (ar_szPassword p))"
proof -
  have arr: "auth_array (aa_szUser a)" "auth_array (aa_szRealm a)" using wf by (simp_all add: attrs_wf_def)
  show "same_request h h'" "h_wf h'"
    "er_errorcode (h_error h') = (if auth_integrity_ok hmac md5 a p (h_reader h) then 0 else STUN_ERROR_UNAUTHORIZED)"
    "auth_integrity_ok hmac md5 a p (h_reader h) \<Longrightarrow> reply_key md5 (h_integrity h') =
       Some (if ar_authCredMech p = AuthCredLongTerm
         then md5 (c_str (aa_szUser a) @ [0x3A] @ c_str (aa_szRealm a) @ [0x3A] @ c_str (ar_szPassword p))
         else c_str (ar_szPassword p))"
    using h e arr wf(2) unfolding h'_def CheckIntegrity_eq
    by (cases "auth_integrity_ok hmac md5 a p (h_reader h)";
        simp add: same_request_def h_wf_def auth_array_strcpy reply_key_def integrity_key_def)+
qed

lemma set_error_simps [simp]:
  "h_wf (h_set_error c h) = h_wf h" "same_request h (h_set_error c h)" "same_request h h"
  "h_reader (h_set_error c h) = h_reader h" "h_capacity (h_set_error c h) = h_capacity h"
  by (simp_all add: h_wf_def same_request_def h_reader_def h_capacity_def)

lemma same_request_trans: "same_request h h1 \<Longrightarrow> same_request h1 h2 \<Longrightarrow> same_request h h2"
  by (simp add: same_request_def)

text \<open>The last step of the authentication: the strings of a challenge.\<close>

definition auth_challenge :: "AuthResponse \<Rightarrow> CStunRequestHandler \<Rightarrow> CStunRequestHandler" where
  "auth_challenge p h =
     (if er_errorcode (h_error h) = STUN_ERROR_UNAUTHORIZED \<or> er_errorcode (h_error h) = STUN_ERROR_STALENONCE
      then h\<lparr>h_error := (h_error h)\<lparr>
             er_szRealm := strcpy_to (er_szRealm (h_error h)) (ar_szRealm p),
             er_szNonce := strcpy_to (er_szNonce (h_error h)) (ar_szNonce p)\<rparr>\<rparr>
      else h)"

lemma auth_challenge_ok:
  assumes "h_wf h" "auth_array (ar_szRealm p)" "auth_array (ar_szNonce p)"
  shows "h_wf (auth_challenge p h)" "same_request h (auth_challenge p h)"
    "er_errorcode (h_error (auth_challenge p h)) = er_errorcode (h_error h)"
    "h_integrity (auth_challenge p h) = h_integrity h"
  using assms by (simp_all add: auth_challenge_def h_wf_def same_request_def auth_array_strcpy)

lemma ValidateAuth_eq:
  assumes "h_pAuth h = Some p" "auth_call p (h_reader h) = (hr, a, resp)"
  shows "Handler_ValidateAuth hmac md5 h = (hr, if SUCCEEDED hr
    then auth_challenge resp (case ar_responseType resp of
        StaleNonce \<Rightarrow> h_set_error STUN_ERROR_STALENONCE h
      | Unauthorized \<Rightarrow> h_set_error STUN_ERROR_UNAUTHORIZED h
      | Reject \<Rightarrow> h_set_error STUN_ERROR_BADREQUEST h
      | Allow \<Rightarrow> h
      | AllowConditional \<Rightarrow> Handler_CheckIntegrity hmac md5 a resp h)
    else h)"
proof -
  obtain resp0 where p: "p (Handler_ReadAuthAttributes (h_reader h)) AuthResponse_zero = (hr, a, resp0)"
      "resp = AuthResponse_terminate resp0"
    using assms(2) by (auto simp: auth_call_def split: prod.splits)
  show ?thesis unfolding Handler_ValidateAuth_def assms(1) option.case p Let_def prod.case auth_challenge_def
    by (simp split del: if_split) simp
qed

lemma ValidateAuth_ok:
  fixes hmac :: "u8 list \<Rightarrow> u8 list \<Rightarrow> u8 list" and md5 :: "u8 list \<Rightarrow> u8 list"
  assumes r: "rd_valid allow bs as (h_reader h)" and h: "h_wf h"
    and e: "er_errorcode (h_error h) = 0" and off: "fSendWithIntegrity (h_integrity h) = False"
    and auth: "\<And>p. h_pAuth h = Some p \<Longrightarrow> auth_wf p"
  defines "h' \<equiv> (case Handler_ValidateAuth hmac md5 h of (hr, h') \<Rightarrow> Handler_generic_error hr h')"
  shows "same_request h h'" "h_wf h'" "er_errorcode (h_error h') = auth_code hmac md5 (h_pAuth h) (h_reader h)"
    "er_errorcode (h_error h') = 0 \<Longrightarrow> reply_key md5 (h_integrity h') = auth_key md5 (h_pAuth h) (h_reader h)"
    "er_errorcode (h_error h') = 0 \<Longrightarrow> reply_key md5 (h_integrity h') \<noteq> Some []"
proof -
  have "same_request h h' \<and> h_wf h' \<and> er_errorcode (h_error h') = auth_code hmac md5 (h_pAuth h) (h_reader h) \<and>
    (er_errorcode (h_error h') = 0 \<longrightarrow> reply_key md5 (h_integrity h') = auth_key md5 (h_pAuth h) (h_reader h) \<and>
      reply_key md5 (h_integrity h') \<noteq> Some [])"
  proof (cases "h_pAuth h")
    case None
    then show ?thesis using h e off
      by (simp add: h'_def Handler_ValidateAuth_def Handler_generic_error_def auth_code_def auth_key_def
          same_request_def reply_key_def)
  next
    case (Some p)
    obtain hr a resp where call: "auth_call p (h_reader h) = (hr, a, resp)" by (cases "auth_call p (h_reader h)") auto
    note wf = auth_call_wf [OF r auth [OF Some] call]
    note ci = CheckIntegrity_ok [where hmac = hmac and ?md5.0 = md5, OF wf(1,4) h e]
    note ch = auth_challenge_ok [OF _ wf(3,2)]
    note eq = ValidateAuth_eq [OF Some call, of hmac md5]
    have sr: "same_request h (auth_challenge resp g)" "h_wf (auth_challenge resp g)"
      if "same_request h g" "h_wf g" for g
      using that ch [of g] same_request_trans by blast+
    show ?thesis
    proof (cases "SUCCEEDED hr")
      case True
      then have h': "h' = auth_challenge resp (case ar_responseType resp of
          StaleNonce \<Rightarrow> h_set_error STUN_ERROR_STALENONCE h
        | Unauthorized \<Rightarrow> h_set_error STUN_ERROR_UNAUTHORIZED h
        | Reject \<Rightarrow> h_set_error STUN_ERROR_BADREQUEST h
        | Allow \<Rightarrow> h
        | AllowConditional \<Rightarrow> Handler_CheckIntegrity hmac md5 a resp h)"
        unfolding h'_def eq by (simp add: Handler_generic_error_def)
      have ac: "auth_code hmac md5 (Some p) (h_reader h) = (case ar_responseType resp of
            Allow \<Rightarrow> 0
          | AllowConditional \<Rightarrow> if auth_integrity_ok hmac md5 a resp (h_reader h) then 0 else STUN_ERROR_UNAUTHORIZED
          | StaleNonce \<Rightarrow> STUN_ERROR_STALENONCE
          | Reject \<Rightarrow> STUN_ERROR_BADREQUEST
          | Unauthorized \<Rightarrow> STUN_ERROR_UNAUTHORIZED)"
        using True by (simp add: auth_code_def call)
      show ?thesis
      proof (cases "ar_responseType resp")
        case AllowConditional
        then show ?thesis unfolding h' Some ac
          using sr [OF ci(1,2)] ch [OF ci(2)] ci(3,4) integrity_ok_key [of hmac md5 a resp "h_reader h"]
          by (cases "auth_integrity_ok hmac md5 a resp (h_reader h)")
            (simp_all add: auth_key_def Some call stun_error_defs)
      qed (use h e off ch [of h] ch [of "h_set_error _ h"] sr [of h] sr [of "h_set_error _ h"] in
          \<open>simp_all add: h' ac auth_key_def Some call reply_key_def stun_error_defs\<close>)
    qed (use h e in \<open>simp add: h'_def eq Handler_generic_error_def auth_code_def Some call stun_error_defs\<close>)
  qed
  then show "same_request h h'" "h_wf h'" "er_errorcode (h_error h') = auth_code hmac md5 (h_pAuth h) (h_reader h)"
    "er_errorcode (h_error h') = 0 \<Longrightarrow> reply_key md5 (h_integrity h') = auth_key md5 (h_pAuth h) (h_reader h)"
    "er_errorcode (h_error h') = 0 \<Longrightarrow> reply_key md5 (h_integrity h') \<noteq> Some []"
    by auto
qed

text \<open>The strings of the error after the authentication step.\<close>

lemma ValidateAuth_strings:
  fixes hmac :: "u8 list \<Rightarrow> u8 list \<Rightarrow> u8 list" and md5 :: "u8 list \<Rightarrow> u8 list"
  assumes e: "er_errorcode (h_error h) = 0"
    and z: "er_szNonce (h_error h) = replicate AUTH_ARRAY_SIZE 0" "er_szRealm (h_error h) = replicate AUTH_ARRAY_SIZE 0"
  defines "h' \<equiv> (case Handler_ValidateAuth hmac md5 h of (hr, h') \<Rightarrow> Handler_generic_error hr h')"
  shows "er_szNonce (h_error h') = auth_string ar_szNonce (er_errorcode (h_error h')) (h_pAuth h) (h_reader h)"
    "er_szRealm (h_error h') = auth_string ar_szRealm (er_errorcode (h_error h')) (h_pAuth h) (h_reader h)"
proof -
  have "er_szNonce (h_error h') = auth_string ar_szNonce (er_errorcode (h_error h')) (h_pAuth h) (h_reader h) \<and>
    er_szRealm (h_error h') = auth_string ar_szRealm (er_errorcode (h_error h')) (h_pAuth h) (h_reader h)"
  proof (cases "h_pAuth h")
    case None
    then show ?thesis using e z
      by (simp add: h'_def Handler_ValidateAuth_def Handler_generic_error_def auth_string_def stun_error_defs)
  next
    case (Some p)
    obtain hr a resp where call: "auth_call p (h_reader h) = (hr, a, resp)" by (cases "auth_call p (h_reader h)") auto
    note eq = ValidateAuth_eq [OF Some call, of hmac md5]
    have ch: "er_szNonce (h_error (auth_challenge resp g)) =
          (if er_errorcode (h_error g) = STUN_ERROR_UNAUTHORIZED \<or> er_errorcode (h_error g) = STUN_ERROR_STALENONCE
           then strcpy_to (er_szNonce (h_error g)) (ar_szNonce resp) else er_szNonce (h_error g)) \<and>
        er_szRealm (h_error (auth_challenge resp g)) =
          (if er_errorcode (h_error g) = STUN_ERROR_UNAUTHORIZED \<or> er_errorcode (h_error g) = STUN_ERROR_STALENONCE
           then strcpy_to (er_szRealm (h_error g)) (ar_szRealm resp) else er_szRealm (h_error g)) \<and>
        er_errorcode (h_error (auth_challenge resp g)) = er_errorcode (h_error g)" for g
      by (simp add: auth_challenge_def)
    show ?thesis
    proof (cases "SUCCEEDED hr")
      case True
      then have h': "h' = auth_challenge resp (case ar_responseType resp of
          StaleNonce \<Rightarrow> h_set_error STUN_ERROR_STALENONCE h
        | Unauthorized \<Rightarrow> h_set_error STUN_ERROR_UNAUTHORIZED h
        | Reject \<Rightarrow> h_set_error STUN_ERROR_BADREQUEST h
        | Allow \<Rightarrow> h
        | AllowConditional \<Rightarrow> Handler_CheckIntegrity hmac md5 a resp h)"
        unfolding h'_def eq by (simp add: Handler_generic_error_def)
      show ?thesis
      proof (cases "ar_responseType resp")
        case AllowConditional
        then show ?thesis unfolding h' using e z ch [of "Handler_CheckIntegrity hmac md5 a resp h"]
          by (cases "auth_integrity_ok hmac md5 a resp (h_reader h)")
            (simp_all add: CheckIntegrity_eq auth_string_def Some call)
      qed (use e z ch [of h] ch [of "h_set_error _ h"] in \<open>simp_all add: h' auth_string_def Some call stun_error_defs\<close>)
    qed (use e z in \<open>simp add: h'_def eq Handler_generic_error_def auth_string_def stun_error_defs\<close>)
  qed
  then show "er_szNonce (h_error h') = auth_string ar_szNonce (er_errorcode (h_error h')) (h_pAuth h) (h_reader h)"
    "er_szRealm (h_error h') = auth_string ar_szRealm (er_errorcode (h_error h')) (h_pAuth h) (h_reader h)"
    by blast+
qed

subsection \<open>The answer\<close>

lemma handler_addresses_cong:
  assumes "h_pMsgIn h = h_pMsgIn g" "h_pAddrSet h = h_pAddrSet g"
  shows "Handler_ChangeRole h = Handler_ChangeRole g"
    "Handler_OtherAddress h = Handler_OtherAddress g"
    "Handler_OriginAddress r h = Handler_OriginAddress r g"
  unfolding Handler_ChangeRole_def Handler_OtherAddress_def Handler_OriginAddress_def Handler_HasAddress_def
    Handler_IsIPAddressZeroOrInvalid_def h_reader_def assms by (rule refl)+

text \<open>The attributes of the success response, as a function of the request.\<close>

definition success_attrs :: "TransportAddressSet option \<Rightarrow> StunMessageIn \<Rightarrow> CStunMessageReader \<Rightarrow> SocketRole \<Rightarrow> wire_attr list" where
  "success_attrs aset m r out = binding_attrs out (Handler_new None aset m
     \<lparr>out_socketrole = 0, out_addrDest = CSocketAddress_zero, out_spBufferOut = None\<rparr>
     \<lparr>h_transid := Reader_GetTransactionId r, h_fLegacyMode := Reader_IsMessageLegacyFormat r\<rparr>)"

lemma binding_attrs_cong:
  assumes "h_pMsgIn h = h_pMsgIn g" "h_pAddrSet h = h_pAddrSet g" "h_transid h = h_transid g"
    "h_fLegacyMode h = h_fLegacyMode g"
  shows "binding_attrs out h = binding_attrs out g"
  unfolding binding_attrs_def handler_addresses_cong [OF assms(1,2)] assms ..

lemma success_attrs_eq:
  assumes "h_pMsgIn h = m" "h_pAddrSet h = aset" "h_transid h = Reader_GetTransactionId r"
    "h_fLegacyMode h = Reader_IsMessageLegacyFormat r"
  shows "binding_attrs out h = success_attrs aset m r out"
  unfolding success_attrs_def using assms by (intro binding_attrs_cong) (simp_all add: Handler_new_def)

definition out_answers :: "StunMessageOut \<Rightarrow> nat \<Rightarrow> u8 list \<Rightarrow> bool" where
  "out_answers m cap bs \<longleftrightarrow> (\<exists>buf. out_spBufferOut m = Some buf \<and> buf_wf buf \<and>
     b_allocated buf = cap \<and> buf_bytes buf = bs)"

lemma h_answered_out: "h_answered h cap bs = out_answers (h_pMsgOut h) cap bs"
  by (simp add: h_answered_def out_answers_def)

text \<open>A request that can be handled: what the caller of \<^verbatim>\<open>ProcessRequest\<close> provides.\<close>

definition request_wf :: "bool \<Rightarrow> u8 list \<Rightarrow> StunAttribute list \<Rightarrow> StunMessageIn \<Rightarrow> StunMessageOut
    \<Rightarrow> TransportAddressSet \<Rightarrow> IStunAuth option \<Rightarrow> CStunMessageReader \<Rightarrow> nat \<Rightarrow> bool" where
  "request_wf allow bs as m out aset pAuth r cap \<longleftrightarrow>
     in_pReader m = Some r \<and> rd_valid allow bs as r \<and> IsValidSocketRole (in_socketrole m) \<and>
     sa_wf (in_addrRemote m) \<and> sa_wf (in_addrLocal m) \<and>
     (\<exists>buf. out_spBufferOut out = Some buf \<and> buf_wf buf \<and> b_allocated buf = cap) \<and> MAX_STUN_MESSAGE_SIZE \<le> cap \<and>
     length aset = 4 \<and> (\<forall>ta \<in> set aset. sa_wf (ta_addr ta)) \<and> (\<forall>p. pAuth = Some p \<longrightarrow> auth_wf p)"

lemma rd_valid_transid: "rd_valid allow bs as r \<Longrightarrow> length (Reader_GetTransactionId r) = 16"
  using rd_head_fields [OF rd_validD(3), of allow bs as r] rd_validD(7) [of allow bs as r]
  by (simp add: Reader_GetTransactionId_def msg_id_def)

text \<open>The handler after the request has been looked at and before it is authenticated.\<close>

definition h_begin :: "IStunAuth option \<Rightarrow> TransportAddressSet option \<Rightarrow> StunMessageIn \<Rightarrow> StunMessageOut
    \<Rightarrow> CStunMessageReader \<Rightarrow> CStunRequestHandler" where
  "h_begin pAuth aset m out r =
     (let h = Handler_new pAuth aset m out;
          h = h\<lparr>h_error := (h_error h)\<lparr>er_msgtype := Reader_GetMessageType r,
                                      er_msgclass := StunMsgClassFailureResponse\<rparr>\<rparr>;
          h = h\<lparr>h_transid := Reader_GetTransactionId r, h_fLegacyMode := Reader_IsMessageLegacyFormat r\<rparr>;
          h = (if response_port r \<noteq> 0
               then if in_fConnectionOriented m
                    then h_set_error STUN_ERROR_BADREQUEST (h\<lparr>h_fRequestHasResponsePort := True\<rparr>)
                    else h\<lparr>h_fRequestHasResponsePort := True, h_pMsgOut := out\<lparr>out_addrDest :=
                              CSocketAddress_SetPort (response_port r) (out_addrDest out)\<rparr>\<rparr>
               else h)
      in if er_errorcode (h_error h) = 0 \<and> Reader_GetMessageType r \<noteq> StunMsgTypeBinding
         then h_set_error STUN_ERROR_BADREQUEST h else h)"

lemma ProcessRequestImpl_begin:
  assumes "in_pReader m = Some r" "Reader_GetMessageClass r = StunMsgClassRequest"
  shows "Handler_ProcessRequestImpl hmac md5 (Handler_new pAuth aset m out) =
    (let h = h_begin pAuth aset m out r;
         h = (if er_errorcode (h_error h) = 0
              then (case Handler_ValidateAuth hmac md5 h of (hr, h) \<Rightarrow> Handler_generic_error hr h) else h);
         h = (if er_errorcode (h_error h) = 0
              then (case Handler_ProcessBindingRequest hmac md5 h of (hr, h) \<Rightarrow> Handler_generic_error hr h) else h)
     in (S_OK, if er_errorcode (h_error h) \<noteq> 0 then Handler_BuildErrorResponse h else h))"
proof -
  have r: "h_reader (Handler_new pAuth aset m out) = r" using assms(1) by (simp add: h_reader_def Handler_new_def)
  have b: "(let h = Handler_new pAuth aset m out;
          h = h\<lparr>h_error := (h_error h)\<lparr>er_msgtype := Reader_GetMessageType r,
                                      er_msgclass := StunMsgClassFailureResponse\<rparr>\<rparr>;
          h = h\<lparr>h_transid := Reader_GetTransactionId r\<rparr>;
          h = h\<lparr>h_fLegacyMode := Reader_IsMessageLegacyFormat r\<rparr>;
          h = (if response_port r \<noteq> 0
               then (let h = h\<lparr>h_fRequestHasResponsePort := True\<rparr>
                     in if in_fConnectionOriented (h_pMsgIn h) then h_set_error STUN_ERROR_BADREQUEST h
                        else h\<lparr>h_pMsgOut := (h_pMsgOut h)\<lparr>out_addrDest :=
                              CSocketAddress_SetPort (response_port r) (out_addrDest (h_pMsgOut h))\<rparr>\<rparr>)
               else h)
      in if er_errorcode (h_error h) = 0
         then if Reader_GetMessageType r \<noteq> StunMsgTypeBinding then h_set_error STUN_ERROR_BADREQUEST h else h
         else h) = h_begin pAuth aset m out r"
    by (simp add: h_begin_def Let_def Handler_new_def)
  show ?thesis
    unfolding b [symmetric] Handler_ProcessRequestImpl_def r response_port_def [symmetric]
    using assms(2) by (simp only: Let_def if_False not_not refl simp_thms)
qed

lemma h_begin_ok:
  assumes wf: "request_wf allow bs as m out0 aset pAuth r cap"
    and out: "out_spBufferOut out = map_option (\<lambda>b. b\<lparr>b_size := 0\<rparr>) (out_spBufferOut out0)"
      "out_addrDest out = in_addrRemote m"
  defines "h \<equiv> h_begin pAuth (Some aset) m out r"
  shows "h_wf h" "h_capacity h = cap" "h_pMsgIn h = m" "h_pAddrSet h = Some aset" "h_pAuth h = pAuth"
    "h_transid h = Reader_GetTransactionId r" "h_fLegacyMode h = Reader_IsMessageLegacyFormat r" "h_reader h = r"
    "fSendWithIntegrity (h_integrity h) = False" "er_attribUnknown (h_error h) = 0"
    "er_msgtype (h_error h) = Reader_GetMessageType r" "er_msgclass (h_error h) = StunMsgClassFailureResponse"
    "out_socketrole (h_pMsgOut h) = out_socketrole out" "out_addrDest (h_pMsgOut h) = answer_dest m r"
    "h_fRequestHasResponsePort h \<longleftrightarrow> response_port r \<noteq> 0"
    "er_errorcode (h_error h) = (if response_port r \<noteq> 0 \<and> in_fConnectionOriented m \<or>
       Reader_GetMessageType r \<noteq> StunMsgTypeBinding then STUN_ERROR_BADREQUEST else 0)"
proof -
  note W = wf [unfolded request_wf_def]
  obtain b where b: "out_spBufferOut out = Some (b\<lparr>b_size := 0\<rparr>)" "buf_wf b" "b_allocated b = cap"
    using W out(1) by auto
  have b0: "buf_wf (b\<lparr>b_size := 0\<rparr>)" "MAX_STUN_MESSAGE_SIZE \<le> cap" using b W by (auto intro: buf_wf_SetSize)
  have tid: "length (Reader_GetTransactionId r) = 16" using W by (auto intro: rd_valid_transid)
  note defs = h_def h_begin_def Let_def Handler_new_def
  have arr: "auth_array (replicate AUTH_ARRAY_SIZE 0)" by simp
  show "h_pMsgIn h = m" "h_pAddrSet h = Some aset" "h_pAuth h = pAuth" "h_transid h = Reader_GetTransactionId r"
    "h_fLegacyMode h = Reader_IsMessageLegacyFormat r" "h_reader h = r"
    "fSendWithIntegrity (h_integrity h) = False" "er_attribUnknown (h_error h) = 0"
    "er_msgtype (h_error h) = Reader_GetMessageType r" "er_msgclass (h_error h) = StunMsgClassFailureResponse"
    "out_socketrole (h_pMsgOut h) = out_socketrole out" "out_addrDest (h_pMsgOut h) = answer_dest m r"
    "h_fRequestHasResponsePort h \<longleftrightarrow> response_port r \<noteq> 0"
    "er_errorcode (h_error h) = (if response_port r \<noteq> 0 \<and> in_fConnectionOriented m \<or>
       Reader_GetMessageType r \<noteq> StunMsgTypeBinding then STUN_ERROR_BADREQUEST else 0)"
    using W out(2) by (simp_all add: defs h_reader_def answer_dest_def stun_error_defs)
  show "h_capacity h = cap" using b by (simp add: defs h_capacity_def)
  show "h_wf h" using W b b0 tid arr by (simp add: defs h_wf_def)
qed

theorem ProcessRequest_answer:
  assumes wf: "request_wf allow bs as m out aset pAuth r cap"
    and cls: "Reader_GetMessageClass r = StunMsgClassRequest" and hm: "\<And>k m. length (hmac k m) = 20"
  obtains out' where "Handler_ProcessRequest hmac md5 m out (Some aset) pAuth = (S_OK, out')"
    "out_addrDest out' = answer_dest m r"
    "request_code hmac md5 pAuth (Some aset) m r = 0 \<Longrightarrow>
      answer_role (Some aset) m = Some (out_socketrole out') \<and>
      out_answers out' cap (msg_bytes success_field (Reader_GetTransactionId r)
        (with_integrity hmac success_field (Reader_GetTransactionId r) (auth_key md5 pAuth r)
          (success_attrs (Some aset) m r (out_socketrole out'))))"
    "request_code hmac md5 pAuth (Some aset) m r \<noteq> 0 \<Longrightarrow>
      out_socketrole out' = in_socketrole m \<and>
      (\<exists>err. err = request_error hmac md5 pAuth (Some aset) m r \<and>
        er_errorcode err = request_code hmac md5 pAuth (Some aset) m r \<and>
        er_msgtype err = Reader_GetMessageType r \<and> er_msgclass err = StunMsgClassFailureResponse \<and>
        auth_array (er_szNonce err) \<and> auth_array (er_szRealm err) \<and>
        out_answers out' cap (msg_bytes (error_field err) (Reader_GetTransactionId r)
          (error_attrs (Reader_IsMessageLegacyFormat r) err)))"
proof -
  note W = wf [unfolded request_wf_def]
  let ?code = "request_code hmac md5 pAuth (Some aset) m r"
  obtain b where b: "out_spBufferOut out = Some b" "b_allocated b = cap" "MAX_STUN_MESSAGE_SIZE \<le> cap" using W by auto
  define out1 where "out1 = out\<lparr>out_spBufferOut := Some (b\<lparr>b_size := 0\<rparr>), out_socketrole := in_socketrole m,
      out_addrDest := in_addrRemote m\<rparr>"
  define h1 where "h1 = h_begin pAuth (Some aset) m out1 r"
  have "out_spBufferOut out1 = map_option (\<lambda>b. b\<lparr>b_size := 0\<rparr>) (out_spBufferOut out)" "out_addrDest out1 = in_addrRemote m"
    by (simp_all add: out1_def b)
  note h1 = h_begin_ok [OF wf this, folded h1_def]
  define h2 where "h2 = (if er_errorcode (h_error h1) = 0
      then (case Handler_ValidateAuth hmac md5 h1 of (hr, h) \<Rightarrow> Handler_generic_error hr h) else h1)"
  have v: "rd_valid allow bs as (h_reader h1)" "\<And>p. h_pAuth h1 = Some p \<Longrightarrow> auth_wf p" using W h1 by simp_all
  have h2: "same_request h1 h2" "h_wf h2" "er_errorcode (h_error h2) =
      (if er_errorcode (h_error h1) = 0 then auth_code hmac md5 pAuth r else er_errorcode (h_error h1))"
    "er_errorcode (h_error h2) = 0 \<Longrightarrow> reply_key md5 (h_integrity h2) = auth_key md5 pAuth r \<and>
       reply_key md5 (h_integrity h2) \<noteq> Some []"
    using ValidateAuth_ok [OF v(1) h1(1) _ h1(9) v(2), of hmac md5] h1 by (auto simp: h2_def)
  have h2s: "h_pMsgIn h2 = m" "h_pAddrSet h2 = Some aset" "h_transid h2 = Reader_GetTransactionId r"
    "h_fLegacyMode h2 = Reader_IsMessageLegacyFormat r" "h_reader h2 = r" "h_capacity h2 = cap"
    "er_attribUnknown (h_error h2) = 0" "er_msgtype (h_error h2) = Reader_GetMessageType r"
    "er_msgclass (h_error h2) = StunMsgClassFailureResponse" "out_socketrole (h_pMsgOut h2) = in_socketrole m"
    "out_addrDest (h_pMsgOut h2) = answer_dest m r" "h_fRequestHasResponsePort h2 \<longleftrightarrow> response_port r \<noteq> 0"
    using h2(1) h1 by (simp_all add: same_request_def h_reader_def h_capacity_def out1_def)
  have strings: "er_szNonce (h_error h2) = auth_string ar_szNonce (er_errorcode (h_error h2)) pAuth r"
    "er_szRealm (h_error h2) = auth_string ar_szRealm (er_errorcode (h_error h2)) pAuth r"
  proof -
    have z: "er_szNonce (h_error h1) = replicate AUTH_ARRAY_SIZE 0" "er_szRealm (h_error h1) = replicate AUTH_ARRAY_SIZE 0"
      by (simp_all add: h1_def h_begin_def Handler_new_def Let_def)
    show "er_szNonce (h_error h2) = auth_string ar_szNonce (er_errorcode (h_error h2)) pAuth r"
      "er_szRealm (h_error h2) = auth_string ar_szRealm (er_errorcode (h_error h2)) pAuth r"
      using ValidateAuth_strings [OF _ z, of hmac md5] h1(5,8,16) z
      by (auto simp: h2_def auth_string_def stun_error_defs)
  qed
  have role: "Handler_ChangeRole h2 = answer_role (Some aset) m"
    unfolding answer_role_def by (rule handler_addresses_cong(1)) (simp_all add: h2s Handler_new_def)
  define h3 where "h3 = (if er_errorcode (h_error h2) = 0
      then (case Handler_ProcessBindingRequest hmac md5 h2 of (hr, h) \<Rightarrow> Handler_generic_error hr h) else h2)"
  define h4 where "h4 = (if er_errorcode (h_error h3) \<noteq> 0 then Handler_BuildErrorResponse h3 else h3)"
  have run: "Handler_ProcessRequest hmac md5 m out (Some aset) pAuth = (S_OK, h_pMsgOut h4)"
  proof -
    have "Handler_ProcessRequestImpl hmac md5 (Handler_new pAuth (Some aset) m out1) = (S_OK, h4)"
      using ProcessRequestImpl_begin [of m r hmac md5 pAuth "Some aset" out1] W cls
      unfolding h4_def h3_def h2_def h1_def by (simp only: Let_def)
    then show ?thesis using W b rd_validD(1) [of allow bs as r]
      by (auto simp: Handler_ProcessRequest_def CBuffer_GetAllocatedSize_def Reader_GetState_def out1_def Let_def)
  qed
  have code: "?code = (if er_errorcode (h_error h2) \<noteq> 0 then er_errorcode (h_error h2)
      else if response_port r \<noteq> 0 \<and> has_padding r then STUN_ERROR_BADREQUEST
      else if answer_role (Some aset) m = None then STUN_ERROR_BADREQUEST else 0)"
    unfolding request_code_def h2(3) h1(16) by (simp add: stun_error_defs)
  have cond: "h_fRequestHasResponsePort h2 \<and> SUCCEEDED (fst (Reader_GetPaddingAttributeSize (h_reader h2))) \<longleftrightarrow>
      response_port r \<noteq> 0 \<and> has_padding r"
    by (simp add: h2s has_padding_def)
  show ?thesis
  proof (cases "?code = 0")
    case True
    then have e2: "er_errorcode (h_error h2) = 0" using code by (auto split: if_splits)
    obtain role where rl: "answer_role (Some aset) m = Some role" "\<not> (response_port r \<noteq> 0 \<and> has_padding r)"
      using True code e2 by (auto simp: stun_error_defs split: if_splits)
    have key: "reply_key md5 (h_integrity h2) \<noteq> Some []" using h2(4) [OF e2] by blast
    obtain h' where h': "Handler_ProcessBindingRequest hmac md5 h2 = (S_OK, h')" "h_error h' = h_error h2"
      "out_socketrole (h_pMsgOut h') = role" "out_addrDest (h_pMsgOut h') = out_addrDest (h_pMsgOut h2)"
      "h_answered h' (h_capacity h2) (msg_bytes success_field (h_transid h2)
         (with_integrity hmac success_field (h_transid h2) (reply_key md5 (h_integrity h2)) (binding_attrs role h2)))"
      by (rule ProcessBindingRequest_ok [where hmac = hmac and ?md5.0 = md5, OF h2(2) role [unfolded rl(1)]])
        (use rl(2) cond hm key in simp_all)
    have "h4 = h'" using e2 h' by (simp add: h4_def h3_def Handler_generic_error_def)
    moreover have "binding_attrs role h2 = success_attrs (Some aset) m r role"
      by (rule success_attrs_eq) (simp_all add: h2s)
    ultimately show ?thesis
      using that [OF run] True h' rl(1) h2(4) [OF e2] by (simp add: h2s h_answered_out)
  next
    case False
    have h3: "h_wf h3 \<and> er_errorcode (h_error h3) = ?code \<and> er_msgtype (h_error h3) = Reader_GetMessageType r \<and>
      er_msgclass (h_error h3) = StunMsgClassFailureResponse \<and> er_attribUnknown (h_error h3) = 0 \<and>
      h_transid h3 = Reader_GetTransactionId r \<and> h_fLegacyMode h3 = Reader_IsMessageLegacyFormat r \<and>
      h_capacity h3 = cap \<and> out_socketrole (h_pMsgOut h3) = in_socketrole m \<and> out_addrDest (h_pMsgOut h3) = answer_dest m r \<and>
      er_szNonce (h_error h3) = auth_string ar_szNonce ?code pAuth r \<and> er_szRealm (h_error h3) = auth_string ar_szRealm ?code pAuth r"
    proof (cases "er_errorcode (h_error h2) = 0")
      case True
      with False code cond role have "Handler_ChangeRole h2 = None \<or>
          h_fRequestHasResponsePort h2 \<and> SUCCEEDED (fst (Reader_GetPaddingAttributeSize (h_reader h2)))"
        by (auto split: if_splits)
      from ProcessBindingRequest_refused [OF h2(2) this, of hmac md5]
      obtain h' where h': "Handler_ProcessBindingRequest hmac md5 h2 = (E_FAIL, h')"
        "h_error h' = (h_error h2)\<lparr>er_errorcode := STUN_ERROR_BADREQUEST\<rparr>" "h_wf h'" "h_capacity h' = h_capacity h2"
        "h_transid h' = h_transid h2" "h_fLegacyMode h' = h_fLegacyMode h2"
        "out_socketrole (h_pMsgOut h') = out_socketrole (h_pMsgOut h2)"
        "out_addrDest (h_pMsgOut h') = out_addrDest (h_pMsgOut h2)" by metis
      have "?code = STUN_ERROR_BADREQUEST" using False True code by (auto split: if_splits)
      then show ?thesis using True h' strings
        by (simp add: h3_def Handler_generic_error_def stun_error_defs h2s auth_string_def)
    qed (use code h2(2) h2s strings in \<open>simp add: h3_def\<close>)
    then have e: "300 \<le> er_errorcode (h_error h3)" "er_errorcode (h_error h3) \<le> 600"
      using False request_code_cases [of hmac md5 pAuth "Some aset" m r] by (auto simp: stun_error_defs)
    note be = BuildErrorResponse_ok [OF h3 [THEN conjunct1] e]
    have h4: "h4 = Handler_BuildErrorResponse h3" using False h3 by (simp add: h4_def)
    have "auth_array (er_szNonce (h_error h3))" "auth_array (er_szRealm (h_error h3))"
      using conjunct1 [OF h3] by (simp_all add: h_wf_def)
    moreover have "h_error h3 = request_error hmac md5 pAuth (Some aset) m r"
      using h3 by (simp add: request_error_def Let_def)
    ultimately show ?thesis
      using that [OF run] False h3 be by (simp add: h4 h_answered_out)
  qed
qed

end
