(* ===== verification/Transaction.thy ===== *)
theory Transaction
  imports RequestSpec
begin

text \<open>
  A binding transaction seen from the client: the answer the handler put into the output buffer is
  read with a new message reader, and the lemmas say what the client finds in it.
\<close>

definition answer_bytes :: "StunMessageOut \<Rightarrow> u8 list" where
  "answer_bytes out = (case out_spBufferOut out of None \<Rightarrow> [] | Some buf \<Rightarrow> buf_bytes buf)"

definition answer_reader :: "StunMessageOut \<Rightarrow> CStunMessageReader" where
  "answer_reader out = snd (Reader_AddBytes (answer_bytes out) Reader_new)"

lemma enc_attrs_bound:
  "\<forall>(t, d) \<in> set as. length d \<le> n \<Longrightarrow> length (enc_attrs as) \<le> length as * (n + 7)"
proof (induction as)
  case (Cons a as)
  obtain t d where "a = (t, d)" by (cases a)
  then show ?case using Cons pad4_le [of "length d"] by (auto simp: length_enc_attr)
qed simp

lemma wire_okI:
  assumes "length as \<le> 5" "\<forall>(t, d) \<in> set as. length d \<le> 64"
  shows "wire_ok as" "length (enc_attrs as) \<le> 355"
proof -
  have "length (enc_attrs as) \<le> length as * 71" using enc_attrs_bound [OF assms(2)] by simp
  also have "\<dots> \<le> 5 * 71" using assms(1) by simp
  finally show n: "length (enc_attrs as) \<le> 355" by simp
  show "wire_ok as" using n assms
    by (auto simp: wire_ok_def MAX_STUN_ATTRIBUTE_SIZE_def MAX_NUM_ATTRIBUTES_def MAX_STUN_MESSAGE_SIZE_def)
qed

lemma answer_read:
  assumes "out_answers out cap (msg_bytes field tid as)" "wire_ok as" "field AND 0xc000 = 0" "length tid = 16"
  shows "rd_msg True field tid as (answer_reader out)" "answer_bytes out = msg_bytes field tid as"
    "fst (Reader_AddBytes (answer_bytes out) Reader_new) = BodyValidated"
    "Reader_GetState (answer_reader out) = BodyValidated" "length (answer_bytes out) = 20 + length (enc_attrs as)"
proof -
  show b: "answer_bytes out = msg_bytes field tid as"
    using assms(1) by (auto simp: out_answers_def answer_bytes_def)
  show "rd_msg True field tid as (answer_reader out)"
    using read_rd_msg [OF Reader_new_inv assms(4,2,3)] b by (simp add: answer_reader_def)
  show "fst (Reader_AddBytes (answer_bytes out) Reader_new) = BodyValidated"
    using read_msg(1) [OF Reader_new_inv assms(4,2,3)] b by simp
  show "Reader_GetState (answer_reader out) = BodyValidated"
    using rd_validD(1) [OF read_msg(2) [OF Reader_new_inv assms(4,2,3)]] b
    by (simp add: answer_reader_def Reader_GetState_def)
  show "length (answer_bytes out) = 20 + length (enc_attrs as)"
    using msg_bytes_view(5) [OF assms(4), of field as] by (simp add: b)
qed

subsection \<open>The success response\<close>

lemma attr_types_distinct [simp]:
  "origin_type l \<noteq> STUN_ATTRIBUTE_MAPPEDADDRESS" "other_type l \<noteq> STUN_ATTRIBUTE_MAPPEDADDRESS"
  "xor_type l \<noteq> STUN_ATTRIBUTE_MAPPEDADDRESS" "STUN_ATTRIBUTE_MESSAGEINTEGRITY \<noteq> STUN_ATTRIBUTE_MAPPEDADDRESS"
  "STUN_ATTRIBUTE_MAPPEDADDRESS \<noteq> xor_type l" "origin_type l \<noteq> xor_type k" "other_type l \<noteq> xor_type k"
  "STUN_ATTRIBUTE_MESSAGEINTEGRITY \<noteq> xor_type l" "STUN_ATTRIBUTE_MAPPEDADDRESS \<noteq> other_type l"
  "origin_type l \<noteq> other_type k" "xor_type l \<noteq> other_type k" "STUN_ATTRIBUTE_MESSAGEINTEGRITY \<noteq> other_type l"
  "STUN_ATTRIBUTE_MAPPEDADDRESS \<noteq> origin_type l" "xor_type l \<noteq> origin_type k" "other_type l \<noteq> origin_type k"
  "STUN_ATTRIBUTE_MESSAGEINTEGRITY \<noteq> origin_type l"
  "xor_type l = xor_type k \<longleftrightarrow> l = k" "other_type l = other_type k \<longleftrightarrow> l = k" "origin_type l = origin_type k \<longleftrightarrow> l = k"
  by (simp_all add: origin_type_def other_type_def xor_type_def stun_attribute_defs)

text \<open>The addresses a success response is made of.\<close>

definition origin_address :: "TransportAddressSet \<Rightarrow> StunMessageIn \<Rightarrow> SocketRole \<Rightarrow> CSocketAddress" where
  "origin_address aset m out =
     (let a = ta_addr (aset ! unat out) in
      if CSocketAddress_IsIPAddressZero a \<and> out = in_socketrole m then in_addrLocal m else a)"

definition other_address :: "TransportAddressSet \<Rightarrow> StunMessageIn \<Rightarrow> CSocketAddress option" where
  "other_address aset m =
     (let a = ta_addr (aset ! unat (SocketRoleSwapIP (SocketRoleSwapPort (in_socketrole m)))) in
      if (\<forall>ta \<in> set aset. ta_fValid ta) \<and> \<not> CSocketAddress_IsIPAddressZero a then Some a else None)"

lemma list4: "length xs = 4 \<Longrightarrow> \<exists>a b c d. xs = [a, b, c, d]"
  by (rule list_of_length4)

lemma success_attrs_list:
  assumes "length aset = 4" "IsValidSocketRole (in_socketrole m)"
  shows "success_attrs (Some aset) m r out =
     [(STUN_ATTRIBUTE_MAPPEDADDRESS, addr_attr (in_addrRemote m))] @
     (if CSocketAddress_IsIPAddressZero (origin_address aset m out) then []
      else [(origin_type (Reader_IsMessageLegacyFormat r), addr_attr (origin_address aset m out))]) @
     (case other_address aset m of None \<Rightarrow> []
      | Some a \<Rightarrow> [(other_type (Reader_IsMessageLegacyFormat r), addr_attr a)]) @
     [(xor_type (Reader_IsMessageLegacyFormat r),
       addr_attr (CSocketAddress_ApplyStunXorMap (Reader_GetTransactionId r) (in_addrRemote m)))]"
proof -
  let ?h = "Handler_new None (Some aset) m
     \<lparr>out_socketrole = 0, out_addrDest = CSocketAddress_zero, out_spBufferOut = None\<rparr>
     \<lparr>h_transid := Reader_GetTransactionId r, h_fLegacyMode := Reader_IsMessageLegacyFormat r\<rparr>"
  obtain a b c d where aset: "aset = [a, b, c, d]" using list4 [OF assms(1)] by blast
  have f: "h_pMsgIn ?h = m" "h_fLegacyMode ?h = Reader_IsMessageLegacyFormat r"
    "h_transid ?h = Reader_GetTransactionId r" by (simp_all add: Handler_new_def)
  have org: "Handler_OriginAddress out ?h = origin_address aset m out"
    by (auto simp: Handler_OriginAddress_def origin_address_def Handler_new_def Let_def)
  have oth: "Handler_OtherAddress ?h = other_address aset m"
    using assms(2)
    by (cases rule: SocketRole_cases)
      (simp_all add: Handler_OtherAddress_def other_address_def Handler_HasAddress_def
        Handler_IsIPAddressZeroOrInvalid_def Handler_new_def Let_def aset, simp_all add: socket_role_defs, auto)
  show ?thesis unfolding success_attrs_def binding_attrs_def f org oth ..
qed

lemma request_addresses:
  assumes "request_wf allow bs as m out aset pAuth r cap" "IsValidSocketRole role"
  shows "sa_wf (origin_address aset m role)" "other_address aset m = Some a \<Longrightarrow> sa_wf a"
    "sa_wf (in_addrRemote m)" "length aset = 4" "IsValidSocketRole (in_socketrole m)"
    "length (Reader_GetTransactionId r) = 16"
proof -
  note W = assms(1) [unfolded request_wf_def]
  have mem: "sa_wf (ta_addr (aset ! unat k))" if "IsValidSocketRole k" for k
    using that W by (cases rule: SocketRole_cases) (auto simp: socket_role_defs)
  show "sa_wf (origin_address aset m role)"
    using W mem [OF assms(2)] by (simp add: origin_address_def Let_def)
  show "other_address aset m = Some a \<Longrightarrow> sa_wf a"
    using W mem SocketRole_swap_swap [of "in_socketrole m"] SocketRole_swap_swap [of "SocketRoleSwapPort (in_socketrole m)"]
    by (auto simp: other_address_def Let_def split: if_splits)
  show "sa_wf (in_addrRemote m)" "length aset = 4" "IsValidSocketRole (in_socketrole m)"
    "length (Reader_GetTransactionId r) = 16"
    using W by (auto intro: rd_valid_transid)
qed

lemma answer_role_valid:
  assumes "request_wf allow bs as m out aset pAuth r cap" "answer_role (Some aset) m = Some role"
  shows "IsValidSocketRole role"
  using assms
  by (auto simp: answer_role_def Handler_ChangeRole_def Let_def Handler_HasAddress_def request_wf_def Handler_new_def
      split: if_splits prod.splits)

lemma success_wire_ok:
  assumes wf: "request_wf allow bs as m out aset pAuth r cap" and role: "IsValidSocketRole role"
    and hm: "\<And>k m. length (hmac k m) = 20"
  shows "wire_ok (with_integrity hmac field tid k (success_attrs (Some aset) m r role))"
    "length (enc_attrs (with_integrity hmac field tid k (success_attrs (Some aset) m r role))) \<le> 355"
proof -
  note a = request_addresses [OF wf role]
  have l: "length (addr_attr a) \<le> 64" if "sa_wf a" for a using length_addr_attr [OF that] by auto
  let ?as = "with_integrity hmac field tid k (success_attrs (Some aset) m r role)"
  have "length ?as \<le> 5"
    unfolding success_attrs_list [OF a(4,5)] with_integrity_def by (simp split: option.split)
  moreover have "(t, d) \<in> set (success_attrs (Some aset) m r role) \<Longrightarrow> length d \<le> 64" for t d
    unfolding success_attrs_list [OF a(4,5)]
    using l [OF a(1)] l [OF a(3)] l [OF a(2)] l [OF ApplyStunXorMap_wf [OF a(3)], of "Reader_GetTransactionId r"]
    by (auto split: if_splits option.splits)
  then have "\<forall>(t, d) \<in> set ?as. length d \<le> 64"
    using hm by (cases k) (auto simp: with_integrity_def)
  ultimately show "wire_ok ?as" "length (enc_attrs ?as) \<le> 355" by (auto dest: wire_okI)
qed

lemma success_field_ok [simp]:
  "success_field AND 0xc000 = 0" "class_of_field success_field = StunMsgClassSuccessResponse"
  "type_of_field success_field = StunMsgTypeBinding"
  using field_roundtrip(3) [of StunMsgTypeBinding StunMsgClassSuccessResponse]
    field_roundtrip(2) [of StunMsgClassSuccessResponse StunMsgTypeBinding]
    field_roundtrip(1) [of StunMsgTypeBinding StunMsgClassSuccessResponse]
  by (simp_all add: success_field_def stun_message_defs)

lemma success_lookup:
  assumes wf: "request_wf allow bs as m out aset pAuth r cap" and role: "IsValidSocketRole role"
  shows "wire_last STUN_ATTRIBUTE_MAPPEDADDRESS (with_integrity hmac field tid k (success_attrs (Some aset) m r role)) =
      Some (addr_attr (in_addrRemote m))"
    "wire_last (xor_type l) (with_integrity hmac field tid k (success_attrs (Some aset) m r role)) =
      (if l = Reader_IsMessageLegacyFormat r
       then Some (addr_attr (CSocketAddress_ApplyStunXorMap (Reader_GetTransactionId r) (in_addrRemote m))) else None)"
    "wire_last (other_type l) (with_integrity hmac field tid k (success_attrs (Some aset) m r role)) =
      (if l = Reader_IsMessageLegacyFormat r then map_option addr_attr (other_address aset m) else None)"
    "wire_last (origin_type l) (with_integrity hmac field tid k (success_attrs (Some aset) m r role)) =
      (if l = Reader_IsMessageLegacyFormat r \<and> \<not> CSocketAddress_IsIPAddressZero (origin_address aset m role)
       then Some (addr_attr (origin_address aset m role)) else None)"
proof -
  note a = request_addresses [OF wf role]
  show "wire_last STUN_ATTRIBUTE_MAPPEDADDRESS (with_integrity hmac field tid k (success_attrs (Some aset) m r role)) =
      Some (addr_attr (in_addrRemote m))"
    "wire_last (xor_type l) (with_integrity hmac field tid k (success_attrs (Some aset) m r role)) =
      (if l = Reader_IsMessageLegacyFormat r
       then Some (addr_attr (CSocketAddress_ApplyStunXorMap (Reader_GetTransactionId r) (in_addrRemote m))) else None)"
    "wire_last (other_type l) (with_integrity hmac field tid k (success_attrs (Some aset) m r role)) =
      (if l = Reader_IsMessageLegacyFormat r then map_option addr_attr (other_address aset m) else None)"
    "wire_last (origin_type l) (with_integrity hmac field tid k (success_attrs (Some aset) m r role)) =
      (if l = Reader_IsMessageLegacyFormat r \<and> \<not> CSocketAddress_IsIPAddressZero (origin_address aset m role)
       then Some (addr_attr (origin_address aset m role)) else None)"
    unfolding success_attrs_list [OF a(4,5)] with_integrity_def
    by (auto simp: wire_last_def split: option.splits)
qed

lemma rd_msg_mapped:
  assumes r: "rd_msg allow field tid as r" and last: "wire_last t as = Some (addr_attr a)" and wf: "sa_wf a"
  obtains b where "Reader_GetAddressHelper t p r = (S_OK, b)" "sa_wf b" "CSocketAddress_IsSameIP_and_Port b a"
  using rd_msg_address [OF r, of t p] last GetMappedAddress_addr_attr [OF wf refl, of "[]" p] by auto

subsection \<open>The error response\<close>

lemma error_wire_ok:
  assumes "auth_array (er_szNonce err)" "auth_array (er_szRealm err)"
  shows "wire_ok (error_attrs legacy err)" "length (enc_attrs (error_attrs legacy err)) \<le> 355"
proof -
  have w: "length (wire_value legacy d) \<le> 64" if "length d \<le> 64" for d
    using that by (auto simp: wire_value_def pad4_def) presburger
  have e: "length (wire_value legacy (error_attr c (c_str FAILED_text))) \<le> 64" for c
    by (rule w) (simp add: error_attr_def c_str_FAILED_text)
  have "length (error_attrs legacy err) \<le> 5" "\<forall>(t, d) \<in> set (error_attrs legacy err). length d \<le> 64"
    using e w auth_array_c_str [OF assms(1)] auth_array_c_str [OF assms(2)]
    by (auto simp: error_attrs_def error_strings_def split: if_splits)
  then show "wire_ok (error_attrs legacy err)" "length (enc_attrs (error_attrs legacy err)) \<le> 355"
    by (auto dest: wire_okI)
qed

lemma error_field_ok:
  assumes "er_msgclass err = StunMsgClassFailureResponse"
  shows "error_field err AND 0xc000 = 0" "class_of_field (error_field err) = StunMsgClassFailureResponse"
    "type_of_field (error_field err) = er_msgtype err AND 0x0fff"
  using assms field_roundtrip(3) [of "er_msgtype err" "er_msgclass err"]
    field_roundtrip(2) [of "er_msgclass err" "er_msgtype err"] field_roundtrip(1) [of "er_msgtype err" "er_msgclass err"]
  by (simp_all add: error_field_def stun_message_defs)

lemma string_types_distinct [simp]:
  "STUN_ATTRIBUTE_NONCE \<noteq> STUN_ATTRIBUTE_ERRORCODE" "STUN_ATTRIBUTE_REALM \<noteq> STUN_ATTRIBUTE_ERRORCODE"
  "STUN_ATTRIBUTE_NONCE \<noteq> STUN_ATTRIBUTE_REALM" "STUN_ATTRIBUTE_REALM \<noteq> STUN_ATTRIBUTE_NONCE"
  "STUN_ATTRIBUTE_ERRORCODE \<noteq> STUN_ATTRIBUTE_REALM" "STUN_ATTRIBUTE_ERRORCODE \<noteq> STUN_ATTRIBUTE_NONCE"
  by (simp_all add: stun_attribute_defs)

text \<open>The error number survives the split into class and number.\<close>

lemma error_number:
  assumes "300 \<le> n" "n \<le> 600"
  shows "word_of_int (uint (of_nat (unat n div 100) AND 7 :: u8) * 100 + uint (of_nat (unat n mod 100) :: u8)) = (n :: u16)"
proof -
  have n: "300 \<le> unat n" "unat n \<le> 600" using assms by (simp_all add: word_le_nat_alt)
  then have c: "3 \<le> unat n div 100" "unat n div 100 \<le> 6" by linarith+
  have q: "uint (of_nat (unat n div 100) AND 7 :: u8) = int (unat n div 100)"
  proof -
    have "unat n div 100 = 3 \<or> unat n div 100 = 4 \<or> unat n div 100 = 5 \<or> unat n div 100 = 6" using c by linarith
    then show ?thesis by (elim disjE) (simp_all only:, simp_all)
  qed
  have m: "uint (of_nat (unat n mod 100) :: u8) = int (unat n mod 100)"
    by (simp add: uint_nat unat_of_nat)
  have "int (unat n div 100) * 100 + int (unat n mod 100) = int (unat n)"
    using div_mult_mod_eq [of "unat n" 100] by (metis of_nat_add of_nat_mult of_nat_numeral)
  then show ?thesis unfolding q m by simp
qed

lemma rd_msg_error:
  assumes r: "rd_msg allow field tid (error_attrs legacy err) r"
    and c: "300 \<le> er_errorcode err" "er_errorcode err \<le> 600"
  shows "Reader_GetErrorCode n r = (S_OK, er_errorcode err)"
proof -
  let ?bs = "msg_bytes field tid (error_attrs legacy err)" and ?as = "attrs_at 20 (error_attrs legacy err)"
  let ?d = "wire_value legacy (error_attr (er_errorcode err) (c_str FAILED_text))"
  have "wire_last STUN_ATTRIBUTE_ERRORCODE (error_attrs legacy err) = Some ?d"
    by (simp add: wire_last_def error_attrs_def error_strings_def)
  then obtain a where a: "last_attr STUN_ATTRIBUTE_ERRORCODE ?as = Some a" "attr_data ?bs a = ?d"
      "unat (sa_size a) = length ?d"
    using rd_msg_last [OF r, of STUN_ATTRIBUTE_ERRORCODE] by auto
  have d: "4 \<le> length ?d" "?d ! 2 = of_nat (unat (er_errorcode err) div 100)"
    "?d ! 3 = of_nat (unat (er_errorcode err) mod 100)"
    by (simp_all add: wire_value_def error_attr_def nth_append)
  have v: "rd_valid allow ?bs ?as r" using r by (simp add: rd_msg_def)
  have "4 \<le> unat (sa_size a)" using a(3) d(1) by simp
  from GetErrorCode_valid [OF v a(1) this, of n] show ?thesis
    unfolding a(2) d(2,3) error_number [OF c] .
qed

subsection \<open>The request\<close>

text \<open>What the handler looks for in a request, in terms of the request's attribute list.\<close>

lemma rd_msg_port:
  assumes r: "rd_msg allow field tid as r"
  shows "response_port r = (case wire_last STUN_ATTRIBUTE_RESPONSE_PORT as of None \<Rightarrow> 0
    | Some d \<Rightarrow> if length d = 2 then unbe16 d else 0)"
proof -
  have v: "rd_valid allow (msg_bytes field tid as) (attrs_at 20 as) r" using r by (simp add: rd_msg_def)
  have two: "of_nat n = (2 :: u16) \<longleftrightarrow> n = 2" if "n \<le> MAX_STUN_ATTRIBUTE_SIZE" for n
    using that by (auto simp: word_unat_eq_iff unat_of_nat MAX_STUN_ATTRIBUTE_SIZE_def)
  show ?thesis unfolding response_port_def
    using rd_msg_last [OF r, of STUN_ATTRIBUTE_RESPONSE_PORT] two
    by (auto simp: GetResponsePort_valid [OF v] split: option.splits)
qed

lemma rd_msg_change:
  assumes r: "rd_msg allow field tid as r"
  shows "Reader_GetChangeRequest r = (case wire_last STUN_ATTRIBUTE_CHANGEREQUEST as of
      None \<Rightarrow> (E_FAIL, \<lparr>fChangeIP = False, fChangePort = False\<rparr>)
    | Some d \<Rightarrow> if length d = 4 then (S_OK, \<lparr>fChangeIP = (unbe32 d AND 4 \<noteq> 0), fChangePort = (unbe32 d AND 2 \<noteq> 0)\<rparr>)
        else (E_UNEXPECTED, \<lparr>fChangeIP = False, fChangePort = False\<rparr>))"
proof -
  have v: "rd_valid allow (msg_bytes field tid as) (attrs_at 20 as) r" using r by (simp add: rd_msg_def)
  have four: "of_nat n = (4 :: u16) \<longleftrightarrow> n = 4" if "n \<le> MAX_STUN_ATTRIBUTE_SIZE" for n
    using that by (auto simp: word_unat_eq_iff unat_of_nat MAX_STUN_ATTRIBUTE_SIZE_def)
  show ?thesis
    using rd_msg_last [OF r, of STUN_ATTRIBUTE_CHANGEREQUEST] four
    by (auto simp: GetChangeRequest_valid [OF v] split: option.splits)
qed

lemma rd_msg_padding:
  assumes r: "rd_msg allow field tid as r"
  shows "has_padding r \<longleftrightarrow> wire_last STUN_ATTRIBUTE_PADDING as \<noteq> None"
  using rd_msg_lookup [OF r, of STUN_ATTRIBUTE_PADDING]
  by (auto simp: has_padding_def Reader_GetPaddingAttributeSize_def split: option.splits)

subsection \<open>The whole transaction\<close>

lemma valid_legacy:
  assumes "rd_valid allow bs as r"
  shows "Reader_IsMessageLegacyFormat r \<longleftrightarrow> unbe32 (take 4 (Reader_GetTransactionId r)) \<noteq> STUN_COOKIE"
proof -
  have "take 4 (msg_id bs) = peek 4 4 bs" by (simp add: msg_id_def peek_def)
  then show ?thesis using rd_head_fields [OF rd_validD(3) [OF assms]]
    by (simp add: Reader_IsMessageLegacyFormat_def Reader_GetTransactionId_def msg_cookie_def)
qed

text \<open>Both kinds of answer, as the client's reader sees them.\<close>

lemma request_answer:
  assumes wf: "request_wf allow bs as m out aset pAuth r cap"
    and cls: "Reader_GetMessageClass r = StunMsgClassRequest" and hm: "\<And>k m. length (hmac k m) = 20"
  obtains out' field ws where "Handler_ProcessRequest hmac md5 m out (Some aset) pAuth = (S_OK, out')"
    "out_addrDest out' = answer_dest m r" "out_answers out' cap (msg_bytes field (Reader_GetTransactionId r) ws)"
    "rd_msg True field (Reader_GetTransactionId r) ws (answer_reader out')"
    "Reader_GetState (answer_reader out') = BodyValidated" "length (answer_bytes out') \<le> MAX_STUN_MESSAGE_SIZE"
    "request_code hmac md5 pAuth (Some aset) m r = 0 \<Longrightarrow>
      answer_role (Some aset) m = Some (out_socketrole out') \<and> field = success_field \<and>
      ws = with_integrity hmac success_field (Reader_GetTransactionId r) (auth_key md5 pAuth r)
          (success_attrs (Some aset) m r (out_socketrole out'))"
    "request_code hmac md5 pAuth (Some aset) m r \<noteq> 0 \<Longrightarrow>
      out_socketrole out' = in_socketrole m \<and> class_of_field field = StunMsgClassFailureResponse \<and>
      Reader_GetErrorCode 0 (answer_reader out') = (S_OK, request_code hmac md5 pAuth (Some aset) m r)"
proof -
  let ?code = "request_code hmac md5 pAuth (Some aset) m r" and ?tid = "Reader_GetTransactionId r"
  have tid: "length ?tid = 16" using wf by (auto simp: request_wf_def intro: rd_valid_transid)
  obtain out' where o: "Handler_ProcessRequest hmac md5 m out (Some aset) pAuth = (S_OK, out')"
    "out_addrDest out' = answer_dest m r"
    "?code = 0 \<Longrightarrow> answer_role (Some aset) m = Some (out_socketrole out') \<and>
      out_answers out' cap (msg_bytes success_field ?tid
        (with_integrity hmac success_field ?tid (auth_key md5 pAuth r)
          (success_attrs (Some aset) m r (out_socketrole out'))))"
    "?code \<noteq> 0 \<Longrightarrow> out_socketrole out' = in_socketrole m \<and>
      (\<exists>err. er_errorcode err = ?code \<and>
        er_msgtype err = Reader_GetMessageType r \<and> er_msgclass err = StunMsgClassFailureResponse \<and>
        auth_array (er_szNonce err) \<and> auth_array (er_szRealm err) \<and>
        out_answers out' cap (msg_bytes (error_field err) ?tid (error_attrs (Reader_IsMessageLegacyFormat r) err)))"
    by (rule ProcessRequest_answer [where hmac = hmac and ?md5.0 = md5, OF wf cls hm]) blast
  show ?thesis
  proof (cases "?code = 0")
    case True
    let ?ws = "with_integrity hmac success_field ?tid (auth_key md5 pAuth r) (success_attrs (Some aset) m r (out_socketrole out'))"
    have a: "out_answers out' cap (msg_bytes success_field ?tid ?ws)" "answer_role (Some aset) m = Some (out_socketrole out')"
      using o(3) True by simp_all
    have w: "wire_ok ?ws" "length (enc_attrs ?ws) \<le> 355"
      using hm success_wire_ok [OF wf answer_role_valid [OF wf a(2)], of hmac] by auto
    note rd = answer_read [OF a(1) w(1) success_field_ok(1) tid]
    show ?thesis
      by (rule that [OF o(1,2) a(1) rd(1,4)]) (use rd(5) w(2) a(2) True in \<open>simp_all add: MAX_STUN_MESSAGE_SIZE_def\<close>)
  next
    case False
    then obtain err where err: "er_errorcode err = ?code" "er_msgclass err = StunMsgClassFailureResponse"
      "auth_array (er_szNonce err)" "auth_array (er_szRealm err)" "out_socketrole out' = in_socketrole m"
      "out_answers out' cap (msg_bytes (error_field err) ?tid (error_attrs (Reader_IsMessageLegacyFormat r) err))"
      using o(4) by auto
    note w = error_wire_ok [OF err(3,4), of "Reader_IsMessageLegacyFormat r"] and f = error_field_ok [OF err(2)]
    note rd = answer_read [OF err(6) w(1) f(1) tid]
    have c: "300 \<le> er_errorcode err" "er_errorcode err \<le> 600"
      using err(1) False request_code_cases [of hmac md5 pAuth "Some aset" m r] by (auto simp: stun_error_defs)
    show ?thesis
      by (rule that [OF o(1,2) err(6) rd(1,4)])
        (use rd(5) w(2) f False err(1,5) rd_msg_error [OF rd(1) c, of 0] in \<open>simp_all add: MAX_STUN_MESSAGE_SIZE_def\<close>)
  qed
qed

subsection \<open>The addresses the client finds\<close>

lemma helper_none: "rd_msg allow field tid as r \<Longrightarrow> wire_last t as = None \<Longrightarrow> Reader_GetAddressHelper t p r = (E_FAIL, p)"
  by (simp add: rd_msg_address)

lemma xor_types:
  "STUN_ATTRIBUTE_XORMAPPEDADDRESS = xor_type False" "STUN_ATTRIBUTE_XORMAPPEDADDRESS_OPTIONAL = xor_type True"
  "STUN_ATTRIBUTE_OTHER_ADDRESS = other_type False" "STUN_ATTRIBUTE_CHANGEDADDRESS = other_type True"
  by (simp_all add: xor_type_def other_type_def)

text \<open>An attribute that goes under one of two types, depending on the format.\<close>

lemma two_types:
  assumes r: "rd_msg allow field tid as r"
    and last: "wire_last (ty legacy) as = Some (addr_attr a)" "wire_last (ty (\<not> legacy)) as = None" and wf: "sa_wf a"
  obtains b where "(let (hr, p) = Reader_GetAddressHelper (ty False) p r
      in if FAILED hr then Reader_GetAddressHelper (ty True) p r else (hr, p)) = (S_OK, b)"
    "sa_wf b" "CSocketAddress_IsSameIP_and_Port b a"
proof -
  obtain b where b: "Reader_GetAddressHelper (ty legacy) p r = (S_OK, b)" "sa_wf b" "CSocketAddress_IsSameIP_and_Port b a"
    by (rule rd_msg_mapped [OF r last(1) wf])
  show ?thesis
    by (rule that [of b], cases legacy) (use b helper_none [OF r last(2), of p] in \<open>simp_all add: Let_def\<close>)
qed

lemma rd_msg_xor:
  assumes r: "rd_msg allow field tid as r" and wf: "sa_wf a"
    and last: "wire_last (xor_type legacy) as = Some (addr_attr (CSocketAddress_ApplyStunXorMap tid a))"
      "wire_last (xor_type (\<not> legacy)) as = None"
  obtains b where "Reader_GetXorMappedAddress p r = (S_OK, b)" "CSocketAddress_IsSameIP_and_Port b a"
proof -
  let ?x = "CSocketAddress_ApplyStunXorMap tid a"
  have tid: "rd_transactionid r = tid" using rd_msg_head(1) [OF r] by (simp add: Reader_GetTransactionId_def)
  obtain b where b: "(let (hr, p) = Reader_GetAddressHelper (xor_type False) p r
      in if FAILED hr then Reader_GetAddressHelper (xor_type True) p r else (hr, p)) = (S_OK, b)"
    "sa_wf b" "CSocketAddress_IsSameIP_and_Port b ?x"
    by (rule two_types [where ty = xor_type and legacy = legacy and p = p, OF r last ApplyStunXorMap_wf [OF wf]])
  have eq: "Reader_GetXorMappedAddress p r = (S_OK, CSocketAddress_ApplyStunXorMap tid b)"
    using b(1) unfolding Reader_GetXorMappedAddress_def xor_types
    by (auto simp: tid Let_def split: prod.splits if_splits)
  show ?thesis
    by (rule that [OF eq]) (use same_address_xor [OF b(2) ApplyStunXorMap_wf [OF wf] b(3), of tid] in simp)
qed

lemma rd_msg_other:
  assumes r: "rd_msg allow field tid as r"
    and last: "wire_last (other_type legacy) as = map_option addr_attr oa" "wire_last (other_type (\<not> legacy)) as = None"
    and wf: "\<And>a. oa = Some a \<Longrightarrow> sa_wf a"
  shows "case oa of None \<Rightarrow> \<not> SUCCEEDED (fst (Reader_GetOtherAddress p r))
    | Some a \<Rightarrow> (\<exists>z. Reader_GetOtherAddress p r = (S_OK, z) \<and> CSocketAddress_IsSameIP_and_Port z a)"
proof (cases oa)
  case None
  then have "wire_last (other_type l) as = None" for l using last by (cases "l = legacy") auto
  from helper_none [OF r this] show ?thesis
    unfolding None Reader_GetOtherAddress_def xor_types by simp
next
  case (Some a)
  obtain b where b: "(let (hr, p) = Reader_GetAddressHelper (other_type False) p r
      in if FAILED hr then Reader_GetAddressHelper (other_type True) p r else (hr, p)) = (S_OK, b)"
    "sa_wf b" "CSocketAddress_IsSameIP_and_Port b a"
    by (rule two_types [where ty = other_type and legacy = legacy and p = p, OF r _ last(2) wf [OF Some]])
      (use last(1) Some in simp)
  then show ?thesis unfolding Some Reader_GetOtherAddress_def xor_types by auto
qed

text \<open>All three, for the success response.\<close>

lemma success_addresses:
  assumes wf: "request_wf allow bs as m out aset pAuth r cap" and role: "IsValidSocketRole role"
    and a: "rd_msg True field (Reader_GetTransactionId r)
      (with_integrity hmac f t k (success_attrs (Some aset) m r role)) ans"
  obtains x y where "Reader_GetXorMappedAddress p ans = (S_OK, x)" "Reader_GetMappedAddress q ans = (S_OK, y)"
    "CSocketAddress_IsSameIP_and_Port x (in_addrRemote m)" "CSocketAddress_IsSameIP_and_Port y (in_addrRemote m)"
    "case other_address aset m of None \<Rightarrow> \<not> SUCCEEDED (fst (Reader_GetOtherAddress s ans))
       | Some a \<Rightarrow> (\<exists>z. Reader_GetOtherAddress s ans = (S_OK, z) \<and> CSocketAddress_IsSameIP_and_Port z a)"
proof -
  note ad = request_addresses [OF wf role] and last = success_lookup [OF wf role, where hmac = hmac]
  obtain y where y: "Reader_GetMappedAddress q ans = (S_OK, y)" "CSocketAddress_IsSameIP_and_Port y (in_addrRemote m)"
    using rd_msg_mapped [OF a last(1) ad(3), of q] by (auto simp: Reader_GetMappedAddress_def)
  obtain x where x: "Reader_GetXorMappedAddress p ans = (S_OK, x)" "CSocketAddress_IsSameIP_and_Port x (in_addrRemote m)"
    by (rule rd_msg_xor [OF a ad(3), of "Reader_IsMessageLegacyFormat r"]) (simp_all add: last)
  show ?thesis
    by (rule that [OF x(1) y(1) x(2) y(2)])
      (rule rd_msg_other [OF a, of "Reader_IsMessageLegacyFormat r"], simp_all add: last ad(2))
qed

subsection \<open>What a success response tells about the request\<close>


text \<open>The validation never succeeds with a result other than \<open>S_OK\<close>.\<close>

definition plain_result :: "HRESULT \<Rightarrow> bool" where
  "plain_result hr \<longleftrightarrow> \<not> SUCCEEDED hr \<or> hr = S_OK"

lemma plain_results [intro!]:
  "plain_result S_OK" "plain_result E_FAIL" "plain_result E_INVALIDARG"
  "plain_result a \<Longrightarrow> plain_result b \<Longrightarrow> plain_result (if c then a else b)"
  "plain_result a \<Longrightarrow> (\<And>x. plain_result (f x)) \<Longrightarrow> plain_result (case opt of None \<Rightarrow> a | Some x \<Rightarrow> f x)"
  by (simp_all add: plain_result_def split: option.splits)

lemma plain_result_ChkTo [intro!]:
  "(\<And>hr y. plain_result (fst (k hr y))) \<Longrightarrow> plain_result (fst (ChkTo c x k))"
  by (cases x) (auto simp: ChkTo_def plain_result_def)

lemma validate_result:
  "SUCCEEDED (Reader_ValidateMessageIntegrity hmac key r) \<Longrightarrow> Reader_ValidateMessageIntegrity hmac key r = S_OK"
proof -
  have "plain_result (Reader_ValidateMessageIntegrity hmac key r)"
    unfolding Reader_ValidateMessageIntegrity_def Let_def case_prod_beta by (intro plain_results plain_result_ChkTo) auto
  then show "SUCCEEDED (Reader_ValidateMessageIntegrity hmac key r) \<Longrightarrow> Reader_ValidateMessageIntegrity hmac key r = S_OK"
    by (simp add: plain_result_def)
qed

text \<open>A request accepted on the condition of its integrity validates under the provider's key.\<close>

lemma code_integrity:
  assumes "request_wf allow bs as m out aset (Some p) r cap" "request_code hmac md5 (Some p) (Some aset) m r = 0"
    "auth_key md5 (Some p) r = Some key"
  shows "Reader_ValidateMessageIntegrity hmac key r = S_OK"
proof -
  obtain hr a resp where c: "auth_call p r = (hr, a, resp)" by (cases "auth_call p r")
  have "auth_code hmac md5 (Some p) r = 0" using assms(2) by (auto simp: request_code_def stun_error_defs split: if_splits)
  with c assms(3) have "auth_integrity_ok hmac md5 a resp r"
    by (auto simp: auth_code_def auth_key_def stun_error_defs split: if_splits AuthResponseType.splits)
  with c assms(3) show ?thesis
    by (auto intro!: validate_result simp: auth_integrity_ok_def auth_key_def Reader_ValidateMessageIntegrityShort_def
        Reader_ValidateMessageIntegrityLong_def split: if_splits)
qed

lemma answer_role_change:
  assumes "in_pReader m = Some r" "Reader_GetChangeRequest r = (S_OK, c)" "fChangeIP c \<or> fChangePort c"
    "answer_role (Some aset) m = Some role"
  shows "role = (let sr = (if fChangeIP c then SocketRoleSwapIP (in_socketrole m) else in_socketrole m)
         in if fChangePort c then SocketRoleSwapPort sr else sr)"
    "\<not> in_fConnectionOriented m" "ta_fValid (aset ! unat role)"
  using assms
  by (auto simp: answer_role_def Handler_ChangeRole_def Handler_new_def h_reader_def Handler_HasAddress_def Let_def
      split: if_splits)

lemma stun_class_distinct: "StunMsgClassSuccessResponse \<noteq> StunMsgClassFailureResponse"
  by (simp add: stun_message_defs)

lemma answer_class:
  assumes "request_wf allow bs as m out aset pAuth r cap" "Reader_GetMessageClass r = StunMsgClassRequest"
    "\<And>k m. length (hmac k m) = 20" "Handler_ProcessRequest hmac md5 m out (Some aset) pAuth = (S_OK, out')"
  shows "Reader_GetMessageClass (answer_reader out') =
    (if request_code hmac md5 pAuth (Some aset) m r = 0 then StunMsgClassSuccessResponse else StunMsgClassFailureResponse)"
proof -
  obtain field ws where o: "rd_msg True field (Reader_GetTransactionId r) ws (answer_reader out')"
    "request_code hmac md5 pAuth (Some aset) m r = 0 \<Longrightarrow> field = success_field"
    "request_code hmac md5 pAuth (Some aset) m r \<noteq> 0 \<Longrightarrow> class_of_field field = StunMsgClassFailureResponse"
    by (rule request_answer [where hmac = hmac and ?md5.0 = md5, OF assms(1-3)]) (use assms(4) in auto)
  then show ?thesis using rd_msg_head(2) [OF o(1)] by auto
qed

lemma answer_success:
  assumes "request_wf allow bs as m out aset pAuth r cap" "Reader_GetMessageClass r = StunMsgClassRequest"
    "\<And>k m. length (hmac k m) = 20" "Handler_ProcessRequest hmac md5 m out (Some aset) pAuth = (S_OK, out')"
    "request_code hmac md5 pAuth (Some aset) m r = 0"
  shows "answer_role (Some aset) m = Some (out_socketrole out')"
    "rd_msg True success_field (Reader_GetTransactionId r)
      (with_integrity hmac success_field (Reader_GetTransactionId r) (auth_key md5 pAuth r)
        (success_attrs (Some aset) m r (out_socketrole out'))) (answer_reader out')"
  using request_answer [where hmac = hmac and ?md5.0 = md5, OF assms(1-3)] assms(4,5) by auto

text \<open>The success response carries an integrity attribute under the key the request was accepted with.\<close>

lemma success_integrity:
  assumes "request_wf allow bs as m out aset pAuth r cap" "Reader_GetMessageClass r = StunMsgClassRequest"
    "\<And>k m. length (hmac k m) = 20" "Handler_ProcessRequest hmac md5 m out (Some aset) pAuth = (S_OK, out')"
    "request_code hmac md5 pAuth (Some aset) m r = 0" "auth_key md5 pAuth r = Some key"
  shows "Reader_ValidateMessageIntegrity hmac key (answer_reader out') = S_OK"
proof -
  obtain p where p: "pAuth = Some p" using assms(6) by (cases pAuth) (simp_all add: auth_key_def)
  note o = answer_success(2) [OF assms(1-5), unfolded assms(6)]
  have "rd_valid allow bs as r" using assms(1) by (simp add: request_wf_def)
  from iffD1 [OF ValidateMessageIntegrity_iff [OF this] code_integrity [OF assms(1,5,6) [unfolded p]]]
  have key: "key \<noteq> []" by (rule conjunct1)
  show ?thesis
    by (rule iffD2 [OF rd_msg_integrity [where fp = "[]", OF o [unfolded with_integrity_def option.case] assms(3)]])
      (simp_all add: key)
qed

end
