(* ===== verification/Examples.thy ===== *)
theory Examples
  imports Transaction
begin

text \<open>
  A concrete server with its four addresses, concrete requests and a concrete authentication
  provider, on which the theorems are exercised. The digest of the examples is constant.
\<close>

definition demo_tid :: StunTransactionId where
  "demo_tid = [0x21, 0x12, 0xA4, 0x42, 1, 2, 3, 4, 5, 6, 7, 8, 9, 10, 11, 12]"

definition demo_hmac :: "u8 list \<Rightarrow> u8 list \<Rightarrow> u8 list" where
  "demo_hmac key m = replicate 20 7"

definition demo_md5 :: "u8 list \<Rightarrow> u8 list" where
  "demo_md5 m = replicate 16 3"

definition demo_addr :: "u32 \<Rightarrow> CSocketAddress" where
  "demo_addr n = CSocketAddress_ip4 (0x0A000000 + n) 3478"

definition demo_set :: TransportAddressSet where
  "demo_set = map (\<lambda>n. \<lparr>ta_addr = demo_addr n, ta_fValid = True\<rparr>) [1, 2, 3, 4]"

definition demo_field :: u16 where
  "demo_field = msg_type_field StunMsgTypeBinding StunMsgClassRequest"

definition demo_reader :: "u16 \<Rightarrow> wire_attr list \<Rightarrow> CStunMessageReader" where
  "demo_reader field as = snd (Reader_AddBytes (msg_bytes field demo_tid as) Reader_new)"

definition demo_in :: "bool \<Rightarrow> CStunMessageReader \<Rightarrow> StunMessageIn" where
  "demo_in conn r = \<lparr>in_socketrole = RolePP, in_addrLocal = demo_addr 1, in_addrRemote = demo_addr 9,
     in_pReader = Some r, in_fConnectionOriented = conn\<rparr>"

definition demo_out :: StunMessageOut where
  "demo_out = \<lparr>out_socketrole = RolePP, out_addrDest = CSocketAddress_zero,
     out_spBufferOut = Some (CBuffer_alloc 1500)\<rparr>"

text \<open>A provider that lets requests with the short-term password \<open>p\<close> in.\<close>

definition demo_auth :: IStunAuth where
  "demo_auth a resp = (S_OK, a, resp\<lparr>ar_responseType := AllowConditional,
     ar_authCredMech := AuthCredShortTerm, ar_szPassword := 0x70 # replicate 64 0\<rparr>)"

lemma demo_lengths [simp]:
  "length demo_tid = 16" "length (demo_hmac k m) = 20" "length demo_set = 4" "demo_field AND 0xc000 = 0"
  by (simp_all add: demo_tid_def demo_hmac_def demo_set_def demo_field_def field_roundtrip(3))

lemma demo_addr_wf [simp]: "sa_wf (demo_addr n)"
  by (simp add: demo_addr_def)

lemma demo_auth_wf: "auth_wf demo_auth"
  by (auto simp: auth_wf_def demo_auth_def resp_wf_def AUTH_ARRAY_SIZE_def MAX_STUN_AUTH_STRING_SIZE_def)

lemma demo_rd_msg:
  assumes "wire_ok as" "field AND 0xc000 = 0"
  shows "rd_msg True field demo_tid as (demo_reader field as)"
  unfolding demo_reader_def by (rule read_rd_msg [OF Reader_new_inv _ assms]) simp_all

lemma demo_valid:
  assumes "wire_ok as" "field AND 0xc000 = 0"
  shows "rd_valid True (msg_bytes field demo_tid as) (attrs_at 20 as) (demo_reader field as)"
  using demo_rd_msg [OF assms] by (simp add: rd_msg_def)

lemma demo_request_wf:
  assumes "wire_ok as" "field AND 0xc000 = 0" "\<And>p. pAuth = Some p \<Longrightarrow> auth_wf p"
  shows "request_wf True (msg_bytes field demo_tid as) (attrs_at 20 as) (demo_in conn (demo_reader field as)) demo_out
    demo_set pAuth (demo_reader field as) 1500"
  using demo_valid [OF assms(1,2)] assms(3)
  by (auto simp: request_wf_def demo_in_def demo_out_def demo_set_def MAX_STUN_MESSAGE_SIZE_def)

lemma demo_head:
  assumes "wire_ok as"
  shows "Reader_GetMessageClass (demo_reader demo_field as) = StunMsgClassRequest"
    "Reader_GetMessageType (demo_reader demo_field as) = StunMsgTypeBinding"
  using rd_msg_head(2,3) [OF demo_rd_msg [OF assms demo_lengths(4)]]
    field_roundtrip(1,2) [of StunMsgClassRequest StunMsgTypeBinding] field_roundtrip(1) [of StunMsgTypeBinding StunMsgClassRequest]
  by (simp_all add: demo_field_def stun_message_defs)

lemma demo_quiet:
  assumes "wire_ok as" "wire_last STUN_ATTRIBUTE_RESPONSE_PORT as = None" "wire_last STUN_ATTRIBUTE_CHANGEREQUEST as = None"
  shows "request_code hmac md5 None (Some demo_set) (demo_in conn (demo_reader demo_field as)) (demo_reader demo_field as) = 0"
    "answer_role (Some demo_set) (demo_in conn (demo_reader demo_field as)) = Some RolePP"
    "auth_code hmac md5 pAuth (demo_reader demo_field as) = 0 \<Longrightarrow>
      request_code hmac md5 pAuth (Some demo_set) (demo_in conn (demo_reader demo_field as)) (demo_reader demo_field as) = 0"
proof -
  note m = demo_rd_msg [OF assms(1) demo_lengths(4)]
  have r: "answer_role (Some demo_set) (demo_in conn (demo_reader demo_field as)) = Some RolePP"
    using rd_msg_change [OF m] assms(3)
    by (simp add: answer_role_def Handler_ChangeRole_def Handler_new_def h_reader_def demo_in_def)
  then show "answer_role (Some demo_set) (demo_in conn (demo_reader demo_field as)) = Some RolePP" .
  show "auth_code hmac md5 pAuth (demo_reader demo_field as) = 0 \<Longrightarrow>
      request_code hmac md5 pAuth (Some demo_set) (demo_in conn (demo_reader demo_field as)) (demo_reader demo_field as) = 0" for pAuth
    using r rd_msg_port [OF m] assms(2) demo_head(2) [OF assms(1)] by (simp add: request_code_def)
  from this [of None] show "request_code hmac md5 None (Some demo_set) (demo_in conn (demo_reader demo_field as)) (demo_reader demo_field as) = 0"
    by (simp add: auth_code_def)
qed

text \<open>A run of the handler on an example request.\<close>

lemma demo_run:
  assumes "wire_ok as" "\<And>p. pAuth = Some p \<Longrightarrow> auth_wf p"
  obtains out' where "Handler_ProcessRequest demo_hmac demo_md5 (demo_in conn (demo_reader demo_field as)) demo_out
      (Some demo_set) pAuth = (S_OK, out')"
  using request_answer [where hmac = demo_hmac and ?md5.0 = demo_md5,
      OF demo_request_wf [where conn = conn, OF assms(1) demo_lengths(4) assms(2)] demo_head(1) [OF assms(1)] demo_lengths(2)]
  by blast

lemma demo_wire_ok [simp]:
  "wire_ok []" "wire_ok [(t, [a, b])]" "wire_ok [(t, [a, b, c, d])]" "wire_ok [(t, replicate 20 x)]"
  by (rule wire_okI; simp)+

text \<open>The request with an integrity attribute is let in by the example provider, with its password as the key.\<close>

lemma demo_authorised:
  defines "r \<equiv> demo_reader demo_field [(STUN_ATTRIBUTE_MESSAGEINTEGRITY, replicate 20 7)]"
  shows "auth_code demo_hmac md5 (Some demo_auth) r = 0" "auth_key md5 (Some demo_auth) r = Some [0x70]"
    "request_code demo_hmac md5 (Some demo_auth) (Some demo_set) (demo_in conn r) r = 0"
proof -
  have key: "c_str (0x70 # replicate 64 0) = [0x70 :: u8]" by (simp add: c_str_def)
  have call: "auth_call demo_auth r = (S_OK, Handler_ReadAuthAttributes r,
      AuthResponse_zero\<lparr>ar_responseType := AllowConditional, ar_szPassword := 0x70 # replicate 64 0\<rparr>)"
    by (simp add: auth_call_def demo_auth_def AuthResponse_terminate_def AuthResponse_zero_def AUTH_ARRAY_SIZE_def
        MAX_STUN_AUTH_STRING_SIZE_def list_update_same_conv)
  have "rd_msg True demo_field demo_tid ([] @ (STUN_ATTRIBUTE_MESSAGEINTEGRITY, replicate 20 7) # []) r"
    unfolding r_def append_Nil by (rule demo_rd_msg) simp_all
  from rd_msg_integrity [OF this, of demo_hmac "[0x70]"]
  have "Reader_ValidateMessageIntegrity demo_hmac [0x70] r = S_OK" by (simp add: demo_hmac_def)
  then have "auth_integrity_ok demo_hmac md5 (Handler_ReadAuthAttributes r)
      (AuthResponse_zero\<lparr>ar_responseType := AllowConditional, ar_szPassword := 0x70 # replicate 64 0\<rparr>) r"
    by (simp add: auth_integrity_ok_def AuthResponse_zero_def Reader_ValidateMessageIntegrityShort_def key)
  with call show c: "auth_code demo_hmac md5 (Some demo_auth) r = 0" by (simp add: auth_code_def)
  show "auth_key md5 (Some demo_auth) r = Some [0x70]"
    using call by (simp add: auth_key_def AuthResponse_zero_def key)
  show "request_code demo_hmac md5 (Some demo_auth) (Some demo_set) (demo_in conn r) r = 0"
    using demo_quiet(3) [of "[(STUN_ATTRIBUTE_MESSAGEINTEGRITY, replicate 20 7)]"] c unfolding r_def
    by (simp add: wire_last_def stun_attribute_defs)
qed

lemma demo_success:
  assumes "wire_ok as" "\<And>p. pAuth = Some p \<Longrightarrow> auth_wf p"
    "Handler_ProcessRequest demo_hmac demo_md5 (demo_in conn (demo_reader demo_field as)) demo_out (Some demo_set) pAuth = (S_OK, out')"
    "request_code demo_hmac demo_md5 pAuth (Some demo_set) (demo_in conn (demo_reader demo_field as)) (demo_reader demo_field as) = 0"
  shows "Reader_GetMessageClass (answer_reader out') = StunMsgClassSuccessResponse"
  using answer_class [OF demo_request_wf [where conn = conn and pAuth = pAuth, OF assms(1) demo_lengths(4) assms(2)]
      demo_head(1) [OF assms(1)] demo_lengths(2) assms(3)] assms(4) by simp

end
