(* ===== verification/CodecTheorems.thy ===== *)
theory CodecTheorems
  imports Examples
begin

text \<open>
  What the message reader and the message builder guarantee, as properties of their operations:
  the parse verdict and its stability, bounds of the attributes, integrity and fingerprint on
  arbitrary input, and the round trips from a built message to what a reader finds in it.
\<close>

section \<open>Reading\<close>

text \<open>Feeding a reader piece by piece.\<close>

fun Reader_feed :: "u8 list list \<Rightarrow> CStunMessageReader \<Rightarrow> CStunMessageReader" where
  "Reader_feed [] r = r"
| "Reader_feed (d # ds) r = Reader_feed ds (snd (Reader_AddBytes d r))"

lemma Reader_feed_eq: "Reader_feed ds r = rd.feed ds r"
  by (induction ds arbitrary: r) simp_all

lemma feed_new_inv: "rd_inv True (concat ds) (Reader_feed ds Reader_new)"
  using rd.feed_inv [OF Reader_new_inv, of ds] by (simp add: Reader_feed_eq)

lemma feed_state: "Reader_GetState (Reader_feed ds Reader_new) = verdict True (concat ds)"
  using feed_new_inv [of ds] by (simp add: rd_inv_def Reader_GetState_def)

lemma feed_valid:
  assumes "Reader_GetState (Reader_feed ds Reader_new) = BodyValidated"
  obtains as where "rd_valid True (concat ds) as (Reader_feed ds Reader_new)"
  using rd_validI [OF feed_new_inv] assms by (auto simp: Reader_GetState_def)

lemma demo_feed: "Reader_feed [msg_bytes field demo_tid as] Reader_new = demo_reader field as"
  by (simp add: demo_reader_def)

lemma demo_state:
  assumes "wire_ok as" "field AND 0xc000 = 0"
  shows "Reader_GetState (Reader_feed [msg_bytes field demo_tid as] Reader_new) = BodyValidated"
  using rd_validD(1) [OF demo_valid [OF assms]] by (simp add: demo_reader_def Reader_GetState_def)

text \<open>
  C13: the outcome of parsing does not depend on how the bytes arrive. A new reader fed any
  sequence of pieces is in the state that the whole input gives: still waiting for the header or
  the body, a validated message, or a parse error; and the reader that got the input in one piece
  is in the same one.
\<close>

theorem reader_chunking:
  "Reader_GetState (Reader_feed ds Reader_new) = verdict True (concat ds) \<and>
   Reader_GetState (snd (Reader_AddBytes (concat ds) Reader_new)) = verdict True (concat ds)"
  using feed_state [of ds] feed_state [of "[concat ds]"] by simp

text \<open>
  A verdict is final. Once the reader reports a parse error it does so for ever; and once it
  has validated a message, any further byte is an error.
\<close>

theorem reader_verdict_final:
  assumes "Reader_GetState (Reader_feed ds Reader_new) \<in> {ParseError, BodyValidated}" "concat es \<noteq> []"
  shows "Reader_GetState (Reader_feed (ds @ es) Reader_new) = ParseError"
  using assms verdict_error_append [of True "concat ds"] verdict_done_append [of True "concat ds" "concat es"]
  by (auto simp: feed_state)

theorem reader_verdict_final_witness:
  "Reader_GetState (Reader_feed ([msg_bytes demo_field demo_tid []] @ [[0]]) Reader_new) = ParseError"
  by (rule reader_verdict_final) (use demo_state [OF demo_wire_ok(1) demo_lengths(4)] in simp_all)

text \<open>
  C21: the reader can be driven by what it asks for, and asks for at most 800 bytes. A caller that
  first supplies \<^verbatim>\<open>HowManyBytesNeeded\<close> bytes (the header), and then again as many as it is asked
  for, has a verdict after these two reads.
\<close>

theorem reader_two_reads:
  assumes "length d1 = unat (Reader_HowManyBytesNeeded Reader_new)"
    "length d2 = unat (Reader_HowManyBytesNeeded (Reader_feed [d1] Reader_new))"
  shows "Reader_GetState (Reader_feed [d1, d2] Reader_new) \<in> {BodyValidated, ParseError} \<and>
    length d1 = 20 \<and> length d2 \<le> MAX_STUN_MESSAGE_SIZE"
proof -
  have d1: "length d1 = 20" and d2: "length d2 \<le> MAX_STUN_MESSAGE_SIZE"
    using assms HowManyBytesNeeded_inv [OF Reader_new_inv] HowManyBytesNeeded_inv(2) [OF feed_new_inv [of "[d1]"]]
    by (simp_all add: verdict_def STUN_HEADER_SIZE_def)
  have "length d2 = (case verdict True d1 of HeaderNotRead \<Rightarrow> 20 - length d1
     | HeaderValidated \<Rightarrow> unat (msg_len d1) + 20 - length d1 | _ \<Rightarrow> 0)"
    using assms(2) HowManyBytesNeeded_inv(1) [OF feed_new_inv [of "[d1]"], unfolded concat.simps append_Nil2] by simp
  then have "verdict True (d1 @ d2) \<in> {BodyValidated, ParseError}"
    using d1 by (auto simp: verdict_def STUN_HEADER_SIZE_def msg_view_append split: if_splits)
  then show ?thesis using d1 d2 feed_state [of "[d1, d2]"] by simp
qed

theorem reader_two_reads_witness:
  "Reader_GetState (Reader_feed [msg_bytes demo_field demo_tid [], []] Reader_new) \<in> {BodyValidated, ParseError}"
proof -
  let ?bs = "msg_bytes demo_field demo_tid []"
  have v: "verdict True ?bs = BodyValidated"
    using demo_state [OF demo_wire_ok(1) demo_lengths(4)] feed_state [of "[?bs]"] by simp
  have "unat (Reader_HowManyBytesNeeded Reader_new) = 20"
    using HowManyBytesNeeded_inv(1) [OF Reader_new_inv] by (simp add: verdict_def STUN_HEADER_SIZE_def)
  moreover have "length ?bs = 20" using msg_bytes_view(5) [OF demo_lengths(1), of demo_field "[]"] by simp
  moreover have "unat (Reader_HowManyBytesNeeded (Reader_feed [?bs] Reader_new)) = 0"
    using HowManyBytesNeeded_inv(1) [OF feed_new_inv [of "[?bs]"], unfolded concat.simps append_Nil2] v by simp
  ultimately show ?thesis using reader_two_reads [of ?bs "[]"] by simp
qed



text \<open>
  String attributes never overflow. \<^verbatim>\<open>GetStringAttributeByType\<close> leaves a destination of its own
  size behind; it either fails and changes nothing, or copies the value and a terminator.
\<close>

theorem reader_string_bounds:
  assumes "Reader_GetState (Reader_feed ds Reader_new) = BodyValidated"
    "Reader_GetStringAttributeByType t dst (Reader_feed ds Reader_new) = (hr, dst')"
  shows "length dst' = length dst \<and> (if SUCCEEDED hr
    then \<exists>d. length d < length dst \<and> dst' = d @ [0] @ drop (length d + 1) dst \<and> (\<exists>p. d = peek p (length d) (concat ds))
    else dst' = dst)"
proof -
  obtain as where v: "rd_valid True (concat ds) as (Reader_feed ds Reader_new)" by (rule feed_valid [OF assms(1)])
  note g = GetStringAttribute_valid [OF v, of t dst]
  show ?thesis
  proof (cases "\<exists>a. last_attr t as = Some a \<and> unat (sa_size a) < length dst")
    case True
    then obtain a where a: "last_attr t as = Some a" "unat (sa_size a) < length dst" by blast
    have l: "length (attr_data (concat ds) a) = unat (sa_size a)" using rd_valid_attr(4) [OF v, of a] last_attr_in [OF a(1)] by simp
    have h: "hr = S_OK" "dst' = attr_data (concat ds) a @ [0] @ drop (unat (sa_size a) + 1) dst"
      using g a assms(2) l by (simp_all add: poke_def)
    have "\<exists>p. attr_data (concat ds) a = peek p (length (attr_data (concat ds) a)) (concat ds)"
      using l by (auto simp: attr_data_def)
    with h l a(2) show ?thesis by (auto intro!: exI [of _ "attr_data (concat ds) a"])
  next
    case False
    then have "hr = E_INVALIDARG" "dst' = dst" using g assms(2) by (auto split: option.splits if_splits)
    then show ?thesis by simp
  qed
qed

theorem reader_string_bounds_witness:
  "length (snd (Reader_GetStringAttributeByType STUN_ATTRIBUTE_USERNAME (replicate 65 0)
      (Reader_feed [msg_bytes demo_field demo_tid [(STUN_ATTRIBUTE_USERNAME, [1, 2])]] Reader_new))) = 65"
  using reader_string_bounds [OF demo_state [OF demo_wire_ok(2) demo_lengths(4)] prod.collapse [symmetric],
      of STUN_ATTRIBUTE_USERNAME "replicate 65 0"] by simp

text \<open>
  C15: message integrity is exact on arbitrary input. For every byte string the reader accepts as a
  message, validation under a key succeeds exactly when the key is not empty, the last integrity
  attribute is the last attribute or followed only by the fingerprint, has 20 bytes, and these
  are the digest of the message up to it with the length field that ends after it.
\<close>

theorem integrity_exact:
  assumes "Reader_GetState (Reader_feed ds Reader_new) = BodyValidated"
  shows "\<exists>as. body_attrs (concat ds) = Some as \<and>
    (Reader_ValidateMessageIntegrity hmac key (Reader_feed ds Reader_new) = S_OK \<longleftrightarrow>
      key \<noteq> [] \<and> mi_last as \<and> (\<exists>a. last_attr STUN_ATTRIBUTE_MESSAGEINTEGRITY as = Some a \<and> sa_size a = 20 \<and>
        hmac key (mi_text (concat ds) a (attr_index STUN_ATTRIBUTE_MESSAGEINTEGRITY as = int (length as) - 2))
          = attr_data (concat ds) a))"
proof -
  obtain as where v: "rd_valid True (concat ds) as (Reader_feed ds Reader_new)" by (rule feed_valid [OF assms])
  then have "body_attrs (concat ds) = Some as" by (simp add: rd_valid_def)
  then show ?thesis using ValidateMessageIntegrity_iff [OF v] by (intro exI conjI)
qed

theorem integrity_exact_witness:
  "Reader_ValidateMessageIntegrity demo_hmac [1] (Reader_feed [msg_bytes demo_field demo_tid []] Reader_new) \<noteq> S_OK"
proof -
  have "body_attrs (msg_bytes demo_field demo_tid []) = Some []"
    using demo_valid [OF demo_wire_ok(1) demo_lengths(4)] by (simp add: rd_valid_def)
  then show ?thesis
    using integrity_exact [OF demo_state [OF demo_wire_ok(1) demo_lengths(4)], of demo_hmac "[1]"]
    by (simp add: last_attr_def mi_last_def)
qed

section \<open>Building\<close>

text \<open>A message built from a header, a transaction id and a list of attributes.\<close>

fun Builder_AddAttributes :: "wire_attr list \<Rightarrow> CStunMessageBuilder \<Rightarrow> CStunMessageBuilder" where
  "Builder_AddAttributes [] b = b"
| "Builder_AddAttributes ((t, d) # as) b =
     Builder_AddAttributes as (snd (Builder_AddAttribute t (Some d) (of_nat (length d)) b))"

definition Builder_message :: "u16 \<Rightarrow> u16 \<Rightarrow> StunTransactionId \<Rightarrow> wire_attr list \<Rightarrow> CStunMessageBuilder" where
  "Builder_message t c tid as = Builder_AddAttributes as
     (snd (Builder_AddTransactionId tid (snd (Builder_AddHeader t c Builder_new))))"

lemma AddAttributes_msg:
  assumes "bd_msg field tid ws b" "\<not> bd_fLegacyMode b" "\<forall>(t, d) \<in> set as. length d \<le> MAX_STUN_ATTRIBUTE_SIZE"
  shows "bd_msg field tid (ws @ as) (Builder_AddAttributes as b)"
  using assms
proof (induction as arbitrary: ws b)
  case (Cons a as)
  obtain t d where a: "a = (t, d)" by (cases a)
  have d: "length d = unat (of_nat (length d) :: u16)"
    using Cons.prems(3) by (simp add: a unat_of_nat MAX_STUN_ATTRIBUTE_SIZE_def)
  have e: "bd_end b" using Cons.prems(1) by (simp add: bd_msg_def)
  note ap = appends_AddAttribute [OF e d, of t]
  have "bd_fLegacyMode (snd (Builder_AddAttribute t (Some d) (of_nat (length d)) b)) = bd_fLegacyMode b"
    using ap by (simp add: appends_def bd_appends_def)
  moreover have "bd_msg field tid (ws @ [(t, d)]) (snd (Builder_AddAttribute t (Some d) (of_nat (length d)) b))"
    using bd_msg_append [OF Cons.prems(1) ap] Cons.prems(2) by (simp add: wire_value_def)
  ultimately show ?case using Cons.IH [of "ws @ [(t, d)]"] Cons.prems(2,3) by (simp add: a)
qed simp

lemma message_start:
  assumes "length tid = 16"
  shows "\<not> bd_fLegacyMode (snd (Builder_AddTransactionId tid (snd (Builder_AddHeader t c Builder_new))))"
    "bd_msg (msg_type_field t c) tid [] (snd (Builder_AddTransactionId tid (snd (Builder_AddHeader t c Builder_new))))"
proof -
  have "bd_fLegacyMode (snd (Builder_AddTransactionId tid (snd (Builder_AddHeader t c Builder_new)))) =
      bd_fLegacyMode Builder_new"
    using AddHeader_ok [of Builder_new t c] AddTransactionId_ok(2) [OF AddHeader_ok(2) assms, of Builder_new t c]
    by (simp add: bd_appends_def)
  then show "\<not> bd_fLegacyMode (snd (Builder_AddTransactionId tid (snd (Builder_AddHeader t c Builder_new))))" by simp
qed (rule bd_msg_start [OF Builder_new_end(1,2) assms])

lemma Builder_message_msg:
  assumes "length tid = 16" "wire_ok as"
  shows "bd_msg (msg_type_field t c) tid as (Builder_message t c tid as)"
  using AddAttributes_msg [OF message_start(2,1) [OF assms(1)], of as t c] assms(2)
  by (simp add: Builder_message_def wire_ok_def)

lemma AddFingerprint_tid [simp]:
  "bd_transactionid (snd (Builder_AddFingerprintAttribute crc32 b)) = bd_transactionid b"
proof -
  have o: "bd_transactionid (snd (on_stream f b)) = bd_transactionid b" for f b
    by (simp add: on_stream_def split: prod.splits)
  have c: "bd_transactionid (snd (Chk x k)) = t"
    if "bd_transactionid (snd x) = t" "\<And>hr b. bd_transactionid b = t \<Longrightarrow> bd_transactionid (snd (k hr b)) = t"
    for x k t using that by (simp add: ChkTo_def)
  have f: "bd_transactionid (snd (Builder_FixLengthField b)) = bd_transactionid b" for b
    unfolding Builder_FixLengthField_def Let_def by (auto intro!: c simp: o)
  show ?thesis unfolding Builder_AddFingerprintAttribute_def Let_def by (auto intro!: c simp: o f)
qed

text \<open>
  C14: what is built can be read. A header of any type and class, a transaction id and at most 30
  attributes of at most 780 bytes, 800 in total, give a message that a new reader validates; it
  finds the id, the class and the type in it, and for every attribute type the value of the last
  attribute that was added with it, or no attribute.
\<close>

theorem build_read_roundtrip:
  assumes "length tid = 16" "wire_ok as" "c < 4"
  shows "\<exists>buf r. fst (Builder_GetResult (Builder_message t c tid as)) = (S_OK, Some buf) \<and>
    Reader_AddBytes (buf_bytes buf) Reader_new = (BodyValidated, r) \<and>
    Reader_GetTransactionId r = tid \<and> Reader_GetMessageClass r = c \<and> Reader_GetMessageType r = t AND 0x0fff \<and>
    (\<forall>ty. case wire_last ty as of None \<Rightarrow> Reader_GetAttributeByType ty r = (E_FAIL, None)
     | Some d \<Rightarrow> \<exists>a. Reader_GetAttributeByType ty r = (S_OK, Some a) \<and>
         peek (unat (sa_offset a)) (unat (sa_size a)) (buf_bytes buf) = d)"
proof -
  let ?f = "msg_type_field t c"
  obtain buf where b: "fst (Builder_GetResult (Builder_message t c tid as)) = (S_OK, Some buf)"
    "buf_bytes buf = msg_bytes ?f tid as"
    by (rule bd_msg_result [OF Builder_message_msg [OF assms(1,2), of t c]])
  let ?r = "snd (Reader_AddBytes (buf_bytes buf) Reader_new)"
  have m: "rd_msg True ?f tid as ?r"
    unfolding b(2) by (rule read_rd_msg [OF Reader_new_inv assms(1,2) field_roundtrip(3)]) simp
  have v: "rd_valid True (buf_bytes buf) (attrs_at 20 as) ?r" using m by (simp add: rd_msg_def b(2))
  have s: "fst (Reader_AddBytes (buf_bytes buf) Reader_new) = BodyValidated"
    unfolding b(2) by (rule read_msg(1) [OF Reader_new_inv assms(1,2) field_roundtrip(3)]) simp
  have "case wire_last ty as of None \<Rightarrow> Reader_GetAttributeByType ty ?r = (E_FAIL, None)
     | Some d \<Rightarrow> \<exists>a. Reader_GetAttributeByType ty ?r = (S_OK, Some a) \<and>
         peek (unat (sa_offset a)) (unat (sa_size a)) (buf_bytes buf) = d" for ty
    using rd_msg_last [OF m, of ty] rd_validD(10) [OF v, of ty]
    by (auto simp: Reader_GetAttributeByType_def attr_data_def b(2) split: option.splits)
  then show ?thesis
    using b(1) s rd_msg_head [OF m] field_roundtrip(1) [of t c] field_roundtrip(2) [OF assms(3), of t]
    by (intro exI [of _ buf] exI [of _ ?r]) (simp add: prod_eq_iff)
qed

theorem build_read_roundtrip_witness:
  "\<exists>buf r. fst (Builder_GetResult (Builder_message StunMsgTypeBinding StunMsgClassRequest demo_tid
      [(STUN_ATTRIBUTE_RESPONSE_PORT, [1, 2])])) = (S_OK, Some buf) \<and>
    Reader_AddBytes (buf_bytes buf) Reader_new = (BodyValidated, r) \<and> Reader_GetTransactionId r = demo_tid"
  using build_read_roundtrip [OF demo_lengths(1) demo_wire_ok(2), of StunMsgClassRequest StunMsgTypeBinding
      STUN_ATTRIBUTE_RESPONSE_PORT 1 2] by (auto simp: stun_message_defs)

text \<open>
  Integrity made by the builder is checked by the reader. A message to which the builder adds
  message integrity under a key (not empty) and then, or not, a fingerprint, validates at the
  reader under a key exactly when that key is not empty and gives the same digest of the message.
\<close>

theorem build_integrity_exact:
  assumes "length tid = 16" "wire_ok (as @ [(STUN_ATTRIBUTE_MESSAGEINTEGRITY, replicate 20 0)])" "key \<noteq> []"
    "\<And>k m. length (hmac k m) = 20"
  shows "\<exists>buf r. fst (Builder_GetResult (snd (Builder_AddMessageIntegrityImpl hmac key (Builder_message t c tid as))))
      = (S_OK, Some buf) \<and>
    Reader_AddBytes (buf_bytes buf) Reader_new = (BodyValidated, r) \<and>
    (Reader_ValidateMessageIntegrity hmac key' r = S_OK \<longleftrightarrow>
      key' \<noteq> [] \<and> hmac key' (digest_text (msg_type_field t c) tid as 24) = hmac key (digest_text (msg_type_field t c) tid as 24))"
proof -
  let ?f = "msg_type_field t c" and ?mac = "hmac key (digest_text (msg_type_field t c) tid as 24)"
  let ?as = "as @ [(STUN_ATTRIBUTE_MESSAGEINTEGRITY, ?mac)]"
  have w: "wire_ok as" "wire_ok ?as" using assms(2,4) by (auto simp: wire_ok_def length_enc_attr)
  note m = bd_msg_integrity(2) [OF Builder_message_msg [OF assms(1) w(1), of t c] assms(3,4)]
  obtain buf where b: "fst (Builder_GetResult (snd (Builder_AddMessageIntegrityImpl hmac key (Builder_message t c tid as))))
      = (S_OK, Some buf)" "buf_bytes buf = msg_bytes ?f tid ?as"
    by (rule bd_msg_result [OF m])
  let ?r = "snd (Reader_AddBytes (buf_bytes buf) Reader_new)"
  have r: "rd_msg True ?f tid ?as ?r"
    unfolding b(2) by (rule read_rd_msg [OF Reader_new_inv assms(1) w(2) field_roundtrip(3)]) simp
  have s: "fst (Reader_AddBytes (buf_bytes buf) Reader_new) = BodyValidated"
    unfolding b(2) by (rule read_msg(1) [OF Reader_new_inv assms(1) w(2) field_roundtrip(3)]) simp
  have "Reader_ValidateMessageIntegrity hmac key' ?r = S_OK \<longleftrightarrow>
      key' \<noteq> [] \<and> ?mac = hmac key' (digest_text ?f tid as 24)"
    by (rule rd_msg_integrity [where fp = "[]", OF r assms(4)]) simp
  then show ?thesis using b(1) s by (intro exI [of _ buf] exI [of _ ?r]) (auto simp: prod_eq_iff)
qed

theorem build_integrity_exact_witness:
  "\<exists>buf r. fst (Builder_GetResult (snd (Builder_AddMessageIntegrityImpl demo_hmac [0x70]
      (Builder_message StunMsgTypeBinding StunMsgClassRequest demo_tid [])))) = (S_OK, Some buf) \<and>
    Reader_AddBytes (buf_bytes buf) Reader_new = (BodyValidated, r) \<and>
    Reader_ValidateMessageIntegrity demo_hmac [0x70] r = S_OK"
  using build_integrity_exact [where hmac = demo_hmac and key = "[0x70]" and key' = "[0x70]" and as = "[]" and tid = demo_tid
      and t = StunMsgTypeBinding and c = StunMsgClassRequest] by simp

text \<open>
  The fingerprint made by the builder is checked by the reader, whatever the checksum function:
  a message to which the builder added a fingerprint is valid for the reader.
\<close>

theorem build_fingerprint_valid:
  assumes "length tid = 16" "wire_ok (as @ [(STUN_ATTRIBUTE_FINGERPRINT, replicate 4 0)])"
  shows "\<exists>buf r. fst (Builder_GetResult (snd (Builder_AddFingerprintAttribute crc32 (Builder_message t c tid as))))
      = (S_OK, Some buf) \<and>
    Reader_AddBytes (buf_bytes buf) Reader_new = (BodyValidated, r) \<and> Reader_IsFingerprintAttributeValid crc32 r"
proof -
  let ?f = "msg_type_field t c"
  let ?d = "be32 (crc32 (digest_text ?f tid as 8) XOR STUN_FINGERPRINT_XOR)"
  let ?as = "as @ [(STUN_ATTRIBUTE_FINGERPRINT, ?d)]" and ?b = "Builder_message t c tid as"
  have w: "wire_ok as" "wire_ok ?as" "length (enc_attrs as) < 65536"
    using assms(2) by (auto simp: wire_ok_def length_enc_attr MAX_STUN_MESSAGE_SIZE_def)
  note m = Builder_message_msg [OF assms(1) w(1), of t c]
  have "bd_msg ?f tid ?as (snd (Builder_AddFingerprintAttribute crc32 ?b))"
    using bd_msg_fingerprint(2) [OF m w(3), of crc32] assms(1) m by (simp add: bd_msg_def AddFingerprint_tid)
  then obtain buf where b: "fst (Builder_GetResult (snd (Builder_AddFingerprintAttribute crc32 ?b))) = (S_OK, Some buf)"
    "buf_bytes buf = msg_bytes ?f tid ?as"
    by (rule bd_msg_result)
  let ?r = "snd (Reader_AddBytes (buf_bytes buf) Reader_new)"
  have r: "rd_msg True ?f tid ?as ?r"
    unfolding b(2) by (rule read_rd_msg [OF Reader_new_inv assms(1) w(2) field_roundtrip(3)]) simp
  have s: "fst (Reader_AddBytes (buf_bytes buf) Reader_new) = BodyValidated"
    unfolding b(2) by (rule read_msg(1) [OF Reader_new_inv assms(1) w(2) field_roundtrip(3)]) simp
  have "Reader_IsFingerprintAttributeValid crc32 ?r" using rd_msg_fingerprint [OF r] by simp
  then show ?thesis using b(1) s by (intro exI [of _ buf] exI [of _ ?r]) (simp add: prod_eq_iff)
qed

theorem build_fingerprint_valid_witness:
  "\<exists>buf r. fst (Builder_GetResult (snd (Builder_AddFingerprintAttribute (\<lambda>m. 0)
      (Builder_message StunMsgTypeBinding StunMsgClassRequest demo_tid [])))) = (S_OK, Some buf) \<and>
    Reader_AddBytes (buf_bytes buf) Reader_new = (BodyValidated, r) \<and> Reader_IsFingerprintAttributeValid (\<lambda>m. 0) r"
  by (rule build_fingerprint_valid) (simp_all add: numeral_eq_Suc)

text \<open>
  Addresses survive the wire. An address the builder adds, plain or xored with the transaction
  id, is the one the reader reports: same family, IP address and port.
\<close>

theorem address_roundtrip:
  assumes "sa_wf a" "length tid = 16"
  shows "\<exists>r x y buf. fst (Builder_GetResult (snd (Builder_AddXorMappedAddress a (snd (Builder_AddMappedAddress a
      (Builder_message t c tid [])))))) = (S_OK, Some buf) \<and>
    Reader_AddBytes (buf_bytes buf) Reader_new = (BodyValidated, r) \<and>
    Reader_GetMappedAddress p r = (S_OK, x) \<and> CSocketAddress_IsSameIP_and_Port x a \<and>
    Reader_GetXorMappedAddress p r = (S_OK, y) \<and> CSocketAddress_IsSameIP_and_Port y a"
proof -
  let ?f = "msg_type_field t c" and ?b0 = "Builder_message t c tid []"
  let ?b1 = "snd (Builder_AddMappedAddress a ?b0)"
  let ?as = "[(STUN_ATTRIBUTE_MAPPEDADDRESS, addr_attr a),
    (xor_type False, addr_attr (CSocketAddress_ApplyStunXorMap tid a))]"
  note m0 = Builder_message_msg [OF assms(2) demo_wire_ok(1), of t c]
  have e0: "bd_end ?b0" "\<not> bd_fLegacyMode ?b0" using m0 message_start(1) [OF assms(2), of t c]
    by (simp_all add: bd_msg_def Builder_message_def)
  have l: "length (addr_attr x) mod 4 = 0" "length (addr_attr x) \<le> 20" if "sa_wf x" for x
    using length_addr_attr [OF that] by (simp_all split: if_splits)
  note a1 = appends_addresses(1) [OF e0(1) assms(1)]
  have m1: "bd_msg ?f tid [(STUN_ATTRIBUTE_MAPPEDADDRESS, addr_attr a)] ?b1"
    using bd_msg_append [OF m0 a1] l(1) [OF assms(1)] by simp
  have e1: "bd_end ?b1" "\<not> bd_fLegacyMode ?b1" "bd_transactionid ?b1 = tid"
    using m1 a1 e0 by (simp_all add: bd_msg_def appends_def bd_appends_def)
  have m2: "bd_msg ?f tid ?as (snd (Builder_AddXorMappedAddress a ?b1))"
    using bd_msg_append [OF m1 appends_addresses(2) [OF e1(1) assms(1)]] e1(2,3) l(1) [of "CSocketAddress_ApplyStunXorMap tid a"]
      assms(1) by (simp add: xor_type_def)
  obtain buf where b: "fst (Builder_GetResult (snd (Builder_AddXorMappedAddress a ?b1))) = (S_OK, Some buf)"
    "buf_bytes buf = msg_bytes ?f tid ?as" by (rule bd_msg_result [OF m2])
  have w: "wire_ok ?as"
    by (rule wire_okI) (use l(2) [OF assms(1)] l(2) [of "CSocketAddress_ApplyStunXorMap tid a"] assms(1) in auto)
  let ?r = "snd (Reader_AddBytes (buf_bytes buf) Reader_new)"
  have r: "rd_msg True ?f tid ?as ?r"
    unfolding b(2) by (rule read_rd_msg [OF Reader_new_inv assms(2) w field_roundtrip(3)]) simp
  have s: "fst (Reader_AddBytes (buf_bytes buf) Reader_new) = BodyValidated"
    unfolding b(2) by (rule read_msg(1) [OF Reader_new_inv assms(2) w field_roundtrip(3)]) simp
  have last: "wire_last STUN_ATTRIBUTE_MAPPEDADDRESS ?as = Some (addr_attr a)"
    "wire_last (xor_type False) ?as = Some (addr_attr (CSocketAddress_ApplyStunXorMap tid a))"
    "wire_last (xor_type True) ?as = None"
    by (simp_all add: wire_last_def xor_type_def stun_attribute_defs)
  obtain x where x: "Reader_GetMappedAddress p ?r = (S_OK, x)" "CSocketAddress_IsSameIP_and_Port x a"
    using rd_msg_mapped [OF r last(1) assms(1), of p] by (auto simp: Reader_GetMappedAddress_def)
  obtain y where y: "Reader_GetXorMappedAddress p ?r = (S_OK, y)" "CSocketAddress_IsSameIP_and_Port y a"
    by (rule rd_msg_xor [OF r assms(1), of False]) (simp_all add: last)
  show ?thesis
    by (rule exI [of _ ?r], rule exI [of _ x], rule exI [of _ y], rule exI [of _ buf])
      (simp add: b(1) x y s prod_eq_iff)
qed

theorem address_roundtrip_witness:
  "\<exists>r x y buf. fst (Builder_GetResult (snd (Builder_AddXorMappedAddress (demo_addr 1) (snd (Builder_AddMappedAddress (demo_addr 1)
      (Builder_message StunMsgTypeBinding StunMsgClassSuccessResponse demo_tid [])))))) = (S_OK, Some buf) \<and>
    Reader_AddBytes (buf_bytes buf) Reader_new = (BodyValidated, r) \<and>
    Reader_GetMappedAddress (demo_addr 2) r = (S_OK, x) \<and> CSocketAddress_IsSameIP_and_Port x (demo_addr 1) \<and>
    Reader_GetXorMappedAddress (demo_addr 2) r = (S_OK, y) \<and> CSocketAddress_IsSameIP_and_Port y (demo_addr 1)"
  by (rule address_roundtrip) simp_all

section \<open>Reuse\<close>

text \<open>The table of the reader stays well formed in every state, parse errors included.\<close>

definition rd_table :: "CStunMessageReader \<Rightarrow> bool" where
  "rd_table r \<longleftrightarrow> rd_map_inv r \<and> fh_fsize (rd_mapAttributes r) = MAX_NUM_ATTRIBUTES"

lemma snd_ChkTo:
  assumes "P (c (snd x))" "P (snd (k (fst x) (snd x)))"
  shows "P (snd (ChkTo c x k))"
  using assms by (simp add: ChkTo_def)

lemma fh_Insert_fsize [simp]: "fh_fsize (snd (fh_Insert hash k v h)) = fh_fsize h"
  by (simp add: fh_Insert_def fh_UpdateIndexWithAdd_def Let_def split: option.splits)

lemma rd_table_update [simp]:
  "rd_table (r\<lparr>rd_stream := s\<rparr>) = rd_table r" "rd_table (r\<lparr>rd_state := st\<rparr>) = rd_table r"
  by (simp_all add: rd_table_def)

lemma RecordAttribute_table:
  assumes "rd_table r"
  shows "rd_table (snd (Reader_RecordAttribute a r))"
proof -
  obtain n m where i: "fh_Insert FastHash_Hash_u16 (attributeType a) a (rd_mapAttributes r) = (n, m)"
    by (cases "fh_Insert FastHash_Hash_u16 (attributeType a) a (rd_mapAttributes r)")
  have "fh_inv FastHash_Hash_u16 m \<and> fh_fsize m = MAX_NUM_ATTRIBUTES"
    using ft.insert_inv [of FastHash_Hash_u16 "rd_mapAttributes r" "attributeType a" a]
      fh_Insert_fsize [of FastHash_Hash_u16 "attributeType a" a "rd_mapAttributes r"] i assms by (simp add: rd_table_def)
  then show ?thesis by (simp add: Reader_RecordAttribute_def rd_table_def Let_def i)
qed

lemma ReadAttribute_table: "rd_table r \<Longrightarrow> rd_table (snd (snd (Reader_ReadAttribute n r)))"
  unfolding Reader_ReadAttribute_def Let_def case_prod_beta
  by (auto intro!: snd_ChkTo [where P = "\<lambda>x. rd_table (snd x)"] RecordAttribute_table)

lemma BodyLoop_table: "rd_table r \<Longrightarrow> rd_table (snd (Reader_BodyLoop cs n r))"
proof (induction cs n r rule: Reader_BodyLoop.induct)
  case (1 cs n r)
  then show ?case
    using ReadAttribute_table [of r n]
    by (subst Reader_BodyLoop.simps) (auto split: prod.splits)
qed

lemma ReadHeader_table: "rd_table (snd (Reader_ReadHeader r)) = rd_table r"
  unfolding Reader_ReadHeader_def Let_def case_prod_beta
  by (intro snd_ChkTo [where P = "\<lambda>x. rd_table x = rd_table r"]) (auto simp: rd_table_def)

lemma ReadBody_table: "rd_table r \<Longrightarrow> rd_table (snd (Reader_ReadBody r))"
  unfolding Reader_ReadBody_def Let_def case_prod_beta
  by (rule snd_ChkTo [where P = rd_table]) (simp_all add: BodyLoop_table)

lemma AddBytes_table: "rd_table r \<Longrightarrow> rd_table (snd (Reader_AddBytes d r))"
proof -
  have h: "rd_table (Reader_TryHeader n r)" if "rd_table r" for n r
    using that ReadHeader_table [of r] by (simp add: Reader_TryHeader_def Let_def case_prod_beta)
  have b: "rd_table (Reader_TryBody n r)" if "rd_table r" for n r
    using that ReadBody_table [of r] by (simp add: Reader_TryBody_def Let_def case_prod_beta)
  have c: "rd_table (Reader_CheckExcess n r)" if "rd_table r" for n r
    using that by (simp add: Reader_CheckExcess_def)
  show "rd_table r \<Longrightarrow> rd_table (snd (Reader_AddBytes d r))"
    by (auto simp only: Reader_AddBytes_def Let_def case_prod_beta snd_conv rd_table_update split: if_splits intro!: h b c)
qed

lemma feed_table: "rd_table (Reader_feed ds Reader_new)"
proof -
  have "rd_table r \<Longrightarrow> rd_table (Reader_feed ds r)" for r
    by (induction ds arbitrary: r) (simp_all add: AddBytes_table)
  moreover have "rd_table Reader_new"
  proof -
    have "rd_map_inv Reader_new" "fh_fsize (rd_mapAttributes Reader_new) = MAX_NUM_ATTRIBUTES"
      using fh_Reset_inv [OF FastHash_new_inv(1) [of MAX_NUM_ATTRIBUTES 53 FastHash_Hash_u16]]
      by (simp_all add: Reader_new_def Reader_Reset_def FastHash_new_size MAX_NUM_ATTRIBUTES_def)
    then show ?thesis by (simp add: rd_table_def)
  qed
  ultimately show ?thesis by simp
qed

text \<open>
  A reader can be used again. After \<^verbatim>\<open>Reset\<close> a reader that was fed anything, erroneous or not,
  treats what follows as a new reader does.
\<close>

theorem reader_reset_fresh:
  "Reader_GetState (Reader_feed es (Reader_Reset (Reader_feed ds Reader_new))) =
     Reader_GetState (Reader_feed es Reader_new)"
proof -
  have "rd_inv True [] (Reader_Reset (Reader_feed ds Reader_new))"
    using Reader_Reset_inv feed_table [of ds] by (simp add: rd_table_def)
  from rd.feed_inv [OF this, of es] show ?thesis
    using feed_state [of es] by (simp add: Reader_feed_eq rd_inv_def Reader_GetState_def)
qed

section \<open>Where the code falls short\<close>

text \<open>
  \<^verbatim>\<open>GetErrorCode\<close> does not look at the size of the attribute. A validated message can end with an
  empty error-code attribute; the call succeeds, although both bytes it reads lie behind the
  end of the message.
\<close>

theorem error_code_unchecked:
  "\<exists>bs r a. Reader_AddBytes bs Reader_new = (BodyValidated, r) \<and>
    Reader_GetAttributeByType STUN_ATTRIBUTE_ERRORCODE r = (S_OK, Some a) \<and> sa_size a = 0 \<and>
    unat (sa_offset a) = length bs \<and> SUCCEEDED (fst (Reader_GetErrorCode n r))"
proof -
  let ?as = "[(STUN_ATTRIBUTE_ERRORCODE, [])]" and ?bs = "msg_bytes demo_field demo_tid [(STUN_ATTRIBUTE_ERRORCODE, [])]"
  let ?r = "demo_reader demo_field ?as"
  have w: "wire_ok ?as" by (rule wire_okI) simp_all
  note v = demo_valid [OF w demo_lengths(4)]
  let ?a = "\<lparr>attributeType = STUN_ATTRIBUTE_ERRORCODE, sa_size = 0, sa_offset = 24\<rparr>"
  have l: "rd_Lookup STUN_ATTRIBUTE_ERRORCODE ?r = Some ?a"
    using rd_validD(10) [OF v] by (simp add: last_attr_def)
  have "length ?bs = 24" using msg_bytes_view(5) [OF demo_lengths(1), of demo_field ?as] by (simp add: length_enc_attr pad4_def)
  moreover have "Reader_AddBytes ?bs Reader_new = (BodyValidated, ?r)"
    using read_msg(1) [OF Reader_new_inv demo_lengths(1) w demo_lengths(4)] by (simp add: demo_reader_def prod_eq_iff)
  ultimately show ?thesis
    using l by (intro exI [of _ ?bs] exI [of _ ?r] exI [of _ ?a])
      (simp add: Reader_GetAttributeByType_def Reader_GetErrorCode_def Let_def)
qed

text \<open>
  The unknown-attributes attribute is not padded. In a message that is not of the legacy
  format, one unknown attribute type (any odd number of them) makes the builder's own result
  unreadable: the reader rejects it, whatever the type.
\<close>

theorem unknown_attributes_unreadable:
  "\<exists>buf. fst (Builder_GetResult (snd (Builder_AddUnknownAttributes [ty]
      (Builder_message t c demo_tid [])))) = (S_OK, Some buf) \<and>
    fst (Reader_AddBytes (buf_bytes buf) Reader_new) = ParseError"
proof -
  let ?b = "Builder_message t c demo_tid []" and ?g = "snd (Builder_AddUnknownAttributes [ty] (Builder_message t c demo_tid []))"
  note m = Builder_message_msg [OF demo_lengths(1) demo_wire_ok(1), of t c]
  have e: "bd_end ?b" "\<not> bd_fLegacyMode ?b" using m message_start(1) [OF demo_lengths(1), of t c]
    by (simp_all add: bd_msg_def Builder_message_def)
  have a: "appends (Builder_AddUnknownAttributes [ty])
      (be16 STUN_ATTRIBUTE_UNKNOWNATTRIBUTES @ be16 2 @ host16 ty) ?b"
    using appends_AddUnknownAttributes [OF e(1), of "[ty]"] e(2) by simp
  have g: "bd_end ?g" "length (bd_bytes ?g) = 26" "20 \<le> length (bd_bytes ?g)"
    using a bd_msg_length [OF m] by (simp_all add: appends_def bd_appends_def)
  obtain buf where b: "fst (Builder_GetResult ?g) = (S_OK, Some buf)" "buf_bytes buf = set_len 6 (bd_bytes ?g)"
    by (rule GetResult_ok [OF g(1,3)]) (simp add: g(2))
  have len: "length (buf_bytes buf) = 26" using b(2) g(2) by simp
  have "peek 2 2 (buf_bytes buf) = be16 6" using b(2) g(2) by (simp add: set_len_def poke_def peek_def)
  then have "\<not> header_ok True (buf_bytes buf)" by (simp add: header_ok_def msg_len_def unbe16_be16 [of _ "[]", simplified])
  then have "verdict True (buf_bytes buf) = ParseError" using len by (simp add: verdict_def STUN_HEADER_SIZE_def)
  then show ?thesis using b(1) AddBytes_inv(1) [OF Reader_new_inv, of "buf_bytes buf"] by simp
qed

text \<open>
  A random transaction id is random in 64 bits only. The first four bytes are the magic cookie,
  the next eight come from the generator, and the last four do not depend on it: they are what
  the memory held.
\<close>

theorem random_id_tail_unset:
  "fst (snd (Builder_AddRandomTransactionId rnd b)) =
     be32 STUN_COOKIE @ map rnd [4..<12] @ replicate 4 uninit_byte"
proof -
  have h: "host32 (htonl STUN_COOKIE) = be32 STUN_COOKIE"
    unfolding htonl_def be32_def by (rule host32_unhost32)
  have f: "fold (\<lambda>x t. t[x := rnd x]) [4..<12] (be32 STUN_COOKIE @ replicate 12 uninit_byte) =
      be32 STUN_COOKIE @ map rnd [4..<12] @ replicate 4 uninit_byte"
    by (simp add: be32_def upt_rec numeral_eq_Suc)
  have p: "poke 0 (be32 STUN_COOKIE) (replicate STUN_TRANSACTION_ID_LENGTH uninit_byte) =
      be32 STUN_COOKIE @ replicate 12 uninit_byte"
    by (simp add: poke_def STUN_TRANSACTION_ID_LENGTH_def be32_def)
  show ?thesis
    using f by (simp add: Builder_AddRandomTransactionId_def Let_def h p [unfolded STUN_TRANSACTION_ID_LENGTH_def] STUN_TRANSACTION_ID_LENGTH_def
        split: prod.splits)
qed

end
