(* ===== verification/StorageTheorems.thy ===== *)
theory StorageTheorems
  imports DataStream FastHashProps
begin

text \<open>
  The storage classes against abstract models: the data stream is a byte string with a cursor, the
  hash table is a bounded map of value stacks, for every sequence of operations.
\<close>

section \<open>The data stream\<close>

datatype stream_op = SWrite "u8 list" | SSeek nat | SRead nat

fun stream_step :: "stream_op \<Rightarrow> CDataStream \<Rightarrow> (bool \<times> u8 list) \<times> CDataStream" where
  "stream_step (SWrite d) s = (case DS_Write d s of (hr, s) \<Rightarrow> ((SUCCEEDED hr, []), s))"
| "stream_step (SSeek p) s = (case DS_SeekDirect p s of (hr, s) \<Rightarrow> ((SUCCEEDED hr, []), s))"
| "stream_step (SRead n) s = (case DS_Read n s of (hr, d, s) \<Rightarrow> ((SUCCEEDED hr, d), s))"

text \<open>The abstract file: its bytes and the position of the cursor in them.\<close>

fun file_step :: "stream_op \<Rightarrow> u8 list \<times> nat \<Rightarrow> (bool \<times> u8 list) \<times> u8 list \<times> nat" where
  "file_step (SWrite d) (bs, p) = (if d = [] then ((False, []), bs, p) else ((True, []), poke p d bs, p + length d))"
| "file_step (SSeek q) (bs, p) = (if q \<le> length bs then ((True, []), bs, q) else ((False, []), bs, p))"
| "file_step (SRead n) (bs, p) = (if n + p \<le> length bs then ((True, peek p n bs), bs, p + n) else ((False, []), bs, p))"

fun run :: "('op \<Rightarrow> 's \<Rightarrow> 'out \<times> 's) \<Rightarrow> 'op list \<Rightarrow> 's \<Rightarrow> 'out list \<times> 's" where
  "run step [] s = ([], s)"
| "run step (op # ops) s = (let (x, s) = step op s; (xs, s) = run step ops s in (x # xs, s))"

lemma run_append: "run step (xs @ ys) s =
  (fst (run step xs s) @ fst (run step ys (snd (run step xs s))), snd (run step ys (snd (run step xs s))))"
  by (induction xs arbitrary: s) (simp_all add: Let_def case_prod_beta)

text \<open>A step that simulates another keeps the outputs of all runs.\<close>

lemma run_simulation:
  assumes "\<And>op s a. R s a \<Longrightarrow> fst (step op s) = fst (astep op a) \<and> R (snd (step op s)) (snd (astep op a))" "R s a"
  shows "fst (run step ops s) = fst (run astep ops a) \<and> R (snd (run step ops s)) (snd (run astep ops a))"
  using assms(2)
proof (induction ops arbitrary: s a)
  case (Cons op ops)
  from assms(1) [OF Cons.prems, of op] Cons.IH [of "snd (step op s)" "snd (astep op a)"]
  show ?case by (simp add: Let_def case_prod_beta)
qed simp

definition stream_abs :: "CDataStream \<Rightarrow> u8 list \<times> nat \<Rightarrow> bool" where
  "stream_abs s a \<longleftrightarrow> ds_ok s \<and> a = (ds_bytes s, ds_pos s)"

lemma DS_Write_empty: "DS_Write [] s = (E_FAIL, s)"
  by (simp add: DS_Write_def)

lemma stream_step_abs:
  assumes "stream_abs s a"
  shows "fst (stream_step op s) = fst (file_step op a) \<and> stream_abs (snd (stream_step op s)) (snd (file_step op a))"
proof -
  have ok: "ds_ok s" and a: "a = (ds_bytes s, ds_pos s)" using assms by (simp_all add: stream_abs_def)
  show ?thesis
  proof (cases op)
    case (SWrite d)
    then show ?thesis using DS_Write_ok [OF ok, of d]
      by (cases "d = []") (simp_all add: a ok stream_abs_def DS_Write_empty case_prod_beta)
  next
    case (SSeek p)
    then show ?thesis using DS_SeekDirect_ok [OF ok, of p] DS_SeekDirect_far [OF ok, of p] ok
      by (cases "p \<le> length (ds_bytes s)") (simp_all add: a stream_abs_def)
  next
    case (SRead n)
    then show ?thesis using DS_Read_ok [OF ok, of n] DS_Read_short [OF ok, of n] ok
      by (cases "n + ds_pos s \<le> length (ds_bytes s)") (simp_all add: a stream_abs_def add.commute)
  qed
qed


text \<open>A stream attached to a caller's buffer, while the content fits in it.\<close>

definition stream_fits :: "nat \<Rightarrow> CDataStream \<Rightarrow> u8 list \<times> nat \<Rightarrow> bool" where
  "stream_fits cap s a \<longleftrightarrow> stream_abs s a \<and>
     (length (fst a) \<le> cap \<longrightarrow> ds_released s = [] \<and> ds_capacity s = cap)"

lemma length_poke_le: "p \<le> length m \<Longrightarrow> length (poke p d m) = max (length m) (p + length d)"
  by (simp add: poke_def)

lemma stream_step_fits:
  assumes "stream_fits cap s a"
  shows "fst (stream_step op s) = fst (file_step op a) \<and> stream_fits cap (snd (stream_step op s)) (snd (file_step op a))"
proof -
  have abs: "stream_abs s a" and ok: "ds_ok s" and a: "a = (ds_bytes s, ds_pos s)"
    using assms by (simp_all add: stream_fits_def stream_abs_def)
  have "length (fst (snd (file_step op a))) \<le> cap \<longrightarrow>
    ds_released (snd (stream_step op s)) = [] \<and> ds_capacity (snd (stream_step op s)) = cap"
  proof (cases op)
    case (SWrite d)
    show ?thesis
    proof (cases "d = []")
      case False
      have "ds_pos s \<le> length (ds_bytes s)" using ok ds_pos_le by (auto simp: ds_ok_def)
      then show ?thesis using DS_Write_grown [OF ok False] assms False
        by (auto simp: SWrite a stream_fits_def length_poke_le case_prod_beta)
    qed (use assms in \<open>simp add: SWrite a DS_Write_empty stream_fits_def\<close>)
  next
    case (SSeek p)
    then show ?thesis using DS_SeekDirect_ok [OF ok, of p] DS_SeekDirect_far [OF ok, of p] assms
      by (cases "p \<le> length (ds_bytes s)") (simp_all add: a stream_fits_def)
  next
    case (SRead n)
    then show ?thesis using DS_Read_ok [OF ok, of n] DS_Read_short [OF ok, of n] assms
      by (cases "n + ds_pos s \<le> length (ds_bytes s)") (simp_all add: a stream_fits_def)
  qed
  with stream_step_abs [OF abs, of op] show ?thesis by (simp add: stream_fits_def)
qed

text \<open>
  A stream writes through to the buffer it is attached to. As long as the content does not
  outgrow the buffer's allocation, whatever the operations, the stream keeps the caller's own buffer
  (it was never replaced by a larger one), its allocation is the same, and it holds the content.
\<close>

theorem stream_writes_through:
  assumes "buf_wf buf" "length (fst (snd (run file_step ops ([], 0)))) \<le> b_allocated buf"
  shows "\<exists>b. ds_attached_view (snd (run stream_step ops (DS_Attach (Some buf) True s))) = Some b \<and>
    b_allocated b = b_allocated buf \<and> buf_bytes b = fst (snd (run file_step ops ([], 0)))"
proof -
  let ?t = "snd (run stream_step ops (DS_Attach (Some buf) True s))"
  have start: "stream_fits (b_allocated buf) (DS_Attach (Some buf) True s) ([], 0)"
    by (simp add: stream_fits_def stream_abs_def DS_Attach_write assms(1))
  have f: "stream_fits (b_allocated buf) ?t (snd (run file_step ops ([], 0)))"
    using run_simulation [of "stream_fits (b_allocated buf)" stream_step file_step,
        OF stream_step_fits start, of ops] by blast
  have len: "length (fst (snd (run file_step ops ([], 0)))) \<le> b_allocated buf" by (rule assms(2))
  have fit: "ds_released ?t = []" "ds_capacity ?t = b_allocated buf" "stream_abs ?t (snd (run file_step ops ([], 0)))"
    using f len by (auto simp: stream_fits_def)
  have some: "ds_buffer (snd (run stream_step ops s)) \<noteq> None" if "ds_buffer s \<noteq> None" for ops s
    using that
  proof (induction ops arbitrary: s)
    case (Cons op ops)
    have "ds_buffer (snd (stream_step op s)) \<noteq> None"
      using Cons.prems by (cases op) (auto simp: DS_Write_def DS_Grow_def DS_SeekDirect_def DS_Read_def Let_def
          case_prod_beta split: option.splits)
    from Cons.IH [OF this] show ?case by (simp add: Let_def case_prod_beta)
  qed simp
  have "ds_buffer (DS_Attach (Some buf) True s) \<noteq> None" by (simp add: DS_Attach_def)
  from some [OF this, of ops] obtain b where b: "ds_buffer ?t = Some b" by blast
  then have "ds_attached_view ?t = Some b" "b_allocated b = b_allocated buf"
    "buf_bytes b = fst (snd (run file_step ops ([], 0)))"
    using fit by (auto simp: ds_attached_view_def ds_capacity_def stream_abs_def ds_bytes_def)
  then show ?thesis by blast
qed

theorem stream_writes_through_witness:
  "\<exists>b. ds_attached_view (snd (run stream_step [SWrite [1, 2], SSeek 0, SWrite [7]]
      (DS_Attach (Some (CBuffer_alloc 3)) True CDataStream_empty))) = Some b \<and>
    b_allocated b = 3 \<and> buf_bytes b = [7, 2]"
  using stream_writes_through [of "CBuffer_alloc 3" "[SWrite [1, 2], SSeek 0, SWrite [7]]" CDataStream_empty]
  by (simp add: poke_def)

section \<open>The buffer\<close>

text \<open>
  \<^verbatim>\<open>SetSize\<close> never fails. The result of the comparison with the allocation is returned as an
  \<^verbatim>\<open>HRESULT\<close>, and both 0 and 1 count as success: the size can exceed what is allocated.
\<close>

theorem set_size_unchecked:
  "SUCCEEDED (fst (CBuffer_SetSize (b_allocated b + n) b)) \<and>
   b_size (snd (CBuffer_SetSize (b_allocated b + n) b)) = b_allocated b + n"
  by simp

section \<open>The hash table\<close>

datatype ('k, 'v) table_op = TInsert 'k 'v | TRemove 'k | TLookup 'k | TAssign 'k 'v | TReset

fun table_step :: "('k \<Rightarrow> nat) \<Rightarrow> ('k, 'v) table_op \<Rightarrow> ('k, 'v) FastHash \<Rightarrow> (int \<times> 'v option) \<times> ('k, 'v) FastHash" where
  "table_step hash (TInsert k v) h = (case fh_Insert hash k v h of (n, h) \<Rightarrow> ((n, None), h))"
| "table_step hash (TRemove k) h = (case fh_Remove hash k h of (n, h) \<Rightarrow> ((n, None), h))"
| "table_step hash (TLookup k) h = ((0, fh_Lookup hash k h), h)"
| "table_step hash (TAssign k v) h = ((0, None), fh_Assign hash k v h)"
| "table_step hash TReset h = ((0, None), fh_Reset h)"

text \<open>The abstract table: the room that is left and the stack of values of each key.\<close>

fun stacks_step :: "nat \<Rightarrow> ('k, 'v) table_op \<Rightarrow> nat \<times> ('k \<Rightarrow> 'v list) \<Rightarrow> (int \<times> 'v option) \<times> nat \<times> ('k \<Rightarrow> 'v list)" where
  "stacks_step cap (TInsert k v) (room, f) =
     (if room = 0 then ((-1, None), room, f) else ((1, None), room - 1, f(k := v # f k)))"
| "stacks_step cap (TRemove k) (room, f) =
     (if f k = [] then ((-1, None), room, f) else ((1, None), room + 1, f(k := tl (f k))))"
| "stacks_step cap (TLookup k) (room, f) = ((0, case f k of [] \<Rightarrow> None | v # _ \<Rightarrow> Some v), room, f)"
| "stacks_step cap (TAssign k v) (room, f) =
     ((0, None), room, f(k := (case f k of [] \<Rightarrow> [] | _ # vs \<Rightarrow> v # vs)))"
| "stacks_step cap TReset (room, f) = ((0, None), cap, \<lambda>_. [])"

definition table_abs :: "('k \<Rightarrow> nat) \<Rightarrow> nat \<Rightarrow> ('k, 'v) FastHash \<Rightarrow> nat \<times> ('k \<Rightarrow> 'v list) \<Rightarrow> bool" where
  "table_abs hash cap h a \<longleftrightarrow> fh_inv hash h \<and> fh_fsize h = cap \<and> a = (fh_room h, fh_stack hash h)"

lemma fh_fsize_ops [simp]:
  "fh_fsize (snd (fh_Insert hash k v h)) = fh_fsize h" "fh_fsize (snd (fh_Remove hash k h)) = fh_fsize h"
  "fh_fsize (fh_Assign hash k v h) = fh_fsize h" "fh_fsize (fh_Reset h) = fh_fsize h"
  by (auto simp: fh_Insert_def fh_UpdateIndexWithAdd_def fh_Remove_def fh_UpdateIndexWithRemove_def fh_Assign_def
      fh_Reset_def Let_def split: option.splits prod.splits)

lemma table_step_abs:
  assumes "table_abs hash cap h a"
  shows "fst (table_step hash op h) = fst (stacks_step cap op a) \<and>
    table_abs hash cap (snd (table_step hash op h)) (snd (stacks_step cap op a))"
proof -
  have inv: "fh_inv hash h" and cap: "fh_fsize h = cap" and a: "a = (fh_room h, fh_stack hash h)"
    using assms by (simp_all add: table_abs_def)
  show ?thesis
  proof (cases op)
    case (TInsert k v)
    then show ?thesis using ft.insert_room [OF inv, of k v] ft.insert_full [OF inv, of k v] inv cap
      by (cases "fh_room h = 0") (auto simp: a table_abs_def case_prod_beta)
  next
    case (TRemove k)
    then show ?thesis using ft.remove_some [OF inv, of k] ft.remove_none [OF inv, of k] inv cap
      by (cases "fh_stack hash h k = []") (auto simp: a table_abs_def case_prod_beta)
  next
    case (TLookup k)
    then show ?thesis using ft.lookup_top [OF inv, of k] inv cap by (simp add: a table_abs_def split: list.splits)
  next
    case (TAssign k v)
    then show ?thesis using ft.assign_top [OF inv, of k v] cap by (simp add: a table_abs_def)
  next
    case TReset
    then show ?thesis using fh_Reset_inv [OF inv] cap by (simp add: a table_abs_def fh_room_def)
  qed
qed

text \<open>The values of a key among the items of an enumeration.\<close>

definition values_of :: "'k \<Rightarrow> ('k \<times> 'v) option list \<Rightarrow> 'v list" where
  "values_of key xs = concat (map (\<lambda>x. case x of None \<Rightarrow> [] | Some (k, v) \<Rightarrow> if k = key then [v] else []) xs)"

lemma values_of_simps [simp]:
  "values_of key [] = []" "values_of key (None # xs) = values_of key xs"
  "values_of key (Some (k, v) # xs) = (if k = key then [v] else []) @ values_of key xs"
  "values_of key (xs @ ys) = values_of key xs @ values_of key ys"
  by (simp_all add: values_of_def)

lemma values_of_map: "values_of key (map (\<lambda>i. nodes ! i) xs) = fh_vals nodes key xs"
  by (simp add: values_of_def fh_vals_def comp_def)

lemma values_of_mset:
  assumes "mset xs = mset ys"
  shows "mset (values_of key xs) = mset (values_of key ys)"
proof -
  have "mset (values_of key zs) = (\<Sum>x \<in># mset zs. mset (values_of key [x]))" for zs
    by (induction zs) (simp_all add: values_of_def)
  from this [of xs] this [of ys] show ?thesis by (simp add: assms)
qed

lemma fh_vals_columns:
  assumes "\<And>t i. t < length cs \<Longrightarrow> t \<noteq> u \<Longrightarrow> i \<in> set (cs ! t) \<Longrightarrow> \<nexists>v. nodes ! i = Some (key, v)" "u < length cs"
  shows "fh_vals nodes key (concat cs) = fh_vals nodes key (cs ! u)"
  using assms
proof (induction cs arbitrary: u)
  case (Cons c cs)
  have app: "fh_vals nodes key (concat (c # cs)) = fh_vals nodes key c @ fh_vals nodes key (concat cs)"
    by (simp add: fh_vals_def)
  show ?case
  proof (cases u)
    case 0
    have "fh_vals nodes key (concat cs) = []"
      by (rule fh_vals_none) (use Cons.prems(1) [of "Suc _"] 0 in \<open>fastforce simp: in_set_conv_nth [of _ cs]\<close>)
    then show ?thesis using 0 by (simp add: app)
  next
    case (Suc u')
    have "fh_vals nodes key c = []"
      by (rule fh_vals_none) (use Cons.prems(1) [of 0] Suc in auto)
    moreover have "fh_vals nodes key (concat cs) = fh_vals nodes key (cs ! u')"
      by (rule Cons.IH) (use Cons.prems(1) [of "Suc _"] Cons.prems(2) Suc in auto)
    ultimately show ?thesis using Suc by (simp add: app)
  qed
qed simp

lemma fh_items_values:
  assumes "fh_inv hash h"
  shows "values_of key (fh_items h) = fh_stack hash h key"
proof -
  obtain cs fl where r: "fh_rep hash h cs fl" using assms by (auto simp: fh_inv_def)
  note d = fh_repD [OF r]
  let ?u = "hash key mod fh_tsize h"
  have "fh_vals (fh_nodes h) key (concat cs) = fh_vals (fh_nodes h) key (cs ! ?u)"
  proof (rule fh_vals_columns)
    fix t i assume t: "t < length cs" "t \<noteq> ?u" "i \<in> set (cs ! t)"
    then have "fh_placed hash h t i" using r by (auto simp: fh_rep_def)
    then show "\<nexists>v. fh_nodes h ! i = Some (key, v)" using t(2) by (auto simp: fh_placed_def)
  qed (use d in simp)
  then show ?thesis by (simp add: fh_items_rep [OF r] values_of_map fh_stack_rep [OF r])
qed

text \<open>
  C19: the hash table is a bounded map of stacks. For every hash function, sizes and sequence of
  insertions, removals, look-ups, assignments and resets on a new table: every result is that of
  the abstract table, in which an insertion fails only when all \<open>FSIZE\<close> items are in use, hides
  the older values of its key, and a removal uncovers them; and going through the final table by
  position gives every value of every key exactly once.
\<close>

theorem table_refines_stacks:
  assumes "0 < FSIZE" "0 < TSIZE"
  shows "fst (run (table_step hash) ops (FastHash_new FSIZE TSIZE)) =
      fst (run (stacks_step FSIZE) ops (FSIZE, \<lambda>_. [])) \<and>
    mset (values_of key (let h = snd (run (table_step hash) ops (FastHash_new FSIZE TSIZE))
        in map (\<lambda>i. fst (fh_LookupByIndex i h)) [0..<fh_Size h])) =
      mset (snd (snd (run (stacks_step FSIZE) ops (FSIZE, \<lambda>_. []))) key)"
proof -
  let ?h = "snd (run (table_step hash) ops (FastHash_new FSIZE TSIZE))"
  have "table_abs hash FSIZE (FastHash_new FSIZE TSIZE) (FSIZE, \<lambda>_. [])"
    by (simp add: table_abs_def FastHash_new_size fh_room_def FastHash_new_inv [OF assms])
  note s = run_simulation [of "table_abs hash FSIZE" "table_step hash" "stacks_step FSIZE", OF table_step_abs this, of ops]
  then have inv: "fh_inv hash ?h" "snd (snd (run (stacks_step FSIZE) ops (FSIZE, \<lambda>_. []))) = fh_stack hash ?h"
    by (auto simp: table_abs_def)
  have "mset (values_of key (map (\<lambda>i. fst (fh_LookupByIndex i ?h)) [0..<fh_size ?h])) = mset (fh_stack hash ?h key)"
    using values_of_mset [OF fh_LookupByIndex_items [OF inv(1)], of key] fh_items_values [OF inv(1), of key] by simp
  then show ?thesis using s inv(2) by (simp add: fh_Size_def Let_def)
qed

theorem table_refines_stacks_witness:
  "fst (run (table_step FastHash_Hash_int) [TInsert 5 ''a'', TInsert 8 ''b'', TInsert 5 ''c'', TLookup 5, TRemove 5, TLookup 5]
      (FastHash_new 2 3)) = [(1, None), (1, None), (-1, None), (0, Some ''a''), (1, None), (0, None)]"
  using conjunct1 [OF table_refines_stacks [of 2 3 FastHash_Hash_int
      "[TInsert 5 ''a'', TInsert 8 ''b'', TInsert 5 ''c'', TLookup 5, TRemove 5, TLookup 5]" 5]]
  by simp

end
