(* ===== verification/ClientTheorems.thy ===== *)
theory ClientTheorems
  imports ClientLogic CodecTheorems StorageTheorems
begin

text \<open>
  What a session of the client guarantees, for every sequence of polls and received messages: it
  sends a bounded number of messages, it ends, it is not disturbed by foreign messages, and its
  results mean what they say.
\<close>

section \<open>Sessions\<close>

datatype client_event =
  Poll "nat \<Rightarrow> u8" CBuffer CSocketAddress u32
| Receive CBuffer CSocketAddress CSocketAddress

fun client_step :: "client_event \<Rightarrow> CStunClientLogic \<Rightarrow> HRESULT \<times> CStunClientLogic" where
  "client_step (Poll rnd spMsg dest now) l = (case ClientLogic_GetNextMessage rnd spMsg dest now l of (hr, _, _, l) \<Rightarrow> (hr, l))"
| "client_step (Receive spMsg remote local) l = ClientLogic_ProcessResponse spMsg remote local l"

text \<open>The part of the state that no operation but \<^verbatim>\<open>Initialize\<close> changes.\<close>

definition same_session :: "CStunClientLogic \<Rightarrow> CStunClientLogic \<Rightarrow> bool" where
  "same_session l l' \<longleftrightarrow> cl_config l' = cl_config l \<and> cl_fInitialized l' = cl_fInitialized l \<and>
     length (cl_testlist l') = length (cl_testlist l)"

lemma same_session_refl [simp]: "same_session l l"
  by (simp add: same_session_def)

lemma same_session_trans: "same_session l l' \<Longrightarrow> same_session l' l'' \<Longrightarrow> same_session l l''"
  by (simp add: same_session_def)

text \<open>The number of messages that can still be sent.\<close>

definition max_attempts :: "CStunClientLogic \<Rightarrow> nat" where
  "max_attempts l = unat (cfg_uMaxAttempts (cl_config l))"

definition send_budget :: "CStunClientLogic \<Rightarrow> nat" where
  "send_budget l = max_attempts l * (length (cl_testlist l) - cl_nTestIndex l) -
     (if cl_nTestIndex l < length (cl_testlist l) then unat (cl_sendCount l) else 0)"

definition send_ok :: "CStunClientLogic \<Rightarrow> bool" where
  "send_ok l \<longleftrightarrow> cl_fInitialized l \<and> unat (cl_sendCount l) \<le> max_attempts l"

lemma GetMessage_ok: "fst (Test_GetMessage rnd cfg res spMsg t) = S_OK"
  by (simp add: Test_GetMessage_def CBasicBindingTest_GetMessage_def CBehaviorTest_GetMessage_def
      CFilteringTest_GetMessage_def Let_def split: ClientTestClass.splits prod.splits)

text \<open>The four ways a turn of the loop ends.\<close>

lemma loop_step_Inl:
  assumes "ClientLogic_loop_step rnd now spMsg dest l = Inl (hr, buf, d, l')"
  shows "hr = E_STUNCLIENT_RESULTS_READY \<and> l' = l \<and> length (cl_testlist l) \<le> cl_nTestIndex l \<or>
    cl_nTestIndex l < length (cl_testlist l) \<and> \<not> ct_fCompleted (cl_test (ClientLogic_PreCheck l)) \<and>
      Test_IsReadyToRun (cl_results (ClientLogic_PreCheck l)) (cl_test (ClientLogic_PreCheck l)) \<and>
      (hr = E_STUNCLIENT_STILL_WAITING \<and> l' = ClientLogic_PreCheck l \<and> cl_sendCount l \<noteq> 0 \<and>
         (now - cl_timeLastMessageSent l) div 1000 < cfg_timeoutSeconds (cl_config l) \<or>
       hr = S_OK \<and> cl_sendCount l < cfg_uMaxAttempts (cl_config l) \<and>
       (\<exists>t. Test_GetMessage rnd (cl_config l) (cl_results (ClientLogic_PreCheck l)) spMsg (cl_test (ClientLogic_PreCheck l))
            = (S_OK, buf, d, t) \<and>
          l' = (ClientLogic_PreCheck l)\<lparr>cl_testlist := (cl_testlist (ClientLogic_PreCheck l))[cl_nTestIndex l := t],
                cl_sendCount := cl_sendCount l + 1, cl_timeLastMessageSent := now\<rparr>))"
proof (cases "length (cl_testlist l) \<le> cl_nTestIndex l")
  case True
  then show ?thesis using assms by (simp add: ClientLogic_loop_step_def)
next
  case False
  obtain t where g: "Test_GetMessage rnd (cl_config l) (cl_results (ClientLogic_PreCheck l)) spMsg (cl_test (ClientLogic_PreCheck l))
      = (S_OK, fst (snd (Test_GetMessage rnd (cl_config l) (cl_results (ClientLogic_PreCheck l)) spMsg (cl_test (ClientLogic_PreCheck l)))),
         fst (snd (snd (Test_GetMessage rnd (cl_config l) (cl_results (ClientLogic_PreCheck l)) spMsg (cl_test (ClientLogic_PreCheck l))))), t)"
    by (metis GetMessage_ok prod.collapse)
  show ?thesis using False assms g
    by (cases "Test_GetMessage rnd (cl_config l) (cl_results (ClientLogic_PreCheck l)) spMsg (cl_test (ClientLogic_PreCheck l))")
      (auto simp: ClientLogic_loop_step_def Let_def Test_IsCompleted_def not_le split: if_splits)
qed

text \<open>One poll: its result, and what it costs.\<close>

lemma loop_result:
  assumes "ClientLogic_loop rnd now spMsg dest l = (hr, buf, d, l')" "send_ok l"
  shows "same_session l l' \<and> send_ok l' \<and> cl_nTestIndex l \<le> cl_nTestIndex l' \<and>
    (hr = S_OK \<and> send_budget l' < send_budget l \<and> cl_timeLastMessageSent l' = now \<or>
     hr = E_STUNCLIENT_RESULTS_READY \<and> length (cl_testlist l') \<le> cl_nTestIndex l' \<or>
     hr = E_STUNCLIENT_STILL_WAITING \<and> send_budget l' \<le> send_budget l \<and> cl_sendCount l \<noteq> 0 \<and>
       (now - cl_timeLastMessageSent l) div 1000 < cfg_timeoutSeconds (cl_config l))"
  using assms
proof (induction rnd now spMsg dest l rule: ClientLogic_loop.induct)
  case (1 rnd now spMsg dest l)
  show ?case
  proof (cases "ClientLogic_loop_step rnd now spMsg dest l")
    case (Inl r)
    then have e: "ClientLogic_loop_step rnd now spMsg dest l = Inl (hr, buf, d, l')"
      using 1(2) by (simp add: ClientLogic_loop.simps [of rnd now spMsg dest l])
    have less: "unat (cl_sendCount l) < max_attempts l * (length (cl_testlist l) - cl_nTestIndex l)"
      if i: "cl_nTestIndex l < length (cl_testlist l)" and c: "cl_sendCount l < cfg_uMaxAttempts (cl_config l)"
    proof -
      obtain n where "length (cl_testlist l) - cl_nTestIndex l = Suc n"
        using i by (cases "length (cl_testlist l) - cl_nTestIndex l") auto
      then show ?thesis using c by (simp add: max_attempts_def word_less_nat_alt)
    qed
    have "unat (cl_sendCount l + 1) = unat (cl_sendCount l) + 1" if "cl_sendCount l < cfg_uMaxAttempts (cl_config l)"
    proof -
      have "unat (cl_sendCount l) + 1 < 2 ^ 32"
        using that unat_less(3) [of "cfg_uMaxAttempts (cl_config l)"] by (simp add: word_less_nat_alt del: unat_less)
      then show ?thesis by (simp add: unat_word_ariths)
    qed
    note succ = this
    from loop_step_Inl [OF e] show ?thesis
    proof (elim disjE conjE exE)
      assume "hr = E_STUNCLIENT_RESULTS_READY" "l' = l" "length (cl_testlist l) \<le> cl_nTestIndex l"
      then show ?thesis using 1(3) by simp
    next
      assume w: "hr = E_STUNCLIENT_STILL_WAITING" "l' = ClientLogic_PreCheck l" "cl_sendCount l \<noteq> 0"
        "(now - cl_timeLastMessageSent l) div 1000 < cfg_timeoutSeconds (cl_config l)"
      then show ?thesis using 1(3) by (simp add: same_session_def send_ok_def send_budget_def max_attempts_def)
    next
      fix t assume i: "cl_nTestIndex l < length (cl_testlist l)" and c: "cl_sendCount l < cfg_uMaxAttempts (cl_config l)"
        and hr: "hr = S_OK" and l': "l' = (ClientLogic_PreCheck l)\<lparr>cl_testlist := (cl_testlist (ClientLogic_PreCheck l))[cl_nTestIndex l := t],
                cl_sendCount := cl_sendCount l + 1, cl_timeLastMessageSent := now\<rparr>"
      have "send_budget l' < send_budget l"
        using less [OF i c] succ [OF c] i by (simp add: l' send_budget_def max_attempts_def)
      then show ?thesis
        using 1(3) succ [OF c] c hr by (simp add: l' same_session_def send_ok_def max_attempts_def word_less_nat_alt)
    qed
  next
    case (Inr k)
    have l: "ClientLogic_loop rnd now spMsg dest k = (hr, buf, d, l')"
      using 1(2) Inr by (simp add: ClientLogic_loop.simps [of rnd now spMsg dest l])
    have idx: "cl_nTestIndex l < length (cl_testlist l)" and k: "k = (ClientLogic_PreCheck l)\<lparr>cl_nTestIndex := cl_nTestIndex l + 1,
        cl_sendCount := 0, cl_fPreCheckRunOnTest := False\<rparr> \<or> k = on_test Test_NotifyTimeout (ClientLogic_PreCheck l) \<and>
        \<not> ct_fCompleted (cl_test (ClientLogic_PreCheck l)) \<and> cfg_uMaxAttempts (cl_config l) \<le> cl_sendCount l"
      using loop_step_Inr [OF Inr] by blast+
    have sess: "same_session l k" "send_ok k" using k 1(3) by (auto simp: same_session_def send_ok_def max_attempts_def)
    have bud: "send_budget k \<le> send_budget l"
    proof -
      obtain n where n: "length (cl_testlist l) = cl_nTestIndex l + Suc n" using idx by (metis less_imp_Suc_add add_Suc_right)
      show ?thesis using k n 1(3) by (auto simp: send_budget_def send_ok_def max_attempts_def)
    qed
    have time: "cl_sendCount k \<noteq> 0 \<Longrightarrow> cl_sendCount l \<noteq> 0 \<and> cl_timeLastMessageSent k = cl_timeLastMessageSent l \<and>
        cl_config k = cl_config l"
      using k by auto
    have "cl_nTestIndex l \<le> cl_nTestIndex k" using k by auto
    moreover from 1(1) [OF Inr l sess(2)] have ih: "same_session k l'" "send_ok l'" "cl_nTestIndex k \<le> cl_nTestIndex l'"
      "hr = S_OK \<and> send_budget l' < send_budget k \<and> cl_timeLastMessageSent l' = now \<or>
       hr = E_STUNCLIENT_RESULTS_READY \<and> length (cl_testlist l') \<le> cl_nTestIndex l' \<or>
       hr = E_STUNCLIENT_STILL_WAITING \<and> send_budget l' \<le> send_budget k \<and> cl_sendCount k \<noteq> 0 \<and>
         (now - cl_timeLastMessageSent k) div 1000 < cfg_timeoutSeconds (cl_config k)"
      by blast+
    ultimately have *: "same_session l l'" "cl_nTestIndex l \<le> cl_nTestIndex l'"
      using same_session_trans [OF sess(1)] by (blast, linarith)
    from ih(4) have "hr = S_OK \<and> send_budget l' < send_budget l \<and> cl_timeLastMessageSent l' = now \<or>
     hr = E_STUNCLIENT_RESULTS_READY \<and> length (cl_testlist l') \<le> cl_nTestIndex l' \<or>
     hr = E_STUNCLIENT_STILL_WAITING \<and> send_budget l' \<le> send_budget l \<and> cl_sendCount l \<noteq> 0 \<and>
       (now - cl_timeLastMessageSent l) div 1000 < cfg_timeoutSeconds (cl_config l)"
      using bud time by (elim disjE) (auto intro: order_less_le_trans order_trans)
    with * ih(2) show ?thesis by blast
  qed
qed

lemma ProcessResponse_keeps:
  "same_session l (snd (ClientLogic_ProcessResponse spMsg remote local l))"
  "cl_nTestIndex (snd (ClientLogic_ProcessResponse spMsg remote local l)) = cl_nTestIndex l"
  "cl_sendCount (snd (ClientLogic_ProcessResponse spMsg remote local l)) = cl_sendCount l"
  "cl_timeLastMessageSent (snd (ClientLogic_ProcessResponse spMsg remote local l)) = cl_timeLastMessageSent l"
  by (simp_all add: ClientLogic_ProcessResponse_def same_session_def split: prod.splits)

definition is_poll :: "client_event \<Rightarrow> bool" where
  "is_poll e \<longleftrightarrow> (case e of Poll _ _ _ _ \<Rightarrow> True | Receive _ _ _ \<Rightarrow> False)"

lemma is_poll_simps [simp]: "is_poll (Poll a b c d)" "\<not> is_poll (Receive x y z)"
  by (simp_all add: is_poll_def)

text \<open>A step keeps the session, and only a successful poll costs something.\<close>

lemma client_step_budget:
  assumes "send_ok l"
  shows "same_session l (snd (client_step e l))" "send_ok (snd (client_step e l))"
    "send_budget (snd (client_step e l)) \<le> send_budget l \<or> length (cl_testlist l) \<le> cl_nTestIndex (snd (client_step e l))"
    "is_poll e \<Longrightarrow> fst (client_step e l) = S_OK \<Longrightarrow> send_budget (snd (client_step e l)) < send_budget l"
    "cl_nTestIndex l \<le> cl_nTestIndex (snd (client_step e l))"
proof -
  have "same_session l (snd (client_step e l)) \<and> send_ok (snd (client_step e l)) \<and>
    (send_budget (snd (client_step e l)) \<le> send_budget l \<or> length (cl_testlist l) \<le> cl_nTestIndex (snd (client_step e l))) \<and>
    (is_poll e \<and> fst (client_step e l) = S_OK \<longrightarrow> send_budget (snd (client_step e l)) < send_budget l) \<and>
    cl_nTestIndex l \<le> cl_nTestIndex (snd (client_step e l))"
  proof (cases e)
    case (Poll rnd buf dest now)
    obtain hr b d l' where g: "ClientLogic_GetNextMessage rnd buf dest now l = (hr, b, d, l')"
      by (metis prod.collapse)
    show ?thesis
    proof (cases "ClientLogic_GetNextMessage rnd buf dest now l = ClientLogic_loop rnd now buf dest l")
      case True
      then have "ClientLogic_loop rnd now buf dest l = (hr, b, d, l')" using g by simp
      from loop_result [OF this assms] show ?thesis
        by (auto simp: Poll g same_session_def)
    next
      case False
      then have "hr \<noteq> S_OK" "l' = l" using g by (auto simp: ClientLogic_GetNextMessage_def split: if_splits)
      then show ?thesis using assms by (simp add: Poll g)
    qed
  next
    case (Receive msg remote local)
    note k = ProcessResponse_keeps [where l = l and spMsg = msg and remote = remote and local = local]
    then show ?thesis using assms
      by (simp add: Receive same_session_def send_ok_def send_budget_def max_attempts_def)
  qed
  then show "same_session l (snd (client_step e l))" "send_ok (snd (client_step e l))"
    "send_budget (snd (client_step e l)) \<le> send_budget l \<or> length (cl_testlist l) \<le> cl_nTestIndex (snd (client_step e l))"
    "is_poll e \<Longrightarrow> fst (client_step e l) = S_OK \<Longrightarrow> send_budget (snd (client_step e l)) < send_budget l"
    "cl_nTestIndex l \<le> cl_nTestIndex (snd (client_step e l))"
    by blast+
qed

lemma send_budget_end [simp]: "length (cl_testlist l) \<le> cl_nTestIndex l \<Longrightarrow> send_budget l = 0"
  by (simp add: send_budget_def)

lemma client_step_budget_le: "send_ok l \<Longrightarrow> send_budget (snd (client_step e l)) \<le> send_budget l"
  using client_step_budget(1,3) [of l e] by (auto simp: same_session_def)

text \<open>The messages a run sends.\<close>

fun messages_sent :: "client_event list \<Rightarrow> CStunClientLogic \<Rightarrow> nat" where
  "messages_sent [] l = 0"
| "messages_sent (e # es) l =
     (if is_poll e \<and> fst (client_step e l) = S_OK then 1 else 0) + messages_sent es (snd (client_step e l))"

lemma messages_sent_budget: "send_ok l \<Longrightarrow> messages_sent es l \<le> send_budget l"
proof (induction es arbitrary: l)
  case (Cons e es)
  have "messages_sent es (snd (client_step e l)) \<le> send_budget (snd (client_step e l))"
    by (rule Cons.IH) (rule client_step_budget [OF Cons.prems])
  then show ?case
    using client_step_budget(4) [OF Cons.prems, of e] client_step_budget_le [OF Cons.prems, of e] by auto
qed simp

lemma Initialize_ok:
  assumes "ClientLogic_Initialize config CStunClientLogic_new = (S_OK, l)"
  shows "send_ok l" "cl_sendCount l = 0" "cl_nTestIndex l = 0" "length (cl_testlist l) \<le> 5" "0 < max_attempts l"
    "send_budget l = max_attempts l * length (cl_testlist l)"
proof -
  have l: "cl_fInitialized l" "cl_sendCount l = 0" "cl_nTestIndex l = 0" "length (cl_testlist l) \<le> 5"
      "cfg_uMaxAttempts (cl_config l) \<noteq> 0"
    using assms by (auto simp: ClientLogic_Initialize_def CStunClientLogic_new_def Let_def split: if_splits)
  then show "send_ok l" "cl_sendCount l = 0" "cl_nTestIndex l = 0" "length (cl_testlist l) \<le> 5"
    "send_budget l = max_attempts l * length (cl_testlist l)"
    by (simp_all add: send_ok_def send_budget_def)
  show "0 < max_attempts l" using l(5) by (simp add: max_attempts_def unat_gt_0)
qed

text \<open>
  C10: a session sends a bounded number of messages. Whatever is polled and received, at whatever
  times and with whatever responses, the client sends at most \<^verbatim>\<open>uMaxAttempts\<close> messages for each of
  its tests, of which there are at most five.
\<close>

theorem session_sends_bounded:
  assumes "ClientLogic_Initialize config CStunClientLogic_new = (S_OK, l)"
  shows "messages_sent es l \<le> unat (cfg_uMaxAttempts (cl_config l)) * length (cl_testlist l) \<and>
    length (cl_testlist l) \<le> 5"
  using messages_sent_budget [OF Initialize_ok(1) [OF assms], of es] Initialize_ok(4,6) [OF assms]
  by (simp add: max_attempts_def)

definition demo_config :: "bool \<Rightarrow> StunClientLogicConfig" where
  "demo_config full = \<lparr>cfg_addrServer = demo_addr 1, cfg_fTimeoutIsInstant = False, cfg_timeoutSeconds = 0,
     cfg_uMaxAttempts = 1, cfg_fBehaviorTest = full, cfg_fFilteringTest = full\<rparr>"

definition demo_logic :: "bool \<Rightarrow> CStunClientLogic" where
  "demo_logic full = snd (ClientLogic_Initialize (demo_config full) CStunClientLogic_new)"

lemma demo_Initialize: "ClientLogic_Initialize (demo_config full) CStunClientLogic_new = (S_OK, demo_logic full)"
proof -
  have a: "\<not> CSocketAddress_IsIPAddressZero (demo_addr 1)" "CSocketAddress_GetPort (demo_addr 1) \<noteq> 0"
    by code_simp+
  then show ?thesis
    by (simp add: demo_logic_def ClientLogic_Initialize_def demo_config_def CStunClientLogic_new_def prod_eq_iff Let_def)
qed

lemma demo_logic_limits: "cfg_uMaxAttempts (cl_config (demo_logic full)) = 1"
    "cfg_timeoutSeconds (cl_config (demo_logic full)) = 3"
    "length (cl_testlist (demo_logic full)) = (if full then 5 else 1)"
proof -
  have "\<not> CSocketAddress_IsIPAddressZero (demo_addr 1)" "CSocketAddress_GetPort (demo_addr 1) \<noteq> 0"
    using demo_Initialize [of full] by (auto simp: ClientLogic_Initialize_def demo_config_def CStunClientLogic_new_def hresult_defs
        split: if_splits)
  then show "cfg_uMaxAttempts (cl_config (demo_logic full)) = 1"
    "cfg_timeoutSeconds (cl_config (demo_logic full)) = 3"
    "length (cl_testlist (demo_logic full)) = (if full then 5 else 1)"
    by (simp_all add: demo_logic_def ClientLogic_Initialize_def demo_config_def CStunClientLogic_new_def Let_def)
qed

theorem session_sends_bounded_witness: "\<forall>es. messages_sent es (demo_logic True) \<le> 5"
  using session_sends_bounded [OF demo_Initialize [of True]] by (simp add: demo_logic_limits)

section \<open>The end of a session\<close>

text \<open>
  Well-spaced polls: each comes with a buffer that is large enough, and at least \<open>timeout\<close> seconds
  after the one before it, on the 32-bit clock. Responses may arrive in between.
\<close>

fun spaced :: "u32 \<Rightarrow> u32 option \<Rightarrow> client_event list \<Rightarrow> bool" where
  "spaced timeout prev [] = True"
| "spaced timeout prev (Poll rnd buf dest now # es) =
     (MAX_STUN_MESSAGE_SIZE \<le> CBuffer_GetAllocatedSize buf \<and>
      (case prev of None \<Rightarrow> True | Some p \<Rightarrow> timeout \<le> (now - p) div 1000) \<and> spaced timeout (Some now) es)"
| "spaced timeout prev (Receive msg remote local # es) = spaced timeout prev es"

definition session_over :: "CStunClientLogic \<Rightarrow> bool" where
  "session_over l \<longleftrightarrow> length (cl_testlist l) \<le> cl_nTestIndex l"

text \<open>Either nothing waits for an answer, or the last message was sent at the last poll.\<close>

definition quiet :: "u32 option \<Rightarrow> CStunClientLogic \<Rightarrow> bool" where
  "quiet prev l \<longleftrightarrow> session_over l \<or> cl_sendCount l = 0 \<or> prev = Some (cl_timeLastMessageSent l)"

lemma MAX_STUN_MESSAGE_SIZE_pos: "0 < MAX_STUN_MESSAGE_SIZE"
  by (simp add: MAX_STUN_MESSAGE_SIZE_def)

lemma spaced_poll:
  assumes "send_ok l" "quiet prev l" "spaced (cfg_timeoutSeconds (cl_config l)) prev (Poll rnd buf dest now # es)"
    and l': "l' = snd (client_step (Poll rnd buf dest now) l)"
  shows "quiet (Some now) l' \<and> (send_budget l' < send_budget l \<or> session_over l')"
proof -
  obtain hr b d k where g: "ClientLogic_GetNextMessage rnd buf dest now l = (hr, b, d, k)" by (metis prod.collapse)
  have size: "MAX_STUN_MESSAGE_SIZE \<le> CBuffer_GetAllocatedSize buf" using assms(3) by simp
  then have "ClientLogic_GetNextMessage rnd buf dest now l = ClientLogic_loop rnd now buf dest l"
    using assms(1) MAX_STUN_MESSAGE_SIZE_pos by (simp add: ClientLogic_GetNextMessage_def send_ok_def)
  from loop_result [OF trans [OF this [symmetric] g] assms(1)]
  have r: "same_session l k" "cl_nTestIndex l \<le> cl_nTestIndex k"
    "hr = S_OK \<and> send_budget k < send_budget l \<and> cl_timeLastMessageSent k = now \<or>
     session_over k \<or> cl_sendCount l \<noteq> 0 \<and>
       (now - cl_timeLastMessageSent l) div 1000 < cfg_timeoutSeconds (cl_config l)"
    by (auto simp: session_over_def)
  have k: "l' = k" by (simp add: l' g)
  have "session_over l \<Longrightarrow> session_over k" using r(1,2) by (simp add: session_over_def same_session_def)
  moreover have "\<not> (cl_sendCount l \<noteq> 0 \<and> (now - cl_timeLastMessageSent l) div 1000 < cfg_timeoutSeconds (cl_config l))"
    if "\<not> session_over l"
    using that assms(2,3) by (auto simp: quiet_def not_less)
  ultimately show ?thesis using r(3) by (auto simp: k quiet_def)
qed

lemma Receive_keeps:
  assumes "l' = snd (client_step (Receive msg remote local) l)"
  shows "quiet prev l \<Longrightarrow> quiet prev l'" "send_budget l' = send_budget l" "session_over l' = session_over l"
  using ProcessResponse_keeps [where l = l and spMsg = msg and remote = remote and local = local]
  by (auto simp: assms quiet_def session_over_def same_session_def send_budget_def max_attempts_def)

lemma over_stays:
  "send_ok l \<Longrightarrow> session_over l \<Longrightarrow> session_over (snd (run client_step es l)) \<and> send_ok (snd (run client_step es l))"
proof (induction es arbitrary: l)
  case (Cons e es)
  have "session_over (snd (client_step e l))"
    using client_step_budget(1,5) [OF Cons.prems(1), of e] Cons.prems(2) by (simp add: session_over_def same_session_def)
  then show ?case using Cons.IH [OF client_step_budget(2) [OF Cons.prems(1)]] by (simp add: case_prod_beta Let_def)
qed simp

lemma spaced_run:
  assumes "send_ok l" "quiet prev l" "spaced (cfg_timeoutSeconds (cl_config l)) prev es"
  shows "length (filter is_poll es) \<le> send_budget l \<or> session_over (snd (run client_step es l))"
  using assms
proof (induction es arbitrary: prev l)
  case (Cons e es)
  note ok = client_step_budget(1,2) [OF Cons.prems(1), of e]
  have cfg: "cl_config (snd (client_step e l)) = cl_config l" using ok(1) by (simp add: same_session_def)
  show ?case
  proof (cases e)
    case (Poll rnd buf dest now)
    note p = spaced_poll [OF Cons.prems(1,2) Cons.prems(3) [unfolded Poll] refl]
    show ?thesis
    proof (cases "session_over (snd (client_step e l))")
      case True
      then show ?thesis using over_stays [OF ok(2)] by (simp add: case_prod_beta Let_def)
    next
      case False
      have "length (filter is_poll es) \<le> send_budget (snd (client_step e l)) \<or>
          session_over (snd (run client_step es (snd (client_step e l))))"
        using Cons.prems(3) p by (intro Cons.IH [OF ok(2), of "Some now"]) (simp_all add: cfg [unfolded Poll] Poll del: client_step.simps)
      then show ?thesis using p False by (auto simp: Poll case_prod_beta Let_def simp del: client_step.simps)
    qed
  next
    case (Receive msg remote local)
    note r = Receive_keeps [OF refl, where msg = msg and remote = remote and local = local and l = l]
    have "length (filter is_poll es) \<le> send_budget (snd (client_step e l)) \<or>
        session_over (snd (run client_step es (snd (client_step e l))))"
      using Cons.prems(3) r(1) [OF Cons.prems(2)] by (intro Cons.IH [OF ok(2), of prev]) (simp_all add: cfg [unfolded Receive] Receive del: client_step.simps)
    then show ?thesis using r(2) by (auto simp: Receive case_prod_beta Let_def simp del: client_step.simps)
  qed
qed simp

text \<open>
  C9: a session ends. When the polls come at least the timeout apart, more of them than the session
  may send messages exhaust every test: from then on, whatever happens, a poll with a large enough
  buffer reports that the results are ready.
\<close>

theorem session_ends:
  assumes "ClientLogic_Initialize config CStunClientLogic_new = (S_OK, l)"
    "spaced (cfg_timeoutSeconds (cl_config l)) None es"
    "unat (cfg_uMaxAttempts (cl_config l)) * length (cl_testlist l) < length (filter is_poll es)"
    "MAX_STUN_MESSAGE_SIZE \<le> CBuffer_GetAllocatedSize buf"
  shows "fst (ClientLogic_GetNextMessage rnd buf dest now (snd (run client_step (es @ es') l))) = E_STUNCLIENT_RESULTS_READY"
proof -
  note i = Initialize_ok [OF assms(1)]
  have "session_over (snd (run client_step es l))"
    using spaced_run [OF i(1) _ assms(2)] i(2) assms(3) by (simp add: quiet_def i(6) max_attempts_def)
  moreover have "send_ok (snd (run client_step es l))" using i(1)
    by (induction es arbitrary: l) (simp_all add: case_prod_beta Let_def client_step_budget(2))
  ultimately have "session_over (snd (run client_step (es @ es') l))" "send_ok (snd (run client_step (es @ es') l))"
    using over_stays by (simp_all add: run_append)
  then show ?thesis using assms(4) MAX_STUN_MESSAGE_SIZE_pos
    by (simp add: ClientLogic_GetNextMessage_def send_ok_def session_over_def ClientLogic_loop.simps ClientLogic_loop_step_def)
qed

theorem session_ends_witness:
  "fst (ClientLogic_GetNextMessage (\<lambda>_. 7) (CBuffer_alloc 1500) CSocketAddress_zero 7000 (snd (run client_step
      ([Poll (\<lambda>_. 7) (CBuffer_alloc 800) CSocketAddress_zero 0, Poll (\<lambda>_. 7) (CBuffer_alloc 800) CSocketAddress_zero 3000] @ []) (demo_logic False))))
    = E_STUNCLIENT_RESULTS_READY"
proof -
  let ?es = "[Poll (\<lambda>_. 7) (CBuffer_alloc 800) CSocketAddress_zero 0, Poll (\<lambda>_. 7) (CBuffer_alloc 800) CSocketAddress_zero 3000]"
  have "spaced (cfg_timeoutSeconds (cl_config (demo_logic False))) None ?es"
    by (simp add: demo_logic_limits CBuffer_GetAllocatedSize_def CBuffer_alloc_def CBuffer_InitWithAllocation_def MAX_STUN_MESSAGE_SIZE_def)
  moreover have "MAX_STUN_MESSAGE_SIZE \<le> CBuffer_GetAllocatedSize (CBuffer_alloc 1500)"
    by (simp add: CBuffer_GetAllocatedSize_def CBuffer_alloc_def CBuffer_InitWithAllocation_def MAX_STUN_MESSAGE_SIZE_def)
  ultimately show ?thesis
    by (intro session_ends [OF demo_Initialize]) (simp_all add: demo_logic_limits)
qed

section \<open>Responses\<close>

text \<open>What a response must be for the current test: a whole valid message with its transaction id.\<close>

definition answers_test :: "CBuffer \<Rightarrow> CStunClientTest \<Rightarrow> bool" where
  "answers_test msg t \<longleftrightarrow> (case Reader_AddBytes (buf_bytes msg) Reader_new of
     (st, r) \<Rightarrow> st = BodyValidated \<and> Reader_GetTransactionId r = ct_transid t)"

lemma validation_iff: "SUCCEEDED (fst (Test_BasicReaderValidation msg t)) = answers_test msg t"
  by (simp add: Test_BasicReaderValidation_def answers_test_def hresult_simps Let_def split: prod.splits)

lemma Test_ProcessResponse_rejects:
  assumes "Test_ProcessResponse cfg msg local (t, res) = (hr, t', res')"
  shows "(SUCCEEDED hr \<longrightarrow> answers_test msg t \<and> ct_fCompleted t') \<and> (FAILED hr \<longrightarrow> t' = t \<and> res' = res)"
  using assms validation_iff [of msg t]
  by (auto simp: Test_ProcessResponse_def CBasicBindingTest_ProcessResponse_def CBehaviorTest_ProcessResponse_def
      CFilteringTest_ProcessResponse_def FAILED_def Let_def split: ClientTestClass.splits prod.splits if_splits)

lemma ProcessResponse_fails:
  assumes "\<not> SUCCEEDED (fst (ClientLogic_ProcessResponse msg remote local l))"
  shows "snd (ClientLogic_ProcessResponse msg remote local l) = l"
proof -
  obtain hr t res where p: "Test_ProcessResponse (cl_config l) msg local (cl_test l, cl_results l) = (hr, t, res)"
    by (metis prod.collapse)
  show ?thesis using assms Test_ProcessResponse_rejects [OF p]
    by (auto simp: ClientLogic_ProcessResponse_def p FAILED_def)
qed

text \<open>
  C11: only the answer to the outstanding request counts. A response is accepted only during the
  session, for a test that is not completed, and if it is a message that the reader validates whole
  and that has the transaction id of the test; it then completes the test. Any other response makes
  \<^verbatim>\<open>ProcessResponse\<close> fail and leaves the logic, its tests and its results as they were.
\<close>

theorem foreign_response_ignored:
  "if SUCCEEDED (fst (ClientLogic_ProcessResponse msg remote local l))
   then cl_fInitialized l \<and> cl_nTestIndex l < length (cl_testlist l) \<and> \<not> Test_IsCompleted (cl_test l) \<and>
     answers_test msg (cl_test l) \<and> Test_IsCompleted (cl_test (snd (ClientLogic_ProcessResponse msg remote local l)))
   else snd (ClientLogic_ProcessResponse msg remote local l) = l"
proof (cases "cl_fInitialized l \<and> CBuffer_GetSize msg \<noteq> 0 \<and> cl_nTestIndex l < length (cl_testlist l) \<and>
    \<not> Test_IsCompleted (cl_test l)")
  case True
  obtain hr t res where p: "Test_ProcessResponse (cl_config l) msg local (cl_test l, cl_results l) = (hr, t, res)"
    by (metis prod.collapse)
  show ?thesis using True p Test_ProcessResponse_rejects [OF p]
    by (auto simp: ClientLogic_ProcessResponse_def Test_IsCompleted_def hresult_simps)
next
  case False
  then show ?thesis by (auto simp: ClientLogic_ProcessResponse_def hresult_simps)
qed

end
