(* ===== verification/ClientResults.thy ===== *)
theory ClientResults
  imports ClientTheorems
begin

text \<open>
  What the results of a client session mean: each verdict about the NAT stands for a relation
  between the addresses the client has seen, or between the responses it got, and it holds at every
  moment of every session.
\<close>

section \<open>The meaning of the results\<close>

fun behavior_means :: "NatBehavior \<Rightarrow> StunClientResults \<Rightarrow> bool" where
  "behavior_means UnknownBehavior res \<longleftrightarrow>
     CSocketAddress_IsIPAddressZero (res_addrMappingAP res) \<or>
     \<not> CSocketAddress_IsSameIP_and_Port (res_addrMappingAP res) (res_addrMapped res)"
| "behavior_means DirectMapping res \<longleftrightarrow>
     CSocketAddress_IsSameIP_and_Port (res_addrLocal res) (res_addrMapped res)"
| "behavior_means EndpointIndependentMapping res \<longleftrightarrow>
     CSocketAddress_IsSameIP_and_Port (res_addrMappingAP res) (res_addrMapped res)"
| "behavior_means AddressDependentMapping res \<longleftrightarrow>
     \<not> CSocketAddress_IsSameIP_and_Port (res_addrMappingAP res) (res_addrMapped res) \<and>
     CSocketAddress_IsSameIP_and_Port (res_addrMappingAA res) (res_addrMappingAP res)"
| "behavior_means AddressAndPortDependentMapping res \<longleftrightarrow>
     \<not> CSocketAddress_IsSameIP_and_Port (res_addrMappingAP res) (res_addrMapped res) \<and>
     \<not> CSocketAddress_IsSameIP_and_Port (res_addrMappingAA res) (res_addrMappingAP res)"

text \<open>Which of the two changed-source responses a filtering verdict stands for.\<close>

fun filtering_means :: "NatFiltering \<Rightarrow> bool \<Rightarrow> bool \<Rightarrow> bool" where
  "filtering_means UnknownFiltering got2 got3 \<longleftrightarrow> \<not> got2 \<and> \<not> got3"
| "filtering_means DirectConnectionFiltering got2 got3 \<longleftrightarrow> False"
| "filtering_means EndpointIndependentFiltering got2 got3 \<longleftrightarrow> got2 \<and> \<not> got3"
| "filtering_means AddressDependentFiltering got2 got3 \<longleftrightarrow> \<not> got2 \<and> got3"
| "filtering_means AddressAndPortDependentFiltering got2 got3 \<longleftrightarrow> \<not> got2 \<and> \<not> got3"

definition results_mean :: "CSocketAddress \<Rightarrow> StunClientResults \<Rightarrow> bool" where
  "results_mean server res \<longleftrightarrow>
     (res_fBindingTestSuccess res \<longrightarrow>
        res_fIsDirect res = CSocketAddress_IsSameIP_and_Port (res_addrLocal res) (res_addrMapped res) \<and>
        (res_fHasOtherAddress res \<longrightarrow>
           res_addrPA res = CSocketAddress_SetPort (CSocketAddress_GetPort (res_addrAA res)) server \<and>
           res_addrAP res = CSocketAddress_SetPort (CSocketAddress_GetPort server) (res_addrAA res))) \<and>
     (res_behavior res \<noteq> UnknownBehavior \<or> res_filtering res \<noteq> UnknownFiltering \<longrightarrow> res_fBindingTestSuccess res) \<and>
     res_fBehaviorTestSuccess res = (res_behavior res \<noteq> UnknownBehavior) \<and> behavior_means (res_behavior res) res \<and>
     res_fFilteringTestSuccess res = (res_filtering res \<noteq> UnknownFiltering) \<and>
     filtering_means (res_filtering res) (res_fGotTest2Response res) (res_fGotTest3Response res)"

text \<open>During the binding test the other verdicts are open.\<close>

definition results_open :: "StunClientResults \<Rightarrow> bool" where
  "results_open res \<longleftrightarrow> res_behavior res = UnknownBehavior \<and> res_filtering res = UnknownFiltering \<and>
     CSocketAddress_IsIPAddressZero (res_addrMappingAP res)"

lemma same_ip_port_sym: "CSocketAddress_IsSameIP_and_Port a b = CSocketAddress_IsSameIP_and_Port b a"
  by (auto simp: CSocketAddress_IsSameIP_and_Port_def CSocketAddress_IsSameIP_def)

section \<open>Every operation of a test keeps the meaning\<close>

text \<open>When a test may be run: the binding test first, another one if it is ready.\<close>

definition runnable :: "StunClientResults \<Rightarrow> CStunClientTest \<Rightarrow> bool" where
  "runnable res t \<longleftrightarrow> (if ct_class t = CBasicBindingTest then results_open res else Test_IsReadyToRun res t)"

lemma behavior_means_update [simp]:
  "behavior_means b (res_fGotTest2Response_update f res) = behavior_means b res"
  "behavior_means b (res_fGotTest3Response_update f res) = behavior_means b res"
  "behavior_means b (res_fFilteringTestSuccess_update f res) = behavior_means b res"
  "behavior_means b (res_fBehaviorTestSuccess_update f res) = behavior_means b res"
  "behavior_means b (res_filtering_update g res) = behavior_means b res"
  "behavior_means b (res_behavior_update h res) = behavior_means b res"
  by (cases b; simp)+

lemma BindingTest_means:
  assumes "CBasicBindingTest_ProcessResponse cfg msg local (t, res) = (hr, t', res')"
    "results_mean (cfg_addrServer cfg) res" "results_open res"
  shows "ct_class t' = ct_class t \<and> results_mean (cfg_addrServer cfg) res' \<and> results_open res'"
proof -
  obtain h1 rd h2 a h3 oa where c: "Test_BasicReaderValidation msg t = (h1, rd)" "Test_GetMappedAddress rd = (h2, a)"
    "Reader_GetOtherAddress CSocketAddress_zero rd = (h3, oa)" by (meson prod.exhaust)
  have f: "\<not> res_fFilteringTestSuccess res" "\<not> res_fBehaviorTestSuccess res" "\<not> res_fGotTest2Response res"
    "\<not> res_fGotTest3Response res" "res_behavior res = UnknownBehavior" "res_filtering res = UnknownFiltering"
    "CSocketAddress_IsIPAddressZero (res_addrMappingAP res)"
    using assms(2,3) by (auto simp: results_mean_def results_open_def)
  show ?thesis
  proof (cases "FAILED h1 \<or> FAILED h2")
    case True
    then show ?thesis using assms by (auto simp: CBasicBindingTest_ProcessResponse_def c split: if_splits)
  next
    case False
    then show ?thesis using assms(1) f
      by (cases "SUCCEEDED h3") (auto simp: CBasicBindingTest_ProcessResponse_def c Let_def results_mean_def results_open_def)
  qed
qed

lemma BehaviorTest_means:
  assumes "CBehaviorTest_ProcessResponse msg (t, res) = (hr, t', res')"
    "results_mean server res" "CBehaviorTest_IsReadyToRun res t"
  shows "ct_class t' = ct_class t \<and> results_mean server res'"
proof -
  obtain h1 rd h2 a where c: "Test_BasicReaderValidation msg t = (h1, rd)" "Test_GetMappedAddress rd = (h2, a)"
    by (meson prod.exhaust)
  note m = assms(2) [unfolded results_mean_def]
  have r: "res_fBindingTestSuccess res" "\<not> res_fBehaviorTestSuccess res" "res_behavior res = UnknownBehavior"
    using m assms(3) by (auto simp: CBehaviorTest_IsReadyToRun_def Let_def split: if_splits)
  have ap: "\<not> CSocketAddress_IsSameIP_and_Port (res_addrMappingAP res) (res_addrMapped res)" if "ct_fIsTest3 t"
    using m r(3) that assms(3) by (auto simp: CBehaviorTest_IsReadyToRun_def Let_def)
  note d = CBehaviorTest_ProcessResponse_def c prod.case Let_def
  show ?thesis
  proof (cases "FAILED h1 \<or> FAILED h2")
    case True
    then have "t' = t" "res' = res" using assms(1) by (auto simp: d split: if_splits)
    then show ?thesis by (simp add: assms(2))
  next
    case ok: False
    show ?thesis
    proof (cases "ct_fIsTest3 t")
      case True
      then have "t' = t\<lparr>ct_fCompleted := True\<rparr>"
        "res' = res\<lparr>res_addrMappingAA := a, res_fBehaviorTestSuccess := True, res_behavior :=
          (if CSocketAddress_IsSameIP_and_Port a (res_addrMappingAP res)
           then AddressDependentMapping else AddressAndPortDependentMapping)\<rparr>"
        using assms(1) ok by (simp_all add: d)
      then show ?thesis using m ap [OF True] r by (simp add: results_mean_def)
    next
      case False
      then have "t' = t\<lparr>ct_fCompleted := True\<rparr>"
        "res' = (if CSocketAddress_IsSameIP_and_Port a (res_addrMapped res)
          then res\<lparr>res_addrMappingAP := a, res_fBehaviorTestSuccess := True, res_behavior := EndpointIndependentMapping\<rparr>
          else res\<lparr>res_addrMappingAP := a\<rparr>)"
        using assms(1) ok by (simp_all add: d split: if_splits)
      then show ?thesis using m r by (simp add: results_mean_def)
    qed
  qed
qed

lemma FilteringTest_means:
  assumes "CFilteringTest_ProcessResponse msg (t, res) = (hr, t', res')"
    "results_mean server res" "CFilteringTest_IsReadyToRun res t"
  shows "ct_class t' = ct_class t \<and> results_mean server res'"
proof -
  obtain h1 rd where c: "Test_BasicReaderValidation msg t = (h1, rd)" by (meson prod.exhaust)
  have r: "res_fBindingTestSuccess res" "\<not> res_fFilteringTestSuccess res" "res_filtering res = UnknownFiltering"
    "\<not> res_fGotTest2Response res" "\<not> res_fGotTest3Response res"
    using assms(2,3) by (auto simp: results_mean_def CFilteringTest_IsReadyToRun_def)
  show ?thesis
  proof (cases "FAILED h1")
    case True
    then show ?thesis using assms by (auto simp: CFilteringTest_ProcessResponse_def c split: if_splits)
  next
    case False
    then show ?thesis using assms(1,2) r
      by (cases "ct_fIsTest3 t") (auto simp: CFilteringTest_ProcessResponse_def c Let_def results_mean_def)
  qed
qed

lemma ProcessResponse_means:
  assumes "Test_ProcessResponse cfg msg local (t, res) = (hr, t', res')" "results_mean (cfg_addrServer cfg) res" "runnable res t"
  shows "ct_class t' = ct_class t \<and> results_mean (cfg_addrServer cfg) res' \<and>
    (ct_class t = CBasicBindingTest \<longrightarrow> results_open res')"
  using assms BindingTest_means [of cfg msg local t res hr t' res'] BehaviorTest_means [of msg t res hr t' res']
    FilteringTest_means [of msg t res hr t' res']
  by (cases "ct_class t") (auto simp: Test_ProcessResponse_def runnable_def Test_IsReadyToRun_def)

lemma NotifyTimeout_means:
  assumes "Test_NotifyTimeout (t, res) = (t', res')" "results_mean server res" "runnable res t"
  shows "ct_class t' = ct_class t \<and> results_mean server res' \<and> (ct_class t = CBasicBindingTest \<longrightarrow> results_open res')"
proof (cases "ct_class t")
  case CBasicBindingTest
  then show ?thesis using assms
    by (auto simp: Test_NotifyTimeout_def CBasicBindingTest_NotifyTimeout_def runnable_def results_open_def results_mean_def)
next
  case CBehaviorTest
  then show ?thesis using assms
    by (auto simp: Test_NotifyTimeout_def CBehaviorTest_NotifyTimeout_def runnable_def results_mean_def Test_IsReadyToRun_def
        CBehaviorTest_IsReadyToRun_def Let_def split: if_splits)
next
  case CFilteringTest
  then show ?thesis using assms
    by (auto simp: Test_NotifyTimeout_def CFilteringTest_NotifyTimeout_def runnable_def results_mean_def Test_IsReadyToRun_def
        CFilteringTest_IsReadyToRun_def Let_def split: if_splits)
qed

lemma PreRunCheck_means:
  assumes "Test_PreRunCheck (t, res) = (t', res')" "results_mean server res"
  shows "ct_class t' = ct_class t \<and> results_mean server res' \<and> (ct_class t = CBasicBindingTest \<longrightarrow> res' = res)"
  using assms by (auto simp: Test_PreRunCheck_def CBehaviorTest_PreRunCheck_def results_mean_def
      split: ClientTestClass.splits if_splits)

lemma GetMessage_keeps:
  assumes "Test_GetMessage rnd cfg res buf t = (hr, b, d, t')"
  shows "ct_class t' = ct_class t \<and> ct_fIsTest3 t' = ct_fIsTest3 t \<and> ct_fCompleted t' = ct_fCompleted t"
  using assms
  by (auto simp: Test_GetMessage_def CBasicBindingTest_GetMessage_def CBehaviorTest_GetMessage_def
      CFilteringTest_GetMessage_def Test_StartBindingRequest_def Let_def split: ClientTestClass.splits prod.splits if_splits)

section \<open>The invariant of a session\<close>

definition tests_shape :: "CStunClientLogic \<Rightarrow> bool" where
  "tests_shape l \<longleftrightarrow> (\<exists>cs. map ct_class (cl_testlist l) = CBasicBindingTest # cs \<and> CBasicBindingTest \<notin> set cs)"

definition session_means :: "CStunClientLogic \<Rightarrow> bool" where
  "session_means l \<longleftrightarrow> tests_shape l \<and> results_mean (cfg_addrServer (cl_config l)) (cl_results l) \<and>
     (cl_nTestIndex l = 0 \<longrightarrow> results_open (cl_results l))"

text \<open>Between two calls the current test is completed or can be run.\<close>

definition session_inv :: "CStunClientLogic \<Rightarrow> bool" where
  "session_inv l \<longleftrightarrow> session_means l \<and>
     (session_over l \<or> Test_IsCompleted (cl_test l) \<or> runnable (cl_results l) (cl_test l))"

lemma shape_binding:
  assumes "tests_shape l" "\<not> session_over l"
  shows "(ct_class (cl_test l) = CBasicBindingTest) = (cl_nTestIndex l = 0)"
proof -
  obtain cs where cs: "map ct_class (cl_testlist l) = CBasicBindingTest # cs" "CBasicBindingTest \<notin> set cs"
    using assms(1) by (auto simp: tests_shape_def)
  have i: "cl_nTestIndex l < length (cl_testlist l)" using assms(2) by (simp add: session_over_def)
  then have "ct_class (cl_test l) = (CBasicBindingTest # cs) ! cl_nTestIndex l" by (metis cs(1) nth_map)
  moreover have "cl_nTestIndex l \<le> length cs" using i arg_cong [OF cs(1), of length] by simp
  ultimately show ?thesis using cs(2) by (cases "cl_nTestIndex l") (auto simp: in_set_conv_nth)
qed

lemma session_means_update:
  assumes "session_means l" "\<not> session_over l" "ct_class t = ct_class (cl_test l)"
    "results_mean (cfg_addrServer (cl_config l)) res" "ct_class (cl_test l) = CBasicBindingTest \<longrightarrow> results_open res"
    "cl_testlist k = (cl_testlist l)[cl_nTestIndex l := t]" "cl_results k = res" "cl_config k = cl_config l"
    "cl_nTestIndex k = cl_nTestIndex l"
  shows "session_means k"
proof -
  have "map ct_class (cl_testlist k) = map ct_class (cl_testlist l)"
    using assms(3) by (simp add: assms(6) map_update) (metis list_update_id map_update)
  then have "tests_shape k" using assms(1) by (simp add: session_means_def tests_shape_def)
  moreover have "cl_nTestIndex l = 0 \<Longrightarrow> results_open res"
    using shape_binding [of l] assms(1,2,5) by (simp add: session_means_def)
  ultimately show ?thesis using assms by (simp add: session_means_def)
qed

lemma PreCheck_means:
  assumes "session_means l" "\<not> session_over l"
  shows "session_means (ClientLogic_PreCheck l)"
proof (cases "cl_fPreCheckRunOnTest l")
  case True
  then show ?thesis using assms by (simp add: ClientLogic_PreCheck_def)
next
  case False
  obtain t res where p: "Test_PreRunCheck (cl_test l, cl_results l) = (t, res)" by (metis prod.collapse)
  have m: "results_mean (cfg_addrServer (cl_config l)) (cl_results l)" using assms(1) by (simp add: session_means_def)
  note r = PreRunCheck_means [OF p m]
  have "ct_class (cl_test l) = CBasicBindingTest \<Longrightarrow> results_open (cl_results l)"
    using shape_binding [of l] assms by (simp add: session_means_def)
  then show ?thesis using r False
    by (intro session_means_update [OF assms, of t res]) (auto simp: ClientLogic_PreCheck_def on_test_def p)
qed

lemma runnable_same:
  assumes "ct_class t' = ct_class t" "ct_fIsTest3 t' = ct_fIsTest3 t" "ct_fCompleted t' = ct_fCompleted t"
  shows "runnable res t' = runnable res t"
  using assms by (cases "ct_class t") (simp_all add: runnable_def Test_IsReadyToRun_def CBasicBindingTest_IsReadyToRun_def
      CBehaviorTest_IsReadyToRun_def CFilteringTest_IsReadyToRun_def)

text \<open>A turn of the loop that goes on keeps the meaning; one that ends leaves a test that can be run.\<close>

lemma loop_step_means:
  assumes "session_means l"
  shows "ClientLogic_loop_step rnd now buf dest l = Inr k \<Longrightarrow> session_means k"
    "ClientLogic_loop_step rnd now buf dest l = Inl (hr, b, d, k) \<Longrightarrow> session_inv k"
proof -
  let ?p = "ClientLogic_PreCheck l"
  have run: "runnable (cl_results ?p) (cl_test ?p)" if "session_means ?p" "\<not> session_over ?p"
      "Test_IsReadyToRun (cl_results ?p) (cl_test ?p)"
    using that shape_binding [of ?p] by (auto simp: runnable_def session_means_def)
  {
    assume s: "ClientLogic_loop_step rnd now buf dest l = Inr k"
    have o: "\<not> session_over l" using loop_step_Inr(1) [OF s] by (simp add: session_over_def)
    have p: "session_means ?p" "\<not> session_over ?p" using PreCheck_means [OF assms o] o by (simp_all add: session_over_def)
    from s o consider "k = ?p\<lparr>cl_nTestIndex := cl_nTestIndex l + 1, cl_sendCount := 0, cl_fPreCheckRunOnTest := False\<rparr>"
      | "k = on_test Test_NotifyTimeout ?p" "Test_IsReadyToRun (cl_results ?p) (cl_test ?p)"
      by (auto simp: ClientLogic_loop_step_def Let_def session_over_def split: if_splits prod.splits)
    then show "session_means k"
    proof cases
      case 1
      then show ?thesis using p(1) by (simp add: session_means_def tests_shape_def)
    next
      case 2
      obtain t res where n: "Test_NotifyTimeout (cl_test ?p, cl_results ?p) = (t, res)" by (metis prod.collapse)
      have m: "results_mean (cfg_addrServer (cl_config ?p)) (cl_results ?p)" using p(1) by (simp add: session_means_def)
      show ?thesis using NotifyTimeout_means [OF n m run [OF p 2(2)]]
        by (intro session_means_update [OF p, of t res]) (simp_all add: 2(1) on_test_def n [simplified])
    qed
  next
    assume s: "ClientLogic_loop_step rnd now buf dest l = Inl (hr, b, d, k)"
    show "session_inv k"
    proof (cases "session_over l")
      case True
      then show ?thesis using s assms by (simp add: ClientLogic_loop_step_def session_over_def session_inv_def)
    next
      case o: False
      have p: "session_means ?p" "\<not> session_over ?p" using PreCheck_means [OF assms o] o by (simp_all add: session_over_def)
      from loop_step_Inl [OF s] o consider "k = ?p" "Test_IsReadyToRun (cl_results ?p) (cl_test ?p)"
        | t where "Test_IsReadyToRun (cl_results ?p) (cl_test ?p)"
          "Test_GetMessage rnd (cl_config l) (cl_results ?p) buf (cl_test ?p) = (S_OK, b, d, t)"
          "k = ?p\<lparr>cl_testlist := (cl_testlist ?p)[cl_nTestIndex l := t], cl_sendCount := cl_sendCount l + 1,
             cl_timeLastMessageSent := now\<rparr>"
        by (auto simp: session_over_def)
      then show ?thesis
      proof cases
        case 1
        then show ?thesis using p run [OF p 1(2)] by (simp add: session_inv_def)
      next
        case (2 t)
        have r: "runnable (cl_results ?p) (cl_test ?p)" by (rule run [OF p 2(1)])
        have t: "ct_class t = ct_class (cl_test ?p)" "ct_fIsTest3 t = ct_fIsTest3 (cl_test ?p)"
            "ct_fCompleted t = ct_fCompleted (cl_test ?p)"
          using GetMessage_keeps [OF 2(2)] by simp_all
        have "session_means k" using p(1) r
          by (intro session_means_update [OF p, of t "cl_results ?p"])
            (auto simp: 2(3) t session_means_def runnable_def split: if_splits)
        moreover have "cl_test k = t" "cl_results k = cl_results ?p"
          using p(2) by (simp_all add: 2(3) session_over_def)
        moreover have "runnable (cl_results ?p) t" using r
          using runnable_same [OF t] by blast
        ultimately show ?thesis by (simp add: session_inv_def)
      qed
    qed
  }
qed

lemma loop_means:
  "session_means l \<Longrightarrow> ClientLogic_loop rnd now buf dest l = (hr, b, d, k) \<Longrightarrow> session_inv k"
proof (induction rnd now buf dest l rule: ClientLogic_loop.induct)
  case (1 rnd now buf dest l)
  show ?case
  proof (cases "ClientLogic_loop_step rnd now buf dest l")
    case (Inl x)
    then have "ClientLogic_loop_step rnd now buf dest l = Inl (hr, b, d, k)"
      using "1.prems"(2) by (simp add: ClientLogic_loop.simps [of rnd now buf dest l])
    then show ?thesis by (rule loop_step_means(2) [OF "1.prems"(1)])
  next
    case (Inr l')
    then have "ClientLogic_loop rnd now buf dest l' = (hr, b, d, k)"
      using "1.prems"(2) by (simp add: ClientLogic_loop.simps [of rnd now buf dest l])
    then show ?thesis by (rule "1.IH" [OF Inr loop_step_means(1) [OF "1.prems"(1) Inr]])
  qed
qed

lemma client_step_inv:
  assumes "session_inv l"
  shows "session_inv (snd (client_step e l))"
proof (cases e)
  case (Poll rnd buf dest now)
  have m: "session_means l" using assms by (simp add: session_inv_def)
  show ?thesis using assms loop_means [OF m, of rnd now buf dest]
    by (auto simp: Poll ClientLogic_GetNextMessage_def split: prod.splits if_splits)
next
  case (Receive msg remote local)
  have m: "session_means l" "results_mean (cfg_addrServer (cl_config l)) (cl_results l)"
    using assms by (simp_all add: session_inv_def session_means_def)
  obtain hr t res where p: "Test_ProcessResponse (cl_config l) msg local (cl_test l, cl_results l) = (hr, t, res)"
    by (metis prod.collapse)
  show ?thesis
  proof (cases "SUCCEEDED (fst (client_step e l))")
    case True
    then have c: "cl_fInitialized l" "\<not> session_over l" "\<not> Test_IsCompleted (cl_test l)" "CBuffer_GetSize msg \<noteq> 0"
      by (auto simp: Receive session_over_def ClientLogic_ProcessResponse_def hresult_simps split: if_splits)
    have k: "snd (client_step e l) = l\<lparr>cl_testlist := (cl_testlist l)[cl_nTestIndex l := t], cl_results := res\<rparr>"
      using c by (simp add: Receive ClientLogic_ProcessResponse_def p session_over_def)
    have "runnable (cl_results l) (cl_test l)" using assms c by (simp add: session_inv_def)
    from ProcessResponse_means [OF p m(2) this] have "session_means (snd (client_step e l))"
      by (intro session_means_update [OF m(1) c(2), of t res]) (simp_all add: k)
    moreover have "Test_IsCompleted (cl_test (snd (client_step e l)))"
      using True Test_ProcessResponse_rejects [OF p] c
      by (simp add: k session_over_def Test_IsCompleted_def) (simp add: Receive ClientLogic_ProcessResponse_def p session_over_def Test_IsCompleted_def)
    ultimately show ?thesis by (simp add: session_inv_def)
  next
    case False
    then show ?thesis using assms by (simp add: Receive ProcessResponse_fails)
  qed
qed

lemma run_inv: "session_inv l \<Longrightarrow> session_inv (snd (run client_step es l))"
  by (induction es arbitrary: l) (simp_all add: case_prod_beta Let_def client_step_inv)

lemma Initialize_inv:
  assumes "ClientLogic_Initialize config CStunClientLogic_new = (S_OK, l)"
  shows "session_inv l" "cfg_addrServer (cl_config l) = cfg_addrServer config"
proof -
  have r: "cl_results l = StunClientResults_Init" and i: "cl_nTestIndex l = 0"
    and shape: "tests_shape l" and server: "cfg_addrServer (cl_config l) = cfg_addrServer config"
    using assms
    by (auto simp: ClientLogic_Initialize_def CStunClientLogic_new_def tests_shape_def Let_def Test_Init_def CStunClientTest_new_def
        Test_RunAsTest3_def hresult_defs split: if_splits)
  have "results_mean server StunClientResults_Init" "results_open StunClientResults_Init" for server
    by (simp_all add: results_mean_def results_open_def StunClientResults_Init_def CSocketAddress_IsIPAddressZero_def
        CSocketAddress_zero_def)
  then have m: "session_means l" by (simp add: session_means_def r shape)
  moreover have "ct_class (cl_test l) = CBasicBindingTest" if "\<not> session_over l"
    using shape_binding [OF shape that] i by simp
  ultimately show "session_inv l"
    using i by (auto simp: session_inv_def runnable_def session_means_def)
  show "cfg_addrServer (cl_config l) = cfg_addrServer config" by (rule server)
qed

lemma run_session:
  assumes "send_ok l"
  shows "send_ok (snd (run client_step es l))" "cl_config (snd (run client_step es l)) = cl_config l"
proof -
  have "send_ok (snd (run client_step es l)) \<and> cl_config (snd (run client_step es l)) = cl_config l"
    using assms by (induction es arbitrary: l)
      (use client_step_budget in \<open>simp_all add: case_prod_beta Let_def same_session_def del: client_step.simps\<close>)
  then show "send_ok (snd (run client_step es l))" "cl_config (snd (run client_step es l)) = cl_config l" by blast+
qed

text \<open>
  C8: the results mean what they say. At every moment of every session, whatever was polled and
  received: the client is behind no NAT only if it sees its own address mapped; each mapping
  behavior it reports is the relation between the mapped addresses that three destinations gave
  it; each filtering behavior is the set of changed-source responses that came through; a verdict
  is given exactly when its success flag is set, and only after the binding test succeeded; and
  the alternate addresses combine the server's two addresses and ports.
\<close>

theorem results_sound:
  assumes "ClientLogic_Initialize config CStunClientLogic_new = (S_OK, l)"
  shows "fst (ClientLogic_GetResults (snd (run client_step es l))) = S_OK \<and>
    results_mean (cfg_addrServer config) (snd (ClientLogic_GetResults (snd (run client_step es l))))"
proof -
  show ?thesis
    using run_inv [OF Initialize_inv(1) [OF assms], of es] Initialize_inv(2) [OF assms] run_session(2) [OF Initialize_ok(1) [OF assms]]
    by (simp add: ClientLogic_GetResults_def session_inv_def session_means_def)
qed

theorem results_sound_witness:
  "\<forall>es. results_mean (demo_addr 1) (snd (ClientLogic_GetResults (snd (run client_step es (demo_logic True)))))"
  using results_sound [OF demo_Initialize [of True]] by (simp add: demo_config_def)

end
