(* ===== verification/ClientServer.thy ===== *)
theory ClientServer
  imports ClientResults
begin

text \<open>
  The client against the server: what the client sends is a request the server accepts, and what
  the server answers is the response the client waits for.
\<close>

section \<open>The requests of the client\<close>

definition request_field :: u16 where
  "request_field = msg_type_field StunMsgTypeBinding StunMsgClassRequest"

lemma request_field_ok:
  "request_field AND 0xc000 = 0" "class_of_field request_field = StunMsgClassRequest"
  "type_of_field request_field = StunMsgTypeBinding"
  using field_roundtrip(1,2) [of StunMsgClassRequest StunMsgTypeBinding] field_roundtrip(1) [of StunMsgTypeBinding StunMsgClassRequest]
    field_roundtrip(3)
  by (simp_all add: request_field_def stun_message_defs)

lemma length_fold_update [simp]: "length (fold (\<lambda>x t. t[x := f x]) xs t) = length t"
  by (induction xs arbitrary: t) simp_all

lemma random_id: "Builder_AddRandomTransactionId rnd b = (hr, tid, b') \<Longrightarrow>
    length tid = 16 \<and> b' = snd (Builder_AddTransactionId tid b)"
  by (auto simp: Builder_AddRandomTransactionId_def Let_def poke_def STUN_TRANSACTION_ID_LENGTH_def split: prod.splits)

text \<open>The three builder calls every test makes.\<close>

lemma test_request:
  assumes "buf_wf buf" "MAX_STUN_MESSAGE_SIZE \<le> b_allocated buf" "length (ct_transid t) = 16"
    and start: "Test_StartBindingRequest rnd (builder_on buf) t = (b, t')"
  shows "\<exists>buf'. message_of (snd (Builder_FixLengthField (snd (Builder_AddChangeRequest c b)))) buf = buf' \<and>
      buf_wf buf' \<and> b_allocated buf' = b_allocated buf \<and>
      buf_bytes buf' = msg_bytes request_field (ct_transid t') [(STUN_ATTRIBUTE_CHANGEREQUEST, be32 (change_flags c))]"
    "length (ct_transid t') = 16" "IsTransactionIdValid (ct_transid t) \<Longrightarrow> t' = t"
    "t' = t\<lparr>ct_transid := ct_transid t'\<rparr>"
proof -
  have b: "b = snd (Builder_AddTransactionId (ct_transid t') (snd (Builder_AddHeader StunMsgTypeBinding StunMsgClassRequest (builder_on buf)))) \<and>
      length (ct_transid t') = 16 \<and> t' = t\<lparr>ct_transid := ct_transid t'\<rparr> \<and> (IsTransactionIdValid (ct_transid t) \<longrightarrow> t' = t)"
    using start assms(3)
    by (auto simp: Test_StartBindingRequest_def Builder_AddBindingRequestHeader_def Let_def dest: random_id split: if_splits prod.splits)
  then show "length (ct_transid t') = 16" "IsTransactionIdValid (ct_transid t) \<Longrightarrow> t' = t" "t' = t\<lparr>ct_transid := ct_transid t'\<rparr>"
    by blast+
  have on: "builder_on buf = Builder_SetLegacyMode False (Builder_new\<lparr>bd_stream := DS_Attach (Some buf) True (bd_stream Builder_new)\<rparr>)"
    by (simp add: builder_on_def Builder_SetLegacyMode_def Builder_new_def)
  have r0: "bd_reply False (b_allocated buf) request_field (ct_transid t') [] b"
    using bd_reply_start [where buf = buf and tid = "ct_transid t'" and t = StunMsgTypeBinding and c = StunMsgClassRequest and legacy = False and s = "bd_stream Builder_new"] assms(1,2) b
    by (simp add: on request_field_def MAX_STUN_MESSAGE_SIZE_def)
  note e = bd_reply_end [OF r0]
  have "appends (Builder_AddChangeRequest c) (enc_attr False STUN_ATTRIBUTE_CHANGEREQUEST (be32 (change_flags c))) b"
    using appends_AddChangeRequest [of b c] e by simp
  from bd_reply_append [OF r0 this] assms(2)
  have "bd_reply False (b_allocated buf) request_field (ct_transid t')
      [(STUN_ATTRIBUTE_CHANGEREQUEST, be32 (change_flags c))] (snd (Builder_AddChangeRequest c b))"
    by (simp add: MAX_STUN_MESSAGE_SIZE_def enc_attr_def pad4_def)
  from bd_reply_done [OF this] show "\<exists>buf'. message_of (snd (Builder_FixLengthField (snd (Builder_AddChangeRequest c b)))) buf = buf' \<and>
      buf_wf buf' \<and> b_allocated buf' = b_allocated buf \<and>
      buf_bytes buf' = msg_bytes request_field (ct_transid t') [(STUN_ATTRIBUTE_CHANGEREQUEST, be32 (change_flags c))]"
    by (metis message_of_def option.simps(5))
qed

text \<open>What each test asks the server to change, and where it sends its request.\<close>

definition test_change :: "CStunClientTest \<Rightarrow> StunChangeRequestAttribute" where
  "test_change t = (if ct_class t = CFilteringTest then \<lparr>fChangeIP = \<not> ct_fIsTest3 t, fChangePort = True\<rparr>
     else \<lparr>fChangeIP = False, fChangePort = False\<rparr>)"

definition test_dest :: "StunClientLogicConfig \<Rightarrow> StunClientResults \<Rightarrow> CStunClientTest \<Rightarrow> CSocketAddress" where
  "test_dest cfg res t = (if ct_class t = CBehaviorTest
     then if ct_fIsTest3 t then res_addrAA res else res_addrAP res else cfg_addrServer cfg)"

lemma GetMessage_message:
  assumes "buf_wf buf" "MAX_STUN_MESSAGE_SIZE \<le> b_allocated buf" "length (ct_transid t) = 16"
    and get: "Test_GetMessage rnd cfg res buf t = (hr, buf', dest, t')"
  shows "hr = S_OK \<and> dest = test_dest cfg res t \<and> buf_wf buf' \<and> b_allocated buf' = b_allocated buf \<and>
    buf_bytes buf' = msg_bytes request_field (ct_transid t') [(STUN_ATTRIBUTE_CHANGEREQUEST, be32 (change_flags (test_change t)))] \<and>
    length (ct_transid t') = 16 \<and> t' = t\<lparr>ct_transid := ct_transid t'\<rparr> \<and> (IsTransactionIdValid (ct_transid t) \<longrightarrow> t' = t)"
proof -
  obtain b k where s: "Test_StartBindingRequest rnd (builder_on buf) t = (b, k)" by (metis prod.collapse)
  note r = test_request [OF assms(1-3) s]
  have kc: "ct_class k = ct_class t" "ct_fIsTest3 k = ct_fIsTest3 t"
    by (subst r(4), simp)+
  have "hr = S_OK \<and> dest = test_dest cfg res t \<and> t' = k \<and>
      buf' = message_of (snd (Builder_FixLengthField (snd (Builder_AddChangeRequest (test_change t) b)))) buf"
    using get by (cases "ct_class t")
      (auto simp: Test_GetMessage_def CBasicBindingTest_GetMessage_def CBehaviorTest_GetMessage_def CFilteringTest_GetMessage_def
        s test_change_def test_dest_def kc Let_def)
  then show ?thesis using r(1) [of "test_change t"] r(2-4) by auto
qed

lemma request_rd_msg:
  assumes "length tid = 16"
  shows "rd_msg True request_field tid [(STUN_ATTRIBUTE_CHANGEREQUEST, be32 n)]
    (snd (Reader_AddBytes (msg_bytes request_field tid [(STUN_ATTRIBUTE_CHANGEREQUEST, be32 n)]) Reader_new))"
    "fst (Reader_AddBytes (msg_bytes request_field tid [(STUN_ATTRIBUTE_CHANGEREQUEST, be32 n)]) Reader_new) = BodyValidated"
proof -
  have w: "wire_ok [(STUN_ATTRIBUTE_CHANGEREQUEST, be32 n)]" by (rule wire_okI) simp_all
  show "rd_msg True request_field tid [(STUN_ATTRIBUTE_CHANGEREQUEST, be32 n)]
    (snd (Reader_AddBytes (msg_bytes request_field tid [(STUN_ATTRIBUTE_CHANGEREQUEST, be32 n)]) Reader_new))"
    by (rule read_rd_msg [OF Reader_new_inv assms w request_field_ok(1)]) simp
  show "fst (Reader_AddBytes (msg_bytes request_field tid [(STUN_ATTRIBUTE_CHANGEREQUEST, be32 n)]) Reader_new) = BodyValidated"
    by (rule read_msg(1) [OF Reader_new_inv assms w request_field_ok(1)]) simp
qed

lemma request_change:
  assumes "rd_msg True request_field tid [(STUN_ATTRIBUTE_CHANGEREQUEST, be32 (change_flags c))] r"
  shows "Reader_GetChangeRequest r = (S_OK, c)"
  using rd_msg_change [OF assms] change_flags_bits [of c]
  by (simp add: wire_last_def unbe32_be32)

lemma buf_wf_size: "buf_wf b \<Longrightarrow> b_size b = length (buf_bytes b)"
  by (auto simp: buf_wf_def buf_bytes_def split: option.splits)

text \<open>
  C12: what a test sends is a request that the server understands. Written into a buffer of at least
  800 bytes, it is a binding request of 28 bytes with the transaction id the test then waits for;
  it asks for exactly the change the test needs and goes to the address the test probes; and
  a test that has an id already keeps it when the request is sent again.
\<close>

theorem client_request_valid:
  assumes "buf_wf buf" "MAX_STUN_MESSAGE_SIZE \<le> b_allocated buf" "length (ct_transid t) = STUN_TRANSACTION_ID_LENGTH"
    "Test_GetMessage rnd cfg res buf t = (hr, buf', dest, t')"
  shows "hr = S_OK \<and> dest = test_dest cfg res t \<and> b_size buf' = 28 \<and>
    (case Reader_AddBytes (buf_bytes buf') Reader_new of (st, r) \<Rightarrow>
       st = BodyValidated \<and> Reader_GetMessageClass r = StunMsgClassRequest \<and> Reader_GetMessageType r = StunMsgTypeBinding \<and>
       Reader_GetTransactionId r = ct_transid t' \<and> Reader_GetChangeRequest r = (S_OK, test_change t)) \<and>
    t' = t\<lparr>ct_transid := ct_transid t'\<rparr> \<and> (IsTransactionIdValid (ct_transid t) \<longrightarrow> t' = t)"
proof -
  have "length (ct_transid t) = 16" using assms(3) by (simp add: STUN_TRANSACTION_ID_LENGTH_def)
  note g = GetMessage_message [OF assms(1,2) this assms(4)]
  have tid: "length (ct_transid t') = 16" using g by blast
  note r = request_rd_msg [OF tid, of "change_flags (test_change t)"]
  have "b_size buf' = length (buf_bytes buf')" using g by (simp add: buf_wf_size)
  then have "b_size buf' = 28" using g by (simp add: msg_bytes_def enc_attr_def pad4_def)
  then show ?thesis
    using g r rd_msg_head [OF r(1)] request_change [OF r(1)] request_field_ok(2,3) by (auto simp: case_prod_beta)
qed

section \<open>Transaction ids during a session\<close>

definition ids_ok :: "CStunClientLogic \<Rightarrow> bool" where
  "ids_ok l \<longleftrightarrow> (\<forall>t \<in> set (cl_testlist l). length (ct_transid t) = STUN_TRANSACTION_ID_LENGTH)"

lemma ids_update:
  assumes "ids_ok l" "length (ct_transid t) = STUN_TRANSACTION_ID_LENGTH" "cl_testlist k = (cl_testlist l)[i := t]"
  shows "ids_ok k"
  using assms set_update_subset_insert [of "cl_testlist l" i t] by (auto simp: ids_ok_def)

lemma tests_keep_ids:
  "Test_PreRunCheck (t, res) = (t', res') \<Longrightarrow> ct_transid t' = ct_transid t"
  "Test_NotifyTimeout (t, res) = (t', res') \<Longrightarrow> ct_transid t' = ct_transid t"
  "Test_ProcessResponse cfg msg local (t, res) = (hr, t', res') \<Longrightarrow> ct_transid t' = ct_transid t"
proof -
  show "Test_PreRunCheck (t, res) = (t', res') \<Longrightarrow> ct_transid t' = ct_transid t"
    by (auto simp: Test_PreRunCheck_def CBehaviorTest_PreRunCheck_def split: ClientTestClass.splits if_splits)
  show "Test_NotifyTimeout (t, res) = (t', res') \<Longrightarrow> ct_transid t' = ct_transid t"
    by (auto simp: Test_NotifyTimeout_def CBasicBindingTest_NotifyTimeout_def CBehaviorTest_NotifyTimeout_def
        CFilteringTest_NotifyTimeout_def Let_def split: ClientTestClass.splits if_splits)
  show "Test_ProcessResponse cfg msg local (t, res) = (hr, t', res') \<Longrightarrow> ct_transid t' = ct_transid t"
    by (cases "ct_class t")
      (auto simp: Test_ProcessResponse_def CBasicBindingTest_ProcessResponse_def CBehaviorTest_ProcessResponse_def
        CFilteringTest_ProcessResponse_def Let_def split: prod.splits if_splits)
qed

lemma GetMessage_id:
  assumes "Test_GetMessage rnd cfg res buf t = (hr, b, d, t')" "length (ct_transid t) = STUN_TRANSACTION_ID_LENGTH"
  shows "length (ct_transid t') = STUN_TRANSACTION_ID_LENGTH"
proof -
  obtain b0 k where s: "Test_StartBindingRequest rnd (builder_on buf) t = (b0, k)" by (metis prod.collapse)
  then have "length (ct_transid k) = STUN_TRANSACTION_ID_LENGTH"
    using assms(2) by (auto simp: Test_StartBindingRequest_def Let_def STUN_TRANSACTION_ID_LENGTH_def dest: random_id split: if_splits prod.splits)
  moreover have "t' = k" using assms(1) by (cases "ct_class t")
      (auto simp: Test_GetMessage_def CBasicBindingTest_GetMessage_def CBehaviorTest_GetMessage_def CFilteringTest_GetMessage_def
        s Let_def)
  ultimately show ?thesis by simp
qed

lemma cl_test_id: "ids_ok l \<Longrightarrow> \<not> session_over l \<Longrightarrow> length (ct_transid (cl_test l)) = STUN_TRANSACTION_ID_LENGTH"
  by (simp add: ids_ok_def session_over_def)

lemma on_test_ids:
  assumes "ids_ok l" "\<not> session_over l" "\<And>t res t' res'. f (t, res) = (t', res') \<Longrightarrow> ct_transid t' = ct_transid t"
  shows "ids_ok (on_test f l)"
proof -
  obtain t res where f: "f (cl_test l, cl_results l) = (t, res)" by (metis prod.collapse)
  show ?thesis
    using assms(3) [OF f] cl_test_id [OF assms(1,2)] by (intro ids_update [OF assms(1), of t]) (auto simp: on_test_def f)
qed

lemma PreCheck_ids: "ids_ok l \<Longrightarrow> \<not> session_over l \<Longrightarrow> ids_ok (ClientLogic_PreCheck l)"
  using on_test_ids [where f = Test_PreRunCheck] tests_keep_ids(1)
  by (auto simp: ClientLogic_PreCheck_def) (simp add: ids_ok_def)

text \<open>A poll that sends: the message is that of the current test.\<close>

definition sent_by :: "(nat \<Rightarrow> u8) \<Rightarrow> CBuffer \<Rightarrow> CBuffer \<Rightarrow> CSocketAddress \<Rightarrow> CStunClientLogic \<Rightarrow> CStunClientLogic \<Rightarrow> bool" where
  "sent_by rnd buf b d p k \<longleftrightarrow> session_means p \<and> ids_ok p \<and> \<not> session_over p \<and> \<not> ct_fCompleted (cl_test p) \<and>
     (\<exists>t n now. Test_GetMessage rnd (cl_config p) (cl_results p) buf (cl_test p) = (S_OK, b, d, t) \<and>
       k = p\<lparr>cl_testlist := (cl_testlist p)[cl_nTestIndex p := t], cl_sendCount := n, cl_timeLastMessageSent := now\<rparr>)"

lemma step_sends:
  assumes "session_means l" "ids_ok l"
  shows "ClientLogic_loop_step rnd now buf dest l = Inr k \<Longrightarrow> ids_ok k"
    "ClientLogic_loop_step rnd now buf dest l = Inl (hr, b, d, k) \<Longrightarrow>
      ids_ok k \<and> (hr = S_OK \<longrightarrow> (\<exists>p. sent_by rnd buf b d p k \<and> cl_config p = cl_config l))"
proof -
  let ?p = "ClientLogic_PreCheck l"
  {
    assume s: "ClientLogic_loop_step rnd now buf dest l = Inr k"
    then have o: "\<not> session_over l" using loop_step_Inr(1) [OF s] by (simp add: session_over_def)
    have p: "ids_ok ?p" "\<not> session_over ?p" using PreCheck_ids [OF assms(2) o] o by (simp_all add: session_over_def)
    have n: "ids_ok (on_test Test_NotifyTimeout ?p)"
      using on_test_ids [where f = Test_NotifyTimeout, OF p] tests_keep_ids(2) by blast
    show "ids_ok k" using loop_step_Inr(2) [OF s] n p(1) by (auto simp: ids_ok_def)
  next
    assume s: "ClientLogic_loop_step rnd now buf dest l = Inl (hr, b, d, k)"
    show "ids_ok k \<and> (hr = S_OK \<longrightarrow> (\<exists>p. sent_by rnd buf b d p k \<and> cl_config p = cl_config l))"
    proof (cases "session_over l")
      case True
      then show ?thesis using loop_step_Inl [OF s] assms(2) by (auto simp: session_over_def)
    next
      case o: False
      have p: "ids_ok ?p" "\<not> session_over ?p" "session_means ?p"
        using PreCheck_ids [OF assms(2) o] PreCheck_means [OF assms(1) o] o by (simp_all add: session_over_def)
      from loop_step_Inl [OF s] o consider "hr = E_STUNCLIENT_STILL_WAITING" "k = ?p"
        | t where "\<not> ct_fCompleted (cl_test ?p)" "hr = S_OK"
          "Test_GetMessage rnd (cl_config l) (cl_results ?p) buf (cl_test ?p) = (S_OK, b, d, t)"
          "k = ?p\<lparr>cl_testlist := (cl_testlist ?p)[cl_nTestIndex l := t], cl_sendCount := cl_sendCount l + 1,
             cl_timeLastMessageSent := now\<rparr>"
        by (auto simp: session_over_def)
      then show ?thesis
      proof cases
        case 1
        then show ?thesis using p(1) by simp
      next
        case (2 t)
        have "ids_ok k"
          using GetMessage_id [OF 2(3) cl_test_id [OF p(1,2)]] by (intro ids_update [OF p(1), of t]) (simp_all add: 2(4))
        moreover have "sent_by rnd buf b d ?p k"
          using p 2 by (auto simp: sent_by_def)
        ultimately show ?thesis by (intro conjI impI exI [of _ ?p]) simp_all
      qed
    qed
  }
qed

lemma loop_sends:
  "session_means l \<Longrightarrow> ids_ok l \<Longrightarrow> ClientLogic_loop rnd now buf dest l = (hr, b, d, k) \<Longrightarrow>
    ids_ok k \<and> (hr = S_OK \<longrightarrow> (\<exists>p. sent_by rnd buf b d p k \<and> cl_config p = cl_config l))"
proof (induction rnd now buf dest l rule: ClientLogic_loop.induct)
  case (1 rnd now buf dest l)
  show ?case
  proof (cases "ClientLogic_loop_step rnd now buf dest l")
    case (Inl x)
    then have "ClientLogic_loop_step rnd now buf dest l = Inl (hr, b, d, k)"
      using "1.prems"(3) by (simp add: ClientLogic_loop.simps [of rnd now buf dest l])
    then show ?thesis by (rule step_sends(2) [OF "1.prems"(1,2)])
  next
    case (Inr l')
    then have "ClientLogic_loop rnd now buf dest l' = (hr, b, d, k)"
      using "1.prems"(3) by (simp add: ClientLogic_loop.simps [of rnd now buf dest l])
    from "1.IH" [OF Inr loop_step_means(1) [OF "1.prems"(1) Inr] step_sends(1) [OF "1.prems"(1,2) Inr] this]
    show ?thesis using loop_step_Inr(2) [OF Inr] by (auto simp: on_test_simps)
  qed
qed

lemma client_step_ids:
  assumes "session_inv l" "ids_ok l"
  shows "ids_ok (snd (client_step e l))"
proof (cases e)
  case (Poll rnd buf dest now)
  obtain hr b d k where g: "ClientLogic_loop rnd now buf dest l = (hr, b, d, k)" by (metis prod.collapse)
  have "ids_ok k" using loop_sends [OF _ assms(2) g] assms(1) by (simp add: session_inv_def)
  then show ?thesis using assms(2) by (auto simp: Poll ClientLogic_GetNextMessage_def g)
next
  case (Receive msg remote local)
  obtain hr t res where p: "Test_ProcessResponse (cl_config l) msg local (cl_test l, cl_results l) = (hr, t, res)"
    by (metis prod.collapse)
  show ?thesis
  proof (cases "session_over l")
    case True
    then show ?thesis using assms(2) by (simp add: Receive ClientLogic_ProcessResponse_def session_over_def)
  next
    case False
    have "ids_ok (l\<lparr>cl_testlist := (cl_testlist l)[cl_nTestIndex l := t], cl_results := res\<rparr>)"
      using tests_keep_ids(3) [OF p] cl_test_id [OF assms(2) False] by (intro ids_update [OF assms(2), of t]) simp_all
    then show ?thesis using assms(2) by (simp add: Receive ClientLogic_ProcessResponse_def p)
  qed
qed

lemma run_ids: "session_inv l \<Longrightarrow> ids_ok l \<Longrightarrow> ids_ok (snd (run client_step es l))"
  by (induction es arbitrary: l) (simp_all add: case_prod_beta Let_def client_step_inv client_step_ids del: client_step.simps)

lemma Initialize_ids:
  assumes "ClientLogic_Initialize config CStunClientLogic_new = (S_OK, l)"
  shows "ids_ok l"
  using assms
  by (auto simp: ClientLogic_Initialize_def ids_ok_def Let_def Test_Init_def CStunClientTest_new_def Test_RunAsTest3_def
      hresult_defs split: if_splits)

section \<open>The binding exchange\<close>

lemma same_address_trans:
  assumes "CSocketAddress_IsSameIP_and_Port a b"
  shows "CSocketAddress_IsSameIP_and_Port c a = CSocketAddress_IsSameIP_and_Port c b"
  using assms by (auto simp: CSocketAddress_IsSameIP_and_Port_def CSocketAddress_IsSameIP_def)

text \<open>How the binding test takes a success response.\<close>

lemma binding_response:
  assumes "answers_test msg t" "snd (Reader_AddBytes (buf_bytes msg) Reader_new) = r"
    "Reader_GetXorMappedAddress CSocketAddress_zero r = (S_OK, x)"
    "CBasicBindingTest_ProcessResponse cfg msg local (t, res) = (hr, t', res')"
  shows "hr = S_OK \<and> res_fBindingTestSuccess res' \<and> res_addrLocal res' = local \<and> res_addrMapped res' = x \<and>
    res_fIsDirect res' = CSocketAddress_IsSameIP_and_Port local x \<and>
    res_fHasOtherAddress res' = SUCCEEDED (fst (Reader_GetOtherAddress CSocketAddress_zero r)) \<and>
    (res_fHasOtherAddress res' \<longrightarrow> res_addrAA res' = snd (Reader_GetOtherAddress CSocketAddress_zero r))"
proof -
  obtain st where st: "Reader_AddBytes (buf_bytes msg) Reader_new = (st, r)" using assms(2) by (metis prod.collapse)
  have v: "Test_BasicReaderValidation msg t = (S_OK, r)"
    using assms(1) st by (simp add: Test_BasicReaderValidation_def answers_test_def hresult_simps)
  show ?thesis using assms(4)
    by (auto simp: CBasicBindingTest_ProcessResponse_def v Test_GetMappedAddress_def assms(3) Let_def split: prod.splits if_splits)
qed

lemma request_code_binding:
  assumes m: "rd_msg True request_field tid [(STUN_ATTRIBUTE_CHANGEREQUEST, be32 (change_flags c))] r"
    and c: "c = \<lparr>fChangeIP = False, fChangePort = False\<rparr>" and r: "in_pReader m = Some r"
  shows "request_code hmac md5 None (Some aset) m r = 0"
proof -
  have "response_port r = 0" using rd_msg_port [OF m] by (simp add: wire_last_def stun_attribute_defs)
  moreover have "Reader_GetMessageType r = StunMsgTypeBinding" using rd_msg_head(3) [OF m] request_field_ok(3) by simp
  moreover have "answer_role (Some aset) m \<noteq> None"
    using request_change [OF m] r by (simp add: answer_role_def Handler_ChangeRole_def Handler_new_def h_reader_def c)
  ultimately show ?thesis by (auto simp: request_code_def auth_code_def)
qed

text \<open>
  C7: client and server agree. In any session, let a poll send the request of the binding test, let
  a server without authentication read these bytes, at whatever socket and from whatever sender,
  and let its answer be the next thing the client receives. Then the request goes to the configured
  server; the client accepts the answer; and it then knows the address the server saw as the
  sender, whether that is its own local address, and the other address of the server, if the server
  has one.
\<close>

theorem binding_exchange:
  assumes "ClientLogic_Initialize config CStunClientLogic_new = (S_OK, l)"
    "ClientLogic_GetNextMessage rnd buf dest now (snd (run client_step es l)) = (S_OK, req, dest', l')"
    "cl_nTestIndex l' = 0" "buf_wf buf"
    "request_wf True (buf_bytes req) as m out aset None (snd (Reader_AddBytes (buf_bytes req) Reader_new)) cap"
    "\<And>k m. length (hmac k m) = 20"
    "Handler_ProcessRequest hmac md5 m out (Some aset) None = (S_OK, out')" "out_spBufferOut out' = Some resp"
    "ClientLogic_ProcessResponse resp remote local l' = (hr, l'')"
  shows "dest' = cfg_addrServer config \<and> hr = S_OK \<and> res_fBindingTestSuccess (cl_results l'') \<and>
    res_addrLocal (cl_results l'') = local \<and>
    CSocketAddress_IsSameIP_and_Port (res_addrMapped (cl_results l'')) (in_addrRemote m) \<and>
    res_fIsDirect (cl_results l'') = CSocketAddress_IsSameIP_and_Port local (in_addrRemote m) \<and>
    (case other_address aset m of None \<Rightarrow> \<not> res_fHasOtherAddress (cl_results l'')
     | Some a \<Rightarrow> res_fHasOtherAddress (cl_results l'') \<and> CSocketAddress_IsSameIP_and_Port (res_addrAA (cl_results l'')) a)"
proof -
  let ?l = "snd (run client_step es l)" and ?r = "snd (Reader_AddBytes (buf_bytes req) Reader_new)"
  have inv: "session_means ?l" "ids_ok ?l"
    using run_inv [OF Initialize_inv(1) [OF assms(1)]] run_ids [OF Initialize_inv(1) [OF assms(1)] Initialize_ids [OF assms(1)]]
    by (simp_all add: session_inv_def)
  have g: "cl_fInitialized ?l" "MAX_STUN_MESSAGE_SIZE \<le> b_allocated buf" "ClientLogic_loop rnd now buf dest ?l = (S_OK, req, dest', l')"
    using assms(2) by (auto simp: ClientLogic_GetNextMessage_def CBuffer_GetAllocatedSize_def hresult_defs split: if_splits)
  obtain p where p: "sent_by rnd buf req dest' p l'" and cfg: "cl_config p = cl_config ?l"
    using loop_sends [OF inv g(3)] by blast
  obtain t n now' where q: "session_means p" "ids_ok p" "\<not> session_over p" "\<not> ct_fCompleted (cl_test p)"
    "Test_GetMessage rnd (cl_config p) (cl_results p) buf (cl_test p) = (S_OK, req, dest', t)"
    "l' = p\<lparr>cl_testlist := (cl_testlist p)[cl_nTestIndex p := t], cl_sendCount := n, cl_timeLastMessageSent := now'\<rparr>"
    using p by (auto simp: sent_by_def)
  have id0: "cl_nTestIndex p = 0" using assms(3) by (simp add: q(6))
  have bind: "ct_class (cl_test p) = CBasicBindingTest"
    using shape_binding [of p] q(1,3) id0 by (simp add: session_means_def)
  have tid: "length (ct_transid (cl_test p)) = 16" using cl_test_id [OF q(2,3)] by (simp add: STUN_TRANSACTION_ID_LENGTH_def)
  let ?no = "\<lparr>fChangeIP = False, fChangePort = False\<rparr>"
  note gm = GetMessage_message [OF assms(4) g(2) tid q(5)]
  have t: "dest' = cfg_addrServer (cl_config p)" "length (ct_transid t) = 16" "t = (cl_test p)\<lparr>ct_transid := ct_transid t\<rparr>"
    "buf_bytes req = msg_bytes request_field (ct_transid t) [(STUN_ATTRIBUTE_CHANGEREQUEST, be32 (change_flags ?no))]"
    using gm bind by (auto simp: test_dest_def test_change_def)
  have test: "cl_test l' = t" "cl_nTestIndex l' < length (cl_testlist l')" "ct_class t = CBasicBindingTest" "\<not> ct_fCompleted t"
    using q(3,4) bind by (simp_all add: q(6) session_over_def) (subst t(3), simp)+
  note rq = request_rd_msg [OF t(2), of "change_flags ?no", folded t(4)]
  have "in_pReader m = Some ?r" using assms(5) by (simp add: request_wf_def)
  note code = request_code_binding [OF rq(1) refl this, where hmac = hmac and ?md5.0 = md5 and aset = aset]
  have cls: "Reader_GetMessageClass ?r = StunMsgClassRequest" and tidr: "Reader_GetTransactionId ?r = ct_transid t"
    using rd_msg_head [OF rq(1)] request_field_ok(2) by simp_all
  note o = answer_success [OF assms(5) cls assms(6,7) code]
  obtain x where x: "Reader_GetXorMappedAddress CSocketAddress_zero (answer_reader out') = (S_OK, x)"
    "CSocketAddress_IsSameIP_and_Port x (in_addrRemote m)"
    "case other_address aset m of None \<Rightarrow> \<not> SUCCEEDED (fst (Reader_GetOtherAddress CSocketAddress_zero (answer_reader out')))
       | Some a \<Rightarrow> (\<exists>z. Reader_GetOtherAddress CSocketAddress_zero (answer_reader out') = (S_OK, z) \<and> CSocketAddress_IsSameIP_and_Port z a)"
    by (rule success_addresses [OF assms(5) answer_role_valid [OF assms(5) o(1)] o(2)]) blast
  have resp: "buf_bytes resp = answer_bytes out'" by (simp add: answer_bytes_def assms(8))
  obtain field ws where a: "rd_msg True field (ct_transid t) ws (answer_reader out')" "Reader_GetState (answer_reader out') = BodyValidated"
    "out_answers out' cap (msg_bytes field (ct_transid t) ws)"
    by (rule request_answer [where hmac = hmac and ?md5.0 = md5, OF assms(5) cls assms(6)]) (use assms(7) tidr in auto)
  have ans: "answers_test resp t"
  proof -
    have "fst (Reader_AddBytes (buf_bytes resp) Reader_new) = Reader_GetState (answer_reader out')"
      using AddBytes_inv [OF Reader_new_inv, of "buf_bytes resp"] by (simp add: resp answer_reader_def Reader_GetState_def rd_inv_def)
    then show ?thesis using a(2) rd_msg_head(1) [OF a(1)]
      by (simp add: answers_test_def case_prod_beta resp answer_reader_def)
  qed
  have size: "CBuffer_GetSize resp \<noteq> 0"
    using a(3) assms(8) t(2) by (auto simp: out_answers_def CBuffer_GetSize_def buf_wf_size msg_bytes_def)
  have init: "cl_fInitialized l'" using loop_result [OF g(3) run_session(1) [OF Initialize_ok(1) [OF assms(1)]]] g(1)
    by (simp add: same_session_def)
  obtain t' res' where b: "CBasicBindingTest_ProcessResponse (cl_config l') resp local (t, cl_results l') = (hr, t', res')" "cl_results l'' = res'"
    using assms(9) size init test
    by (auto simp: ClientLogic_ProcessResponse_def Test_IsCompleted_def Test_ProcessResponse_def split: prod.splits)
  have "snd (Reader_AddBytes (buf_bytes resp) Reader_new) = answer_reader out'" by (simp add: resp answer_reader_def)
  note r = binding_response [OF ans this x(1) b(1)]
  have "dest' = cfg_addrServer config"
    using t(1) cfg run_session(2) [OF Initialize_ok(1) [OF assms(1)], of es] Initialize_inv(2) [OF assms(1)] by simp
  then show ?thesis
    using r x(2,3) same_address_trans [OF x(2), of local] b(2) by (auto split: option.splits)
qed

lemma demo_poll:
  obtains req l' where "ClientLogic_GetNextMessage rnd (CBuffer_alloc 1500) dest now (demo_logic False) = (S_OK, req, demo_addr 1, l')"
    "cl_nTestIndex l' = 0" "\<exists>tid. length tid = 16 \<and> buf_bytes req =
      msg_bytes request_field tid [(STUN_ATTRIBUTE_CHANGEREQUEST, be32 (change_flags \<lparr>fChangeIP = False, fChangePort = False\<rparr>))]"
proof -
  have a: "\<not> CSocketAddress_IsIPAddressZero (demo_addr 1)" "CSocketAddress_GetPort (demo_addr 1) \<noteq> 0"
    using demo_Initialize [of False] by (auto simp: ClientLogic_Initialize_def demo_config_def CStunClientLogic_new_def hresult_defs
        split: if_splits)
  let ?t = "Test_Init (CStunClientTest_new CBasicBindingTest)" and ?l = "demo_logic False"
  have l: "cl_testlist ?l = [?t]" "cl_nTestIndex ?l = 0" "cl_fInitialized ?l" "cl_sendCount ?l = 0"
      "cl_fPreCheckRunOnTest ?l = False" "cfg_uMaxAttempts (cl_config ?l) = 1" "cfg_addrServer (cl_config ?l) = demo_addr 1"
    using a by (simp_all add: demo_logic_def ClientLogic_Initialize_def demo_config_def CStunClientLogic_new_def Let_def)
  have t: "ct_class ?t = CBasicBindingTest" "\<not> ct_fCompleted ?t" "length (ct_transid ?t) = 16"
    by (simp_all add: Test_Init_def CStunClientTest_new_def STUN_TRANSACTION_ID_LENGTH_def)
  have buf: "buf_wf (CBuffer_alloc 1500)" "b_allocated (CBuffer_alloc 1500) = 1500"
    by (simp_all add: CBuffer_alloc_def CBuffer_InitWithAllocation_def buf_wf_def)
  obtain hr req d t' where g: "Test_GetMessage rnd (cl_config ?l) (cl_results ?l) (CBuffer_alloc 1500) ?t = (hr, req, d, t')"
    by (metis prod.collapse)
  have m: "hr = S_OK" "d = demo_addr 1" "length (ct_transid t') = 16" "buf_bytes req =
      msg_bytes request_field (ct_transid t') [(STUN_ATTRIBUTE_CHANGEREQUEST, be32 (change_flags \<lparr>fChangeIP = False, fChangePort = False\<rparr>))]"
    using GetMessage_message [OF buf(1) _ t(3) g] t(1) by (simp_all add: buf(2) MAX_STUN_MESSAGE_SIZE_def test_dest_def test_change_def l)
  let ?p = "?l\<lparr>cl_fPreCheckRunOnTest := True\<rparr>"
  have p: "ClientLogic_PreCheck ?l = ?p"
    by (simp add: ClientLogic_PreCheck_def l on_test_def Test_PreRunCheck_def t)
  have "ClientLogic_loop_step rnd now (CBuffer_alloc 1500) dest ?l = Inl (S_OK, req, demo_addr 1,
      ?p\<lparr>cl_testlist := [t'], cl_sendCount := 1, cl_timeLastMessageSent := now\<rparr>)"
    by (simp add: ClientLogic_loop_step_def p l Let_def Test_IsCompleted_def Test_IsReadyToRun_def CBasicBindingTest_IsReadyToRun_def
        t g m)
  then have "ClientLogic_GetNextMessage rnd (CBuffer_alloc 1500) dest now ?l = (S_OK, req, demo_addr 1,
      ?p\<lparr>cl_testlist := [t'], cl_sendCount := 1, cl_timeLastMessageSent := now\<rparr>)"
    by (simp add: ClientLogic_GetNextMessage_def l CBuffer_GetAllocatedSize_def buf MAX_STUN_MESSAGE_SIZE_def ClientLogic_loop.simps)
  then show ?thesis using that m(3,4) by (auto simp: l)
qed

theorem binding_exchange_witness:
  "\<exists>req l' out' resp l''. ClientLogic_GetNextMessage (\<lambda>_. 7) (CBuffer_alloc 1500) CSocketAddress_zero 0 (demo_logic False) = (S_OK, req, demo_addr 1, l') \<and>
    Handler_ProcessRequest demo_hmac demo_md5 (demo_in False (snd (Reader_AddBytes (buf_bytes req) Reader_new))) demo_out
      (Some demo_set) None = (S_OK, out') \<and> out_spBufferOut out' = Some resp \<and>
    ClientLogic_ProcessResponse resp (demo_addr 1) (demo_addr 9) l' = (S_OK, l'') \<and> res_fBindingTestSuccess (cl_results l'') \<and>
    CSocketAddress_IsSameIP_and_Port (res_addrMapped (cl_results l'')) (demo_addr 9)"
proof -
  let ?no = "\<lparr>fChangeIP = False, fChangePort = False\<rparr>"
  obtain req l' tid where g: "ClientLogic_GetNextMessage (\<lambda>_. 7) (CBuffer_alloc 1500) CSocketAddress_zero 0 (demo_logic False) = (S_OK, req, demo_addr 1, l')"
    "cl_nTestIndex l' = 0" "length tid = 16" "buf_bytes req =
      msg_bytes request_field tid [(STUN_ATTRIBUTE_CHANGEREQUEST, be32 (change_flags ?no))]"
    by (rule demo_poll [of "\<lambda>_. 7" CSocketAddress_zero 0]) blast
  let ?r = "snd (Reader_AddBytes (buf_bytes req) Reader_new)"
  note r = request_rd_msg [OF g(3), of "change_flags ?no", folded g(4)]
  have wf: "request_wf True (buf_bytes req) (attrs_at 20 [(STUN_ATTRIBUTE_CHANGEREQUEST, be32 (change_flags ?no))])
      (demo_in False ?r) demo_out demo_set None ?r 1500"
    using r(1) demo_request_wf [OF demo_wire_ok(1) demo_lengths(4), of None False]
    by (simp add: request_wf_def rd_msg_def g(4) demo_in_def)
  have cls: "Reader_GetMessageClass ?r = StunMsgClassRequest" using rd_msg_head(2) [OF r(1)] request_field_ok(2) by simp
  obtain out' where o: "Handler_ProcessRequest demo_hmac demo_md5 (demo_in False ?r) demo_out (Some demo_set) None = (S_OK, out')"
      "\<exists>resp. out_spBufferOut out' = Some resp"
    by (rule request_answer [where hmac = demo_hmac and ?md5.0 = demo_md5, OF wf cls demo_lengths(2)]) (auto simp: out_answers_def)
  then obtain resp where resp: "out_spBufferOut out' = Some resp" by blast
  obtain hr l'' where c: "ClientLogic_ProcessResponse resp (demo_addr 1) (demo_addr 9) l' = (hr, l'')" by (metis prod.collapse)
  have buf: "buf_wf (CBuffer_alloc 1500)"
    by (simp add: CBuffer_alloc_def CBuffer_InitWithAllocation_def buf_wf_def)
  show ?thesis
    using binding_exchange [OF demo_Initialize _ g(2) buf wf demo_lengths(2) o(1) resp c, of "\<lambda>_. 7" CSocketAddress_zero 0 "[]"] g(1) o(1) resp c
    by (auto simp: demo_in_def)
qed

theorem client_request_valid_witness:
  "\<exists>hr buf' dest t'. Test_GetMessage (\<lambda>_. 7) (demo_config True) StunClientResults_Init (CBuffer_alloc 1500)
      (Test_Init (CStunClientTest_new CFilteringTest)) = (hr, buf', dest, t') \<and> hr = S_OK \<and> b_size buf' = 28 \<and>
    Reader_GetChangeRequest (snd (Reader_AddBytes (buf_bytes buf') Reader_new)) = (S_OK, \<lparr>fChangeIP = True, fChangePort = True\<rparr>)"
proof -
  let ?t = "Test_Init (CStunClientTest_new CFilteringTest)"
  obtain hr buf' dest t' where g: "Test_GetMessage (\<lambda>_. 7) (demo_config True) StunClientResults_Init (CBuffer_alloc 1500) ?t = (hr, buf', dest, t')"
    by (metis prod.collapse)
  have buf: "buf_wf (CBuffer_alloc 1500)" "MAX_STUN_MESSAGE_SIZE \<le> b_allocated (CBuffer_alloc 1500)"
    by (simp_all add: CBuffer_alloc_def CBuffer_InitWithAllocation_def buf_wf_def MAX_STUN_MESSAGE_SIZE_def)
  have t: "length (ct_transid ?t) = STUN_TRANSACTION_ID_LENGTH" "test_change ?t = \<lparr>fChangeIP = True, fChangePort = True\<rparr>"
    by (simp_all add: Test_Init_def CStunClientTest_new_def test_change_def)
  show ?thesis using client_request_valid [OF buf t(1) g] g t(2) by (auto simp: case_prod_beta)
qed

end
