(* ===== verification/FastHashDynamic.thy ===== *)
theory FastHashDynamic
  imports StorageTheorems
begin

text \<open>
  The hash table whose sizes are chosen at run time (\<^verbatim>\<open>FastHashDynamic\<close> in \<^verbatim>\<open>common/fasthash.h\<close>) and
  the search for its number of columns (\<^verbatim>\<open>common/fasthash.cpp\<close>). \<^verbatim>\<open>new\<close> does not return a null
  pointer, and the elements it does not set are the zero bytes of the model.
\<close>

subsection \<open>The number of columns\<close>

text \<open>
  The integer part of the square root. The \<^verbatim>\<open>double\<close> computation of the code gives it exactly: below
  \<open>2 ^ 32\<close> the distance of a root to the next integer is larger than the rounding error.
\<close>

fun isqrt :: "nat \<Rightarrow> nat" where
  "isqrt 0 = 0"
| "isqrt (Suc n) = (let r = isqrt n in if (r + 1) * (r + 1) \<le> Suc n then r + 1 else r)"

definition IS_DIVISIBLE_BY :: "nat \<Rightarrow> nat \<Rightarrow> bool" where
  "IS_DIVISIBLE_BY x y \<longleftrightarrow> x mod y = 0"

text \<open>One turn of the \<^verbatim>\<open>while\<close> loop: no number from 3 to \<^verbatim>\<open>stop\<close> divides the candidate.\<close>

definition FindPrime_test :: "nat \<Rightarrow> bool" where
  "FindPrime_test result = (let stop = isqrt result + 1 in \<not> list_ex (IS_DIVISIBLE_BY result) [3..<stop + 1])"

lemma FindPrime_test_small: "n < 3 \<Longrightarrow> FindPrime_test n"
proof -
  assume "n < 3"
  then have "n = 0 \<or> n = 1 \<or> n = 2" by auto
  then show ?thesis by (elim disjE) (simp_all add: FindPrime_test_def Let_def numeral_eq_Suc IS_DIVISIBLE_BY_def upt_rec)
qed

lemma unat_add_two: "unat (r + 2 :: u32) = (unat r + 2) mod 4294967296"
  by (simp add: unat_word_ariths)

lemma add_two_cases: "unat (r + 2 :: u32) = unat r + 2 \<or> unat (r + 2) < 3"
proof (cases "unat r + 2 < 4294967296")
  case True
  then show ?thesis unfolding unat_add_two by (intro disjI1 mod_less)
next
  case False
  have "(unat r + 2) mod 4294967296 = (unat r + 2 - 4294967296) mod 4294967296" by (rule le_mod_geq) (use False in linarith)
  also have "\<dots> \<le> unat r + 2 - 4294967296" by (rule mod_less_eq_dividend)
  finally show ?thesis unfolding unat_add_two using unat_less(3) [of r] by (intro disjI2) linarith
qed

text \<open>\<^verbatim>\<open>result += 2\<close> wraps at 32 bits; the small values it wraps to pass the test.\<close>

function FindPrime_loop :: "u32 \<Rightarrow> u32" where
  "FindPrime_loop result = (if FindPrime_test (unat result) then result else FindPrime_loop (result + 2))"
  by pat_completeness auto

termination
proof (relation "measure (\<lambda>r. if unat r < 3 then 0 else 2 ^ 32 - unat r)")
  fix r :: u32 assume "\<not> FindPrime_test (unat r)"
  then have r: "3 \<le> unat r" using FindPrime_test_small by (meson not_le)
  then show "(r + 2, r) \<in> measure (\<lambda>r. if unat r < 3 then 0 else 2 ^ 32 - unat r)"
    using add_two_cases [of r] unat_less(3) [of r] unfolding in_measure by (auto simp del: unat_less)
qed simp

declare FindPrime_loop.simps [simp del]

definition FindPrime :: "u32 \<Rightarrow> u32" where
  "FindPrime val =
     (if val \<le> 2 then 2
      else if val = 3 then 3
      else (let result = val;
                result = (if unat result mod 2 = 0 then result + 1 else result)
            in FindPrime_loop result))"

definition FastHash_GetHashTableWidth :: "u32 \<Rightarrow> nat" where
  "FastHash_GetHashTableWidth maxConnections = unat (FindPrime maxConnections)"

subsection \<open>The table\<close>

definition fhd_ResetTable :: "('k, 'v) FastHash" where
  "fhd_ResetTable = fh_Init 0 0 None"

text \<open>The item count is converted to \<^verbatim>\<open>unsigned int\<close> for the search.\<close>

definition fhd_InitTable :: "nat \<Rightarrow> nat \<Rightarrow> ('k, 'v) FastHash \<Rightarrow> int \<times> ('k, 'v) FastHash" where
  "fhd_InitTable fsize tsize h =
     (if fsize = 0 then (-1, h)
      else
        (let tsize = (if tsize = 0 then FastHash_GetHashTableWidth (of_nat fsize) else tsize);
             indexarray = replicate fsize 0
         in (1, fh_Init fsize tsize (Some indexarray))))"

subsection \<open>The search finds the next prime\<close>

definition is_prime :: "nat \<Rightarrow> bool" where
  "is_prime n \<longleftrightarrow> 1 < n \<and> (\<forall>d. d dvd n \<longrightarrow> d = 1 \<or> d = n)"

lemma isqrt_bounds: "isqrt n * isqrt n \<le> n \<and> n < (isqrt n + 1) * (isqrt n + 1)"
  by (induction n) (auto simp: Let_def)

text \<open>For an odd candidate above 4 the test is primality.\<close>

lemma FindPrime_test_prime:
  assumes "odd n" "5 \<le> n"
  shows "FindPrime_test n \<longleftrightarrow> is_prime n"
proof
  assume t: "FindPrime_test n"
  have nodiv: "\<not> d dvd n" if "3 \<le> d" "d \<le> isqrt n + 1" for d
    using t that by (auto simp: FindPrime_test_def IS_DIVISIBLE_BY_def list_ex_iff Let_def mod_eq_0_iff_dvd)
  show "is_prime n" unfolding is_prime_def
  proof (intro conjI allI impI)
    fix d assume d: "d dvd n"
    then obtain e where e: "n = d * e" by (auto elim: dvdE)
    show "d = 1 \<or> d = n"
    proof (rule ccontr)
      assume no: "\<not> (d = 1 \<or> d = n)"
      have "d \<noteq> 0" "e \<noteq> 1" using no e assms(2) by auto
      moreover have "e \<noteq> 0" using e assms(2) by (cases e) auto
      ultimately have nz: "d \<noteq> 0" "e \<noteq> 0" "e \<noteq> 1" by simp_all
      have "odd d" "odd e" using assms(1) e by auto
      have "d \<noteq> 2" "e \<noteq> 2" "d \<noteq> 1" using \<open>odd d\<close> \<open>odd e\<close> no by auto
      then have ge: "3 \<le> d" "3 \<le> e" using nz by linarith+
      have "d \<le> isqrt n \<or> e \<le> isqrt n"
      proof (rule ccontr)
        assume "\<not> (d \<le> isqrt n \<or> e \<le> isqrt n)"
        then have "(isqrt n + 1) * (isqrt n + 1) \<le> d * e" by (intro mult_le_mono) auto
        then show False using isqrt_bounds [of n] e by simp
      qed
      then show False using nodiv [of d] nodiv [of e] ge e by auto
    qed
  qed (use assms(2) in simp)
next
  assume p: "is_prime n"
  have "isqrt n + 1 < n"
  proof (rule ccontr)
    assume "\<not> isqrt n + 1 < n"
    then have "n - 1 \<le> isqrt n" by simp
    then have "(n - 1) * (n - 1) \<le> n" using isqrt_bounds [of n] mult_le_mono le_trans by blast
    moreover have "n < (n - 1) * (n - 1)"
    proof -
      obtain m where m: "n = m + 5" using assms(2) by (metis add.commute le_Suc_ex)
      show ?thesis by (simp add: m algebra_simps)
    qed
    ultimately show False by simp
  qed
  then show "FindPrime_test n"
    using p by (auto simp: FindPrime_test_def IS_DIVISIBLE_BY_def list_ex_iff Let_def is_prime_def mod_eq_0_iff_dvd)
qed

lemma is_prime_odd: "is_prime p \<Longrightarrow> 3 \<le> p \<Longrightarrow> odd p"
  by (auto simp: is_prime_def)

lemma FindPrime_loop_least:
  assumes "odd (unat r)" "5 \<le> unat r" "is_prime p" "unat r \<le> p" "p < 2 ^ 32"
  shows "is_prime (unat (FindPrime_loop r)) \<and> unat r \<le> unat (FindPrime_loop r) \<and> unat (FindPrime_loop r) \<le> p \<and>
    (\<forall>q. unat r \<le> q \<and> q < unat (FindPrime_loop r) \<longrightarrow> \<not> is_prime q)"
  using assms
proof (induction r rule: FindPrime_loop.induct)
  case (1 r)
  show ?case
  proof (cases "FindPrime_test (unat r)")
    case True
    then show ?thesis using 1 FindPrime_test_prime [of "unat r"] by (subst (1 2 3 4) FindPrime_loop.simps) auto
  next
    case False
    have np: "\<not> is_prime (unat r)" using FindPrime_test_prime False 1 by blast
    then have "unat r < p" using 1(4,5) by (metis le_neq_implies_less)
    moreover have "odd p" using is_prime_odd 1(3,4,5) by simp
    ultimately have le: "unat r + 2 \<le> p" using 1(2) by presburger
    then have u: "unat (r + 2) = unat r + 2" using 1(6) by (simp add: unat_plus_if_size size_word_def)
    have l: "FindPrime_loop r = FindPrime_loop (r + 2)" using False by (subst FindPrime_loop.simps) simp
    have ih: "is_prime (unat (FindPrime_loop r)) \<and> unat r + 2 \<le> unat (FindPrime_loop r) \<and> unat (FindPrime_loop r) \<le> p \<and>
        (\<forall>q. unat r + 2 \<le> q \<and> q < unat (FindPrime_loop r) \<longrightarrow> \<not> is_prime q)"
      using 1(1) [OF False] 1(2-6) le unfolding u l by simp
    have succ: "\<not> is_prime (unat r + 1)" using 1(2,3) is_prime_odd [of "unat r + 1"] by auto
    have "\<not> is_prime q" if "unat r \<le> q" "q < unat (FindPrime_loop r)" for q
    proof -
      have "q = unat r \<or> q = unat r + 1 \<or> unat r + 2 \<le> q" using that(1) by linarith
      then show ?thesis using np succ ih that(2) by blast
    qed
    then show ?thesis using ih by auto
  qed
qed

lemma FindPrime_loop_odd: "odd (unat r) \<Longrightarrow> odd (unat (FindPrime_loop r))"
proof (induction r rule: FindPrime_loop.induct)
  case (1 r)
  have "even (unat (r + 2)) = even (unat r)" unfolding unat_add_two by (subst dvd_mod_iff) simp_all
  then have "odd (unat (r + 2))" using 1(2) by simp
  with 1 show ?case by (subst FindPrime_loop.simps) simp
qed

lemma is_prime_small: "is_prime 2" "is_prime 3" "is_prime q \<Longrightarrow> 2 \<le> q"
proof -
  have d: "d = 0 \<or> d = 1 \<or> d = 2 \<or> d = 3" if "d dvd 3 \<or> d dvd 2" for d :: nat
  proof -
    have "d \<le> 3" using that by (auto dest: dvd_imp_le)
    then show ?thesis by linarith
  qed
  show "is_prime 2"
    unfolding is_prime_def
  proof (intro conjI allI impI)
    fix e :: nat assume e: "e dvd 2"
    then have "e \<le> 2" by (rule dvd_imp_le) simp
    then show "e = 1 \<or> e = 2" using d [of e] e by auto
  qed simp
  show "is_prime 3"
    unfolding is_prime_def
  proof (intro conjI allI impI)
    fix e :: nat assume e: "e dvd 3"
    then show "e = 1 \<or> e = 3" using d [of e] by auto
  qed simp
  show "is_prime q \<Longrightarrow> 2 \<le> q" by (simp add: is_prime_def)
qed

lemma FindPrime_cases: "FastHash_GetHashTableWidth val =
  (if unat val \<le> 2 then 2 else if unat val = 3 then 3
   else unat (FindPrime_loop (if even (unat val) then val + 1 else val)))"
proof -
  have "val \<le> 2 \<longleftrightarrow> unat val \<le> 2" "val = 3 \<longleftrightarrow> unat val = 3"
    by (simp_all add: word_le_nat_alt word_unat_eq_iff)
  then show ?thesis by (simp add: FastHash_GetHashTableWidth_def FindPrime_def Let_def even_iff_mod_2_eq_zero)
qed

text \<open>
  The number of columns is the next prime. The search terminates for every argument, and for
  one with a prime between it and the largest 32-bit integer the result is the smallest prime that
  is not smaller (the comment in the code asks for the highest one).
\<close>

theorem table_width_next_prime:
  assumes "is_prime p" "unat val \<le> p" "p < 2 ^ 32"
  shows "is_prime (FastHash_GetHashTableWidth val) \<and> unat val \<le> FastHash_GetHashTableWidth val \<and>
    FastHash_GetHashTableWidth val \<le> p \<and>
    (\<forall>q. unat val \<le> q \<and> q < FastHash_GetHashTableWidth val \<longrightarrow> \<not> is_prime q)"
proof -
  consider "unat val \<le> 2" | "unat val = 3" | "4 \<le> unat val" by linarith
  then show ?thesis
  proof cases
    case 1
    then have w: "FastHash_GetHashTableWidth val = 2" by (simp add: FindPrime_cases)
    show ?thesis unfolding w using 1 is_prime_small assms(1) by (auto dest: is_prime_small(3))
  next
    case 2
    then have w: "FastHash_GetHashTableWidth val = 3" by (simp add: FindPrime_cases)
    show ?thesis unfolding w using 2 is_prime_small(2) assms(2) by auto
  next
    case 3
    define r where "r = (if even (unat val) then val + 1 else val)"
    have w: "FastHash_GetHashTableWidth val = unat (FindPrime_loop r)" using 3 by (simp add: FindPrime_cases r_def)
    have p: "odd p" using is_prime_odd [OF assms(1)] 3 assms(2) by simp
    have next_le: "unat val + 1 \<le> p" if "even (unat val)"
      using that p assms(2) by (metis Suc_eq_plus1 Suc_leI le_neq_implies_less)
    have u: "unat r = (if even (unat val) then unat val + 1 else unat val)"
      using next_le assms(3) by (auto simp: r_def unat_word_ariths)
    have r: "odd (unat r)" "5 \<le> unat r" "unat r \<le> p" "unat val \<le> unat r"
    proof -
      have "unat val \<noteq> 4" if "odd (unat val)" using that by auto
      then show "5 \<le> unat r" using u 3 by auto
    qed (use u next_le assms(2) in auto)
    note l = FindPrime_loop_least [OF r(1,2) assms(1) r(3) assms(3)]
    have "\<not> is_prime q" if "unat val \<le> q" "q < unat (FindPrime_loop r)" for q
    proof (cases "unat r \<le> q")
      case False
      then have "even (unat val)" "q = unat val" using that(1) u by (auto split: if_splits)
      then show ?thesis using is_prime_odd [of "unat val"] 3 by auto
    qed (use l that in blast)
    then show ?thesis using l r(4) unfolding w by auto
  qed
qed

theorem table_width_next_prime_witness: "is_prime (FastHash_GetHashTableWidth 8) \<and> FastHash_GetHashTableWidth 8 \<le> 11"
proof -
  have "FindPrime_test 11" by code_simp
  then have "is_prime 11" using FindPrime_test_prime [of 11] by simp
  then show ?thesis using table_width_next_prime [of 11 8] by simp
qed

lemma table_width_pos: "0 < FastHash_GetHashTableWidth val"
proof -
  have "odd (unat (FindPrime_loop r))" if "odd (unat r)" for r by (rule FindPrime_loop_odd [OF that])
  then have l: "0 < unat (FindPrime_loop r)" if "odd (unat r)" for r using that by (metis even_zero gr0I)
  have "odd (unat (val + 1))" if "even (unat val)"
  proof -
    have "unat (val + 1) = (unat val + 1) mod 4294967296" by (simp add: unat_word_ariths)
    then have "even (unat (val + 1)) = even (unat val + 1)" by (simp only:) (subst dvd_mod_iff, simp_all)
    then show ?thesis using that by simp
  qed
  then show ?thesis using l [of val] l [of "val + 1"]
    by (auto simp: FindPrime_cases)
qed

text \<open>A table that was initialised is as empty and well formed as one of fixed sizes.\<close>

lemma InitTable_new:
  assumes "0 < fsize"
  shows "fst (fhd_InitTable fsize tsize h) = 1" "fh_inv hash (snd (fhd_InitTable fsize tsize h))"
    "fh_stack hash (snd (fhd_InitTable fsize tsize h)) = (\<lambda>_. [])"
    "fh_fsize (snd (fhd_InitTable fsize tsize h)) = fsize" "fh_size (snd (fhd_InitTable fsize tsize h)) = 0"
proof -
  let ?t = "if tsize = 0 then FastHash_GetHashTableWidth (of_nat fsize) else tsize"
  have t: "0 < ?t" using table_width_pos by simp
  have i: "fhd_InitTable fsize tsize h = (1, FastHash_new fsize ?t)"
    using assms by (simp add: fhd_InitTable_def FastHash_new_def Let_def)
  show "fst (fhd_InitTable fsize tsize h) = 1" "fh_inv hash (snd (fhd_InitTable fsize tsize h))"
    "fh_stack hash (snd (fhd_InitTable fsize tsize h)) = (\<lambda>_. [])"
    "fh_fsize (snd (fhd_InitTable fsize tsize h)) = fsize" "fh_size (snd (fhd_InitTable fsize tsize h)) = 0"
    unfolding i using FastHash_new_inv [OF assms t, of hash] by (simp_all add: FastHash_new_size)
qed

end
