(* ===== verification/RateLimiter.thy ===== *)
theory RateLimiter
  imports FastHashDynamic SocketAddress
begin

text \<open>
  The rate limiter that protects the server from floods (\<^verbatim>\<open>networkutils/ratelimiter.h\<close> and
  \<^verbatim>\<open>ratelimiter.cpp\<close>): a table of request counters by IP address. The current time is an argument
  of every check; times are unbounded integers, the counter has 64 bits.
\<close>

subsection \<open>The model\<close>

record RateTracker =
  rt_count :: u64
  rt_firstEntryTime :: int
  rt_lastEntryTime :: int
  rt_penaltyTime :: int

record RateTrackerAddress =
  addrbytes0 :: u64
  addrbytes1 :: u64

definition FastHash_Hash_addr :: "RateTrackerAddress \<Rightarrow> nat" where
  "FastHash_Hash_addr addr = unat (addrbytes0 addr XOR addrbytes1 addr)"

record RateLimiter =
  rl_table :: "(RateTrackerAddress, RateTracker) FastHash"
  rl_isUsingLock :: bool
  rl_mutex :: bool

definition MAX_RATE :: u64 where "MAX_RATE = 3600"
definition MIN_COUNT_FOR_CONSIDERATION :: u64 where "MIN_COUNT_FOR_CONSIDERATION = 60"
definition RESET_INTERVAL_SECONDS :: int where "RESET_INTERVAL_SECONDS = 120"
definition PENALTY_TIME_SECONDS :: int where "PENALTY_TIME_SECONDS = 3600"

lemmas rate_defs = MAX_RATE_def MIN_COUNT_FOR_CONSIDERATION_def RESET_INTERVAL_SECONDS_def PENALTY_TIME_SECONDS_def

definition RateLimiter_new :: "nat \<Rightarrow> bool \<Rightarrow> RateLimiter" where
  "RateLimiter_new tablesize isUsingLock =
     \<lparr>rl_table = snd (fhd_InitTable tablesize (tablesize div 2) fhd_ResetTable),
      rl_isUsingLock = isUsingLock, rl_mutex = False\<rparr>"

definition RateLimiter_get_rate :: "RateTracker \<Rightarrow> u64" where
  "RateLimiter_get_rate pRT =
     (if rt_count pRT < MIN_COUNT_FOR_CONSIDERATION then 0
      else
        (let seconds = 1;
             seconds = (if rt_lastEntryTime pRT > rt_firstEntryTime pRT
                        then rt_lastEntryTime pRT - rt_firstEntryTime pRT else seconds)
         in (rt_count pRT * 3600) div word_of_int seconds))"

text \<open>The key of an address: its IP bytes, followed by zeros, as two host integers.\<close>

definition RateTrackerAddress_of :: "CSocketAddress \<Rightarrow> RateTrackerAddress" where
  "RateTrackerAddress_of addr =
     (let bytes = poke 0 (CSocketAddress_GetIP 16 addr) (replicate 16 0)
      in \<lparr>addrbytes0 = unhost64 (take 8 bytes), addrbytes1 = unhost64 (drop 8 bytes)\<rparr>)"

abbreviation rl_Lookup :: "RateTrackerAddress \<Rightarrow> RateLimiter \<Rightarrow> RateTracker option" where
  "rl_Lookup k rl \<equiv> fh_Lookup FastHash_Hash_addr k (rl_table rl)"

abbreviation rl_assign :: "RateTrackerAddress \<Rightarrow> RateTracker \<Rightarrow> RateLimiter \<Rightarrow> RateLimiter" where
  "rl_assign k rt rl \<equiv> rl\<lparr>rl_table := fh_Assign FastHash_Hash_addr k rt (rl_table rl)\<rparr>"

definition RateLimiter_RateCheckImpl :: "int \<Rightarrow> CSocketAddress \<Rightarrow> RateLimiter \<Rightarrow> bool \<times> RateLimiter" where
  "RateLimiter_RateCheckImpl currentTime addr rl =
     (let rtaddr = RateTrackerAddress_of addr
      in case rl_Lookup rtaddr rl of
           None \<Rightarrow>
             (let rt = \<lparr>rt_count = 1, rt_firstEntryTime = currentTime, rt_lastEntryTime = currentTime,
                        rt_penaltyTime = 0\<rparr>;
                  (result, t) = fh_Insert FastHash_Hash_addr rtaddr rt (rl_table rl);
                  t = (if result = -1
                       then snd (fh_Insert FastHash_Hash_addr rtaddr rt (fh_Reset t)) else t)
              in (True, rl\<lparr>rl_table := t\<rparr>))
         | Some pRT \<Rightarrow>
             (let pRT = pRT\<lparr>rt_count := rt_count pRT + 1\<rparr>;
                  pRT = pRT\<lparr>rt_lastEntryTime := currentTime\<rparr>;
                  rate = RateLimiter_get_rate pRT
              in if rt_penaltyTime pRT \<noteq> 0
                 then if rt_penaltyTime pRT \<ge> currentTime then (False, rl_assign rtaddr pRT rl)
                      else if rate < MAX_RATE
                      then (True, rl_assign rtaddr (pRT\<lparr>rt_penaltyTime := 0\<rparr>) rl)
                      else (False, rl_assign rtaddr
                             (pRT\<lparr>rt_penaltyTime := currentTime + PENALTY_TIME_SECONDS\<rparr>) rl)
                 else if rate \<ge> MAX_RATE
                 then (False, rl_assign rtaddr
                        (pRT\<lparr>rt_penaltyTime := currentTime + PENALTY_TIME_SECONDS\<rparr>) rl)
                 else
                   (let rl = rl_assign rtaddr pRT rl
                    in if rt_lastEntryTime pRT - rt_firstEntryTime pRT > RESET_INTERVAL_SECONDS
                       then (True, rl\<lparr>rl_table := snd (fh_Remove FastHash_Hash_addr rtaddr (rl_table rl))\<rparr>)
                       else (True, rl))))"

definition RateLimiter_RateCheck :: "int \<Rightarrow> CSocketAddress \<Rightarrow> RateLimiter \<Rightarrow> bool \<times> RateLimiter" where
  "RateLimiter_RateCheck currentTime addr rl =
     (let rl = (if rl_isUsingLock rl then rl\<lparr>rl_mutex := True\<rparr> else rl);
          (result, rl) = RateLimiter_RateCheckImpl currentTime addr rl;
          rl = (if rl_isUsingLock rl then rl\<lparr>rl_mutex := False\<rparr> else rl)
      in (result, rl))"

subsection \<open>The abstract limiter\<close>

text \<open>What a check does to the entry of the address itself: none, or the new one.\<close>

definition tracker_fresh :: "int \<Rightarrow> RateTracker" where
  "tracker_fresh now = \<lparr>rt_count = 1, rt_firstEntryTime = now, rt_lastEntryTime = now, rt_penaltyTime = 0\<rparr>"

definition tracker_step :: "int \<Rightarrow> RateTracker \<Rightarrow> bool \<times> RateTracker option" where
  "tracker_step now rt =
     (let rt = rt\<lparr>rt_count := rt_count rt + 1, rt_lastEntryTime := now\<rparr>;
          flood = (MAX_RATE \<le> RateLimiter_get_rate rt);
          punished = rt\<lparr>rt_penaltyTime := now + PENALTY_TIME_SECONDS\<rparr>
      in if rt_penaltyTime rt \<noteq> 0 \<and> now \<le> rt_penaltyTime rt then (False, Some rt)
         else if flood then (False, Some punished)
         else if rt_penaltyTime rt \<noteq> 0 then (True, Some (rt\<lparr>rt_penaltyTime := 0\<rparr>))
         else if now - rt_firstEntryTime rt > RESET_INTERVAL_SECONDS then (True, None)
         else (True, Some rt))"

text \<open>A map of entries with room for some more.\<close>

fun limiter_step :: "nat \<Rightarrow> int \<times> RateTrackerAddress \<Rightarrow> nat \<times> (RateTrackerAddress \<Rightarrow> RateTracker option)
    \<Rightarrow> bool \<times> nat \<times> (RateTrackerAddress \<Rightarrow> RateTracker option)" where
  "limiter_step cap (now, k) (room, m) =
     (case m k of
        None \<Rightarrow> (True, if room = 0 then (cap - 1, [k \<mapsto> tracker_fresh now]) else (room - 1, m(k \<mapsto> tracker_fresh now)))
      | Some rt \<Rightarrow> (case tracker_step now rt of
            (ok, None) \<Rightarrow> (ok, room + 1, m(k := None))
          | (ok, Some rt) \<Rightarrow> (ok, room, m(k \<mapsto> rt))))"

definition rl_abs :: "nat \<Rightarrow> RateLimiter \<Rightarrow> nat \<times> (RateTrackerAddress \<Rightarrow> RateTracker option) \<Rightarrow> bool" where
  "rl_abs cap rl a \<longleftrightarrow> fh_inv FastHash_Hash_addr (rl_table rl) \<and> fh_fsize (rl_table rl) = cap \<and> 0 < cap \<and>
     (\<forall>k. length (fh_stack FastHash_Hash_addr (rl_table rl) k) \<le> 1) \<and> \<not> rl_mutex rl \<and>
     a = (fh_room (rl_table rl), \<lambda>k. rl_Lookup k rl)"

lemma rl_abs_new:
  assumes "0 < n"
  shows "rl_abs n (RateLimiter_new n lock) (n, Map.empty)"
proof -
  have l: "fh_Lookup FastHash_Hash_addr k (snd (fhd_InitTable n (n div 2) fhd_ResetTable)) = None" for k
    using ft.lookup_top [of FastHash_Hash_addr "snd (fhd_InitTable n (n div 2) fhd_ResetTable)"] assms
    by (simp add: InitTable_new)
  show ?thesis using assms by (simp add: rl_abs_def RateLimiter_new_def InitTable_new fh_room_def l)
qed

text \<open>A table with the stacks of a map.\<close>

definition map_table :: "nat \<Rightarrow> (RateTrackerAddress, RateTracker) FastHash \<Rightarrow> nat \<Rightarrow>
    (RateTrackerAddress \<Rightarrow> RateTracker option) \<Rightarrow> bool" where
  "map_table cap t room m \<longleftrightarrow> fh_inv FastHash_Hash_addr t \<and> fh_fsize t = cap \<and> fh_room t = room \<and>
     fh_stack FastHash_Hash_addr t = (\<lambda>k. case m k of None \<Rightarrow> [] | Some v \<Rightarrow> [v])"

lemma map_table_lookup: "map_table cap t room m \<Longrightarrow> fh_Lookup FastHash_Hash_addr k t = m k"
  using ft.lookup_top [of FastHash_Hash_addr t k] by (auto simp: map_table_def split: option.splits)

lemma rl_abs_map_table:
  "rl_abs cap rl (room, m) \<longleftrightarrow> 0 < cap \<and> \<not> rl_mutex rl \<and> map_table cap (rl_table rl) room m"
proof
  assume a: "rl_abs cap rl (room, m)"
  then have inv: "fh_inv FastHash_Hash_addr (rl_table rl)" and m: "m = (\<lambda>k. rl_Lookup k rl)"
    by (auto simp: rl_abs_def)
  have "fh_stack FastHash_Hash_addr (rl_table rl) k = (case m k of None \<Rightarrow> [] | Some v \<Rightarrow> [v])" for k
  proof -
    have "length (fh_stack FastHash_Hash_addr (rl_table rl) k) \<le> 1" using a by (auto simp: rl_abs_def)
    then show ?thesis using ft.lookup_top [OF inv, of k]
      by (cases "fh_stack FastHash_Hash_addr (rl_table rl) k") (auto simp: m)
  qed
  then show "0 < cap \<and> \<not> rl_mutex rl \<and> map_table cap (rl_table rl) room m"
    using a by (auto simp: rl_abs_def map_table_def)
next
  assume a: "0 < cap \<and> \<not> rl_mutex rl \<and> map_table cap (rl_table rl) room m"
  then have "rl_Lookup k rl = m k" for k using map_table_lookup by blast
  then show "rl_abs cap rl (room, m)" using a by (auto simp: rl_abs_def map_table_def split: option.splits)
qed

text \<open>The operations of the table on such maps, from its contract.\<close>

lemma map_table_ops:
  assumes t: "map_table cap t room m"
  shows "m k \<noteq> None \<Longrightarrow> map_table cap (fh_Assign FastHash_Hash_addr k v t) room (m(k \<mapsto> v))"
    "m k \<noteq> None \<Longrightarrow> map_table cap (snd (fh_Remove FastHash_Hash_addr k t)) (room + 1) (m(k := None))"
    "m k = None \<Longrightarrow> 0 < room \<Longrightarrow> fst (fh_Insert FastHash_Hash_addr k v t) = 1 \<and>
       map_table cap (snd (fh_Insert FastHash_Hash_addr k v t)) (room - 1) (m(k \<mapsto> v))"
    "room = 0 \<Longrightarrow> fh_Insert FastHash_Hash_addr k v t = (-1, t)"
    "map_table cap (fh_Reset t) cap Map.empty"
proof -
  have inv: "fh_inv FastHash_Hash_addr t" and c: "fh_fsize t = cap" "fh_room t = room"
    and st: "fh_stack FastHash_Hash_addr t = (\<lambda>k. case m k of None \<Rightarrow> [] | Some v \<Rightarrow> [v])"
    using t by (simp_all add: map_table_def)
  show "m k \<noteq> None \<Longrightarrow> map_table cap (fh_Assign FastHash_Hash_addr k v t) room (m(k \<mapsto> v))"
    using ft.assign_top [OF inv, of k v] c by (auto simp: map_table_def st)
  show "m k \<noteq> None \<Longrightarrow> map_table cap (snd (fh_Remove FastHash_Hash_addr k t)) (room + 1) (m(k := None))"
    using ft.remove_some [OF inv, of k] c by (auto simp: map_table_def st)
  show "m k = None \<Longrightarrow> 0 < room \<Longrightarrow> fst (fh_Insert FastHash_Hash_addr k v t) = 1 \<and>
       map_table cap (snd (fh_Insert FastHash_Hash_addr k v t)) (room - 1) (m(k \<mapsto> v))"
    using ft.insert_room [OF inv, of k v] c by (auto simp: map_table_def st)
  show "room = 0 \<Longrightarrow> fh_Insert FastHash_Hash_addr k v t = (-1, t)"
    using ft.insert_full [OF inv, of k v] c by simp
  show "map_table cap (fh_Reset t) cap Map.empty"
    using fh_Reset_inv [OF inv] c by (simp add: map_table_def fh_room_def)
qed

definition rate_step :: "int \<times> CSocketAddress \<Rightarrow> RateLimiter \<Rightarrow> bool \<times> RateLimiter" where
  "rate_step req rl = RateLimiter_RateCheck (fst req) (snd req) rl"

definition request_key :: "int \<times> CSocketAddress \<Rightarrow> int \<times> RateTrackerAddress" where
  "request_key req = (fst req, RateTrackerAddress_of (snd req))"

lemma RateCheck_lock:
  "fst (RateLimiter_RateCheck now addr rl) = fst (RateLimiter_RateCheckImpl now addr rl)"
  "rl_table (snd (RateLimiter_RateCheck now addr rl)) = rl_table (snd (RateLimiter_RateCheckImpl now addr rl))"
  "\<not> rl_mutex rl \<Longrightarrow> \<not> rl_mutex (snd (RateLimiter_RateCheck now addr rl))"
proof -
  have t: "RateLimiter_RateCheckImpl now addr (rl\<lparr>rl_mutex := b\<rparr>) =
      map_prod id (\<lambda>r. r\<lparr>rl_mutex := b\<rparr>) (RateLimiter_RateCheckImpl now addr rl)" for b
    by (simp add: RateLimiter_RateCheckImpl_def Let_def split: option.splits prod.splits)
  have l: "rl_isUsingLock (snd (RateLimiter_RateCheckImpl now addr rl)) = rl_isUsingLock rl"
    "rl_mutex (snd (RateLimiter_RateCheckImpl now addr rl)) = rl_mutex rl"
    by (simp_all add: RateLimiter_RateCheckImpl_def Let_def split: option.splits prod.splits)
  show "fst (RateLimiter_RateCheck now addr rl) = fst (RateLimiter_RateCheckImpl now addr rl)"
    "rl_table (snd (RateLimiter_RateCheck now addr rl)) = rl_table (snd (RateLimiter_RateCheckImpl now addr rl))"
    "\<not> rl_mutex rl \<Longrightarrow> \<not> rl_mutex (snd (RateLimiter_RateCheck now addr rl))"
    by (simp_all add: RateLimiter_RateCheck_def t l Let_def case_prod_beta)
qed

lemma RateCheckImpl_map_table:
  assumes t: "map_table cap (rl_table rl) room m" and cap: "0 < cap"
  shows "fst (RateLimiter_RateCheckImpl now addr rl) = fst (limiter_step cap (now, RateTrackerAddress_of addr) (room, m))"
    "map_table cap (rl_table (snd (RateLimiter_RateCheckImpl now addr rl)))
      (fst (snd (limiter_step cap (now, RateTrackerAddress_of addr) (room, m))))
      (snd (snd (limiter_step cap (now, RateTrackerAddress_of addr) (room, m))))"
proof -
  let ?k = "RateTrackerAddress_of addr" and ?h = FastHash_Hash_addr
  note o = map_table_ops [OF t] and r = map_table_ops(3) [OF map_table_ops(5) [OF t], of ?k, OF refl cap]
  have look: "rl_Lookup ?k rl = m ?k" by (rule map_table_lookup [OF t])
  have "fst (RateLimiter_RateCheckImpl now addr rl) = fst (limiter_step cap (now, ?k) (room, m)) \<and>
    map_table cap (rl_table (snd (RateLimiter_RateCheckImpl now addr rl)))
      (fst (snd (limiter_step cap (now, ?k) (room, m)))) (snd (snd (limiter_step cap (now, ?k) (room, m))))"
  proof (cases "m ?k")
    case None
    have f: "\<lparr>rt_count = 1, rt_firstEntryTime = now, rt_lastEntryTime = now, rt_penaltyTime = 0\<rparr> = tracker_fresh now"
      by (simp add: tracker_fresh_def)
    show ?thesis
      using o(3) [OF None, of "tracker_fresh now"] o(4) r [of "tracker_fresh now"]
      by (cases "room = 0") (simp_all add: RateLimiter_RateCheckImpl_def look None f Let_def case_prod_beta)
  next
    case (Some rt)
    then have n: "m ?k \<noteq> None" by simp
    have rem: "map_table cap (snd (fh_Remove ?h ?k (fh_Assign ?h ?k v (rl_table rl)))) (room + 1) (m(?k := None))" for v
      using map_table_ops(2) [OF o(1) [OF n, of v], of ?k] by simp
    show ?thesis
      using o(1) [OF n] rem
      by (simp add: RateLimiter_RateCheckImpl_def look Some tracker_step_def Let_def not_le [symmetric])
  qed
  then show "fst (RateLimiter_RateCheckImpl now addr rl) = fst (limiter_step cap (now, ?k) (room, m))"
    "map_table cap (rl_table (snd (RateLimiter_RateCheckImpl now addr rl)))
      (fst (snd (limiter_step cap (now, ?k) (room, m)))) (snd (snd (limiter_step cap (now, ?k) (room, m))))"
    by simp_all
qed

lemma rate_step_abs:
  assumes "rl_abs cap rl a"
  shows "fst (rate_step req rl) = fst (limiter_step cap (request_key req) a) \<and>
    rl_abs cap (snd (rate_step req rl)) (snd (limiter_step cap (request_key req) a))"
proof -
  obtain room m where a: "a = (room, m)" by (cases a)
  have t: "map_table cap (rl_table rl) room m" "0 < cap" "\<not> rl_mutex rl" using assms by (simp_all add: a rl_abs_map_table)
  obtain x room' m' where l: "limiter_step cap (fst req, RateTrackerAddress_of (snd req)) (room, m) = (x, room', m')"
    by (metis prod.collapse)
  show ?thesis
    using RateCheckImpl_map_table [OF t(1,2), of "fst req" "snd req"] t(2) RateCheck_lock(3) [OF t(3)]
    by (simp add: rate_step_def RateCheck_lock(1,2) a request_key_def l rl_abs_map_table del: limiter_step.simps)
qed

text \<open>
  C16: the limiter is a map of counters. For every sequence of checks on a new limiter with a table
  of any size, every answer is that of the abstract limiter, a map from addresses to entries with
  room for a number of them, in which a check changes the entry of its own address only, except
  that the whole map is dropped when a new address finds it full.
\<close>

theorem rate_limiter_refines_map:
  assumes "0 < n"
  shows "fst (run rate_step reqs (RateLimiter_new n lock)) =
    fst (run (\<lambda>req. limiter_step n (request_key req)) reqs (n, Map.empty))"
  using run_simulation [of "rl_abs n" rate_step "\<lambda>req. limiter_step n (request_key req)", OF rate_step_abs
      rl_abs_new [OF assms], of reqs] by simp

theorem rate_limiter_refines_map_witness:
  "fst (run rate_step [(5, CSocketAddress_zero), (6, CSocketAddress_zero)] (RateLimiter_new 4 True)) = [True, True]"
proof -
  let ?k = "RateTrackerAddress_of CSocketAddress_zero"
  have s: "tracker_step 6 (tracker_fresh 5) = (True, Some (tracker_fresh 5\<lparr>rt_count := 2, rt_lastEntryTime := 6\<rparr>))"
    by (simp add: tracker_step_def tracker_fresh_def RateLimiter_get_rate_def rate_defs Let_def)
  show ?thesis
    using rate_limiter_refines_map [of 4 "[(5, CSocketAddress_zero), (6, CSocketAddress_zero)]" True]
    by (simp add: request_key_def s)
qed

subsection \<open>Each address on its own\<close>

text \<open>The limiter of a single address: its entry and nothing else.\<close>

fun single_step :: "int \<Rightarrow> RateTracker option \<Rightarrow> bool \<times> RateTracker option" where
  "single_step now None = (True, Some (tracker_fresh now))"
| "single_step now (Some rt) = tracker_step now rt"

lemma limiter_step_single:
  assumes "0 < room"
  shows "fst (limiter_step cap (now, k) (room, m)) = fst (single_step now (m k))"
    "snd (snd (limiter_step cap (now, k) (room, m))) = m(k := snd (single_step now (m k)))"
    "room - 1 \<le> fst (snd (limiter_step cap (now, k) (room, m)))"
proof -
  have "fst (limiter_step cap (now, k) (room, m)) = fst (single_step now (m k)) \<and>
    snd (snd (limiter_step cap (now, k) (room, m))) = m(k := snd (single_step now (m k))) \<and>
    room - 1 \<le> fst (snd (limiter_step cap (now, k) (room, m)))"
  proof (cases "m k")
    case (Some rt)
    obtain ok e where "tracker_step now rt = (ok, e)" by (cases "tracker_step now rt")
    with Some show ?thesis by (cases e) auto
  qed (use assms in simp)
  then show "fst (limiter_step cap (now, k) (room, m)) = fst (single_step now (m k))"
    "snd (snd (limiter_step cap (now, k) (room, m))) = m(k := snd (single_step now (m k)))"
    "room - 1 \<le> fst (snd (limiter_step cap (now, k) (room, m)))" by simp_all
qed

text \<open>The answers of a run that concern one key, and the times at which it was asked about.\<close>

definition answers_of :: "RateTrackerAddress \<Rightarrow> (int \<times> CSocketAddress) list \<Rightarrow> bool list \<Rightarrow> bool list" where
  "answers_of k reqs xs = map snd (filter (\<lambda>rx. RateTrackerAddress_of (snd (fst rx)) = k) (zip reqs xs))"

definition times_of :: "RateTrackerAddress \<Rightarrow> (int \<times> CSocketAddress) list \<Rightarrow> int list" where
  "times_of k reqs = map fst (filter (\<lambda>r. RateTrackerAddress_of (snd r) = k) reqs)"

lemma answers_of_simps [simp]:
  "answers_of k [] xs = []"
  "answers_of k (r # rs) (x # xs) = (if RateTrackerAddress_of (snd r) = k then [x] else []) @ answers_of k rs xs"
  "times_of k [] = []"
  "times_of k (r # rs) = (if RateTrackerAddress_of (snd r) = k then [fst r] else []) @ times_of k rs"
  by (simp_all add: answers_of_def times_of_def)

lemma limiter_run_single:
  assumes "length reqs \<le> room"
  shows "answers_of k reqs (fst (run (\<lambda>req. limiter_step cap (request_key req)) reqs (room, m))) =
      fst (run single_step (times_of k reqs) (m k)) \<and>
    snd (snd (run (\<lambda>req. limiter_step cap (request_key req)) reqs (room, m))) k =
      snd (run single_step (times_of k reqs) (m k))"
  using assms
proof (induction reqs arbitrary: room m)
  case (Cons r reqs)
  let ?k = "RateTrackerAddress_of (snd r)"
  obtain x room' m' where l: "limiter_step cap (fst r, ?k) (room, m) = (x, room', m')" by (metis prod.collapse)
  have room: "0 < room" "length reqs \<le> room - 1" using Cons.prems by auto
  from limiter_step_single [OF room(1), of cap "fst r" ?k m] l
  have s: "x = fst (single_step (fst r) (m ?k))" "m' = m(?k := snd (single_step (fst r) (m ?k)))" "room - 1 \<le> room'"
    by simp_all
  have ih: "answers_of k reqs (fst (run (\<lambda>req. limiter_step cap (request_key req)) reqs (room', m'))) =
      fst (run single_step (times_of k reqs) (m' k)) \<and>
    snd (snd (run (\<lambda>req. limiter_step cap (request_key req)) reqs (room', m'))) k =
      snd (run single_step (times_of k reqs) (m' k))"
    by (rule Cons.IH) (use room s(3) in linarith)
  show ?case
  proof (cases "?k = k")
    case True
    then show ?thesis using ih l s(1,2) by (simp add: request_key_def Let_def case_prod_beta del: limiter_step.simps)
  next
    case False
    then show ?thesis using ih s(2) by (simp add: request_key_def l Let_def case_prod_beta del: limiter_step.simps)
  qed
qed simp

lemma rate_run_single:
  assumes "0 < n" "length reqs \<le> n"
  shows "answers_of k reqs (fst (run rate_step reqs (RateLimiter_new n lock))) =
      fst (run single_step (times_of k reqs) None)"
    "rl_Lookup k (snd (run rate_step reqs (RateLimiter_new n lock))) = snd (run single_step (times_of k reqs) None)"
proof -
  have s: "fst (run rate_step reqs (RateLimiter_new n lock)) =
      fst (run (\<lambda>req. limiter_step n (request_key req)) reqs (n, Map.empty)) \<and>
    rl_abs n (snd (run rate_step reqs (RateLimiter_new n lock)))
      (snd (run (\<lambda>req. limiter_step n (request_key req)) reqs (n, Map.empty)))"
    by (rule run_simulation [of "rl_abs n" rate_step "\<lambda>req. limiter_step n (request_key req)", OF rate_step_abs
      rl_abs_new [OF assms(1)]])
  show "answers_of k reqs (fst (run rate_step reqs (RateLimiter_new n lock))) =
      fst (run single_step (times_of k reqs) None)"
    using s limiter_run_single [OF assms(2), of k n Map.empty] by simp
  show "rl_Lookup k (snd (run rate_step reqs (RateLimiter_new n lock))) = snd (run single_step (times_of k reqs) None)"
    using s limiter_run_single [OF assms(2), of k n Map.empty] by (auto simp: rl_abs_def)
qed

text \<open>
  C18: addresses do not affect each other. In any run of at most as many checks as the table has
  entries, the answers given to an address are those it would get from a limiter of its own, at
  the times at which it was checked.
\<close>

theorem rate_limit_isolated:
  assumes "0 < n" "length reqs \<le> n"
  shows "answers_of k reqs (fst (run rate_step reqs (RateLimiter_new n lock))) =
    fst (run single_step (times_of k reqs) None)"
  by (rule rate_run_single [OF assms])

theorem rate_limit_isolated_witness:
  "answers_of (RateTrackerAddress_of CSocketAddress_zero) [(5, CSocketAddress_zero)]
    (fst (run rate_step [(5, CSocketAddress_zero)] (RateLimiter_new 4 True))) = [True]"
  using rate_limit_isolated [of 4 "[(5, CSocketAddress_zero)]" "RateTrackerAddress_of CSocketAddress_zero" True] by simp

subsection \<open>Slow clients, floods and penalties\<close>

lemma get_rate_low: "rt_count rt < 60 \<Longrightarrow> RateLimiter_get_rate rt = 0"
  by (simp add: RateLimiter_get_rate_def rate_defs)

text \<open>An entry that has seen \<open>n\<close> checks and was never punished.\<close>

definition innocent :: "nat \<Rightarrow> RateTracker option \<Rightarrow> bool" where
  "innocent n e \<longleftrightarrow> (case e of None \<Rightarrow> True | Some rt \<Rightarrow> unat (rt_count rt) \<le> n \<and> rt_penaltyTime rt = 0)"

lemma single_step_innocent:
  assumes "innocent n e" "n < 59"
  shows "fst (single_step now e) \<and> innocent (n + 1) (snd (single_step now e))"
proof (cases e)
  case None
  then show ?thesis by (simp add: innocent_def tracker_fresh_def)
next
  case (Some rt)
  then have c: "unat (rt_count rt) < 59" "rt_penaltyTime rt = 0" using assms by (simp_all add: innocent_def)
  then have u: "unat (rt_count rt + 1) = unat (rt_count rt) + 1" by (simp add: unat_word_ariths)
  then have "rt_count rt + 1 < 60" using c by (simp add: word_less_nat_alt)
  then have "\<not> MAX_RATE \<le> RateLimiter_get_rate (rt\<lparr>rt_count := rt_count rt + 1, rt_lastEntryTime := now\<rparr>)"
    by (simp add: get_rate_low rate_defs)
  then show ?thesis using c u assms by (auto simp: Some tracker_step_def innocent_def Let_def)
qed

lemma single_run_innocent:
  assumes "innocent n e" "n + length ts < 60"
  shows "fst (run single_step ts e) = replicate (length ts) True \<and> innocent (n + length ts) (snd (run single_step ts e))"
  using assms
proof (induction ts arbitrary: n e)
  case (Cons t ts)
  have s: "fst (single_step t e)" "innocent (n + 1) (snd (single_step t e))"
    using single_step_innocent [OF Cons.prems(1), of t] Cons.prems(2) by simp_all
  from Cons.IH [OF s(2)] Cons.prems(2) s(1) show ?case by (simp add: Let_def case_prod_beta)
qed simp

text \<open>
  Slow clients are never refused. As long as an address was checked fewer than 60 times (and
  the table has room for all requests), every answer to it is yes, whatever the others do.
\<close>

theorem slow_client_passes:
  assumes "0 < n" "length reqs \<le> n" "length (times_of k reqs) < 60"
  shows "answers_of k reqs (fst (run rate_step reqs (RateLimiter_new n lock))) = replicate (length (times_of k reqs)) True"
  using rate_run_single(1) [OF assms(1,2)] single_run_innocent [of 0 None "times_of k reqs"] assms(3)
  by (simp add: innocent_def)

theorem slow_client_passes_witness:
  "answers_of (RateTrackerAddress_of CSocketAddress_zero) [(5, CSocketAddress_zero), (5, CSocketAddress_zero)]
    (fst (run rate_step [(5, CSocketAddress_zero), (5, CSocketAddress_zero)] (RateLimiter_new 4 True))) = [True, True]"
  using slow_client_passes [of 4 "[(5, CSocketAddress_zero), (5, CSocketAddress_zero)]"
      "RateTrackerAddress_of CSocketAddress_zero" True] by (simp add: numeral_eq_Suc)










end
