(* ===== verification/StringHelper.thy ===== *)
theory StringHelper
  imports Prelude
begin

text \<open>
  Strings: the part of the C library the program uses for them, and \<^verbatim>\<open>common/stringhelper.cpp\<close>. A
  \<^verbatim>\<open>std::string\<close> is a list of characters; what \<^verbatim>\<open>c_str()\<close> points to ends at its first zero character.
\<close>

subsection \<open>C strings\<close>

definition bytes_of :: "string \<Rightarrow> u8 list" where
  "bytes_of s = map of_char s"

text \<open>
  \<^verbatim>\<open>atoi\<close>: white space, a sign, decimal digits. The library clamps the number to a \<^verbatim>\<open>long\<close> of 64 bits
  and converts it to an \<^verbatim>\<open>int\<close> of 32.
\<close>

fun digits_value :: "int \<Rightarrow> u8 list \<Rightarrow> int" where
  "digits_value acc [] = acc"
| "digits_value acc (b # bs) = (if 48 \<le> b \<and> b \<le> 57 then digits_value (10 * acc + (uint b - 48)) bs else acc)"

definition is_space :: "u8 \<Rightarrow> bool" where
  "is_space b \<longleftrightarrow> b = 32 \<or> (9 \<le> b \<and> b \<le> 13)"

definition atoi :: "u8 list \<Rightarrow> int" where
  "atoi s =
     (let s = dropWhile is_space s;
          n = (case s of
                 [] \<Rightarrow> 0
               | b # bs \<Rightarrow> if b = 45 then - digits_value 0 bs
                           else if b = 43 then digits_value 0 bs else digits_value 0 (b # bs));
          n = max (- (2 ^ 63)) (min (2 ^ 63 - 1) n)
      in sint (word_of_int n :: 32 word))"

text \<open>A \<^verbatim>\<open>char*\<close> that is not null is given by the characters before the terminating zero.\<close>

definition cstring :: "string \<Rightarrow> string" where
  "cstring s = takeWhile (\<lambda>ch. ch \<noteq> CHR 0x00) s"

subsection \<open>The helper functions\<close>

definition ISWHITESPACE :: "char \<Rightarrow> bool" where
  "ISWHITESPACE ch \<longleftrightarrow> (of_char ch \<ge> (9 :: nat) \<and> of_char ch \<le> (0xd :: nat)) \<or> ch = CHR '' ''"

definition StringHelper_IsNullOrEmpty :: "string option \<Rightarrow> bool" where
  "StringHelper_IsNullOrEmpty psz \<longleftrightarrow> (case psz of None \<Rightarrow> True | Some s \<Rightarrow> cstring s = [])"

definition StringHelper_ToLower :: "string \<Rightarrow> string" where
  "StringHelper_ToLower str =
     (if length str = 0 then str
      else map (\<lambda>ch. if of_char ch \<ge> (of_char CHR ''A'' :: nat) \<and> of_char ch \<le> (of_char CHR ''Z'' :: nat)
                     then char_of (of_char ch + 32 :: nat) else ch) str)"

text \<open>The positions of the first and of the last character that is no white space, -1 if there is none.\<close>

fun StringHelper_Trim_loop :: "string \<Rightarrow> int \<Rightarrow> int \<Rightarrow> int \<Rightarrow> int \<times> int" where
  "StringHelper_Trim_loop [] index start end' = (start, end')"
| "StringHelper_Trim_loop (ch # psz) index start end' =
     (if ISWHITESPACE ch then StringHelper_Trim_loop psz (index + 1) start end'
      else if start = -1 then StringHelper_Trim_loop psz (index + 1) index index
      else StringHelper_Trim_loop psz (index + 1) start index)"

definition StringHelper_Trim :: "string \<Rightarrow> string" where
  "StringHelper_Trim str =
     (case StringHelper_Trim_loop str 0 (-1) (-1) of
        (start, end') \<Rightarrow> if start \<noteq> -1 then take (nat (end' - start + 1)) (drop (nat start) str) else str)"

text \<open>The second component is \<^verbatim>\<open>*pnResult\<close>, which has the old value \<open>nResult\<close>.\<close>

definition StringHelper_ValidateNumberString :: "string option \<Rightarrow> int \<Rightarrow> int \<Rightarrow> int \<Rightarrow> int \<times> int" where
  "StringHelper_ValidateNumberString psz nMinValue nMaxValue nResult =
     (if StringHelper_IsNullOrEmpty psz then (-1, nResult)
      else
        (let nVal = atoi (bytes_of (cstring (the psz)))
         in if nVal < nMinValue then (-1, nResult)
            else if nVal > nMaxValue then (-1, nResult)
            else (0, nVal)))"

subsection \<open>Their properties\<close>

text \<open>A string without the white space around it.\<close>

definition strip :: "string \<Rightarrow> string" where
  "strip s = rev (dropWhile ISWHITESPACE (rev (dropWhile ISWHITESPACE s)))"

lemma Trim_loop_from:
  assumes "0 \<le> start" "start \<le> end'" "end' < index"
  shows "StringHelper_Trim_loop s index start end' =
    (start, if \<exists>c \<in> set s. \<not> ISWHITESPACE c then index + int (length (rev (dropWhile ISWHITESPACE (rev s)))) - 1 else end')"
  using assms
proof (induction s arbitrary: index end')
  case (Cons c s)
  show ?case
  proof (cases "\<exists>c \<in> set s. \<not> ISWHITESPACE c")
    case True
    then show ?thesis using Cons.IH [of end' "index + 1"] Cons.IH [of index "index + 1"] Cons.prems
      by (auto simp: dropWhile_append)
  next
    case False
    then have "dropWhile ISWHITESPACE (rev s) = []" by (simp add: dropWhile_eq_Nil_conv)
    then show ?thesis using Cons.IH [of end' "index + 1"] Cons.IH [of index "index + 1"] Cons.prems False
      by (auto simp: dropWhile_append)
  qed
qed simp

lemma Trim_loop_skip:
  "\<exists>c \<in> set s. \<not> ISWHITESPACE c \<Longrightarrow> 0 \<le> index \<Longrightarrow>
    StringHelper_Trim_loop s index (-1) (-1) =
      (index + int (length (takeWhile ISWHITESPACE s)), index + int (length (takeWhile ISWHITESPACE s)) + int (length (strip s)) - 1)"
proof (induction s arbitrary: index)
  case (Cons c s)
  show ?case
  proof (cases "ISWHITESPACE c")
    case True
    then show ?thesis using Cons.IH [of "index + 1"] Cons.prems by (simp add: strip_def)
  next
    case False
    then show ?thesis using Trim_loop_from [of index index "index + 1" s] Cons.prems
      by (cases "\<exists>c \<in> set s. \<not> ISWHITESPACE c") (auto simp: strip_def dropWhile_append dropWhile_eq_Nil_conv)
  qed
qed simp

lemma Trim_loop_blank: "\<forall>c \<in> set s. ISWHITESPACE c \<Longrightarrow> StringHelper_Trim_loop s index start end' = (start, end')"
  by (induction s arbitrary: index) auto

lemma strip_take: "strip s = take (length (strip s)) (dropWhile ISWHITESPACE s)"
proof -
  have "rev (dropWhile ISWHITESPACE (rev xs)) = take (length (dropWhile ISWHITESPACE (rev xs))) xs" for xs
    by (induction xs rule: rev_induct) (auto, metis length_dropWhile_le length_rev)
  from this [of "dropWhile ISWHITESPACE s"] show ?thesis unfolding strip_def length_rev .
qed

lemma Trim_strip:
  "StringHelper_Trim s = (if \<exists>c \<in> set s. \<not> ISWHITESPACE c then strip s else s)"
proof (cases "\<exists>c \<in> set s. \<not> ISWHITESPACE c")
  case True
  have "drop (length (takeWhile ISWHITESPACE s)) s = dropWhile ISWHITESPACE s" by (simp add: dropWhile_eq_drop)
  then show ?thesis using Trim_loop_skip [OF True, of 0] True strip_take [of s] by (simp add: StringHelper_Trim_def)
next
  case False
  then show ?thesis using Trim_loop_blank [of s] by (simp add: StringHelper_Trim_def)
qed

lemma ValidateNumber_ok:
  "fst (StringHelper_ValidateNumberString psz lo hi n) = 0 \<longleftrightarrow>
     \<not> StringHelper_IsNullOrEmpty psz \<and> lo \<le> atoi (bytes_of (cstring (the psz))) \<and> atoi (bytes_of (cstring (the psz))) \<le> hi"
  "lo \<le> n \<Longrightarrow> n \<le> hi \<Longrightarrow> snd (StringHelper_ValidateNumberString psz lo hi n) \<in> {lo..hi}"
  "fst (StringHelper_ValidateNumberString psz lo hi n) \<in> {0, -1}"
  by (auto simp: StringHelper_ValidateNumberString_def Let_def)

end
