(* ===== verification/SampleAuth.thy ===== *)
theory SampleAuth
  imports Transaction StringHelper
begin

text \<open>
  The sample authentication providers (\<^verbatim>\<open>server/sampleauthprovider.cpp\<close>): short-term credentials,
  and long-term credentials with a time-stamped nonce. HMAC-SHA1 is the argument \<open>hmac\<close> (key, then
  text), each reading of the clock is an argument.
\<close>

subsection \<open>The providers\<close>

definition c_szPrivateKey :: "u8 list" where
  "c_szPrivateKey = bytes_of ''Change this string if you are going to use this code''"

definition c_szRealm :: "u8 list" where
  "c_szRealm = bytes_of ''YourRealmNameHere''"

definition auth_users :: "(u8 list \<times> u8 list) list" where
  "auth_users = [(bytes_of ''bruce'', bytes_of ''AcesHigh''), (bytes_of ''steve'', bytes_of ''2MinToMid''),
     (bytes_of ''nicko'', bytes_of ''fearofthedark!''), (bytes_of ''dave'', bytes_of ''#ofthebeast''),
     (bytes_of ''adrian'', bytes_of ''Run2TheHills'')]"

fun LookupPassword_loop :: "u8 list \<Rightarrow> u8 list \<Rightarrow> (u8 list \<times> u8 list) list \<Rightarrow> HRESULT \<times> u8 list" where
  "LookupPassword_loop pszUserName pszPassword [] = (E_FAIL, pszPassword)"
| "LookupPassword_loop pszUserName pszPassword ((user, password) # rest) =
     (if c_str pszUserName \<noteq> user then LookupPassword_loop pszUserName pszPassword rest
      else (S_OK, strcpy_to pszPassword password))"

definition LookupPassword ::
  "bool \<Rightarrow> u8 list option \<Rightarrow> u8 list option \<Rightarrow> u8 list \<Rightarrow> HRESULT \<times> u8 list" where
  "LookupPassword fWithRealm pszUserName pszRealm pszPassword =
     (if fWithRealm \<and> (case pszRealm of None \<Rightarrow> True | Some realm \<Rightarrow> c_str realm \<noteq> c_szRealm)
      then (E_FAIL, pszPassword)
      else
        (case pszUserName of
           None \<Rightarrow> (E_FAIL, pszPassword)
         | Some user \<Rightarrow> LookupPassword_loop user pszPassword auth_users))"

definition ShortTerm_DoAuthCheck :: IStunAuth where
  "ShortTerm_DoAuthCheck pAuthAttributes pResponse =
     (let pResponse = pResponse\<lparr>ar_authCredMech := AuthCredShortTerm\<rparr>
      in if aa_fMessageIntegrityPresent pAuthAttributes = False
         then (S_OK, pAuthAttributes, pResponse\<lparr>ar_responseType := Reject\<rparr>)
         else
           (case LookupPassword False (Some (aa_szUser pAuthAttributes)) None (ar_szPassword pResponse) of
              (hr, szPassword) \<Rightarrow>
                (let pResponse = pResponse\<lparr>ar_szPassword := szPassword\<rparr>
                 in if SUCCEEDED hr
                    then (S_OK, pAuthAttributes, pResponse\<lparr>ar_responseType := AllowConditional\<rparr>)
                    else (S_OK, pAuthAttributes, pResponse\<lparr>ar_responseType := Unauthorized\<rparr>))))"

text \<open>\<^verbatim>\<open>%.2x\<close> of each of the twenty bytes, and the terminator.\<close>

definition hex_digit :: "nat \<Rightarrow> u8" where
  "hex_digit n = (if n < 10 then of_nat (48 + n) else of_nat (87 + n))"

definition LongTerm_HmacToString :: "u8 list \<Rightarrow> u8 list" where
  "LongTerm_HmacToString hmacresult =
     concat (map (\<lambda>b. [hex_digit (unat b div 16), hex_digit (unat b mod 16)]) (take 20 hmacresult))"

definition LongTerm_CreateNonce :: "(u8 list \<Rightarrow> u8 list \<Rightarrow> u8 list) \<Rightarrow> int \<Rightarrow> u8 list \<Rightarrow> HRESULT \<times> u8 list" where
  "LongTerm_CreateNonce hmac thetime pszNonce =
     (let szTime = bytes_of (dec_str (nat (thetime mod 2 ^ 32))) @ [58];
          szHMAC = LongTerm_HmacToString (hmac c_szPrivateKey szTime)
      in (S_OK, strcpy_to pszNonce (szTime @ szHMAC)))"

text \<open>The nonce is copied, cut at its first colon, and its halves are checked.\<close>

definition LongTerm_ValidateNonce :: "(u8 list \<Rightarrow> u8 list \<Rightarrow> u8 list) \<Rightarrow> int \<Rightarrow> u8 list \<Rightarrow> HRESULT" where
  "LongTerm_ValidateNonce hmac thecurrenttime pszNonce =
     (let szNonce = take 99 (c_str pszNonce)
      in if 58 \<notin> set szNonce then E_FAIL
         else
           (let szLeft = takeWhile (\<lambda>b. b \<noteq> 58) szNonce;
                pRightHalf = tl (dropWhile (\<lambda>b. b \<noteq> 58) szNonce);
                thetime = atoi szLeft;
                diff = thecurrenttime - thetime
            in if thecurrenttime - thetime > 120 \<or> diff < 0 then E_FAIL
               else if LongTerm_HmacToString (hmac c_szPrivateKey szLeft) \<noteq> pRightHalf then E_FAIL
               else S_OK))"

definition LongTerm_DoAuthCheck :: "(u8 list \<Rightarrow> u8 list \<Rightarrow> u8 list) \<Rightarrow> int \<Rightarrow> int \<Rightarrow> IStunAuth" where
  "LongTerm_DoAuthCheck hmac timeCreate timeValidate pAuthAttributes pResponse =
     (let pResponse = pResponse\<lparr>ar_authCredMech := AuthCredLongTerm\<rparr>;
          pResponse = pResponse\<lparr>ar_szNonce := snd (LongTerm_CreateNonce hmac timeCreate (ar_szNonce pResponse))\<rparr>;
          pResponse = pResponse\<lparr>ar_szRealm := strcpy_to (ar_szRealm pResponse) c_szRealm\<rparr>
      in if aa_fMessageIntegrityPresent pAuthAttributes = False \<or> c_str (aa_szNonce pAuthAttributes) = [] \<or>
            c_str (aa_szUser pAuthAttributes) = []
         then (S_OK, pAuthAttributes, pResponse\<lparr>ar_responseType := Unauthorized\<rparr>)
         else
           (case LookupPassword True (Some (aa_szUser pAuthAttributes)) (Some (aa_szNonce pAuthAttributes))
                   (ar_szPassword pResponse) of
              (hr, szPassword) \<Rightarrow>
                (let pResponse = pResponse\<lparr>ar_szPassword := szPassword\<rparr>
                 in if FAILED hr then (S_OK, pAuthAttributes, pResponse\<lparr>ar_responseType := Unauthorized\<rparr>)
                    else if FAILED (LongTerm_ValidateNonce hmac timeValidate (aa_szNonce pAuthAttributes))
                    then (S_OK, pAuthAttributes, pResponse\<lparr>ar_responseType := StaleNonce\<rparr>)
                    else (S_OK, pAuthAttributes, pResponse\<lparr>ar_responseType := AllowConditional\<rparr>))))"

subsection \<open>Digits\<close>

definition digits :: "u8 list \<Rightarrow> bool" where
  "digits bs \<longleftrightarrow> (\<forall>b \<in> set bs. 48 \<le> b \<and> b \<le> 57)"

lemma bytes_of_simps [simp]: "bytes_of [] = []" "bytes_of (c # cs) = of_char c # bytes_of cs"
    "bytes_of (xs @ ys) = bytes_of xs @ bytes_of ys"
  by (simp_all add: bytes_of_def)

lemma digits_simps [simp]: "digits []" "digits (b # bs) \<longleftrightarrow> 48 \<le> b \<and> b \<le> 57 \<and> digits bs"
    "digits (xs @ ys) \<longleftrightarrow> digits xs \<and> digits ys"
  by (auto simp: digits_def)

lemma digits_value_append: "digits xs \<Longrightarrow> digits_value acc (xs @ ys) = digits_value (digits_value acc xs) ys"
  by (induction xs arbitrary: acc) simp_all

lemma of_char_digit: "n < 10 \<Longrightarrow> (of_char (char_of (48 + n :: nat)) :: u8) = of_nat (48 + n)"
proof -
  assume "n < 10"
  then have "48 + n < 256" by simp
  then have "of_char (char_of (48 + n)) = 48 + n" by (simp add: of_char_of)
  then show ?thesis by (metis of_nat_of_char)
qed

lemma digit_word:
  assumes "n < 10"
  shows "48 \<le> (of_nat (48 + n) :: u8) \<and> (of_nat (48 + n) :: u8) \<le> 57 \<and> uint (of_nat (48 + n) :: u8) = 48 + int n"
proof -
  have "unat (of_nat (48 + n) :: u8) = 48 + n" by (rule of_nat_inverse [OF refl]) (use assms in simp)
  then show ?thesis using assms by (simp add: word_le_nat_alt uint_nat del: of_nat_add)
qed

lemma dec_str_step:
  "\<not> n < 10 \<Longrightarrow> bytes_of (dec_str n) = bytes_of (dec_str (n div 10)) @ [of_nat (48 + n mod 10)]"
  "n < 10 \<Longrightarrow> bytes_of (dec_str n) = [of_nat (48 + n)]"
proof -
  have m: "n mod 10 < 10" by simp
  show "bytes_of (dec_str n) = bytes_of (dec_str (n div 10)) @ [of_nat (48 + n mod 10)]" if "\<not> n < 10"
    unfolding dec_str.simps [of n] if_not_P [OF that] bytes_of_simps of_char_digit [OF m] ..
  show "bytes_of (dec_str n) = [of_nat (48 + n)]" if "n < 10"
    unfolding dec_str.simps [of n] if_P [OF that] bytes_of_simps of_char_digit [OF that] ..
qed

lemma dec_str_digits: "digits (bytes_of (dec_str n)) \<and> digits_value 0 (bytes_of (dec_str n)) = int n"
proof (induction n rule: dec_str.induct)
  case (1 n)
  show ?case
  proof (cases "n < 10")
    case True
    then show ?thesis using digit_word [OF True] by (simp only: dec_str_step digits_simps digits_value.simps) simp
  next
    case False
    have m: "n mod 10 < 10" by simp
    have "10 * int (n div 10) + int (n mod 10) = int n" by presburger
    then show ?thesis using 1 [OF False] digit_word [OF m]
      by (simp only: dec_str_step(1) [OF False] digits_simps digits_value_append digits_value.simps) simp
  qed
qed

lemma dec_str_nonempty: "bytes_of (dec_str n) \<noteq> []"
  using dec_str_step [of n] by (cases "n < 10") (simp_all del: of_nat_add)

lemma dec_str_length: "length (dec_str n) \<le> k" if "n < 10 ^ k" "0 < k"
  using that
proof (induction k arbitrary: n)
  case (Suc k)
  show ?case
  proof (cases "n < 10")
    case True
    then show ?thesis by (simp add: dec_str.simps [of n])
  next
    case False
    then have "0 < k" using Suc.prems(1) by (cases k) auto
    moreover have "n div 10 < 10 ^ k" using Suc.prems(1) by (simp add: less_mult_imp_div_less mult.commute)
    ultimately show ?thesis using Suc.IH [of "n div 10"] False by (simp add: dec_str.simps [of n])
  qed
qed simp

lemma atoi_digits:
  assumes "digits s" "s \<noteq> []" "digits_value 0 s = n" "0 \<le> n" "n < 2 ^ 31"
  shows "atoi s = n"
proof -
  obtain b bs where s: "s = b # bs" using assms(2) by (cases s) auto
  have b: "48 \<le> b" "b \<le> 57" using assms(1) by (simp_all add: s)
  then have sp: "\<not> is_space b" "b \<noteq> 45" "b \<noteq> 43" by (auto simp: is_space_def word_le_nat_alt)
  have "sint (word_of_int n :: 32 word) = n"
    using assms(4,5) by (simp add: sint_sbintrunc' signed_take_bit_int_eq_self)
  then show ?thesis using assms(3-5) sp by (simp add: atoi_def s Let_def)
qed

end
