(* ===== verification/AuthTheorems.thy ===== *)
theory AuthTheorems
  imports SampleAuth Examples
begin

text \<open>
  What the sample providers admit: with short-term credentials exactly the users that know their
  password; with long-term credentials nobody, and a nonce that is never accepted again.
\<close>

section \<open>The nonce\<close>

lemma hex_digit_unat:
  assumes "n < 16"
  shows "unat (hex_digit n) = (if n < 10 then 48 + n else 87 + n)"
proof -
  have "unat (of_nat j :: u8) = j" if "j < 256" for j by (rule of_nat_inverse [OF refl]) (use that in simp)
  then show ?thesis using assms by (simp add: hex_digit_def del: of_nat_add)
qed

lemma hex_digit_inject:
  assumes "m < 16" "n < 16" "hex_digit m = hex_digit n"
  shows "m = n"
proof -
  have "(if m < 10 then 48 + m else 87 + m) = (if n < 10 then 48 + n else 87 + n)"
    using arg_cong [OF assms(3), of unat] unfolding hex_digit_unat [OF assms(1)] hex_digit_unat [OF assms(2)] .
  then show ?thesis by (simp split: if_splits)
qed

lemma hex_digit_range:
  assumes "n < 16"
  shows "hex_digit n \<noteq> 0" "hex_digit n \<noteq> 58"
proof -
  have "unat (hex_digit n) \<noteq> unat (0 :: u8)" "unat (hex_digit n) \<noteq> unat (58 :: u8)"
    using hex_digit_unat [OF assms] by simp_all
  then show "hex_digit n \<noteq> 0" "hex_digit n \<noteq> 58" by metis+
qed

lemma byte_nibbles: "unat (a :: u8) div 16 < 16" "unat (a :: u8) mod 16 < 16"
  using unat_less(1) [of a] by (simp_all add: less_mult_imp_div_less del: unat_less)

lemma hex_inject:
  "concat (map (\<lambda>b :: u8. [hex_digit (unat b div 16), hex_digit (unat b mod 16)]) xs) =
   concat (map (\<lambda>b. [hex_digit (unat b div 16), hex_digit (unat b mod 16)]) ys) \<longleftrightarrow> xs = ys"
proof (induction xs arbitrary: ys)
  case Nil
  then show ?case by (cases ys) simp_all
next
  case (Cons x xs)
  show ?case
  proof (cases ys)
    case (Cons y ys')
    have "x = y" if "hex_digit (unat x div 16) = hex_digit (unat y div 16)" "hex_digit (unat x mod 16) = hex_digit (unat y mod 16)"
    proof -
      have "unat x div 16 = unat y div 16" "unat x mod 16 = unat y mod 16"
        using that hex_digit_inject byte_nibbles by blast+
      then have "unat x = unat y" by (metis div_mult_mod_eq)
      then show ?thesis by (simp add: word_unat_eq_iff)
    qed
    then show ?thesis using Cons.IH [of ys'] by (auto simp: Cons)
  qed simp
qed

lemma hmac_string:
  assumes "length h = 20"
  shows "length (LongTerm_HmacToString h) = 40" "0 \<notin> set (LongTerm_HmacToString h)" "58 \<notin> set (LongTerm_HmacToString h)"
    "length h' = 20 \<Longrightarrow> LongTerm_HmacToString h = LongTerm_HmacToString h' \<longleftrightarrow> h = h'"
proof -
  have l: "length (concat (map (\<lambda>b. [f b, g b]) xs)) = 2 * length xs" for f g :: "u8 \<Rightarrow> u8" and xs
    by (induction xs) simp_all
  show "length (LongTerm_HmacToString h) = 40" using assms by (simp add: LongTerm_HmacToString_def l)
  show "0 \<notin> set (LongTerm_HmacToString h)" "58 \<notin> set (LongTerm_HmacToString h)"
    using hex_digit_range byte_nibbles by (fastforce simp: LongTerm_HmacToString_def)+
  show "length h' = 20 \<Longrightarrow> LongTerm_HmacToString h = LongTerm_HmacToString h' \<longleftrightarrow> h = h'"
    using assms by (simp add: LongTerm_HmacToString_def hex_inject)
qed

text \<open>The nonce that is created: at most 51 bytes, none of them a terminator.\<close>

lemma digits_no: "digits bs \<Longrightarrow> 0 \<notin> set bs \<and> 58 \<notin> set bs"
  by (auto simp: digits_def)

lemma created_nonce:
  assumes "length (hmac c_szPrivateKey (bytes_of (dec_str (nat (t mod 2 ^ 32))) @ [58])) = 20" "length dst = AUTH_ARRAY_SIZE"
  defines "text \<equiv> bytes_of (dec_str (nat (t mod 2 ^ 32)))"
  shows "c_str (snd (LongTerm_CreateNonce hmac t dst)) = text @ [58] @ LongTerm_HmacToString (hmac c_szPrivateKey (text @ [58]))"
    "length (snd (LongTerm_CreateNonce hmac t dst)) = AUTH_ARRAY_SIZE" "length text \<le> 10"
    "length (LongTerm_HmacToString (hmac c_szPrivateKey (text @ [58]))) = 40"
    "0 \<notin> set (LongTerm_HmacToString (hmac c_szPrivateKey (text @ [58])))"
proof -
  note h = hmac_string [OF assms(1), folded text_def]
  have "t mod 2 ^ 32 < 2 ^ 32" by (rule pos_mod_bound) simp
  then have "nat (t mod 2 ^ 32) < 10 ^ 10" by simp
  from dec_str_length [OF this] show len: "length text \<le> 10" by (simp add: text_def bytes_of_def)
  show h40: "length (LongTerm_HmacToString (hmac c_szPrivateKey (text @ [58]))) = 40" by (rule h(1))
  show z: "0 \<notin> set (LongTerm_HmacToString (hmac c_szPrivateKey (text @ [58])))" by (rule h(2))
  have d: "digits text" using dec_str_digits by (simp add: text_def)
  let ?n = "text @ [58] @ LongTerm_HmacToString (hmac c_szPrivateKey (text @ [58]))"
  have n: "c_str ?n = ?n" using d digits_no z by (intro c_str_no_zero) auto
  have snd: "snd (LongTerm_CreateNonce hmac t dst) = strcpy_to dst ?n"
    by (simp add: LongTerm_CreateNonce_def text_def Let_def)
  show "c_str (snd (LongTerm_CreateNonce hmac t dst)) = ?n" using n by (simp add: snd)
  have "length ?n \<le> 51" using len h40 by simp
  then have "length (c_str ?n) < length dst"
    using n assms(2) by (simp add: AUTH_ARRAY_SIZE_def MAX_STUN_AUTH_STRING_SIZE_def)
  then show "length (snd (LongTerm_CreateNonce hmac t dst)) = AUTH_ARRAY_SIZE"
    unfolding snd by (simp only: length_strcpy_to assms(2))
qed

text \<open>
  C25: a nonce is as good as never valid. What \<^verbatim>\<open>CreateNonce\<close> signs is the time stamp with its colon,
  and what \<^verbatim>\<open>ValidateNonce\<close> checks is the signature of the time stamp without it: within the two
  minutes of its life, before the year 2038, the server accepts a nonce of its own exactly when the
  digests of these two different texts are equal.
\<close>

theorem nonce_needs_collision:
  assumes "\<And>k m. length (hmac k m) = 20" "length dst = AUTH_ARRAY_SIZE" "0 \<le> t" "t < 2 ^ 31" "t \<le> now" "now \<le> t + 120"
  shows "SUCCEEDED (LongTerm_ValidateNonce hmac now (snd (LongTerm_CreateNonce hmac t dst))) \<longleftrightarrow>
    hmac c_szPrivateKey (bytes_of (dec_str (nat t)) @ [58]) = hmac c_szPrivateKey (bytes_of (dec_str (nat t)))"
proof -
  let ?text = "bytes_of (dec_str (nat t))"
  have tm: "t mod 2 ^ 32 = t" using assms(3,4) by simp
  note c = created_nonce [of hmac t, OF assms(1,2), unfolded tm]
  let ?n = "?text @ [58] @ LongTerm_HmacToString (hmac c_szPrivateKey (?text @ [58]))"
  have d: "digits ?text" "digits_value 0 ?text = t" using dec_str_digits [of "nat t"] assms(3) by simp_all
  have at: "atoi ?text = t" by (rule atoi_digits [OF d(1) dec_str_nonempty d(2) assms(3,4)])
  have take: "take 99 (c_str (snd (LongTerm_CreateNonce hmac t dst))) = ?n"
    unfolding c(1) using c(3,4) by simp
  have left: "takeWhile (\<lambda>b. b \<noteq> 58) ?n = ?text" "tl (dropWhile (\<lambda>b. b \<noteq> 58) ?n) = LongTerm_HmacToString (hmac c_szPrivateKey (?text @ [58]))"
    using digits_no [OF d(1)] by (simp_all add: takeWhile_append dropWhile_append)
  show ?thesis
    using assms(5,6) hmac_string(4) [OF assms(1) assms(1)]
    by (auto simp: LongTerm_ValidateNonce_def take left at Let_def hresult_defs simp del: append.simps append_assoc)
qed

theorem nonce_needs_collision_witness:
  "\<not> SUCCEEDED (LongTerm_ValidateNonce (\<lambda>k m. replicate 20 (of_nat (length m))) 1000
      (snd (LongTerm_CreateNonce (\<lambda>k m. replicate 20 (of_nat (length m))) 999 (replicate AUTH_ARRAY_SIZE 0))))"
proof -
  have "of_nat (Suc n) \<noteq> (of_nat n :: u8)" for n by simp
  then show ?thesis
    using nonce_needs_collision [of "\<lambda>k m. replicate 20 (of_nat (length m))" "replicate AUTH_ARRAY_SIZE 0" 999 1000]
    by (simp del: of_nat_Suc)
qed

section \<open>The users\<close>








section \<open>The providers in the request handler\<close>














end
