(* ===== verification/StunSocket.thy ===== *)
theory StunSocket
  imports SocketAddress
begin

text \<open>
  Sockets (\<^verbatim>\<open>networkutils/stunsocket.cpp\<close>). A socket is its descriptor, its addresses and its role.
  What the system calls answer is the record \<open>socket_os\<close>; the descriptors handed to \<^verbatim>\<open>close\<close> are
  part of the result of each operation. Option names have their values on Linux, where \<^verbatim>\<open>IP_PKTINFO\<close>,
  \<^verbatim>\<open>IPV6_RECVPKTINFO\<close>, \<^verbatim>\<open>IPV6_PKTINFO\<close> and \<^verbatim>\<open>IPV6_V6ONLY\<close> are defined and the BSD ones are not.
\<close>

subsection \<open>Result codes of system calls\<close>

text \<open>\<^verbatim>\<open>MAKE_HRESULT\<close> with the severity and facility of an error number; \<^verbatim>\<open>ERRNOHR\<close> applies it twice.\<close>

definition ERRNO_TO_HRESULT :: "int \<Rightarrow> HRESULT" where
  "ERRNO_TO_HRESULT err =
     sint (ucast (push_bit 31 1 OR push_bit 16 0x800 OR word_of_int err :: u64) :: u32)"

definition ERRNOHR :: "int \<Rightarrow> HRESULT" where
  "ERRNOHR errno = ERRNO_TO_HRESULT (ERRNO_TO_HRESULT errno)"

lemma ERRNO_TO_HRESULT_failed [simp]: "\<not> SUCCEEDED (ERRNO_TO_HRESULT err)"
proof -
  let ?w = "push_bit 31 1 OR push_bit 16 0x800 OR word_of_int err :: u64"
  have "bit ?w 31" by (simp add: bit_or_iff bit_push_bit_iff bit_1_iff)
  then have "bit (ucast ?w :: u32) (LENGTH(32) - Suc 0)" by (simp add: bit_ucast_iff)
  then show ?thesis by (simp only: ERRNO_TO_HRESULT_def SUCCEEDED_def bit_last_iff not_le)
qed

lemma ERRNOHR_failed [simp]: "\<not> SUCCEEDED (ERRNOHR errno)"
  by (simp add: ERRNOHR_def)

subsection \<open>The state and the system\<close>

record CStunSocket =
  ss_sock :: int
  ss_addrlocal :: CSocketAddress
  ss_addrremote :: CSocketAddress
  ss_role :: SocketRole

record socket_os =
  os_socket :: int
  os_setsockopt :: "int \<Rightarrow> int \<Rightarrow> int \<Rightarrow> int"
  os_bind :: int
  os_listen :: int
  os_getfl :: u32
  os_setfl :: "u32 \<Rightarrow> int"
  os_getsockname :: "CSocketAddress option"
  os_getpeername :: "CSocketAddress option"
  os_errno :: int

definition SOCK_STREAM :: int where "SOCK_STREAM = 1"
definition SOCK_DGRAM :: int where "SOCK_DGRAM = 2"
definition O_NONBLOCK :: u32 where "O_NONBLOCK = 0x800"
definition IPPROTO_IP :: int where "IPPROTO_IP = 0"
definition IPPROTO_IPV6 :: int where "IPPROTO_IPV6 = 41"
definition SOL_SOCKET :: int where "SOL_SOCKET = 1"
definition SO_REUSEADDR :: int where "SO_REUSEADDR = 2"
definition IP_PKTINFO :: int where "IP_PKTINFO = 8"
definition IPV6_RECVPKTINFO :: int where "IPV6_RECVPKTINFO = 49"
definition IPV6_PKTINFO :: int where "IPV6_PKTINFO = 50"
definition IPV6_V6ONLY :: int where "IPV6_V6ONLY = 26"

subsection \<open>Operations\<close>

definition StunSocket_new :: CStunSocket where
  "StunSocket_new = \<lparr>ss_sock = -1, ss_addrlocal = CSocketAddress_zero, ss_addrremote = CSocketAddress_zero,
     ss_role = RolePP\<rparr>"

definition StunSocket_Reset :: "CStunSocket \<Rightarrow> CStunSocket" where
  "StunSocket_Reset s = s\<lparr>ss_sock := -1, ss_addrlocal := CSocketAddress_ip4 0 0,
     ss_addrremote := CSocketAddress_ip4 0 0, ss_role := RolePP\<rparr>"

definition StunSocket_Close :: "CStunSocket \<Rightarrow> int list \<times> CStunSocket" where
  "StunSocket_Close s =
     (if ss_sock s \<noteq> -1 then ([ss_sock s], StunSocket_Reset (s\<lparr>ss_sock := -1\<rparr>)) else ([], StunSocket_Reset s))"

definition StunSocket_IsValid :: "CStunSocket \<Rightarrow> bool" where
  "StunSocket_IsValid s \<longleftrightarrow> ss_sock s \<noteq> -1"

definition StunSocket_UpdateAddresses :: "socket_os \<Rightarrow> CStunSocket \<Rightarrow> CStunSocket" where
  "StunSocket_UpdateAddresses os s =
     (if ss_sock s = -1 then s
      else
        (let s = (case os_getsockname os of None \<Rightarrow> s
                    | Some addrLocal \<Rightarrow> s\<lparr>ss_addrlocal := CSocketAddress_CommonConstructor addrLocal\<rparr>)
         in case os_getpeername os of None \<Rightarrow> s
              | Some addrRemote \<Rightarrow> s\<lparr>ss_addrremote := CSocketAddress_CommonConstructor addrRemote\<rparr>))"

definition StunSocket_Attach :: "socket_os \<Rightarrow> int \<Rightarrow> CStunSocket \<Rightarrow> HRESULT \<times> int list \<times> CStunSocket" where
  "StunSocket_Attach os sock s =
     (if sock = -1 then (E_INVALIDARG, [], s)
      else
        (let (closed, s) = (if sock \<noteq> ss_sock s
                            then (let (closed, s) = StunSocket_Close s in (closed, s\<lparr>ss_sock := sock\<rparr>))
                            else ([], s))
         in (S_OK, closed, StunSocket_UpdateAddresses os s)))"

definition StunSocket_Detach :: "CStunSocket \<Rightarrow> int \<times> CStunSocket" where
  "StunSocket_Detach s = (ss_sock s, StunSocket_Reset s)"

definition StunSocket_GetSocketHandle :: "CStunSocket \<Rightarrow> int" where
  "StunSocket_GetSocketHandle s = ss_sock s"

definition StunSocket_GetLocalAddress :: "CStunSocket \<Rightarrow> CSocketAddress" where
  "StunSocket_GetLocalAddress s = ss_addrlocal s"

definition StunSocket_GetRemoteAddress :: "CStunSocket \<Rightarrow> CSocketAddress" where
  "StunSocket_GetRemoteAddress s = ss_addrremote s"

definition StunSocket_GetRole :: "CStunSocket \<Rightarrow> SocketRole" where
  "StunSocket_GetRole s = ss_role s"

definition StunSocket_SetRole :: "SocketRole \<Rightarrow> CStunSocket \<Rightarrow> CStunSocket" where
  "StunSocket_SetRole role s = s\<lparr>ss_role := role\<rparr>"

definition StunSocket_EnablePktInfoImpl :: "socket_os \<Rightarrow> int \<Rightarrow> int \<Rightarrow> int \<Rightarrow> bool \<Rightarrow> HRESULT" where
  "StunSocket_EnablePktInfoImpl os level option1 option2 fEnable =
     (let enable = (if fEnable then 1 else 0)
      in if option1 = -1 \<and> option2 = -1 then E_FAIL
         else
           (let ret = (if option1 \<noteq> -1 then os_setsockopt os level option1 enable else -1);
                ret = (if ret < 0 \<and> option2 \<noteq> -1 then os_setsockopt os level option2 enable else ret)
            in if ret < 0 then ERRNOHR (os_errno os) else S_OK))"

definition StunSocket_EnablePktInfo_IPV4 :: "socket_os \<Rightarrow> bool \<Rightarrow> HRESULT" where
  "StunSocket_EnablePktInfo_IPV4 os fEnable = StunSocket_EnablePktInfoImpl os IPPROTO_IP IP_PKTINFO (-1) fEnable"

definition StunSocket_EnablePktInfo_IPV6 :: "socket_os \<Rightarrow> bool \<Rightarrow> HRESULT" where
  "StunSocket_EnablePktInfo_IPV6 os fEnable =
     StunSocket_EnablePktInfoImpl os IPPROTO_IPV6 IPV6_RECVPKTINFO IPV6_PKTINFO fEnable"

definition StunSocket_EnablePktInfoOption :: "socket_os \<Rightarrow> bool \<Rightarrow> CStunSocket \<Rightarrow> HRESULT" where
  "StunSocket_EnablePktInfoOption os fEnable s =
     (if sa_family (ss_addrlocal s) = AF_INET then StunSocket_EnablePktInfo_IPV4 os fEnable
      else StunSocket_EnablePktInfo_IPV6 os fEnable)"

definition StunSocket_SetV6Only :: "socket_os \<Rightarrow> HRESULT" where
  "StunSocket_SetV6Only os =
     (if os_setsockopt os IPPROTO_IPV6 IPV6_V6ONLY 1 = 0 then S_OK else ERRNOHR (os_errno os))"

definition StunSocket_SetNonBlocking :: "socket_os \<Rightarrow> bool \<Rightarrow> HRESULT" where
  "StunSocket_SetNonBlocking os fEnable =
     (let flags = os_getfl os
      in if flags = -1 then ERRNOHR (os_errno os)
         else
           (let flags = (if fEnable then flags OR O_NONBLOCK else flags AND (NOT O_NONBLOCK))
            in if os_setfl os flags = -1 then ERRNOHR (os_errno os) else S_OK))"

text \<open>The result of \<^verbatim>\<open>SetV6Only\<close> is ignored. A descriptor that cannot be set up is closed.\<close>

definition StunSocket_InitCommon ::
  "socket_os \<Rightarrow> int \<Rightarrow> CSocketAddress \<Rightarrow> SocketRole \<Rightarrow> bool \<Rightarrow> CStunSocket \<Rightarrow> HRESULT \<times> int list \<times> CStunSocket" where
  "StunSocket_InitCommon os socktype addrlocal role fSetReuseFlag s =
     (let sock = os_socket os
      in if sock < 0 then (ERRNOHR (os_errno os), if sock \<noteq> -1 then [sock] else [], s)
         else if fSetReuseFlag \<and> os_setsockopt os SOL_SOCKET SO_REUSEADDR 1 = -1
         then (ERRNOHR (os_errno os), [sock], s)
         else if os_bind os = -1 then (ERRNOHR (os_errno os), [sock], s)
         else (case StunSocket_Attach os sock s of
                 (_, closed, s) \<Rightarrow> (S_OK, closed, StunSocket_SetRole role s)))"

definition StunSocket_UDPInit ::
  "socket_os \<Rightarrow> CSocketAddress \<Rightarrow> SocketRole \<Rightarrow> bool \<Rightarrow> CStunSocket \<Rightarrow> HRESULT \<times> int list \<times> CStunSocket" where
  "StunSocket_UDPInit os local role fSetReuseFlag s = StunSocket_InitCommon os SOCK_DGRAM local role fSetReuseFlag s"

definition StunSocket_TCPInit ::
  "socket_os \<Rightarrow> CSocketAddress \<Rightarrow> SocketRole \<Rightarrow> bool \<Rightarrow> CStunSocket \<Rightarrow> HRESULT \<times> int list \<times> CStunSocket" where
  "StunSocket_TCPInit os local role fSetReuseFlag s = StunSocket_InitCommon os SOCK_STREAM local role fSetReuseFlag s"

end
