(* ===== verification/ConnectionPool.thy ===== *)
theory ConnectionPool
  imports StunSocket StunReader
begin

text \<open>
  The connections of the TCP server and their pool (\<^verbatim>\<open>server/stunconnection.h\<close>, \<^verbatim>\<open>stunconnection.cpp\<close>).
  The pool's objects live in a heap from addresses to connections; \<^verbatim>\<open>pNext\<close> threads the free ones.
  Objects are created fifty at a time and never moved. Running out of memory is not modelled
  (\<^verbatim>\<open>new\<close> throws). The contract of the pool, \<open>object_pool\<close>, is what the server relies on.
\<close>

datatype StunConnectionState = ConnectionState_Idle | ConnectionState_Receiving | ConnectionState_Transmitting

record StunConnection =
  sc_timeStart :: int
  sc_state :: StunConnectionState
  sc_stunsocket :: CStunSocket
  sc_reader :: CStunMessageReader
  sc_spReaderBuffer :: "CBuffer option"
  sc_spOutputBuffer :: "CBuffer option"
  sc_txCount :: nat
  sc_idHashTable :: int
  sc_pNext :: "nat option"

definition StunConnection_new :: StunConnection where
  "StunConnection_new = \<lparr>sc_timeStart = 0, sc_state = ConnectionState_Idle, sc_stunsocket = StunSocket_new,
     sc_reader = Reader_new, sc_spReaderBuffer = None, sc_spOutputBuffer = None, sc_txCount = 0,
     sc_idHashTable = 0, sc_pNext = None\<rparr>"

record CConnectionPool =
  pool_heap :: "nat \<Rightarrow> StunConnection option"
  pool_next :: nat
  pool_freelist :: "nat option"

definition Pool_new :: CConnectionPool where
  "Pool_new = \<lparr>pool_heap = \<lambda>_. None, pool_next = 0, pool_freelist = None\<rparr>"

abbreviation conn_at :: "CConnectionPool \<Rightarrow> nat \<Rightarrow> StunConnection" where
  "conn_at pool p \<equiv> the (pool_heap pool p)"

abbreviation pool_put :: "nat \<Rightarrow> StunConnection \<Rightarrow> CConnectionPool \<Rightarrow> CConnectionPool" where
  "pool_put p c pool \<equiv> pool\<lparr>pool_heap := (pool_heap pool)(p := Some c)\<rparr>"

subsection \<open>Operations\<close>

text \<open>
  The loop deletes the objects of the free list. The fuel bounds their number: \<open>pool_next\<close> objects
  were ever created, and \<open>Pool_Reset_empties\<close> shows that the loop ends at the null pointer.
\<close>

fun Pool_Reset_loop :: "nat \<Rightarrow> CConnectionPool \<Rightarrow> CConnectionPool" where
  "Pool_Reset_loop 0 pool = pool"
| "Pool_Reset_loop (Suc fuel) pool =
     (case pool_freelist pool of
        None \<Rightarrow> pool
      | Some pConn \<Rightarrow>
          (let pool = pool\<lparr>pool_freelist := sc_pNext (conn_at pool pConn)\<rparr>
           in Pool_Reset_loop fuel (pool\<lparr>pool_heap := (pool_heap pool)(pConn := None)\<rparr>)))"

definition Pool_Reset :: "CConnectionPool \<Rightarrow> CConnectionPool" where
  "Pool_Reset pool = Pool_Reset_loop (pool_next pool) pool"

definition Pool_Grow_step :: "CConnectionPool \<Rightarrow> CConnectionPool" where
  "Pool_Grow_step pool =
     (let pConn = StunConnection_new;
          pConn = pConn\<lparr>sc_spOutputBuffer := Some (CBuffer_alloc MAX_STUN_MESSAGE_SIZE)\<rparr>;
          pConn = pConn\<lparr>sc_spReaderBuffer := Some (CBuffer_alloc MAX_STUN_MESSAGE_SIZE)\<rparr>;
          pConn = pConn\<lparr>sc_pNext := pool_freelist pool\<rparr>
      in \<lparr>pool_heap = (pool_heap pool)(pool_next pool := Some pConn), pool_next = pool_next pool + 1,
          pool_freelist = Some (pool_next pool)\<rparr>)"

definition Pool_Grow :: "CConnectionPool \<Rightarrow> HRESULT \<times> CConnectionPool" where
  "Pool_Grow pool = (S_OK, (Pool_Grow_step ^^ 50) pool)"

text \<open>
  The reader is reset and its stream attached, for writing, to the connection's own reader buffer.
  Attaching empties the buffer, so what the stream had written into it before is not kept.
\<close>

definition conn_ResetReader :: "StunConnection \<Rightarrow> StunConnection" where
  "conn_ResetReader c =
     (let r = Reader_Reset (sc_reader c)
      in c\<lparr>sc_reader := r\<lparr>rd_stream := DS_Attach (sc_spReaderBuffer c) True (rd_stream r)\<rparr>\<rparr>)"

text \<open>The address of the connection, and the descriptors that were closed.\<close>

definition Pool_GetConnection ::
  "socket_os \<Rightarrow> int \<Rightarrow> int \<Rightarrow> SocketRole \<Rightarrow> CConnectionPool \<Rightarrow> nat option \<times> int list \<times> CConnectionPool" where
  "Pool_GetConnection os timeNow sock role pool =
     (let pool = (if pool_freelist pool = None then snd (Pool_Grow pool) else pool)
      in case pool_freelist pool of
           None \<Rightarrow> (None, [], pool)
         | Some pConn \<Rightarrow>
             (let c = conn_at pool pConn;
                  pool = pool\<lparr>pool_freelist := sc_pNext c\<rparr>;
                  c = c\<lparr>sc_pNext := None\<rparr>;
                  c = conn_ResetReader c;
                  c = c\<lparr>sc_state := ConnectionState_Receiving\<rparr>;
                  (hr, closed, s) = StunSocket_Attach os sock (sc_stunsocket c);
                  c = c\<lparr>sc_stunsocket := StunSocket_SetRole role s\<rparr>;
                  c = c\<lparr>sc_txCount := 0\<rparr>;
                  c = c\<lparr>sc_timeStart := timeNow\<rparr>;
                  c = c\<lparr>sc_idHashTable := -1\<rparr>
              in (Some pConn, closed, pool_put pConn c pool)))"

definition Pool_ReleaseConnection :: "nat \<Rightarrow> CConnectionPool \<Rightarrow> CConnectionPool" where
  "Pool_ReleaseConnection pConn pool =
     (pool_put pConn ((conn_at pool pConn)\<lparr>sc_pNext := pool_freelist pool\<rparr>) pool)\<lparr>pool_freelist := Some pConn\<rparr>"

definition Pool_ResetConnection :: "nat \<Rightarrow> CConnectionPool \<Rightarrow> CConnectionPool" where
  "Pool_ResetConnection pConn pool =
     (let c = conn_ResetReader (conn_at pool pConn);
          c = c\<lparr>sc_state := ConnectionState_Receiving\<rparr>
      in pool_put pConn (c\<lparr>sc_txCount := 0\<rparr>) pool)"

end
