(* ===== verification/Polling.thy ===== *)
theory Polling
  imports FastHashDynamic
begin

text \<open>
  Waiting for sockets (\<^verbatim>\<open>networkutils/polling.h\<close> and \<^verbatim>\<open>polling.cpp\<close>): the implementation \<^verbatim>\<open>CPoll\<close> on
  top of \<^verbatim>\<open>poll\<close>, with its array of descriptors and the hash table from descriptor to position, and
  \<^verbatim>\<open>CEpoll\<close> on top of \<^verbatim>\<open>epoll\<close>. The system calls are arguments; \<open>errnohr\<close> is the result code
  \<^verbatim>\<open>ERRNOHR\<close> makes of \<^verbatim>\<open>errno\<close>. The flags of the system calls have their values on Linux.
\<close>

subsection \<open>Flags\<close>

record PollEvent =
  pe_fd :: int
  pe_eventflags :: u32

definition IPOLLING_READ :: u32 where "IPOLLING_READ = 0x01"
definition IPOLLING_WRITE :: u32 where "IPOLLING_WRITE = 0x02"
definition IPOLLING_EDGETRIGGER :: u32 where "IPOLLING_EDGETRIGGER = 0x04"
definition IPOLLING_RDHUP :: u32 where "IPOLLING_RDHUP = 0x08"
definition IPOLLING_HUP :: u32 where "IPOLLING_HUP = 0x10"
definition IPOLLING_PRI :: u32 where "IPOLLING_PRI = 0x20"
definition IPOLLING_ERROR :: u32 where "IPOLLING_ERROR = 0x40"

definition IPOLLING_TYPE_BEST :: u32 where "IPOLLING_TYPE_BEST = 0x01"
definition IPOLLING_TYPE_EPOLL :: u32 where "IPOLLING_TYPE_EPOLL = 0x02"
definition IPOLLING_TYPE_POLL :: u32 where "IPOLLING_TYPE_POLL = 0x04"

lemmas ipolling_defs = IPOLLING_READ_def IPOLLING_WRITE_def IPOLLING_EDGETRIGGER_def IPOLLING_RDHUP_def
  IPOLLING_HUP_def IPOLLING_PRI_def IPOLLING_ERROR_def

definition POLLIN :: u32 where "POLLIN = 0x01"
definition POLLPRI :: u32 where "POLLPRI = 0x02"
definition POLLOUT :: u32 where "POLLOUT = 0x04"
definition POLLERR :: u32 where "POLLERR = 0x08"
definition POLLHUP :: u32 where "POLLHUP = 0x10"
definition POLLRDHUP :: u32 where "POLLRDHUP = 0x2000"
definition EPOLLET :: u32 where "EPOLLET = 0x80000000"

lemmas poll_flag_defs = POLLIN_def POLLPRI_def POLLOUT_def POLLERR_def POLLHUP_def POLLRDHUP_def EPOLLET_def

text \<open>\<open>result |= to\<close> when the flag \<open>from\<close> is among the flags.\<close>

definition flag_if :: "u32 \<Rightarrow> u32 \<Rightarrow> u32 \<Rightarrow> u32 \<Rightarrow> u32" where
  "flag_if eventflags from to result = (if eventflags AND from \<noteq> 0 then result OR to else result)"

definition CPoll_ToNativeFlags :: "u32 \<Rightarrow> u32" where
  "CPoll_ToNativeFlags eventflags =
     (let result = 0;
          result = flag_if eventflags IPOLLING_READ POLLIN result;
          result = flag_if eventflags IPOLLING_WRITE POLLOUT result;
          result = flag_if eventflags IPOLLING_RDHUP POLLRDHUP result;
          result = flag_if eventflags IPOLLING_HUP POLLHUP result;
          result = flag_if eventflags IPOLLING_PRI POLLPRI result
      in flag_if eventflags IPOLLING_ERROR POLLERR result)"

definition CPoll_FromNativeFlags :: "u32 \<Rightarrow> u32" where
  "CPoll_FromNativeFlags eventflags =
     (let result = 0;
          result = flag_if eventflags POLLIN IPOLLING_READ result;
          result = flag_if eventflags POLLOUT IPOLLING_WRITE result;
          result = flag_if eventflags POLLRDHUP IPOLLING_RDHUP result;
          result = flag_if eventflags POLLHUP IPOLLING_HUP result;
          result = flag_if eventflags POLLPRI IPOLLING_PRI result
      in flag_if eventflags POLLERR IPOLLING_ERROR result)"

subsection \<open>CPoll\<close>

text \<open>The two flag sets are \<^verbatim>\<open>short\<close>s.\<close>

record pollfd =
  pf_fd :: int
  pf_events :: u16
  pf_revents :: u16

record CPoll =
  cp_fds :: "pollfd list"
  cp_rotation :: u32
  cp_unreadcount :: u32
  cp_fInitialized :: bool
  cp_hashtable :: "(int, nat) FastHash"

definition CPoll_new :: CPoll where
  "CPoll_new = \<lparr>cp_fds = [], cp_rotation = 0, cp_unreadcount = 0, cp_fInitialized = False,
     cp_hashtable = fhd_ResetTable\<rparr>"

definition CPoll_Initialize :: "nat \<Rightarrow> CPoll \<Rightarrow> HRESULT \<times> CPoll" where
  "CPoll_Initialize maxSockets p =
     (let p = p\<lparr>cp_rotation := 0\<rparr>;
          p = p\<lparr>cp_unreadcount := 0\<rparr>;
          p = p\<lparr>cp_hashtable := snd (fhd_InitTable maxSockets 0 (cp_hashtable p))\<rparr>
      in (S_OK, p\<lparr>cp_fInitialized := True\<rparr>))"

definition CPoll_Close :: "CPoll \<Rightarrow> HRESULT \<times> CPoll" where
  "CPoll_Close p = (S_OK, p\<lparr>cp_fds := [], cp_fInitialized := False\<rparr>)"

definition CPoll_Add :: "int \<Rightarrow> u32 \<Rightarrow> CPoll \<Rightarrow> HRESULT \<times> CPoll" where
  "CPoll_Add fd eventflags p =
     (let pos = length (cp_fds p)
      in if cp_fInitialized p = False then (E_FAIL, p)
         else if fh_Lookup FastHash_Hash_int fd (cp_hashtable p) \<noteq> None then (E_UNEXPECTED, p)
         else
           (let pfd = \<lparr>pf_fd = fd, pf_events = ucast (CPoll_ToNativeFlags eventflags), pf_revents = 0\<rparr>;
                p = p\<lparr>cp_fds := cp_fds p @ [pfd]\<rparr>
            in (S_OK, p\<lparr>cp_hashtable := snd (fh_Insert FastHash_Hash_int fd pos (cp_hashtable p))\<rparr>)))"

definition CPoll_Remove :: "int \<Rightarrow> CPoll \<Rightarrow> HRESULT \<times> CPoll" where
  "CPoll_Remove fd p =
     (let size = length (cp_fds p)
      in if cp_fInitialized p = False then (E_FAIL, p)
         else if size = 0 then (E_FAIL, p)
         else
           (case fh_Lookup FastHash_Hash_int fd (cp_hashtable p) of
              None \<Rightarrow> (E_FAIL, p)
            | Some pos \<Rightarrow>
                if pos \<ge> size then (E_FAIL, p)
                else if pf_fd (cp_fds p ! pos) \<noteq> fd then (E_FAIL, p)
                else
                  (let p = (if pos \<noteq> size - 1
                            then
                              (let p = p\<lparr>cp_fds := (cp_fds p)[pos := cp_fds p ! (size - 1)]\<rparr>
                               in p\<lparr>cp_hashtable :=
                                     fh_Assign FastHash_Hash_int (pf_fd (cp_fds p ! pos)) pos (cp_hashtable p)\<rparr>)
                            else p);
                       p = p\<lparr>cp_hashtable := snd (fh_Remove FastHash_Hash_int fd (cp_hashtable p))\<rparr>
                   in (S_OK, p\<lparr>cp_fds := butlast (cp_fds p)\<rparr>))))"

definition CPoll_ChangeEventSet :: "int \<Rightarrow> u32 \<Rightarrow> CPoll \<Rightarrow> HRESULT \<times> CPoll" where
  "CPoll_ChangeEventSet fd eventflags p =
     (let size = length (cp_fds p)
      in if cp_fInitialized p = False then (E_FAIL, p)
         else if size = 0 then (E_FAIL, p)
         else
           (case fh_Lookup FastHash_Hash_int fd (cp_hashtable p) of
              None \<Rightarrow> (E_FAIL, p)
            | Some pos \<Rightarrow>
                if pos \<ge> size then (E_FAIL, p)
                else if pf_fd (cp_fds p ! pos) \<noteq> fd then (E_FAIL, p)
                else (S_OK, p\<lparr>cp_fds := (cp_fds p)
                        [pos := (cp_fds p ! pos)\<lparr>pf_events := ucast (CPoll_ToNativeFlags eventflags)\<rparr>]\<rparr>)))"

text \<open>The search starts at the slot \<^verbatim>\<open>_rotation\<close> and goes around once.\<close>

definition CPoll_FindNextEvent :: "PollEvent \<Rightarrow> CPoll \<Rightarrow> bool \<times> PollEvent \<times> CPoll" where
  "CPoll_FindNextEvent pEvent p =
     (let size = length (cp_fds p)
      in if cp_unreadcount p = 0 then (False, pEvent, p)
         else
           (let p = (if unat (cp_rotation p) \<ge> size then p\<lparr>cp_rotation := 0\<rparr> else p)
            in case find (\<lambda>slotindex. pf_revents (cp_fds p ! slotindex) \<noteq> 0)
                      (map (\<lambda>index. (index + unat (cp_rotation p)) mod size) [0..<size]) of
                 None \<Rightarrow> (False, pEvent, p)
               | Some slotindex \<Rightarrow>
                   (let pfd = cp_fds p ! slotindex;
                        pEvent = \<lparr>pe_fd = pf_fd pfd, pe_eventflags = CPoll_FromNativeFlags (scast (pf_revents pfd))\<rparr>;
                        p = p\<lparr>cp_fds := (cp_fds p)[slotindex := pfd\<lparr>pf_revents := 0\<rparr>]\<rparr>;
                        p = p\<lparr>cp_rotation := cp_rotation p + 1\<rparr>
                    in (True, pEvent, p\<lparr>cp_unreadcount := cp_unreadcount p - 1\<rparr>))))"

text \<open>\<open>poll\<close> gives its result and the array with the returned events.\<close>

definition CPoll_WaitForNextEvent ::
  "(pollfd list \<Rightarrow> int \<Rightarrow> int \<times> pollfd list) \<Rightarrow> HRESULT \<Rightarrow> PollEvent \<Rightarrow> int \<Rightarrow> CPoll
   \<Rightarrow> HRESULT \<times> PollEvent \<times> CPoll" where
  "CPoll_WaitForNextEvent poll errnohr pPollEvent timeoutMilliseconds p =
     (let size = length (cp_fds p)
      in if cp_fInitialized p = False then (E_FAIL, pPollEvent, p)
         else
           (let pPollEvent = pPollEvent\<lparr>pe_eventflags := 0\<rparr>
            in if size = 0 then (S_FALSE, pPollEvent, p)
               else
                 (case CPoll_FindNextEvent pPollEvent p of (fFound, pPollEvent, p) \<Rightarrow>
                    if fFound = False
                    then
                      (let p = p\<lparr>cp_unreadcount := 0\<rparr>;
                           (ret, list) = poll (cp_fds p) timeoutMilliseconds;
                           p = p\<lparr>cp_fds := list\<rparr>
                       in if ret < 0 then (errnohr, pPollEvent, p)
                          else if ret = 0 then (S_FALSE, pPollEvent, p)
                          else
                            (let p = p\<lparr>cp_unreadcount := word_of_int ret\<rparr>;
                                 (fFound, pPollEvent, p) = CPoll_FindNextEvent pPollEvent p
                             in (if fFound then S_OK else S_FALSE, pPollEvent, p)))
                    else (S_OK, pPollEvent, p))))"

subsection \<open>CEpoll\<close>

text \<open>An event of the system: the descriptor given with it and its flags.\<close>

type_synonym epoll_event = "int \<times> u32"

datatype epoll_op = EPOLL_CTL_ADD | EPOLL_CTL_DEL | EPOLL_CTL_MOD

record CEpoll =
  ep_epollfd :: int
  ep_events :: "epoll_event list option"
  ep_sizeEvents :: nat
  ep_pendingCount :: nat
  ep_currentEventIndex :: nat

definition CEpoll_new :: CEpoll where
  "CEpoll_new = \<lparr>ep_epollfd = -1, ep_events = None, ep_sizeEvents = 0, ep_pendingCount = 0, ep_currentEventIndex = 0\<rparr>"

definition CEpoll_ToNativeFlags :: "u32 \<Rightarrow> u32" where
  "CEpoll_ToNativeFlags eventflags =
     (let result = 0;
          result = flag_if eventflags IPOLLING_READ POLLIN result;
          result = flag_if eventflags IPOLLING_WRITE POLLOUT result;
          result = flag_if eventflags IPOLLING_EDGETRIGGER EPOLLET result;
          result = flag_if eventflags IPOLLING_RDHUP POLLRDHUP result;
          result = flag_if eventflags IPOLLING_HUP POLLHUP result;
          result = flag_if eventflags IPOLLING_PRI POLLPRI result
      in flag_if eventflags IPOLLING_ERROR POLLERR result)"

definition CEpoll_FromNativeFlags :: "u32 \<Rightarrow> u32" where
  "CEpoll_FromNativeFlags eventflags =
     (let result = 0;
          result = flag_if eventflags POLLIN IPOLLING_READ result;
          result = flag_if eventflags POLLOUT IPOLLING_WRITE result;
          result = flag_if eventflags EPOLLET IPOLLING_EDGETRIGGER result;
          result = flag_if eventflags POLLRDHUP IPOLLING_RDHUP result;
          result = flag_if eventflags POLLHUP IPOLLING_HUP result;
          result = flag_if eventflags POLLPRI IPOLLING_PRI result
      in flag_if eventflags POLLERR IPOLLING_ERROR result)"

definition CEpoll_Close :: "CEpoll \<Rightarrow> HRESULT \<times> CEpoll" where
  "CEpoll_Close p =
     (let p = (if ep_epollfd p \<noteq> -1 then p\<lparr>ep_epollfd := -1\<rparr> else p)
      in (S_OK, p\<lparr>ep_events := None, ep_sizeEvents := 0, ep_pendingCount := 0, ep_currentEventIndex := 0\<rparr>))"

text \<open>The result of \<^verbatim>\<open>epoll_create\<close> is an argument. The result code of the method is always \<open>S_OK\<close>.\<close>

definition CEpoll_Initialize :: "int \<Rightarrow> nat \<Rightarrow> CEpoll \<Rightarrow> HRESULT \<times> CEpoll" where
  "CEpoll_Initialize epollfd maxSockets p =
     (let p = snd (CEpoll_Close p);
          p = p\<lparr>ep_epollfd := epollfd\<rparr>
      in if epollfd = -1 then (S_OK, snd (CEpoll_Close p))
         else
           (let p = p\<lparr>ep_sizeEvents := maxSockets, ep_events := Some (replicate maxSockets (0, 0))\<rparr>
            in (S_OK, p\<lparr>ep_pendingCount := 0, ep_currentEventIndex := 0\<rparr>)))"

definition CEpoll_Add ::
  "(int \<Rightarrow> epoll_op \<Rightarrow> int \<Rightarrow> epoll_event \<Rightarrow> int) \<Rightarrow> HRESULT \<Rightarrow> int \<Rightarrow> u32 \<Rightarrow> CEpoll \<Rightarrow> HRESULT \<times> CEpoll" where
  "CEpoll_Add epoll_ctl errnohr fd eventflags p =
     (if fd = -1 then (E_INVALIDARG, p)
      else if ep_epollfd p = -1 then (E_UNEXPECTED, p)
      else if epoll_ctl (ep_epollfd p) EPOLL_CTL_ADD fd (fd, CEpoll_ToNativeFlags eventflags) = -1
      then (errnohr, p) else (S_OK, p))"

definition CEpoll_Remove ::
  "(int \<Rightarrow> epoll_op \<Rightarrow> int \<Rightarrow> epoll_event \<Rightarrow> int) \<Rightarrow> HRESULT \<Rightarrow> int \<Rightarrow> CEpoll \<Rightarrow> HRESULT \<times> CEpoll" where
  "CEpoll_Remove epoll_ctl errnohr fd p =
     (if fd = -1 then (E_INVALIDARG, p)
      else if ep_epollfd p = -1 then (E_UNEXPECTED, p)
      else if epoll_ctl (ep_epollfd p) EPOLL_CTL_DEL fd (0, 0) = -1 then (errnohr, p) else (S_OK, p))"

definition CEpoll_ChangeEventSet ::
  "(int \<Rightarrow> epoll_op \<Rightarrow> int \<Rightarrow> epoll_event \<Rightarrow> int) \<Rightarrow> HRESULT \<Rightarrow> int \<Rightarrow> u32 \<Rightarrow> CEpoll \<Rightarrow> HRESULT \<times> CEpoll" where
  "CEpoll_ChangeEventSet epoll_ctl errnohr fd eventflags p =
     (if fd = -1 then (E_INVALIDARG, p)
      else if ep_epollfd p = -1 then (E_UNEXPECTED, p)
      else if epoll_ctl (ep_epollfd p) EPOLL_CTL_MOD fd (fd, CEpoll_ToNativeFlags eventflags) = -1
      then (errnohr, p) else (S_OK, p))"

text \<open>\<open>epoll_wait\<close> gets the size of the array and the timeout; it gives its result and the array.\<close>

definition CEpoll_WaitForNextEvent ::
  "(nat \<Rightarrow> int \<Rightarrow> int \<times> epoll_event list) \<Rightarrow> HRESULT \<Rightarrow> PollEvent \<Rightarrow> int \<Rightarrow> CEpoll
   \<Rightarrow> HRESULT \<times> PollEvent \<times> CEpoll" where
  "CEpoll_WaitForNextEvent epoll_wait errnohr pPollEvent timeoutMilliseconds p =
     (if ep_epollfd p = -1 then (E_UNEXPECTED, pPollEvent, p)
      else
        (let (ret, p) =
               (if ep_currentEventIndex p \<ge> ep_pendingCount p
                then
                  (let p = p\<lparr>ep_currentEventIndex := 0, ep_pendingCount := 0\<rparr>;
                       (ret, events) = epoll_wait (ep_sizeEvents p) timeoutMilliseconds;
                       p = p\<lparr>ep_events := Some events\<rparr>
                   in (ret, if ret \<le> 0 then p else p\<lparr>ep_pendingCount := nat ret\<rparr>))
                else (1, p))
         in if ret \<le> -1 then (errnohr, pPollEvent, p)
            else if ret = 0 then (S_FALSE, pPollEvent, p)
            else
              (let pEvent = the (ep_events p) ! ep_currentEventIndex p;
                   p = p\<lparr>ep_currentEventIndex := ep_currentEventIndex p + 1\<rparr>
               in (S_OK, \<lparr>pe_fd = fst pEvent, pe_eventflags = CEpoll_FromNativeFlags (snd pEvent)\<rparr>, p))))"

subsection \<open>The factory\<close>

text \<open>The object behind \<^verbatim>\<open>IPolling\<close>; \<open>has_epoll\<close> is the build option \<^verbatim>\<open>HAS_EPOLL\<close>.\<close>

datatype IPolling = PollWith CPoll | EpollWith CEpoll

definition CreatePollingInstance :: "bool \<Rightarrow> int \<Rightarrow> u32 \<Rightarrow> nat \<Rightarrow> HRESULT \<times> IPolling option" where
  "CreatePollingInstance has_epoll epollfd type maxSockets =
     (let type = (if type = IPOLLING_TYPE_BEST
                  then if has_epoll then IPOLLING_TYPE_EPOLL else IPOLLING_TYPE_POLL else type)
      in if type = IPOLLING_TYPE_EPOLL
         then if has_epoll = False then (E_FAIL, None)
              else (case CEpoll_Initialize epollfd maxSockets CEpoll_new of
                      (hr, p) \<Rightarrow> if FAILED hr then (hr, None) else (hr, Some (EpollWith p)))
         else if type = IPOLLING_TYPE_POLL
         then (case CPoll_Initialize maxSockets CPoll_new of
                 (hr, p) \<Rightarrow> if FAILED hr then (hr, None) else (hr, Some (PollWith p)))
         else (E_FAIL, None))"

end
