(* ===== verification/TcpThread.thy ===== *)
theory TcpThread
  imports ConnectionPool MessageHandler RateLimiter Polling
begin

text \<open>
  A thread of the TCP server (\<^verbatim>\<open>server/tcpserver.cpp\<close>, \<^verbatim>\<open>CTCPStunThread\<close>), in the build without
  \<^verbatim>\<open>epoll\<close>, where the polling object is a \<^verbatim>\<open>CPoll\<close>. What the system answers in one turn of the
  thread's loop is the record \<open>tcp_env\<close>: the results of \<^verbatim>\<open>poll\<close>, \<^verbatim>\<open>accept\<close>, \<^verbatim>\<open>recv\<close> and \<^verbatim>\<open>send\<close> in the
  order of the calls, and the readings of the clock. Connections are addresses in the pool's heap.
  The members \<open>th_accepted\<close>, \<open>th_closed\<close> and \<open>th_sent\<close> are records of the effects: the descriptors that
  were accepted and closed, and the bytes that were sent. Logging is left out.
\<close>

subsection \<open>The system\<close>

text \<open>
  A call of \<^verbatim>\<open>recv\<close> gives at most the number of bytes it is asked for, and none at the end of the
  stream; a call of \<^verbatim>\<open>send\<close> takes at most the bytes it is given. After the listed results the calls
  would block.
\<close>

datatype recv_result = Received "u8 list" | RecvWouldBlock | RecvError
datatype send_result = Sent nat | SendWouldBlock | SendError

record tcp_env =
  ev_poll :: "pollfd list \<Rightarrow> int \<Rightarrow> int \<times> pollfd list"
  ev_errno :: int
  ev_exit :: bool
  ev_accept :: "int \<times> CSocketAddress"
  ev_os :: socket_os
  ev_recv :: "recv_result list"
  ev_send :: "send_result list"
  ev_timeAccept :: int
  ev_timeStart :: int
  ev_timeReceive :: int
  ev_timeSweep :: int
  ev_timeSwept :: int

subsection \<open>The state\<close>

definition EPOLL_CLIENT_READ_EVENT_SET :: u32 where
  "EPOLL_CLIENT_READ_EVENT_SET = IPOLLING_READ OR IPOLLING_RDHUP"

definition EPOLL_CLIENT_WRITE_EVENT_SET :: u32 where "EPOLL_CLIENT_WRITE_EVENT_SET = IPOLLING_WRITE"
definition EPOLL_LISTEN_SOCKET_EVENT_SET :: u32 where "EPOLL_LISTEN_SOCKET_EVENT_SET = IPOLLING_READ"
definition EPOLL_PIPE_EVENT_SET :: u32 where "EPOLL_PIPE_EVENT_SET = IPOLLING_READ"
definition c_MaxNumberOfConnectionsDefault :: int where "c_MaxNumberOfConnectionsDefault = 1000"
definition c_sweepTimeoutSeconds :: int where "c_sweepTimeoutSeconds = 60"

type_synonym StunThreadConnectionMap = "(int, nat) FastHash"

record CTCPStunThread =
  th_pipe0 :: int
  th_pipe1 :: int
  th_spPolling :: "CPoll option"
  th_fListenSocketsOnEpoll :: bool
  th_spLimiter :: "RateLimiter option"
  th_tsaListen :: TransportAddressSet
  th_socketListenArray :: "CStunSocket list"
  th_socketTable :: "int list"
  th_countSocks :: int
  th_fNeedToExit :: bool
  th_spAuth :: "IStunAuth option"
  th_role :: SocketRole
  th_tsa :: TransportAddressSet
  th_maxConnections :: int
  th_fThreadIsValid :: bool
  th_connectionpool :: CConnectionPool
  th_hashConnections1 :: StunThreadConnectionMap
  th_hashConnections2 :: StunThreadConnectionMap
  th_fNewIs1 :: bool
  th_timeLastSweep :: int
  th_accepted :: "int list"
  th_closed :: "int list"
  th_sent :: "(int \<times> u8 list) list"

text \<open>
  \<^verbatim>\<open>_pNewConnList\<close> points to the first table when \<open>th_fNewIs1\<close> holds and to the second otherwise;
  \<^verbatim>\<open>_pOldConnList\<close> points to the other one.
\<close>

definition th_table :: "bool \<Rightarrow> CTCPStunThread \<Rightarrow> StunThreadConnectionMap" where
  "th_table is1 th = (if is1 then th_hashConnections1 th else th_hashConnections2 th)"

definition th_set_table :: "bool \<Rightarrow> StunThreadConnectionMap \<Rightarrow> CTCPStunThread \<Rightarrow> CTCPStunThread" where
  "th_set_table is1 t th = (if is1 then th\<lparr>th_hashConnections1 := t\<rparr> else th\<lparr>th_hashConnections2 := t\<rparr>)"

abbreviation pNewConnList :: "CTCPStunThread \<Rightarrow> StunThreadConnectionMap" where
  "pNewConnList th \<equiv> th_table (th_fNewIs1 th) th"

abbreviation pOldConnList :: "CTCPStunThread \<Rightarrow> StunThreadConnectionMap" where
  "pOldConnList th \<equiv> th_table (\<not> th_fNewIs1 th) th"

abbreviation th_conn :: "CTCPStunThread \<Rightarrow> nat \<Rightarrow> StunConnection" where
  "th_conn th p \<equiv> conn_at (th_connectionpool th) p"

abbreviation th_put :: "nat \<Rightarrow> StunConnection \<Rightarrow> CTCPStunThread \<Rightarrow> CTCPStunThread" where
  "th_put p c th \<equiv> th\<lparr>th_connectionpool := pool_put p c (th_connectionpool th)\<rparr>"

abbreviation th_log_closed :: "int list \<Rightarrow> CTCPStunThread \<Rightarrow> CTCPStunThread" where
  "th_log_closed socks th \<equiv> th\<lparr>th_closed := th_closed th @ socks\<rparr>"

text \<open>A call through \<^verbatim>\<open>_spPolling\<close>, which is not null once \<^verbatim>\<open>Init\<close> has succeeded.\<close>

definition th_poll :: "(CPoll \<Rightarrow> HRESULT \<times> CPoll) \<Rightarrow> CTCPStunThread \<Rightarrow> HRESULT \<times> CTCPStunThread" where
  "th_poll call th =
     (case th_spPolling th of
        None \<Rightarrow> (E_UNEXPECTED, th)
      | Some p \<Rightarrow> (case call p of (hr, p) \<Rightarrow> (hr, th\<lparr>th_spPolling := Some p\<rparr>)))"

subsection \<open>Listening sockets and the pipe\<close>

definition Thread_CreatePipes :: "int \<times> int \<times> int \<Rightarrow> int \<Rightarrow> CTCPStunThread \<Rightarrow> HRESULT \<times> CTCPStunThread" where
  "Thread_CreatePipes pipe errno th =
     (case pipe of (ret, p0, p1) \<Rightarrow>
        if ret = -1 then (ERRNOHR errno, th) else (S_OK, th\<lparr>th_pipe0 := p0, th_pipe1 := p1\<rparr>))"

definition Thread_ClosePipes :: "CTCPStunThread \<Rightarrow> CTCPStunThread" where
  "Thread_ClosePipes th =
     (let th = (if th_pipe0 th \<noteq> -1 then (th_log_closed [th_pipe0 th] th)\<lparr>th_pipe0 := -1\<rparr> else th)
      in if th_pipe1 th \<noteq> -1 then (th_log_closed [th_pipe1 th] th)\<lparr>th_pipe1 := -1\<rparr> else th)"

definition Thread_NotifyThreadViaPipe :: "int \<Rightarrow> CTCPStunThread \<Rightarrow> HRESULT" where
  "Thread_NotifyThreadViaPipe written th = (if written > 0 then S_OK else S_FALSE)"

fun Thread_SetListen_loop :: "bool \<Rightarrow> int list \<Rightarrow> HRESULT \<Rightarrow> CTCPStunThread \<Rightarrow> HRESULT \<times> CTCPStunThread" where
  "Thread_SetListen_loop fEnable [] hr th = (hr, th)"
| "Thread_SetListen_loop fEnable (sock # socks) hr th =
     (if sock = -1 then Thread_SetListen_loop fEnable socks hr th
      else
        (case th_poll (if fEnable then CPoll_Add sock EPOLL_LISTEN_SOCKET_EVENT_SET else CPoll_Remove sock) th of
           (hr, th) \<Rightarrow> if FAILED hr then (hr, th) else Thread_SetListen_loop fEnable socks hr th))"

definition Thread_SetListenSocketsOnEpoll :: "bool \<Rightarrow> CTCPStunThread \<Rightarrow> HRESULT \<times> CTCPStunThread" where
  "Thread_SetListenSocketsOnEpoll fEnable th =
     (if fEnable \<noteq> th_fListenSocketsOnEpoll th
      then (case Thread_SetListen_loop fEnable (th_socketTable th) S_OK th of
              (hr, th) \<Rightarrow> if FAILED hr then (hr, th) else (hr, th\<lparr>th_fListenSocketsOnEpoll := fEnable\<rparr>))
      else (S_OK, th))"

text \<open>The system's answers for the socket of each role are an argument.\<close>

fun Thread_CreateListen_loop :: "(nat \<Rightarrow> socket_os) \<Rightarrow> nat list \<Rightarrow> HRESULT \<Rightarrow> CTCPStunThread \<Rightarrow> HRESULT \<times> CTCPStunThread" where
  "Thread_CreateListen_loop os [] hr th = (hr, th)"
| "Thread_CreateListen_loop os (r # rs) hr th =
     (if ta_fValid (th_tsaListen th ! r)
      then
        (case StunSocket_TCPInit (os r) (ta_addr (th_tsaListen th ! r)) (of_nat r) True (th_socketListenArray th ! r) of
           (hr, closed, s) \<Rightarrow>
             (let th = th_log_closed closed (th\<lparr>th_socketListenArray := (th_socketListenArray th)[r := s]\<rparr>)
              in if FAILED hr then (hr, th)
                 else
                   (let th = th\<lparr>th_socketTable := (th_socketTable th)[r := StunSocket_GetSocketHandle s]\<rparr>;
                        hr = StunSocket_SetNonBlocking (os r) True
                    in if FAILED hr then (hr, th)
                       else if os_listen (os r) = -1 then (ERRNOHR (os_errno (os r)), th)
                       else Thread_CreateListen_loop os rs hr (th\<lparr>th_countSocks := th_countSocks th + 1\<rparr>))))
      else Thread_CreateListen_loop os rs hr (th\<lparr>th_socketTable := (th_socketTable th)[r := -1]\<rparr>))"

definition Thread_CreateListenSockets :: "(nat \<Rightarrow> socket_os) \<Rightarrow> CTCPStunThread \<Rightarrow> HRESULT \<times> CTCPStunThread" where
  "Thread_CreateListenSockets os th =
     (case Thread_CreateListen_loop os [unat RolePP..<unat RoleAA + 1] S_OK th of
        (hr, th) \<Rightarrow> if FAILED hr then (hr, th) else (hr, th\<lparr>th_fListenSocketsOnEpoll := False\<rparr>))"

definition Thread_CloseListenSockets :: "CTCPStunThread \<Rightarrow> CTCPStunThread" where
  "Thread_CloseListenSockets th =
     (let th = fold (\<lambda>r th. case StunSocket_Close (th_socketListenArray th ! r) of (closed, s) \<Rightarrow>
                 (th_log_closed closed th)\<lparr>th_socketListenArray := (th_socketListenArray th)[r := s],
                    th_socketTable := (th_socketTable th)[r := -1]\<rparr>) [0..<4] th
      in th\<lparr>th_countSocks := 0\<rparr>)"

text \<open>The index of the socket in the array.\<close>

definition Thread_GetListenSocket :: "int \<Rightarrow> CTCPStunThread \<Rightarrow> nat option" where
  "Thread_GetListenSocket sock th =
     (if sock \<noteq> -1 then find (\<lambda>i. th_socketTable th ! i = sock) [0..<4] else None)"

subsection \<open>Construction and reset\<close>

definition emptyTSA :: TransportAddressSet where
  "emptyTSA = replicate 4 \<lparr>ta_addr = CSocketAddress_zero, ta_fValid = False\<rparr>"

definition Thread_Reset :: "int \<Rightarrow> CTCPStunThread \<Rightarrow> CTCPStunThread" where
  "Thread_Reset timeNow th =
     (let th = th\<lparr>th_spPolling := None\<rparr>;
          th = Thread_CloseListenSockets th;
          th = Thread_ClosePipes th;
          th = th\<lparr>th_fListenSocketsOnEpoll := False\<rparr>;
          th = th\<lparr>th_tsaListen := emptyTSA\<rparr>;
          th = th\<lparr>th_fNeedToExit := False\<rparr>;
          th = th\<lparr>th_spAuth := None\<rparr>;
          th = th\<lparr>th_role := RolePP\<rparr>;
          th = th\<lparr>th_tsa := emptyTSA\<rparr>;
          th = th\<lparr>th_maxConnections := c_MaxNumberOfConnectionsDefault\<rparr>;
          th = th\<lparr>th_fThreadIsValid := False\<rparr>;
          th = th\<lparr>th_connectionpool := Pool_Reset (th_connectionpool th)\<rparr>;
          th = th\<lparr>th_hashConnections1 := fhd_ResetTable\<rparr>;
          th = th\<lparr>th_hashConnections2 := fhd_ResetTable\<rparr>;
          th = th\<lparr>th_fNewIs1 := True\<rparr>
      in th\<lparr>th_timeLastSweep := timeNow\<rparr>)"

definition Thread_new :: "int \<Rightarrow> CTCPStunThread" where
  "Thread_new timeNow = Thread_Reset timeNow
     \<lparr>th_pipe0 = -1, th_pipe1 = -1, th_spPolling = None, th_fListenSocketsOnEpoll = False, th_spLimiter = None,
      th_tsaListen = emptyTSA, th_socketListenArray = replicate 4 StunSocket_new, th_socketTable = replicate 4 (-1),
      th_countSocks = 0, th_fNeedToExit = False, th_spAuth = None, th_role = RolePP, th_tsa = emptyTSA,
      th_maxConnections = c_MaxNumberOfConnectionsDefault, th_fThreadIsValid = False, th_connectionpool = Pool_new,
      th_hashConnections1 = fhd_ResetTable, th_hashConnections2 = fhd_ResetTable, th_fNewIs1 = True,
      th_timeLastSweep = timeNow, th_accepted = [], th_closed = [], th_sent = []\<rparr>"

text \<open>What the system answers while a thread is set up.\<close>

record init_env =
  ie_sockets :: "nat \<Rightarrow> socket_os"
  ie_pipe :: "int \<times> int \<times> int"
  ie_errno :: int
  ie_time :: int

definition count_valid :: "TransportAddressSet \<Rightarrow> int" where
  "count_valid tsa = sum_list (map (\<lambda>i. if ta_fValid (tsa ! i) then 1 else 0) [0..<4])"

text \<open>The steps of \<^verbatim>\<open>Init\<close> after the checks of its arguments.\<close>

definition Thread_Init_body ::
  "init_env \<Rightarrow> RateLimiter option \<Rightarrow> CTCPStunThread \<Rightarrow> HRESULT \<times> CTCPStunThread" where
  "Thread_Init_body ie spLimiter th =
     Chk (Thread_CreateListenSockets (ie_sockets ie) th) (\<lambda>hr th.
     Chk (Thread_CreatePipes (ie_pipe ie) (ie_errno ie) th) (\<lambda>hr th.
     Chk (case CreatePollingInstance False (-1) IPOLLING_TYPE_BEST (nat (th_maxConnections th + 5)) of
            (hr, Some (PollWith p)) \<Rightarrow> (hr, th\<lparr>th_spPolling := Some p\<rparr>)
          | (hr, _) \<Rightarrow> (hr, th)) (\<lambda>hr th.
     Chk (Thread_SetListenSocketsOnEpoll True th) (\<lambda>hr th.
     Chk (th_poll (CPoll_Add (th_pipe0 th) EPOLL_PIPE_EVENT_SET) th) (\<lambda>hr th.
       (case fhd_InitTable (nat (th_maxConnections th)) 0 (th_hashConnections1 th) of (ret, t) \<Rightarrow>
          (let th = th\<lparr>th_hashConnections1 := t\<rparr>
           in if ret = -1 then (E_FAIL, th)
              else (case fhd_InitTable (nat (th_maxConnections th)) 0 (th_hashConnections2 th) of (ret, t) \<Rightarrow>
                      (let th = th\<lparr>th_hashConnections2 := t\<rparr>
                       in if ret = -1 then (E_FAIL, th)
                          else
                            (let th = th\<lparr>th_fNewIs1 := True\<rparr>;
                                 th = th\<lparr>th_spLimiter := spLimiter\<rparr>
                             in (hr, th\<lparr>th_fNeedToExit := False\<rparr>)))))))))))"

definition Thread_Init ::
  "init_env \<Rightarrow> TransportAddressSet \<Rightarrow> TransportAddressSet \<Rightarrow> IStunAuth option \<Rightarrow> int \<Rightarrow> RateLimiter option
   \<Rightarrow> CTCPStunThread \<Rightarrow> HRESULT \<times> CTCPStunThread" where
  "Thread_Init ie tsaListen tsaHandler pAuth maxConnections spLimiter th =
     (let (hr, th) =
        (if th_pipe0 th \<noteq> -1 then (E_UNEXPECTED, th)
         else if th_fThreadIsValid th then (E_UNEXPECTED, th)
         else
           (let th = th\<lparr>th_maxConnections :=
                        (if maxConnections > 0 then maxConnections else c_MaxNumberOfConnectionsDefault)\<rparr>
            in if th_maxConnections th \<ge> 100000 then (E_INVALIDARG, th)
               else if count_valid tsaListen = 0 then (E_INVALIDARG, th)
               else if count_valid tsaHandler = 0 then (E_INVALIDARG, th)
               else
                 (let th = th\<lparr>th_tsaListen := tsaListen\<rparr>;
                      th = th\<lparr>th_tsa := tsaHandler\<rparr>;
                      th = th\<lparr>th_spAuth := pAuth\<rparr>
                  in Thread_Init_body ie spLimiter th)))
      in if FAILED hr then (hr, Thread_Reset (ie_time ie) th) else (hr, th))"

end
