(* ===== verification/TcpLoop.thy ===== *)
theory TcpLoop
  imports TcpThread
begin

text \<open>
  The thread of the TCP server at work (\<^verbatim>\<open>server/tcpserver.cpp\<close>): accepting connections, reading
  requests, writing responses, closing and sweeping connections, and the loop that waits for events.
\<close>

subsection \<open>Closing connections\<close>

text \<open>The argument \<open>None\<close> is the null pointer.\<close>

definition Thread_CloseConnection :: "nat option \<Rightarrow> CTCPStunThread \<Rightarrow> CTCPStunThread" where
  "Thread_CloseConnection pConn th =
     (case pConn of
        None \<Rightarrow> th
      | Some p \<Rightarrow>
          (let sock = StunSocket_GetSocketHandle (sc_stunsocket (th_conn th p));
               th = snd (th_poll (CPoll_Remove sock) th);
               (closed, s) = StunSocket_Close (sc_stunsocket (th_conn th p));
               th = th_log_closed closed (th_put p ((th_conn th p)\<lparr>sc_stunsocket := s\<rparr>) th);
               th = (if sc_idHashTable (th_conn th p) = 1
                     then th\<lparr>th_hashConnections1 := snd (fh_Remove FastHash_Hash_int sock (th_hashConnections1 th))\<rparr>
                     else if sc_idHashTable (th_conn th p) = 2
                     then th\<lparr>th_hashConnections2 := snd (fh_Remove FastHash_Hash_int sock (th_hashConnections2 th))\<rparr>
                     else th)
           in th\<lparr>th_connectionpool := Pool_ReleaseConnection p (th_connectionpool th)\<rparr>))"

text \<open>
  The loop closes the first connection of a table until there is none. The fuel bounds the number of
  look-ups; \<open>CloseAllConnections_empties\<close> shows that one more than the size of the table is enough.
\<close>

fun Thread_CloseAll_loop :: "nat \<Rightarrow> bool \<Rightarrow> CTCPStunThread \<Rightarrow> CTCPStunThread" where
  "Thread_CloseAll_loop 0 is1 th = th"
| "Thread_CloseAll_loop (Suc fuel) is1 th =
     (case fh_LookupByIndex 0 (th_table is1 th) of (pItem, t) \<Rightarrow>
        (let th = th_set_table is1 t th
         in case pItem of
              None \<Rightarrow> th
            | Some (sock, p) \<Rightarrow> Thread_CloseAll_loop fuel is1 (Thread_CloseConnection (Some p) th)))"

definition Thread_CloseAllConnections :: "bool \<Rightarrow> CTCPStunThread \<Rightarrow> CTCPStunThread" where
  "Thread_CloseAllConnections is1 th = Thread_CloseAll_loop (Suc (fh_Size (th_table is1 th))) is1 th"

definition Thread_SweepDeadConnections :: "int \<Rightarrow> int \<Rightarrow> CTCPStunThread \<Rightarrow> CTCPStunThread" where
  "Thread_SweepDeadConnections timeCurrent timeSwept th =
     (if timeCurrent - th_timeLastSweep th \<ge> c_sweepTimeoutSeconds
      then
        (let th = Thread_CloseAllConnections (\<not> th_fNewIs1 th) th;
             th = th\<lparr>th_timeLastSweep := timeSwept\<rparr>
         in th\<lparr>th_fNewIs1 := (\<not> th_fNewIs1 th)\<rparr>)
      else th)"

definition Thread_ThreadCleanup :: "CTCPStunThread \<Rightarrow> CTCPStunThread" where
  "Thread_ThreadCleanup th =
     (let th = Thread_CloseAllConnections (\<not> th_fNewIs1 th) th
      in Thread_CloseAllConnections (th_fNewIs1 th) th)"

subsection \<open>Writing a response\<close>

text \<open>
  The loop of \<^verbatim>\<open>WriteBytesForConnection\<close>. The result holds the code and the pointer \<^verbatim>\<open>pConn\<close>, which is
  null once the response is complete.
\<close>

fun Thread_Write_loop :: "u8 list \<Rightarrow> nat \<Rightarrow> int \<Rightarrow> nat \<Rightarrow> send_result list \<Rightarrow> CTCPStunThread
    \<Rightarrow> HRESULT \<times> nat option \<times> CTCPStunThread" where
  "Thread_Write_loop pData bytestotal sock p [] th = (S_OK, Some p, th)"
| "Thread_Write_loop pData bytestotal sock p (SendWouldBlock # sends) th = (S_OK, Some p, th)"
| "Thread_Write_loop pData bytestotal sock p (SendError # sends) th = (E_FAIL, Some p, th)"
| "Thread_Write_loop pData bytestotal sock p (Sent n # sends) th =
     (let txCount = sc_txCount (th_conn th p);
          bytesremaining = bytestotal - txCount;
          sent = min n bytesremaining
      in if sent = 0 then (E_UNEXPECTED, Some p, th)
         else
           (let th = th\<lparr>th_sent := th_sent th @ [(sock, take sent (drop txCount pData))]\<rparr>;
                th = th_put p ((th_conn th p)\<lparr>sc_txCount := txCount + sent\<rparr>) th
            in if sc_txCount (th_conn th p) \<ge> bytestotal
               then
                 (let th = th_put p ((th_conn th p)\<lparr>sc_state := ConnectionState_Receiving\<rparr>) th;
                      th = th\<lparr>th_connectionpool := Pool_ResetConnection p (th_connectionpool th)\<rparr>;
                      (hr, th) = th_poll (CPoll_ChangeEventSet sock EPOLL_CLIENT_READ_EVENT_SET) th
                  in if FAILED hr then (hr, Some p, th) else (hr, None, th))
               else Thread_Write_loop pData bytestotal sock p sends th))"

definition Thread_WriteBytesForConnection :: "send_result list \<Rightarrow> nat \<Rightarrow> CTCPStunThread \<Rightarrow> HRESULT \<times> CTCPStunThread" where
  "Thread_WriteBytesForConnection sends p th =
     (let sock = StunSocket_GetSocketHandle (sc_stunsocket (th_conn th p));
          buf = the (sc_spOutputBuffer (th_conn th p));
          pData = (case b_data buf of None \<Rightarrow> [] | Some d \<Rightarrow> d);
          bytestotal = CBuffer_GetSize buf;
          (hr, pConn, th) = Thread_Write_loop pData bytestotal sock p sends th
      in if FAILED hr then (hr, Thread_CloseConnection pConn th) else (hr, th))"

subsection \<open>Reading a request\<close>

definition Thread_RateCheck :: "int \<Rightarrow> CSocketAddress \<Rightarrow> CTCPStunThread \<Rightarrow> bool \<times> CTCPStunThread" where
  "Thread_RateCheck timeNow addr th =
     (case th_spLimiter th of
        None \<Rightarrow> (True, th)
      | Some rl \<Rightarrow> (case RateLimiter_RateCheck timeNow addr rl of (result, rl) \<Rightarrow> (result, th\<lparr>th_spLimiter := Some rl\<rparr>)))"

text \<open>
  The part of the receive loop that handles a complete message. The buffer of the message out is the
  connection's output buffer, which is written through.
\<close>

definition Thread_HandleMessage ::
  "(u8 list \<Rightarrow> u8 list \<Rightarrow> u8 list) \<Rightarrow> (u8 list \<Rightarrow> u8 list) \<Rightarrow> tcp_env \<Rightarrow> int \<Rightarrow> nat \<Rightarrow> CTCPStunThread
   \<Rightarrow> HRESULT \<times> nat option \<times> CTCPStunThread" where
  "Thread_HandleMessage hmac md5 env sock p th =
     (let c = th_conn th p;
          msgIn = \<lparr>in_socketrole = StunSocket_GetRole (sc_stunsocket c),
                   in_addrLocal = StunSocket_GetLocalAddress (sc_stunsocket c),
                   in_addrRemote = StunSocket_GetRemoteAddress (sc_stunsocket c),
                   in_pReader = Some (sc_reader c), in_fConnectionOriented = True\<rparr>;
          msgOut = \<lparr>out_socketrole = 0, out_addrDest = CSocketAddress_zero, out_spBufferOut = sc_spOutputBuffer c\<rparr>;
          (allowed_to_pass, th) = Thread_RateCheck (ev_timeReceive env) (in_addrRemote msgIn) th
      in if allowed_to_pass = False then (E_FAIL, Some p, th)
         else
           (let (hr, msgOut) = Handler_ProcessRequest hmac md5 msgIn msgOut (Some (th_tsa th)) (th_spAuth th);
                th = th_put p ((th_conn th p)\<lparr>sc_spOutputBuffer := out_spBufferOut msgOut\<rparr>) th
            in if FAILED hr then (hr, Some p, th)
               else
                 (let th = th_put p ((th_conn th p)\<lparr>sc_state := ConnectionState_Transmitting\<rparr>) th;
                      (hr, th) = th_poll (CPoll_ChangeEventSet sock EPOLL_CLIENT_WRITE_EVENT_SET) th
                  in if FAILED hr then (hr, Some p, th)
                     else (hr, None, snd (Thread_WriteBytesForConnection (ev_send env) p th)))))"

fun Thread_Receive_loop ::
  "(u8 list \<Rightarrow> u8 list \<Rightarrow> u8 list) \<Rightarrow> (u8 list \<Rightarrow> u8 list) \<Rightarrow> tcp_env \<Rightarrow> int \<Rightarrow> nat \<Rightarrow> recv_result list
   \<Rightarrow> CTCPStunThread \<Rightarrow> HRESULT \<times> nat option \<times> CTCPStunThread" where
  "Thread_Receive_loop hmac md5 env sock p recvs th =
     (let bytesneeded = Reader_HowManyBytesNeeded (sc_reader (th_conn th p))
      in if bytesneeded = 0 then (E_UNEXPECTED, Some p, th)
         else
           (case recvs of
              [] \<Rightarrow> (S_OK, Some p, th)
            | RecvWouldBlock # recvs \<Rightarrow> (S_OK, Some p, th)
            | RecvError # recvs \<Rightarrow> (E_FAIL, Some p, th)
            | Received d # recvs \<Rightarrow>
                (let buffer = take (unat bytesneeded) d
                 in if buffer = [] then (E_FAIL, Some p, th)
                    else
                      (let (readerstate, r) = Reader_AddBytes buffer (sc_reader (th_conn th p));
                           th = th_put p ((th_conn th p)\<lparr>sc_reader := r\<rparr>) th
                       in if readerstate = ParseError then (E_FAIL, Some p, th)
                          else if readerstate = BodyValidated then Thread_HandleMessage hmac md5 env sock p th
                          else Thread_Receive_loop hmac md5 env sock p recvs th))))"

declare Thread_Receive_loop.simps [simp del]

definition Thread_ReceiveBytesForConnection ::
  "(u8 list \<Rightarrow> u8 list \<Rightarrow> u8 list) \<Rightarrow> (u8 list \<Rightarrow> u8 list) \<Rightarrow> tcp_env \<Rightarrow> nat \<Rightarrow> CTCPStunThread
   \<Rightarrow> HRESULT \<times> CTCPStunThread" where
  "Thread_ReceiveBytesForConnection hmac md5 env p th =
     (let sock = StunSocket_GetSocketHandle (sc_stunsocket (th_conn th p));
          (hr, pConn, th) = Thread_Receive_loop hmac md5 env sock p (ev_recv env) th
      in if FAILED hr then (hr, Thread_CloseConnection pConn th) else (hr, th))"

subsection \<open>Accepting connections\<close>

definition Thread_AcceptConnection :: "tcp_env \<Rightarrow> nat \<Rightarrow> CTCPStunThread \<Rightarrow> nat option \<times> CTCPStunThread" where
  "Thread_AcceptConnection env i th =
     (let role = StunSocket_GetRole (th_socketListenArray th ! i);
          (socktmp, addrClient) = ev_accept env
      in if socktmp = -1 then (None, Thread_CloseConnection None th)
         else
           (let th = th\<lparr>th_accepted := th_accepted th @ [socktmp]\<rparr>;
                (allowed_to_pass, th) =
                  Thread_RateCheck (ev_timeAccept env) (CSocketAddress_CommonConstructor addrClient) th
            in if allowed_to_pass = False then (None, th_log_closed [socktmp] (Thread_CloseConnection None th))
               else
                 (let clientsock = socktmp;
                      (pConn, closed, pool) =
                        Pool_GetConnection (ev_os env) (ev_timeStart env) clientsock role (th_connectionpool th);
                      th = th_log_closed closed (th\<lparr>th_connectionpool := pool\<rparr>)
                  in case pConn of
                       None \<Rightarrow> (None, th_log_closed [socktmp] (Thread_CloseConnection None th))
                     | Some p \<Rightarrow>
                         if FAILED (StunSocket_SetNonBlocking (ev_os env) True)
                         then (None, Thread_CloseConnection (Some p) th)
                         else
                           (let (hr, th) = th_poll (CPoll_Add clientsock EPOLL_CLIENT_READ_EVENT_SET) th
                            in if FAILED hr then (None, Thread_CloseConnection (Some p) th)
                               else
                                 (let th = th_put p ((th_conn th p)\<lparr>sc_idHashTable := (if th_fNewIs1 th then 1 else 2)\<rparr>) th;
                                      (insertresult, t) = fh_Insert FastHash_Hash_int clientsock p (pNewConnList th);
                                      th = th_set_table (th_fNewIs1 th) t th
                                  in if insertresult = -1 then (None, Thread_CloseConnection (Some p) th)
                                     else (Some p, th))))))"

subsection \<open>The loop\<close>

definition Thread_ProcessConnectionEvent ::
  "(u8 list \<Rightarrow> u8 list \<Rightarrow> u8 list) \<Rightarrow> (u8 list \<Rightarrow> u8 list) \<Rightarrow> tcp_env \<Rightarrow> int \<Rightarrow> u32 \<Rightarrow> CTCPStunThread
   \<Rightarrow> CTCPStunThread" where
  "Thread_ProcessConnectionEvent hmac md5 env sock eventflags th =
     (let ppConn = fh_Lookup FastHash_Hash_int sock (pNewConnList th);
          ppConn = (case ppConn of None \<Rightarrow> fh_Lookup FastHash_Hash_int sock (pOldConnList th) | Some p \<Rightarrow> Some p)
      in case ppConn of
           None \<Rightarrow> th
         | Some p \<Rightarrow>
             if sc_state (th_conn th p) = ConnectionState_Receiving
             then snd (Thread_ReceiveBytesForConnection hmac md5 env p th)
             else if sc_state (th_conn th p) = ConnectionState_Transmitting
             then snd (Thread_WriteBytesForConnection (ev_send env) p th)
             else th)"

definition Thread_GetTimeoutSeconds :: "CTCPStunThread \<Rightarrow> int" where
  "Thread_GetTimeoutSeconds th =
     (let connCount = fh_Size (pNewConnList th) + fh_Size (pOldConnList th)
      in if connCount = 0 then -1 else c_sweepTimeoutSeconds)"

definition Thread_IsConnectionCountAtMax :: "CTCPStunThread \<Rightarrow> bool" where
  "Thread_IsConnectionCountAtMax th \<longleftrightarrow>
     fh_Size (pNewConnList th) + fh_Size (pOldConnList th) \<ge> nat (th_maxConnections th)"

text \<open>What is done with the event the thread was woken up by.\<close>

definition Thread_HandleEvent ::
  "(u8 list \<Rightarrow> u8 list \<Rightarrow> u8 list) \<Rightarrow> (u8 list \<Rightarrow> u8 list) \<Rightarrow> tcp_env \<Rightarrow> PollEvent \<Rightarrow> CTCPStunThread
   \<Rightarrow> CTCPStunThread" where
  "Thread_HandleEvent hmac md5 env pollevent th =
     (case Thread_GetListenSocket (pe_fd pollevent) th of
        Some i \<Rightarrow>
          (case Thread_AcceptConnection env i th of
             (None, th) \<Rightarrow> th
           | (Some p, th) \<Rightarrow> snd (Thread_ReceiveBytesForConnection hmac md5 env p th))
      | None \<Rightarrow> Thread_ProcessConnectionEvent hmac md5 env (pe_fd pollevent) (pe_eventflags pollevent) th)"

text \<open>One turn of the loop; the first component tells whether it is left.\<close>

definition Thread_Run_step ::
  "(u8 list \<Rightarrow> u8 list \<Rightarrow> u8 list) \<Rightarrow> (u8 list \<Rightarrow> u8 list) \<Rightarrow> tcp_env \<Rightarrow> CTCPStunThread \<Rightarrow> bool \<times> CTCPStunThread" where
  "Thread_Run_step hmac md5 env th =
     (let timeout = Thread_GetTimeoutSeconds th;
          th = snd (Thread_SetListenSocketsOnEpoll (Thread_IsConnectionCountAtMax th = False) th);
          (hrPoll, pollevent, th) =
            (case th_spPolling th of
               None \<Rightarrow> (E_UNEXPECTED, \<lparr>pe_fd = 0, pe_eventflags = 0\<rparr>, th)
             | Some p \<Rightarrow>
                 (case CPoll_WaitForNextEvent (ev_poll env) (ERRNOHR (ev_errno env)) \<lparr>pe_fd = 0, pe_eventflags = 0\<rparr> timeout p of
                    (hr, e, p) \<Rightarrow> (hr, e, th\<lparr>th_spPolling := Some p\<rparr>)));
          th = th\<lparr>th_fNeedToExit := th_fNeedToExit th \<or> ev_exit env\<rparr>
      in if th_fNeedToExit th \<or> pe_fd pollevent = th_pipe0 th then (True, th)
         else
           (let th = (if hrPoll = S_OK then Thread_HandleEvent hmac md5 env pollevent th else th)
            in (False, Thread_SweepDeadConnections (ev_timeSweep env) (ev_timeSwept env) th)))"

text \<open>The state after the given turns, unless the loop is left before.\<close>

fun Thread_Run_loop ::
  "(u8 list \<Rightarrow> u8 list \<Rightarrow> u8 list) \<Rightarrow> (u8 list \<Rightarrow> u8 list) \<Rightarrow> tcp_env list \<Rightarrow> CTCPStunThread \<Rightarrow> CTCPStunThread" where
  "Thread_Run_loop hmac md5 [] th = th"
| "Thread_Run_loop hmac md5 (env # envs) th =
     (if th_fNeedToExit th then th
      else (case Thread_Run_step hmac md5 env th of
              (True, th) \<Rightarrow> th
            | (False, th) \<Rightarrow> Thread_Run_loop hmac md5 envs th))"

text \<open>The function of the thread, from the clock's reading at its start to its end after these turns.\<close>

definition Thread_Run ::
  "(u8 list \<Rightarrow> u8 list \<Rightarrow> u8 list) \<Rightarrow> (u8 list \<Rightarrow> u8 list) \<Rightarrow> int \<Rightarrow> tcp_env list \<Rightarrow> CTCPStunThread \<Rightarrow> CTCPStunThread" where
  "Thread_Run hmac md5 timeNow envs th =
     Thread_ThreadCleanup (Thread_Run_loop hmac md5 envs (th\<lparr>th_timeLastSweep := timeNow\<rparr>))"

subsection \<open>Starting and stopping\<close>

definition Thread_Start :: "int \<Rightarrow> CTCPStunThread \<Rightarrow> HRESULT \<times> CTCPStunThread" where
  "Thread_Start pthread_ret th =
     (if th_fThreadIsValid th then (E_FAIL, th)
      else if th_pipe0 th = -1 then (E_UNEXPECTED, th)
      else
        (let th = th\<lparr>th_fNeedToExit := False\<rparr>
         in if pthread_ret \<noteq> 0 then (ERRNO_TO_HRESULT pthread_ret, th) else (S_OK, th\<lparr>th_fThreadIsValid := True\<rparr>)))"

text \<open>
  \<^verbatim>\<open>Stop\<close> waits until the thread has left its loop, which it does at its next look at the exit flag,
  and has cleaned up.
\<close>

definition Thread_Stop :: "int \<Rightarrow> CTCPStunThread \<Rightarrow> HRESULT \<times> CTCPStunThread" where
  "Thread_Stop timeNow th =
     (let th = (if th_fThreadIsValid th
                then (let th = th\<lparr>th_fNeedToExit := True\<rparr>;
                          th = Thread_ThreadCleanup th
                      in th\<lparr>th_fThreadIsValid := False\<rparr>)
                else th)
      in (S_OK, Thread_Reset timeNow th))"

end
