(* ===== verification/ConnectionPoolProps.thy ===== *)
theory ConnectionPoolProps
  imports ConnectionPool CodecTheorems
begin

text \<open>
  The connection pool as an allocator: its free list is a path through the heap, the objects in use
  are those off it, and \<^verbatim>\<open>GetConnection\<close> and \<^verbatim>\<open>ReleaseConnection\<close> take an object into use and out of it.
\<close>

section \<open>The contract\<close>

locale object_pool =
  fixes inv :: "'p \<Rightarrow> bool"
    and used :: "'p \<Rightarrow> nat set"
    and obj :: "'p \<Rightarrow> nat \<Rightarrow> 'c"
    and good :: "'c \<Rightarrow> bool"
    and idle :: "'c \<Rightarrow> bool"
    and ok :: "'x \<Rightarrow> bool"
    and fresh :: "'x \<Rightarrow> 'c \<Rightarrow> bool"
    and get :: "'x \<Rightarrow> 'p \<Rightarrow> nat option \<times> 'p"
    and release :: "nat \<Rightarrow> 'p \<Rightarrow> 'p"
    and put :: "nat \<Rightarrow> 'c \<Rightarrow> 'p \<Rightarrow> 'p"
  assumes get_new: "inv p \<Longrightarrow> ok x \<Longrightarrow> \<exists>a. fst (get x p) = Some a \<and> a \<notin> used p \<and> inv (snd (get x p)) \<and>
      used (snd (get x p)) = insert a (used p) \<and> fresh x (obj (snd (get x p)) a) \<and>
      (\<forall>b \<in> used p. obj (snd (get x p)) b = obj p b)"
    and release_used: "inv p \<Longrightarrow> a \<in> used p \<Longrightarrow> idle (obj p a) \<Longrightarrow> inv (release a p) \<and>
      used (release a p) = used p - {a} \<and> (\<forall>b \<in> used p - {a}. obj (release a p) b = obj p b)"
    and put_used: "inv p \<Longrightarrow> a \<in> used p \<Longrightarrow> good c \<Longrightarrow> inv (put a c p) \<and> used (put a c p) = used p \<and>
      obj (put a c p) = (obj p)(a := c)"
    and used_good: "inv p \<Longrightarrow> a \<in> used p \<Longrightarrow> good (obj p a)"
begin

text \<open>An object that is taken, made idle and given back leaves the others as they were.\<close>

lemma release_get:
  assumes "inv p" "ok x" "fst (get x p) = Some a" "good c" "idle c"
  shows "inv (release a (put a c (snd (get x p)))) \<and> used (release a (put a c (snd (get x p)))) = used p \<and>
    (\<forall>b \<in> used p. obj (release a (put a c (snd (get x p)))) b = obj p b)"
proof -
  let ?q = "put a c (snd (get x p))"
  from get_new [OF assms(1,2)] assms(3) have g: "a \<notin> used p" "inv (snd (get x p))"
    "used (snd (get x p)) = insert a (used p)" "\<forall>b \<in> used p. obj (snd (get x p)) b = obj p b" by auto
  from put_used [OF g(2) _ assms(4), of a] g(3) have q: "inv ?q" "used ?q = insert a (used p)"
    "obj ?q = (obj (snd (get x p)))(a := c)" by simp_all
  from release_used [OF q(1), of a] q(2,3) assms(5) have "inv (release a ?q)"
    "used (release a ?q) = insert a (used p) - {a}" "\<forall>b \<in> insert a (used p) - {a}. obj (release a ?q) b = obj ?q b"
    by simp_all
  then show ?thesis using g(1,4) q(3) by (auto simp: Diff_insert_absorb)
qed

lemma release_put:
  assumes "inv p" "a \<in> used p" "good c" "idle c"
  shows "inv (release a (put a c p)) \<and> used (release a (put a c p)) = used p - {a} \<and>
    (\<forall>b \<in> used p - {a}. obj (release a (put a c p)) b = obj p b)"
proof -
  from put_used [OF assms(1-3)] have q: "inv (put a c p)" "used (put a c p) = used p" "obj (put a c p) = (obj p)(a := c)"
    by simp_all
  from release_used [OF q(1), of a] q(2,3) assms(2,4) show ?thesis by simp
qed

end

section \<open>The free list\<close>

primrec pool_chain :: "(nat \<Rightarrow> StunConnection option) \<Rightarrow> nat option \<Rightarrow> nat list \<Rightarrow> bool" where
  "pool_chain h p [] \<longleftrightarrow> p = None"
| "pool_chain h p (a # as) \<longleftrightarrow> p = Some a \<and> (\<exists>c. h a = Some c \<and> pool_chain h (sc_pNext c) as)"

lemma pool_chain_upd [simp]: "a \<notin> set as \<Longrightarrow> pool_chain (h(a := x)) p as = pool_chain h p as"
  by (induction as arbitrary: p) auto

lemma pool_chain_unique: "pool_chain h p as \<Longrightarrow> pool_chain h p bs \<Longrightarrow> as = bs"
proof (induction as arbitrary: p bs)
  case Nil
  then show ?case by (cases bs) simp_all
next
  case (Cons a as)
  then show ?case by (cases bs) auto
qed

lemma pool_chain_dom: "pool_chain h p as \<Longrightarrow> set as \<subseteq> dom h"
  by (induction as arbitrary: p) auto

definition pool_free :: "CConnectionPool \<Rightarrow> nat list \<Rightarrow> bool" where
  "pool_free pool as \<longleftrightarrow> pool_chain (pool_heap pool) (pool_freelist pool) as \<and> distinct as"

text \<open>
  Every object has its two buffers, a reader with a sound attribute table and addresses; the ones on
  the free list hold no socket.
\<close>

definition conn_good :: "StunConnection \<Rightarrow> bool" where
  "conn_good c \<longleftrightarrow>
     (\<exists>b. sc_spOutputBuffer c = Some b \<and> buf_wf b \<and> b_allocated b = MAX_STUN_MESSAGE_SIZE) \<and>
     (\<exists>b. sc_spReaderBuffer c = Some b \<and> buf_wf b) \<and> rd_table (sc_reader c) \<and>
     sa_wf (ss_addrlocal (sc_stunsocket c)) \<and> sa_wf (ss_addrremote (sc_stunsocket c))"

definition conn_idle :: "StunConnection \<Rightarrow> bool" where
  "conn_idle c \<longleftrightarrow> ss_sock (sc_stunsocket c) = -1"

definition pool_inv :: "CConnectionPool \<Rightarrow> bool" where
  "pool_inv pool \<longleftrightarrow> dom (pool_heap pool) \<subseteq> {..<pool_next pool} \<and> (\<forall>a \<in> dom (pool_heap pool). conn_good (conn_at pool a)) \<and>
     (\<exists>as. pool_free pool as \<and> (\<forall>a \<in> set as. conn_idle (conn_at pool a)))"

definition pool_used :: "CConnectionPool \<Rightarrow> nat set" where
  "pool_used pool = {a \<in> dom (pool_heap pool). \<forall>as. pool_free pool as \<longrightarrow> a \<notin> set as}"

lemma pool_used_free: "pool_free pool as \<Longrightarrow> pool_used pool = dom (pool_heap pool) - set as"
proof -
  assume "pool_free pool as"
  then have "(\<forall>bs. pool_free pool bs \<longrightarrow> a \<notin> set bs) \<longleftrightarrow> a \<notin> set as" for a
    using pool_chain_unique [of "pool_heap pool" "pool_freelist pool" as] by (auto simp: pool_free_def)
  then show ?thesis by (auto simp: pool_used_def)
qed

lemma pool_invE:
  assumes "pool_inv pool"
  obtains as where "pool_chain (pool_heap pool) (pool_freelist pool) as" "distinct as"
    "dom (pool_heap pool) \<subseteq> {..<pool_next pool}" "\<And>a. a \<in> dom (pool_heap pool) \<Longrightarrow> conn_good (conn_at pool a)"
    "\<And>a. a \<in> set as \<Longrightarrow> conn_idle (conn_at pool a)" "pool_used pool = dom (pool_heap pool) - set as"
proof -
  obtain as where a: "pool_free pool as" "\<forall>a \<in> set as. conn_idle (conn_at pool a)" using assms by (auto simp: pool_inv_def)
  show ?thesis
    by (rule that [of as]) (use assms a pool_used_free [OF a(1)] in \<open>simp_all add: pool_inv_def pool_free_def\<close>)
qed

lemma pool_invI:
  assumes "pool_chain (pool_heap pool) (pool_freelist pool) as" "distinct as"
    "dom (pool_heap pool) \<subseteq> {..<pool_next pool}" "\<And>a. a \<in> dom (pool_heap pool) \<Longrightarrow> conn_good (conn_at pool a)"
    "\<And>a. a \<in> set as \<Longrightarrow> conn_idle (conn_at pool a)"
  shows "pool_inv pool \<and> pool_used pool = dom (pool_heap pool) - set as"
  using assms pool_used_free [of pool as] by (auto simp: pool_inv_def pool_free_def)

lemma pool_used_dom: "pool_used pool \<subseteq> dom (pool_heap pool)"
  by (auto simp: pool_used_def)

section \<open>The operations\<close>

lemma Pool_Reset_loop_chain:
  assumes "pool_chain (pool_heap pool) (pool_freelist pool) as" "distinct as" "length as \<le> fuel"
  shows "pool_freelist (Pool_Reset_loop fuel pool) = None \<and> pool_next (Pool_Reset_loop fuel pool) = pool_next pool \<and>
    pool_heap (Pool_Reset_loop fuel pool) = (\<lambda>a. if a \<in> set as then None else pool_heap pool a)"
  using assms
proof (induction as arbitrary: pool fuel)
  case Nil
  then show ?case by (cases fuel) auto
next
  case (Cons a as)
  obtain f where f: "fuel = Suc f" "length as \<le> f" using Cons.prems(3) by (cases fuel) auto
  obtain c where c: "pool_freelist pool = Some a" "pool_heap pool a = Some c" "pool_chain (pool_heap pool) (sc_pNext c) as"
    using Cons.prems(1) by auto
  let ?p = "pool\<lparr>pool_freelist := sc_pNext c, pool_heap := (pool_heap pool)(a := None)\<rparr>"
  have "pool_chain (pool_heap ?p) (pool_freelist ?p) as" using c(3) Cons.prems(2) by simp
  from Cons.IH [OF this _ f(2)] Cons.prems(2) show ?case using c f by (auto simp: fun_eq_iff)
qed

text \<open>The loop of \<^verbatim>\<open>Reset\<close> ends at the null pointer and deletes exactly the free objects.\<close>

lemma Pool_Reset_empties:
  assumes "pool_inv pool"
  shows "pool_freelist (Pool_Reset pool) = None \<and> pool_inv (Pool_Reset pool) \<and> pool_used (Pool_Reset pool) = pool_used pool \<and>
    dom (pool_heap (Pool_Reset pool)) = pool_used pool"
proof -
  obtain as where a: "pool_chain (pool_heap pool) (pool_freelist pool) as" "distinct as"
    "dom (pool_heap pool) \<subseteq> {..<pool_next pool}" "\<And>a. a \<in> dom (pool_heap pool) \<Longrightarrow> conn_good (conn_at pool a)"
    "\<And>a. a \<in> set as \<Longrightarrow> conn_idle (conn_at pool a)" "pool_used pool = dom (pool_heap pool) - set as"
    by (rule pool_invE [OF assms]) blast
  have "card (set as) \<le> card {..<pool_next pool}" using pool_chain_dom [OF a(1)] a(3) by (intro card_mono) auto
  then have "length as \<le> pool_next pool" using a(2) by (simp add: distinct_card)
  note l = Pool_Reset_loop_chain [OF a(1,2) this]
  let ?q = "Pool_Reset pool"
  have q: "pool_chain (pool_heap ?q) (pool_freelist ?q) []" "pool_next ?q = pool_next pool"
    "pool_heap ?q = (\<lambda>a. if a \<in> set as then None else pool_heap pool a)" using l by (simp_all add: Pool_Reset_def)
  have d: "dom (pool_heap ?q) = pool_used pool" unfolding q(3) by (auto simp: a(6) split: if_splits)
  have "conn_good (conn_at ?q b)" if "b \<in> dom (pool_heap ?q)" for b
  proof -
    have "b \<in> dom (pool_heap pool)" "conn_at ?q b = conn_at pool b" using that by (auto simp: q(3) split: if_splits)
    then show ?thesis using a(4) by simp
  qed
  moreover have "dom (pool_heap ?q) \<subseteq> {..<pool_next ?q}" unfolding d q(2) using a(3,6) by auto
  ultimately have "pool_inv ?q \<and> pool_used ?q = dom (pool_heap ?q) - set []" by (intro pool_invI [OF q(1)]) auto
  then show ?thesis using q(1) d by simp
qed

lemma Reader_new_table: "rd_table Reader_new"
  using feed_table [of "[]"] by simp

lemma conn_good_new: "conn_good (StunConnection_new\<lparr>sc_spOutputBuffer := Some (CBuffer_alloc MAX_STUN_MESSAGE_SIZE),
    sc_spReaderBuffer := Some (CBuffer_alloc MAX_STUN_MESSAGE_SIZE), sc_pNext := p\<rparr>)"
  unfolding conn_good_def by (simp add: StunConnection_new_def StunSocket_new_def Reader_new_table)

lemma Pool_Grow_step_inv:
  assumes "pool_inv pool"
  shows "pool_inv (Pool_Grow_step pool) \<and> pool_used (Pool_Grow_step pool) = pool_used pool \<and>
    pool_freelist (Pool_Grow_step pool) \<noteq> None \<and> (\<forall>b \<in> pool_used pool. conn_at (Pool_Grow_step pool) b = conn_at pool b)"
proof -
  obtain as where a: "pool_chain (pool_heap pool) (pool_freelist pool) as" "distinct as"
    "dom (pool_heap pool) \<subseteq> {..<pool_next pool}" "\<And>a. a \<in> dom (pool_heap pool) \<Longrightarrow> conn_good (conn_at pool a)"
    "\<And>a. a \<in> set as \<Longrightarrow> conn_idle (conn_at pool a)" "pool_used pool = dom (pool_heap pool) - set as"
    by (rule pool_invE [OF assms]) blast
  define c where "c = StunConnection_new\<lparr>sc_spOutputBuffer := Some (CBuffer_alloc MAX_STUN_MESSAGE_SIZE),
    sc_spReaderBuffer := Some (CBuffer_alloc MAX_STUN_MESSAGE_SIZE), sc_pNext := pool_freelist pool\<rparr>"
  have c: "conn_good c" "sc_pNext c = pool_freelist pool" "conn_idle c"
    unfolding c_def by (rule conn_good_new) (simp_all add: conn_idle_def StunConnection_new_def StunSocket_new_def)
  let ?n = "pool_next pool" and ?q = "Pool_Grow_step pool"
  have q: "pool_heap ?q = (pool_heap pool)(?n := Some c)" "pool_next ?q = ?n + 1" "pool_freelist ?q = Some ?n"
    by (simp_all add: Pool_Grow_step_def c_def Let_def)
  have n: "?n \<notin> dom (pool_heap pool)" using a(3) by auto
  then have "?n \<notin> set as" using pool_chain_dom [OF a(1)] by auto
  then have ch: "pool_chain (pool_heap ?q) (pool_freelist ?q) (?n # as)" "distinct (?n # as)"
    using a(1,2) c(2) by (simp_all add: q)
  moreover have "dom (pool_heap ?q) \<subseteq> {..<pool_next ?q}" using a(3) by (auto simp: q)
  moreover have "\<And>b. b \<in> dom (pool_heap ?q) \<Longrightarrow> conn_good (conn_at ?q b)" using a(4) c(1) by (auto simp: q)
  moreover have "\<And>b. b \<in> set (?n # as) \<Longrightarrow> conn_idle (conn_at ?q b)" using a(5) c(3) n by (auto simp: q)
  ultimately have "pool_inv ?q \<and> pool_used ?q = dom (pool_heap ?q) - set (?n # as)" by (rule pool_invI)
  moreover have "dom (pool_heap ?q) - set (?n # as) = pool_used pool" using n by (auto simp: q a(6))
  moreover have "conn_at ?q b = conn_at pool b" if "b \<in> pool_used pool" for b
    using that n pool_used_dom [of pool] by (auto simp: q)
  ultimately show ?thesis using q(3) by simp
qed

lemma Pool_Grow_inv:
  assumes "pool_inv pool"
  shows "pool_inv (snd (Pool_Grow pool)) \<and> pool_used (snd (Pool_Grow pool)) = pool_used pool \<and>
    pool_freelist (snd (Pool_Grow pool)) \<noteq> None \<and> (\<forall>b \<in> pool_used pool. conn_at (snd (Pool_Grow pool)) b = conn_at pool b)"
proof -
  have "pool_inv ((Pool_Grow_step ^^ n) pool) \<and> pool_used ((Pool_Grow_step ^^ n) pool) = pool_used pool \<and>
      (0 < n \<longrightarrow> pool_freelist ((Pool_Grow_step ^^ n) pool) \<noteq> None) \<and>
      (\<forall>b \<in> pool_used pool. conn_at ((Pool_Grow_step ^^ n) pool) b = conn_at pool b)" for n
  proof (induction n)
    case (Suc n)
    from Pool_Grow_step_inv [OF conjunct1 [OF Suc]] Suc show ?case by simp
  qed (use assms in simp)
  from this [of 50] show ?thesis by (simp only: Pool_Grow_def snd_conv) simp
qed

lemma Pool_Release_inv:
  assumes "pool_inv pool" "a \<in> pool_used pool" "conn_idle (conn_at pool a)"
  shows "pool_inv (Pool_ReleaseConnection a pool) \<and> pool_used (Pool_ReleaseConnection a pool) = pool_used pool - {a} \<and>
    (\<forall>b \<in> pool_used pool - {a}. conn_at (Pool_ReleaseConnection a pool) b = conn_at pool b)"
proof -
  obtain as where p: "pool_chain (pool_heap pool) (pool_freelist pool) as" "distinct as"
    "dom (pool_heap pool) \<subseteq> {..<pool_next pool}" "\<And>a. a \<in> dom (pool_heap pool) \<Longrightarrow> conn_good (conn_at pool a)"
    "\<And>a. a \<in> set as \<Longrightarrow> conn_idle (conn_at pool a)" "pool_used pool = dom (pool_heap pool) - set as"
    by (rule pool_invE [OF assms(1)]) blast
  have a: "a \<in> dom (pool_heap pool)" "a \<notin> set as" using assms(2) p(6) by auto
  let ?q = "Pool_ReleaseConnection a pool" and ?c = "(conn_at pool a)\<lparr>sc_pNext := pool_freelist pool\<rparr>"
  have q: "pool_heap ?q = (pool_heap pool)(a := Some ?c)" "pool_next ?q = pool_next pool" "pool_freelist ?q = Some a"
    by (simp_all add: Pool_ReleaseConnection_def)
  have c: "conn_good ?c" "conn_idle ?c" using p(4) [OF a(1)] assms(3) by (simp_all add: conn_good_def conn_idle_def)
  have "pool_chain (pool_heap ?q) (pool_freelist ?q) (a # as)" "distinct (a # as)"
    using p(1,2) a(2) by (simp_all add: q)
  moreover have "dom (pool_heap ?q) \<subseteq> {..<pool_next ?q}" using p(3) a(1) by (auto simp: q)
  moreover have "\<And>b. b \<in> dom (pool_heap ?q) \<Longrightarrow> conn_good (conn_at ?q b)" using p(4) c(1) by (auto simp: q)
  moreover have "\<And>b. b \<in> set (a # as) \<Longrightarrow> conn_idle (conn_at ?q b)" using p(5) c(2) by (auto simp: q)
  ultimately have "pool_inv ?q \<and> pool_used ?q = dom (pool_heap ?q) - set (a # as)" by (rule pool_invI)
  moreover have "dom (pool_heap ?q) - set (a # as) = pool_used pool - {a}" using a by (auto simp: q p(6))
  ultimately show ?thesis by (simp add: q)
qed

lemma pool_put_inv:
  assumes "pool_inv pool" "a \<in> pool_used pool" "conn_good c"
  shows "pool_inv (pool_put a c pool) \<and> pool_used (pool_put a c pool) = pool_used pool \<and>
    conn_at (pool_put a c pool) = (conn_at pool)(a := c)"
proof -
  obtain as where p: "pool_chain (pool_heap pool) (pool_freelist pool) as" "distinct as"
    "dom (pool_heap pool) \<subseteq> {..<pool_next pool}" "\<And>a. a \<in> dom (pool_heap pool) \<Longrightarrow> conn_good (conn_at pool a)"
    "\<And>a. a \<in> set as \<Longrightarrow> conn_idle (conn_at pool a)" "pool_used pool = dom (pool_heap pool) - set as"
    by (rule pool_invE [OF assms(1)]) blast
  have a: "a \<in> dom (pool_heap pool)" "a \<notin> set as" using assms(2) p(6) by auto
  let ?q = "pool_put a c pool"
  have "pool_chain (pool_heap ?q) (pool_freelist ?q) as" using p(1) a(2) by simp
  moreover have "dom (pool_heap ?q) \<subseteq> {..<pool_next ?q}" using p(3) a(1) by auto
  moreover have "\<And>b. b \<in> dom (pool_heap ?q) \<Longrightarrow> conn_good (conn_at ?q b)" using p(4) assms(3) by auto
  moreover have "\<And>b. b \<in> set as \<Longrightarrow> conn_idle (conn_at ?q b)" using p(5) a(2) by auto
  moreover note p(2)
  ultimately have "pool_inv ?q \<and> pool_used ?q = dom (pool_heap ?q) - set as" by (intro pool_invI) auto
  moreover have "dom (pool_heap ?q) - set as = pool_used pool" using a(1) by (auto simp: p(6))
  ultimately show ?thesis by (auto simp: fun_eq_iff)
qed

section \<open>Taking a connection\<close>

text \<open>The addresses the system reports are socket addresses.\<close>

definition os_wf :: "socket_os \<Rightarrow> bool" where
  "os_wf os \<longleftrightarrow> (\<forall>a. os_getsockname os = Some a \<longrightarrow> sa_wf a) \<and> (\<forall>a. os_getpeername os = Some a \<longrightarrow> sa_wf a)"

type_synonym accepted = "socket_os \<times> int \<times> int \<times> SocketRole"

fun accepted_ok :: "accepted \<Rightarrow> bool" where
  "accepted_ok (os, timeNow, sock, role) \<longleftrightarrow> sock \<noteq> -1 \<and> os_wf os"

text \<open>A connection that is ready for its first request.\<close>

fun conn_fresh :: "accepted \<Rightarrow> StunConnection \<Rightarrow> bool" where
  "conn_fresh (os, timeNow, sock, role) c \<longleftrightarrow> conn_good c \<and> ss_sock (sc_stunsocket c) = sock \<and>
     ss_role (sc_stunsocket c) = role \<and> sc_state c = ConnectionState_Receiving \<and> sc_txCount c = 0 \<and>
     sc_timeStart c = timeNow \<and> sc_idHashTable c = -1 \<and> rd_inv True [] (sc_reader c)"

fun pool_get :: "accepted \<Rightarrow> CConnectionPool \<Rightarrow> nat option \<times> CConnectionPool" where
  "pool_get (os, timeNow, sock, role) pool =
     (case Pool_GetConnection os timeNow sock role pool of (pConn, _, pool) \<Rightarrow> (pConn, pool))"

lemma sa_wf_CommonConstructor: "sa_wf a \<Longrightarrow> sa_wf (CSocketAddress_CommonConstructor a)"
  by (auto simp: sa_wf_def CSocketAddress_CommonConstructor_def)

lemma DS_Attach_ok:
  assumes "buf_wf b"
  shows "ds_ok (DS_Attach (Some b) True s) \<and> ds_bytes (DS_Attach (Some b) True s) = []"
  using assms by (simp add: DS_Attach_def DS_Reset_def ds_ok_def ds_wf_def ds_bytes_def CBuffer_SetSize_def buf_wf_def
      buf_bytes_def SUCCEEDED_def split: option.splits)

lemma conn_ResetReader_inv:
  assumes "conn_good c"
  shows "conn_good (conn_ResetReader c) \<and> rd_inv True [] (sc_reader (conn_ResetReader c))"
proof -
  obtain b where b: "sc_spReaderBuffer c = Some b" "buf_wf b" using assms by (auto simp: conn_good_def)
  let ?r = "Reader_Reset (sc_reader c)"
  have t: "rd_table (sc_reader c)" using assms by (simp add: conn_good_def)
  have "rd_table ?r" using t fh_Reset_inv [of FastHash_Hash_u16 "rd_mapAttributes (sc_reader c)"]
    by (simp add: rd_table_def Reader_Reset_def)
  moreover have "rd_inv True [] ?r" using Reader_Reset_inv t by (simp add: rd_table_def)
  then have "rd_inv True [] (?r\<lparr>rd_stream := DS_Attach (Some b) True (rd_stream ?r)\<rparr>)"
    using DS_Attach_ok [OF b(2)] by (simp add: rd_inv_def rd_attrs_def verdict_def STUN_HEADER_SIZE_def)
  ultimately show ?thesis using assms b by (simp add: conn_ResetReader_def Let_def conn_good_def)
qed

lemma Attach_idle:
  assumes "ss_sock s = -1" "sock \<noteq> -1" "os_wf os"
  shows "fst (snd (StunSocket_Attach os sock s)) = []" "ss_sock (snd (snd (StunSocket_Attach os sock s))) = sock"
    "sa_wf (ss_addrlocal (snd (snd (StunSocket_Attach os sock s))))"
    "sa_wf (ss_addrremote (snd (snd (StunSocket_Attach os sock s))))"
  using assms sa_wf_CommonConstructor
  by (auto simp: StunSocket_Attach_def StunSocket_Close_def StunSocket_Reset_def StunSocket_UpdateAddresses_def
      os_wf_def Let_def split: option.split)

lemma Pool_GetConnection_inv:
  assumes "pool_inv pool" "sock \<noteq> -1" "os_wf os"
  obtains a pool' where "Pool_GetConnection os timeNow sock role pool = (Some a, [], pool')" "a \<notin> pool_used pool"
    "pool_inv pool'" "pool_used pool' = insert a (pool_used pool)" "conn_fresh (os, timeNow, sock, role) (conn_at pool' a)"
    "\<And>b. b \<in> pool_used pool \<Longrightarrow> conn_at pool' b = conn_at pool b"
proof -
  define g where "g = (if pool_freelist pool = None then snd (Pool_Grow pool) else pool)"
  have g: "pool_inv g" "pool_used g = pool_used pool" "pool_freelist g \<noteq> None"
    "\<And>b. b \<in> pool_used pool \<Longrightarrow> conn_at g b = conn_at pool b"
    using Pool_Grow_inv [OF assms(1)] assms(1) by (auto simp: g_def)
  obtain as where p: "pool_chain (pool_heap g) (pool_freelist g) as" "distinct as"
    "dom (pool_heap g) \<subseteq> {..<pool_next g}" "\<And>a. a \<in> dom (pool_heap g) \<Longrightarrow> conn_good (conn_at g a)"
    "\<And>a. a \<in> set as \<Longrightarrow> conn_idle (conn_at g a)" "pool_used g = dom (pool_heap g) - set as"
    by (rule pool_invE [OF g(1)]) blast
  obtain a bs where as: "as = a # bs" "pool_freelist g = Some a" using p(1) g(3) by (cases as) auto
  obtain c where c: "pool_heap g a = Some c" "pool_chain (pool_heap g) (sc_pNext c) bs" using p(1) as by auto
  have ad: "a \<in> dom (pool_heap g)" "a \<notin> set bs" using c p(2) as by auto
  have cg: "conn_good c" "conn_idle c" using p(4) [OF ad(1)] p(5) [of a] as c by simp_all
  let ?r = "conn_ResetReader (c\<lparr>sc_pNext := None\<rparr>)"
  let ?s = "snd (snd (StunSocket_Attach os sock (sc_stunsocket ?r)))"
  define c' where "c' = ?r\<lparr>sc_state := ConnectionState_Receiving, sc_stunsocket := StunSocket_SetRole role ?s,
      sc_txCount := 0, sc_timeStart := timeNow, sc_idHashTable := -1\<rparr>"
  let ?q = "pool_put a c' (g\<lparr>pool_freelist := sc_pNext c\<rparr>)"
  have r: "conn_good ?r \<and> rd_inv True [] (sc_reader ?r)"
    using cg(1) by (intro conn_ResetReader_inv) (simp add: conn_good_def)
  have s: "sc_stunsocket ?r = sc_stunsocket c" by (simp add: conn_ResetReader_def Let_def)
  have "ss_sock (sc_stunsocket c) = -1" using cg(2) by (simp add: conn_idle_def)
  note at = Attach_idle [OF this assms(2,3)]
  have eq: "Pool_GetConnection os timeNow sock role pool = (Some a, [], ?q)"
    using at(1) as(2) c(1) s
    by (simp add: Pool_GetConnection_def Let_def case_prod_beta c'_def flip: g_def)
  have good: "conn_good c'" using r at by (simp add: c'_def conn_good_def s StunSocket_SetRole_def)
  have fr: "conn_fresh (os, timeNow, sock, role) c'"
    using r at good by (simp add: c'_def s StunSocket_SetRole_def)
  have "pool_chain (pool_heap ?q) (pool_freelist ?q) bs" "distinct bs" using c(2) ad(2) p(2) as by simp_all
  moreover have "dom (pool_heap ?q) \<subseteq> {..<pool_next ?q}" using p(3) ad(1) by auto
  moreover have "\<And>b. b \<in> dom (pool_heap ?q) \<Longrightarrow> conn_good (conn_at ?q b)" using p(4) good by auto
  moreover have "\<And>b. b \<in> set bs \<Longrightarrow> conn_idle (conn_at ?q b)" using p(5) as ad(2) by auto
  ultimately have q: "pool_inv ?q \<and> pool_used ?q = dom (pool_heap ?q) - set bs" by (rule pool_invI)
  have u: "pool_used ?q = insert a (pool_used pool)" using q ad p(6) as by (auto simp flip: g(2))
  have n: "a \<notin> pool_used pool" using p(6) as by (auto simp flip: g(2))
  show ?thesis
  proof (rule that [OF eq n _ u])
    show "pool_inv ?q" using q by simp
    show "conn_fresh (os, timeNow, sock, role) (conn_at ?q a)" using fr by simp
    show "conn_at ?q b = conn_at pool b" if "b \<in> pool_used pool" for b using that n g(4) [OF that] by auto
  qed
qed

lemma pool_get_new:
  assumes "pool_inv pool" "accepted_ok x"
  shows "\<exists>a. fst (pool_get x pool) = Some a \<and> a \<notin> pool_used pool \<and> pool_inv (snd (pool_get x pool)) \<and>
    pool_used (snd (pool_get x pool)) = insert a (pool_used pool) \<and> conn_fresh x (conn_at (snd (pool_get x pool)) a) \<and>
    (\<forall>b \<in> pool_used pool. conn_at (snd (pool_get x pool)) b = conn_at pool b)"
proof -
  obtain os t sock role where x: "x = (os, t, sock, role)" by (metis prod_cases4)
  with assms(2) have "sock \<noteq> -1" "os_wf os" by simp_all
  from Pool_GetConnection_inv [OF assms(1) this, of t role] show ?thesis by (rule) (auto simp: x)
qed

interpretation cp: object_pool pool_inv pool_used conn_at conn_good conn_idle accepted_ok conn_fresh pool_get
  Pool_ReleaseConnection pool_put
proof (unfold_locales, goal_cases)
  case (1 p x)
  then show ?case by (rule pool_get_new)
next
  case (2 p a)
  then show ?case by (rule Pool_Release_inv)
next
  case (3 p a c)
  then show ?case by (rule pool_put_inv)
next
  case (4 p a)
  then show ?case using pool_used_dom [of p] by (blast elim: pool_invE)
qed

end
