(* ===== verification/ConnectionMap.thy ===== *)
theory ConnectionMap
  imports StorageTheorems FastHashDynamic
begin

text \<open>
  The hash table used as a map from sockets: as long as every key is inserted at most once at a
  time, the table is a finite map of bounded size. The contract \<open>bounded_map\<close> is what the threads of
  the TCP server rely on for their two connection tables; it is proved of the model of the hash table.
\<close>

section \<open>The contract\<close>

locale bounded_map =
  fixes inv :: "'t \<Rightarrow> bool"
    and cap :: "'t \<Rightarrow> nat"
    and content :: "'t \<Rightarrow> 'k \<Rightarrow> 'v option"
    and size :: "'t \<Rightarrow> nat"
    and insert :: "'k \<Rightarrow> 'v \<Rightarrow> 't \<Rightarrow> int \<times> 't"
    and remove :: "'k \<Rightarrow> 't \<Rightarrow> int \<times> 't"
    and lookup :: "'k \<Rightarrow> 't \<Rightarrow> 'v option"
    and first :: "'t \<Rightarrow> ('k \<times> 'v) option \<times> 't"
  assumes insert_new: "inv t \<Longrightarrow> content t k = None \<Longrightarrow> size t < cap t \<Longrightarrow> fst (insert k v t) \<noteq> -1 \<and>
      inv (snd (insert k v t)) \<and> content (snd (insert k v t)) = (content t)(k \<mapsto> v) \<and> cap (snd (insert k v t)) = cap t"
    and remove_content: "inv t \<Longrightarrow> inv (snd (remove k t)) \<and> content (snd (remove k t)) = (content t)(k := None) \<and>
      cap (snd (remove k t)) = cap t"
    and lookup_content: "inv t \<Longrightarrow> lookup k t = content t k"
    and size_content: "inv t \<Longrightarrow> finite (dom (content t)) \<and> size t = card (dom (content t))"
    and first_content: "inv t \<Longrightarrow> inv (snd (first t)) \<and> content (snd (first t)) = content t \<and> cap (snd (first t)) = cap t \<and>
      (case fst (first t) of None \<Rightarrow> content t = Map.empty | Some (k, v) \<Rightarrow> content t k = Some v)"
begin

lemma size_remove: "inv t \<Longrightarrow> content t k \<noteq> None \<Longrightarrow> Suc (size (snd (remove k t))) = size t"
proof -
  assume t: "inv t" "content t k \<noteq> None"
  then have "dom (content (snd (remove k t))) = dom (content t) - {k}" and "k \<in> dom (content t)"
    using remove_content [of t k] by auto
  moreover have "Suc (card (dom (content t) - {k})) = card (dom (content t))"
    using size_content [OF t(1)] \<open>k \<in> dom (content t)\<close> by (intro card_Suc_Diff1) simp_all
  ultimately show ?thesis using size_content [OF t(1)] size_content [of "snd (remove k t)"] remove_content [OF t(1), of k]
    by simp
qed

lemma size_insert: "inv t \<Longrightarrow> content t k = None \<Longrightarrow> size t < cap t \<Longrightarrow> size (snd (insert k v t)) = Suc (size t)"
proof -
  assume t: "inv t" "content t k = None" "size t < cap t"
  then have "dom (content (snd (insert k v t))) = Set.insert k (dom (content t))" "k \<notin> dom (content t)"
    using insert_new [of t k v] by auto
  then show ?thesis using size_content [OF t(1)] size_content [of "snd (insert k v t)"] insert_new [OF t, of v] by simp
qed

lemma size_zero: "inv t \<Longrightarrow> size t = 0 \<longleftrightarrow> content t = Map.empty"
  using size_content [of t] by simp

end

section \<open>The hash table as a map\<close>

definition cmap :: "(int, 'v) FastHash \<Rightarrow> int \<Rightarrow> 'v option" where
  "cmap h k = (case fh_stack FastHash_Hash_int h k of [] \<Rightarrow> None | v # _ \<Rightarrow> Some v)"

definition cmap_inv :: "(int, 'v) FastHash \<Rightarrow> bool" where
  "cmap_inv h \<longleftrightarrow> fh_inv FastHash_Hash_int h \<and> (\<forall>k. length (fh_stack FastHash_Hash_int h k) \<le> 1) \<and>
     finite (dom (cmap h)) \<and> fh_size h = card (dom (cmap h))"

lemma cmap_stack: "length (fh_stack FastHash_Hash_int h k) \<le> 1 \<Longrightarrow>
    fh_stack FastHash_Hash_int h k = (case cmap h k of None \<Rightarrow> [] | Some v \<Rightarrow> [v])"
  by (cases "fh_stack FastHash_Hash_int h k") (simp_all add: cmap_def)

lemma cmap_None: "cmap h k = None \<longleftrightarrow> fh_stack FastHash_Hash_int h k = []"
  by (simp add: cmap_def split: list.split)

lemma cmap_update: "fh_stack FastHash_Hash_int g = (fh_stack FastHash_Hash_int h)(k := vs) \<Longrightarrow>
    cmap g = (cmap h)(k := (case vs of [] \<Rightarrow> None | v # _ \<Rightarrow> Some v))"
  by (auto simp: cmap_def fun_eq_iff)

lemma fh_size_le: "fh_inv hash h \<Longrightarrow> fh_size h \<le> fh_fsize h"
  using fh_rep_length by (fastforce simp: fh_inv_def)

lemma cmap_insert:
  assumes "cmap_inv h" "cmap h k = None" "fh_size h < fh_fsize h"
  shows "fst (fh_Insert FastHash_Hash_int k v h) \<noteq> -1 \<and> cmap_inv (snd (fh_Insert FastHash_Hash_int k v h)) \<and>
    cmap (snd (fh_Insert FastHash_Hash_int k v h)) = (cmap h)(k \<mapsto> v) \<and>
    fh_fsize (snd (fh_Insert FastHash_Hash_int k v h)) = fh_fsize h"
proof -
  let ?g = "snd (fh_Insert FastHash_Hash_int k v h)"
  have inv: "fh_inv FastHash_Hash_int h" "0 < fh_room h" using assms by (simp_all add: cmap_inv_def fh_room_def)
  note i = fh_Insert_inv [OF inv, of k v]
  have m: "cmap ?g = (cmap h)(k \<mapsto> v)" using cmap_update [OF i(4)] by simp
  have "fh_size ?g = fh_size h + 1" using i(3) assms(3) fh_size_le [OF i(2)] by (simp add: fh_room_def)
  moreover have "card (dom (cmap ?g)) = card (dom (cmap h)) + 1"
    using assms(1,2) by (simp add: m cmap_inv_def domIff)
  moreover have "length (fh_stack FastHash_Hash_int ?g k') \<le> 1" for k'
    using assms(1,2) by (simp add: i(4) cmap_inv_def cmap_None)
  ultimately show ?thesis using assms(1) i(1,2) m by (simp add: cmap_inv_def)
qed

lemma cmap_remove:
  assumes "cmap_inv h"
  shows "cmap_inv (snd (fh_Remove FastHash_Hash_int k h)) \<and> cmap (snd (fh_Remove FastHash_Hash_int k h)) = (cmap h)(k := None) \<and>
    fh_fsize (snd (fh_Remove FastHash_Hash_int k h)) = fh_fsize h"
proof (cases "fh_stack FastHash_Hash_int h k = []")
  case True
  then have "snd (fh_Remove FastHash_Hash_int k h) = h" using assms ft.remove_none [of FastHash_Hash_int h k] by (simp add: cmap_inv_def)
  then show ?thesis using assms True by (simp add: cmap_None fun_upd_idem)
next
  case False
  let ?g = "snd (fh_Remove FastHash_Hash_int k h)"
  have inv: "fh_inv FastHash_Hash_int h" using assms by (simp add: cmap_inv_def)
  note r = fh_Remove_inv [OF inv False]
  have one: "length (fh_stack FastHash_Hash_int h k') \<le> 1" for k' using assms by (simp add: cmap_inv_def)
  then have tl: "tl (fh_stack FastHash_Hash_int h k) = []" using one [of k] by (cases "fh_stack FastHash_Hash_int h k") simp_all
  have m: "cmap ?g = (cmap h)(k := None)" using cmap_update [OF r(4)] by (simp add: tl)
  have k: "k \<in> dom (cmap h)" using False cmap_None [of h k] by auto
  then have "0 < card (dom (cmap h))" using assms by (auto simp: cmap_inv_def card_gt_0_iff)
  then have "0 < fh_size h" using assms by (simp add: cmap_inv_def)
  then have "fh_size ?g = fh_size h - 1"
    using r(3) fh_size_le [OF inv] fh_size_le [OF r(2)] by (simp add: fh_room_def)
  moreover have "card (dom (cmap ?g)) = card (dom (cmap h)) - 1"
    using assms k by (simp add: m cmap_inv_def card_Diff_singleton)
  moreover have "length (fh_stack FastHash_Hash_int ?g k') \<le> 1" for k'
    using one [of k'] by (simp add: r(4) tl)
  ultimately show ?thesis using assms r(2) m by (simp add: cmap_inv_def)
qed

lemma fh_items_Some:
  assumes "fh_inv hash h" "x \<in> set (fh_items h)"
  obtains k v where "x = Some (k, v)" "v \<in> set (fh_stack hash h k)"
proof -
  obtain cs fl where r: "fh_rep hash h cs fl" using assms(1) by (auto simp: fh_inv_def)
  obtain t i where t: "t < length cs" "i \<in> set (cs ! t)" "x = fh_nodes h ! i"
    using assms(2) by (auto simp: fh_items_rep [OF r] in_set_conv_nth [of _ cs])
  then have "fh_placed hash h t i" using r by (auto simp: fh_rep_def)
  then obtain k v where x: "x = Some (k, v)" using t(3) by (auto simp: fh_placed_def split: option.splits)
  have "v \<in> set (values_of k (fh_items h))" using assms(2) x by (force simp: values_of_def)
  then show ?thesis using that [OF x] fh_items_values [OF assms(1), of k] by simp
qed

lemma cmap_first:
  assumes "cmap_inv h"
  shows "cmap_inv (snd (fh_LookupByIndex 0 h)) \<and> cmap (snd (fh_LookupByIndex 0 h)) = cmap h \<and>
    fh_fsize (snd (fh_LookupByIndex 0 h)) = fh_fsize h \<and>
    (case fst (fh_LookupByIndex 0 h) of None \<Rightarrow> cmap h = Map.empty | Some (k, v) \<Rightarrow> cmap h k = Some v)"
proof -
  have inv: "fh_inv FastHash_Hash_int h" and one: "\<And>k. length (fh_stack FastHash_Hash_int h k) \<le> 1"
    using assms by (simp_all add: cmap_inv_def)
  let ?g = "snd (fh_LookupByIndex 0 h)"
  note l = fh_LookupByIndex_inv [OF inv, of 0]
  have sizes: "fh_fsize ?g = fh_fsize h" "fh_size ?g = fh_size h"
    by (auto simp: fh_LookupByIndex_def fh_ReIndex_def Let_def split: option.splits prod.splits)
  have m: "cmap ?g = cmap h" by (simp add: cmap_def fun_eq_iff l(2))
  have "case fst (fh_LookupByIndex 0 h) of None \<Rightarrow> cmap h = Map.empty | Some (k, v) \<Rightarrow> cmap h k = Some v"
  proof (cases "fh_size h = 0")
    case True
    then have "fst (fh_LookupByIndex 0 h) = None" by (simp add: fh_LookupByIndex_def)
    moreover have "finite (dom (cmap h))" "card (dom (cmap h)) = 0" using assms True by (simp_all add: cmap_inv_def)
    then have "cmap h = Map.empty" by simp
    ultimately show ?thesis by simp
  next
    case False
    then have "fst (fh_LookupByIndex 0 h) \<in> set (map (\<lambda>i. fst (fh_LookupByIndex i h)) [0..<fh_size h])" by auto
    then have "fst (fh_LookupByIndex 0 h) \<in> set (fh_items h)"
      using fh_LookupByIndex_items [OF inv] by (metis set_mset_mset)
    then show ?thesis
    proof (rule fh_items_Some [OF inv])
      fix k v assume "fst (fh_LookupByIndex 0 h) = Some (k, v)" "v \<in> set (fh_stack FastHash_Hash_int h k)"
      then show ?thesis using one [of k] by (cases "fh_stack FastHash_Hash_int h k") (auto simp: cmap_def)
    qed
  qed
  then show ?thesis using assms l m sizes by (simp add: cmap_inv_def)
qed

interpretation cm: bounded_map cmap_inv fh_fsize cmap fh_Size "fh_Insert FastHash_Hash_int" "fh_Remove FastHash_Hash_int"
  "fh_Lookup FastHash_Hash_int" "fh_LookupByIndex 0"
proof (unfold_locales, goal_cases)
  case (1 t k v)
  then show ?case by (simp add: cmap_insert fh_Size_def)
next
  case (2 t k)
  then show ?case by (rule cmap_remove)
next
  case (3 t k)
  then show ?case using ft.lookup_top [of FastHash_Hash_int t k] by (simp add: cmap_inv_def cmap_def)
next
  case (4 t)
  then show ?case by (simp add: cmap_inv_def fh_Size_def)
next
  case (5 t)
  then show ?case by (rule cmap_first)
qed

lemma cmap_InitTable:
  assumes "0 < n"
  shows "fst (fhd_InitTable n 0 h) = 1 \<and> cmap_inv (snd (fhd_InitTable n 0 h)) \<and> cmap (snd (fhd_InitTable n 0 h)) = Map.empty \<and>
    fh_fsize (snd (fhd_InitTable n 0 h)) = n"
proof -
  note i = InitTable_new [OF assms, where tsize = 0 and h = h]
  have m: "cmap (snd (fhd_InitTable n 0 h)) = Map.empty" by (simp add: cmap_def fun_eq_iff i(3))
  then show ?thesis using i by (simp add: cmap_inv_def)
qed

end
