(* ===== verification/PollingTheorems.thy ===== *)
theory PollingTheorems
  imports Polling StorageTheorems
begin

text \<open>
  What \<^verbatim>\<open>CPoll\<close> promises: it is a bounded map from descriptors to the events of interest (the
  contract \<open>interest_set\<close>, which the TCP server relies on), and every event \<^verbatim>\<open>poll\<close> reports is
  handed out exactly once before \<^verbatim>\<open>poll\<close> is called again.
\<close>

section \<open>The contract\<close>

definition native_events :: "u32 \<Rightarrow> u16" where
  "native_events eventflags = ucast (CPoll_ToNativeFlags eventflags)"

locale interest_set =
  fixes inv :: "'p \<Rightarrow> bool"
    and room :: "'p \<Rightarrow> nat"
    and reg :: "'p \<Rightarrow> int \<Rightarrow> u16 option"
    and add :: "int \<Rightarrow> u32 \<Rightarrow> 'p \<Rightarrow> HRESULT \<times> 'p"
    and remove :: "int \<Rightarrow> 'p \<Rightarrow> HRESULT \<times> 'p"
    and change :: "int \<Rightarrow> u32 \<Rightarrow> 'p \<Rightarrow> HRESULT \<times> 'p"
  assumes add_new: "inv p \<Longrightarrow> reg p fd = None \<Longrightarrow> 0 < room p \<Longrightarrow> fst (add fd fl p) = S_OK \<and> inv (snd (add fd fl p)) \<and>
      room (snd (add fd fl p)) = room p - 1 \<and> reg (snd (add fd fl p)) = (reg p)(fd \<mapsto> native_events fl)"
    and add_known: "inv p \<Longrightarrow> reg p fd \<noteq> None \<Longrightarrow> add fd fl p = (E_UNEXPECTED, p)"
    and remove_known: "inv p \<Longrightarrow> reg p fd \<noteq> None \<Longrightarrow> fst (remove fd p) = S_OK \<and> inv (snd (remove fd p)) \<and>
      room (snd (remove fd p)) = room p + 1 \<and> reg (snd (remove fd p)) = (reg p)(fd := None)"
    and remove_unknown: "inv p \<Longrightarrow> reg p fd = None \<Longrightarrow> remove fd p = (E_FAIL, p)"
    and change_known: "inv p \<Longrightarrow> reg p fd \<noteq> None \<Longrightarrow> fst (change fd fl p) = S_OK \<and> inv (snd (change fd fl p)) \<and>
      room (snd (change fd fl p)) = room p \<and> reg (snd (change fd fl p)) = (reg p)(fd \<mapsto> native_events fl)"
    and change_unknown: "inv p \<Longrightarrow> reg p fd = None \<Longrightarrow> change fd fl p = (E_FAIL, p)"
begin

lemma remove_inv: "inv p \<Longrightarrow> inv (snd (remove fd p)) \<and> reg (snd (remove fd p)) = (reg p)(fd := None)"
  using remove_known [of p fd] remove_unknown [of p fd] by (cases "reg p fd") (auto simp: fun_upd_idem)

lemma change_inv: "inv p \<Longrightarrow> inv (snd (change fd fl p)) \<and> dom (reg (snd (change fd fl p))) = dom (reg p) \<and>
    room (snd (change fd fl p)) = room p"
  using change_known [of p fd fl] change_unknown [of p fd fl] by (cases "reg p fd") auto

lemma add_remove:
  assumes "inv p" "reg p fd = None" "0 < room p"
  shows "fst (remove fd (snd (add fd fl p))) = S_OK \<and> reg (snd (remove fd (snd (add fd fl p)))) = reg p \<and>
    room (snd (remove fd (snd (add fd fl p)))) = room p"
proof -
  note a = add_new [OF assms, of fl]
  have "reg (snd (add fd fl p)) fd \<noteq> None" using a by simp
  with remove_known [of "snd (add fd fl p)" fd] a assms(2,3) show ?thesis by (auto simp: fun_upd_idem)
qed

end

section \<open>CPoll as a map\<close>

definition slots :: "pollfd list \<Rightarrow> int \<Rightarrow> nat list" where
  "slots fds fd = filter (\<lambda>i. pf_fd (fds ! i) = fd) [0..<length fds]"

definition poll_inv :: "CPoll \<Rightarrow> bool" where
  "poll_inv p \<longleftrightarrow> cp_fInitialized p \<and> distinct (map pf_fd (cp_fds p)) \<and> fh_inv FastHash_Hash_int (cp_hashtable p) \<and>
     fh_stack FastHash_Hash_int (cp_hashtable p) = slots (cp_fds p)"

definition poll_room :: "CPoll \<Rightarrow> nat" where
  "poll_room p = fh_room (cp_hashtable p)"

definition poll_reg :: "CPoll \<Rightarrow> int \<Rightarrow> u16 option" where
  "poll_reg p = map_of (map (\<lambda>x. (pf_fd x, pf_events x)) (cp_fds p))"

lemma filter_unique:
  assumes "distinct xs" "i \<in> set xs" "P i" "\<And>j. j \<in> set xs \<Longrightarrow> P j \<Longrightarrow> j = i"
  shows "filter P xs = [i]"
proof -
  have "filter P xs = filter (\<lambda>j. j = i) xs" using assms(3,4) by (intro filter_cong) auto
  also have "\<dots> = [i]" using assms(1,2) by (induction xs) (auto simp: filter_empty_conv)
  finally show ?thesis .
qed

lemma slots_at:
  assumes "distinct (map pf_fd fds)" "i < length fds"
  shows "slots fds (pf_fd (fds ! i)) = [i]"
  unfolding slots_def
proof (rule filter_unique)
  fix j assume "j \<in> set [0..<length fds]" "pf_fd (fds ! j) = pf_fd (fds ! i)"
  then show "j = i" using assms nth_eq_iff_index_eq [of "map pf_fd fds" j i] by simp
qed (use assms in auto)

lemma slots_none: "slots fds fd = [] \<longleftrightarrow> fd \<notin> pf_fd ` set fds"
proof -
  have "slots fds fd = [] \<longleftrightarrow> (\<forall>i < length fds. pf_fd (fds ! i) \<noteq> fd)"
    by (auto simp: slots_def filter_empty_conv)
  also have "\<dots> \<longleftrightarrow> fd \<notin> pf_fd ` set fds" by (metis image_iff in_set_conv_nth)
  finally show ?thesis .
qed

lemma slots_snoc: "slots (fds @ [x]) fd = slots fds fd @ (if pf_fd x = fd then [length fds] else [])"
proof -
  have "filter (\<lambda>i. pf_fd ((fds @ [x]) ! i) = fd) [0..<length fds] = slots fds fd"
    unfolding slots_def by (rule filter_cong) (simp_all add: nth_append)
  then show ?thesis by (simp add: slots_def)
qed

lemma slots_update: "pf_fd y = pf_fd (fds ! i) \<Longrightarrow> slots (fds[i := y]) = slots fds"
  unfolding slots_def by (rule ext) (cases "i < length fds"; auto simp: nth_list_update intro!: filter_cong)

lemma poll_reg_None: "poll_reg p fd = None \<longleftrightarrow> fd \<notin> pf_fd ` set (cp_fds p)"
  by (force simp: poll_reg_def map_of_eq_None_iff image_iff)

lemma poll_lookup:
  assumes "poll_inv p"
  shows "fh_Lookup FastHash_Hash_int fd (cp_hashtable p) = (case slots (cp_fds p) fd of [] \<Rightarrow> None | i # _ \<Rightarrow> Some i)"
  using assms ft.lookup_top [of FastHash_Hash_int "cp_hashtable p" fd] by (simp add: poll_inv_def)

lemma poll_slot:
  assumes "poll_inv p" "poll_reg p fd \<noteq> None"
  obtains i where "i < length (cp_fds p)" "pf_fd (cp_fds p ! i) = fd" "fh_Lookup FastHash_Hash_int fd (cp_hashtable p) = Some i"
proof -
  obtain i where i: "i < length (cp_fds p)" "pf_fd (cp_fds p ! i) = fd"
    using assms(2) by (auto simp: poll_reg_None in_set_conv_nth)
  then have "slots (cp_fds p) fd = [i]" using slots_at [of "cp_fds p" i] assms(1) by (auto simp: poll_inv_def)
  then show ?thesis using that [OF i] poll_lookup [OF assms(1), of fd] by simp
qed

lemma poll_no_slot:
  assumes "poll_inv p" "poll_reg p fd = None"
  shows "fh_Lookup FastHash_Hash_int fd (cp_hashtable p) = None"
  using assms poll_lookup [OF assms(1), of fd] slots_none [of "cp_fds p" fd] by (simp add: poll_reg_None)

lemma CPoll_Add_new:
  assumes "poll_inv p" "poll_reg p fd = None" "0 < poll_room p"
  shows "fst (CPoll_Add fd fl p) = S_OK \<and> poll_inv (snd (CPoll_Add fd fl p)) \<and>
    poll_room (snd (CPoll_Add fd fl p)) = poll_room p - 1 \<and>
    poll_reg (snd (CPoll_Add fd fl p)) = (poll_reg p)(fd \<mapsto> native_events fl)"
proof -
  have inv: "fh_inv FastHash_Hash_int (cp_hashtable p)" "0 < fh_room (cp_hashtable p)"
    using assms by (simp_all add: poll_inv_def poll_room_def)
  note i = ft.insert_room [OF inv, of fd "length (cp_fds p)"]
  have new: "fd \<notin> pf_fd ` set (cp_fds p)" using assms(2) by (simp add: poll_reg_None)
  then have s: "slots (cp_fds p) fd = []" by (simp add: slots_none)
  let ?p = "snd (CPoll_Add fd fl p)"
  have p: "fst (CPoll_Add fd fl p) = S_OK" "cp_fds ?p = cp_fds p @ [\<lparr>pf_fd = fd, pf_events = native_events fl, pf_revents = 0\<rparr>]"
    "cp_hashtable ?p = snd (fh_Insert FastHash_Hash_int fd (length (cp_fds p)) (cp_hashtable p))" "cp_fInitialized ?p"
    using assms(1) poll_no_slot [OF assms(1,2)] by (simp_all add: CPoll_Add_def poll_inv_def Let_def native_events_def)
  have "poll_inv ?p" using assms(1) new s i by (auto simp: poll_inv_def p slots_snoc fun_eq_iff)
  moreover have "poll_reg ?p = (poll_reg p)(fd \<mapsto> native_events fl)"
    using assms(2) by (auto simp: poll_reg_def p map_of_append map_add_def fun_eq_iff split: option.splits)
  ultimately show ?thesis using i by (simp add: p poll_room_def)
qed

lemma CPoll_Add_known:
  assumes "poll_inv p" "poll_reg p fd \<noteq> None"
  shows "CPoll_Add fd fl p = (E_UNEXPECTED, p)"
  by (rule poll_slot [OF assms]) (use assms(1) in \<open>simp add: CPoll_Add_def poll_inv_def\<close>)

lemma map_of_update:
  assumes "distinct (map fst xs)" "i < length xs" "fst y = fst (xs ! i)"
  shows "map_of (xs[i := y]) = (map_of xs)(fst y \<mapsto> snd y)"
  using assms
proof (induction xs arbitrary: i)
  case (Cons x xs)
  show ?case
  proof (cases i)
    case 0
    then show ?thesis using Cons.prems by (cases y) auto
  next
    case (Suc j)
    then have "xs ! j \<in> set xs" "fst y = fst (xs ! j)" using Cons.prems by simp_all
    then have "fst x \<noteq> fst y" using Cons.prems(1) by (metis (no_types) distinct.simps(2) image_eqI list.simps(9) set_map)
    moreover have "map_of (xs[j := y]) = (map_of xs)(fst y \<mapsto> snd y)" using Cons.prems Suc by (intro Cons.IH) simp_all
    ultimately show ?thesis using Suc by (auto simp: fun_eq_iff)
  qed
qed simp

lemma poll_fds_update:
  assumes "poll_inv p" "i < length (cp_fds p)" "pf_fd y = pf_fd (cp_fds p ! i)"
  shows "poll_inv (p\<lparr>cp_fds := (cp_fds p)[i := y]\<rparr>)"
    "poll_reg (p\<lparr>cp_fds := (cp_fds p)[i := y]\<rparr>) = (poll_reg p)(pf_fd y \<mapsto> pf_events y)"
proof -
  have "map pf_fd ((cp_fds p)[i := y]) = map pf_fd (cp_fds p)"
    by (simp add: map_update assms(3)) (metis list_update_id map_update)
  then show "poll_inv (p\<lparr>cp_fds := (cp_fds p)[i := y]\<rparr>)"
    using assms(1) slots_update [OF assms(3)] by (simp add: poll_inv_def)
  have "distinct (map fst (map (\<lambda>x. (pf_fd x, pf_events x)) (cp_fds p)))"
    using assms(1) by (simp add: poll_inv_def comp_def)
  from map_of_update [OF this, of i "(pf_fd y, pf_events y)"] assms(2,3)
  show "poll_reg (p\<lparr>cp_fds := (cp_fds p)[i := y]\<rparr>) = (poll_reg p)(pf_fd y \<mapsto> pf_events y)"
    by (simp add: poll_reg_def map_update)
qed

lemma CPoll_ChangeEventSet_known:
  assumes "poll_inv p" "poll_reg p fd \<noteq> None"
  shows "fst (CPoll_ChangeEventSet fd fl p) = S_OK \<and> poll_inv (snd (CPoll_ChangeEventSet fd fl p)) \<and>
    poll_room (snd (CPoll_ChangeEventSet fd fl p)) = poll_room p \<and>
    poll_reg (snd (CPoll_ChangeEventSet fd fl p)) = (poll_reg p)(fd \<mapsto> native_events fl)"
proof -
  obtain i where i: "i < length (cp_fds p)" "pf_fd (cp_fds p ! i) = fd" "fh_Lookup FastHash_Hash_int fd (cp_hashtable p) = Some i"
    by (rule poll_slot [OF assms])
  let ?y = "(cp_fds p ! i)\<lparr>pf_events := native_events fl\<rparr>"
  have "CPoll_ChangeEventSet fd fl p = (S_OK, p\<lparr>cp_fds := (cp_fds p)[i := ?y]\<rparr>)"
    using assms(1) i by (auto simp: CPoll_ChangeEventSet_def Let_def poll_inv_def native_events_def)
  then show ?thesis using poll_fds_update [OF assms(1) i(1), of ?y] i(2) by (simp add: poll_room_def)
qed

lemma CPoll_ChangeEventSet_unknown:
  "poll_inv p \<Longrightarrow> poll_reg p fd = None \<Longrightarrow> CPoll_ChangeEventSet fd fl p = (E_FAIL, p)"
  using poll_no_slot [of p fd] by (simp add: CPoll_ChangeEventSet_def poll_inv_def Let_def)

lemma CPoll_Remove_unknown:
  "poll_inv p \<Longrightarrow> poll_reg p fd = None \<Longrightarrow> CPoll_Remove fd p = (E_FAIL, p)"
  using poll_no_slot [of p fd] by (simp add: CPoll_Remove_def poll_inv_def Let_def)

text \<open>The last element moves into the gap.\<close>

definition fill_gap :: "nat \<Rightarrow> 'a list \<Rightarrow> 'a list" where
  "fill_gap i xs = butlast (xs[i := last xs])"

lemma mset_fill_gap: "i < length xs \<Longrightarrow> mset (fill_gap i xs) = mset xs - {#xs ! i#}"
proof -
  assume i: "i < length xs"
  let ?ys = "xs[i := last xs]"
  have "xs \<noteq> []" using i by auto
  then have ys: "?ys \<noteq> []" "last ?ys = last xs" by (simp_all add: last_list_update)
  have "add_mset (last xs) (mset (butlast ?ys)) = mset ?ys"
    using ys append_butlast_last_id [OF ys(1)] by (metis mset.simps mset_append add_mset_add_single)
  also have "\<dots> = add_mset (last xs) (mset xs - {#xs ! i#})" using i by (simp add: mset_update)
  finally show ?thesis by (simp add: fill_gap_def)
qed

lemma length_fill_gap: "length (fill_gap i xs) = length xs - 1"
  by (simp add: fill_gap_def)

lemma fill_gap_nth: "i < length xs \<Longrightarrow> j < length xs - 1 \<Longrightarrow> fill_gap i xs ! j = (if j = i then xs ! (length xs - 1) else xs ! j)"
  by (cases "xs = []") (auto simp: fill_gap_def nth_butlast last_conv_nth)

lemma fill_gap_map: "xs \<noteq> [] \<Longrightarrow> map f (fill_gap i xs) = fill_gap i (map f xs)"
  by (simp add: fill_gap_def map_butlast map_update last_map)

lemma distinct_fill_gap:
  assumes "distinct xs" "i < length xs"
  shows "distinct (fill_gap i xs)" "set (fill_gap i xs) = set xs - {xs ! i}"
proof -
  note m = mset_fill_gap [OF assms(2)]
  have c: "count (mset xs) a = (if a \<in> set xs then 1 else 0)" for a
    using assms(1) by (simp add: distinct_count_atmost_1)
  have d: "count (mset (fill_gap i xs)) a = (if a \<in> set xs \<and> a \<noteq> xs ! i then 1 else 0)" for a
    using c [of a] by (simp add: m)
  show s: "set (fill_gap i xs) = set xs - {xs ! i}"
  proof (rule set_eqI)
    fix a show "a \<in> set (fill_gap i xs) \<longleftrightarrow> a \<in> set xs - {xs ! i}"
      using d [of a] count_mset_0_iff [of "fill_gap i xs" a] by (simp split: if_splits)
  qed
  show "distinct (fill_gap i xs)" unfolding distinct_count_atmost_1 s using d by auto
qed

lemma slots_fill_gap:
  assumes "distinct (map pf_fd fds)" "i < length fds"
  shows "slots (fill_gap i fds) = (slots fds)(pf_fd (last fds) := [i], pf_fd (fds ! i) := [])"
proof
  fix fd
  let ?ys = "fill_gap i fds" and ?f = "(slots fds)(pf_fd (last fds) := [i], pf_fd (fds ! i) := [])"
  have ne: "fds \<noteq> []" using assms(2) by auto
  note map = fill_gap_map [OF ne, where i = i and f = pf_fd]
  have dist: "distinct (map pf_fd ?ys)" and set: "pf_fd ` set ?ys = pf_fd ` set fds - {pf_fd (fds ! i)}"
    using distinct_fill_gap [OF assms(1), of i] assms(2) map by (metis length_map, metis length_map nth_map set_map)
  show "slots ?ys fd = ?f fd"
  proof (cases "fd \<in> pf_fd ` set ?ys")
    case False
    then have "slots ?ys fd = []" by (simp add: slots_none)
    moreover have "?f fd = []"
    proof (cases "fd = pf_fd (fds ! i)")
      case False
      then have "fd \<notin> pf_fd ` set fds" using \<open>fd \<notin> pf_fd ` set ?ys\<close> by (simp add: set)
      moreover then have "fd \<noteq> pf_fd (last fds)" using ne by auto
      ultimately show ?thesis using False by (simp add: slots_none)
    qed simp
    ultimately show ?thesis by simp
  next
    case True
    then obtain j where j: "j < length fds - 1" "fd = pf_fd (?ys ! j)"
      by (auto simp: in_set_conv_nth length_fill_gap)
    have "fd \<noteq> pf_fd (fds ! i)" using True by (simp add: set)
    moreover have "slots ?ys fd = [j]" using slots_at [OF dist, of j] j by (simp add: length_fill_gap)
    moreover have "((slots fds)(pf_fd (last fds) := [i])) fd = [j]"
    proof (cases "j = i")
      case True
      then have "fd = pf_fd (last fds)" using j fill_gap_nth [OF assms(2) j(1)] ne by (simp add: last_conv_nth)
      then show ?thesis using True by simp
    next
      case False
      then have fd: "fd = pf_fd (fds ! j)" using j fill_gap_nth [OF assms(2) j(1)] by simp
      have "fd \<noteq> pf_fd (last fds)"
        using nth_eq_iff_index_eq [OF assms(1), of j "length fds - 1"] j(1) ne by (auto simp: fd last_conv_nth)
      then show ?thesis using slots_at [OF assms(1), of j] j(1) by (simp add: fd)
    qed
    ultimately show ?thesis by simp
  qed
qed

lemma option_eqI: "(\<And>v. a = Some v \<longleftrightarrow> b = Some v) \<Longrightarrow> a = b"
  by (cases a; cases b) auto

lemma remove_binding:
  assumes "distinct (map fst xs)" "(a, b) \<in> set xs"
  shows "(k, v) \<in> set xs - {(a, b)} \<longleftrightarrow> ((map_of xs)(a := None)) k = Some v"
  using assms(2) map_of_eq_Some_iff [OF assms(1)] by (metis Diff_iff fun_upd_apply option.distinct(1) option.inject prod.inject singletonD singletonI)

lemma CPoll_Remove_known:
  assumes "poll_inv p" "poll_reg p fd \<noteq> None"
  shows "fst (CPoll_Remove fd p) = S_OK \<and> poll_inv (snd (CPoll_Remove fd p)) \<and>
    poll_room (snd (CPoll_Remove fd p)) = poll_room p + 1 \<and>
    poll_reg (snd (CPoll_Remove fd p)) = (poll_reg p)(fd := None)"
proof -
  let ?fds = "cp_fds p" and ?p = "snd (CPoll_Remove fd p)" and ?h = FastHash_Hash_int
  obtain i where i: "i < length ?fds" "pf_fd (?fds ! i) = fd" "fh_Lookup ?h fd (cp_hashtable p) = Some i"
    by (rule poll_slot [OF assms])
  have ne: "?fds \<noteq> []" using i(1) by auto
  have P: "cp_fInitialized p" "distinct (map pf_fd ?fds)" "fh_inv ?h (cp_hashtable p)" "fh_stack ?h (cp_hashtable p) = slots ?fds"
    using assms(1) by (simp_all add: poll_inv_def)
  define t where "t = (if i \<noteq> length ?fds - 1 then fh_Assign ?h (pf_fd (last ?fds)) i (cp_hashtable p) else cp_hashtable p)"
  have last: "slots ?fds (pf_fd (last ?fds)) = [length ?fds - 1]"
    using slots_at [OF P(2), of "length ?fds - 1"] ne by (simp add: last_conv_nth)
  have t: "fh_inv ?h t" "fh_room t = fh_room (cp_hashtable p)" "fh_stack ?h t = (slots ?fds)(pf_fd (last ?fds) := [i])"
    using P(3,4) last ft.assign_top [OF P(3), of "pf_fd (last ?fds)" i]
    by (cases "i = length ?fds - 1"; simp add: t_def fun_upd_idem)+
  have "CPoll_Remove fd p = (S_OK, p\<lparr>cp_hashtable := snd (fh_Remove ?h fd t), cp_fds := fill_gap i ?fds\<rparr>)"
  proof (cases "i = length ?fds - 1")
    case True
    then have "?fds[i := last ?fds] = ?fds" using ne by (simp add: last_conv_nth list_update_id)
    then show ?thesis using True i P(1) ne by (simp add: CPoll_Remove_def Let_def t_def fill_gap_def not_le)
  next
    case False
    then show ?thesis
      using i P(1) ne by (simp add: CPoll_Remove_def Let_def t_def last_conv_nth [OF ne] fill_gap_def not_le)
  qed
  then have eq: "fst (CPoll_Remove fd p) = S_OK" "cp_hashtable ?p = snd (fh_Remove ?h fd t)" "cp_fInitialized ?p"
    "cp_fds ?p = fill_gap i ?fds"
    using P(1) by simp_all
  have "fh_stack ?h t fd \<noteq> []" using t(3) slots_at [OF P(2) i(1)] i(2) by simp
  note r = ft.remove_some [OF t(1) this]
  have tl: "tl (fh_stack ?h t fd) = []" using t(3) slots_at [OF P(2) i(1)] i(2) by auto
  have "distinct (map pf_fd (fill_gap i ?fds))"
    using distinct_fill_gap(1) [OF P(2)] i(1) fill_gap_map [OF ne, where f = pf_fd and i = i] by simp
  then have "poll_inv ?p"
    using r slots_fill_gap [OF P(2) i(1)] i(2) tl t(3) by (simp add: poll_inv_def eq)
  moreover have "poll_reg ?p = (poll_reg p)(fd := None)"
  proof
    fix k
    let ?e = "\<lambda>x. (pf_fd x, pf_events x)"
    have d: "distinct (map fst (map ?e ?fds))" using P(2) by (simp add: comp_def)
    have m: "map ?e (fill_gap i ?fds) = fill_gap i (map ?e ?fds)" by (rule fill_gap_map [OF ne])
    have d': "distinct (map fst (fill_gap i (map ?e ?fds)))"
      using distinct_fill_gap(1) [OF d] i(1) fill_gap_map [of "map ?e ?fds" fst i] ne by simp
    have s: "set (fill_gap i (map ?e ?fds)) = set (map ?e ?fds) - {(fd, pf_events (?fds ! i))}"
      using distinct_fill_gap(2) [of "map ?e ?fds" i] distinct_map [of fst "map ?e ?fds"] d i by simp
    have "map_of (fill_gap i (map ?e ?fds)) k = Some v \<longleftrightarrow> ((map_of (map ?e ?fds))(fd := None)) k = Some v" for v
    proof -
      have "(fd, pf_events (?fds ! i)) \<in> set (map ?e ?fds)" using i(1,2) nth_mem [OF i(1)] by auto
      from remove_binding [OF d this]
      show ?thesis unfolding map_of_eq_Some_iff [OF d'] s by (simp del: map_map set_map)
    qed
    then show "poll_reg ?p k = ((poll_reg p)(fd := None)) k"
      unfolding poll_reg_def eq m by (rule option_eqI)
  qed
  ultimately show ?thesis using r t(2) by (simp add: eq poll_room_def)
qed

interpretation poll: interest_set poll_inv poll_room poll_reg CPoll_Add CPoll_Remove CPoll_ChangeEventSet
  by unfold_locales
    (simp_all only: CPoll_Add_new CPoll_Add_known CPoll_Remove_known CPoll_Remove_unknown CPoll_ChangeEventSet_known
      CPoll_ChangeEventSet_unknown simp_thms)

section \<open>Refinement\<close>

text \<open>
  The operations of the object. \<open>poll\<close> is described by its result and the returned events of every
  entry: it writes nothing else into the array.
\<close>

definition poll_os :: "int \<Rightarrow> (pollfd \<Rightarrow> u16) \<Rightarrow> pollfd list \<Rightarrow> int \<Rightarrow> int \<times> pollfd list" where
  "poll_os ret revents fds timeoutMilliseconds = (ret, map (\<lambda>x. x\<lparr>pf_revents := revents x\<rparr>) fds)"

datatype poll_op = PAdd int u32 | PRemove int | PChange int u32 | PWait int "pollfd \<Rightarrow> u16" HRESULT PollEvent int

fun poll_step :: "poll_op \<Rightarrow> CPoll \<Rightarrow> HRESULT option \<times> CPoll" where
  "poll_step (PAdd fd fl) p = map_prod Some id (CPoll_Add fd fl p)"
| "poll_step (PRemove fd) p = map_prod Some id (CPoll_Remove fd p)"
| "poll_step (PChange fd fl) p = map_prod Some id (CPoll_ChangeEventSet fd fl p)"
| "poll_step (PWait ret revents errnohr ev t) p = (None, snd (snd (CPoll_WaitForNextEvent (poll_os ret revents) errnohr ev t p)))"

fun interest_step :: "poll_op \<Rightarrow> (int \<Rightarrow> u16 option) \<Rightarrow> HRESULT option \<times> (int \<Rightarrow> u16 option)" where
  "interest_step (PAdd fd fl) m = (if m fd = None then (Some S_OK, m(fd \<mapsto> native_events fl)) else (Some E_UNEXPECTED, m))"
| "interest_step (PRemove fd) m = (if m fd = None then (Some E_FAIL, m) else (Some S_OK, m(fd := None)))"
| "interest_step (PChange fd fl) m = (if m fd = None then (Some E_FAIL, m) else (Some S_OK, m(fd \<mapsto> native_events fl)))"
| "interest_step (PWait ret revents errnohr ev t) m = (None, m)"

fun adds :: "poll_op list \<Rightarrow> nat" where
  "adds [] = 0"
| "adds (PAdd fd fl # ops) = Suc (adds ops)"
| "adds (_ # ops) = adds ops"

abbreviation entry :: "pollfd \<Rightarrow> int \<times> u16" where
  "entry x \<equiv> (pf_fd x, pf_events x)"

lemma poll_same:
  assumes "map entry (cp_fds q) = map entry (cp_fds p)" "cp_hashtable q = cp_hashtable p" "cp_fInitialized q = cp_fInitialized p"
  shows "poll_inv q = poll_inv p" "poll_room q = poll_room p" "poll_reg q = poll_reg p"
proof -
  have fds: "map pf_fd (cp_fds q) = map pf_fd (cp_fds p)"
    using arg_cong [OF assms(1), of "map fst"] by (simp add: comp_def)
  have slots: "slots xs fd = filter (\<lambda>i. map pf_fd xs ! i = fd) [0..<length (map pf_fd xs)]" for xs fd
    unfolding slots_def by (rule filter_cong) simp_all
  have "slots (cp_fds q) = slots (cp_fds p)" unfolding slots fds by (rule ext) simp
  then show "poll_inv q = poll_inv p" using assms fds by (simp add: poll_inv_def)
  show "poll_room q = poll_room p" "poll_reg q = poll_reg p" using assms by (simp_all add: poll_room_def poll_reg_def)
qed

lemma CPoll_FindNextEvent_array:
  obtains "cp_fds (snd (snd (CPoll_FindNextEvent ev p))) = cp_fds p"
  | i where "cp_fds (snd (snd (CPoll_FindNextEvent ev p))) = (cp_fds p)[i := (cp_fds p ! i)\<lparr>pf_revents := 0\<rparr>]"
proof -
  let ?q = "if unat (cp_rotation p) \<ge> length (cp_fds p) then p\<lparr>cp_rotation := 0\<rparr> else p"
  have "cp_fds ?q = cp_fds p" by simp
  then show ?thesis using that
    by (cases "find (\<lambda>i. pf_revents (cp_fds ?q ! i) \<noteq> 0)
      (map (\<lambda>k. (k + unat (cp_rotation ?q)) mod length (cp_fds p)) [0..<length (cp_fds p)])"; cases "cp_unreadcount p = 0")
      (simp_all add: CPoll_FindNextEvent_def Let_def cong del: if_weak_cong)
qed

lemma CPoll_FindNextEvent_frame:
  "cp_hashtable (snd (snd (CPoll_FindNextEvent ev p))) = cp_hashtable p"
  "cp_fInitialized (snd (snd (CPoll_FindNextEvent ev p))) = cp_fInitialized p"
  by (simp_all add: CPoll_FindNextEvent_def Let_def split: option.split)

lemma CPoll_FindNextEvent_entries:
  "map entry (cp_fds (snd (snd (CPoll_FindNextEvent ev p)))) = map entry (cp_fds p) \<and>
   cp_hashtable (snd (snd (CPoll_FindNextEvent ev p))) = cp_hashtable p \<and>
   cp_fInitialized (snd (snd (CPoll_FindNextEvent ev p))) = cp_fInitialized p"
proof -
  have upd: "map entry (xs[i := (xs ! i)\<lparr>pf_revents := 0\<rparr>]) = map entry xs" for xs i
    by (cases "i < length xs"; rule nth_equalityI) (simp_all add: nth_list_update)
  show ?thesis
    by (rule CPoll_FindNextEvent_array [of ev p]) (simp_all only: CPoll_FindNextEvent_frame upd simp_thms)
qed

lemma CPoll_WaitForNextEvent_entries:
  "map entry (cp_fds (snd (snd (CPoll_WaitForNextEvent (poll_os ret revents) er ev t p)))) = map entry (cp_fds p) \<and>
   cp_hashtable (snd (snd (CPoll_WaitForNextEvent (poll_os ret revents) er ev t p))) = cp_hashtable p \<and>
   cp_fInitialized (snd (snd (CPoll_WaitForNextEvent (poll_os ret revents) er ev t p))) = cp_fInitialized p"
proof -
  obtain f e q where q: "CPoll_FindNextEvent (ev\<lparr>pe_eventflags := 0\<rparr>) p = (f, e, q)" by (metis prod_cases3)
  let ?q = "q\<lparr>cp_unreadcount := 0, cp_fds := snd (poll_os ret revents (cp_fds q) t)\<rparr>"
  obtain f' e' r where r: "CPoll_FindNextEvent e (?q\<lparr>cp_unreadcount := word_of_int ret\<rparr>) = (f', e', r)" by (metis prod_cases3)
  let ?r = "snd (snd (CPoll_WaitForNextEvent (poll_os ret revents) er ev t p))"
  have "?r = p \<or> ?r = q \<or> ?r = ?q \<or> ?r = r"
    using r by (simp add: CPoll_WaitForNextEvent_def Let_def q poll_os_def)
  moreover have "map entry (snd (poll_os ret revents fds t)) = map entry fds" for fds
    by (simp add: poll_os_def)
  ultimately show ?thesis
    using CPoll_FindNextEvent_entries [of "ev\<lparr>pe_eventflags := 0\<rparr>" p]
      CPoll_FindNextEvent_entries [of e "?q\<lparr>cp_unreadcount := word_of_int ret\<rparr>"]
    unfolding q r by (elim disjE) simp_all
qed

lemma poll_step_simulates:
  assumes "poll_inv p" "adds [op] \<le> poll_room p"
  shows "fst (poll_step op p) = fst (interest_step op (poll_reg p)) \<and>
    poll_reg (snd (poll_step op p)) = snd (interest_step op (poll_reg p)) \<and>
    poll_inv (snd (poll_step op p)) \<and> poll_room p \<le> poll_room (snd (poll_step op p)) + adds [op]"
proof (cases op)
  case (PAdd fd fl)
  then show ?thesis using assms poll.add_new [of p fd fl] poll.add_known [of p fd fl]
    by (cases "poll_reg p fd") (auto simp: map_prod_def case_prod_beta)
next
  case (PRemove fd)
  then show ?thesis using assms poll.remove_known [of p fd] poll.remove_unknown [of p fd]
    by (cases "poll_reg p fd") (auto simp: map_prod_def case_prod_beta)
next
  case (PChange fd fl)
  then show ?thesis using assms poll.change_known [of p fd fl] poll.change_unknown [of p fd fl]
    by (cases "poll_reg p fd") (auto simp: map_prod_def case_prod_beta)
next
  case (PWait ret revents e ev t)
  note w = CPoll_WaitForNextEvent_entries [of ret revents e ev t p]
  note s = poll_same [OF conjunct1 [OF w] conjunct1 [OF conjunct2 [OF w]] conjunct2 [OF conjunct2 [OF w]]]
  show ?thesis using assms by (simp add: PWait s)
qed

lemma poll_run_simulates:
  assumes "poll_inv p" "adds ops \<le> poll_room p"
  shows "fst (run poll_step ops p) = fst (run interest_step ops (poll_reg p)) \<and>
    poll_reg (snd (run poll_step ops p)) = snd (run interest_step ops (poll_reg p))"
  using assms
proof (induction ops arbitrary: p)
  case (Cons op ops)
  have a: "adds (op # ops) = adds [op] + adds ops" by (cases op) simp_all
  with Cons.prems have "adds [op] \<le> poll_room p" by simp
  note s = poll_step_simulates [OF Cons.prems(1) this]
  then have "adds ops \<le> poll_room (snd (poll_step op p))" using Cons.prems(2) a by simp
  from Cons.IH [OF _ this] s show ?case by (simp add: case_prod_beta)
qed simp

lemma poll_init:
  assumes "0 < maxSockets"
  shows "poll_inv (snd (CPoll_Initialize maxSockets CPoll_new))" "poll_reg (snd (CPoll_Initialize maxSockets CPoll_new)) = Map.empty"
    "poll_room (snd (CPoll_Initialize maxSockets CPoll_new)) = maxSockets"
  using InitTable_new [OF assms, where tsize = 0 and h = "fhd_ResetTable :: (int, nat) FastHash"]
  by (simp_all add: poll_inv_def poll_reg_def poll_room_def CPoll_Initialize_def CPoll_new_def slots_def fun_eq_iff fh_room_def)

text \<open>
  C26: CPoll is a bounded map from descriptors to events of interest. From Initialize on, and for every
  sequence of at most maxSockets Adds with any number of Removes, ChangeEventSets and
  WaitForNextEvents between them (whatever poll reports), every result code is that of a map: Add fails
  on a registered descriptor, Remove and ChangeEventSet on an unregistered one, everything else
  succeeds; and the array the code hands to poll holds exactly the map's descriptors and events.
\<close>

theorem poll_refines_interest:
  assumes "0 < maxSockets" "adds ops \<le> maxSockets"
  shows "fst (run poll_step ops (snd (CPoll_Initialize maxSockets CPoll_new))) = fst (run interest_step ops Map.empty) \<and>
    map_of (map entry (cp_fds (snd (run poll_step ops (snd (CPoll_Initialize maxSockets CPoll_new)))))) =
      snd (run interest_step ops Map.empty)"
proof -
  let ?p = "snd (CPoll_Initialize maxSockets CPoll_new)"
  note poll_init [OF assms(1)]
  with poll_run_simulates [of ?p ops] assms(2) show ?thesis by (simp add: poll_reg_def)
qed

theorem poll_refines_interest_witness:
  "fst (run poll_step [PAdd 3 1, PAdd 3 2, PRemove 4, PAdd 4 1, PRemove 3, PAdd 3 2] (snd (CPoll_Initialize 4 CPoll_new))) =
     fst (run interest_step [PAdd 3 1, PAdd 3 2, PRemove 4, PAdd 4 1, PRemove 3, PAdd 3 2] Map.empty) \<and>
   fst (run interest_step [PAdd 3 1, PAdd 3 2, PRemove 4, PAdd 4 1, PRemove 3, PAdd 3 2] Map.empty) =
     map Some [S_OK, E_UNEXPECTED, E_FAIL, S_OK, S_OK, S_OK]"
proof
  show "fst (run poll_step [PAdd 3 1, PAdd 3 2, PRemove 4, PAdd 4 1, PRemove 3, PAdd 3 2] (snd (CPoll_Initialize 4 CPoll_new))) =
     fst (run interest_step [PAdd 3 1, PAdd 3 2, PRemove 4, PAdd 4 1, PRemove 3, PAdd 3 2] Map.empty)"
    by (rule conjunct1 [OF poll_refines_interest]) simp_all
qed simp

section \<open>Delivery of the events\<close>

definition ready :: "pollfd \<Rightarrow> bool" where
  "ready x \<longleftrightarrow> pf_revents x \<noteq> 0"

definition event_of :: "pollfd \<Rightarrow> PollEvent" where
  "event_of x = \<lparr>pe_fd = pf_fd x, pe_eventflags = CPoll_FromNativeFlags (scast (pf_revents x))\<rparr>"

lemma rotation_covers:
  assumes "0 < (n :: nat)"
  shows "set (map (\<lambda>k. (k + r) mod n) [0..<n]) = {0..<n}"
proof (intro equalityI subsetI)
  fix i assume i: "i \<in> {0..<n}"
  let ?k = "(i + n - r mod n) mod n"
  have "r mod n \<le> n" using assms by (simp add: less_imp_le)
  have "(?k + r) mod n = (i + n - r mod n + r) mod n" by (rule mod_add_left_eq)
  also have "i + n - r mod n + r = i + n * (1 + r div n)"
    using \<open>r mod n \<le> n\<close> mult_div_mod_eq [of n r] by (simp only: distrib_left mult_1_right)
  also have "\<dots> mod n = i" using i by (simp only: mod_mult_self2) simp
  finally show "i \<in> set (map (\<lambda>k. (k + r) mod n) [0..<n])"
    using image_eqI [of i "\<lambda>k. (k + r) mod n" ?k "{0..<n}"] assms by simp
qed (use assms in auto)

lemma CPoll_FindNextEvent_ready:
  assumes "cp_unreadcount p \<noteq> 0" "\<exists>x \<in> set (cp_fds p). ready x"
  obtains i p' where "CPoll_FindNextEvent ev p = (True, event_of (cp_fds p ! i), p')" "i < length (cp_fds p)"
    "ready (cp_fds p ! i)" "cp_fds p' = (cp_fds p)[i := (cp_fds p ! i)\<lparr>pf_revents := 0\<rparr>]"
    "cp_unreadcount p' = cp_unreadcount p - 1" "cp_fInitialized p' = cp_fInitialized p"
proof -
  let ?n = "length (cp_fds p)"
  let ?q = "if unat (cp_rotation p) \<ge> ?n then p\<lparr>cp_rotation := 0\<rparr> else p"
  let ?xs = "map (\<lambda>k. (k + unat (cp_rotation ?q)) mod ?n) [0..<?n]"
  have n: "0 < ?n" using assms(2) by (cases "cp_fds p") auto
  have fds: "cp_fds ?q = cp_fds p" "cp_unreadcount ?q = cp_unreadcount p" "cp_fInitialized ?q = cp_fInitialized p" by simp_all
  obtain j where "j < ?n" "ready (cp_fds p ! j)" using assms(2) by (metis in_set_conv_nth)
  then have "find (\<lambda>i. ready (cp_fds p ! i)) ?xs \<noteq> None"
    unfolding find_None_iff rotation_covers [OF n] by auto
  then obtain i where i: "find (\<lambda>i. ready (cp_fds p ! i)) ?xs = Some i" by blast
  then have "i < ?n" "ready (cp_fds p ! i)" using find_SomeD [OF i] rotation_covers [OF n, of "unat (cp_rotation ?q)"] by auto
  then show ?thesis
    using that [of i] assms(1) i fds
    by (simp add: CPoll_FindNextEvent_def Let_def event_of_def ready_def cong del: if_weak_cong)
qed

text \<open>One call: what \<^verbatim>\<open>poll\<close> would do, its error, the timeout.\<close>

type_synonym wait_call = "(pollfd list \<Rightarrow> int \<Rightarrow> int \<times> pollfd list) \<times> HRESULT \<times> int"

definition wait_step :: "PollEvent \<Rightarrow> wait_call \<Rightarrow> CPoll \<Rightarrow> (HRESULT \<times> PollEvent) \<times> CPoll" where
  "wait_step ev call p =
     (case CPoll_WaitForNextEvent (fst call) (fst (snd call)) ev (snd (snd call)) p of (hr, e, p) \<Rightarrow> ((hr, e), p))"

definition pending :: "CPoll \<Rightarrow> pollfd multiset" where
  "pending p = filter_mset ready (mset (cp_fds p))"

lemma pending_empty: "pending p = {#} \<longleftrightarrow> (\<forall>x \<in> set (cp_fds p). \<not> ready x)"
  by (auto simp: pending_def multiset_eq_iff filter_mset_eq_conv count_eq_zero_iff set_mset_mset dest: arg_cong [where f = set_mset])

lemma pending_taken:
  assumes "i < length xs" "ready (xs ! i)"
  shows "filter_mset ready (mset (xs[i := (xs ! i)\<lparr>pf_revents := 0\<rparr>])) = filter_mset ready (mset xs) - {#xs ! i#}"
proof -
  have "\<not> ready ((xs ! i)\<lparr>pf_revents := 0\<rparr>)" by (simp add: ready_def)
  with assms show ?thesis by (simp add: mset_update)
qed

lemma FindNextEvent_pending:
  assumes "cp_unreadcount p \<noteq> 0" "pending p \<noteq> {#}"
  obtains x p' where "CPoll_FindNextEvent ev p = (True, event_of x, p')" "x \<in># pending p"
    "pending p' = pending p - {#x#}" "cp_unreadcount p' = cp_unreadcount p - 1"
    "cp_fInitialized p' = cp_fInitialized p" "length (cp_fds p') = length (cp_fds p)"
proof -
  have "\<exists>x \<in> set (cp_fds p). ready x" using assms(2) by (simp add: pending_empty)
  then show ?thesis
  proof (rule CPoll_FindNextEvent_ready [OF assms(1), of ev])
    fix i p'
    assume "CPoll_FindNextEvent ev p = (True, event_of (cp_fds p ! i), p')" "i < length (cp_fds p)"
      "ready (cp_fds p ! i)" "cp_fds p' = (cp_fds p)[i := (cp_fds p ! i)\<lparr>pf_revents := 0\<rparr>]"
      "cp_unreadcount p' = cp_unreadcount p - 1" "cp_fInitialized p' = cp_fInitialized p"
    then show thesis by (intro that [of "cp_fds p ! i" p']) (simp_all add: pending_def pending_taken)
  qed
qed

lemma deliver_pending:
  assumes "cp_fInitialized p" "unat (cp_unreadcount p) = size (pending p)" "length calls = size (pending p)"
  shows "map fst (fst (run (wait_step ev) calls p)) = replicate (size (pending p)) S_OK \<and>
    mset (map snd (fst (run (wait_step ev) calls p))) = image_mset event_of (pending p) \<and>
    cp_unreadcount (snd (run (wait_step ev) calls p)) = 0 \<and> pending (snd (run (wait_step ev) calls p)) = {#}"
  using assms
proof (induction calls arbitrary: p)
  case Nil
  then show ?case by (simp add: unat_eq_0)
next
  case (Cons call calls)
  have n: "size (pending p) = Suc (length calls)" using Cons.prems by simp
  have unread: "cp_unreadcount p \<noteq> 0" and "pending p \<noteq> {#}" using n Cons.prems(2) by auto
  then show ?case
  proof (rule FindNextEvent_pending [where ev = "ev\<lparr>pe_eventflags := 0\<rparr>"])
    fix x p'
    assume f: "CPoll_FindNextEvent (ev\<lparr>pe_eventflags := 0\<rparr>) p = (True, event_of x, p')" "x \<in># pending p"
      "pending p' = pending p - {#x#}" "cp_unreadcount p' = cp_unreadcount p - 1"
      "cp_fInitialized p' = cp_fInitialized p" "length (cp_fds p') = length (cp_fds p)"
    have "cp_fds p \<noteq> []" using f(2) by (auto simp: pending_def)
    then have w: "wait_step ev call p = ((S_OK, event_of x), p')"
      using Cons.prems(1) f(1) by (simp add: wait_step_def CPoll_WaitForNextEvent_def Let_def)
    have s: "size (pending p') = length calls" using f(2,3) n by (simp add: size_Diff_singleton)
    then have "unat (cp_unreadcount p') = size (pending p')"
      using f(4) Cons.prems(2) n unread by (simp add: unat_minus_one)
    from Cons.IH [OF _ this s [symmetric]] f(5) Cons.prems(1)
    have IH: "map fst (fst (run (wait_step ev) calls p')) = replicate (size (pending p')) S_OK"
      "mset (map snd (fst (run (wait_step ev) calls p'))) = image_mset event_of (pending p')"
      "cp_unreadcount (snd (run (wait_step ev) calls p')) = 0" "pending (snd (run (wait_step ev) calls p')) = {#}"
      by simp_all
    have "image_mset event_of (pending p) = add_mset (event_of x) (image_mset event_of (pending p'))"
      using f(2,3) by (metis image_mset_add_mset insert_DiffM)
    then show ?case using IH s n by (simp add: w case_prod_beta)
  qed
qed

text \<open>
  Every event is delivered exactly once. When no event is left over, WaitForNextEvent calls poll;
  if poll reports n > 0 ready entries (its result is their number), this call and the n - 1 that
  follow, whatever poll would do in them, succeed and hand out exactly one event per ready entry, with
  its descriptor and translated flags; then nothing is left over and the next call polls again.
\<close>

theorem poll_delivers_each_once:
  assumes "cp_fInitialized p" "cp_fds p \<noteq> []" "cp_unreadcount p = 0"
    and "poll (cp_fds p) t = (int (length (filter ready fds)), fds)" "filter ready fds \<noteq> []"
    and "length (filter ready fds) < 2 ^ 32" "length calls = length (filter ready fds) - 1"
  shows "map fst (fst (run (wait_step ev) ((poll, errnohr, t) # calls) p)) = replicate (length (filter ready fds)) S_OK \<and>
    mset (map snd (fst (run (wait_step ev) ((poll, errnohr, t) # calls) p))) = mset (map event_of (filter ready fds)) \<and>
    cp_unreadcount (snd (run (wait_step ev) ((poll, errnohr, t) # calls) p)) = 0 \<and>
    \<not> (\<exists>x \<in> set (cp_fds (snd (run (wait_step ev) ((poll, errnohr, t) # calls) p))). ready x)"
proof -
  let ?n = "length (filter ready fds)"
  let ?q = "p\<lparr>cp_unreadcount := 0, cp_fds := fds, cp_unreadcount := word_of_int (int ?n)\<rparr>"
  have pq: "pending ?q = mset (filter ready fds)" by (simp add: pending_def mset_filter)
  have u: "unat (cp_unreadcount ?q) = ?n" using assms(6) by (simp add: unat_of_nat)
  have n: "0 < ?n" using assms(5) by simp
  have find: "CPoll_FindNextEvent e p = (False, e, p)" for e using assms(3) by (simp add: CPoll_FindNextEvent_def)
  have "fds \<noteq> []" using assms(5) by auto
  have same: "wait_step ev (poll, errnohr, t) p = wait_step ev (poll, errnohr, t) ?q"
  proof -
    have "cp_unreadcount ?q \<noteq> 0" using u n by (intro notI) (simp only: unat_0)
    moreover have "pending ?q \<noteq> {#}" using assms(5) by (simp only: pq mset_zero_iff not_False_eq_True)
    ultimately show ?thesis
    proof (rule FindNextEvent_pending [where ev = "ev\<lparr>pe_eventflags := 0\<rparr>"])
      fix x p' assume "CPoll_FindNextEvent (ev\<lparr>pe_eventflags := 0\<rparr>) ?q = (True, event_of x, p')"
      then show ?thesis using assms(1-4) n find \<open>fds \<noteq> []\<close>
        by (simp add: wait_step_def CPoll_WaitForNextEvent_def Let_def)
    qed
  qed
  have "cp_fInitialized ?q" "unat (cp_unreadcount ?q) = size (pending ?q)" "length ((poll, errnohr, t) # calls) = size (pending ?q)"
    using assms(1,7) u n by (simp_all only: pq size_mset) simp_all
  from deliver_pending [OF this, of ev]
  have "map fst (fst (run (wait_step ev) ((poll, errnohr, t) # calls) ?q)) = replicate ?n S_OK \<and>
    mset (map snd (fst (run (wait_step ev) ((poll, errnohr, t) # calls) ?q))) = mset (map event_of (filter ready fds)) \<and>
    cp_unreadcount (snd (run (wait_step ev) ((poll, errnohr, t) # calls) ?q)) = 0 \<and>
    pending (snd (run (wait_step ev) ((poll, errnohr, t) # calls) ?q)) = {#}"
    by (simp only: pq size_mset mset_map)
  moreover have "run (wait_step ev) ((poll, errnohr, t) # calls) ?q = run (wait_step ev) ((poll, errnohr, t) # calls) p"
    by (simp only: run.simps same)
  ultimately show ?thesis by (simp only: pending_empty) blast
qed

definition example_poll :: CPoll where
  "example_poll = snd (CPoll_Add 9 1 (snd (CPoll_Add 7 1 (snd (CPoll_Add 5 1 (snd (CPoll_Initialize 4 CPoll_new)))))))"

definition example_os :: "pollfd list \<Rightarrow> int \<Rightarrow> int \<times> pollfd list" where
  "example_os = poll_os 2 (\<lambda>x. if pf_fd x = 5 then 0x0010 else if pf_fd x = 9 then 0x0001 else 0)"

lemma example_poll_fds:
  "cp_fds example_poll = [\<lparr>pf_fd = 5, pf_events = 1, pf_revents = 0\<rparr>, \<lparr>pf_fd = 7, pf_events = 1, pf_revents = 0\<rparr>,
     \<lparr>pf_fd = 9, pf_events = 1, pf_revents = 0\<rparr>]"
  "cp_fInitialized example_poll" "cp_unreadcount example_poll = 0"
  by code_simp+

theorem poll_delivers_each_once_witness:
  "mset (map snd (fst (run (wait_step \<lparr>pe_fd = 0, pe_eventflags = 0\<rparr>) [(example_os, S_OK, 10), (\<lambda>fds t. (-1, []), E_FAIL, 10)] example_poll))) =
     {#\<lparr>pe_fd = 5, pe_eventflags = IPOLLING_HUP\<rparr>, \<lparr>pe_fd = 9, pe_eventflags = IPOLLING_READ\<rparr>#}"
proof -
  let ?fds = "[\<lparr>pf_fd = 5, pf_events = 1, pf_revents = 0x0010\<rparr>, \<lparr>pf_fd = 7, pf_events = 1, pf_revents = 0\<rparr>,
     \<lparr>pf_fd = 9, pf_events = 1, pf_revents = 0x0001\<rparr>]"
  have r: "filter ready ?fds = [\<lparr>pf_fd = 5, pf_events = 1, pf_revents = 0x0010\<rparr>, \<lparr>pf_fd = 9, pf_events = 1, pf_revents = 0x0001\<rparr>]"
    by (simp add: ready_def)
  have ev: "mset (map event_of (filter ready ?fds)) =
     {#\<lparr>pe_fd = 5, pe_eventflags = IPOLLING_HUP\<rparr>, \<lparr>pe_fd = 9, pe_eventflags = IPOLLING_READ\<rparr>#}"
    unfolding r by (simp add: event_of_def CPoll_FromNativeFlags_def Let_def flag_if_def ipolling_defs poll_flag_defs)
  have os: "example_os (cp_fds example_poll) 10 = (int (length (filter ready ?fds)), ?fds)"
    unfolding r by (simp add: example_os_def poll_os_def example_poll_fds)
  have "mset (map snd (fst (run (wait_step \<lparr>pe_fd = 0, pe_eventflags = 0\<rparr>) [(example_os, S_OK, 10), (\<lambda>fds t. (-1, []), E_FAIL, 10)] example_poll))) =
    mset (map event_of (filter ready ?fds))"
    by (rule conjunct1 [OF conjunct2 [OF poll_delivers_each_once [where poll = example_os and t = 10 and p = example_poll and fds = ?fds,
      OF example_poll_fds(2) _ example_poll_fds(3) os]]])
      (simp_all only: r, simp_all add: example_poll_fds)
  then show ?thesis unfolding ev .
qed

section \<open>The epoll implementation\<close>

text \<open>
  CEpoll's Initialize hides its failure. When epoll_create fails, Initialize and the factory still
  answer S_OK and hand out an instance, on which every operation fails: Add, Remove and ChangeEventSet
  with E_UNEXPECTED for every descriptor but -1 (E_INVALIDARG), and WaitForNextEvent with E_UNEXPECTED,
  without a system call.
\<close>

theorem epoll_failure_hidden:
  "\<exists>p. CreatePollingInstance True (-1) IPOLLING_TYPE_BEST maxSockets = (S_OK, Some (EpollWith p)) \<and>
     CEpoll_Add epoll_ctl e fd fl p = (if fd = -1 then E_INVALIDARG else E_UNEXPECTED, p) \<and>
     CEpoll_Remove epoll_ctl e fd p = (if fd = -1 then E_INVALIDARG else E_UNEXPECTED, p) \<and>
     CEpoll_ChangeEventSet epoll_ctl e fd fl p = (if fd = -1 then E_INVALIDARG else E_UNEXPECTED, p) \<and>
     CEpoll_WaitForNextEvent epoll_wait e ev t p = (E_UNEXPECTED, ev, p)"
  by (simp add: CreatePollingInstance_def CEpoll_Initialize_def CEpoll_Close_def CEpoll_new_def Let_def
      IPOLLING_TYPE_BEST_def IPOLLING_TYPE_EPOLL_def hresult_defs CEpoll_Add_def CEpoll_Remove_def
      CEpoll_ChangeEventSet_def CEpoll_WaitForNextEvent_def)

end
