(* ===== verification/TcpInv.thy ===== *)
theory TcpInv
  imports TcpLoop ConnectionPoolProps ConnectionMap PollingTheorems
begin

text \<open>
  The invariant of a thread of the TCP server: the two tables, the pool and the polling object agree
  on which connections there are, each connection waits for the event its state needs, and there are
  at most as many as configured. Every operation of \<open>TcpLoop\<close> is shown to keep it.
\<close>

section \<open>The invariant\<close>

abbreviation th_map :: "bool \<Rightarrow> CTCPStunThread \<Rightarrow> int \<Rightarrow> nat option" where
  "th_map b th \<equiv> cmap (th_table b th)"

text \<open>The sockets of the connections, and the listening sockets.\<close>

definition live :: "CTCPStunThread \<Rightarrow> int set" where
  "live th = dom (th_map True th) \<union> dom (th_map False th)"

definition listening :: "CTCPStunThread \<Rightarrow> int set" where
  "listening th = set (th_socketTable th) - {-1}"

definition conn_events :: "StunConnection \<Rightarrow> u32" where
  "conn_events c = (if sc_state c = ConnectionState_Receiving then EPOLL_CLIENT_READ_EVENT_SET else EPOLL_CLIENT_WRITE_EVENT_SET)"

text \<open>A connection either waits for the rest of a request or has a rest of the response to send.\<close>

definition conn_phase :: "StunConnection \<Rightarrow> bool" where
  "conn_phase c \<longleftrightarrow>
     (case sc_state c of
        ConnectionState_Idle \<Rightarrow> False
      | ConnectionState_Receiving \<Rightarrow>
          sc_txCount c = 0 \<and> (\<exists>bs. rd_inv True bs (sc_reader c) \<and> verdict True bs \<noteq> ParseError \<and> verdict True bs \<noteq> BodyValidated)
      | ConnectionState_Transmitting \<Rightarrow> sc_txCount c < b_size (the (sc_spOutputBuffer c)))"

definition conn_static :: "bool \<Rightarrow> int \<Rightarrow> StunConnection \<Rightarrow> bool" where
  "conn_static b k c \<longleftrightarrow> sc_idHashTable c = (if b then 1 else 2) \<and> ss_sock (sc_stunsocket c) = k \<and> k \<noteq> -1 \<and>
     IsValidSocketRole (ss_role (sc_stunsocket c))"

definition th_reg :: "CTCPStunThread \<Rightarrow> int \<Rightarrow> u16 option" where
  "th_reg th = (case th_spPolling th of None \<Rightarrow> Map.empty | Some p \<Rightarrow> poll_reg p)"

definition tables_inv :: "CTCPStunThread \<Rightarrow> bool" where
  "tables_inv th \<longleftrightarrow> 0 < th_maxConnections th \<and>
     (\<forall>b. cmap_inv (th_table b th) \<and> fh_fsize (th_table b th) = nat (th_maxConnections th)) \<and>
     dom (th_map True th) \<inter> dom (th_map False th) = {} \<and>
     fh_Size (th_table True th) + fh_Size (th_table False th) \<le> nat (th_maxConnections th)"

definition polled_inv :: "CTCPStunThread \<Rightarrow> bool" where
  "polled_inv th \<longleftrightarrow> (\<exists>p. th_spPolling th = Some p \<and> poll_inv p \<and>
     poll_room p + card (dom (poll_reg p)) = nat (th_maxConnections th) + 5) \<and>
     dom (th_reg th) = {th_pipe0 th} \<union> (if th_fListenSocketsOnEpoll th then listening th else {}) \<union> live th"

definition conns_inv :: "CTCPStunThread \<Rightarrow> bool" where
  "conns_inv th \<longleftrightarrow> pool_inv (th_connectionpool th) \<and>
     pool_used (th_connectionpool th) = ran (th_map True th) \<union> ran (th_map False th) \<and>
     (\<forall>b k p. th_map b th k = Some p \<longrightarrow> conn_static b k (th_conn th p))"

text \<open>The sockets of \<open>E\<close> are those of connections that are being worked on.\<close>

definition awaits_inv :: "int set \<Rightarrow> CTCPStunThread \<Rightarrow> bool" where
  "awaits_inv E th \<longleftrightarrow> (\<forall>b k p. th_map b th k = Some p \<longrightarrow> k \<notin> E \<longrightarrow>
     conn_phase (th_conn th p) \<and> th_reg th k = Some (native_events (conn_events (th_conn th p))))"

definition setup_inv :: "CTCPStunThread \<Rightarrow> bool" where
  "setup_inv th \<longleftrightarrow> length (th_socketTable th) = 4 \<and> distinct (filter (\<lambda>s. s \<noteq> -1) (th_socketTable th)) \<and>
     (\<forall>i < 4. th_socketTable th ! i \<noteq> -1 \<longrightarrow> IsValidSocketRole (ss_role (th_socketListenArray th ! i))) \<and>
     th_pipe0 th \<noteq> -1 \<and> th_pipe0 th \<notin> listening th \<and>
     length (th_tsa th) = 4 \<and> (\<forall>ta \<in> set (th_tsa th). sa_wf (ta_addr ta)) \<and> (\<forall>a. th_spAuth th = Some a \<longrightarrow> auth_wf a)"

definition inv_but :: "int set \<Rightarrow> CTCPStunThread \<Rightarrow> bool" where
  "inv_but E th \<longleftrightarrow> tables_inv th \<and> polled_inv th \<and> conns_inv th \<and> awaits_inv E th \<and> setup_inv th \<and>
     ({th_pipe0 th} \<union> listening th) \<inter> live th = {}"

abbreviation thread_inv :: "CTCPStunThread \<Rightarrow> bool" where
  "thread_inv \<equiv> inv_but {}"

lemmas inv_defs = inv_but_def tables_inv_def polled_inv_def conns_inv_def awaits_inv_def setup_inv_def

lemma th_table_simps [simp]:
  "th_table b (th\<lparr>th_connectionpool := x1\<rparr>) = th_table b th" "th_table b (th\<lparr>th_spPolling := x2\<rparr>) = th_table b th"
  "th_table b (th\<lparr>th_sent := x3\<rparr>) = th_table b th" "th_table b (th\<lparr>th_closed := x4\<rparr>) = th_table b th"
  "th_table b (th\<lparr>th_spLimiter := x5\<rparr>) = th_table b th" "th_table b (th\<lparr>th_fNewIs1 := x6\<rparr>) = th_table b th"
  "th_table b (th\<lparr>th_fListenSocketsOnEpoll := x7\<rparr>) = th_table b th" "th_table b (th\<lparr>th_fNeedToExit := x8\<rparr>) = th_table b th"
  "th_table b (th\<lparr>th_timeLastSweep := x9\<rparr>) = th_table b th" "th_table b (th\<lparr>th_accepted := x10\<rparr>) = th_table b th"
  by (simp_all add: th_table_def)

lemma th_set_table_simps [simp]:
  "th_table b (th_set_table b' t th) = (if b = b' then t else th_table b th)"
  "th_spPolling (th_set_table b' t th) = th_spPolling th" "th_connectionpool (th_set_table b' t th) = th_connectionpool th"
  "th_maxConnections (th_set_table b' t th) = th_maxConnections th" "th_pipe0 (th_set_table b' t th) = th_pipe0 th"
  "th_socketTable (th_set_table b' t th) = th_socketTable th" "th_fNewIs1 (th_set_table b' t th) = th_fNewIs1 th"
  "th_fListenSocketsOnEpoll (th_set_table b' t th) = th_fListenSocketsOnEpoll th"
  "th_socketListenArray (th_set_table b' t th) = th_socketListenArray th" "th_tsa (th_set_table b' t th) = th_tsa th"
  "th_spAuth (th_set_table b' t th) = th_spAuth th" "th_closed (th_set_table b' t th) = th_closed th"
  "th_accepted (th_set_table b' t th) = th_accepted th" "th_sent (th_set_table b' t th) = th_sent th"
  "th_timeLastSweep (th_set_table b' t th) = th_timeLastSweep th" "th_fNeedToExit (th_set_table b' t th) = th_fNeedToExit th"
  "th_pipe1 (th_set_table b' t th) = th_pipe1 th"
  by (auto simp: th_set_table_def th_table_def)

text \<open>What no operation on connections changes.\<close>

definition setup_of :: "CTCPStunThread \<Rightarrow> int \<times> int \<times> bool \<times> CStunSocket list \<times> int list \<times> IStunAuth option \<times>
    TransportAddressSet \<times> int \<times> bool \<times> bool \<times> int \<times> int list" where
  "setup_of th = (th_pipe0 th, th_pipe1 th, th_fListenSocketsOnEpoll th, th_socketListenArray th, th_socketTable th,
     th_spAuth th, th_tsa th, th_maxConnections th, th_fNewIs1 th, th_fNeedToExit th, th_timeLastSweep th, th_accepted th)"

lemma setup_ofD:
  assumes "setup_of th = setup_of th'"
  shows "th_pipe0 th = th_pipe0 th'" "th_pipe1 th = th_pipe1 th'" "th_fListenSocketsOnEpoll th = th_fListenSocketsOnEpoll th'"
    "th_socketListenArray th = th_socketListenArray th'" "th_socketTable th = th_socketTable th'"
    "th_spAuth th = th_spAuth th'" "th_tsa th = th_tsa th'" "th_maxConnections th = th_maxConnections th'"
    "th_fNewIs1 th = th_fNewIs1 th'" "th_fNeedToExit th = th_fNeedToExit th'"
    "th_timeLastSweep th = th_timeLastSweep th'" "th_accepted th = th_accepted th'" "listening th = listening th'"
  using assms by (simp_all add: setup_of_def listening_def)

lemma inv_frame [simp]:
  "inv_but E (th\<lparr>th_sent := x3\<rparr>) = inv_but E th" "inv_but E (th\<lparr>th_closed := x4\<rparr>) = inv_but E th"
  "inv_but E (th\<lparr>th_spLimiter := x5\<rparr>) = inv_but E th" "inv_but E (th\<lparr>th_fNewIs1 := x6\<rparr>) = inv_but E th"
  "inv_but E (th\<lparr>th_fNeedToExit := x8\<rparr>) = inv_but E th" "inv_but E (th\<lparr>th_timeLastSweep := x9\<rparr>) = inv_but E th"
  "inv_but E (th\<lparr>th_accepted := x10\<rparr>) = inv_but E th"
  by (simp_all add: inv_defs live_def listening_def th_reg_def)

lemma part_frame [simp]:
  "live (th\<lparr>th_connectionpool := x1\<rparr>) = live th" "live (th\<lparr>th_spPolling := x2\<rparr>) = live th"
  "live (th\<lparr>th_closed := x3\<rparr>) = live th" "live (th\<lparr>th_sent := x4\<rparr>) = live th"
  "live (th\<lparr>th_accepted := x5\<rparr>) = live th" "live (th\<lparr>th_spLimiter := x6\<rparr>) = live th"
  "listening (th\<lparr>th_connectionpool := x1\<rparr>) = listening th" "listening (th\<lparr>th_spPolling := x2\<rparr>) = listening th"
  "listening (th\<lparr>th_closed := x3\<rparr>) = listening th" "listening (th\<lparr>th_accepted := x5\<rparr>) = listening th"
  "listening (th_set_table b t th) = listening th" "setup_inv (th_set_table b t th) = setup_inv th"
  "setup_inv (th\<lparr>th_connectionpool := x1\<rparr>) = setup_inv th" "setup_inv (th\<lparr>th_spPolling := x2\<rparr>) = setup_inv th"
  "tables_inv (th\<lparr>th_connectionpool := x1\<rparr>) = tables_inv th" "tables_inv (th\<lparr>th_spPolling := x2\<rparr>) = tables_inv th"
  "setup_inv (th\<lparr>th_closed := x3\<rparr>) = setup_inv th" "tables_inv (th\<lparr>th_closed := x3\<rparr>) = tables_inv th"
  "polled_inv (th\<lparr>th_connectionpool := x1\<rparr>) = polled_inv th" "conns_inv (th\<lparr>th_spPolling := x2\<rparr>) = conns_inv th"
  "th_reg (th\<lparr>th_connectionpool := x1\<rparr>) = th_reg th" "th_reg (th_set_table b t th) = th_reg th"
  by (simp_all add: live_def listening_def setup_inv_def tables_inv_def polled_inv_def conns_inv_def th_reg_def)

lemma ex_bool: "(\<exists>b. P b) \<longleftrightarrow> P True \<or> P False"
  by (metis (full_types))

lemma live_iff: "k \<in> live th \<longleftrightarrow> (\<exists>b p. th_map b th k = Some p)"
  by (simp add: live_def ex_bool dom_def)

text \<open>A connection is in one table, under its socket.\<close>

lemma conn_unique:
  assumes "inv_but E th" "th_map b th k = Some p" "th_map b' th k' = Some p"
  shows "b' = b \<and> k' = k"
proof -
  have "conn_static b k (th_conn th p)" "conn_static b' k' (th_conn th p)"
    using assms by (simp_all add: inv_but_def conns_inv_def)
  then show ?thesis by (auto simp: conn_static_def split: if_splits)
qed

lemma table_unique:
  assumes "inv_but E th" "th_map b th k = Some p" "th_map b' th k = Some p'"
  shows "b' = b \<and> p' = p"
proof -
  have "dom (th_map True th) \<inter> dom (th_map False th) = {}" using assms(1) by (simp add: inv_but_def tables_inv_def)
  then have "b' = b" using assms(2,3) by (cases b; cases b') auto
  then show ?thesis using assms(2,3) by simp
qed

lemma conn_facts:
  assumes "inv_but E th" "th_map b th k = Some p"
  shows "p \<in> pool_used (th_connectionpool th)" "pool_inv (th_connectionpool th)" "conn_good (th_conn th p)"
    "conn_static b k (th_conn th p)" "ss_sock (sc_stunsocket (th_conn th p)) = k" "k \<noteq> -1" "k \<in> live th"
    "th_reg th k \<noteq> None"
proof -
  have "p \<in> ran (th_map True th) \<union> ran (th_map False th)" using assms(2) by (cases b) (auto intro: ranI)
  then show u: "p \<in> pool_used (th_connectionpool th)" "pool_inv (th_connectionpool th)"
    using assms(1) by (simp_all add: inv_but_def conns_inv_def)
  then show "conn_good (th_conn th p)" by (rule cp.used_good [rotated])
  show "conn_static b k (th_conn th p)" using assms by (simp add: inv_but_def conns_inv_def)
  then show "ss_sock (sc_stunsocket (th_conn th p)) = k" "k \<noteq> -1" by (simp_all add: conn_static_def)
  show l: "k \<in> live th" using assms(2) by (auto simp: live_iff)
  then have "k \<in> dom (th_reg th)" using assms(1) by (simp add: inv_but_def polled_inv_def)
  then show "th_reg th k \<noteq> None" by auto
qed

section \<open>Working on one connection\<close>

text \<open>What an operation on the connection with the socket \<open>k\<close> leaves alone.\<close>

definition only_conn :: "int \<Rightarrow> CTCPStunThread \<Rightarrow> CTCPStunThread \<Rightarrow> bool" where
  "only_conn k th th' \<longleftrightarrow> setup_of th' = setup_of th \<and> (\<forall>b k'. k' \<noteq> k \<longrightarrow> th_map b th' k' = th_map b th k') \<and>
     (\<forall>b k' p. k' \<noteq> k \<longrightarrow> th_map b th k' = Some p \<longrightarrow> th_conn th' p = th_conn th p) \<and>
     (\<forall>k'. k' \<noteq> k \<longrightarrow> th_reg th' k' = th_reg th k')"

definition kept :: "int \<Rightarrow> CTCPStunThread \<Rightarrow> CTCPStunThread \<Rightarrow> bool" where
  "kept k th th' \<longleftrightarrow> (\<forall>b. th_map b th' k = th_map b th k) \<and> th_closed th' = th_closed th \<and>
     (\<forall>b p. th_map b th k = Some p \<longrightarrow> sc_timeStart (th_conn th' p) = sc_timeStart (th_conn th p))"

definition gone :: "int \<Rightarrow> CTCPStunThread \<Rightarrow> CTCPStunThread \<Rightarrow> bool" where
  "gone k th th' \<longleftrightarrow> (\<forall>b. th_map b th' k = None) \<and> th_closed th' = th_closed th @ [k]"

definition conn_effect :: "int \<Rightarrow> CTCPStunThread \<Rightarrow> CTCPStunThread \<Rightarrow> bool" where
  "conn_effect k th th' \<longleftrightarrow> only_conn k th th' \<and> (kept k th th' \<or> gone k th th')"

lemma only_conn_refl [simp]: "only_conn k th th"
  by (simp add: only_conn_def)

lemma kept_refl [simp]: "kept k th th"
  by (simp add: kept_def)

lemma only_conn_trans: "only_conn k th th' \<Longrightarrow> only_conn k th' th'' \<Longrightarrow> only_conn k th th''"
  by (simp add: only_conn_def)

lemma kept_trans: "kept k th th' \<Longrightarrow> kept k th' th'' \<Longrightarrow> kept k th th''"
  by (simp add: kept_def)

lemma kept_effect: "kept k th th' \<Longrightarrow> only_conn k th th' \<Longrightarrow> conn_effect k th' th'' \<Longrightarrow> conn_effect k th th''"
  by (auto simp: conn_effect_def gone_def intro: only_conn_trans kept_trans) (simp add: kept_def)

lemma log_frame:
  "only_conn k th (th\<lparr>th_sent := x\<rparr>) \<and> kept k th (th\<lparr>th_sent := x\<rparr>)"
  "only_conn k th (th\<lparr>th_spLimiter := y\<rparr>) \<and> kept k th (th\<lparr>th_spLimiter := y\<rparr>)"
  by (simp_all add: only_conn_def kept_def setup_of_def th_reg_def)

lemma inv_but_mono: "inv_but E th \<Longrightarrow> E \<subseteq> E' \<Longrightarrow> inv_but E' th"
  unfolding inv_but_def awaits_inv_def by blast

lemma put_conn:
  assumes "inv_but E th" "th_map b th k = Some p" "k \<in> E" "conn_good c" "conn_static b k c"
    "sc_timeStart c = sc_timeStart (th_conn th p)"
  shows "inv_but E (th_put p c th) \<and> only_conn k th (th_put p c th) \<and> kept k th (th_put p c th) \<and>
    th_conn (th_put p c th) p = c"
proof -
  note f = conn_facts [OF assms(1,2)]
  have u: "p' \<noteq> p" if "th_map b' th k' = Some p'" "k' \<noteq> k" for b' k' p'
    using conn_unique [OF assms(1,2), of b' k'] that by auto
  have s: "conn_static b' k' c" if "th_map b' th k' = Some p" for b' k'
    using conn_unique [OF assms(1,2) that] assms(5) by simp
  note q = pool_put_inv [OF f(2,1) assms(4)]
  have "conns_inv (th_put p c th)" using assms(1) q s by (simp add: inv_but_def conns_inv_def)
  moreover have "awaits_inv E (th_put p c th)"
    using assms(1,3) u by (auto simp: inv_but_def awaits_inv_def th_reg_def)
  ultimately have "inv_but E (th_put p c th)" using assms(1) by (simp add: inv_but_def)
  moreover have "only_conn k th (th_put p c th)" using u by (auto simp: only_conn_def setup_of_def th_reg_def)
  moreover have "kept k th (th_put p c th)" using assms(6) by (simp add: kept_def)
  ultimately show ?thesis by simp
qed

lemma poll_change_conn:
  assumes "inv_but E th" "th_map b th k = Some p"
  obtains q where "th_poll (CPoll_ChangeEventSet k fl) th = (S_OK, th\<lparr>th_spPolling := Some q\<rparr>)"
    "inv_but (insert k E) (th\<lparr>th_spPolling := Some q\<rparr>)" "th_reg (th\<lparr>th_spPolling := Some q\<rparr>) = (th_reg th)(k \<mapsto> native_events fl)"
    "only_conn k th (th\<lparr>th_spPolling := Some q\<rparr>)" "kept k th (th\<lparr>th_spPolling := Some q\<rparr>)"
proof -
  obtain q0 where q0: "th_spPolling th = Some q0" "poll_inv q0"
    "poll_room q0 + card (dom (poll_reg q0)) = nat (th_maxConnections th) + 5"
    using assms(1) by (auto simp: inv_but_def polled_inv_def)
  then have r: "th_reg th = poll_reg q0" by (simp add: th_reg_def)
  have k: "poll_reg q0 k \<noteq> None" using conn_facts(8) [OF assms] r by simp
  obtain q where q: "CPoll_ChangeEventSet k fl q0 = (S_OK, q)" "poll_inv q" "poll_room q = poll_room q0"
    "poll_reg q = (poll_reg q0)(k \<mapsto> native_events fl)"
    using poll.change_known [OF q0(2) k, of fl] by (cases "CPoll_ChangeEventSet k fl q0") simp
  let ?th = "th\<lparr>th_spPolling := Some q\<rparr>"
  have d: "dom (poll_reg q) = dom (poll_reg q0)" using k by (auto simp: q(4))
  have rq: "th_reg ?th = poll_reg q" by (simp add: th_reg_def)
  have "polled_inv ?th" using assms(1) q0 q(2,3) d r rq by (simp add: inv_but_def polled_inv_def live_def listening_def)
  moreover have "awaits_inv (insert k E) ?th" using assms(1) by (auto simp: inv_but_def awaits_inv_def rq q(4) r)
  ultimately have i: "inv_but (insert k E) ?th" using assms(1) by (simp add: inv_but_def)
  show ?thesis
    by (rule that [OF _ i]) (simp_all add: th_poll_def q0(1) q(1) rq q(4) r only_conn_def kept_def setup_of_def)
qed

lemma conn_done:
  assumes "inv_but (insert k E) th" "th_map b th k = Some p" "conn_phase (th_conn th p)"
    "th_reg th k = Some (native_events (conn_events (th_conn th p)))"
  shows "inv_but E th"
proof -
  have "conn_phase (th_conn th p') \<and> th_reg th k' = Some (native_events (conn_events (th_conn th p')))"
    if "th_map b' th k' = Some p'" "k' \<notin> E" for b' k' p'
  proof (cases "k' = k")
    case True
    then show ?thesis using table_unique [OF assms(1,2), of b' p'] that(1) assms(3,4) by simp
  next
    case False
    then show ?thesis using assms(1) that by (simp add: inv_but_def awaits_inv_def)
  qed
  then have "awaits_inv E th" by (simp add: awaits_inv_def)
  then show ?thesis using assms(1) by (simp add: inv_but_def)
qed

lemma conn_awaits:
  assumes "thread_inv th" "th_map b th k = Some p"
  shows "conn_phase (th_conn th p)" "th_reg th k = Some (native_events (conn_events (th_conn th p)))"
  using assms by (simp_all add: inv_but_def awaits_inv_def)

lemma ran_remove:
  assumes "m k = Some p" "\<And>k'. m k' = Some p \<Longrightarrow> k' = k"
  shows "ran (m(k := None)) = ran m - {p}"
proof (rule set_eqI)
  fix v
  have "v \<in> ran (m(k := None)) \<longleftrightarrow> (\<exists>x. x \<noteq> k \<and> m x = Some v)" by (auto simp: ran_def)
  also have "\<dots> \<longleftrightarrow> (\<exists>x. m x = Some v) \<and> v \<noteq> p" using assms by (metis option.inject)
  finally show "v \<in> ran (m(k := None)) \<longleftrightarrow> v \<in> ran m - {p}" by (simp add: ran_def)
qed

lemma cmap_size: "cmap_inv t \<Longrightarrow> fh_Size t = card (dom (cmap t))"
  using cm.size_content by blast

section \<open>Closing a connection\<close>

lemma close_parts:
  assumes "inv_but (insert k E) th" "th_map b th k = Some p"
  obtains q s where "ss_sock s = -1" "sa_wf (ss_addrlocal s)" "sa_wf (ss_addrremote s)" "poll_inv q"
    "poll_room q + card (dom (poll_reg q)) = nat (th_maxConnections th) + 5" "poll_reg q = (th_reg th)(k := None)"
    "Thread_CloseConnection (Some p) th =
      (th_set_table b (snd (fh_Remove FastHash_Hash_int k (th_table b th))) th)\<lparr>th_spPolling := Some q,
        th_closed := th_closed th @ [k],
        th_connectionpool := Pool_ReleaseConnection p
          (pool_put p ((th_conn th p)\<lparr>sc_stunsocket := s\<rparr>) (th_connectionpool th))\<rparr>"
proof -
  note f = conn_facts [OF assms]
  obtain q0 where q0: "th_spPolling th = Some q0" "poll_inv q0"
    "poll_room q0 + card (dom (poll_reg q0)) = nat (th_maxConnections th) + 5"
    using assms(1) by (auto simp: inv_but_def polled_inv_def)
  then have r: "th_reg th = poll_reg q0" by (simp add: th_reg_def)
  have k: "poll_reg q0 k \<noteq> None" using f(8) r by simp
  obtain q where q: "CPoll_Remove k q0 = (S_OK, q)" "poll_inv q" "poll_room q = poll_room q0 + 1"
    "poll_reg q = (poll_reg q0)(k := None)"
    using poll.remove_known [OF q0(2) k] by (cases "CPoll_Remove k q0") simp
  have "finite (dom (poll_reg q0))" by (simp add: poll_reg_def finite_dom_map_of)
  then have "Suc (card (dom (poll_reg q0) - {k})) = card (dom (poll_reg q0))" using k by (intro card_Suc_Diff1) auto
  then have room: "poll_room q + card (dom (poll_reg q)) = nat (th_maxConnections th) + 5"
    using q(3) q0(3) by (simp add: q(4))
  let ?s = "StunSocket_Reset ((sc_stunsocket (th_conn th p))\<lparr>ss_sock := -1\<rparr>)"
  have cl: "StunSocket_Close (sc_stunsocket (th_conn th p)) = ([k], ?s)" using f(5,6) by (simp add: StunSocket_Close_def)
  have id: "sc_idHashTable (th_conn th p) = (if b then 1 else 2)" using f(4) by (simp add: conn_static_def)
  show ?thesis
  proof (rule that [OF _ _ _ q(2) room, of ?s])
    show "Thread_CloseConnection (Some p) th =
      (th_set_table b (snd (fh_Remove FastHash_Hash_int k (th_table b th))) th)\<lparr>th_spPolling := Some q,
        th_closed := th_closed th @ [k],
        th_connectionpool := Pool_ReleaseConnection p
          (pool_put p ((th_conn th p)\<lparr>sc_stunsocket := ?s\<rparr>) (th_connectionpool th))\<rparr>"
      using id cl f(5) q0(1) q(1)
      by (cases b) (simp_all add: Thread_CloseConnection_def StunSocket_GetSocketHandle_def th_poll_def Let_def
          th_set_table_def th_table_def)
  qed (simp_all add: StunSocket_Reset_def q(4) r)
qed

lemma removed_tables:
  assumes "inv_but E th" "th_map b th k = Some p"
  defines "th1 \<equiv> th_set_table b (snd (fh_Remove FastHash_Hash_int k (th_table b th))) th"
  shows "tables_inv th1" "th_map c th1 = (th_map c th)(k := None)" "live th1 = live th - {k}"
    "ran (th_map True th1) \<union> ran (th_map False th1) = ran (th_map True th) \<union> ran (th_map False th) - {p}"
    "Suc (fh_Size (th_table b th1)) = fh_Size (th_table b th)"
proof -
  have T: "cmap_inv (th_table c th)" "fh_fsize (th_table c th) = nat (th_maxConnections th)" for c
    using assms(1) by (simp_all add: inv_but_def tables_inv_def)
  note r = cm.remove_content [OF T(1) [of b], of k]
  have other: "th_map c th k = None" if "c \<noteq> b" for c
    using table_unique [OF assms(1,2), of c] that by (cases "th_map c th k") auto
  have m: "th_map c th1 = (th_map c th)(k := None)" for c using r other [of c] by (auto simp: th1_def fun_upd_idem)
  then show "th_map c th1 = (th_map c th)(k := None)" .
  show sz: "Suc (fh_Size (th_table b th1)) = fh_Size (th_table b th)"
    using cm.size_remove [OF T(1) [of b], of k] assms(2) by (simp add: th1_def)
  have "fh_Size (th_table c th1) \<le> fh_Size (th_table c th)" for c using sz by (cases "c = b") (auto simp: th1_def)
  from this [of True] this [of False]
  have "fh_Size (th_table True th1) + fh_Size (th_table False th1) \<le> nat (th_maxConnections th)"
    using assms(1) by (simp add: inv_but_def tables_inv_def)
  moreover have "cmap_inv (th_table c th1) \<and> fh_fsize (th_table c th1) = nat (th_maxConnections th)" for c
    using r T [of c] T [of b] by (cases "c = b") (auto simp: th1_def)
  moreover have "dom (th_map True th1) \<inter> dom (th_map False th1) = {}"
    using assms(1) by (auto simp: m inv_but_def tables_inv_def)
  ultimately show "tables_inv th1" using assms(1) by (simp add: tables_inv_def inv_but_def th1_def)
  show "live th1 = live th - {k}" by (auto simp: live_def m)
  have u: "ran ((th_map c th)(k := None)) = ran (th_map c th) - {p}" for c
  proof (cases "c = b")
    case True
    show ?thesis unfolding True
    proof (rule ran_remove [where m = "th_map b th" and k = k and p = p, OF assms(2)])
      fix k' assume "th_map b th k' = Some p"
      then show "k' = k" using conn_unique [OF assms(1,2)] by blast
    qed
  next
    case False
    then have "p \<notin> ran (th_map c th)" using conn_unique [OF assms(1,2), of c] by (auto simp: ran_def)
    then show ?thesis using other [OF False] by (simp add: fun_upd_idem)
  qed
  show "ran (th_map True th1) \<union> ran (th_map False th1) = ran (th_map True th) \<union> ran (th_map False th) - {p}"
    unfolding m u by blast
qed

lemma close_conn:
  assumes "inv_but (insert k E) th" "th_map b th k = Some p"
  shows "inv_but E (Thread_CloseConnection (Some p) th)" "only_conn k th (Thread_CloseConnection (Some p) th)"
    "gone k th (Thread_CloseConnection (Some p) th)"
    "\<And>c. th_map c (Thread_CloseConnection (Some p) th) = (th_map c th)(k := None)"
    "Suc (fh_Size (th_table b (Thread_CloseConnection (Some p) th))) = fh_Size (th_table b th)"
proof -
  obtain q s where c: "ss_sock s = -1" "sa_wf (ss_addrlocal s)" "sa_wf (ss_addrremote s)" "poll_inv q"
    "poll_room q + card (dom (poll_reg q)) = nat (th_maxConnections th) + 5" "poll_reg q = (th_reg th)(k := None)"
    "Thread_CloseConnection (Some p) th =
      (th_set_table b (snd (fh_Remove FastHash_Hash_int k (th_table b th))) th)\<lparr>th_spPolling := Some q,
        th_closed := th_closed th @ [k],
        th_connectionpool := Pool_ReleaseConnection p
          (pool_put p ((th_conn th p)\<lparr>sc_stunsocket := s\<rparr>) (th_connectionpool th))\<rparr>"
    by (rule close_parts [OF assms])
  define th1 where "th1 = th_set_table b (snd (fh_Remove FastHash_Hash_int k (th_table b th))) th"
  note t = removed_tables [OF assms, folded th1_def]
  note f = conn_facts [OF assms]
  define P where "P = Pool_ReleaseConnection p (pool_put p ((th_conn th p)\<lparr>sc_stunsocket := s\<rparr>) (th_connectionpool th))"
  have g: "conn_good ((th_conn th p)\<lparr>sc_stunsocket := s\<rparr>)" "conn_idle ((th_conn th p)\<lparr>sc_stunsocket := s\<rparr>)"
    using f(3) c(1-3) by (simp_all add: conn_good_def conn_idle_def)
  have P: "pool_inv P" "pool_used P = pool_used (th_connectionpool th) - {p}"
    "\<And>a. a \<in> pool_used (th_connectionpool th) - {p} \<Longrightarrow> conn_at P a = th_conn th a"
    using cp.release_put [OF f(2,1) g] unfolding P_def by blast+
  have U: "pool_used (th_connectionpool th) = ran (th_map True th) \<union> ran (th_map False th)"
    using assms(1) by (simp add: inv_but_def conns_inv_def)
  have other: "conn_at P a = th_conn th a" if "th_map c th k' = Some a" "k' \<noteq> k" for c k' a
  proof (rule P(3))
    have "a \<noteq> p" using conn_unique [OF assms, of c k'] that by auto
    moreover have "a \<in> ran (th_map True th) \<union> ran (th_map False th)" using that by (cases c) (auto intro: ranI)
    ultimately show "a \<in> pool_used (th_connectionpool th) - {p}" by (simp add: U)
  qed
  define th' where "th' = th1\<lparr>th_spPolling := Some q, th_closed := th_closed th @ [k], th_connectionpool := P\<rparr>"
  have eq: "Thread_CloseConnection (Some p) th = th'" using c(7) by (simp only: th'_def P_def th1_def)
  have m: "th_map d th' = (th_map d th)(k := None)" for d using t(2) [of d] by (simp add: th'_def)
  have same: "th_maxConnections th1 = th_maxConnections th" "th_pipe0 th1 = th_pipe0 th"
    "th_fListenSocketsOnEpoll th1 = th_fListenSocketsOnEpoll th" "listening th1 = listening th"
    "setup_inv th1 = setup_inv th" by (simp_all add: th1_def)
  have rg: "th_reg th' = (th_reg th)(k := None)" by (simp add: th'_def th_reg_def c(6))
  have I: "tables_inv th" "polled_inv th" "conns_inv th" "awaits_inv (insert k E) th" "setup_inv th"
    "({th_pipe0 th} \<union> listening th) \<inter> live th = {}" using assms(1) by (simp_all add: inv_but_def)
  have lk: "k \<notin> {th_pipe0 th} \<union> listening th" using I(6) f(7) by blast
  have "dom (th_reg th) = {th_pipe0 th} \<union> (if th_fListenSocketsOnEpoll th then listening th else {}) \<union> live th"
    using I(2) by (simp add: polled_inv_def)
  then have "dom (th_reg th') = {th_pipe0 th} \<union> (if th_fListenSocketsOnEpoll th then listening th else {}) \<union> (live th - {k})"
    using lk by (auto simp: rg split: if_splits)
  then have "polled_inv th'" using c(4,5) t(3) same by (simp add: polled_inv_def th'_def)
  moreover have "pool_used P = ran (th_map True th') \<union> ran (th_map False th')"
    using P(2) U t(4) by (simp only: m t(2))
  then have "conns_inv th'" using P(1) I(3) other by (simp add: conns_inv_def m) (simp add: th'_def)
  moreover have "awaits_inv E th'" using I(4) other by (auto simp: awaits_inv_def m rg) (simp_all add: th'_def)
  moreover have "tables_inv th'" "setup_inv th'" using t(1) I(5) same by (simp_all add: th'_def)
  moreover have "({th_pipe0 th'} \<union> listening th') \<inter> live th' = {}" using I(6) t(3) same by (auto simp: th'_def)
  ultimately show "inv_but E (Thread_CloseConnection (Some p) th)" by (simp add: eq inv_but_def)
  show "only_conn k th (Thread_CloseConnection (Some p) th)"
    using other by (simp add: eq only_conn_def m rg) (simp add: th'_def th1_def setup_of_def)
  show "gone k th (Thread_CloseConnection (Some p) th)" by (simp add: eq gone_def m) (simp add: th'_def)
  show "\<And>c. th_map c (Thread_CloseConnection (Some p) th) = (th_map c th)(k := None)" by (simp add: eq m)
  show "Suc (fh_Size (th_table b (Thread_CloseConnection (Some p) th))) = fh_Size (th_table b th)"
    using t(5) by (simp add: eq th'_def)
qed

end
