(* ===== verification/TcpHandlers.thy ===== *)
theory TcpHandlers
  imports TcpInv
begin

text \<open>
  Every operation of a thread of the TCP server keeps its invariant and touches only the connection it
  is called for: that connection stays, or it is closed and its socket with it.
\<close>

section \<open>Writing\<close>

lemma reset_good:
  assumes "conn_good c"
  shows "conn_good (conn_ResetReader c)" "rd_inv True [] (sc_reader (conn_ResetReader c))"
    "sc_stunsocket (conn_ResetReader c) = sc_stunsocket c" "sc_idHashTable (conn_ResetReader c) = sc_idHashTable c"
    "sc_timeStart (conn_ResetReader c) = sc_timeStart c" "sc_spOutputBuffer (conn_ResetReader c) = sc_spOutputBuffer c"
  using conn_ResetReader_inv [OF assms] by (simp_all add: conn_ResetReader_def Let_def)

text \<open>The connection is made ready for the next request.\<close>

lemma finish_conn:
  assumes "inv_but (insert k E) th" "th_map b th k = Some p"
  defines "th1 \<equiv> th_put p ((th_conn th p)\<lparr>sc_state := ConnectionState_Receiving\<rparr>) th"
  defines "th2 \<equiv> th1\<lparr>th_connectionpool := Pool_ResetConnection p (th_connectionpool th1)\<rparr>"
  obtains th3 where "th_poll (CPoll_ChangeEventSet k EPOLL_CLIENT_READ_EVENT_SET) th2 = (S_OK, th3)"
    "inv_but E th3" "only_conn k th th3" "kept k th th3" "sc_state (th_conn th3 p) = ConnectionState_Receiving"
    "rd_inv True [] (sc_reader (th_conn th3 p))" "sc_txCount (th_conn th3 p) = 0" "th_sent th3 = th_sent th"
proof -
  note f = conn_facts [OF assms(1,2)]
  let ?c0 = "(th_conn th p)\<lparr>sc_state := ConnectionState_Receiving\<rparr>"
  define c where "c = (conn_ResetReader ?c0)\<lparr>sc_state := ConnectionState_Receiving, sc_txCount := 0\<rparr>"
  have g0: "conn_good ?c0" using f(3) by (simp add: conn_good_def)
  note g = reset_good [OF g0]
  have c: "conn_good c" "conn_static b k c" "sc_timeStart c = sc_timeStart (th_conn th p)" "rd_inv True [] (sc_reader c)"
    "sc_state c = ConnectionState_Receiving" "sc_txCount c = 0"
    using g f(4) by (simp_all add: c_def conn_good_def conn_static_def)
  have th2: "th2 = th_put p c th"
    by (simp add: th2_def th1_def Pool_ResetConnection_def Let_def c_def)
  note u = put_conn [OF assms(1,2) insertI1 c(1-3)]
  have u1: "inv_but (insert k E) th2" "only_conn k th th2" "kept k th th2" "th_conn th2 p = c" using u by (simp_all only: th2)
  have m: "th_map b th2 k = Some p" using assms(2) by (simp add: th2)
  obtain q where q: "th_poll (CPoll_ChangeEventSet k EPOLL_CLIENT_READ_EVENT_SET) th2 = (S_OK, th2\<lparr>th_spPolling := Some q\<rparr>)"
    "inv_but (insert k (insert k E)) (th2\<lparr>th_spPolling := Some q\<rparr>)"
    "th_reg (th2\<lparr>th_spPolling := Some q\<rparr>) = (th_reg th2)(k \<mapsto> native_events EPOLL_CLIENT_READ_EVENT_SET)"
    "only_conn k th2 (th2\<lparr>th_spPolling := Some q\<rparr>)" "kept k th2 (th2\<lparr>th_spPolling := Some q\<rparr>)"
    by (rule poll_change_conn [OF u1(1) m])
  show ?thesis
  proof (rule that [OF q(1) _ only_conn_trans [OF u1(2) q(4)] kept_trans [OF u1(3) q(5)]])
    show "inv_but E (th2\<lparr>th_spPolling := Some q\<rparr>)"
    proof (rule conn_done)
      show "inv_but (insert k E) (th2\<lparr>th_spPolling := Some q\<rparr>)" using q(2) by simp
      show "th_map b (th2\<lparr>th_spPolling := Some q\<rparr>) k = Some p" using m by simp
      have "conn_phase c" unfolding conn_phase_def using c(4-6)
        by (auto intro!: exI [of _ "[]"] simp: verdict_def STUN_HEADER_SIZE_def)
      then show "conn_phase (th_conn (th2\<lparr>th_spPolling := Some q\<rparr>) p)" using u1(4) by simp
      show "th_reg (th2\<lparr>th_spPolling := Some q\<rparr>) k = Some (native_events (conn_events (th_conn (th2\<lparr>th_spPolling := Some q\<rparr>) p)))"
        using u1(4) c(5) q(3) by (simp add: conn_events_def)
    qed
  qed (use u1(4) c(4-6) in \<open>simp_all add: th2\<close>)
qed

text \<open>A connection that is sending has its registration, state and buffer; only the count moves.\<close>

lemma sent_conn:
  assumes "thread_inv th" "th_map b th k = Some p" "sc_state (th_conn th p) = ConnectionState_Transmitting"
    "n < b_size (the (sc_spOutputBuffer (th_conn th p)))"
  shows "thread_inv (th_put p ((th_conn th p)\<lparr>sc_txCount := n\<rparr>) th) \<and>
    only_conn k th (th_put p ((th_conn th p)\<lparr>sc_txCount := n\<rparr>) th) \<and> kept k th (th_put p ((th_conn th p)\<lparr>sc_txCount := n\<rparr>) th)"
proof -
  note f = conn_facts [OF assms(1,2)]
  let ?c = "(th_conn th p)\<lparr>sc_txCount := n\<rparr>" and ?th = "th_put p ((th_conn th p)\<lparr>sc_txCount := n\<rparr>) th"
  have i: "inv_but {k} th" by (rule inv_but_mono [OF assms(1)]) simp
  have "conn_good ?c" "conn_static b k ?c" using f(3,4) by (simp_all add: conn_good_def conn_static_def)
  note u = put_conn [OF i assms(2) singletonI this]
  then have u1: "inv_but {k} ?th" "only_conn k th ?th" "kept k th ?th" "th_conn ?th p = ?c" by simp_all
  note r = conn_awaits(2) [OF assms(1,2)]
  have "thread_inv ?th"
  proof (rule conn_done [OF u1(1)])
    show "th_map b ?th k = Some p" using assms(2) by simp
    show "conn_phase (th_conn ?th p)" unfolding u1(4) using assms(3,4) by (simp add: conn_phase_def)
    show "th_reg ?th k = Some (native_events (conn_events (th_conn ?th p)))"
      unfolding u1(4) using r assms(3) by (simp add: conn_events_def)
  qed
  then show ?thesis using u1 by simp
qed

lemma Write_loop_ok:
  assumes "thread_inv th" "th_map b th k = Some p" "sc_state (th_conn th p) = ConnectionState_Transmitting"
    "bytestotal = b_size (the (sc_spOutputBuffer (th_conn th p)))"
    "Thread_Write_loop pData bytestotal k p sends th = (hr, pConn, th')"
  shows "thread_inv th' \<and> only_conn k th th' \<and> kept k th th' \<and> (FAILED hr \<longrightarrow> pConn = Some p)"
  using assms
proof (induction pData bytestotal k p sends th rule: Thread_Write_loop.induct)
  case (4 pData bytestotal sock p n sends th)
  let ?tx = "sc_txCount (th_conn th p)" and ?s = "min n (bytestotal - sc_txCount (th_conn th p))"
  let ?th = "th\<lparr>th_sent := th_sent th @ [(sock, take ?s (drop ?tx pData))]\<rparr>"
  let ?th1 = "th_put p ((th_conn ?th p)\<lparr>sc_txCount := ?tx + ?s\<rparr>) ?th"
  have l: "only_conn sock th ?th" "kept sock th ?th" using log_frame(1) by blast+
  have i: "thread_inv ?th" "th_map b ?th sock = Some p" "sc_state (th_conn ?th p) = ConnectionState_Transmitting"
    using "4.prems" by simp_all
  have tx: "?tx < bytestotal" using conn_awaits(1) [OF "4.prems"(1,2)] "4.prems"(3,4) by (simp add: conn_phase_def)
  show ?case
  proof (cases "?s = 0")
    case True
    then show ?thesis using "4.prems" by (simp add: Let_def)
  next
    case False
    show ?thesis
    proof (cases "?tx + ?s \<ge> bytestotal")
      case True
      have g: "conn_good ((th_conn ?th p)\<lparr>sc_txCount := ?tx + ?s\<rparr>)" "conn_static b sock ((th_conn ?th p)\<lparr>sc_txCount := ?tx + ?s\<rparr>)"
        using conn_facts(3,4) [OF i(1,2)] by (simp_all add: conn_good_def conn_static_def)
      note u = put_conn [OF inv_but_mono [OF i(1) empty_subsetI] i(2) singletonI g]
      then have u1: "inv_but {sock} ?th1" "only_conn sock ?th ?th1" "kept sock ?th ?th1" by simp_all
      have m: "th_map b ?th1 sock = Some p" using i(2) by simp
      obtain th3 where t: "th_poll (CPoll_ChangeEventSet sock EPOLL_CLIENT_READ_EVENT_SET)
          (let th = th_put p ((th_conn ?th1 p)\<lparr>sc_state := ConnectionState_Receiving\<rparr>) ?th1
           in th\<lparr>th_connectionpool := Pool_ResetConnection p (th_connectionpool th)\<rparr>) = (S_OK, th3)"
        "thread_inv th3" "only_conn sock ?th1 th3" "kept sock ?th1 th3"
        by (rule finish_conn [OF u1(1) m]) (simp only: Let_def)
      have "Thread_Write_loop pData bytestotal sock p (Sent n # sends) th = (S_OK, None, th3)"
        using False True t(1) by (simp add: Let_def del: One_nat_def)
      then have "th' = th3" "hr = S_OK" using "4.prems"(5) by simp_all
      then show ?thesis
        using t(2) only_conn_trans [OF l(1) only_conn_trans [OF u1(2) t(3)]] kept_trans [OF l(2) kept_trans [OF u1(3) t(4)]]
        by simp
    next
      case less: False
      then have "?tx + ?s < b_size (the (sc_spOutputBuffer (th_conn ?th p)))" using "4.prems"(4) by simp
      note u = sent_conn [OF i this]
      have less': "\<not> bytestotal \<le> ?tx + n" "n \<le> bytestotal - ?tx" using less tx by (auto simp: min_def split: if_splits)
      have "Thread_Write_loop pData bytestotal sock p sends ?th1 = (hr, pConn, th')"
        using "4.prems"(5) False less less' by (simp add: Let_def min_absorb1)
      from "4.IH" [OF refl refl refl False refl refl _ _ _ _ _ this] less u i "4.prems"(4)
      have "thread_inv th' \<and> only_conn sock ?th1 th' \<and> kept sock ?th1 th' \<and> (FAILED hr \<longrightarrow> pConn = Some p)" by simp
      then show ?thesis using u only_conn_trans [OF l(1) only_conn_trans] kept_trans [OF l(2) kept_trans] by blast
    qed
  qed
qed simp_all

lemma WriteBytes_ok:
  assumes "thread_inv th" "th_map b th k = Some p" "sc_state (th_conn th p) = ConnectionState_Transmitting"
  shows "thread_inv (snd (Thread_WriteBytesForConnection sends p th)) \<and>
    conn_effect k th (snd (Thread_WriteBytesForConnection sends p th))"
proof -
  note f = conn_facts [OF assms(1,2)]
  let ?buf = "the (sc_spOutputBuffer (th_conn th p))"
  obtain hr pConn th' where w: "Thread_Write_loop (case b_data ?buf of None \<Rightarrow> [] | Some d \<Rightarrow> d) (CBuffer_GetSize ?buf) k p sends th =
      (hr, pConn, th')" by (metis prod_cases3)
  have "CBuffer_GetSize ?buf = b_size ?buf" by (simp add: CBuffer_GetSize_def)
  from Write_loop_ok [OF assms this w] have l: "thread_inv th'" "only_conn k th th'" "kept k th th'" "FAILED hr \<Longrightarrow> pConn = Some p"
    by blast+
  have eq: "snd (Thread_WriteBytesForConnection sends p th) = (if FAILED hr then Thread_CloseConnection (Some p) th' else th')"
    using w l(4) f(5) by (simp add: Thread_WriteBytesForConnection_def Let_def StunSocket_GetSocketHandle_def)
  show ?thesis
  proof (cases "FAILED hr")
    case True
    have m: "th_map b th' k = Some p" using l(3) assms(2) by (simp add: kept_def)
    note c = close_conn [OF inv_but_mono [OF l(1) empty_subsetI] m]
    have "gone k th (Thread_CloseConnection (Some p) th')" using c(3) l(3) by (simp add: gone_def kept_def)
    then show ?thesis using c(1) only_conn_trans [OF l(2) c(2)] True by (simp add: eq conn_effect_def)
  next
    case False
    then show ?thesis using l by (simp add: eq conn_effect_def)
  qed
qed

section \<open>Reading\<close>

lemma RateCheck_frame:
  obtains x where "snd (Thread_RateCheck timeNow addr th) = th\<lparr>th_spLimiter := x\<rparr>"
proof (cases "th_spLimiter th")
  case None
  then have "snd (Thread_RateCheck timeNow addr th) = th\<lparr>th_spLimiter := None\<rparr>" by (simp add: Thread_RateCheck_def)
  then show ?thesis by (rule that)
next
  case (Some rl)
  then show ?thesis using that by (simp add: Thread_RateCheck_def case_prod_beta)
qed

lemma ProcessRequest_other_class:
  assumes "request_wf allow bs as m out aset pAuth r cap" "Reader_GetMessageClass r \<noteq> StunMsgClassRequest"
  obtains out' buf where "Handler_ProcessRequest hmac md5 m out (Some aset) pAuth = (E_FAIL, out')"
    "out_spBufferOut out' = Some buf" "buf_wf buf" "b_allocated buf = cap"
proof -
  note W = assms(1) [unfolded request_wf_def]
  obtain b where b: "out_spBufferOut out = Some b" "buf_wf b" "b_allocated b = cap" "MAX_STUN_MESSAGE_SIZE \<le> cap" using W by auto
  have r: "in_pReader m = Some r" "rd_state r = BodyValidated" "IsValidSocketRole (in_socketrole m)"
    using W rd_validD(1) by auto
  show ?thesis
    by (rule that [where buf = "b\<lparr>b_size := 0\<rparr>" and out' = "out\<lparr>out_spBufferOut := Some (b\<lparr>b_size := 0\<rparr>),
          out_socketrole := in_socketrole m, out_addrDest := in_addrRemote m\<rparr>"])
      (use b r assms(2) in \<open>simp_all add: Handler_ProcessRequest_def CBuffer_GetAllocatedSize_def Reader_GetState_def Let_def
        CBuffer_SetSize_def Handler_ProcessRequestImpl_def h_reader_def Handler_new_def buf_wf_SetSize SUCCEEDED_def\<close>)
qed

text \<open>What the thread hands to the handler is a request it can handle, and the answer fits the buffer.\<close>

lemma conn_request:
  assumes "inv_but E th" "th_map b th k = Some p" "rd_inv True bs (sc_reader (th_conn th p))" "verdict True bs = BodyValidated"
    "\<And>k m. length (hmac k m) = 20"
  defines "c \<equiv> th_conn th p"
  defines "m \<equiv> \<lparr>in_socketrole = ss_role (sc_stunsocket c), in_addrLocal = ss_addrlocal (sc_stunsocket c),
      in_addrRemote = ss_addrremote (sc_stunsocket c), in_pReader = Some (sc_reader c), in_fConnectionOriented = True\<rparr>"
  defines "out \<equiv> \<lparr>out_socketrole = 0, out_addrDest = CSocketAddress_zero, out_spBufferOut = sc_spOutputBuffer c\<rparr>"
  obtains hr out' buf where "Handler_ProcessRequest hmac md5 m out (Some (th_tsa th)) (th_spAuth th) = (hr, out')"
    "out_spBufferOut out' = Some buf" "buf_wf buf" "b_allocated buf = MAX_STUN_MESSAGE_SIZE"
    "SUCCEEDED hr \<longrightarrow> 0 < b_size buf"
proof -
  note f = conn_facts [OF assms(1,2), folded c_def]
  obtain ats where ats: "rd_valid True bs ats (sc_reader c)"
    using rd_validI [OF assms(3)] assms(3,4) by (auto simp: rd_inv_def c_def)
  have su: "length (th_tsa th) = 4" "\<forall>ta \<in> set (th_tsa th). sa_wf (ta_addr ta)" "\<And>a. th_spAuth th = Some a \<Longrightarrow> auth_wf a"
    using assms(1) by (simp_all add: inv_but_def setup_inv_def)
  have wf: "request_wf True bs ats m out (th_tsa th) (th_spAuth th) (sc_reader c) MAX_STUN_MESSAGE_SIZE"
    using ats f(3,4) su by (auto simp: request_wf_def m_def out_def conn_good_def conn_static_def)
  show ?thesis
  proof (cases "Reader_GetMessageClass (sc_reader c) = StunMsgClassRequest")
    case True
    obtain out' field ws where o: "Handler_ProcessRequest hmac md5 m out (Some (th_tsa th)) (th_spAuth th) = (S_OK, out')"
      "out_answers out' MAX_STUN_MESSAGE_SIZE (msg_bytes field (Reader_GetTransactionId (sc_reader c)) ws)"
      by (rule request_answer [where hmac = hmac and ?md5.0 = md5, OF wf True assms(5)]) blast
    obtain buf where b: "out_spBufferOut out' = Some buf" "buf_wf buf" "b_allocated buf = MAX_STUN_MESSAGE_SIZE"
      "buf_bytes buf = msg_bytes field (Reader_GetTransactionId (sc_reader c)) ws" using o(2) by (auto simp: out_answers_def)
    have "length (buf_bytes buf) \<noteq> 0" by (simp add: b(4) msg_bytes_def)
    then have "SUCCEEDED S_OK \<longrightarrow> 0 < b_size buf" by (auto simp: buf_bytes_def split: option.splits)
    then show ?thesis by (rule that [OF o(1) b(1-3)])
  next
    case False
    from wf obtain out' buf where o: "Handler_ProcessRequest hmac md5 m out (Some (th_tsa th)) (th_spAuth th) = (E_FAIL, out')"
      "out_spBufferOut out' = Some buf" "buf_wf buf" "b_allocated buf = MAX_STUN_MESSAGE_SIZE"
      by (rule ProcessRequest_other_class [where hmac = hmac and ?md5.0 = md5, OF _ False])
    show ?thesis by (rule that [OF o]) (simp add: SUCCEEDED_def E_FAIL_def)
  qed
qed

lemma HandleMessage_ok:
  assumes "inv_but {k} th" "th_map b th k = Some p" "sc_txCount (th_conn th p) = 0"
    "rd_inv True bs (sc_reader (th_conn th p))" "verdict True bs = BodyValidated" "\<And>k m. length (hmac k m) = 20"
    "Thread_HandleMessage hmac md5 env k p th = (hr, pConn, th')"
  shows "if FAILED hr then pConn = Some p \<and> inv_but {k} th' \<and> only_conn k th th' \<and> kept k th th'
    else thread_inv th' \<and> conn_effect k th th'"
proof -
  let ?c = "th_conn th p"
  let ?m = "\<lparr>in_socketrole = ss_role (sc_stunsocket ?c), in_addrLocal = ss_addrlocal (sc_stunsocket ?c),
      in_addrRemote = ss_addrremote (sc_stunsocket ?c), in_pReader = Some (sc_reader ?c), in_fConnectionOriented = True\<rparr>"
  let ?out = "\<lparr>out_socketrole = 0, out_addrDest = CSocketAddress_zero, out_spBufferOut = sc_spOutputBuffer ?c\<rparr>"
  obtain ok th1 where r: "Thread_RateCheck (ev_timeReceive env) (ss_addrremote (sc_stunsocket ?c)) th = (ok, th1)"
    by (metis surj_pair)
  obtain x where th1: "th1 = th\<lparr>th_spLimiter := x\<rparr>"
    by (rule RateCheck_frame [of "ev_timeReceive env" "ss_addrremote (sc_stunsocket ?c)" th]) (use r in simp)
  have l: "only_conn k th th1" "kept k th th1" using log_frame(2) by (simp_all add: th1)
  have i: "inv_but {k} th1" "th_map b th1 k = Some p" "th_conn th1 p = ?c" "th_tsa th1 = th_tsa th" "th_spAuth th1 = th_spAuth th"
    using assms(1,2) by (simp_all add: th1)
  obtain hr1 out1 buf where h: "Handler_ProcessRequest hmac md5 ?m ?out (Some (th_tsa th)) (th_spAuth th) = (hr1, out1)"
    "out_spBufferOut out1 = Some buf" "buf_wf buf" "b_allocated buf = MAX_STUN_MESSAGE_SIZE" "SUCCEEDED hr1 \<longrightarrow> 0 < b_size buf"
    by (rule conn_request [where hmac = hmac and ?md5.0 = md5, OF assms(1,2,4,5,6)])
  note f = conn_facts [OF i(1,2), unfolded i(3)]
  define c2 where "c2 = ?c\<lparr>sc_spOutputBuffer := Some buf\<rparr>"
  define th2 where "th2 = th_put p c2 th1"
  have c2: "conn_good c2" "conn_static b k c2" "sc_timeStart c2 = sc_timeStart (th_conn th1 p)"
    using f(3,4) h(2-4) i(3) by (simp_all add: c2_def conn_good_def conn_static_def)
  note u2 = put_conn [OF i(1,2) singletonI c2, folded th2_def]
  have k2: "only_conn k th th2" "kept k th th2" "inv_but {k} th2" "th_conn th2 p = c2" "th_map b th2 k = Some p"
    using u2 only_conn_trans [OF l(1)] kept_trans [OF l(2)] i(2) by (simp_all add: th2_def)
  define c3 where "c3 = c2\<lparr>sc_state := ConnectionState_Transmitting\<rparr>"
  define th3 where "th3 = th_put p c3 th2"
  have c3: "conn_good c3" "conn_static b k c3" "sc_timeStart c3 = sc_timeStart (th_conn th2 p)"
    using c2 k2(4) by (simp_all add: c3_def conn_good_def conn_static_def)
  note u3 = put_conn [OF k2(3,5) singletonI c3, folded th3_def]
  have m3: "th_map b th3 k = Some p" using k2(5) by (simp add: th3_def)
  obtain q where q: "th_poll (CPoll_ChangeEventSet k EPOLL_CLIENT_WRITE_EVENT_SET) th3 = (S_OK, th3\<lparr>th_spPolling := Some q\<rparr>)"
    "inv_but (insert k {k}) (th3\<lparr>th_spPolling := Some q\<rparr>)"
    "th_reg (th3\<lparr>th_spPolling := Some q\<rparr>) = (th_reg th3)(k \<mapsto> native_events EPOLL_CLIENT_WRITE_EVENT_SET)"
    "only_conn k th3 (th3\<lparr>th_spPolling := Some q\<rparr>)" "kept k th3 (th3\<lparr>th_spPolling := Some q\<rparr>)"
    by (rule poll_change_conn [OF conjunct1 [OF u3] m3])
  let ?th4 = "th3\<lparr>th_spPolling := Some q\<rparr>"
  have k4: "only_conn k th ?th4" "kept k th ?th4" "th_conn ?th4 p = c3" "th_map b ?th4 k = Some p"
    using only_conn_trans [OF k2(1) only_conn_trans [OF _ q(4)]] kept_trans [OF k2(2) kept_trans [OF _ q(5)]] u3 m3 by simp_all
  have eq: "Thread_HandleMessage hmac md5 env k p th =
      (if ok = False then (E_FAIL, Some p, th1) else if FAILED hr1 then (hr1, Some p, th2)
       else (S_OK, None, snd (Thread_WriteBytesForConnection (ev_send env) p ?th4)))"
    unfolding Thread_HandleMessage_def StunSocket_GetRole_def StunSocket_GetLocalAddress_def StunSocket_GetRemoteAddress_def
    using r h(1,2) i(3-5) k2(4) q(1) by (simp add: Let_def flip: c2_def th2_def c3_def) (simp add: th3_def c3_def)
  show ?thesis
  proof (cases "ok = False \<or> FAILED hr1")
    case True
    moreover have "FAILED E_FAIL" by (simp add: SUCCEEDED_def E_FAIL_def)
    ultimately show ?thesis using assms(7) l i(1) k2(1-3) by (auto simp: eq split: if_splits)
  next
    case False
    have "thread_inv ?th4"
    proof (rule conn_done [OF _ k4(4)])
      show "inv_but {k} ?th4" using q(2) by simp
      show "conn_phase (th_conn ?th4 p)" unfolding k4(3) using False h(5) assms(3)
        by (simp add: conn_phase_def c3_def c2_def)
      show "th_reg ?th4 k = Some (native_events (conn_events (th_conn ?th4 p)))"
        unfolding k4(3) by (simp add: q(3) conn_events_def c3_def)
    qed
    moreover have "sc_state (th_conn ?th4 p) = ConnectionState_Transmitting" unfolding k4(3) by (simp add: c3_def)
    ultimately have "thread_inv (snd (Thread_WriteBytesForConnection (ev_send env) p ?th4)) \<and>
        conn_effect k ?th4 (snd (Thread_WriteBytesForConnection (ev_send env) p ?th4))"
      using WriteBytes_ok [OF _ k4(4)] by blast
    then show ?thesis using kept_effect [OF k4(2,1)] False assms(7) by (auto simp: eq)
  qed
qed

lemma Receive_loop_ok:
  assumes "inv_but {k} th" "th_map b th k = Some p" "sc_state (th_conn th p) = ConnectionState_Receiving"
    "th_reg th k = Some (native_events EPOLL_CLIENT_READ_EVENT_SET)" "sc_txCount (th_conn th p) = 0"
    "rd_inv True bs (sc_reader (th_conn th p))" "verdict True bs \<noteq> ParseError" "verdict True bs \<noteq> BodyValidated"
    "\<And>k m. length (hmac k m) = 20" "Thread_Receive_loop hmac md5 env k p recvs th = (hr, pConn, th')"
  shows "if FAILED hr then pConn = Some p \<and> inv_but {k} th' \<and> only_conn k th th' \<and> kept k th th'
    else thread_inv th' \<and> conn_effect k th th'"
  using assms(1-8,10)
proof (induction recvs arbitrary: th bs)
  case Nil
  have ef: "FAILED E_UNEXPECTED" "SUCCEEDED S_OK" by (simp_all add: SUCCEEDED_def E_UNEXPECTED_def S_OK_def)
  have "thread_inv th"
    by (rule conn_done [OF Nil.prems(1,2)]) (use Nil.prems in \<open>auto simp: conn_phase_def conn_events_def\<close>)
  then show ?case using Nil.prems ef
    by (auto simp: Thread_Receive_loop.simps [of hmac md5 env k p "[]"] Let_def conn_effect_def split: if_splits)
next
  case (Cons rv recvs)
  have ef: "FAILED E_UNEXPECTED" "FAILED E_FAIL" "SUCCEEDED S_OK"
    by (simp_all add: SUCCEEDED_def E_UNEXPECTED_def E_FAIL_def S_OK_def)
  note step = Cons.prems(9) [unfolded Thread_Receive_loop.simps [of hmac md5 env k p "rv # recvs"]]
  let ?c = "th_conn th p"
  have idle: "thread_inv th"
    by (rule conn_done [OF Cons.prems(1,2)]) (use Cons.prems in \<open>auto simp: conn_phase_def conn_events_def\<close>)
  show ?case
  proof (cases "Reader_HowManyBytesNeeded (sc_reader ?c) = 0")
    case True
    then show ?thesis using step Cons.prems(1) ef by (auto simp: Let_def)
  next
    case need: False
    show ?thesis
    proof (cases rv)
      case (Received d)
      let ?buf = "take (unat (Reader_HowManyBytesNeeded (sc_reader ?c))) d"
      obtain st r where a: "Reader_AddBytes ?buf (sc_reader ?c) = (st, r)" by (metis surj_pair)
      note ai = AddBytes_inv [OF Cons.prems(6), of ?buf, unfolded a fst_conv snd_conv]
      let ?c1 = "?c\<lparr>sc_reader := r\<rparr>" and ?th1 = "th_put p (?c\<lparr>sc_reader := r\<rparr>) th"
      note f = conn_facts [OF Cons.prems(1,2)]
      have "rd_table r" using AddBytes_table [of "sc_reader ?c" ?buf] f(3) a by (simp add: conn_good_def)
      then have c1: "conn_good ?c1" "conn_static b k ?c1" using f(3,4) by (simp_all add: conn_good_def conn_static_def)
      note u = put_conn [OF Cons.prems(1,2) singletonI c1]
      then have u1: "inv_but {k} ?th1" "only_conn k th ?th1" "kept k th ?th1" "th_conn ?th1 p = ?c1" by simp_all
      have m: "th_map b ?th1 k = Some p" using Cons.prems(2) by simp
      show ?thesis
      proof (cases "?buf = [] \<or> st = ParseError")
        case True
        then show ?thesis using step need Received a u1(1-3) Cons.prems(1) ef by (auto simp: Let_def split: if_splits)
      next
        case ne: False
        show ?thesis
        proof (cases "st = BodyValidated")
          case True
          then have "Thread_HandleMessage hmac md5 env k p ?th1 = (hr, pConn, th')"
            using step need Received a ne by (simp add: Let_def)
          from HandleMessage_ok [OF u1(1) m _ _ _ assms(9) this] Cons.prems(5) ai True
          have h: "if FAILED hr then pConn = Some p \<and> inv_but {k} th' \<and> only_conn k ?th1 th' \<and> kept k ?th1 th'
            else thread_inv th' \<and> conn_effect k ?th1 th'" unfolding u1(4) by simp
          show ?thesis
            using h only_conn_trans [OF u1(2)] kept_trans [OF u1(3)] kept_effect [OF u1(3,2)] by (cases "FAILED hr") simp_all
        next
          case False
          then have l: "Thread_Receive_loop hmac md5 env k p recvs ?th1 = (hr, pConn, th')"
            using step need Received a ne by (simp add: Let_def)
          have h: "if FAILED hr then pConn = Some p \<and> inv_but {k} th' \<and> only_conn k ?th1 th' \<and> kept k ?th1 th'
            else thread_inv th' \<and> conn_effect k ?th1 th'"
            by (rule Cons.IH [OF u1(1) m _ _ _ _ _ _ l, unfolded u1(4), where bs = "bs @ ?buf"])
              (use Cons.prems(3-5) ai ne False in simp_all)
          show ?thesis
            using h only_conn_trans [OF u1(2)] kept_trans [OF u1(3)] kept_effect [OF u1(3,2)] by (cases "FAILED hr") simp_all
        qed
      qed
    next
      case RecvWouldBlock
      then show ?thesis using step need idle ef by (auto simp: Let_def conn_effect_def)
    next
      case RecvError
      then show ?thesis using step need Cons.prems(1) ef by (auto simp: Let_def)
    qed
  qed
qed

lemma ReceiveBytes_ok:
  assumes "thread_inv th" "th_map b th k = Some p" "sc_state (th_conn th p) = ConnectionState_Receiving"
    "\<And>k m. length (hmac k m) = 20"
  shows "thread_inv (snd (Thread_ReceiveBytesForConnection hmac md5 env p th)) \<and>
    conn_effect k th (snd (Thread_ReceiveBytesForConnection hmac md5 env p th))"
proof -
  note f = conn_facts [OF assms(1,2)]
  obtain bs where c: "sc_txCount (th_conn th p) = 0" "rd_inv True bs (sc_reader (th_conn th p))" "verdict True bs \<noteq> ParseError"
    "verdict True bs \<noteq> BodyValidated" "th_reg th k = Some (native_events EPOLL_CLIENT_READ_EVENT_SET)"
    using conn_awaits [OF assms(1,2)] assms(3) by (auto simp: conn_phase_def conn_events_def)
  obtain hr pConn th' where w: "Thread_Receive_loop hmac md5 env k p (ev_recv env) th = (hr, pConn, th')" by (metis prod_cases3)
  from Receive_loop_ok [OF inv_but_mono [OF assms(1) empty_subsetI] assms(2,3) c(5,1-4) assms(4) w]
  have l: "if FAILED hr then pConn = Some p \<and> inv_but {k} th' \<and> only_conn k th th' \<and> kept k th th'
    else thread_inv th' \<and> conn_effect k th th'" .
  have eq: "snd (Thread_ReceiveBytesForConnection hmac md5 env p th) = (if FAILED hr then Thread_CloseConnection pConn th' else th')"
    using w f(5) by (simp add: Thread_ReceiveBytesForConnection_def Let_def StunSocket_GetSocketHandle_def)
  show ?thesis
  proof (cases "FAILED hr")
    case True
    then have l: "pConn = Some p" "inv_but {k} th'" "only_conn k th th'" "kept k th th'" using l by simp_all
    have m: "th_map b th' k = Some p" using l(4) assms(2) by (simp add: kept_def)
    note c = close_conn [OF l(2) m]
    have "gone k th (Thread_CloseConnection (Some p) th')" using c(3) l(4) by (simp add: gone_def kept_def)
    then show ?thesis using c(1) only_conn_trans [OF l(3) c(2)] True by (simp add: eq l(1) conn_effect_def)
  qed (use l in \<open>simp add: eq\<close>)
qed

end
