(* ===== verification/TcpRun.thy ===== *)
theory TcpRun
  imports TcpHandlers
begin

text \<open>
  Whole turns of a thread of the TCP server: closing the connections of a table, switching the
  listening sockets, accepting, and the loop. Every turn keeps the invariant; the descriptors that were
  accepted are those that were closed and those of the connections.
\<close>

section \<open>Closing all connections of a table\<close>

lemma set_table_same:
  assumes "inv_but E th" "cmap_inv t" "cmap t = th_map b th" "fh_fsize t = fh_fsize (th_table b th)"
  shows "inv_but E (th_set_table b t th) \<and> th_map c (th_set_table b t th) = th_map c th \<and>
    fh_Size (th_table c (th_set_table b t th)) = fh_Size (th_table c th)"
proof -
  let ?th = "th_set_table b t th"
  have T: "cmap_inv (th_table c th)" for c using assms(1) by (simp add: inv_but_def tables_inv_def)
  have m: "th_map c ?th = th_map c th" for c using assms(3) by (cases "c = b") auto
  have "fh_Size t = fh_Size (th_table b th)" using cmap_size [OF assms(2)] cmap_size [OF T [of b]] assms(3) by simp
  then have s: "fh_Size (th_table c ?th) = fh_Size (th_table c th)" for c by (cases "c = b") auto
  have l: "live ?th = live th" by (simp only: live_def m)
  have "cmap_inv (th_table c ?th) \<and> fh_fsize (th_table c ?th) = nat (th_maxConnections th)" for c
    using assms by (auto simp: inv_but_def tables_inv_def)
  then have "tables_inv ?th" using assms(1) unfolding inv_but_def tables_inv_def m s by simp
  moreover have "polled_inv ?th" using assms(1) unfolding inv_but_def polled_inv_def l by simp
  moreover have "conns_inv ?th" using assms(1) unfolding inv_but_def conns_inv_def m by simp
  moreover have "awaits_inv E ?th" using assms(1) unfolding inv_but_def awaits_inv_def m by simp
  ultimately have "inv_but E ?th" using assms(1) l by (simp add: inv_but_def)
  then show ?thesis using m [of c] s [of c] by blast
qed

text \<open>The connections of one table are closed, the others are left alone.\<close>

definition table_closed :: "bool \<Rightarrow> CTCPStunThread \<Rightarrow> CTCPStunThread \<Rightarrow> bool" where
  "table_closed b th th' \<longleftrightarrow> setup_of th' = setup_of th \<and> th_map b th' = Map.empty \<and>
     th_map (\<not> b) th' = th_map (\<not> b) th \<and> (\<forall>k p. th_map (\<not> b) th k = Some p \<longrightarrow> th_conn th' p = th_conn th p) \<and>
     mset (th_closed th') = mset (th_closed th) + mset_set (dom (th_map b th))"

lemma close_first:
  assumes "thread_inv th" "fh_LookupByIndex 0 (th_table b th) = (it, t)"
  shows "thread_inv (th_set_table b t th) \<and> (\<forall>c. th_map c (th_set_table b t th) = th_map c th) \<and>
    fh_Size (th_table b (th_set_table b t th)) = fh_Size (th_table b th) \<and>
    (case it of None \<Rightarrow> th_map b th = Map.empty | Some (k, p) \<Rightarrow> th_map b th k = Some p)"
proof -
  have T: "cmap_inv (th_table b th)" using assms(1) by (simp add: inv_but_def tables_inv_def)
  note l = cm.first_content [OF T, unfolded assms(2) fst_conv snd_conv]
  then show ?thesis using set_table_same [OF assms(1), of t b] by blast
qed

lemma CloseAll_loop_ok:
  assumes "thread_inv th" "fh_Size (th_table b th) < fuel"
  shows "thread_inv (Thread_CloseAll_loop fuel b th) \<and> table_closed b th (Thread_CloseAll_loop fuel b th)"
  using assms
proof (induction fuel arbitrary: th)
  case (Suc fuel)
  obtain it t where l: "fh_LookupByIndex 0 (th_table b th) = (it, t)" by (metis surj_pair)
  let ?th = "th_set_table b t th"
  note f = close_first [OF Suc.prems(1) l]
  have eqs: "setup_of ?th = setup_of th" "th_closed ?th = th_closed th" "th_connectionpool ?th = th_connectionpool th"
    by (simp_all add: setup_of_def)
  show ?case
  proof (cases it)
    case None
    then show ?thesis using f l eqs by (simp add: table_closed_def del: th_set_table_simps(1))
  next
    case (Some kp)
    then obtain k p where kp: "it = Some (k, p)" by (metis surj_pair)
    have m: "th_map b ?th k = Some p" and i: "thread_inv ?th" and sm: "\<And>c. th_map c ?th = th_map c th"
      and sz: "fh_Size (th_table b ?th) = fh_Size (th_table b th)"
      using f kp by (auto simp del: th_set_table_simps)
    let ?th1 = "Thread_CloseConnection (Some p) ?th"
    note c = close_conn [OF inv_but_mono [OF i empty_subsetI] m]
    have "fh_Size (th_table b ?th1) < fuel" using c(5) Suc.prems(2) sz by simp
    note ih = Suc.IH [OF c(1) this]
    have eq: "Thread_CloseAll_loop (Suc fuel) b th = Thread_CloseAll_loop fuel b ?th1" by (simp add: l kp)
    have other: "th_map (\<not> b) th k = None"
      using table_unique [OF i m, of "\<not> b"] sm by (cases "th_map (\<not> b) th k") auto
    have fin: "finite (dom (th_map b th))"
      using cm.size_content [of "th_table b th"] Suc.prems(1) by (simp add: inv_but_def tables_inv_def)
    have k: "k \<in> dom (th_map b th)" using m unfolding sm by blast
    have ms: "mset_set (dom (th_map b th)) = add_mset k (mset_set (dom (th_map b th) - {k}))"
      using mset_set.remove [OF fin k] .
    have m1: "th_map c ?th1 = (th_map c th)(k := None)" for c using c(4) sm by simp
    have "th_map (\<not> b) ?th1 = th_map (\<not> b) th" using m1 other by (simp add: fun_upd_idem)
    moreover have "th_conn ?th1 p' = th_conn th p'" if "th_map (\<not> b) th k' = Some p'" for k' p'
    proof -
      have "k' \<noteq> k" using that other by auto
      then show ?thesis using c(2) that sm eqs(3) by (simp add: only_conn_def)
    qed
    moreover have "mset (th_closed ?th1) = add_mset k (mset (th_closed th))" using c(3) eqs(2) by (simp add: gone_def)
    moreover have "setup_of ?th1 = setup_of th" using c(2) eqs(1) by (simp add: only_conn_def)
    moreover have "dom (th_map b ?th1) = dom (th_map b th) - {k}" by (simp add: m1)
    ultimately have "table_closed b th (Thread_CloseAll_loop fuel b ?th1)"
      using conjunct2 [OF ih] ms by (simp add: table_closed_def)
    then show ?thesis unfolding eq using ih by blast
  qed
qed simp

lemma CloseAllConnections_empties:
  assumes "thread_inv th"
  shows "thread_inv (Thread_CloseAllConnections b th) \<and> table_closed b th (Thread_CloseAllConnections b th)"
  unfolding Thread_CloseAllConnections_def by (rule CloseAll_loop_ok [OF assms]) simp

lemma closed_balance:
  assumes "thread_inv th" "table_closed b th th'"
  shows "mset (th_closed th') + mset_set (live th') = mset (th_closed th) + mset_set (live th) \<and>
    th_accepted th' = th_accepted th"
proof -
  have T: "cmap_inv (th_table c th)" for c using assms(1) by (simp add: inv_but_def tables_inv_def)
  have fin: "finite (dom (th_map c th))" for c using cm.size_content [OF T] by blast
  have dj: "dom (th_map b th) \<inter> dom (th_map (\<not> b) th) = {}"
    using assms(1) by (cases b) (auto simp: inv_but_def tables_inv_def)
  have "live th = dom (th_map b th) \<union> dom (th_map (\<not> b) th)" by (cases b) (auto simp: live_def)
  then have l: "mset_set (live th) = mset_set (dom (th_map b th)) + mset_set (dom (th_map (\<not> b) th))"
    using fin dj by (simp add: mset_set_Union)
  have "live th' = dom (th_map b th') \<union> dom (th_map (\<not> b) th')" by (cases b) (auto simp: live_def)
  then have "live th' = dom (th_map (\<not> b) th)" using assms(2) by (simp add: table_closed_def)
  then show ?thesis using assms(2) l setup_ofD(12) [of th' th] by (simp add: table_closed_def)
qed

section \<open>Switching the listening sockets\<close>

abbreviation socks_of :: "int list \<Rightarrow> int list" where
  "socks_of ss \<equiv> filter (\<lambda>s. s \<noteq> -1) ss"

lemma SUCCEEDED_S_OK [simp]: "SUCCEEDED S_OK"
  by (simp add: SUCCEEDED_def S_OK_def)

lemma listen_add:
  assumes "th_spPolling th = Some q" "poll_inv q" "distinct (socks_of ss)" "\<And>s. s \<in> set (socks_of ss) \<Longrightarrow> poll_reg q s = None"
    "length (socks_of ss) \<le> poll_room q"
  shows "\<exists>q'. Thread_SetListen_loop True ss S_OK th = (S_OK, th\<lparr>th_spPolling := Some q'\<rparr>) \<and> poll_inv q' \<and>
    poll_room q' + length (socks_of ss) = poll_room q \<and>
    poll_reg q' = (\<lambda>k. if k \<in> set (socks_of ss) then Some (native_events EPOLL_LISTEN_SOCKET_EVENT_SET) else poll_reg q k)"
  using assms
proof (induction ss arbitrary: th q)
  case Nil
  then have "th\<lparr>th_spPolling := Some q\<rparr> = th" by (cases th) simp
  then show ?case using Nil by (intro exI [of _ q]) simp
next
  case (Cons s ss)
  show ?case
  proof (cases "s = -1")
    case True
    then show ?thesis using Cons.IH [of th q] Cons.prems by simp
  next
    case False
    then have new: "poll_reg q s = None" "0 < poll_room q" using Cons.prems(4) [of s] Cons.prems(5) by simp_all
    obtain q1 where q1: "CPoll_Add s EPOLL_LISTEN_SOCKET_EVENT_SET q = (S_OK, q1)" "poll_inv q1" "poll_room q1 = poll_room q - 1"
      "poll_reg q1 = (poll_reg q)(s \<mapsto> native_events EPOLL_LISTEN_SOCKET_EVENT_SET)"
      using poll.add_new [OF Cons.prems(2) new, of EPOLL_LISTEN_SOCKET_EVENT_SET]
      by (cases "CPoll_Add s EPOLL_LISTEN_SOCKET_EVENT_SET q") simp
    have "poll_reg q1 s' = None" if "s' \<in> set (socks_of ss)" for s'
      using that Cons.prems(3,4) False by (auto simp: q1(4))
    moreover have "length (socks_of ss) \<le> poll_room q1" "distinct (socks_of ss)"
      using Cons.prems(3,5) False q1(3) by simp_all
    ultimately obtain q' where q': "Thread_SetListen_loop True ss S_OK (th\<lparr>th_spPolling := Some q1\<rparr>) =
        (S_OK, th\<lparr>th_spPolling := Some q'\<rparr>)" "poll_inv q'" "poll_room q' + length (socks_of ss) = poll_room q1"
      "poll_reg q' = (\<lambda>k. if k \<in> set (socks_of ss) then Some (native_events EPOLL_LISTEN_SOCKET_EVENT_SET) else poll_reg q1 k)"
      using Cons.IH [of "th\<lparr>th_spPolling := Some q1\<rparr>" q1] q1(2) by auto
    have "Thread_SetListen_loop True (s # ss) S_OK th = (S_OK, th\<lparr>th_spPolling := Some q'\<rparr>)"
      using False Cons.prems(1) q1(1) q'(1) by (simp add: th_poll_def)
    moreover have "poll_room q' + length (socks_of (s # ss)) = poll_room q" using q'(3) q1(3) new(2) False by simp
    ultimately show ?thesis using q'(2,4) q1(4) False by (intro exI [of _ q']) (auto simp: fun_eq_iff)
  qed
qed

lemma listen_remove:
  assumes "th_spPolling th = Some q" "poll_inv q" "distinct (socks_of ss)" "\<And>s. s \<in> set (socks_of ss) \<Longrightarrow> poll_reg q s \<noteq> None"
  shows "\<exists>q'. Thread_SetListen_loop False ss S_OK th = (S_OK, th\<lparr>th_spPolling := Some q'\<rparr>) \<and> poll_inv q' \<and>
    poll_room q' = poll_room q + length (socks_of ss) \<and>
    poll_reg q' = (\<lambda>k. if k \<in> set (socks_of ss) then None else poll_reg q k)"
  using assms
proof (induction ss arbitrary: th q)
  case Nil
  then have "th\<lparr>th_spPolling := Some q\<rparr> = th" by (cases th) simp
  then show ?case using Nil by (intro exI [of _ q]) simp
next
  case (Cons s ss)
  show ?case
  proof (cases "s = -1")
    case True
    then show ?thesis using Cons.IH [of th q] Cons.prems by simp
  next
    case False
    then have known: "poll_reg q s \<noteq> None" using Cons.prems(4) [of s] by simp
    obtain q1 where q1: "CPoll_Remove s q = (S_OK, q1)" "poll_inv q1" "poll_room q1 = poll_room q + 1"
      "poll_reg q1 = (poll_reg q)(s := None)"
      using poll.remove_known [OF Cons.prems(2) known] by (cases "CPoll_Remove s q") simp
    have "poll_reg q1 s' \<noteq> None" if "s' \<in> set (socks_of ss)" for s'
      using that Cons.prems(3) Cons.prems(4) [of s'] False by (auto simp: q1(4))
    moreover have "distinct (socks_of ss)" using Cons.prems(3) False by simp
    ultimately obtain q' where q': "Thread_SetListen_loop False ss S_OK (th\<lparr>th_spPolling := Some q1\<rparr>) =
        (S_OK, th\<lparr>th_spPolling := Some q'\<rparr>)" "poll_inv q'" "poll_room q' = poll_room q1 + length (socks_of ss)"
      "poll_reg q' = (\<lambda>k. if k \<in> set (socks_of ss) then None else poll_reg q1 k)"
      using Cons.IH [of "th\<lparr>th_spPolling := Some q1\<rparr>" q1] q1(2) by auto
    have "Thread_SetListen_loop False (s # ss) S_OK th = (S_OK, th\<lparr>th_spPolling := Some q'\<rparr>)"
      using False Cons.prems(1) q1(1) q'(1) by (simp add: th_poll_def)
    then show ?thesis using q'(2-4) q1(3,4) False by (intro exI [of _ q']) (auto simp: fun_eq_iff)
  qed
qed

lemma live_card:
  assumes "inv_but E th"
  shows "finite (live th)" "card (live th) = fh_Size (th_table True th) + fh_Size (th_table False th)"
proof -
  have T: "cmap_inv (th_table c th)" for c using assms by (simp add: inv_but_def tables_inv_def)
  have fin: "finite (dom (th_map c th))" for c using cm.size_content [OF T] by blast
  then show "finite (live th)" by (simp add: live_def)
  have "dom (th_map True th) \<inter> dom (th_map False th) = {}" using assms by (simp add: inv_but_def tables_inv_def)
  then show "card (live th) = fh_Size (th_table True th) + fh_Size (th_table False th)"
    using fin by (simp add: live_def card_Un_disjoint cmap_size [OF T])
qed

lemma SetListen_ok:
  assumes "thread_inv th"
  obtains q where "Thread_SetListenSocketsOnEpoll fEnable th =
      (S_OK, th\<lparr>th_spPolling := Some q, th_fListenSocketsOnEpoll := fEnable\<rparr>)"
    "thread_inv (th\<lparr>th_spPolling := Some q, th_fListenSocketsOnEpoll := fEnable\<rparr>)"
    "\<And>k. k \<in> live th \<Longrightarrow> poll_reg q k = th_reg th k"
proof -
  obtain q where q: "th_spPolling th = Some q" "poll_inv q" "poll_room q + card (dom (poll_reg q)) = nat (th_maxConnections th) + 5"
    and d: "dom (poll_reg q) = {th_pipe0 th} \<union> (if th_fListenSocketsOnEpoll th then listening th else {}) \<union> live th"
    using assms by (auto simp: inv_but_def polled_inv_def th_reg_def)
  have r: "th_reg th = poll_reg q" by (simp add: th_reg_def q(1))
  have L: "set (socks_of (th_socketTable th)) = listening th" by (auto simp: listening_def)
  have ds: "distinct (socks_of (th_socketTable th))" "th_pipe0 th \<notin> listening th" "length (socks_of (th_socketTable th)) \<le> 4"
    using assms length_filter_le [of "\<lambda>s. s \<noteq> -1" "th_socketTable th"] by (simp_all add: inv_but_def setup_inv_def)
  then have cl: "card (listening th) = length (socks_of (th_socketTable th))" "finite (listening th)"
    using distinct_card [OF ds(1)] L by (simp, simp add: listening_def)
  have dj: "({th_pipe0 th} \<union> listening th) \<inter> live th = {}" using assms by (simp add: inv_but_def)
  have fin: "finite (dom (poll_reg q))" by (simp add: poll_reg_def finite_dom_map_of)
  have upd: "thread_inv (th\<lparr>th_spPolling := Some q', th_fListenSocketsOnEpoll := fEnable\<rparr>)"
    if "poll_inv q'" "poll_room q' + card (dom (poll_reg q')) = nat (th_maxConnections th) + 5"
      "dom (poll_reg q') = {th_pipe0 th} \<union> (if fEnable then listening th else {}) \<union> live th"
      "\<And>k. k \<in> live th \<Longrightarrow> poll_reg q' k = poll_reg q k" for q'
  proof -
    let ?th = "th\<lparr>th_spPolling := Some q', th_fListenSocketsOnEpoll := fEnable\<rparr>"
    have e: "live ?th = live th" "listening ?th = listening th" "tables_inv ?th = tables_inv th" "conns_inv ?th = conns_inv th"
      "setup_inv ?th = setup_inv th" "th_reg ?th = poll_reg q'"
      by (simp_all add: live_def listening_def tables_inv_def conns_inv_def setup_inv_def th_reg_def)
    have "polled_inv ?th" unfolding polled_inv_def e using that(1-3) by simp
    moreover have "awaits_inv {} ?th"
      using assms that(4) by (simp add: inv_but_def awaits_inv_def e r live_iff) metis
    ultimately show ?thesis using assms by (simp add: inv_but_def e)
  qed
  show ?thesis
  proof (cases "fEnable = th_fListenSocketsOnEpoll th")
    case True
    then have "th = th\<lparr>th_spPolling := Some q, th_fListenSocketsOnEpoll := fEnable\<rparr>" using q(1) by (cases th) simp
    then show ?thesis using assms True r by (intro that [of q]) (auto simp: Thread_SetListenSocketsOnEpoll_def)
  next
    case ne: False
    show ?thesis
    proof (cases fEnable)
      case True
      have "card (live th) \<le> nat (th_maxConnections th)"
        using assms live_card(2) [OF assms] by (simp add: inv_but_def tables_inv_def)
      moreover have dq: "dom (poll_reg q) = insert (th_pipe0 th) (live th)" using d ne True by simp
      ultimately have "card (dom (poll_reg q)) \<le> Suc (nat (th_maxConnections th))"
        using card_insert_le_m1 [of "Suc (nat (th_maxConnections th))" "live th" "th_pipe0 th"] by simp
      then have room: "length (socks_of (th_socketTable th)) \<le> poll_room q" using q(3) ds(3) by simp
      have none: "poll_reg q s = None" if "s \<in> listening th" for s
      proof -
        have "s \<notin> dom (poll_reg q)" using that ds(2) dj dq by auto
        then show ?thesis by auto
      qed
      obtain q' where q': "Thread_SetListen_loop True (th_socketTable th) S_OK th = (S_OK, th\<lparr>th_spPolling := Some q'\<rparr>)"
        "poll_inv q'" "poll_room q' + length (socks_of (th_socketTable th)) = poll_room q"
        "poll_reg q' = (\<lambda>k. if k \<in> listening th then Some (native_events EPOLL_LISTEN_SOCKET_EVENT_SET) else poll_reg q k)"
        using listen_add [OF q(1,2) ds(1) _ room] none unfolding L by blast
      have dd: "dom (poll_reg q') = dom (poll_reg q) \<union> listening th" by (auto simp: q'(4) split: if_splits)
      moreover have "dom (poll_reg q) \<inter> listening th = {}" using none by auto
      ultimately have "card (dom (poll_reg q')) = card (dom (poll_reg q)) + card (listening th)"
        using fin cl(2) by (simp add: card_Un_disjoint)
      then have c: "poll_room q' + card (dom (poll_reg q')) = nat (th_maxConnections th) + 5" using q(3) q'(3) cl(1) by simp
      have s: "poll_reg q' k = poll_reg q k" if "k \<in> live th" for k using that dj by (auto simp: q'(4))
      have "thread_inv (th\<lparr>th_spPolling := Some q', th_fListenSocketsOnEpoll := fEnable\<rparr>)"
        by (rule upd [OF q'(2) c _ s]) (use dd dq True in auto)
      moreover have "Thread_SetListenSocketsOnEpoll fEnable th =
          (S_OK, th\<lparr>th_spPolling := Some q', th_fListenSocketsOnEpoll := fEnable\<rparr>)"
        using q'(1) True ne by (simp add: Thread_SetListenSocketsOnEpoll_def)
      ultimately show ?thesis using that s r by simp
    next
      case False
      have dq: "dom (poll_reg q) = {th_pipe0 th} \<union> listening th \<union> live th" using d ne False by simp
      have known: "poll_reg q s \<noteq> None" if "s \<in> listening th" for s
      proof -
        have "s \<in> dom (poll_reg q)" using that dq by simp
        then show ?thesis by auto
      qed
      obtain q' where q': "Thread_SetListen_loop False (th_socketTable th) S_OK th = (S_OK, th\<lparr>th_spPolling := Some q'\<rparr>)"
        "poll_inv q'" "poll_room q' = poll_room q + length (socks_of (th_socketTable th))"
        "poll_reg q' = (\<lambda>k. if k \<in> listening th then None else poll_reg q k)"
        using listen_remove [OF q(1,2) ds(1)] known unfolding L by blast
      have dd: "dom (poll_reg q') = dom (poll_reg q) - listening th" by (auto simp: q'(4) split: if_splits)
      moreover have "listening th \<subseteq> dom (poll_reg q)" using dq by auto
      ultimately have "card (dom (poll_reg q')) + card (listening th) = card (dom (poll_reg q))"
        using fin cl(2) card_mono [of "dom (poll_reg q)" "listening th"] by (simp add: card_Diff_subset)
      then have c: "poll_room q' + card (dom (poll_reg q')) = nat (th_maxConnections th) + 5" using q(3) q'(3) cl(1) by simp
      have s: "poll_reg q' k = poll_reg q k" if "k \<in> live th" for k using that dj by (auto simp: q'(4))
      have "thread_inv (th\<lparr>th_spPolling := Some q', th_fListenSocketsOnEpoll := fEnable\<rparr>)"
        by (rule upd [OF q'(2) c _ s]) (use dd dq False ds(2) dj in auto)
      moreover have "Thread_SetListenSocketsOnEpoll fEnable th =
          (S_OK, th\<lparr>th_spPolling := Some q', th_fListenSocketsOnEpoll := fEnable\<rparr>)"
        using q'(1) False ne by (simp add: Thread_SetListenSocketsOnEpoll_def)
      ultimately show ?thesis using that s r by simp
    qed
  qed
qed

section \<open>Accepting a connection\<close>

lemma insert_conn:
  assumes "thread_inv th" "k \<notin> live th" "k \<notin> {th_pipe0 th} \<union> listening th"
    "fh_Size (th_table True th) + fh_Size (th_table False th) < nat (th_maxConnections th)"
    "pool_inv P" "pool_used P = insert a (pool_used (th_connectionpool th))" "a \<notin> pool_used (th_connectionpool th)"
    "\<And>a'. a' \<in> pool_used (th_connectionpool th) \<Longrightarrow> conn_at P a' = th_conn th a'"
    "conn_static b k (conn_at P a)" "conn_phase (conn_at P a)" "poll_inv q"
    "poll_room q + card (dom (poll_reg q)) = nat (th_maxConnections th) + 5"
    "poll_reg q = (th_reg th)(k \<mapsto> native_events (conn_events (conn_at P a)))"
  defines "th' \<equiv> (th_set_table b (snd (fh_Insert FastHash_Hash_int k a (th_table b th))) th)\<lparr>th_spPolling := Some q,
      th_connectionpool := P\<rparr>"
  shows "thread_inv th'" "th_map d th' = (if d = b then (th_map b th)(k \<mapsto> a) else th_map d th)"
    "fst (fh_Insert FastHash_Hash_int k a (th_table b th)) \<noteq> -1"
proof -
  have I: "tables_inv th" "polled_inv th" "conns_inv th" "awaits_inv {} th" "setup_inv th"
    "({th_pipe0 th} \<union> listening th) \<inter> live th = {}" using assms(1) by (simp_all add: inv_but_def)
  have T: "cmap_inv (th_table c th)" "fh_fsize (th_table c th) = nat (th_maxConnections th)" for c
    using I(1) by (simp_all add: tables_inv_def)
  have none: "th_map c th k = None" for c using assms(2) by (cases "th_map c th k") (auto simp: live_iff)
  have less: "fh_Size (th_table b th) < fh_fsize (th_table b th)" using assms(4) T(2) by (cases b) simp_all
  note n = cm.insert_new [OF T(1) none less, of a]
  note sz = cm.size_insert [OF T(1) none less, of a]
  show "fst (fh_Insert FastHash_Hash_int k a (th_table b th)) \<noteq> -1" using n by simp
  have m: "th_map c th' = (if c = b then (th_map b th)(k \<mapsto> a) else th_map c th)" for c using n by (simp add: th'_def)
  then show "th_map d th' = (if d = b then (th_map b th)(k \<mapsto> a) else th_map d th)" .
  have l: "live th' = insert k (live th)" by (cases b) (auto simp: live_def m)
  have same: "th_maxConnections th' = th_maxConnections th" "th_pipe0 th' = th_pipe0 th" "listening th' = listening th"
    "th_fListenSocketsOnEpoll th' = th_fListenSocketsOnEpoll th" "setup_inv th' = setup_inv th" "th_connectionpool th' = P"
    "th_spPolling th' = Some q" "th_reg th' = poll_reg q"
    by (simp_all add: th'_def th_reg_def)
  have "cmap_inv (th_table c th') \<and> fh_fsize (th_table c th') = nat (th_maxConnections th)" for c
    using n T [of c] T [of b] by (auto simp: th'_def)
  moreover have "dom (th_map True th') \<inter> dom (th_map False th') = {}"
    using I(1) none by (cases b) (auto simp: m tables_inv_def)
  moreover have "fh_Size (th_table True th') + fh_Size (th_table False th') \<le> nat (th_maxConnections th)"
    using sz assms(4) by (cases b) (simp_all add: th'_def)
  ultimately have "tables_inv th'" using I(1) by (simp add: tables_inv_def same)
  moreover have "dom (th_reg th) = {th_pipe0 th} \<union> (if th_fListenSocketsOnEpoll th then listening th else {}) \<union> live th"
    using I(2) by (simp add: polled_inv_def)
  then have "polled_inv th'" using assms(11,12) by (auto simp: polled_inv_def same l assms(13) split: if_splits)
  moreover have c: "conns_inv th'"
  proof -
    have U: "pool_used (th_connectionpool th) = ran (th_map True th) \<union> ran (th_map False th)"
      using I(3) by (simp add: conns_inv_def)
    have "ran (th_map True th') \<union> ran (th_map False th') = insert a (ran (th_map True th) \<union> ran (th_map False th))"
      using none by (cases b) (simp_all add: m ran_map_upd)
    moreover have "conn_static c k' (conn_at P p)" if "th_map c th' k' = Some p" for c k' p
    proof (cases "c = b \<and> k' = k")
      case True
      then show ?thesis using that assms(9) by (simp add: m)
    next
      case False
      then have t: "th_map c th k' = Some p" using that by (auto simp: m split: if_splits)
      then show ?thesis using I(3) assms(8) [OF conn_facts(1) [OF assms(1) t]] by (simp add: conns_inv_def)
    qed
    ultimately show ?thesis using assms(5,6) U by (simp add: conns_inv_def same)
  qed
  moreover have "awaits_inv {} th'" unfolding awaits_inv_def
  proof (intro allI impI)
    fix c k' p assume t: "th_map c th' k' = Some p"
    show "conn_phase (th_conn th' p) \<and> th_reg th' k' = Some (native_events (conn_events (th_conn th' p)))"
    proof (cases "c = b \<and> k' = k")
      case True
      then show ?thesis using t assms(10) by (simp add: m same assms(13))
    next
      case False
      then have o: "th_map c th k' = Some p" "k' \<noteq> k" using t none by (auto simp: m split: if_splits)
      then show ?thesis
        using conn_awaits [OF assms(1) o(1)] assms(8) [OF conn_facts(1) [OF assms(1) o(1)]] by (simp add: same assms(13))
    qed
  qed
  moreover have "({th_pipe0 th'} \<union> listening th') \<inter> live th' = {}" using I(6) assms(3) by (simp add: same l)
  ultimately show "thread_inv th'" using I(5) by (simp add: inv_but_def same)
qed

text \<open>The system hands out a descriptor that is not in use.\<close>

definition accept_fresh :: "CTCPStunThread \<Rightarrow> tcp_env \<Rightarrow> bool" where
  "accept_fresh th env \<longleftrightarrow> os_wf (ev_os env) \<and>
     (fst (ev_accept env) \<noteq> -1 \<longrightarrow> fst (ev_accept env) \<notin> {th_pipe0 th, th_pipe1 th} \<union> listening th \<union> live th)"

text \<open>A connection that is refused leaves everything as it was, and its socket closed.\<close>

definition refused :: "int list \<Rightarrow> CTCPStunThread \<Rightarrow> CTCPStunThread \<Rightarrow> bool" where
  "refused ks th th' \<longleftrightarrow> setup_of (th'\<lparr>th_accepted := th_accepted th\<rparr>) = setup_of th \<and> (\<forall>b. th_map b th' = th_map b th) \<and>
     (\<forall>b k p. th_map b th k = Some p \<longrightarrow> th_conn th' p = th_conn th p) \<and>
     th_accepted th' = th_accepted th @ ks \<and> th_closed th' = th_closed th @ ks"

definition admitted :: "int \<Rightarrow> int \<Rightarrow> nat \<Rightarrow> CTCPStunThread \<Rightarrow> CTCPStunThread \<Rightarrow> bool" where
  "admitted k t p th th' \<longleftrightarrow> setup_of (th'\<lparr>th_accepted := th_accepted th\<rparr>) = setup_of th \<and> k \<noteq> -1 \<and>
     (\<forall>b. th_map b th' = (if b = th_fNewIs1 th then (th_map b th)(k \<mapsto> p) else th_map b th)) \<and>
     (\<forall>b k p. th_map b th k = Some p \<longrightarrow> th_conn th' p = th_conn th p) \<and>
     sc_state (th_conn th' p) = ConnectionState_Receiving \<and> sc_timeStart (th_conn th' p) = t \<and>
     th_accepted th' = th_accepted th @ [k] \<and> th_closed th' = th_closed th"

lemma CloseConnection_null [simp]: "Thread_CloseConnection None th = th"
  by (simp add: Thread_CloseConnection_def)

lemma pool_swap:
  assumes "inv_but E th" "pool_inv P" "pool_used P = pool_used (th_connectionpool th)"
    "\<And>a. a \<in> pool_used (th_connectionpool th) \<Longrightarrow> conn_at P a = th_conn th a"
  shows "inv_but E (th\<lparr>th_connectionpool := P\<rparr>) \<and> (\<forall>b k p. th_map b th k = Some p \<longrightarrow> conn_at P p = th_conn th p)"
proof -
  have s: "conn_at P p = th_conn th p" if "th_map b th k = Some p" for b k p
    by (rule assms(4) [OF conn_facts(1) [OF assms(1) that]])
  then have "conns_inv (th\<lparr>th_connectionpool := P\<rparr>)" using assms(1-3) by (simp add: inv_but_def conns_inv_def)
  moreover have "awaits_inv E (th\<lparr>th_connectionpool := P\<rparr>)" using assms(1) s by (simp add: inv_but_def awaits_inv_def)
  ultimately show ?thesis using assms(1) s by (simp add: inv_but_def)
qed

text \<open>A new connection that cannot be made non-blocking goes back to the pool.\<close>

lemma close_new:
  assumes "thread_inv th" "k \<notin> live th" "k \<notin> {th_pipe0 th} \<union> listening th" "k \<noteq> -1" "os_wf os"
    "Pool_GetConnection os t k role (th_connectionpool th) = (Some a, [], P)"
    "conn_fresh (os, t, k, role) (conn_at P a)"
  obtains P' where "Thread_CloseConnection (Some a) (th\<lparr>th_connectionpool := P\<rparr>) =
      th\<lparr>th_connectionpool := P', th_closed := th_closed th @ [k]\<rparr>" "pool_inv P'"
    "pool_used P' = pool_used (th_connectionpool th)" "\<And>a. a \<in> pool_used (th_connectionpool th) \<Longrightarrow> conn_at P' a = th_conn th a"
proof -
  obtain q where q: "th_spPolling th = Some q" "poll_inv q"
    and d: "dom (poll_reg q) = {th_pipe0 th} \<union> (if th_fListenSocketsOnEpoll th then listening th else {}) \<union> live th"
    using assms(1) by (auto simp: inv_but_def polled_inv_def th_reg_def)
  have "k \<notin> dom (poll_reg q)" using assms(2,3) d by (simp split: if_splits)
  then have "poll_reg q k = None" by auto
  note r = poll.remove_unknown [OF q(2) this]
  let ?c = "conn_at P a"
  let ?s = "StunSocket_Reset ((sc_stunsocket ?c)\<lparr>ss_sock := -1\<rparr>)"
  have c: "conn_good ?c" "ss_sock (sc_stunsocket ?c) = k" "sc_idHashTable ?c = -1" using assms(7) by simp_all
  have cl: "StunSocket_Close (sc_stunsocket ?c) = ([k], ?s)" using c(2) assms(4) by (simp add: StunSocket_Close_def)
  let ?c' = "?c\<lparr>sc_stunsocket := ?s\<rparr>"
  have g: "conn_good ?c'" "conn_idle ?c'" using c(1) by (simp_all add: conn_good_def conn_idle_def StunSocket_Reset_def)
  have "th\<lparr>th_spPolling := Some q, th_connectionpool := P\<rparr> = th\<lparr>th_connectionpool := P\<rparr>" using q(1) by (cases th) simp
  then have eq: "Thread_CloseConnection (Some a) (th\<lparr>th_connectionpool := P\<rparr>) =
      th\<lparr>th_connectionpool := Pool_ReleaseConnection a (pool_put a ?c' P), th_closed := th_closed th @ [k]\<rparr>"
    using c cl q(1) r by (simp add: Thread_CloseConnection_def StunSocket_GetSocketHandle_def th_poll_def Let_def)
  have pi: "pool_inv (th_connectionpool th)" using assms(1) by (simp add: inv_but_def conns_inv_def)
  have pg: "fst (pool_get (os, t, k, role) (th_connectionpool th)) = Some a" "snd (pool_get (os, t, k, role) (th_connectionpool th)) = P"
    using assms(6) by simp_all
  have ok: "accepted_ok (os, t, k, role)" using assms(4,5) by simp
  note rg = cp.release_get [OF pi ok pg(1) g, unfolded pg(2)]
  show ?thesis by (rule that [OF eq]) (use rg in blast)+
qed

lemma Accept_ok:
  assumes "thread_inv th" "accept_fresh th env" "i < 4" "th_socketTable th ! i \<noteq> -1"
    "fh_Size (th_table True th) + fh_Size (th_table False th) < nat (th_maxConnections th)"
    "Thread_AcceptConnection env i th = (r, th')"
  shows "thread_inv th' \<and> (case r of None \<Rightarrow> refused (filter (\<lambda>k. k \<noteq> -1) [fst (ev_accept env)]) th th'
    | Some p \<Rightarrow> admitted (fst (ev_accept env)) (ev_timeStart env) p th th')"
proof -
  obtain k addr where acc: "ev_accept env = (k, addr)" by (metis surj_pair)
  let ?role = "ss_role (th_socketListenArray th ! i)"
  have role: "IsValidSocketRole ?role" using assms(1,3,4) by (simp add: inv_but_def setup_inv_def)
  show ?thesis
  proof (cases "k = -1")
    case True
    then show ?thesis using assms(1,6) acc by (auto simp: Thread_AcceptConnection_def refused_def)
  next
    case False
    then have fr: "os_wf (ev_os env)" "k \<notin> live th" "k \<notin> {th_pipe0 th} \<union> listening th"
      using assms(2) acc by (simp_all add: accept_fresh_def)
    define th1 where "th1 = th\<lparr>th_accepted := th_accepted th @ [k]\<rparr>"
    obtain ok th2 where rc: "Thread_RateCheck (ev_timeAccept env) (CSocketAddress_CommonConstructor addr) th1 = (ok, th2)"
      by (metis surj_pair)
    obtain x where th2: "th2 = th1\<lparr>th_spLimiter := x\<rparr>"
      by (rule RateCheck_frame [of "ev_timeAccept env" "CSocketAddress_CommonConstructor addr" th1]) (use rc in simp)
    have i2: "thread_inv th2" using assms(1) by (simp add: th1_def th2)
    have e2: "th_table c th2 = th_table c th" "th_connectionpool th2 = th_connectionpool th" "th_pipe0 th2 = th_pipe0 th"
      "listening th2 = listening th" "live th2 = live th" "th_maxConnections th2 = th_maxConnections th"
      "th_closed th2 = th_closed th" "th_accepted th2 = th_accepted th @ [k]" "th_fNewIs1 th2 = th_fNewIs1 th"
      "setup_of (th2\<lparr>th_accepted := th_accepted th\<rparr>) = setup_of th" for c
      by (simp_all add: th1_def th2 live_def listening_def setup_of_def)
    show ?thesis
    proof (cases ok)
      case no: False
      then have "r = None" "th' = th_log_closed [k] th2"
        using assms(6) acc False rc by (simp_all add: Thread_AcceptConnection_def Let_def th1_def)
      then show ?thesis using i2 e2 by (simp add: acc False refused_def) (simp add: setup_of_def)
    next
      case True
      have pi: "pool_inv (th_connectionpool th2)" using i2 by (simp add: inv_but_def conns_inv_def)
      obtain a P where g: "Pool_GetConnection (ev_os env) (ev_timeStart env) k ?role (th_connectionpool th2) = (Some a, [], P)"
        "a \<notin> pool_used (th_connectionpool th2)" "pool_inv P" "pool_used P = insert a (pool_used (th_connectionpool th2))"
        "conn_fresh (ev_os env, ev_timeStart env, k, ?role) (conn_at P a)"
        "\<And>b. b \<in> pool_used (th_connectionpool th2) \<Longrightarrow> conn_at P b = conn_at (th_connectionpool th2) b"
        by (rule Pool_GetConnection_inv [OF pi False fr(1)]) blast
      let ?th3 = "th2\<lparr>th_connectionpool := P\<rparr>"
      have lc: "th_log_closed [] ?th3 = ?th3" by simp
      show ?thesis
      proof (cases "FAILED (StunSocket_SetNonBlocking (ev_os env) True)")
        case nb: True
        then have "r = None" "th' = Thread_CloseConnection (Some a) ?th3"
          using assms(6) acc False rc True g(1) e2(2)
          by (simp_all add: Thread_AcceptConnection_def Let_def th1_def StunSocket_GetRole_def)
        moreover obtain P' where p: "Thread_CloseConnection (Some a) ?th3 = th2\<lparr>th_connectionpool := P', th_closed := th_closed th2 @ [k]\<rparr>"
          "pool_inv P'" "pool_used P' = pool_used (th_connectionpool th2)"
          "\<And>a. a \<in> pool_used (th_connectionpool th2) \<Longrightarrow> conn_at P' a = th_conn th2 a"
          by (rule close_new [OF i2 _ _ False fr(1) g(1,5)]) (use fr(2,3) e2 in simp_all)
        note ps = pool_swap [OF i2 p(2-4)]
        ultimately show ?thesis using ps e2 by (simp add: acc False refused_def p(1)) (simp add: setup_of_def)
      next
        case nb: False
        have po: "polled_inv th2" using i2 by (simp add: inv_but_def)
        then obtain q where q: "th_spPolling th2 = Some q" "poll_inv q"
          "poll_room q + card (dom (poll_reg q)) = nat (th_maxConnections th) + 5"
          unfolding polled_inv_def e2 by blast
        have r2: "th_reg th2 = poll_reg q" by (simp add: th_reg_def q(1))
        have d: "dom (poll_reg q) = {th_pipe0 th} \<union> (if th_fListenSocketsOnEpoll th2 then listening th else {}) \<union> live th"
          using po unfolding polled_inv_def r2 e2 by blast
        have "k \<notin> dom (poll_reg q)" using fr(2,3) d by (simp split: if_splits)
        then have new: "poll_reg q k = None" by auto
        have room: "0 < poll_room q"
        proof -
          have "listening th = set (socks_of (th_socketTable th))" by (auto simp: listening_def)
          then have "card (listening th) \<le> length (socks_of (th_socketTable th))" by (simp only: card_length)
          also have "\<dots> \<le> 4" using assms(1) length_filter_le [of "\<lambda>s. s \<noteq> -1" "th_socketTable th"]
            by (simp add: inv_but_def setup_inv_def)
          finally have L: "card (listening th) \<le> 4" .
          have "card (dom (poll_reg q)) \<le> card ({th_pipe0 th} \<union> listening th \<union> live th)"
            using live_card(1) [OF assms(1)] by (intro card_mono) (auto simp: d listening_def split: if_splits)
          also have "\<dots> \<le> card {th_pipe0 th} + card (listening th) + card (live th)"
            using card_Un_le [of "{th_pipe0 th} \<union> listening th" "live th"] card_Un_le [of "{th_pipe0 th}" "listening th"] by linarith
          also have "\<dots> < nat (th_maxConnections th) + 5" using L assms(5) live_card(2) [OF assms(1)] by simp
          finally show ?thesis using q(3) by simp
        qed
        obtain q' where q': "CPoll_Add k EPOLL_CLIENT_READ_EVENT_SET q = (S_OK, q')" "poll_inv q'" "poll_room q' = poll_room q - 1"
          "poll_reg q' = (poll_reg q)(k \<mapsto> native_events EPOLL_CLIENT_READ_EVENT_SET)"
          using poll.add_new [OF q(2) new room, of EPOLL_CLIENT_READ_EVENT_SET]
          by (cases "CPoll_Add k EPOLL_CLIENT_READ_EVENT_SET q") simp
        have fin: "finite (dom (poll_reg q))" by (simp add: poll_reg_def finite_dom_map_of)
        have room': "poll_room q' + card (dom (poll_reg q')) = nat (th_maxConnections th2) + 5"
          using q'(3,4) q(3) room new fin e2(6) by (simp add: card_insert_if domIff)
        let ?b = "th_fNewIs1 th" and ?c = "(conn_at P a)\<lparr>sc_idHashTable := (if th_fNewIs1 th then 1 else 2)\<rparr>"
        let ?P = "pool_put a ?c P"
        have gc: "conn_good ?c" "conn_static ?b k ?c" "conn_phase ?c"
          "conn_events ?c = EPOLL_CLIENT_READ_EVENT_SET" "sc_timeStart ?c = ev_timeStart env" "sc_state ?c = ConnectionState_Receiving"
          using g(5) False role
          by (auto simp: conn_good_def conn_static_def conn_phase_def conn_events_def verdict_def STUN_HEADER_SIZE_def intro!: exI [of _ "[]"])
        have "a \<in> pool_used P" using g(4) by simp
        note pp = pool_put_inv [OF g(3) this gc(1)]
        note ins = insert_conn [where b = ?b and P = ?P and a = a and q = q' and k = k, OF i2]
        define th5 where "th5 = (th_set_table ?b (snd (fh_Insert FastHash_Hash_int k a (th_table ?b th2))) th2)
            \<lparr>th_spPolling := Some q', th_connectionpool := ?P\<rparr>"
        have I5: "thread_inv th5" "th_map d th5 = (if d = ?b then (th_map ?b th2)(k \<mapsto> a) else th_map d th2)"
          "fst (fh_Insert FastHash_Hash_int k a (th_table ?b th2)) \<noteq> -1" for d
          unfolding th5_def using fr(2,3) assms(5) pp g(2,4,6) gc(2-4) q'(2,4) room' r2
          by (intro ins; auto simp: e2)+
        have res: "r = Some a" "th' = th5"
          using assms(6) acc False rc True g(1) e2(2,9) nb q(1) q'(1) I5(3)
          by (auto simp: Thread_AcceptConnection_def Let_def th1_def StunSocket_GetRole_def th_poll_def th5_def case_prod_beta
              th_set_table_def)
        have other: "th_conn th5 p = th_conn th p" if "th_map b th k' = Some p" for b k' p
        proof -
          have "p \<in> pool_used (th_connectionpool th2)" using conn_facts(1) [OF i2, of b k' p] that e2(1) by simp
          then show ?thesis using g(2,6) e2(2) by (auto simp: th5_def)
        qed
        have m5: "th_map d th5 = (if d = th_fNewIs1 th then (th_map d th)(k \<mapsto> a) else th_map d th)" for d
          using I5(2) [of d] by (simp add: e2)
        have s5: "setup_of (th5\<lparr>th_accepted := th_accepted th\<rparr>) = setup_of th" "th_accepted th5 = th_accepted th @ [k]"
          "th_closed th5 = th_closed th" "th_conn th5 a = ?c"
          using e2 by (simp_all add: th5_def setup_of_def)
        show ?thesis using I5(1) False m5 other s5 gc(5,6) by (simp add: res admitted_def acc)
      qed
    qed
  qed
qed

end
