(* ===== verification/TcpTheorems.thy ===== *)
theory TcpTheorems
  imports TcpRun
begin

text \<open>
  Properties of a thread of the TCP server over whole runs: from a successful \<^verbatim>\<open>Init\<close> on, for every
  sequence of events and answers of the system.
\<close>

section \<open>Waiting\<close>

lemma FindNextEvent_fd:
  assumes "CPoll_FindNextEvent ev p = (True, e, q)"
  shows "pe_fd e \<in> pf_fd ` set (cp_fds p)"
proof -
  define r where "r = cp_rotation (if unat (cp_rotation p) \<ge> length (cp_fds p) then p\<lparr>cp_rotation := 0\<rparr> else p)"
  let ?js = "map (\<lambda>i. (i + unat r) mod length (cp_fds p)) [0..<length (cp_fds p)]"
  from assms obtain i where i: "find (\<lambda>i. pf_revents (cp_fds p ! i) \<noteq> 0) ?js = Some i" "pe_fd e = pf_fd (cp_fds p ! i)"
    by (auto simp: CPoll_FindNextEvent_def Let_def r_def split: if_splits option.splits)
  then have "i \<in> set ?js" by (metis find_Some_iff nth_mem)
  then have "i < length (cp_fds p)" by (auto intro!: mod_less_divisor)
  then show ?thesis using i(2) by simp
qed

lemma wait_ok:
  assumes "poll_inv p" "\<not> SUCCEEDED er" "CPoll_WaitForNextEvent (poll_os ret revents) er ev t p = (hr, e, q)"
  shows "poll_inv q" "poll_room q = poll_room p" "poll_reg q = poll_reg p" "hr = S_OK \<Longrightarrow> pe_fd e \<in> dom (poll_reg p)"
proof -
  note w = CPoll_WaitForNextEvent_entries [of ret revents er ev t p, unfolded assms(3) snd_conv]
  note s = poll_same [OF conjunct1 [OF w] conjunct1 [OF conjunct2 [OF w]] conjunct2 [OF conjunct2 [OF w]]]
  show "poll_inv q" "poll_room q = poll_room p" "poll_reg q = poll_reg p" using s assms(1) by simp_all
  assume hr: "hr = S_OK"
  have d: "dom (poll_reg p) = pf_fd ` set (cp_fds p)" by (auto simp: poll_reg_def dom_map_of_conv_image_fst image_image)
  obtain f1 e1 p1 where f1: "CPoll_FindNextEvent (ev\<lparr>pe_eventflags := 0\<rparr>) p = (f1, e1, p1)" by (metis prod_cases3)
  have m1: "pf_fd ` set (cp_fds p1) = pf_fd ` set (cp_fds p)"
    using arg_cong [OF conjunct1 [OF CPoll_FindNextEvent_entries [of "ev\<lparr>pe_eventflags := 0\<rparr>" p]], of "\<lambda>xs. fst ` set xs"]
    by (simp add: f1 image_image)
  let ?p2 = "p1\<lparr>cp_fds := map (\<lambda>x. x\<lparr>pf_revents := revents x\<rparr>) (cp_fds p1), cp_unreadcount := word_of_int ret\<rparr>"
  obtain f2 e2 p3 where f2: "CPoll_FindNextEvent e1 ?p2 = (f2, e2, p3)"
    by (rule prod_cases3 [of "CPoll_FindNextEvent e1 ?p2"]) (rule that, assumption)
  have m2: "pf_fd ` set (cp_fds ?p2) = pf_fd ` set (cp_fds p1)" by (simp add: image_image)
  have "er \<noteq> S_OK" "E_FAIL \<noteq> S_OK" "S_FALSE \<noteq> S_OK" using assms(2) by (auto simp: S_FALSE_def S_OK_def E_FAIL_def SUCCEEDED_def)
  then have "f1 \<and> e = e1 \<or> f2 \<and> e = e2"
    using assms(3) hr f2 by (cases f1; cases f2) (simp_all add: CPoll_WaitForNextEvent_def Let_def poll_os_def f1 split: if_split_asm)
  then show "pe_fd e \<in> dom (poll_reg p)"
    using FindNextEvent_fd [of "ev\<lparr>pe_eventflags := 0\<rparr>" p e1 p1] FindNextEvent_fd [of e1 ?p2 e2 p3] f1 f2 m1 m2 d by auto
qed

section \<open>What a turn leads to\<close>

text \<open>The accepted descriptors are accounted for: closed, or the socket of a connection.\<close>

definition balanced :: "CTCPStunThread \<Rightarrow> CTCPStunThread \<Rightarrow> bool" where
  "balanced th th' \<longleftrightarrow> (\<exists>acc. th_accepted th' = th_accepted th @ acc \<and>
     mset (th_closed th') + mset_set (live th') = mset (th_closed th) + mset_set (live th) + mset acc)"

text \<open>
  The connections of the new table were accepted after the last sweep, those of the old one before.
\<close>

definition ages_inv :: "int \<Rightarrow> CTCPStunThread \<Rightarrow> bool" where
  "ages_inv now th \<longleftrightarrow> th_timeLastSweep th \<le> now \<and>
     (\<forall>k p. th_map (th_fNewIs1 th) th k = Some p \<longrightarrow> th_timeLastSweep th \<le> sc_timeStart (th_conn th p) \<and>
       sc_timeStart (th_conn th p) \<le> now) \<and>
     (\<forall>k p. th_map (\<not> th_fNewIs1 th) th k = Some p \<longrightarrow> sc_timeStart (th_conn th p) \<le> th_timeLastSweep th)"

lemma balanced_trans: "balanced th th' \<Longrightarrow> balanced th' th'' \<Longrightarrow> balanced th th''"
  by (auto simp: balanced_def)

lemma balanced_same:
  "th_accepted th' = th_accepted th \<Longrightarrow> th_closed th' = th_closed th \<Longrightarrow> live th' = live th \<Longrightarrow> balanced th th'"
  by (simp add: balanced_def)

lemma effect_live:
  assumes "conn_effect k th th'" "k \<in> live th"
  shows "live th' = live th \<and> th_closed th' = th_closed th \<or> live th' = live th - {k} \<and> th_closed th' = th_closed th @ [k]"
proof -
  have o: "\<And>k'. k' \<noteq> k \<Longrightarrow> k' \<in> live th' \<longleftrightarrow> k' \<in> live th"
    using assms(1) by (simp add: conn_effect_def only_conn_def live_iff)
  have "kept k th th' \<or> gone k th th'" using assms(1) by (simp add: conn_effect_def)
  then show ?thesis
  proof
    assume kp: "kept k th th'"
    then have "k \<in> live th' \<longleftrightarrow> k \<in> live th" by (simp add: kept_def live_iff)
    then have "k' \<in> live th' \<longleftrightarrow> k' \<in> live th" for k' using o [of k'] by (cases "k' = k") simp_all
    then have "live th' = live th" by blast
    then show ?thesis using kp by (simp add: kept_def)
  next
    assume g: "gone k th th'"
    then have "k \<notin> live th'" by (simp add: gone_def live_iff)
    then have "k' \<in> live th' \<longleftrightarrow> k' \<in> live th - {k}" for k' using o [of k'] by (cases "k' = k") simp_all
    then have "live th' = live th - {k}" by blast
    then show ?thesis using g by (simp add: gone_def)
  qed
qed

lemma effect_balanced:
  assumes "thread_inv th" "conn_effect k th th'" "k \<in> live th"
  shows "balanced th th'"
proof -
  have a: "th_accepted th' = th_accepted th"
    using assms(2) setup_ofD(12) [of th' th] by (simp add: conn_effect_def only_conn_def)
  have ms: "mset_set (live th) = add_mset k (mset_set (live th - {k}))"
    using mset_set.remove [OF live_card(1) [OF assms(1)] assms(3)] .
  from effect_live [OF assms(2,3)] show ?thesis
    by (rule disjE) (simp_all add: balanced_def a ms)
qed

lemma effect_ages:
  assumes "conn_effect k th th'" "ages_inv now th"
  shows "ages_inv now th'"
proof -
  have o: "only_conn k th th'" and kg: "kept k th th' \<or> gone k th th'" using assms(1) by (simp_all add: conn_effect_def)
  then have s: "th_timeLastSweep th' = th_timeLastSweep th" "th_fNewIs1 th' = th_fNewIs1 th"
    using setup_ofD [of th' th] by (simp_all add: only_conn_def)
  have "th_map b th k' = Some p \<and> sc_timeStart (th_conn th' p) = sc_timeStart (th_conn th p)"
    if "th_map b th' k' = Some p" for b k' p
  proof (cases "k' = k")
    case True
    then show ?thesis using that kg by (auto simp: kept_def gone_def)
  next
    case False
    then show ?thesis using that o by (simp add: only_conn_def)
  qed
  then show ?thesis using assms(2) unfolding ages_inv_def s by metis
qed

lemma accepted_setup:
  assumes "setup_of (th'\<lparr>th_accepted := th_accepted th\<rparr>) = setup_of th"
  shows "th_timeLastSweep th' = th_timeLastSweep th" "th_fNewIs1 th' = th_fNewIs1 th"
  using setup_ofD(9,11) [OF assms] by simp_all

lemma refused_effects:
  assumes "refused ks th th'"
  shows "balanced th th'" "ages_inv now th \<Longrightarrow> ages_inv now th'"
proof -
  have l: "live th' = live th" using assms by (simp add: refused_def live_def)
  then show "balanced th th'" using assms by (simp add: balanced_def refused_def)
  have "setup_of (th'\<lparr>th_accepted := th_accepted th\<rparr>) = setup_of th" using assms by (simp only: refused_def)
  note s = accepted_setup [OF this]
  assume "ages_inv now th"
  then show "ages_inv now th'" using assms s by (simp add: ages_inv_def refused_def)
qed

lemma admitted_effects:
  assumes "thread_inv th" "admitted k t p th th'" "k \<notin> live th"
  shows "balanced th th'" "ages_inv now th \<Longrightarrow> now \<le> t \<Longrightarrow> ages_inv t th'" "th_map (th_fNewIs1 th) th' k = Some p"
proof -
  have m: "th_map b th' = (if b = th_fNewIs1 th then (th_map b th)(k \<mapsto> p) else th_map b th)" for b
    using assms(2) by (simp add: admitted_def)
  show "th_map (th_fNewIs1 th) th' k = Some p" by (simp add: m)
  have l: "live th' = insert k (live th)" by (cases "th_fNewIs1 th") (auto simp: live_def m)
  then have "mset_set (live th') = add_mset k (mset_set (live th))" using live_card(1) [OF assms(1)] assms(3) by simp
  then show "balanced th th'" using assms(2) by (simp add: balanced_def admitted_def)
  have "setup_of (th'\<lparr>th_accepted := th_accepted th\<rparr>) = setup_of th" using assms(2) by (simp only: admitted_def)
  note s = accepted_setup [OF this]
  have o: "th_conn th' p' = th_conn th p'" if "th_map b th k' = Some p'" for b k' p'
    using assms(2) that by (simp add: admitted_def)
  have tp: "sc_timeStart (th_conn th' p) = t" using assms(2) by (simp add: admitted_def)
  assume a: "ages_inv now th" "now \<le> t"
  show "ages_inv t th'" unfolding ages_inv_def s
  proof (intro conjI allI impI)
    show "th_timeLastSweep th \<le> t" using a by (simp add: ages_inv_def)
    fix k' p'
    show "sc_timeStart (th_conn th' p') \<le> th_timeLastSweep th" if "th_map (\<not> th_fNewIs1 th) th' k' = Some p'"
      using that a o [of "\<not> th_fNewIs1 th" k' p'] by (simp add: m ages_inv_def)
    assume n: "th_map (th_fNewIs1 th) th' k' = Some p'"
    show "th_timeLastSweep th \<le> sc_timeStart (th_conn th' p')"
      using n a tp o [of "th_fNewIs1 th" k' p'] by (force simp: m ages_inv_def split: if_splits)
    show "sc_timeStart (th_conn th' p') \<le> t"
      using n a tp o [of "th_fNewIs1 th" k' p'] by (force simp: m ages_inv_def split: if_splits)
  qed
qed

lemma ages_later: "ages_inv now th \<Longrightarrow> now \<le> later \<Longrightarrow> ages_inv later th"
  by (force simp: ages_inv_def)

lemma sweep_ok:
  fixes t t' :: int
  assumes "thread_inv th"
  defines "th' \<equiv> Thread_SweepDeadConnections t t' th"
  shows "thread_inv th'" "balanced th th'" "ages_inv now th \<Longrightarrow> now \<le> t' \<Longrightarrow> ages_inv t' th'"
    "ages_inv now th \<Longrightarrow> th_map b th k = Some p \<Longrightarrow> k \<notin> live th' \<Longrightarrow> c_sweepTimeoutSeconds \<le> t - sc_timeStart (th_conn th p)"
    "ages_inv now th \<Longrightarrow> c_sweepTimeoutSeconds \<le> t - th_timeLastSweep th \<Longrightarrow> th_map b th' k = Some p \<Longrightarrow>
       th_map b th k = Some p \<and> th_conn th' p = th_conn th p \<and> th_timeLastSweep th \<le> sc_timeStart (th_conn th p)"
proof -
  let ?th = "Thread_CloseAllConnections (\<not> th_fNewIs1 th) th"
  note c = CloseAllConnections_empties [OF assms(1), of "\<not> th_fNewIs1 th"]
  then have tc: "thread_inv ?th" "table_closed (\<not> th_fNewIs1 th) th ?th" by simp_all
  have s: "th_timeLastSweep ?th = th_timeLastSweep th" "th_fNewIs1 ?th = th_fNewIs1 th"
    using tc(2) setup_ofD [of ?th th] by (simp_all add: table_closed_def)
  have m: "th_map b ?th = (if b = th_fNewIs1 th then th_map b th else Map.empty)" for b
    using tc(2) by (cases b; cases "th_fNewIs1 th") (simp_all add: table_closed_def)
  have o: "th_conn ?th p = th_conn th p" if "th_map (th_fNewIs1 th) th k = Some p" for k p
    using tc(2) that by (simp add: table_closed_def)
  let ?due = "c_sweepTimeoutSeconds \<le> t - th_timeLastSweep th"
  have th': "th' = (if ?due then ?th\<lparr>th_timeLastSweep := t', th_fNewIs1 := (\<not> th_fNewIs1 th)\<rparr> else th)"
    using s by (simp add: th'_def Thread_SweepDeadConnections_def Let_def)
  show "thread_inv th'" using tc(1) assms(1) by (simp add: th')
  have l: "live (?th\<lparr>th_timeLastSweep := t', th_fNewIs1 := (\<not> th_fNewIs1 th)\<rparr>) = live ?th" by (simp add: live_def)
  show "balanced th th'"
    using closed_balance [OF assms(1) tc(2)] l balanced_same [of th th] by (simp add: th' balanced_def)
  show "ages_inv t' th'" if "ages_inv now th" "now \<le> t'"
  proof (cases ?due)
    case True
    have "sc_timeStart (th_conn ?th p) \<le> t'" if "th_map (th_fNewIs1 th) th k = Some p" for k p
      using that o [OF that] \<open>ages_inv now th\<close> \<open>now \<le> t'\<close> by (force simp: ages_inv_def)
    then show ?thesis using True by (simp add: th' ages_inv_def m)
  next
    case False
    then show ?thesis using that ages_later by (simp add: th')
  qed
  show "c_sweepTimeoutSeconds \<le> t - sc_timeStart (th_conn th p)"
    if "ages_inv now th" "th_map b th k = Some p" "k \<notin> live th'"
  proof (cases ?due)
    case True
    have "b \<noteq> th_fNewIs1 th"
    proof
      assume "b = th_fNewIs1 th"
      then have "th_map b ?th k = Some p" using that(2) m by simp
      then have "k \<in> live ?th" by (auto simp: live_iff)
      then show False using that(3) True l by (simp add: th')
    qed
    then have "th_map (\<not> th_fNewIs1 th) th k = Some p" using that(2) by (cases b) simp_all
    then have "sc_timeStart (th_conn th p) \<le> th_timeLastSweep th" using that(1) by (simp add: ages_inv_def)
    then show ?thesis using True by simp
  next
    case False
    then show ?thesis using that(2,3) by (simp add: th' live_iff)
  qed
  show "th_map b th k = Some p \<and> th_conn th' p = th_conn th p \<and> th_timeLastSweep th \<le> sc_timeStart (th_conn th p)"
    if "ages_inv now th" ?due "th_map b th' k = Some p"
  proof -
    have "b = th_fNewIs1 th \<and> th_map b th k = Some p" using that(2,3) by (simp add: th' m split: if_splits)
    then show ?thesis using o [of k p] that(1,2) by (auto simp: th' ages_inv_def)
  qed
qed

section \<open>A turn\<close>

lemma GetListenSocket_Some:
  assumes "Thread_GetListenSocket sock th = Some i"
  shows "i < 4" "th_socketTable th ! i = sock" "sock \<noteq> -1"
proof -
  have s: "sock \<noteq> -1" "find (\<lambda>i. th_socketTable th ! i = sock) [0..<4] = Some i"
    using assms by (simp_all add: Thread_GetListenSocket_def split: if_splits)
  then obtain j where "j < length [0..<4]" "th_socketTable th ! ([0..<4] ! j) = sock" "i = [0..<4] ! j"
    by (auto simp: find_Some_iff)
  then show "i < 4" "th_socketTable th ! i = sock" by simp_all
  show "sock \<noteq> -1" by (rule s(1))
qed

lemma ProcessConnectionEvent_ok:
  fixes md5 and env and k and flags
  assumes "thread_inv th" "\<And>k m. length (hmac k m) = 20"
  defines "th' \<equiv> Thread_ProcessConnectionEvent hmac md5 env k flags th"
  shows "thread_inv th' \<and> conn_effect k th th' \<and> (k \<notin> live th \<longrightarrow> th' = th)"
proof -
  have T: "cmap_inv (th_table c th)" for c using assms(1) by (simp add: inv_but_def tables_inv_def)
  have lk: "fh_Lookup FastHash_Hash_int k (th_table c th) = th_map c th k" for c by (rule cm.lookup_content [OF T])
  have refl: "conn_effect k th th" by (simp add: conn_effect_def)
  let ?new = "th_map (th_fNewIs1 th) th k" and ?old = "th_map (\<not> th_fNewIs1 th) th k"
  have eq: "th' = (case (case ?new of None \<Rightarrow> ?old | Some p \<Rightarrow> Some p) of
      None \<Rightarrow> th
    | Some p \<Rightarrow> if sc_state (th_conn th p) = ConnectionState_Receiving then snd (Thread_ReceiveBytesForConnection hmac md5 env p th)
        else if sc_state (th_conn th p) = ConnectionState_Transmitting then snd (Thread_WriteBytesForConnection (ev_send env) p th)
        else th)"
    unfolding th'_def Thread_ProcessConnectionEvent_def Let_def lk by simp
  show ?thesis
  proof (cases "case ?new of None \<Rightarrow> ?old | Some p \<Rightarrow> Some p")
    case None
    then show ?thesis using assms(1) refl by (simp add: eq)
  next
    case (Some p)
    then obtain b where b: "th_map b th k = Some p" by (cases ?new) auto
    then have l: "k \<in> live th" by (auto simp: live_iff)
    show ?thesis
      using Some l refl assms(1) ReceiveBytes_ok [where hmac = hmac and env = env and ?md5.0 = md5, OF assms(1) b _ assms(2)]
        WriteBytes_ok [OF assms(1) b, where sends = "ev_send env"]
      by (simp add: eq)
  qed
qed

lemma HandleEvent_ok:
  fixes md5 and env and e
  assumes "thread_inv th" "accept_fresh th env" "\<And>k m. length (hmac k m) = 20"
    "pe_fd e \<in> listening th \<Longrightarrow> fh_Size (th_table True th) + fh_Size (th_table False th) < nat (th_maxConnections th)"
  defines "th' \<equiv> Thread_HandleEvent hmac md5 env e th"
  shows "thread_inv th' \<and> balanced th th' \<and>
    (ages_inv now th \<longrightarrow> now \<le> ev_timeStart env \<longrightarrow> ages_inv (ev_timeStart env) th')"
proof (cases "Thread_GetListenSocket (pe_fd e) th")
  case None
  let ?k = "pe_fd e"
  have eq: "th' = Thread_ProcessConnectionEvent hmac md5 env ?k (pe_eventflags e) th"
    by (simp add: th'_def Thread_HandleEvent_def None)
  note p = ProcessConnectionEvent_ok [where hmac = hmac and ?md5.0 = md5 and env = env and k = ?k and flags = "pe_eventflags e",
      OF assms(1,3), folded eq]
  have "balanced th th'"
    using p effect_balanced [OF assms(1), of ?k th'] balanced_same [of th th] by (cases "?k \<in> live th") auto
  then show ?thesis using p effect_ages [of ?k th th' now] ages_later [of now th' "ev_timeStart env"] by blast
next
  case (Some i)
  note g = GetListenSocket_Some [OF Some]
  have len: "length (th_socketTable th) = 4" using assms(1) by (simp add: inv_but_def setup_inv_def)
  have "pe_fd e \<in> listening th" using g len nth_mem [of i "th_socketTable th"] by (simp add: listening_def)
  note less = assms(4) [OF this]
  obtain r th1 where a: "Thread_AcceptConnection env i th = (r, th1)" by (metis surj_pair)
  have ne: "th_socketTable th ! i \<noteq> -1" using g by simp
  note ac = Accept_ok [OF assms(1,2) g(1) ne less a]
  show ?thesis
  proof (cases r)
    case None
    then have "th' = th1" by (simp add: th'_def Thread_HandleEvent_def Some a)
    moreover have r: "refused (filter (\<lambda>k. k \<noteq> -1) [fst (ev_accept env)]) th th1" using ac None by simp
    ultimately show ?thesis using ac refused_effects(1) [OF r] refused_effects(2) [OF r, of now] ages_later [of now th1 "ev_timeStart env"] by blast
  next
    case (Some p)
    let ?k = "fst (ev_accept env)"
    have i1: "thread_inv th1" and ad: "admitted ?k (ev_timeStart env) p th th1" using ac Some by simp_all
    have "?k \<notin> live th" using assms(2) ad by (simp add: accept_fresh_def admitted_def)
    note ef = admitted_effects [OF assms(1) ad this]
    have st: "sc_state (th_conn th1 p) = ConnectionState_Receiving" using ad by (simp add: admitted_def)
    have eq: "th' = snd (Thread_ReceiveBytesForConnection hmac md5 env p th1)"
      using \<open>Thread_GetListenSocket (pe_fd e) th = Some i\<close> by (simp add: th'_def Thread_HandleEvent_def a Some)
    note rv = ReceiveBytes_ok [where hmac = hmac and env = env and ?md5.0 = md5, OF i1 ef(3) st assms(3), folded eq]
    have "?k \<in> live th1" using ef(3) by (auto simp: live_iff)
    then have "balanced th1 th'" using effect_balanced [OF i1] rv by blast
    then show ?thesis using rv balanced_trans [OF ef(1)] effect_ages [of ?k th1 th' "ev_timeStart env"] ef(2) [of now] by blast
  qed
qed

text \<open>
  What the system may answer in a turn: \<^verbatim>\<open>poll\<close> reports events and leaves the rest of the array, and a
  descriptor from \<^verbatim>\<open>accept\<close> is not in use.
\<close>

definition turn_ok :: "CTCPStunThread \<Rightarrow> tcp_env \<Rightarrow> bool" where
  "turn_ok th env \<longleftrightarrow> accept_fresh th env \<and> (\<exists>ret revents. ev_poll env = poll_os ret revents)"

text \<open>A turn, once the listening sockets are switched and the thread has waited.\<close>

definition waited :: "(u8 list \<Rightarrow> u8 list \<Rightarrow> u8 list) \<Rightarrow> (u8 list \<Rightarrow> u8 list) \<Rightarrow> CTCPStunThread \<Rightarrow> tcp_env \<Rightarrow> HRESULT
    \<Rightarrow> PollEvent \<Rightarrow> CTCPStunThread \<Rightarrow> bool" where
  "waited hmac md5 th env hr e th2 \<longleftrightarrow> thread_inv th2 \<and> accept_fresh th2 env \<and> (\<forall>c. th_table c th2 = th_table c th) \<and>
     th_connectionpool th2 = th_connectionpool th \<and> th_timeLastSweep th2 = th_timeLastSweep th \<and>
     th_fNewIs1 th2 = th_fNewIs1 th \<and> th_accepted th2 = th_accepted th \<and> th_closed th2 = th_closed th \<and>
     (hr = S_OK \<longrightarrow> pe_fd e \<in> listening th2 \<longrightarrow>
       fh_Size (th_table True th2) + fh_Size (th_table False th2) < nat (th_maxConnections th2)) \<and>
     Thread_Run_step hmac md5 env th = (if th_fNeedToExit th2 \<or> pe_fd e = th_pipe0 th2 then (True, th2)
       else (False, Thread_SweepDeadConnections (ev_timeSweep env) (ev_timeSwept env)
         (if hr = S_OK then Thread_HandleEvent hmac md5 env e th2 else th2)))"

lemma waitedD:
  assumes "waited hmac md5 th env hr e th2"
  shows "thread_inv th2" "accept_fresh th2 env" "th_table c th2 = th_table c th" "th_connectionpool th2 = th_connectionpool th"
    "th_timeLastSweep th2 = th_timeLastSweep th" "th_fNewIs1 th2 = th_fNewIs1 th" "th_accepted th2 = th_accepted th"
    "th_closed th2 = th_closed th" "live th2 = live th"
    "hr = S_OK \<Longrightarrow> pe_fd e \<in> listening th2 \<Longrightarrow>
      fh_Size (th_table True th2) + fh_Size (th_table False th2) < nat (th_maxConnections th2)"
    "Thread_Run_step hmac md5 env th = (if th_fNeedToExit th2 \<or> pe_fd e = th_pipe0 th2 then (True, th2)
      else (False, Thread_SweepDeadConnections (ev_timeSweep env) (ev_timeSwept env)
        (if hr = S_OK then Thread_HandleEvent hmac md5 env e th2 else th2)))"
proof -
  note w = assms [unfolded waited_def]
  show m: "th_table c th2 = th_table c th" for c using w by blast
  show "live th2 = live th" by (simp add: live_def m)
qed (use assms [unfolded waited_def] in blast)+

lemma Run_step_parts:
  assumes "thread_inv th" "turn_ok th env"
  obtains hr e th2 where "waited hmac md5 th env hr e th2"
proof -
  obtain ret revents where po: "ev_poll env = poll_os ret revents" using assms(2) by (auto simp: turn_ok_def)
  let ?en = "Thread_IsConnectionCountAtMax th = False"
  obtain q where q: "Thread_SetListenSocketsOnEpoll ?en th = (S_OK, th\<lparr>th_spPolling := Some q, th_fListenSocketsOnEpoll := ?en\<rparr>)"
    "thread_inv (th\<lparr>th_spPolling := Some q, th_fListenSocketsOnEpoll := ?en\<rparr>)"
    by (rule SetListen_ok [OF assms(1)]) blast
  let ?th1 = "th\<lparr>th_spPolling := Some q, th_fListenSocketsOnEpoll := ?en\<rparr>"
  obtain hr e q' where w: "CPoll_WaitForNextEvent (poll_os ret revents) (ERRNOHR (ev_errno env)) \<lparr>pe_fd = 0, pe_eventflags = 0\<rparr>
      (Thread_GetTimeoutSeconds th) q = (hr, e, q')" by (metis prod_cases3)
  have P1: "polled_inv ?th1" and A1: "awaits_inv {} ?th1" using q(2) by (simp_all add: inv_but_def)
  then have q1: "poll_inv q" "poll_room q + card (dom (poll_reg q)) = nat (th_maxConnections th) + 5"
    by (auto simp: polled_inv_def)
  note wo = wait_ok [OF q1(1) ERRNOHR_failed w]
  define th2 where "th2 = ?th1\<lparr>th_spPolling := Some q', th_fNeedToExit := th_fNeedToExit th \<or> ev_exit env\<rparr>"
  have r2: "th_reg th2 = th_reg ?th1" using wo(3) by (simp add: th2_def th_reg_def)
  have e2: "live th2 = live th" "listening th2 = listening th" "th_pipe0 th2 = th_pipe0 th" "th_pipe1 th2 = th_pipe1 th"
    "th_maxConnections th2 = th_maxConnections th" "th_table c th2 = th_table c th" "th_connectionpool th2 = th_connectionpool th"
    "th_timeLastSweep th2 = th_timeLastSweep th" "th_fNewIs1 th2 = th_fNewIs1 th" "th_accepted th2 = th_accepted th"
    "th_closed th2 = th_closed th" for c
    by (simp_all add: th2_def live_def listening_def th_table_def)
  have i2: "thread_inv th2"
  proof -
    have "polled_inv th2" using P1 wo(1,2,3) q1(2) r2 e2 by (simp add: polled_inv_def live_def listening_def th2_def)
    moreover have "awaits_inv {} th2" using A1 unfolding awaits_inv_def r2 by (simp add: th2_def)
    moreover have "live th2 = live ?th1" "listening th2 = listening ?th1" "tables_inv th2 = tables_inv ?th1"
      "conns_inv th2 = conns_inv ?th1" "setup_inv th2 = setup_inv ?th1" "th_pipe0 th2 = th_pipe0 ?th1"
      by (simp_all add: th2_def live_def listening_def tables_inv_def conns_inv_def setup_inv_def)
    ultimately show ?thesis using q(2) by (simp only: inv_but_def simp_thms)
  qed
  have fr: "accept_fresh th2 env" using assms(2) e2 by (simp add: turn_ok_def accept_fresh_def)
  have less: "fh_Size (th_table True th2) + fh_Size (th_table False th2) < nat (th_maxConnections th2)"
    if hr: "hr = S_OK" and l: "pe_fd e \<in> listening th2"
  proof -
    have "pe_fd e \<in> dom (th_reg ?th1)" using wo(4) [OF hr] by (simp add: th_reg_def)
    moreover have "pe_fd e \<noteq> th_pipe0 th" "pe_fd e \<notin> live th"
      using l i2 e2 by (auto simp: inv_but_def setup_inv_def)
    ultimately have "?en" using P1 by (auto simp: polled_inv_def live_def split: if_splits)
    then show ?thesis
      by (cases "th_fNewIs1 th") (simp_all add: Thread_IsConnectionCountAtMax_def e2 add.commute)
  qed
  have "Thread_Run_step hmac md5 env th = (if th_fNeedToExit th2 \<or> pe_fd e = th_pipe0 th2 then (True, th2)
      else (False, Thread_SweepDeadConnections (ev_timeSweep env) (ev_timeSwept env)
        (if hr = S_OK then Thread_HandleEvent hmac md5 env e th2 else th2)))"
    unfolding Thread_Run_step_def Let_def q(1) snd_conv po by (simp add: w th2_def)
  then have "waited hmac md5 th env hr e th2" unfolding waited_def using i2 fr e2 less by simp
  then show ?thesis by (rule that)
qed

lemma Run_step_ok:
  assumes "thread_inv th" "turn_ok th env" "\<And>k m. length (hmac k m) = 20"
    "Thread_Run_step hmac md5 env th = (stop, th')"
  shows "thread_inv th' \<and> balanced th th' \<and>
    (ages_inv now th \<longrightarrow> now \<le> ev_timeStart env \<longrightarrow> ev_timeStart env \<le> ev_timeSwept env \<longrightarrow> ages_inv (ev_timeSwept env) th')"
proof -
  obtain hr e th2 where w: "waited hmac md5 th env hr e th2" by (rule Run_step_parts [OF assms(1,2)])
  note i2 = waitedD(1,2) [OF w] and e2 = waitedD(3-9) [OF w] and less = waitedD(10) [OF w] and st = waitedD(11) [OF w]
  note eq = st [unfolded assms(4)]
  have b2: "balanced th th2" "ages_inv now th \<Longrightarrow> ages_inv now th2"
    using e2 balanced_same [of th2 th] by (simp_all add: ages_inv_def)
  show ?thesis
  proof (cases "th_fNeedToExit th2 \<or> pe_fd e = th_pipe0 th2")
    case True
    then show ?thesis using eq i2 b2 ages_later by auto
  next
    case False
    define th3 where "th3 = (if hr = S_OK then Thread_HandleEvent hmac md5 env e th2 else th2)"
    have th': "th' = Thread_SweepDeadConnections (ev_timeSweep env) (ev_timeSwept env) th3" using eq False by (simp add: th3_def)
    have s3: "thread_inv th3 \<and> balanced th2 th3 \<and>
      (ages_inv now th2 \<longrightarrow> now \<le> ev_timeStart env \<longrightarrow> ages_inv (ev_timeStart env) th3)"
    proof (cases "hr = S_OK")
      case True
      show ?thesis using HandleEvent_ok [where hmac = hmac and now = now and ?md5.0 = md5, OF i2 assms(3) less [OF True]] True
        by (simp add: th3_def)
    next
      case False
      then show ?thesis using i2 balanced_same [of th2 th2] ages_later [of now th2] by (simp add: th3_def)
    qed
    have i3: "thread_inv th3" using s3 by blast
    note sw = sweep_ok [where t = "ev_timeSweep env" and t' = "ev_timeSwept env", OF i3, folded th']
    show ?thesis
      using sw(1) balanced_trans [OF b2(1) balanced_trans] sw(2) sw(3) [of "ev_timeStart env"] s3 b2(2) by blast
  qed
qed

end
