(* ===== verification/TcpInit.thy ===== *)
theory TcpInit
  imports TcpTheorems
begin

text \<open>
  Setting up a thread of the TCP server: a successful \<^verbatim>\<open>Init\<close> gives a thread that satisfies the
  invariant and has no connection.
\<close>

section \<open>Listening sockets\<close>

lemma TCPInit_new:
  assumes "ss_sock s = -1" "StunSocket_TCPInit os addr role reuse s = (hr, closed, s')" "SUCCEEDED hr"
  shows "ss_sock s' = os_socket os" "0 \<le> os_socket os" "ss_role s' = role" "closed = []"
  using assms by (auto simp: StunSocket_TCPInit_def StunSocket_InitCommon_def StunSocket_Attach_def StunSocket_Close_def
      StunSocket_Reset_def StunSocket_UpdateAddresses_def StunSocket_SetRole_def Let_def split: if_splits option.splits)

definition listen_spec :: "(nat \<Rightarrow> socket_os) \<Rightarrow> TransportAddressSet \<Rightarrow> nat set \<Rightarrow> CStunSocket list \<times> int list
    \<Rightarrow> CStunSocket list \<times> int list \<Rightarrow> bool" where
  "listen_spec os tsa R old new \<longleftrightarrow> length (fst new) = length (fst old) \<and> length (snd new) = length (snd old) \<and>
     (\<forall>r. r \<notin> R \<longrightarrow> fst new ! r = fst old ! r \<and> snd new ! r = snd old ! r) \<and>
     (\<forall>r \<in> R. if ta_fValid (tsa ! r)
       then snd new ! r = os_socket (os r) \<and> 0 \<le> os_socket (os r) \<and> ss_role (fst new ! r) = of_nat r
       else snd new ! r = -1)"

lemma CreateListen_loop_ok:
  assumes "distinct rs" "\<And>r. r \<in> set rs \<Longrightarrow> r < length (th_socketListenArray th) \<and> r < length (th_socketTable th) \<and>
      ss_sock (th_socketListenArray th ! r) = -1"
    "Thread_CreateListen_loop os rs hr th = (hr', th')" "SUCCEEDED hr'"
  shows "\<exists>arr tab n. th' = th\<lparr>th_socketListenArray := arr, th_socketTable := tab, th_countSocks := n\<rparr> \<and>
    listen_spec os (th_tsaListen th) (set rs) (th_socketListenArray th, th_socketTable th) (arr, tab)"
  using assms
proof (induction rs arbitrary: hr th)
  case Nil
  then have "th' = th\<lparr>th_socketListenArray := th_socketListenArray th, th_socketTable := th_socketTable th,
      th_countSocks := th_countSocks th\<rparr>" by simp
  then show ?case by (intro exI conjI) (assumption, simp add: listen_spec_def)
next
  case (Cons r rs)
  note r = Cons.prems(2) [of r, simplified]
  show ?case
  proof (cases "ta_fValid (th_tsaListen th ! r)")
    case True
    obtain hr1 cl s where t: "StunSocket_TCPInit (os r) (ta_addr (th_tsaListen th ! r)) (of_nat r) True (th_socketListenArray th ! r) =
        (hr1, cl, s)" by (metis prod_cases3)
    have ok: "SUCCEEDED hr1" using Cons.prems(3,4) True t by (auto simp: Let_def split: if_splits)
    have "ss_sock (th_socketListenArray th ! r) = -1" using r by simp
    note s = TCPInit_new [OF this t ok]
    let ?th = "th\<lparr>th_socketListenArray := (th_socketListenArray th)[r := s], th_socketTable := (th_socketTable th)[r := ss_sock s],
        th_countSocks := th_countSocks th + 1\<rparr>"
    obtain hr2 where l: "Thread_CreateListen_loop os rs hr2 ?th = (hr', th')"
      using Cons.prems(3,4) True t ok s(4) by (auto simp: Let_def StunSocket_GetSocketHandle_def split: if_splits)
    have "r' < length (th_socketListenArray ?th) \<and> r' < length (th_socketTable ?th) \<and> ss_sock (th_socketListenArray ?th ! r') = -1"
      if "r' \<in> set rs" for r'
      using that Cons.prems(1) Cons.prems(2) [of r'] by (cases "r' = r") auto
    from Cons.IH [OF _ this l Cons.prems(4)] Cons.prems(1)
    obtain arr tab n where h: "th' = ?th\<lparr>th_socketListenArray := arr, th_socketTable := tab, th_countSocks := n\<rparr>"
      "listen_spec os (th_tsaListen th) (set rs) ((th_socketListenArray th)[r := s], (th_socketTable th)[r := ss_sock s]) (arr, tab)"
      by auto
    have "listen_spec os (th_tsaListen th) (set (r # rs)) (th_socketListenArray th, th_socketTable th) (arr, tab)"
      using h(2) True s r Cons.prems(1) by (auto simp: listen_spec_def)
    then show ?thesis using h(1) by (intro exI conjI) simp_all
  next
    case False
    let ?th = "th\<lparr>th_socketTable := (th_socketTable th)[r := -1]\<rparr>"
    have l: "Thread_CreateListen_loop os rs hr ?th = (hr', th')" using Cons.prems(3) False by simp
    have "r' < length (th_socketListenArray ?th) \<and> r' < length (th_socketTable ?th) \<and> ss_sock (th_socketListenArray ?th ! r') = -1"
      if "r' \<in> set rs" for r'
      using that Cons.prems(2) [of r'] by auto
    from Cons.IH [OF _ this l Cons.prems(4)] Cons.prems(1)
    obtain arr tab n where h: "th' = ?th\<lparr>th_socketListenArray := arr, th_socketTable := tab, th_countSocks := n\<rparr>"
      "listen_spec os (th_tsaListen th) (set rs) (th_socketListenArray th, (th_socketTable th)[r := -1]) (arr, tab)"
      by auto
    have "listen_spec os (th_tsaListen th) (set (r # rs)) (th_socketListenArray th, th_socketTable th) (arr, tab)"
      using h(2) False r Cons.prems(1) by (auto simp: listen_spec_def)
    then show ?thesis using h(1) by (intro exI conjI) simp_all
  qed
qed

section \<open>The new thread\<close>

lemma upt_four: "[0..<4] = [0, 1, 2, 3 :: nat]"
  by (simp add: upt_rec)

lemma replicate_four: "replicate 4 x = [x, x, x, x]"
  by (simp add: numeral_eq_Suc)

lemma Thread_new_eq:
  "Thread_new t = \<lparr>th_pipe0 = -1, th_pipe1 = -1, th_spPolling = None, th_fListenSocketsOnEpoll = False, th_spLimiter = None,
      th_tsaListen = emptyTSA, th_socketListenArray = replicate 4 (StunSocket_Reset StunSocket_new),
      th_socketTable = replicate 4 (-1), th_countSocks = 0, th_fNeedToExit = False, th_spAuth = None, th_role = RolePP,
      th_tsa = emptyTSA, th_maxConnections = c_MaxNumberOfConnectionsDefault, th_fThreadIsValid = False,
      th_connectionpool = Pool_new, th_hashConnections1 = fhd_ResetTable, th_hashConnections2 = fhd_ResetTable,
      th_fNewIs1 = True, th_timeLastSweep = t, th_accepted = [], th_closed = [], th_sent = []\<rparr>"
proof -
  have c: "StunSocket_Close StunSocket_new = ([], StunSocket_Reset StunSocket_new)"
    by (simp add: StunSocket_Close_def StunSocket_new_def)
  have p: "Pool_Reset Pool_new = Pool_new" by (simp add: Pool_Reset_def Pool_new_def)
  show ?thesis
    unfolding Thread_new_def Thread_Reset_def Thread_CloseListenSockets_def Thread_ClosePipes_def replicate_four upt_four
    by (simp add: c p)
qed

section \<open>Init\<close>

text \<open>
  What the caller passes and the system answers: the addresses are sets of four, and the descriptors
  of the listening sockets and the pipe are different.
\<close>

definition init_ok :: "init_env \<Rightarrow> TransportAddressSet \<Rightarrow> TransportAddressSet \<Rightarrow> IStunAuth option \<Rightarrow> bool" where
  "init_ok ie tsaListen tsaHandler pAuth \<longleftrightarrow> length tsaHandler = 4 \<and> (\<forall>ta \<in> set tsaHandler. sa_wf (ta_addr ta)) \<and>
     (\<forall>a. pAuth = Some a \<longrightarrow> auth_wf a) \<and>
     (\<forall>r < 4. \<forall>r' < 4. ta_fValid (tsaListen ! r) \<and> ta_fValid (tsaListen ! r') \<and>
        os_socket (ie_sockets ie r) = os_socket (ie_sockets ie r') \<longrightarrow> r = r') \<and>
     fst (snd (ie_pipe ie)) \<noteq> -1 \<and>
     (\<forall>r < 4. ta_fValid (tsaListen ! r) \<longrightarrow> os_socket (ie_sockets ie r) \<noteq> fst (snd (ie_pipe ie)))"

lemma Chk_success:
  assumes "Chk r k = (hr, x)" "SUCCEEDED hr"
  obtains hr1 y where "r = (hr1, y)" "SUCCEEDED hr1" "k hr1 y = (hr, x)"
proof (cases "SUCCEEDED (fst r)")
  case True
  then show ?thesis using assms(1) that [of "fst r" "snd r"] by simp
next
  case False
  then show ?thesis using assms by auto
qed

lemma CreatePolling_poll:
  "CreatePollingInstance False e IPOLLING_TYPE_BEST n = (S_OK, Some (PollWith (snd (CPoll_Initialize n CPoll_new))))"
  by (simp add: CreatePollingInstance_def CPoll_Initialize_def IPOLLING_TYPE_BEST_def IPOLLING_TYPE_EPOLL_def
      IPOLLING_TYPE_POLL_def Let_def)

lemma distinct_listening:
  assumes "length tab = 4" "\<And>r r'. r < 4 \<Longrightarrow> r' < 4 \<Longrightarrow> tab ! r \<noteq> -1 \<Longrightarrow> tab ! r = tab ! r' \<Longrightarrow> r = r'"
  shows "distinct (filter (\<lambda>s. s \<noteq> -1) (tab :: int list))"
proof -
  have "filter (\<lambda>s. s \<noteq> -1) tab = map ((!) tab) (filter (\<lambda>i. tab ! i \<noteq> -1) [0..<4])"
    using assms(1) by (subst map_nth [of tab, symmetric]) (simp add: filter_map comp_def)
  moreover have "distinct (map ((!) tab) (filter (\<lambda>i. tab ! i \<noteq> -1) [0..<4]))"
    by (simp add: distinct_map inj_on_def) (use assms(2) in blast)
  ultimately show ?thesis by simp
qed

lemma init_listen:
  assumes "init_ok ie (th_tsaListen th) h a" "th_socketListenArray th = replicate 4 (StunSocket_Reset StunSocket_new)"
    "th_socketTable th = replicate 4 (-1)" "Thread_CreateListenSockets (ie_sockets ie) th = (hr, th')" "SUCCEEDED hr"
  obtains arr tab n where "th' = th\<lparr>th_socketListenArray := arr, th_socketTable := tab, th_countSocks := n,
      th_fListenSocketsOnEpoll := False\<rparr>" "length tab = 4" "distinct (socks_of tab)"
    "\<forall>i < 4. tab ! i \<noteq> -1 \<longrightarrow> IsValidSocketRole (ss_role (arr ! i))" "fst (snd (ie_pipe ie)) \<notin> set tab"
proof -
  obtain th1 where l: "Thread_CreateListen_loop (ie_sockets ie) [unat RolePP..<unat RoleAA + 1] S_OK th = (hr, th1)"
    "th' = th1\<lparr>th_fListenSocketsOnEpoll := False\<rparr>"
    using assms(4,5) by (auto simp: Thread_CreateListenSockets_def split: prod.splits if_splits)
  have rs: "[unat RolePP..<unat RoleAA + 1] = [0..<4]" by (simp add: RolePP_def RoleAA_def)
  have "r < length (th_socketListenArray th) \<and> r < length (th_socketTable th) \<and> ss_sock (th_socketListenArray th ! r) = -1"
    if "r \<in> set [0..<4]" for r using that assms(2,3) by (simp add: StunSocket_Reset_def)
  from CreateListen_loop_ok [OF _ this l(1) [unfolded rs] assms(5)]
  obtain arr tab n where t: "th1 = th\<lparr>th_socketListenArray := arr, th_socketTable := tab, th_countSocks := n\<rparr>"
    and s: "listen_spec (ie_sockets ie) (th_tsaListen th) {0..<4} (th_socketListenArray th, th_socketTable th) (arr, tab)" by auto
  have len: "length tab = 4" using s assms(3) by (simp add: listen_spec_def)
  have r: "if ta_fValid (th_tsaListen th ! r)
       then tab ! r = os_socket (ie_sockets ie r) \<and> 0 \<le> os_socket (ie_sockets ie r) \<and> ss_role (arr ! r) = of_nat r
       else tab ! r = -1" if "r < 4" for r
  proof -
    have "r \<in> {0..<4}" using that by simp
    then show ?thesis using s unfolding listen_spec_def fst_conv snd_conv by blast
  qed
  have v: "ta_fValid (th_tsaListen th ! r)" "tab ! r = os_socket (ie_sockets ie r)" "ss_role (arr ! r) = of_nat r"
    if "r < 4" "tab ! r \<noteq> -1" for r using r [OF that(1)] that(2) by (simp_all split: if_splits)
  show ?thesis
  proof (rule that [where arr = arr and tab = tab and n = n])
    show "th' = th\<lparr>th_socketListenArray := arr, th_socketTable := tab, th_countSocks := n, th_fListenSocketsOnEpoll := False\<rparr>"
      using l(2) t by simp
    show "distinct (socks_of tab)"
      by (rule distinct_listening [OF len]) (use v assms(1) in \<open>auto simp: init_ok_def\<close>)
    show "\<forall>i < 4. tab ! i \<noteq> -1 \<longrightarrow> IsValidSocketRole (ss_role (arr ! i))"
    proof (intro allI impI)
      fix i assume "i < 4" "tab ! i \<noteq> -1"
      then have "ss_role (arr ! i) = of_nat i" "i \<in> {0, 1, 2, 3}" using v by auto
      then show "IsValidSocketRole (ss_role (arr ! i))" by (auto simp: IsValidSocketRole_def RoleAA_def)
    qed
    show "fst (snd (ie_pipe ie)) \<notin> set tab"
    proof
      assume "fst (snd (ie_pipe ie)) \<in> set tab"
      then obtain i where "i < 4" "tab ! i = fst (snd (ie_pipe ie))" using len by (auto simp: in_set_conv_nth)
      then show False using assms(1) v(1,2) [of i] by (auto simp: init_ok_def)
    qed
  qed (rule len)
qed

lemma init_start:
  assumes "Thread_Init ie tsaListen tsaHandler pAuth maxConnections lim (Thread_new t) = (hr, th)" "SUCCEEDED hr"
  obtains m where "0 < m" "Thread_Init_body ie lim ((Thread_new t)\<lparr>th_maxConnections := m, th_tsaListen := tsaListen,
      th_tsa := tsaHandler, th_spAuth := pAuth\<rparr>) = (hr, th)" "m < 100000"
proof -
  let ?m = "if maxConnections > 0 then maxConnections else c_MaxNumberOfConnectionsDefault"
  let ?th = "(Thread_new t)\<lparr>th_maxConnections := ?m, th_tsaListen := tsaListen, th_tsa := tsaHandler, th_spAuth := pAuth\<rparr>"
  have f: "\<not> SUCCEEDED E_UNEXPECTED" "\<not> SUCCEEDED E_INVALIDARG" by (simp_all add: SUCCEEDED_def E_UNEXPECTED_def E_INVALIDARG_def)
  have p: "th_pipe0 (Thread_new t) = -1" "th_fThreadIsValid (Thread_new t) = False" by (simp_all add: Thread_new_eq)
  obtain hr1 th1 where b: "Thread_Init_body ie lim ?th = (hr1, th1)" by (metis surj_pair)
  have "?m < 100000 \<and> SUCCEEDED hr1 \<and> (hr, th) = (hr1, th1)"
    using assms b f p by (auto simp: Thread_Init_def Let_def split: if_splits)
  moreover have "0 < ?m" by (simp add: c_MaxNumberOfConnectionsDefault_def)
  ultimately show ?thesis using b that [of ?m] by simp
qed

lemma init_body_ok:
  assumes "Thread_Init_body ie lim th0 = (hr, th)" "SUCCEEDED hr" "init_ok ie (th_tsaListen th0) (th_tsa th0) (th_spAuth th0)"
    "th_socketListenArray th0 = replicate 4 (StunSocket_Reset StunSocket_new)" "th_socketTable th0 = replicate 4 (-1)"
    "0 < th_maxConnections th0" "th_connectionpool th0 = Pool_new"
  shows "thread_inv th" "live th = {}" "th_closed th = th_closed th0" "th_accepted th = th_accepted th0"
    "th_maxConnections th = th_maxConnections th0" "th_sent th = th_sent th0"
proof -
  define m where "m = th_maxConnections th0"
  obtain ret p0 p1 where pipe: "ie_pipe ie = (ret, p0, p1)" by (metis prod_cases3)
  obtain hr1 th1 where s1: "Thread_CreateListenSockets (ie_sockets ie) th0 = (hr1, th1)" by (metis surj_pair)
  have ok1: "SUCCEEDED hr1" by (rule ccontr) (use assms(1,2) s1 in \<open>simp add: Thread_Init_body_def\<close>)
  obtain arr tab n where l: "th1 = th0\<lparr>th_socketListenArray := arr, th_socketTable := tab, th_countSocks := n,
      th_fListenSocketsOnEpoll := False\<rparr>" "length tab = 4" "distinct (socks_of tab)"
    "\<forall>i < 4. tab ! i \<noteq> -1 \<longrightarrow> IsValidSocketRole (ss_role (arr ! i))" "p0 \<notin> set tab"
    by (rule init_listen [OF assms(3-5) s1 ok1]) (rule that, simp_all only: pipe fst_conv snd_conv)
  have ret: "ret \<noteq> -1" by (rule ccontr) (use assms(1,2) s1 ok1 pipe ERRNOHR_failed [of "ie_errno ie"] in
    \<open>auto simp: Thread_Init_body_def Thread_CreatePipes_def ChkTo_def\<close>)
  define th2 where "th2 = th1\<lparr>th_pipe0 := p0, th_pipe1 := p1\<rparr>"
  have s2: "Thread_CreatePipes (ie_pipe ie) (ie_errno ie) th1 = (S_OK, th2)" using ret by (simp add: pipe Thread_CreatePipes_def th2_def)
  have m: "0 < m" "th_maxConnections th2 = m" "0 < nat (m + 5)" using assms(6) by (simp_all add: m_def th2_def l(1))
  define q0 where "q0 = snd (CPoll_Initialize (nat (m + 5)) CPoll_new)"
  have q0: "poll_inv q0" "poll_reg q0 = Map.empty" "poll_room q0 = nat m + 5" using poll_init [OF m(3)] m(1) by (simp_all add: q0_def)
  define th3 where "th3 = th2\<lparr>th_spPolling := Some q0\<rparr>"
  have s3: "(case CreatePollingInstance False (-1) IPOLLING_TYPE_BEST (nat (th_maxConnections th2 + 5)) of
            (hr, Some (PollWith p)) \<Rightarrow> (hr, th2\<lparr>th_spPolling := Some p\<rparr>) | (hr, _) \<Rightarrow> (hr, th2)) = (S_OK, th3)"
    by (simp add: CreatePolling_poll m(2) th3_def q0_def)
  have "length (socks_of tab) \<le> poll_room q0" using q0(3) l(2) length_filter_le [of "\<lambda>s. s \<noteq> -1" tab] by simp
  moreover have "th_spPolling th3 = Some q0" "poll_reg q0 s = None" for s by (simp_all add: th3_def q0(2))
  ultimately obtain q1 where a: "Thread_SetListen_loop True tab S_OK th3 = (S_OK, th3\<lparr>th_spPolling := Some q1\<rparr>)" "poll_inv q1"
    "poll_room q1 + length (socks_of tab) = nat m + 5"
    "poll_reg q1 = (\<lambda>k. if k \<in> set (socks_of tab) then Some (native_events EPOLL_LISTEN_SOCKET_EVENT_SET) else poll_reg q0 k)"
    using listen_add [of th3 q0 tab, OF _ q0(1) l(3)] unfolding q0(3) by blast
  define th4 where "th4 = th3\<lparr>th_spPolling := Some q1, th_fListenSocketsOnEpoll := True\<rparr>"
  have s4: "Thread_SetListenSocketsOnEpoll True th3 = (S_OK, th4)"
    using a(1) by (simp add: Thread_SetListenSocketsOnEpoll_def th3_def th2_def l(1) th4_def)
  have "poll_reg q1 p0 = None" using l(5) by (simp add: a(4) q0(2))
  moreover have "0 < poll_room q1" using a(3) l(2) length_filter_le [of "\<lambda>s. s \<noteq> -1" tab] by simp
  ultimately obtain q2 where b: "CPoll_Add p0 EPOLL_PIPE_EVENT_SET q1 = (S_OK, q2)" "poll_inv q2" "poll_room q2 = poll_room q1 - 1"
    "poll_reg q2 = (poll_reg q1)(p0 \<mapsto> native_events EPOLL_PIPE_EVENT_SET)"
    using poll.add_new [OF a(2), of p0 EPOLL_PIPE_EVENT_SET] by (cases "CPoll_Add p0 EPOLL_PIPE_EVENT_SET q1") simp
  define th5 where "th5 = th4\<lparr>th_spPolling := Some q2\<rparr>"
  have s5: "th_poll (CPoll_Add (th_pipe0 th4) EPOLL_PIPE_EVENT_SET) th4 = (S_OK, th5)"
    using b(1) by (simp add: th_poll_def th5_def th4_def th3_def th2_def)
  have m5: "th_maxConnections th5 = m" by (simp add: m_def th5_def th4_def th3_def th2_def l(1))
  have nm: "0 < nat m" using m(1) by simp
  obtain t1 where t1: "fhd_InitTable (nat m) 0 (th_hashConnections1 th5) = (1, t1)" "cmap_inv t1" "cmap t1 = Map.empty" "fh_fsize t1 = nat m"
    using cmap_InitTable [OF nm, of "th_hashConnections1 th5"] by (cases "fhd_InitTable (nat m) 0 (th_hashConnections1 th5)") simp
  obtain t2 where t2: "fhd_InitTable (nat m) 0 (th_hashConnections2 th5) = (1, t2)" "cmap_inv t2" "cmap t2 = Map.empty" "fh_fsize t2 = nat m"
    using cmap_InitTable [OF nm, of "th_hashConnections2 th5"] by (cases "fhd_InitTable (nat m) 0 (th_hashConnections2 th5)") simp
  have th: "th = th5\<lparr>th_hashConnections1 := t1, th_hashConnections2 := t2, th_fNewIs1 := True, th_spLimiter := lim, th_fNeedToExit := False\<rparr>"
    using assms(1) unfolding Thread_Init_body_def by (simp add: s1 ok1 s2 s3 s4 s5 m5 t1(1) t2(1))
  have T: "th_table b th = (if b then t1 else t2)" for b by (simp add: th th_table_def)
  show lv: "live th = {}" by (simp add: live_def T t1(3) t2(3))
  show "th_closed th = th_closed th0" "th_accepted th = th_accepted th0" "th_maxConnections th = th_maxConnections th0" "th_sent th = th_sent th0"
    by (simp_all add: th th5_def th4_def th3_def th2_def l(1))
  have f: "th_socketTable th = tab" "th_pipe0 th = p0" "th_fListenSocketsOnEpoll th = True" "th_spPolling th = Some q2"
    "th_maxConnections th = m" "th_connectionpool th = Pool_new" "th_socketListenArray th = arr" "th_tsa th = th_tsa th0"
    "th_spAuth th = th_spAuth th0"
    using assms(7) by (simp_all add: th th5_def th4_def th3_def th2_def l(1) m_def)
  have L: "listening th = set (socks_of tab)" by (auto simp: listening_def f)
  have "fh_Size t1 = 0" "fh_Size t2 = 0" using cmap_size [OF t1(2)] cmap_size [OF t2(2)] t1(3) t2(3) by simp_all
  then have "tables_inv th" using t1 t2 m(1) f(5) by (simp add: tables_inv_def T)
  moreover have "conns_inv th"
    by (simp add: conns_inv_def T t1(3) t2(3) f pool_inv_def Pool_new_def pool_used_def pool_free_def exI [of _ "[]"])
  moreover have "awaits_inv {} th" by (simp add: awaits_inv_def T t1(3) t2(3))
  moreover have "setup_inv th"
    using l assms(3) by (auto simp: setup_inv_def f L init_ok_def pipe)
  moreover have "polled_inv th"
  proof -
    have d: "dom (poll_reg q2) = insert p0 (set (socks_of tab))" by (auto simp: b(4) a(4) q0(2) split: if_splits)
    have "p0 \<notin> set (socks_of tab)" using l(5) by simp
    then have "card (dom (poll_reg q2)) = Suc (length (socks_of tab))" using distinct_card [OF l(3)] by (simp add: d)
    then have "poll_room q2 + card (dom (poll_reg q2)) = nat m + 5"
      using a(3) b(3) \<open>0 < poll_room q1\<close> by simp
    then show ?thesis using b(2) d by (simp add: polled_inv_def f L lv th_reg_def)
  qed
  ultimately show "thread_inv th" by (simp add: inv_but_def lv)
qed

lemma Init_ok:
  assumes "Thread_Init ie tsaListen tsaHandler pAuth maxConnections lim (Thread_new t) = (hr, th)" "SUCCEEDED hr"
    "init_ok ie tsaListen tsaHandler pAuth"
  shows "thread_inv th" "live th = {}" "th_closed th = []" "th_accepted th = []" "th_sent th = []" "th_maxConnections th < 100000"
proof -
  obtain m where m: "0 < m" "Thread_Init_body ie lim ((Thread_new t)\<lparr>th_maxConnections := m, th_tsaListen := tsaListen,
      th_tsa := tsaHandler, th_spAuth := pAuth\<rparr>) = (hr, th)" "m < 100000"
    by (rule init_start [OF assms(1,2)]) blast
  note b = init_body_ok [OF m(2) assms(2)]
  have eqs: "th_socketListenArray (Thread_new t) = replicate 4 (StunSocket_Reset StunSocket_new)"
    "th_socketTable (Thread_new t) = replicate 4 (-1)" "th_connectionpool (Thread_new t) = Pool_new" "th_closed (Thread_new t) = []"
    "th_accepted (Thread_new t) = []" "th_sent (Thread_new t) = []" by (simp_all add: Thread_new_eq)
  show "thread_inv th" "live th = {}" "th_closed th = []" "th_accepted th = []" "th_sent th = []" "th_maxConnections th < 100000"
    using b assms(3) m(1,3) eqs by simp_all
qed

end
