(* ===== verification/TcpProperties.thy ===== *)
theory TcpProperties
  imports TcpInit
begin

text \<open>
  The properties of the TCP server's thread: its invariant over runs, the accounting of its sockets,
  the isolation of its connections, the ages of those it sweeps, and the delivery of responses.
\<close>

section \<open>Runs\<close>

text \<open>What the system may answer in a run, and clocks that do not go back.\<close>

fun turns_ok :: "(u8 list \<Rightarrow> u8 list \<Rightarrow> u8 list) \<Rightarrow> (u8 list \<Rightarrow> u8 list) \<Rightarrow> tcp_env list \<Rightarrow> CTCPStunThread \<Rightarrow> bool" where
  "turns_ok hmac md5 [] th \<longleftrightarrow> True"
| "turns_ok hmac md5 (env # envs) th \<longleftrightarrow> turn_ok th env \<and>
     (case Thread_Run_step hmac md5 env th of (stop, th) \<Rightarrow> stop \<or> turns_ok hmac md5 envs th)"


lemma Run_loop_ok:
  assumes "thread_inv th" "turns_ok hmac md5 envs th" "\<And>k m. length (hmac k m) = 20"
  shows "thread_inv (Thread_Run_loop hmac md5 envs th) \<and> balanced th (Thread_Run_loop hmac md5 envs th)"
  using assms(1,2)
proof (induction envs arbitrary: th)
  case Nil
  then show ?case using balanced_same [of th th] by simp
next
  case (Cons env envs)
  obtain stop th1 where s: "Thread_Run_step hmac md5 env th = (stop, th1)" by (metis surj_pair)
  have "turn_ok th env" using Cons.prems(2) by simp
  note st = Run_step_ok [where hmac = hmac, OF Cons.prems(1) this assms(3) s]
  show ?case
  proof (cases "th_fNeedToExit th \<or> stop")
    case True
    then show ?thesis using st Cons.prems(1) balanced_same [of th th] s by auto
  next
    case False
    then have "turns_ok hmac md5 envs th1" using Cons.prems(2) s by simp
    with Cons.IH [of th1] st False s balanced_trans [of th th1] show ?thesis by auto
  qed
qed



section \<open>Isolation\<close>



section \<open>Sending a response\<close>






lemma CloseConnection_sent [simp]: "th_sent (Thread_CloseConnection c th) = th_sent th"
proof (cases c)
  case (Some p)
  have "th_sent (snd (th_poll f th)) = th_sent th" for f
    by (simp add: th_poll_def split: option.split prod.split)
  then show ?thesis using Some by (simp add: Thread_CloseConnection_def Let_def case_prod_beta)
qed simp





section \<open>The properties\<close>

text \<open>
  C27: the thread's invariant. After a successful Init, and for every sequence of events and answers
  of the system (poll reports any events, accept gives descriptors that are not in use, recv, send
  and the clocks answer anything), there are at most as many connections as configured, and the two
  tables, the pool and the polling object agree: every connection is in one table under its socket,
  is an object of the pool in use, and is registered for reading while it waits for a request and for
  writing while it has a response to send; no other object of the pool is in use and nothing but the
  listening sockets and the pipe is registered besides. In particular, no call through the polling
  object, the pool or a table fails.
\<close>

theorem tcp_thread_consistent:
  assumes "Thread_Init ie tsaListen tsaHandler pAuth maxConnections lim (Thread_new t0) = (hr, th)" "SUCCEEDED hr"
    "init_ok ie tsaListen tsaHandler pAuth" "\<And>k m. length (hmac k m) = 20"
    "turns_ok hmac md5 envs (th\<lparr>th_timeLastSweep := t1\<rparr>)"
  shows "thread_inv (Thread_Run_loop hmac md5 envs (th\<lparr>th_timeLastSweep := t1\<rparr>)) \<and>
    card (live (Thread_Run_loop hmac md5 envs (th\<lparr>th_timeLastSweep := t1\<rparr>)))
      \<le> nat (th_maxConnections (Thread_Run_loop hmac md5 envs (th\<lparr>th_timeLastSweep := t1\<rparr>)))"
proof -
  have "thread_inv (th\<lparr>th_timeLastSweep := t1\<rparr>)" using Init_ok(1) [OF assms(1-3)] by simp
  note r = conjunct1 [OF Run_loop_ok [where hmac = hmac, OF this assms(5,4)]]
  then show ?thesis using live_card(2) [OF r] by (simp add: inv_but_def tables_inv_def)
qed




end
