(* ===== verification/TcpDemo.thy ===== *)
theory TcpDemo
  imports TcpProperties
begin

text \<open>
  A small server thread to instantiate the properties of \<open>TcpProperties\<close>: one listening socket, at
  most one connection.
\<close>

definition demo_listen_os :: "nat \<Rightarrow> socket_os" where
  "demo_listen_os r = \<lparr>os_socket = 3 + int r, os_setsockopt = \<lambda>_ _ _. 0, os_bind = 0, os_listen = 0, os_getfl = 2,
     os_setfl = \<lambda>_. 0, os_getsockname = None, os_getpeername = None, os_errno = 0\<rparr>"

definition demo_ie :: init_env where
  "demo_ie = \<lparr>ie_sockets = demo_listen_os, ie_pipe = (0, 10, 11), ie_errno = 0, ie_time = 0\<rparr>"

definition demo_tsa :: TransportAddressSet where
  "demo_tsa = emptyTSA[0 := \<lparr>ta_addr = CSocketAddress_ip4 0 3478, ta_fValid = True\<rparr>]"

definition demo_init :: "HRESULT \<times> CTCPStunThread" where
  "demo_init = Thread_Init demo_ie demo_tsa demo_tsa None 1 None (Thread_new 0)"

text \<open>A client connects; its request arrives later.\<close>

definition demo_turn :: tcp_env where
  "demo_turn = \<lparr>ev_poll = poll_os 1 (\<lambda>x. if pf_fd x = 3 then 1 else 0), ev_errno = 0, ev_exit = False,
     ev_accept = (7, CSocketAddress_ip4 0x0A000001 5000), ev_os = demo_listen_os 0,
     ev_recv = [RecvWouldBlock], ev_send = [], ev_timeAccept = 2, ev_timeStart = 2,
     ev_timeReceive = 2, ev_timeSweep = 3, ev_timeSwept = 3\<rparr>"

definition demo_quiet :: tcp_env where
  "demo_quiet = demo_turn\<lparr>ev_poll := poll_os 0 (\<lambda>_. 0), ev_accept := (-1, CSocketAddress_zero), ev_timeStart := 70,
     ev_timeSweep := 71, ev_timeSwept := 71\<rparr>"

lemma demo_init_run: "case demo_init of (hr, th) \<Rightarrow>
    SUCCEEDED hr \<and> (th_pipe0 th, th_pipe1 th, th_socketTable th) = (10, 11, [3, -1, -1, -1])"
  by code_simp

lemma demo_init_ok: "SUCCEEDED (fst demo_init)"
  and demo_thread_setup: "th_pipe0 (snd demo_init) = 10" "th_pipe1 (snd demo_init) = 11"
    "th_socketTable (snd demo_init) = [3, -1, -1, -1]"
  using demo_init_run by (simp_all add: case_prod_beta)

lemma demo_init_wf: "init_ok demo_ie demo_tsa demo_tsa None"
proof -
  have v: "ta_fValid (demo_tsa ! r) \<longleftrightarrow> r = 0" if "r < 4" for r
    using that by (cases "r = 0") (simp_all add: demo_tsa_def emptyTSA_def)
  have "\<forall>ta \<in> set demo_tsa. sa_wf (ta_addr ta)" by (auto simp: demo_tsa_def emptyTSA_def replicate_four)
  then show ?thesis using v by (auto simp: init_ok_def demo_ie_def demo_listen_os_def) (simp_all add: demo_tsa_def emptyTSA_def)
qed

lemma demo_init_eq: "Thread_Init demo_ie demo_tsa demo_tsa None 1 None (Thread_new 0) = (fst demo_init, snd demo_init)"
  by (simp add: demo_init_def)

lemmas demo_Init_ok = Init_ok [OF demo_init_eq demo_init_ok demo_init_wf]

lemma demo_turn_ok: "turn_ok (snd demo_init\<lparr>th_timeLastSweep := 1\<rparr>) demo_turn"
proof -
  have "live (snd demo_init\<lparr>th_timeLastSweep := 1\<rparr>) = {}" using demo_Init_ok(2) by (simp add: live_def)
  then show ?thesis using demo_thread_setup
    by (auto simp: turn_ok_def accept_fresh_def os_wf_def demo_turn_def demo_listen_os_def listening_def)
qed

lemma demo_quiet_ok: "turn_ok th demo_quiet"
  by (auto simp: turn_ok_def accept_fresh_def os_wf_def demo_quiet_def demo_turn_def demo_listen_os_def)

lemma demo_turns_ok: "turns_ok demo_hmac demo_md5 [demo_turn, demo_quiet] (snd demo_init\<lparr>th_timeLastSweep := 1\<rparr>)"
  using demo_turn_ok demo_quiet_ok by (simp add: case_prod_beta)

section \<open>A thread with a response to send\<close>



section \<open>The witnesses\<close>

theorem tcp_thread_consistent_witness:
  "thread_inv (Thread_Run_loop demo_hmac demo_md5 [demo_turn, demo_quiet] (snd demo_init\<lparr>th_timeLastSweep := 1\<rparr>)) \<and>
   card (live (Thread_Run_loop demo_hmac demo_md5 [demo_turn, demo_quiet] (snd demo_init\<lparr>th_timeLastSweep := 1\<rparr>)))
     \<le> nat (th_maxConnections (Thread_Run_loop demo_hmac demo_md5 [demo_turn, demo_quiet] (snd demo_init\<lparr>th_timeLastSweep := 1\<rparr>)))"
  by (rule tcp_thread_consistent [OF demo_init_eq demo_init_ok demo_init_wf demo_lengths(2) demo_turns_ok])




end
