(* ===== verification/RequestFunction.thy ===== *)
theory RequestFunction
  imports Transaction
begin

text \<open>
  What the request handler sends is a function of the bytes of the request, of the addresses and of
  the server's configuration: neither the reader's history nor what the output buffer held before
  has any influence on it.
\<close>

section \<open>The reply\<close>

definition request_reply ::
  "(u8 list \<Rightarrow> u8 list \<Rightarrow> u8 list) \<Rightarrow> (u8 list \<Rightarrow> u8 list) \<Rightarrow> IStunAuth option \<Rightarrow> TransportAddressSet option
   \<Rightarrow> StunMessageIn \<Rightarrow> CStunMessageReader \<Rightarrow> u8 list" where
  "request_reply hmac md5 pAuth aset m r =
     (let tid = Reader_GetTransactionId r
      in if request_code hmac md5 pAuth aset m r = 0
         then msg_bytes success_field tid
                (with_integrity hmac success_field tid (auth_key md5 pAuth r) (success_attrs aset m r (the (answer_role aset m))))
         else (let err = request_error hmac md5 pAuth aset m r
               in msg_bytes (error_field err) tid (error_attrs (Reader_IsMessageLegacyFormat r) err)))"

definition reply_role ::
  "(u8 list \<Rightarrow> u8 list \<Rightarrow> u8 list) \<Rightarrow> (u8 list \<Rightarrow> u8 list) \<Rightarrow> IStunAuth option \<Rightarrow> TransportAddressSet option
   \<Rightarrow> StunMessageIn \<Rightarrow> CStunMessageReader \<Rightarrow> SocketRole" where
  "reply_role hmac md5 pAuth aset m r =
     (if request_code hmac md5 pAuth aset m r = 0 then the (answer_role aset m) else in_socketrole m)"

lemma ProcessRequest_reply:
  assumes wf: "request_wf allow bs as m out aset pAuth r cap"
    and cls: "Reader_GetMessageClass r = StunMsgClassRequest" and hm: "\<And>k m. length (hmac k m) = 20"
  obtains out' where "Handler_ProcessRequest hmac md5 m out (Some aset) pAuth = (S_OK, out')"
    "out_addrDest out' = answer_dest m r" "out_socketrole out' = reply_role hmac md5 pAuth (Some aset) m r"
    "out_answers out' cap (request_reply hmac md5 pAuth (Some aset) m r)"
proof -
  obtain out' where o: "Handler_ProcessRequest hmac md5 m out (Some aset) pAuth = (S_OK, out')"
    "out_addrDest out' = answer_dest m r"
    "request_code hmac md5 pAuth (Some aset) m r = 0 \<longrightarrow>
      answer_role (Some aset) m = Some (out_socketrole out') \<and>
      out_answers out' cap (msg_bytes success_field (Reader_GetTransactionId r)
        (with_integrity hmac success_field (Reader_GetTransactionId r) (auth_key md5 pAuth r)
          (success_attrs (Some aset) m r (out_socketrole out'))))"
    "request_code hmac md5 pAuth (Some aset) m r \<noteq> 0 \<longrightarrow>
      out_socketrole out' = in_socketrole m \<and>
      (\<exists>err. err = request_error hmac md5 pAuth (Some aset) m r \<and>
        out_answers out' cap (msg_bytes (error_field err) (Reader_GetTransactionId r)
          (error_attrs (Reader_IsMessageLegacyFormat r) err)))"
    by (rule ProcessRequest_answer [where hmac = hmac and ?md5.0 = md5, OF wf cls hm]) blast
  show ?thesis
  proof (rule that [OF o(1,2)])
    show "out_socketrole out' = reply_role hmac md5 pAuth (Some aset) m r"
      using o(3,4) by (simp add: reply_role_def)
    show "out_answers out' cap (request_reply hmac md5 pAuth (Some aset) m r)"
      using o(3,4) by (simp add: request_reply_def Let_def split: if_splits)
  qed
qed

section \<open>The reader's history\<close>

text \<open>Two readers that have validated the same bytes.\<close>

definition readers_agree :: "CStunMessageReader \<Rightarrow> CStunMessageReader \<Rightarrow> bool" where
  "readers_agree r r' \<longleftrightarrow> (\<exists>allow bs as. rd_valid allow bs as r \<and> rd_valid allow bs as r')"

lemma readers_agree_access:
  assumes "readers_agree r r'"
  shows "Reader_GetState r' = Reader_GetState r" "Reader_GetMessageClass r' = Reader_GetMessageClass r"
    "Reader_GetMessageType r' = Reader_GetMessageType r" "Reader_GetTransactionId r' = Reader_GetTransactionId r"
    "Reader_IsMessageLegacyFormat r' = Reader_IsMessageLegacyFormat r"
    "Reader_GetResponsePort p r' = Reader_GetResponsePort p r" "Reader_GetChangeRequest r' = Reader_GetChangeRequest r"
    "Reader_GetPaddingAttributeSize r' = Reader_GetPaddingAttributeSize r"
    "Reader_GetStringAttributeByType t dst r' = Reader_GetStringAttributeByType t dst r"
    "Reader_HasMessageIntegrityAttribute r' = Reader_HasMessageIntegrityAttribute r"
    "SUCCEEDED (Reader_ValidateMessageIntegrity hmac key r') = SUCCEEDED (Reader_ValidateMessageIntegrity hmac key r)"
proof -
  obtain allow bs as where v: "rd_valid allow bs as r" "rd_valid allow bs as r'"
    using assms by (auto simp: readers_agree_def)
  note d = rd_validD [OF v(1)] and d' = rd_validD [OF v(2)]
  note h = rd_head_fields [OF d(3)] and h' = rd_head_fields [OF d'(3)]
  show "Reader_GetState r' = Reader_GetState r" using d d' by (simp add: Reader_GetState_def)
  show "Reader_GetMessageClass r' = Reader_GetMessageClass r" "Reader_GetMessageType r' = Reader_GetMessageType r"
    "Reader_GetTransactionId r' = Reader_GetTransactionId r" "Reader_IsMessageLegacyFormat r' = Reader_IsMessageLegacyFormat r"
    using h h' by (simp_all add: Reader_GetMessageClass_def Reader_GetMessageType_def Reader_GetTransactionId_def
        Reader_IsMessageLegacyFormat_def)
  show "Reader_GetResponsePort p r' = Reader_GetResponsePort p r"
    by (simp only: GetResponsePort_valid [OF v(1)] GetResponsePort_valid [OF v(2)])
  show "Reader_GetChangeRequest r' = Reader_GetChangeRequest r"
    by (simp only: GetChangeRequest_valid [OF v(1)] GetChangeRequest_valid [OF v(2)])
  show "Reader_GetPaddingAttributeSize r' = Reader_GetPaddingAttributeSize r"
    by (simp only: Reader_GetPaddingAttributeSize_def d(10) d'(10))
  show "Reader_GetStringAttributeByType t dst r' = Reader_GetStringAttributeByType t dst r"
    by (simp only: GetStringAttribute_valid [OF v(1)] GetStringAttribute_valid [OF v(2)])
  show "Reader_HasMessageIntegrityAttribute r' = Reader_HasMessageIntegrityAttribute r"
    by (simp only: Reader_HasMessageIntegrityAttribute_def d(10) d'(10))
  show "SUCCEEDED (Reader_ValidateMessageIntegrity hmac key r') = SUCCEEDED (Reader_ValidateMessageIntegrity hmac key r)"
  proof -
    have "SUCCEEDED (Reader_ValidateMessageIntegrity hmac key q) \<longleftrightarrow> Reader_ValidateMessageIntegrity hmac key q = S_OK" for q
      using validate_result [of hmac key q] by auto
    then show ?thesis
      using ValidateMessageIntegrity_iff [OF v(1), of hmac key] ValidateMessageIntegrity_iff [OF v(2), of hmac key] by simp
  qed
qed

lemma readers_agree_pointer:
  assumes "readers_agree r r'"
  shows "DS_GetDataPointerUnsafe (rd_stream r) \<noteq> None" "DS_GetDataPointerUnsafe (rd_stream r') \<noteq> None"
    "rd_state r = BodyValidated" "rd_state r' = BodyValidated"
proof -
  obtain allow bs as where v: "rd_valid allow bs as r" "rd_valid allow bs as r'"
    using assms by (auto simp: readers_agree_def)
  show "DS_GetDataPointerUnsafe (rd_stream r) \<noteq> None" by (rule rd_valid_pointer [OF v(1)]) simp
  show "DS_GetDataPointerUnsafe (rd_stream r') \<noteq> None" by (rule rd_valid_pointer [OF v(2)]) simp
  show "rd_state r = BodyValidated" "rd_state r' = BodyValidated" using rd_validD(1) v by blast+
qed

text \<open>What the handler makes of the request is the same for both.\<close>

lemma readers_agree_auth:
  assumes "readers_agree r r'"
  shows "auth_call p r' = auth_call p r" "auth_code hmac md5 pAuth r' = auth_code hmac md5 pAuth r"
    "auth_key md5 pAuth r' = auth_key md5 pAuth r" "auth_string f code pAuth r' = auth_string f code pAuth r"
    "response_port r' = response_port r" "has_padding r' = has_padding r"
proof -
  note a = readers_agree_access [OF assms] and b = readers_agree_pointer [OF assms]
  show c: "auth_call p r' = auth_call p r" for p
    by (simp add: auth_call_def Handler_ReadAuthAttributes_def a Let_def)
  have "auth_integrity_ok hmac md5 x y r' = auth_integrity_ok hmac md5 x y r" for x y
    using b by (auto simp: auth_integrity_ok_def Reader_ValidateMessageIntegrityLong_def Reader_ValidateMessageIntegrityShort_def a Let_def)
  then show "auth_code hmac md5 pAuth r' = auth_code hmac md5 pAuth r" by (simp only: auth_code_def c)
  show "auth_key md5 pAuth r' = auth_key md5 pAuth r" "auth_string f code pAuth r' = auth_string f code pAuth r"
    by (simp_all only: auth_key_def auth_string_def c)
  show "response_port r' = response_port r" "has_padding r' = has_padding r"
    by (simp_all add: response_port_def has_padding_def a)
qed

text \<open>The same message in, with another reader behind the pointer.\<close>

definition with_reader :: "CStunMessageReader \<Rightarrow> StunMessageIn \<Rightarrow> StunMessageIn" where
  "with_reader r m = m\<lparr>in_pReader := Some r\<rparr>"

lemma with_reader_simps [simp]:
  "in_pReader (with_reader r m) = Some r" "in_socketrole (with_reader r m) = in_socketrole m"
  "in_addrLocal (with_reader r m) = in_addrLocal m" "in_addrRemote (with_reader r m) = in_addrRemote m"
  "in_fConnectionOriented (with_reader r m) = in_fConnectionOriented m"
  by (simp_all add: with_reader_def)

lemma readers_agree_role:
  assumes "readers_agree r r'"
  shows "answer_role aset (with_reader r' m) = answer_role aset (with_reader r m)"
  by (simp add: answer_role_def Handler_ChangeRole_def h_reader_def Handler_HasAddress_def Handler_new_def
      readers_agree_access [OF assms] Let_def case_prod_beta cong: if_cong)

lemma readers_agree_attrs:
  assumes "readers_agree r r'"
  shows "success_attrs aset (with_reader r' m) r' role = success_attrs aset (with_reader r m) r role"
  by (simp add: success_attrs_def binding_attrs_def Handler_OtherAddress_def Handler_OriginAddress_def Handler_HasAddress_def
      Handler_IsIPAddressZeroOrInvalid_def Handler_new_def readers_agree_access [OF assms] Let_def
      cong: if_cong option.case_cong)

theorem reply_function:
  assumes "readers_agree r r'"
  shows "request_code hmac md5 pAuth aset (with_reader r' m) r' = request_code hmac md5 pAuth aset (with_reader r m) r"
    "request_reply hmac md5 pAuth aset (with_reader r' m) r' = request_reply hmac md5 pAuth aset (with_reader r m) r"
    "reply_role hmac md5 pAuth aset (with_reader r' m) r' = reply_role hmac md5 pAuth aset (with_reader r m) r"
    "answer_dest (with_reader r' m) r' = answer_dest (with_reader r m) r"
proof -
  note a = readers_agree_access [OF assms] and u = readers_agree_auth [OF assms]
  show c: "request_code hmac md5 pAuth aset (with_reader r' m) r' = request_code hmac md5 pAuth aset (with_reader r m) r"
    by (simp add: request_code_def a u readers_agree_role [OF assms])
  show "reply_role hmac md5 pAuth aset (with_reader r' m) r' = reply_role hmac md5 pAuth aset (with_reader r m) r"
    by (simp add: reply_role_def c readers_agree_role [OF assms])
  show "answer_dest (with_reader r' m) r' = answer_dest (with_reader r m) r"
    by (simp add: answer_dest_def u)
  have "request_error hmac md5 pAuth aset (with_reader r' m) r' = request_error hmac md5 pAuth aset (with_reader r m) r"
    by (simp add: request_error_def c a u Let_def)
  then show "request_reply hmac md5 pAuth aset (with_reader r' m) r' = request_reply hmac md5 pAuth aset (with_reader r m) r"
    by (simp add: request_reply_def c a u readers_agree_role [OF assms] readers_agree_attrs [OF assms] Let_def)
qed

end
