(* ===== verification/UdpThread.thy ===== *)
theory UdpThread
  imports StunSocket MessageHandler RateLimiter
begin

text \<open>
  The receiving threads of the UDP server (\<^verbatim>\<open>server/stunsocketthread.cpp\<close>) and the receive call they
  use (\<^verbatim>\<open>networkutils/recvfromex.cpp\<close>). What the system answers in one turn of the loop is the record
  \<open>udp_env\<close>. The array of sockets belongs to the server and is an argument of the operations. The member
  \<open>ut_sent\<close> records the datagrams handed to \<^verbatim>\<open>sendto\<close>. Logging is left out.
\<close>

subsection \<open>Receiving with the destination address\<close>

text \<open>
  A control message of level \<^verbatim>\<open>IPPROTO_IP\<close> and type \<^verbatim>\<open>IP_PKTINFO\<close>, or of level \<^verbatim>\<open>IPPROTO_IPV6\<close> and type
  \<^verbatim>\<open>IPV6_PKTINFO\<close>, has the address the datagram was sent to.
\<close>

record cmsghdr =
  cmsg_level :: int
  cmsg_type :: int
  cmsg_addr :: "u8 list"

datatype recvmsg_result = Datagram "u8 list" CSocketAddress "cmsghdr list" | RecvMsgError

text \<open>A zeroed \<^verbatim>\<open>sockaddr_in\<close> with the family and address filled in.\<close>

definition sockaddr_in :: "u8 list \<Rightarrow> CSocketAddress" where
  "sockaddr_in ip = CSocketAddress_CommonConstructor (CSocketAddress_zero\<lparr>sa_addr4 := ip\<rparr>)"

definition InitSocketAddress :: "u16 \<Rightarrow> CSocketAddress \<Rightarrow> CSocketAddress" where
  "InitSocketAddress family pAddr =
     (if family = AF_INET then sockaddr_in (replicate 4 0)
      else if family = AF_INET6 then CSocketAddress_ip6 0 (replicate 16 0)
      else pAddr)"

fun recvfromex_loop :: "cmsghdr list \<Rightarrow> CSocketAddress \<Rightarrow> CSocketAddress" where
  "recvfromex_loop [] pDstAddr = pDstAddr"
| "recvfromex_loop (pCmsg # cmsgs) pDstAddr =
     (if cmsg_level pCmsg = IPPROTO_IPV6 \<and> cmsg_type pCmsg = IPV6_PKTINFO
      then CSocketAddress_ip6 0 (cmsg_addr pCmsg)
      else if cmsg_level pCmsg = IPPROTO_IP \<and> cmsg_type pCmsg = IP_PKTINFO
      then sockaddr_in (cmsg_addr pCmsg)
      else recvfromex_loop cmsgs pDstAddr)"

text \<open>The result, the bytes written to the buffer of the given length and the two addresses.\<close>

definition recvfromex ::
  "recvmsg_result \<Rightarrow> nat \<Rightarrow> CSocketAddress \<Rightarrow> CSocketAddress \<Rightarrow> int \<times> u8 list \<times> CSocketAddress \<times> CSocketAddress" where
  "recvfromex res len pSrcAddr pDstAddr =
     (case res of
        RecvMsgError \<Rightarrow> (-1, [], pSrcAddr, pDstAddr)
      | Datagram d name cmsgs \<Rightarrow>
          (let buf = take len d; ret = int (length buf)
           in if ret > 0
              then (ret, buf, CSocketAddress_CommonConstructor name,
                    recvfromex_loop cmsgs (InitSocketAddress (sa_family name) pDstAddr))
              else (ret, buf, pSrcAddr, pDstAddr)))"

subsection \<open>The state\<close>

text \<open>
  \<^verbatim>\<open>_arrSendSockets\<close> is either null or the server's array, \<^verbatim>\<open>_socks\<close> holds indices of that array.
  \<^verbatim>\<open>_msgIn.pReader\<close> is null or points to \<^verbatim>\<open>_reader\<close>; \<^verbatim>\<open>_msgOut.spBufferOut\<close> is the buffer \<^verbatim>\<open>_spBufferOut\<close>.
\<close>

record CStunSocketThread =
  ut_arrSendSockets :: bool
  ut_socks :: "nat list"
  ut_fNeedToExit :: bool
  ut_fThreadIsValid :: bool
  ut_rotation :: nat
  ut_tsa :: TransportAddressSet
  ut_spAuth :: "IStunAuth option"
  ut_reader :: CStunMessageReader
  ut_spBufferReader :: "CBuffer option"
  ut_spBufferIn :: "CBuffer option"
  ut_spBufferOut :: "CBuffer option"
  ut_msgIn :: StunMessageIn
  ut_msgOut :: StunMessageOut
  ut_spLimiter :: "RateLimiter option"
  ut_sent :: "(int \<times> u8 list \<times> CSocketAddress) list"

record udp_env =
  ue_select :: "int \<Rightarrow> bool"
  ue_exitWait :: bool
  ue_recv :: recvmsg_result
  ue_time :: int
  ue_exitReceive :: bool

definition UdpThread_ClearSocketArray :: "CStunSocketThread \<Rightarrow> CStunSocketThread" where
  "UdpThread_ClearSocketArray th = th\<lparr>ut_arrSendSockets := False, ut_socks := []\<rparr>"

definition UdpThread_new :: CStunSocketThread where
  "UdpThread_new = UdpThread_ClearSocketArray
     \<lparr>ut_arrSendSockets = False, ut_socks = [], ut_fNeedToExit = False, ut_fThreadIsValid = False, ut_rotation = 0,
      ut_tsa = replicate 4 \<lparr>ta_addr = CSocketAddress_zero, ta_fValid = False\<rparr>, ut_spAuth = None, ut_reader = Reader_new,
      ut_spBufferReader = None, ut_spBufferIn = None, ut_spBufferOut = None,
      ut_msgIn = \<lparr>in_socketrole = 0, in_addrLocal = CSocketAddress_zero, in_addrRemote = CSocketAddress_zero,
        in_pReader = None, in_fConnectionOriented = False\<rparr>,
      ut_msgOut = \<lparr>out_socketrole = 0, out_addrDest = CSocketAddress_zero, out_spBufferOut = None\<rparr>,
      ut_spLimiter = None, ut_sent = []\<rparr>"

subsection \<open>Setting up\<close>

definition UdpThread_InitThreadBuffers :: "CStunSocketThread \<Rightarrow> HRESULT \<times> CStunSocketThread" where
  "UdpThread_InitThreadBuffers th =
     (let th = th\<lparr>ut_reader := Reader_Reset (ut_reader th)\<rparr>;
          th = th\<lparr>ut_spBufferReader := Some (CBuffer_alloc MAX_STUN_MESSAGE_SIZE)\<rparr>;
          th = th\<lparr>ut_spBufferIn := Some (CBuffer_alloc MAX_STUN_MESSAGE_SIZE)\<rparr>;
          th = th\<lparr>ut_spBufferOut := Some (CBuffer_alloc MAX_STUN_MESSAGE_SIZE)\<rparr>;
          th = th\<lparr>ut_reader := (ut_reader th)\<lparr>rd_stream := DS_Attach (ut_spBufferReader th) True (rd_stream (ut_reader th))\<rparr>\<rparr>;
          th = th\<lparr>ut_msgIn := (ut_msgIn th)\<lparr>in_fConnectionOriented := False\<rparr>\<rparr>;
          th = th\<lparr>ut_msgIn := (ut_msgIn th)\<lparr>in_pReader := Some (ut_reader th)\<rparr>\<rparr>
      in (S_OK, th\<lparr>ut_msgOut := (ut_msgOut th)\<lparr>out_spBufferOut := ut_spBufferOut th\<rparr>\<rparr>))"

definition UdpThread_UninitThreadBuffers :: "CStunSocketThread \<Rightarrow> CStunSocketThread" where
  "UdpThread_UninitThreadBuffers th =
     (let th = th\<lparr>ut_reader := Reader_Reset (ut_reader th)\<rparr>;
          th = th\<lparr>ut_spBufferReader := None\<rparr>;
          th = th\<lparr>ut_spBufferIn := None\<rparr>;
          th = th\<lparr>ut_spBufferOut := None\<rparr>;
          th = th\<lparr>ut_msgIn := (ut_msgIn th)\<lparr>in_pReader := None\<rparr>\<rparr>
      in th\<lparr>ut_msgOut := (ut_msgOut th)\<lparr>out_spBufferOut := None\<rparr>\<rparr>)"

definition UdpThread_Init ::
  "CStunSocket list option \<Rightarrow> TransportAddressSet option \<Rightarrow> IStunAuth option \<Rightarrow> SocketRole \<Rightarrow> RateLimiter option
   \<Rightarrow> CStunSocketThread \<Rightarrow> HRESULT \<times> CStunSocketThread" where
  "UdpThread_Init arrayOfFourSockets pTSA pAuth rolePrimaryRecv spLimiter th =
     (let fSingleSocketRecv = IsValidSocketRole rolePrimaryRecv
      in if ut_fThreadIsValid th then (E_UNEXPECTED, th)
         else
           (case arrayOfFourSockets of
              None \<Rightarrow> (E_INVALIDARG, th)
            | Some arr \<Rightarrow>
                (case pTSA of
                   None \<Rightarrow> (E_INVALIDARG, th)
                 | Some tsa \<Rightarrow>
                     if fSingleSocketRecv \<and> StunSocket_IsValid (arr ! unat rolePrimaryRecv) = False then (E_UNEXPECTED, th)
                     else
                       (let th = th\<lparr>ut_arrSendSockets := True\<rparr>;
                            th = th\<lparr>ut_tsa := tsa\<rparr>;
                            th = (if fSingleSocketRecv then th\<lparr>ut_socks := ut_socks th @ [unat rolePrimaryRecv]\<rparr>
                                  else th\<lparr>ut_socks := ut_socks th @ filter (\<lambda>i. StunSocket_IsValid (arr ! i)) [0..<4]\<rparr>)
                        in Chk (UdpThread_InitThreadBuffers th) (\<lambda>hr th.
                             (let th = th\<lparr>ut_fNeedToExit := False\<rparr>;
                                  th = th\<lparr>ut_rotation := 0\<rparr>;
                                  th = th\<lparr>ut_spAuth := pAuth\<rparr>
                              in (hr, th\<lparr>ut_spLimiter := spLimiter\<rparr>)))))))"

subsection \<open>Starting and stopping\<close>

definition UdpThread_Start :: "int \<Rightarrow> CStunSocketThread \<Rightarrow> HRESULT \<times> CStunSocketThread" where
  "UdpThread_Start pthread_ret th =
     (if ut_fThreadIsValid th then (E_UNEXPECTED, th)
      else if length (ut_socks th) \<le> 0 then (E_FAIL, th)
      else if pthread_ret \<noteq> 0 then (ERRNO_TO_HRESULT pthread_ret, th)
      else (S_OK, th\<lparr>ut_fThreadIsValid := True\<rparr>))"

text \<open>A socket that is bound to no address is woken up through the loopback address.\<close>

definition UdpThread_WakeUp :: "CStunSocket \<Rightarrow> int \<times> u8 list \<times> CSocketAddress" where
  "UdpThread_WakeUp sock =
     (let addr = StunSocket_GetLocalAddress sock;
          addr = (if CSocketAddress_IsIPAddressZero addr
                  then (let addrLocal = snd (CSocketAddress_GetLocalHost (CSocketAddress_GetFamily addr) CSocketAddress_zero)
                        in CSocketAddress_SetPort (CSocketAddress_GetPort addr) addrLocal)
                  else addr)
      in (StunSocket_GetSocketHandle sock, [0x78], addr))"

definition UdpThread_SignalForStop :: "CStunSocket list \<Rightarrow> bool \<Rightarrow> CStunSocketThread \<Rightarrow> HRESULT \<times> CStunSocketThread" where
  "UdpThread_SignalForStop arr fPostMessages th =
     (let th = th\<lparr>ut_fNeedToExit := True\<rparr>
      in (S_OK, if fPostMessages then th\<lparr>ut_sent := ut_sent th @ map (\<lambda>i. UdpThread_WakeUp (arr ! i)) (ut_socks th)\<rparr>
                else th))"

text \<open>The thread's function has ended when \<^verbatim>\<open>pthread_join\<close> returns.\<close>

definition UdpThread_WaitForStopAndClose :: "CStunSocketThread \<Rightarrow> HRESULT \<times> CStunSocketThread" where
  "UdpThread_WaitForStopAndClose th =
     (let th = th\<lparr>ut_fThreadIsValid := False\<rparr>;
          th = UdpThread_ClearSocketArray th
      in (S_OK, UdpThread_UninitThreadBuffers th))"

subsection \<open>The loop\<close>

text \<open>\<^verbatim>\<open>select\<close> leaves the ready sockets in the set; the rotation decides which of them is served.\<close>

definition UdpThread_WaitForSocketData ::
  "(int \<Rightarrow> bool) \<Rightarrow> CStunSocket list \<Rightarrow> CStunSocketThread \<Rightarrow> nat option \<times> CStunSocketThread" where
  "UdpThread_WaitForSocketData fd_isset arr th =
     (let nSocketCount = length (ut_socks th);
          th = th\<lparr>ut_rotation := (ut_rotation th + 1) mod nSocketCount\<rparr>;
          converted = (\<lambda>index. ut_socks th ! ((index + ut_rotation th) mod nSocketCount))
      in (map_option converted
            (find (\<lambda>index. fd_isset (StunSocket_GetSocketHandle (arr ! converted index))) [0..<nSocketCount]), th))"

text \<open>
  The request in \<^verbatim>\<open>_spBufferIn\<close> is parsed and answered. The stream of the reader writes into
  \<^verbatim>\<open>_spBufferReader\<close>, the handler into \<^verbatim>\<open>_spBufferOut\<close>.
\<close>

definition UdpThread_ProcessRequestAndSendResponse ::
  "(u8 list \<Rightarrow> u8 list \<Rightarrow> u8 list) \<Rightarrow> (u8 list \<Rightarrow> u8 list) \<Rightarrow> CStunSocket list \<Rightarrow> CStunSocketThread
   \<Rightarrow> HRESULT \<times> CStunSocketThread" where
  "UdpThread_ProcessRequestAndSendResponse hmac md5 arr th =
     (let th = th\<lparr>ut_reader := Reader_Reset (ut_reader th)\<rparr>;
          th = th\<lparr>ut_spBufferReader := map_option (\<lambda>b. snd (CBuffer_SetSize 0 b)) (ut_spBufferReader th)\<rparr>;
          r = (ut_reader th)\<lparr>rd_stream := DS_Attach (ut_spBufferReader th) True (rd_stream (ut_reader th))\<rparr>;
          (state, r) = Reader_AddBytes (buf_bytes (the (ut_spBufferIn th))) r;
          th = th\<lparr>ut_reader := r, ut_spBufferReader := ds_attached_view (rd_stream r)\<rparr>
      in if Reader_GetState (ut_reader th) \<noteq> BodyValidated then (E_FAIL, th)
         else
           (let msgIn = (ut_msgIn th)\<lparr>in_pReader := map_option (\<lambda>_. ut_reader th) (in_pReader (ut_msgIn th))\<rparr>;
                (hr, msgOut) = Handler_ProcessRequest hmac md5 msgIn (ut_msgOut th) (Some (ut_tsa th)) (ut_spAuth th);
                th = th\<lparr>ut_msgOut := msgOut, ut_spBufferOut := out_spBufferOut msgOut\<rparr>
            in if FAILED hr then (hr, th)
               else
                 (let sockout = StunSocket_GetSocketHandle (arr ! unat (out_socketrole (ut_msgOut th)))
                  in (hr, th\<lparr>ut_sent := ut_sent th @
                       [(sockout, buf_bytes (the (ut_spBufferOut th)), out_addrDest (ut_msgOut th))]\<rparr>))))"

definition UdpThread_RateCheck :: "int \<Rightarrow> CStunSocketThread \<Rightarrow> bool \<times> CStunSocketThread" where
  "UdpThread_RateCheck timeNow th =
     (case ut_spLimiter th of
        None \<Rightarrow> (True, th)
      | Some rl \<Rightarrow> (case RateLimiter_RateCheck timeNow (in_addrRemote (ut_msgIn th)) rl of
                       (allowed, rl) \<Rightarrow> (allowed, th\<lparr>ut_spLimiter := Some rl\<rparr>)))"

text \<open>The part of a turn after the socket is known; the first component tells whether the loop is left.\<close>

definition UdpThread_Receive ::
  "(u8 list \<Rightarrow> u8 list \<Rightarrow> u8 list) \<Rightarrow> (u8 list \<Rightarrow> u8 list) \<Rightarrow> CStunSocket list \<Rightarrow> udp_env \<Rightarrow> nat
   \<Rightarrow> CStunSocketThread \<Rightarrow> bool \<times> CStunSocketThread" where
  "UdpThread_Receive hmac md5 arr env pSocket th =
     (let b = snd (CBuffer_SetSize 0 (the (ut_spBufferIn th)));
          (ret, d, addrRemote, addrLocal) =
            recvfromex (ue_recv env) (CBuffer_GetAllocatedSize b) (in_addrRemote (ut_msgIn th)) (in_addrLocal (ut_msgIn th));
          th = th\<lparr>ut_spBufferIn := Some (b\<lparr>b_data := map_option (poke 0 d) (b_data b)\<rparr>)\<rparr>;
          th = th\<lparr>ut_msgIn := (ut_msgIn th)\<lparr>in_addrRemote := addrRemote, in_addrLocal := addrLocal\<rparr>\<rparr>;
          th = (if ret \<ge> 0
                then th\<lparr>ut_msgIn := (ut_msgIn th)\<lparr>in_addrLocal := CSocketAddress_SetPort
                       (CSocketAddress_GetPort (StunSocket_GetLocalAddress (arr ! pSocket))) (in_addrLocal (ut_msgIn th))\<rparr>\<rparr>
                else th);
          (allowed_to_pass, th) = UdpThread_RateCheck (ue_time env) th
      in if ret < 0 \<or> allowed_to_pass = False then (False, th)
         else
           (let th = th\<lparr>ut_fNeedToExit := ut_fNeedToExit th \<or> ue_exitReceive env\<rparr>
            in if ut_fNeedToExit th then (True, th)
               else
                 (let th = th\<lparr>ut_spBufferIn := map_option (\<lambda>b. snd (CBuffer_SetSize (nat ret) b)) (ut_spBufferIn th)\<rparr>;
                      th = th\<lparr>ut_msgIn := (ut_msgIn th)\<lparr>in_socketrole := StunSocket_GetRole (arr ! pSocket)\<rparr>\<rparr>
                  in (False, snd (UdpThread_ProcessRequestAndSendResponse hmac md5 arr th)))))"

definition UdpThread_Run_step ::
  "(u8 list \<Rightarrow> u8 list \<Rightarrow> u8 list) \<Rightarrow> (u8 list \<Rightarrow> u8 list) \<Rightarrow> CStunSocket list \<Rightarrow> udp_env
   \<Rightarrow> CStunSocketThread \<Rightarrow> bool \<times> CStunSocketThread" where
  "UdpThread_Run_step hmac md5 arr env th =
     (let fMultiSocketMode = (length (ut_socks th) > 1)
      in if fMultiSocketMode
         then
           (let (pSocket, th) = UdpThread_WaitForSocketData (ue_select env) arr th;
                th = th\<lparr>ut_fNeedToExit := ut_fNeedToExit th \<or> ue_exitWait env\<rparr>
            in if ut_fNeedToExit th then (True, th)
               else (case pSocket of
                       None \<Rightarrow> (False, th)
                     | Some i \<Rightarrow> UdpThread_Receive hmac md5 arr env i th))
         else UdpThread_Receive hmac md5 arr env (ut_socks th ! 0) th)"

text \<open>The state after the given turns, unless the loop is left before.\<close>

fun UdpThread_Run ::
  "(u8 list \<Rightarrow> u8 list \<Rightarrow> u8 list) \<Rightarrow> (u8 list \<Rightarrow> u8 list) \<Rightarrow> CStunSocket list \<Rightarrow> udp_env list
   \<Rightarrow> CStunSocketThread \<Rightarrow> CStunSocketThread" where
  "UdpThread_Run hmac md5 arr [] th = th"
| "UdpThread_Run hmac md5 arr (env # envs) th =
     (if ut_fNeedToExit th then th
      else (case UdpThread_Run_step hmac md5 arr env th of
              (True, th) \<Rightarrow> th
            | (False, th) \<Rightarrow> UdpThread_Run hmac md5 arr envs th))"

end
