(* ===== verification/ReaderBuffer.thy ===== *)
theory ReaderBuffer
  imports CodecTheorems
begin

text \<open>
  The buffer a reader's stream is attached to, as its owner sees it: whatever the reader is fed, the
  buffer stays well-formed, so that the owner can attach the reader to it again.
\<close>

definition stream_owned :: "CDataStream \<Rightarrow> bool" where
  "stream_owned s \<longleftrightarrow> (\<exists>b. ds_buffer s = Some b \<and> buf_wf b) \<and> (\<forall>b \<in> set (ds_released s). buf_wf b)"

lemma stream_owned_pos [simp]: "stream_owned (s\<lparr>ds_pos := n\<rparr>) = stream_owned s"
  by (simp add: stream_owned_def)

lemma stream_owned_view:
  assumes "stream_owned s"
  obtains b where "ds_attached_view s = Some b" "buf_wf b"
  using assms by (cases "ds_released s = []") (auto simp: stream_owned_def ds_attached_view_def)

lemma stream_owned_attach: "buf_wf b \<Longrightarrow> stream_owned (DS_Attach (Some b) True s)"
  by (auto simp: stream_owned_def DS_Attach_def DS_Reset_def CBuffer_SetSize_def buf_wf_def Let_def split: option.splits)

subsection \<open>The stream's operations\<close>

lemma DS_Grow_owned:
  assumes "stream_owned s"
  shows "stream_owned (snd (DS_Grow n s))" "SUCCEEDED (fst (DS_Grow n s)) \<Longrightarrow> n \<le> ds_capacity (snd (DS_Grow n s))"
proof -
  obtain b m where b: "ds_buffer s = Some b" "buf_wf b" "b_data b = Some m" "b_size b \<le> b_allocated b" "b_allocated b \<le> length m"
    using assms by (auto simp: stream_owned_def buf_wf_def split: option.splits)
  have "stream_owned (snd (DS_Grow n s)) \<and> (SUCCEEDED (fst (DS_Grow n s)) \<longrightarrow> n \<le> ds_capacity (snd (DS_Grow n s)))"
    using assms b
    by (auto simp: DS_Grow_def Let_def ds_defs CBuffer_IsValid_def CBuffer_SetSize_def stream_owned_def poke_def)
  then show "stream_owned (snd (DS_Grow n s))" "SUCCEEDED (fst (DS_Grow n s)) \<Longrightarrow> n \<le> ds_capacity (snd (DS_Grow n s))"
    by blast+
qed

lemma DS_Write_owned:
  assumes "stream_owned s"
  shows "stream_owned (snd (DS_Write d s))"
proof -
  obtain hr t where g: "DS_Grow (length d + ds_pos s) s = (hr, t)" by (metis surj_pair)
  note o = DS_Grow_owned [OF assms, of "length d + ds_pos s", unfolded g snd_conv fst_conv]
  obtain b m where b: "ds_buffer t = Some b" "buf_wf b" "b_data b = Some m" "b_size b \<le> b_allocated b" "b_allocated b \<le> length m"
    using o(1) by (auto simp: stream_owned_def buf_wf_def split: option.splits)
  show ?thesis
  proof (cases "d = [] \<or> FAILED hr")
    case True
    then show ?thesis using assms o(1) by (auto simp: DS_Write_def Let_def g)
  next
    case False
    then have cap: "length d + ds_pos s \<le> b_allocated b" using o(2) b(1) by (simp add: ds_capacity_def)
    then have "length (poke (ds_pos t) d m) = length m \<or> length m \<le> length (poke (ds_pos t) d m)"
      by (auto simp: poke_def)
    then have "b_allocated b \<le> length (poke (ds_pos t) d m)" using b(5) by linarith
    then show ?thesis using False o(1) b cap
      by (auto simp: DS_Write_def Let_def g stream_owned_def CBuffer_SetSize_def buf_wf_def)
  qed
qed

lemma reads_owned [simp]:
  "stream_owned (snd (DS_SeekDirect n s)) = stream_owned s" "stream_owned (snd (DS_SeekRelative i s)) = stream_owned s"
  "stream_owned (snd (snd (DS_Read n s))) = stream_owned s" "stream_owned (snd (snd (DS_ReadUint16 s))) = stream_owned s"
  by (simp_all add: DS_SeekDirect_def DS_SeekRelative_def DS_Read_def DS_ReadUint16_def Let_def case_prod_beta)

subsection \<open>The reader's operations\<close>

abbreviation rd_owned :: "CStunMessageReader \<Rightarrow> bool" where
  "rd_owned r \<equiv> stream_owned (rd_stream r)"

lemma RecordAttribute_owned [simp]: "rd_owned (snd (Reader_RecordAttribute a r)) = rd_owned r"
  by (simp add: Reader_RecordAttribute_def Let_def case_prod_beta)

lemma ReadAttribute_owned: "rd_owned r \<Longrightarrow> rd_owned (snd (snd (Reader_ReadAttribute n r)))"
  unfolding Reader_ReadAttribute_def Let_def case_prod_beta
  by (auto intro!: snd_ChkTo [where P = "\<lambda>x. rd_owned (snd x)"])

lemma BodyLoop_owned: "rd_owned r \<Longrightarrow> rd_owned (snd (Reader_BodyLoop cs n r))"
proof (induction cs n r rule: Reader_BodyLoop.induct)
  case (1 cs n r)
  then show ?case
    using ReadAttribute_owned [of r n]
    by (subst Reader_BodyLoop.simps) (auto split: prod.splits)
qed

lemma ReadHeader_owned: "rd_owned r \<Longrightarrow> rd_owned (snd (Reader_ReadHeader r))"
  unfolding Reader_ReadHeader_def Let_def case_prod_beta
  by (auto intro!: snd_ChkTo [where P = rd_owned])

lemma ReadBody_owned: "rd_owned r \<Longrightarrow> rd_owned (snd (Reader_ReadBody r))"
  unfolding Reader_ReadBody_def Let_def case_prod_beta
  by (rule snd_ChkTo [where P = rd_owned]) (simp_all add: BodyLoop_owned)

lemma AddBytes_owned:
  assumes "rd_owned r"
  shows "rd_owned (snd (Reader_AddBytes d r))"
proof -
  have h: "rd_owned (Reader_TryHeader n r)" if "rd_owned r" for n r
    using that ReadHeader_owned [of r] by (simp add: Reader_TryHeader_def Let_def case_prod_beta)
  have b: "rd_owned (Reader_TryBody n r)" if "rd_owned r" for n r
    using that ReadBody_owned [of r] by (simp add: Reader_TryBody_def Let_def case_prod_beta)
  have c: "rd_owned (Reader_CheckExcess n r)" if "rd_owned r" for n r
    using that by (simp add: Reader_CheckExcess_def)
  have w: "rd_owned (r\<lparr>rd_stream := snd (DS_Write d s)\<rparr>)" if "stream_owned s" for s
    using DS_Write_owned [OF that] by simp
  show ?thesis using assms
    by (auto simp only: Reader_AddBytes_def Let_def case_prod_beta snd_conv reads_owned split: if_splits intro!: h b c w)
qed

subsection \<open>Using a reader again\<close>

text \<open>A reader that is reset and attached to its owner's buffer is as good as a new one.\<close>

definition reader_kept :: "CStunMessageReader \<Rightarrow> CBuffer option \<Rightarrow> bool" where
  "reader_kept r buf \<longleftrightarrow> rd_table r \<and> (\<exists>b. buf = Some b \<and> buf_wf b)"

lemma buf_wf_emptied: "buf_wf b \<Longrightarrow> buf_wf (snd (CBuffer_SetSize 0 b))"
  by (auto simp: CBuffer_SetSize_def buf_wf_def split: option.splits)

lemma reader_again:
  assumes "reader_kept r buf"
  defines "r0 \<equiv> (Reader_Reset r)\<lparr>rd_stream := DS_Attach (map_option (\<lambda>b. snd (CBuffer_SetSize 0 b)) buf) True (rd_stream (Reader_Reset r))\<rparr>"
  shows "rd_inv True d (snd (Reader_AddBytes d r0))"
    "fst (Reader_AddBytes d r0) = verdict True d"
    "reader_kept (snd (Reader_AddBytes d r0)) (ds_attached_view (rd_stream (snd (Reader_AddBytes d r0))))"
proof -
  obtain b where b: "buf = Some b" "buf_wf b" and t: "rd_table r" using assms(1) by (auto simp: reader_kept_def)
  have "rd_inv True [] (Reader_Reset r)" using Reader_Reset_inv t by (simp add: rd_table_def)
  then have i: "rd_inv True [] r0"
    using DS_Attach_write(1,2) [OF buf_wf_emptied [OF b(2)]]
    by (simp add: r0_def b(1) rd_inv_def rd_attrs_def verdict_def STUN_HEADER_SIZE_def)
  from AddBytes_inv [OF i, of d]
  show "rd_inv True d (snd (Reader_AddBytes d r0))" "fst (Reader_AddBytes d r0) = verdict True d" by simp_all
  have "rd_table r0" using t fh_Reset_inv [of FastHash_Hash_u16 "rd_mapAttributes r"]
    by (simp add: r0_def rd_table_def Reader_Reset_def)
  moreover have "rd_owned r0" using stream_owned_attach [OF buf_wf_emptied [OF b(2)]] by (simp add: r0_def b(1))
  from stream_owned_view [OF AddBytes_owned [OF this, of d]]
  obtain b' where "ds_attached_view (rd_stream (snd (Reader_AddBytes d r0))) = Some b'" "buf_wf b'" by blast
  ultimately show "reader_kept (snd (Reader_AddBytes d r0)) (ds_attached_view (rd_stream (snd (Reader_AddBytes d r0))))"
    by (simp add: reader_kept_def AddBytes_table)
qed

end
