(* ===== verification/UdpTheorems.thy ===== *)
theory UdpTheorems
  imports RequestFunction UdpThread ReaderBuffer
begin

text \<open>
  The receiving threads of the UDP server against an abstract responder. The responder answers each
  datagram with a new reader and a new buffer; what it remembers between datagrams is the rotation of
  its sockets, the rate limiter and the last sender.
\<close>

section \<open>The abstract responder\<close>

text \<open>What one datagram is answered with: nothing, or one datagram from one of the sockets.\<close>

definition udp_responder ::
  "(u8 list \<Rightarrow> u8 list \<Rightarrow> u8 list) \<Rightarrow> (u8 list \<Rightarrow> u8 list) \<Rightarrow> CStunSocket list \<Rightarrow> TransportAddressSet \<Rightarrow> IStunAuth option
   \<Rightarrow> SocketRole \<Rightarrow> CSocketAddress \<Rightarrow> CSocketAddress \<Rightarrow> u8 list \<Rightarrow> (int \<times> u8 list \<times> CSocketAddress) list" where
  "udp_responder hmac md5 arr tsa pAuth role addrRemote addrLocal d =
     (let m = \<lparr>in_socketrole = role, in_addrLocal = addrLocal, in_addrRemote = addrRemote,
                in_pReader = Some (snd (Reader_AddBytes d Reader_new)), in_fConnectionOriented = False\<rparr>;
          out = \<lparr>out_socketrole = 0, out_addrDest = CSocketAddress_zero,
                 out_spBufferOut = Some (CBuffer_alloc MAX_STUN_MESSAGE_SIZE)\<rparr>
      in case Handler_ProcessRequest hmac md5 m out (Some tsa) pAuth of
           (hr, out) \<Rightarrow>
             if FAILED hr then []
             else [(ss_sock (arr ! unat (out_socketrole out)), buf_bytes (the (out_spBufferOut out)), out_addrDest out)])"

record udp_abs =
  ua_exit :: bool
  ua_rotation :: nat
  ua_last :: CSocketAddress
  ua_limiter :: "RateLimiter option"

text \<open>The limiter is asked about the last sender, also when nothing or an empty datagram was received.\<close>

definition udp_abs_receive ::
  "(u8 list \<Rightarrow> u8 list \<Rightarrow> u8 list) \<Rightarrow> (u8 list \<Rightarrow> u8 list) \<Rightarrow> CStunSocket list \<Rightarrow> TransportAddressSet \<Rightarrow> IStunAuth option
   \<Rightarrow> udp_env \<Rightarrow> nat \<Rightarrow> udp_abs \<Rightarrow> bool \<times> (int \<times> u8 list \<times> CSocketAddress) list \<times> udp_abs" where
  "udp_abs_receive hmac md5 arr tsa pAuth env i a =
     (let sender = (case ue_recv env of Datagram d name cmsgs \<Rightarrow>
                      if d = [] then ua_last a else CSocketAddress_CommonConstructor name | RecvMsgError \<Rightarrow> ua_last a);
          (allowed, limiter) = (case ua_limiter a of None \<Rightarrow> (True, None)
              | Some rl \<Rightarrow> map_prod id Some (RateLimiter_RateCheck (ue_time env) sender rl));
          a = a\<lparr>ua_last := sender, ua_limiter := limiter\<rparr>
      in case ue_recv env of
           RecvMsgError \<Rightarrow> (False, [], a)
         | Datagram d name cmsgs \<Rightarrow>
             if \<not> allowed then (False, [], a)
             else if ua_exit a \<or> ue_exitReceive env then (True, [], a\<lparr>ua_exit := True\<rparr>)
             else (False, udp_responder hmac md5 arr tsa pAuth (ss_role (arr ! i)) sender
                     (CSocketAddress_SetPort (CSocketAddress_GetPort (ss_addrlocal (arr ! i)))
                        (recvfromex_loop cmsgs (InitSocketAddress (sa_family name) CSocketAddress_zero)))
                     (take MAX_STUN_MESSAGE_SIZE d), a))"

definition udp_abs_step ::
  "(u8 list \<Rightarrow> u8 list \<Rightarrow> u8 list) \<Rightarrow> (u8 list \<Rightarrow> u8 list) \<Rightarrow> CStunSocket list \<Rightarrow> nat list \<Rightarrow> TransportAddressSet \<Rightarrow> IStunAuth option
   \<Rightarrow> udp_env \<Rightarrow> udp_abs \<Rightarrow> bool \<times> (int \<times> u8 list \<times> CSocketAddress) list \<times> udp_abs" where
  "udp_abs_step hmac md5 arr socks tsa pAuth env a =
     (if length socks > 1
      then
        (let n = length socks; rotation = (ua_rotation a + 1) mod n;
             a = a\<lparr>ua_rotation := rotation, ua_exit := ua_exit a \<or> ue_exitWait env\<rparr>
         in if ua_exit a then (True, [], a)
            else (case find (\<lambda>i. ue_select env (ss_sock (arr ! i))) (map (\<lambda>index. socks ! ((index + rotation) mod n)) [0..<n]) of
                    None \<Rightarrow> (False, [], a)
                  | Some i \<Rightarrow> udp_abs_receive hmac md5 arr tsa pAuth env i a))
      else udp_abs_receive hmac md5 arr tsa pAuth env (socks ! 0) a)"

fun udp_abs_run ::
  "(u8 list \<Rightarrow> u8 list \<Rightarrow> u8 list) \<Rightarrow> (u8 list \<Rightarrow> u8 list) \<Rightarrow> CStunSocket list \<Rightarrow> nat list \<Rightarrow> TransportAddressSet \<Rightarrow> IStunAuth option
   \<Rightarrow> udp_env list \<Rightarrow> udp_abs \<Rightarrow> (int \<times> u8 list \<times> CSocketAddress) list \<times> udp_abs" where
  "udp_abs_run hmac md5 arr socks tsa pAuth [] a = ([], a)"
| "udp_abs_run hmac md5 arr socks tsa pAuth (env # envs) a =
     (if ua_exit a then ([], a)
      else (case udp_abs_step hmac md5 arr socks tsa pAuth env a of
              (stop, outs, a) \<Rightarrow>
                if stop then (outs, a)
                else (case udp_abs_run hmac md5 arr socks tsa pAuth envs a of (outs', a) \<Rightarrow> (outs @ outs', a))))"

section \<open>The invariant\<close>

text \<open>The server's side: sockets, addresses and provider.\<close>

definition udp_setup :: "CStunSocket list \<Rightarrow> nat list \<Rightarrow> TransportAddressSet \<Rightarrow> IStunAuth option \<Rightarrow> bool" where
  "udp_setup arr socks tsa pAuth \<longleftrightarrow>
     socks \<noteq> [] \<and> (\<forall>i \<in> set socks. IsValidSocketRole (ss_role (arr ! i))) \<and>
     length tsa = 4 \<and> (\<forall>ta \<in> set tsa. sa_wf (ta_addr ta)) \<and> (\<forall>p. pAuth = Some p \<longrightarrow> auth_wf p)"

definition udp_inv :: "nat list \<Rightarrow> TransportAddressSet \<Rightarrow> IStunAuth option \<Rightarrow> CStunSocketThread \<Rightarrow> bool" where
  "udp_inv socks tsa pAuth th \<longleftrightarrow>
     ut_socks th = socks \<and> ut_tsa th = tsa \<and> ut_spAuth th = pAuth \<and>
     sa_wf (in_addrRemote (ut_msgIn th)) \<and> sa_wf (in_addrLocal (ut_msgIn th)) \<and>
     in_pReader (ut_msgIn th) \<noteq> None \<and> \<not> in_fConnectionOriented (ut_msgIn th) \<and>
     reader_kept (ut_reader th) (ut_spBufferReader th) \<and>
     (\<exists>b. ut_spBufferIn th = Some b \<and> buf_wf b \<and> b_allocated b = MAX_STUN_MESSAGE_SIZE) \<and>
     (\<exists>b. ut_spBufferOut th = Some b \<and> buf_wf b \<and> b_allocated b = MAX_STUN_MESSAGE_SIZE) \<and>
     out_spBufferOut (ut_msgOut th) = ut_spBufferOut th"

definition udp_abs_of :: "CStunSocketThread \<Rightarrow> udp_abs" where
  "udp_abs_of th = \<lparr>ua_exit = ut_fNeedToExit th, ua_rotation = ut_rotation th, ua_last = in_addrRemote (ut_msgIn th),
     ua_limiter = ut_spLimiter th\<rparr>"

text \<open>What the system reports: socket addresses, and addresses of the right length in the control messages.\<close>

definition cmsg_ok :: "cmsghdr \<Rightarrow> bool" where
  "cmsg_ok c \<longleftrightarrow>
     (cmsg_level c = IPPROTO_IPV6 \<and> cmsg_type c = IPV6_PKTINFO \<longrightarrow> length (cmsg_addr c) = 16) \<and>
     (cmsg_level c = IPPROTO_IP \<and> cmsg_type c = IP_PKTINFO \<longrightarrow> length (cmsg_addr c) = 4)"

definition recv_ok :: "udp_env \<Rightarrow> bool" where
  "recv_ok env \<longleftrightarrow> (case ue_recv env of RecvMsgError \<Rightarrow> True
     | Datagram d name cmsgs \<Rightarrow> sa_wf name \<and> (\<forall>c \<in> set cmsgs. cmsg_ok c))"

lemma sockaddr_in_wf: "length ip = 4 \<Longrightarrow> sa_wf (sockaddr_in ip)"
  unfolding sockaddr_in_def by (rule sa_wf_constructors(5)) (simp add: sa_wf_def CSocketAddress_zero_def)

lemma recvfromex_loop_wf: "(\<forall>c \<in> set cmsgs. cmsg_ok c) \<Longrightarrow> sa_wf a \<Longrightarrow> sa_wf (recvfromex_loop cmsgs a)"
  by (induction cmsgs) (auto simp: cmsg_ok_def sockaddr_in_wf IPPROTO_IPV6_def IPPROTO_IP_def)

lemma InitSocketAddress_wf: "sa_wf name \<Longrightarrow> sa_wf (InitSocketAddress (sa_family name) a)"
  by (auto simp: InitSocketAddress_def sockaddr_in_wf sa_wf_def [of name])

lemma InitSocketAddress_any: "sa_wf name \<Longrightarrow> InitSocketAddress (sa_family name) a = InitSocketAddress (sa_family name) b"
  by (auto simp: InitSocketAddress_def sa_wf_def)

section \<open>Answering a datagram\<close>

lemma ProcessRequest_unread:
  "in_pReader m = Some r \<Longrightarrow> Reader_GetState r \<noteq> BodyValidated \<Longrightarrow> FAILED (fst (Handler_ProcessRequest hmac md5 m out aset pAuth))"
  by (auto simp: Handler_ProcessRequest_def split: option.split)

text \<open>A message that is not a request is refused, after the output buffer has been emptied.\<close>

lemma ProcessRequest_no_request:
  assumes "in_pReader m = Some r" "Reader_GetMessageClass r \<noteq> StunMsgClassRequest"
  shows "FAILED (fst (Handler_ProcessRequest hmac md5 m out aset pAuth))"
    "out_spBufferOut (snd (Handler_ProcessRequest hmac md5 m out aset pAuth)) \<in>
      {out_spBufferOut out, map_option (\<lambda>b. snd (CBuffer_SetSize 0 b)) (out_spBufferOut out)}"
  using assms
  by (auto simp: Handler_ProcessRequest_def Handler_ProcessRequestImpl_def Handler_new_def h_reader_def Let_def
      split: option.split)

lemma responder_no_request:
  assumes "fst (Reader_AddBytes d Reader_new) = BodyValidated \<longrightarrow>
    Reader_GetMessageClass (snd (Reader_AddBytes d Reader_new)) \<noteq> StunMsgClassRequest"
  shows "udp_responder hmac md5 arr tsa pAuth role addrRemote addrLocal d = []"
proof -
  let ?r = "snd (Reader_AddBytes d Reader_new)"
  let ?m = "\<lparr>in_socketrole = role, in_addrLocal = addrLocal, in_addrRemote = addrRemote,
      in_pReader = Some ?r, in_fConnectionOriented = False\<rparr>"
  have s: "fst (Reader_AddBytes d Reader_new) = Reader_GetState ?r"
    using AddBytes_inv [OF Reader_new_inv, of d] by (simp add: Reader_GetState_def rd_inv_def)
  have "FAILED (fst (Handler_ProcessRequest hmac md5 ?m out (Some tsa) pAuth))" for out
  proof (cases "Reader_GetState ?r = BodyValidated")
    case True
    then show ?thesis using ProcessRequest_no_request(1) [of ?m ?r] assms s by simp
  qed (use ProcessRequest_unread [of ?m ?r] in simp)
  then show ?thesis by (simp add: udp_responder_def case_prod_beta)
qed

text \<open>The reply to a request, in terms of any reader that has validated the same bytes.\<close>

lemma responder_request:
  assumes "rd_valid True d as r" "Reader_GetMessageClass r = StunMsgClassRequest" "\<And>k m. length (hmac k m) = 20"
    "IsValidSocketRole role" "sa_wf addrRemote" "sa_wf addrLocal" "length tsa = 4" "\<forall>ta \<in> set tsa. sa_wf (ta_addr ta)"
    "\<forall>p. pAuth = Some p \<longrightarrow> auth_wf p"
    "out_spBufferOut out = Some b" "buf_wf b" "b_allocated b = MAX_STUN_MESSAGE_SIZE"
    "m = \<lparr>in_socketrole = role, in_addrLocal = addrLocal, in_addrRemote = addrRemote, in_pReader = Some r, in_fConnectionOriented = False\<rparr>"
  obtains out' b' where "Handler_ProcessRequest hmac md5 m out (Some tsa) pAuth = (S_OK, out')"
    "out_spBufferOut out' = Some b'" "buf_wf b'" "b_allocated b' = MAX_STUN_MESSAGE_SIZE"
    "udp_responder hmac md5 arr tsa pAuth role addrRemote addrLocal d =
       [(ss_sock (arr ! unat (out_socketrole out')), buf_bytes b', out_addrDest out')]"
proof -
  let ?r = "snd (Reader_AddBytes d Reader_new)"
  have i: "rd_inv True d ?r" using AddBytes_inv(2) [OF Reader_new_inv, of d] by simp
  have v: "rd_valid True d as ?r" using i assms(1) by (simp add: rd_valid_def)
  have ag: "readers_agree ?r r" using v assms(1) by (auto simp: readers_agree_def)
  have cls: "Reader_GetMessageClass ?r = StunMsgClassRequest"
    using readers_agree_access(2) [OF ag] assms(2) by simp
  let ?m = "with_reader ?r m"
  have m: "m = with_reader r m" using assms(13) by (simp add: with_reader_def)
  let ?out = "\<lparr>out_socketrole = 0, out_addrDest = CSocketAddress_zero, out_spBufferOut = Some (CBuffer_alloc MAX_STUN_MESSAGE_SIZE)\<rparr>"
  have wf: "request_wf True d as m out tsa pAuth r MAX_STUN_MESSAGE_SIZE"
    using assms by (simp add: request_wf_def)
  have wf': "request_wf True d as ?m ?out tsa pAuth ?r MAX_STUN_MESSAGE_SIZE"
    using assms v by (simp add: request_wf_def)
  obtain out1 where o1: "Handler_ProcessRequest hmac md5 m out (Some tsa) pAuth = (S_OK, out1)"
    "out_addrDest out1 = answer_dest m r" "out_socketrole out1 = reply_role hmac md5 pAuth (Some tsa) m r"
    "out_answers out1 MAX_STUN_MESSAGE_SIZE (request_reply hmac md5 pAuth (Some tsa) m r)"
    by (rule ProcessRequest_reply [where hmac = hmac and ?md5.0 = md5, OF wf assms(2,3)])
  obtain out2 where o2: "Handler_ProcessRequest hmac md5 ?m ?out (Some tsa) pAuth = (S_OK, out2)"
    "out_addrDest out2 = answer_dest ?m ?r" "out_socketrole out2 = reply_role hmac md5 pAuth (Some tsa) ?m ?r"
    "out_answers out2 MAX_STUN_MESSAGE_SIZE (request_reply hmac md5 pAuth (Some tsa) ?m ?r)"
    by (rule ProcessRequest_reply [where hmac = hmac and ?md5.0 = md5, OF wf' cls assms(3)])
  have f: "request_reply hmac md5 pAuth (Some tsa) m r = request_reply hmac md5 pAuth (Some tsa) ?m ?r"
    "reply_role hmac md5 pAuth (Some tsa) m r = reply_role hmac md5 pAuth (Some tsa) ?m ?r" "answer_dest m r = answer_dest ?m ?r"
    using reply_function(2-4) [OF ag, where m = m] unfolding m [symmetric] .
  obtain b1 b2 where b: "out_spBufferOut out1 = Some b1" "buf_wf b1" "b_allocated b1 = MAX_STUN_MESSAGE_SIZE"
    "out_spBufferOut out2 = Some b2" "buf_bytes b1 = buf_bytes b2"
    using o1(4) o2(4) f(1) by (auto simp: out_answers_def)
  have "?m = \<lparr>in_socketrole = role, in_addrLocal = addrLocal, in_addrRemote = addrRemote, in_pReader = Some ?r,
      in_fConnectionOriented = False\<rparr>" using assms(13) by (simp add: with_reader_def)
  then have "udp_responder hmac md5 arr tsa pAuth role addrRemote addrLocal d =
      [(ss_sock (arr ! unat (out_socketrole out1)), buf_bytes b1, out_addrDest out1)]"
    using o1 o2 f b by (simp add: udp_responder_def)
  with o1(1) b that show ?thesis by blast
qed

lemma ProcessRequestAndSend_ok:
  fixes md5 :: "u8 list \<Rightarrow> u8 list"
  assumes inv: "udp_inv socks tsa pAuth th" and su: "udp_setup arr socks tsa pAuth" and hm: "\<And>k m. length (hmac k m) = 20"
    and role: "IsValidSocketRole (in_socketrole (ut_msgIn th))"
  defines "th' \<equiv> snd (UdpThread_ProcessRequestAndSendResponse hmac md5 arr th)"
  shows "udp_inv socks tsa pAuth th'" "udp_abs_of th' = udp_abs_of th"
    "ut_sent th' = ut_sent th @ udp_responder hmac md5 arr tsa pAuth (in_socketrole (ut_msgIn th)) (in_addrRemote (ut_msgIn th))
       (in_addrLocal (ut_msgIn th)) (buf_bytes (the (ut_spBufferIn th)))"
proof -
  let ?d = "buf_bytes (the (ut_spBufferIn th))"
  define r0 where "r0 = (Reader_Reset (ut_reader th))\<lparr>rd_stream := DS_Attach (map_option (\<lambda>b. snd (CBuffer_SetSize 0 b))
      (ut_spBufferReader th)) True (rd_stream (Reader_Reset (ut_reader th)))\<rparr>"
  obtain st r where a: "Reader_AddBytes ?d r0 = (st, r)" by (metis surj_pair)
  note I = inv [unfolded udp_inv_def] and S = su [unfolded udp_setup_def]
  have kept: "reader_kept (ut_reader th) (ut_spBufferReader th)" using I by blast
  note rd = reader_again [OF kept, of ?d, folded r0_def, unfolded a fst_conv snd_conv]
  let ?th1 = "th\<lparr>ut_reader := r, ut_spBufferReader := ds_attached_view (rd_stream r)\<rparr>"
  have inv1: "udp_inv socks tsa pAuth ?th1" using I rd(3) by (simp add: udp_inv_def)
  have run: "UdpThread_ProcessRequestAndSendResponse hmac md5 arr th =
     (if Reader_GetState r \<noteq> BodyValidated then (E_FAIL, ?th1)
      else
        (let (hr, msgOut) = Handler_ProcessRequest hmac md5 (with_reader r (ut_msgIn th)) (ut_msgOut th) (Some tsa) pAuth;
             th = ?th1\<lparr>ut_msgOut := msgOut, ut_spBufferOut := out_spBufferOut msgOut\<rparr>
         in if FAILED hr then (hr, th)
            else (hr, th\<lparr>ut_sent := ut_sent th @ [(ss_sock (arr ! unat (out_socketrole msgOut)),
                    buf_bytes (the (out_spBufferOut msgOut)), out_addrDest msgOut)]\<rparr>)))"
  proof -
    have "\<exists>x. in_pReader (ut_msgIn th) = Some x" using I by auto
    then show ?thesis using I a
      by (auto simp: UdpThread_ProcessRequestAndSendResponse_def Let_def r0_def with_reader_def StunSocket_GetSocketHandle_def
          case_prod_beta)
  qed
  have m: "with_reader r (ut_msgIn th) = \<lparr>in_socketrole = in_socketrole (ut_msgIn th), in_addrLocal = in_addrLocal (ut_msgIn th),
      in_addrRemote = in_addrRemote (ut_msgIn th), in_pReader = Some r, in_fConnectionOriented = False\<rparr>"
    using I by (simp add: with_reader_def)
  obtain b where b: "ut_spBufferOut th = Some b" "buf_wf b" "b_allocated b = MAX_STUN_MESSAGE_SIZE" using I by blast
  have "udp_inv socks tsa pAuth th' \<and> udp_abs_of th' = udp_abs_of th \<and>
    ut_sent th' = ut_sent th @ udp_responder hmac md5 arr tsa pAuth (in_socketrole (ut_msgIn th)) (in_addrRemote (ut_msgIn th))
       (in_addrLocal (ut_msgIn th)) ?d"
  proof (cases "Reader_GetState r = BodyValidated")
    case False
    then have "st \<noteq> BodyValidated" using rd(1,2) by (simp add: Reader_GetState_def rd_inv_def)
    then have "udp_responder hmac md5 arr tsa pAuth (in_socketrole (ut_msgIn th)) (in_addrRemote (ut_msgIn th))
       (in_addrLocal (ut_msgIn th)) ?d = []"
      using AddBytes_inv(1) [OF Reader_new_inv, of ?d] rd(2) by (intro responder_no_request) simp
    then show ?thesis using False run inv1 by (simp add: th'_def udp_abs_of_def)
  next
    case True
    then obtain xs where v: "rd_valid True ?d xs r" using rd_validI [OF rd(1)] by (auto simp: Reader_GetState_def)
    have "rd_valid True ?d xs (snd (Reader_AddBytes ?d Reader_new))"
      using AddBytes_inv(2) [OF Reader_new_inv, of ?d] v by (simp add: rd_valid_def)
    then have ag: "readers_agree r (snd (Reader_AddBytes ?d Reader_new))" using v by (auto simp: readers_agree_def)
    show ?thesis
    proof (cases "Reader_GetMessageClass r = StunMsgClassRequest")
      case req: True
      have wfs: "sa_wf (in_addrRemote (ut_msgIn th))" "sa_wf (in_addrLocal (ut_msgIn th))" "length tsa = 4"
        "\<forall>ta \<in> set tsa. sa_wf (ta_addr ta)" "\<forall>p. pAuth = Some p \<longrightarrow> auth_wf p" "out_spBufferOut (ut_msgOut th) = Some b"
        using I S b(1) by simp_all
      obtain out' b' where o: "Handler_ProcessRequest hmac md5 (with_reader r (ut_msgIn th)) (ut_msgOut th) (Some tsa) pAuth = (S_OK, out')"
        "out_spBufferOut out' = Some b'" "buf_wf b'" "b_allocated b' = MAX_STUN_MESSAGE_SIZE"
        "udp_responder hmac md5 arr tsa pAuth (in_socketrole (ut_msgIn th)) (in_addrRemote (ut_msgIn th)) (in_addrLocal (ut_msgIn th)) ?d =
           [(ss_sock (arr ! unat (out_socketrole out')), buf_bytes b', out_addrDest out')]"
        by (rule responder_request [where hmac = hmac and ?md5.0 = md5 and arr = arr, OF v req hm role wfs b(2,3) m])
      then show ?thesis using True run inv1 by (simp add: th'_def udp_abs_of_def udp_inv_def)
    next
      case False
      obtain hr out' where o: "Handler_ProcessRequest hmac md5 (with_reader r (ut_msgIn th)) (ut_msgOut th) (Some tsa) pAuth = (hr, out')"
        by (metis surj_pair)
      note n = ProcessRequest_no_request [where hmac = hmac and ?md5.0 = md5 and m = "with_reader r (ut_msgIn th)" and out = "ut_msgOut th"
          and aset = "Some tsa" and pAuth = pAuth, OF with_reader_simps(1) False, unfolded o fst_conv snd_conv]
      have "\<exists>b. out_spBufferOut out' = Some b \<and> buf_wf b \<and> b_allocated b = MAX_STUN_MESSAGE_SIZE"
        using n(2) I b buf_wf_emptied [OF b(2)] by auto
      moreover have "udp_responder hmac md5 arr tsa pAuth (in_socketrole (ut_msgIn th)) (in_addrRemote (ut_msgIn th))
         (in_addrLocal (ut_msgIn th)) ?d = []"
        using readers_agree_access(2) [OF ag] False by (intro responder_no_request) simp
      ultimately show ?thesis using True run n(1) o inv1 by (simp add: th'_def udp_abs_of_def udp_inv_def)
    qed
  qed
  then show "udp_inv socks tsa pAuth th'" "udp_abs_of th' = udp_abs_of th"
    "ut_sent th' = ut_sent th @ udp_responder hmac md5 arr tsa pAuth (in_socketrole (ut_msgIn th)) (in_addrRemote (ut_msgIn th))
       (in_addrLocal (ut_msgIn th)) ?d" by blast+
qed

section \<open>Turns\<close>

text \<open>The run of a turn once the socket is known.\<close>

lemma Receive_ok:
  fixes md5 :: "u8 list \<Rightarrow> u8 list"
  assumes inv: "udp_inv socks tsa pAuth th" and su: "udp_setup arr socks tsa pAuth" and hm: "\<And>k m. length (hmac k m) = 20"
    and env: "recv_ok env" and i: "i \<in> set socks"
    and run: "UdpThread_Receive hmac md5 arr env i th = (stop, th')"
  shows "udp_inv socks tsa pAuth th'"
    "\<exists>outs. udp_abs_receive hmac md5 arr tsa pAuth env i (udp_abs_of th) = (stop, outs, udp_abs_of th') \<and>
       ut_sent th' = ut_sent th @ outs"
proof -
  note I = inv [unfolded udp_inv_def] and S = su [unfolded udp_setup_def]
  obtain b where b: "ut_spBufferIn th = Some b" "buf_wf b" "b_allocated b = MAX_STUN_MESSAGE_SIZE" using I by blast
  let ?b = "snd (CBuffer_SetSize 0 b)"
  have b0: "buf_wf ?b" "b_allocated ?b = MAX_STUN_MESSAGE_SIZE" using buf_wf_emptied [OF b(2)] b(3) by simp_all
  obtain ret d rem loc where rx: "recvfromex (ue_recv env) MAX_STUN_MESSAGE_SIZE (in_addrRemote (ut_msgIn th)) (in_addrLocal (ut_msgIn th))
      = (ret, d, rem, loc)" by (metis prod_cases4)
  let ?loc = "if ret \<ge> 0 then CSocketAddress_SetPort (CSocketAddress_GetPort (ss_addrlocal (arr ! i))) loc else loc"
  define th1 where "th1 = th\<lparr>ut_spBufferIn := Some (?b\<lparr>b_data := map_option (poke 0 d) (b_data ?b)\<rparr>),
      ut_msgIn := (ut_msgIn th)\<lparr>in_addrRemote := rem, in_addrLocal := ?loc\<rparr>\<rparr>"
  obtain allowed th2 where rc: "UdpThread_RateCheck (ue_time env) th1 = (allowed, th2)" by (metis surj_pair)
  have rcs: "\<exists>l. th2 = th1\<lparr>ut_spLimiter := l\<rparr> \<and>
      (allowed, l) = (case ut_spLimiter th of None \<Rightarrow> (True, None) | Some rl \<Rightarrow> map_prod id Some (RateLimiter_RateCheck (ue_time env) rem rl))"
    using rc by (auto simp: UdpThread_RateCheck_def th1_def split: option.splits prod.splits)
  then obtain l where l: "th2 = th1\<lparr>ut_spLimiter := l\<rparr>"
    "(case ut_spLimiter th of None \<Rightarrow> (True, None) | Some rl \<Rightarrow> map_prod id Some (RateLimiter_RateCheck (ue_time env) rem rl)) = (allowed, l)"
    by metis
  have R: "UdpThread_Receive hmac md5 arr env i th =
     (if ret < 0 \<or> allowed = False then (False, th2)
      else if ut_fNeedToExit th \<or> ue_exitReceive env then (True, th2\<lparr>ut_fNeedToExit := True\<rparr>)
      else (False, snd (UdpThread_ProcessRequestAndSendResponse hmac md5 arr
        (th2\<lparr>ut_fNeedToExit := False, ut_spBufferIn := map_option (\<lambda>b. snd (CBuffer_SetSize (nat ret) b)) (ut_spBufferIn th2),
             ut_msgIn := (ut_msgIn th2)\<lparr>in_socketrole := ss_role (arr ! i)\<rparr>\<rparr>))))"
  proof -
    have "th\<lparr>ut_spBufferIn := Some (?b\<lparr>b_data := map_option (poke 0 d) (b_data ?b)\<rparr>),
        ut_msgIn := (ut_msgIn th)\<lparr>in_addrRemote := rem, in_addrLocal := loc\<rparr>\<rparr>\<lparr>ut_msgIn := (ut_msgIn th)\<lparr>in_addrRemote := rem,
          in_addrLocal := CSocketAddress_SetPort (CSocketAddress_GetPort (ss_addrlocal (arr ! i))) loc\<rparr>\<rparr> = th1" if "ret \<ge> 0"
      using that by (simp add: th1_def)
    moreover have "th\<lparr>ut_spBufferIn := Some (?b\<lparr>b_data := map_option (poke 0 d) (b_data ?b)\<rparr>),
        ut_msgIn := (ut_msgIn th)\<lparr>in_addrRemote := rem, in_addrLocal := loc\<rparr>\<rparr> = th1" if "\<not> ret \<ge> 0"
      using that by (simp add: th1_def)
    moreover have "ut_fNeedToExit th2 = ut_fNeedToExit th" using l(1) by (simp add: th1_def)
    ultimately show ?thesis
      using b rx rc
      by (cases "ret \<ge> 0") (simp_all add: UdpThread_Receive_def Let_def CBuffer_GetAllocatedSize_def StunSocket_GetLocalAddress_def
          StunSocket_GetRole_def)
  qed
  have frame: "udp_inv socks tsa pAuth th2" if "sa_wf rem" "sa_wf ?loc" "length d \<le> MAX_STUN_MESSAGE_SIZE"
  proof -
    obtain m where m: "b_data ?b = Some m" "b_allocated ?b \<le> length m" using b0(1) by (auto simp: buf_wf_def split: option.splits)
    have "length m \<le> length (poke 0 d m)" by (simp add: poke_def)
    then have "buf_wf (?b\<lparr>b_data := Some (poke 0 d m)\<rparr>)" using b0(1) m by (simp add: buf_wf_def)
    then show ?thesis using I l(1) b0(2) m that by (simp add: udp_inv_def th1_def)
  qed
  have abs2: "udp_abs_of th2 = (udp_abs_of th)\<lparr>ua_last := rem, ua_limiter := l\<rparr>" "ut_sent th2 = ut_sent th"
    using l(1) by (simp_all add: udp_abs_of_def th1_def)
  have "udp_inv socks tsa pAuth th' \<and>
    (\<exists>outs. udp_abs_receive hmac md5 arr tsa pAuth env i (udp_abs_of th) = (stop, outs, udp_abs_of th') \<and> ut_sent th' = ut_sent th @ outs)"
  proof (cases "ue_recv env")
    case RecvMsgError
    then have e: "ret = -1" "d = []" "rem = in_addrRemote (ut_msgIn th)" "loc = in_addrLocal (ut_msgIn th)"
      using rx by (simp_all add: recvfromex_def)
    then have "udp_inv socks tsa pAuth th2" using I by (intro frame) (simp_all split del: if_split)
    moreover have "(case ue_recv env of Datagram d name cmsgs \<Rightarrow> if d = [] then ua_last (udp_abs_of th) else CSocketAddress_CommonConstructor name
        | RecvMsgError \<Rightarrow> ua_last (udp_abs_of th)) = rem" "ua_limiter (udp_abs_of th) = ut_spLimiter th"
      by (simp_all add: RecvMsgError e(3) udp_abs_of_def)
    then have "udp_abs_receive hmac md5 arr tsa pAuth env i (udp_abs_of th) = (False, [], udp_abs_of th2)"
      unfolding udp_abs_receive_def by (simp only: l(2) Let_def prod.case) (simp add: RecvMsgError abs2(1))
    ultimately show ?thesis using run R e(1) abs2(2) by simp
  next
    case D: (Datagram bs name cmsgs)
    have wf: "sa_wf name" "\<forall>c \<in> set cmsgs. cmsg_ok c" using env by (simp_all add: recv_ok_def D)
    have e: "d = take MAX_STUN_MESSAGE_SIZE bs" "ret = int (length d)"
      "rem = (if bs = [] then in_addrRemote (ut_msgIn th) else CSocketAddress_CommonConstructor name)"
      "bs \<noteq> [] \<Longrightarrow> loc = recvfromex_loop cmsgs (InitSocketAddress (sa_family name) CSocketAddress_zero)"
      "bs = [] \<Longrightarrow> loc = in_addrLocal (ut_msgIn th)"
      using rx InitSocketAddress_any [OF wf(1), of "in_addrLocal (ut_msgIn th)" CSocketAddress_zero]
      by (auto simp: recvfromex_def D Let_def MAX_STUN_MESSAGE_SIZE_def split: if_splits)
    have w: "sa_wf rem" "sa_wf loc"
      using I e(3-5) wf recvfromex_loop_wf [OF wf(2) InitSocketAddress_wf [OF wf(1)]] by (cases "bs = []"; simp)+
    then have inv2: "udp_inv socks tsa pAuth th2" by (intro frame) (simp_all add: e(1))
    have sender: "(case ue_recv env of Datagram d name cmsgs \<Rightarrow> if d = [] then ua_last (udp_abs_of th) else CSocketAddress_CommonConstructor name
        | RecvMsgError \<Rightarrow> ua_last (udp_abs_of th)) = rem"
      by (simp add: D e(3) udp_abs_of_def)
    have lim: "ua_limiter (udp_abs_of th) = ut_spLimiter th" "ua_exit (udp_abs_of th) = ut_fNeedToExit th"
      by (simp_all add: udp_abs_of_def)
    let ?l = "CSocketAddress_SetPort (CSocketAddress_GetPort (ss_addrlocal (arr ! i)))
                        (recvfromex_loop cmsgs (InitSocketAddress (sa_family name) CSocketAddress_zero))"
    have A: "udp_abs_receive hmac md5 arr tsa pAuth env i (udp_abs_of th) =
        (if \<not> allowed then (False, [], udp_abs_of th2)
         else if ut_fNeedToExit th \<or> ue_exitReceive env then (True, [], (udp_abs_of th2)\<lparr>ua_exit := True\<rparr>)
         else (False, udp_responder hmac md5 arr tsa pAuth (ss_role (arr ! i)) rem ?l d, udp_abs_of th2))"
      unfolding udp_abs_receive_def sender lim l(2) Let_def prod.case
      by (simp add: D e(1) abs2(1) lim)
    show ?thesis
    proof (cases "allowed")
      case False
      then show ?thesis using run R A inv2 abs2(2) by simp
    next
      case ok: True
      show ?thesis
      proof (cases "ut_fNeedToExit th \<or> ue_exitReceive env")
        case True
        then show ?thesis using ok run R A inv2 abs2(2) e(2) by (auto simp: udp_inv_def udp_abs_of_def)
      next
        case False
        define th3 where "th3 = th2\<lparr>ut_fNeedToExit := False, ut_spBufferIn := map_option (\<lambda>b. snd (CBuffer_SetSize (nat ret) b)) (ut_spBufferIn th2),
             ut_msgIn := (ut_msgIn th2)\<lparr>in_socketrole := ss_role (arr ! i)\<rparr>\<rparr>"
        obtain m where m: "b_data ?b = Some m" "b_allocated ?b \<le> length m" using b0(1) by (auto simp: buf_wf_def split: option.splits)
        have len: "length d \<le> MAX_STUN_MESSAGE_SIZE" by (simp add: e(1))
        let ?nb = "?b\<lparr>b_data := Some (poke 0 d m), b_size := length d\<rparr>"
        have i3: "ut_spBufferIn th3 = Some ?nb"
          using m(1) e(2) l(1) by (simp add: th3_def th1_def)
        have "length m \<le> length (poke 0 d m)" by (simp add: poke_def)
        then have nb: "buf_wf ?nb" "buf_bytes ?nb = d"
          using b0 m len by (simp_all add: buf_wf_def buf_bytes_def poke_def)
        have inv3: "udp_inv socks tsa pAuth th3"
          using inv2 i3 nb(1) b0(2) by (simp add: udp_inv_def) (simp add: th3_def)
        have m3: "in_socketrole (ut_msgIn th3) = ss_role (arr ! i)" "in_addrRemote (ut_msgIn th3) = rem"
          "in_addrLocal (ut_msgIn th3) = CSocketAddress_SetPort (CSocketAddress_GetPort (ss_addrlocal (arr ! i))) loc"
          using l(1) e(2) by (simp_all add: th3_def th1_def)
        have role: "IsValidSocketRole (in_socketrole (ut_msgIn th3))" using S i by (simp add: m3(1))
        note pr = ProcessRequestAndSend_ok [where hmac = hmac and ?md5.0 = md5, OF inv3 su hm role]
        have a3: "udp_abs_of th3 = udp_abs_of th2" "ut_sent th3 = ut_sent th"
          using False abs2 l(1) by (simp_all add: th3_def udp_abs_of_def th1_def)
        have th': "stop = False" "th' = snd (UdpThread_ProcessRequestAndSendResponse hmac md5 arr th3)"
          using run R ok False e(2) by (simp_all add: th3_def)
        have "udp_responder hmac md5 arr tsa pAuth (ss_role (arr ! i)) rem ?l d =
            udp_responder hmac md5 arr tsa pAuth (ss_role (arr ! i)) rem (in_addrLocal (ut_msgIn th3)) d"
        proof (cases "bs = []")
          case True
          then have "d = []" using e(1) by simp
          moreover have "fst (Reader_AddBytes [] Reader_new) \<noteq> BodyValidated"
            by (simp add: Reader_AddBytes_def Reader_new_def Reader_Reset_def)
          ultimately show ?thesis by (simp add: responder_no_request)
        qed (simp add: m3(3) e(4))
        then show ?thesis using pr A ok False i3 nb(2) a3 th' by (simp add: m3(1,2))
      qed
    qed
  qed
  then show "udp_inv socks tsa pAuth th'"
    "\<exists>outs. udp_abs_receive hmac md5 arr tsa pAuth env i (udp_abs_of th) = (stop, outs, udp_abs_of th') \<and>
       ut_sent th' = ut_sent th @ outs" by blast+
qed

lemma find_map: "find P (map f xs) = map_option f (find (\<lambda>x. P (f x)) xs)"
  by (induction xs) simp_all

lemma Run_turn_ok:
  fixes md5 :: "u8 list \<Rightarrow> u8 list"
  assumes inv: "udp_inv socks tsa pAuth th" and su: "udp_setup arr socks tsa pAuth" and hm: "\<And>k m. length (hmac k m) = 20"
    and env: "recv_ok env"
    and run: "UdpThread_Run_step hmac md5 arr env th = (stop, th')"
  shows "udp_inv socks tsa pAuth th'"
    "\<exists>outs. udp_abs_step hmac md5 arr socks tsa pAuth env (udp_abs_of th) = (stop, outs, udp_abs_of th') \<and>
       ut_sent th' = ut_sent th @ outs"
proof -
  have socks: "ut_socks th = socks" "socks \<noteq> []" using inv su by (simp_all add: udp_inv_def udp_setup_def)
  have "udp_inv socks tsa pAuth th' \<and>
    (\<exists>outs. udp_abs_step hmac md5 arr socks tsa pAuth env (udp_abs_of th) = (stop, outs, udp_abs_of th') \<and> ut_sent th' = ut_sent th @ outs)"
  proof (cases "length socks > 1")
    case False
    then have r: "UdpThread_Receive hmac md5 arr env (socks ! 0) th = (stop, th')" and i: "socks ! 0 \<in> set socks"
      using run socks by (simp_all add: UdpThread_Run_step_def)
    show ?thesis using Receive_ok [where hmac = hmac and ?md5.0 = md5, OF inv su hm env i r] False
      by (simp add: udp_abs_step_def)
  next
    case True
    define n where "n = length socks"
    define rot where "rot = (ut_rotation th + 1) mod n"
    define order where "order = map (\<lambda>index. socks ! ((index + rot) mod n)) [0..<n]"
    define th1 where "th1 = th\<lparr>ut_rotation := rot, ut_fNeedToExit := ut_fNeedToExit th \<or> ue_exitWait env\<rparr>"
    have pick: "fst (UdpThread_WaitForSocketData (ue_select env) arr th) = find (\<lambda>i. ue_select env (ss_sock (arr ! i))) order"
      "snd (UdpThread_WaitForSocketData (ue_select env) arr th) = th\<lparr>ut_rotation := rot\<rparr>"
      by (simp_all add: UdpThread_WaitForSocketData_def Let_def socks(1) order_def rot_def n_def find_map
          StunSocket_GetSocketHandle_def comp_def)
    have S: "UdpThread_Run_step hmac md5 arr env th =
        (if ut_fNeedToExit th \<or> ue_exitWait env then (True, th1)
         else (case find (\<lambda>i. ue_select env (ss_sock (arr ! i))) order of
                 None \<Rightarrow> (False, th1) | Some i \<Rightarrow> UdpThread_Receive hmac md5 arr env i th1))"
      using True pick by (simp add: UdpThread_Run_step_def socks(1) case_prod_beta th1_def Let_def split: option.split)
    have inv1: "udp_inv socks tsa pAuth th1" using inv by (simp add: udp_inv_def th1_def)
    have abs1: "(udp_abs_of th)\<lparr>ua_rotation := rot, ua_exit := ua_exit (udp_abs_of th) \<or> ue_exitWait env\<rparr> = udp_abs_of th1"
      "ua_exit (udp_abs_of th1) = (ut_fNeedToExit th \<or> ue_exitWait env)" "(ua_rotation (udp_abs_of th) + 1) mod n = rot"
      "ut_sent th1 = ut_sent th"
      by (simp_all add: udp_abs_of_def th1_def rot_def)
    have A: "udp_abs_step hmac md5 arr socks tsa pAuth env (udp_abs_of th) =
        (if ut_fNeedToExit th \<or> ue_exitWait env then (True, [], udp_abs_of th1)
         else (case find (\<lambda>i. ue_select env (ss_sock (arr ! i))) order of
                 None \<Rightarrow> (False, [], udp_abs_of th1) | Some i \<Rightarrow> udp_abs_receive hmac md5 arr tsa pAuth env i (udp_abs_of th1)))"
      unfolding udp_abs_step_def n_def [symmetric] Let_def abs1 order_def using True by (simp add: n_def)
    show ?thesis
    proof (cases "ut_fNeedToExit th \<or> ue_exitWait env")
      case True
      then show ?thesis using run S A inv1 abs1(4) by auto
    next
      case no: False
      show ?thesis
      proof (cases "find (\<lambda>i. ue_select env (ss_sock (arr ! i))) order")
        case None
        then show ?thesis using run S A no inv1 abs1(4) by auto
      next
        case (Some i)
        then have "i \<in> set order" by (auto simp: find_Some_iff)
        then have i: "i \<in> set socks" using True by (auto simp: order_def n_def intro!: nth_mem mod_less_divisor)
        have r: "UdpThread_Receive hmac md5 arr env i th1 = (stop, th')" using run S no Some by simp
        show ?thesis using Receive_ok [where hmac = hmac and ?md5.0 = md5, OF inv1 su hm env i r] A no Some abs1(4) by simp
      qed
    qed
  qed
  then show "udp_inv socks tsa pAuth th'"
    "\<exists>outs. udp_abs_step hmac md5 arr socks tsa pAuth env (udp_abs_of th) = (stop, outs, udp_abs_of th') \<and>
       ut_sent th' = ut_sent th @ outs" by blast+
qed

theorem Run_ok:
  fixes md5 :: "u8 list \<Rightarrow> u8 list"
  assumes "udp_inv socks tsa pAuth th" "udp_setup arr socks tsa pAuth" "\<And>k m. length (hmac k m) = 20" "\<forall>env \<in> set envs. recv_ok env"
  shows "udp_inv socks tsa pAuth (UdpThread_Run hmac md5 arr envs th)"
    "ut_sent (UdpThread_Run hmac md5 arr envs th) = ut_sent th @ fst (udp_abs_run hmac md5 arr socks tsa pAuth envs (udp_abs_of th))"
    "udp_abs_of (UdpThread_Run hmac md5 arr envs th) = snd (udp_abs_run hmac md5 arr socks tsa pAuth envs (udp_abs_of th))"
proof -
  have "udp_inv socks tsa pAuth (UdpThread_Run hmac md5 arr envs th) \<and>
    ut_sent (UdpThread_Run hmac md5 arr envs th) = ut_sent th @ fst (udp_abs_run hmac md5 arr socks tsa pAuth envs (udp_abs_of th)) \<and>
    udp_abs_of (UdpThread_Run hmac md5 arr envs th) = snd (udp_abs_run hmac md5 arr socks tsa pAuth envs (udp_abs_of th))"
    using assms(1,4)
  proof (induction envs arbitrary: th)
    case (Cons env envs)
    have x: "ua_exit (udp_abs_of th) = ut_fNeedToExit th" by (simp add: udp_abs_of_def)
    obtain stop th' where s: "UdpThread_Run_step hmac md5 arr env th = (stop, th')" by (metis surj_pair)
    have "recv_ok env" using Cons.prems(2) by simp
    note st = Run_turn_ok [where hmac = hmac and ?md5.0 = md5, OF Cons.prems(1) assms(2,3) this s]
    then obtain outs where o: "udp_abs_step hmac md5 arr socks tsa pAuth env (udp_abs_of th) = (stop, outs, udp_abs_of th')"
      "ut_sent th' = ut_sent th @ outs" by blast
    show ?case
    proof (cases "ut_fNeedToExit th \<or> stop")
      case True
      then show ?thesis using Cons.prems(1) st(1) s o x by (auto simp: case_prod_beta)
    next
      case False
      then show ?thesis using Cons.IH [OF st(1)] Cons.prems(2) s o x by (simp add: case_prod_beta)
    qed
  qed simp
  then show "udp_inv socks tsa pAuth (UdpThread_Run hmac md5 arr envs th)"
    "ut_sent (UdpThread_Run hmac md5 arr envs th) = ut_sent th @ fst (udp_abs_run hmac md5 arr socks tsa pAuth envs (udp_abs_of th))"
    "udp_abs_of (UdpThread_Run hmac md5 arr envs th) = snd (udp_abs_run hmac md5 arr socks tsa pAuth envs (udp_abs_of th))"
    by blast+
qed

section \<open>Setting up\<close>

lemma Init_new:
  assumes "UdpThread_Init (Some arr) (Some tsa) pAuth role lim UdpThread_new = (hr, th)" "SUCCEEDED hr"
  shows "udp_inv (ut_socks th) tsa pAuth th" "ut_spLimiter th = lim" "ut_sent th = []" "ut_fNeedToExit th = False"
    "ut_rotation th = 0" "\<not> ut_fThreadIsValid th"
    "ut_socks th = (if IsValidSocketRole role then [unat role] else filter (\<lambda>i. StunSocket_IsValid (arr ! i)) [0..<4])"
    "IsValidSocketRole role \<Longrightarrow> StunSocket_IsValid (arr ! unat role)"
proof -
  note d = UdpThread_Init_def UdpThread_InitThreadBuffers_def UdpThread_new_def UdpThread_ClearSocketArray_def Let_def
  have ok: "\<not> (IsValidSocketRole role \<and> \<not> StunSocket_IsValid (arr ! unat role))"
    using assms unfolding d by (auto split: if_splits)
  then show "IsValidSocketRole role \<Longrightarrow> StunSocket_IsValid (arr ! unat role)" by blast
  have t: "rd_table Reader_new" using feed_table [of "[]"] by simp
  have t: "rd_table (Reader_Reset Reader_new)"
    using t fh_Reset_inv [of FastHash_Hash_u16 "rd_mapAttributes Reader_new"] by (simp add: rd_table_def Reader_Reset_def)
  show "udp_inv (ut_socks th) tsa pAuth th" "ut_spLimiter th = lim" "ut_sent th = []" "ut_fNeedToExit th = False"
    "ut_rotation th = 0" "\<not> ut_fThreadIsValid th"
    "ut_socks th = (if IsValidSocketRole role then [unat role] else filter (\<lambda>i. StunSocket_IsValid (arr ! i)) [0..<4])"
    using assms ok t unfolding d udp_inv_def reader_kept_def by (auto split: if_splits)
qed

end
