(* ===== verification/StunServer.thy ===== *)
theory StunServer
  imports UdpThread TcpLoop
begin

text \<open>
  The servers (\<^verbatim>\<open>server/server.cpp\<close> and the class \<^verbatim>\<open>CTCPServer\<close> of \<^verbatim>\<open>server/tcpserver.cpp\<close>): the
  configuration, the UDP server with its four sockets and its threads, and the TCP server with its
  threads. What the system answers for the socket of each role, or for the set-up of each thread, is an
  argument. The members \<open>sv_closed\<close> and \<open>ts_closed\<close> record the descriptors that were closed. A rate
  limiter that several threads share is kept by each thread.
\<close>

subsection \<open>The configuration\<close>

record CStunServerConfig =
  cs_fHasPP :: bool
  cs_fHasPA :: bool
  cs_fHasAP :: bool
  cs_fHasAA :: bool
  cs_fMultiThreadedMode :: bool
  cs_fTCP :: bool
  cs_nMaxConnections :: u32
  cs_addrPP :: CSocketAddress
  cs_addrPA :: CSocketAddress
  cs_addrAP :: CSocketAddress
  cs_addrAA :: CSocketAddress
  cs_addrPrimaryAdvertised :: CSocketAddress
  cs_addrAlternateAdvertised :: CSocketAddress
  cs_fEnableDosProtection :: bool
  cs_fReuseAddr :: bool

definition StunServerConfig_new :: CStunServerConfig where
  "StunServerConfig_new =
     \<lparr>cs_fHasPP = False, cs_fHasPA = False, cs_fHasAP = False, cs_fHasAA = False, cs_fMultiThreadedMode = False,
      cs_fTCP = False, cs_nMaxConnections = 0, cs_addrPP = CSocketAddress_zero, cs_addrPA = CSocketAddress_zero,
      cs_addrAP = CSocketAddress_zero, cs_addrAA = CSocketAddress_zero, cs_addrPrimaryAdvertised = CSocketAddress_zero,
      cs_addrAlternateAdvertised = CSocketAddress_zero, cs_fEnableDosProtection = False, cs_fReuseAddr = False\<rparr>"

subsection \<open>The UDP server\<close>

record CStunServer =
  sv_arrSockets :: "CStunSocket list"
  sv_threads :: "CStunSocketThread list"
  sv_spAuth :: "IStunAuth option"
  sv_closed :: "int list"

definition StunServer_new :: CStunServer where
  "StunServer_new = \<lparr>sv_arrSockets = replicate 4 StunSocket_new, sv_threads = [], sv_spAuth = None, sv_closed = []\<rparr>"

definition StunServer_AddSocket ::
  "socket_os \<Rightarrow> TransportAddressSet \<Rightarrow> SocketRole \<Rightarrow> CSocketAddress \<Rightarrow> CSocketAddress \<Rightarrow> bool \<Rightarrow> CStunServer
   \<Rightarrow> HRESULT \<times> TransportAddressSet \<times> CStunServer" where
  "StunServer_AddSocket os pTSA role addrListen addrAdvertise fSetReuseFlag sv =
     (case StunSocket_UDPInit os addrListen role fSetReuseFlag (sv_arrSockets sv ! unat role) of
        (hr, closed, s) \<Rightarrow>
          (let sv = sv\<lparr>sv_arrSockets := (sv_arrSockets sv)[unat role := s], sv_closed := sv_closed sv @ closed\<rparr>
           in if FAILED hr then (hr, pTSA, sv)
              else
                (let hr = StunSocket_EnablePktInfoOption os True s
                 in if FAILED hr then (hr, pTSA, sv)
                    else
                      (let addr = (if CSocketAddress_IsIPAddressZero addrAdvertise = False
                                   then CSocketAddress_SetPort (CSocketAddress_GetPort addrListen) addrAdvertise
                                   else addrListen)
                       in (hr, pTSA[unat role := \<lparr>ta_addr = addr, ta_fValid = True\<rparr>], sv)))))"

text \<open>A socket that is configured is added and counted.\<close>

definition StunServer_AddConfigured ::
  "(nat \<Rightarrow> socket_os) \<Rightarrow> bool \<Rightarrow> SocketRole \<Rightarrow> CSocketAddress \<Rightarrow> CSocketAddress \<Rightarrow> bool
   \<Rightarrow> nat \<times> TransportAddressSet \<times> CStunServer \<Rightarrow> HRESULT \<times> nat \<times> TransportAddressSet \<times> CStunServer" where
  "StunServer_AddConfigured os fHas role addr addrAdvertised fReuseAddr st =
     (case st of (socketcount, tsa, sv) \<Rightarrow>
        if fHas
        then (case StunServer_AddSocket (os (unat role)) tsa role addr addrAdvertised fReuseAddr sv of
                (hr, tsa, sv) \<Rightarrow> (hr, if FAILED hr then socketcount else socketcount + 1, tsa, sv))
        else (S_OK, socketcount, tsa, sv))"

text \<open>One thread for each valid socket.\<close>

fun StunServer_Threads_loop ::
  "TransportAddressSet \<Rightarrow> IStunAuth option \<Rightarrow> RateLimiter option \<Rightarrow> nat list \<Rightarrow> CStunServer \<Rightarrow> HRESULT \<times> CStunServer" where
  "StunServer_Threads_loop tsa spAuth spLimiter [] sv = (S_OK, sv)"
| "StunServer_Threads_loop tsa spAuth spLimiter (index # indices) sv =
     (if StunSocket_IsValid (sv_arrSockets sv ! index)
      then
        (let rolePrimaryRecv = StunSocket_GetRole (sv_arrSockets sv ! index);
             (hr, pThread) = UdpThread_Init (Some (sv_arrSockets sv)) (Some tsa) spAuth rolePrimaryRecv spLimiter UdpThread_new;
             sv = sv\<lparr>sv_threads := sv_threads sv @ [pThread]\<rparr>
         in if FAILED hr then (hr, sv) else StunServer_Threads_loop tsa spAuth spLimiter indices sv)
      else StunServer_Threads_loop tsa spAuth spLimiter indices sv)"

definition StunServer_Stop :: "CStunServer \<Rightarrow> HRESULT \<times> CStunServer" where
  "StunServer_Stop sv =
     (let sv = sv\<lparr>sv_threads := map (\<lambda>th. snd (UdpThread_SignalForStop (sv_arrSockets sv) False th)) (sv_threads sv)\<rparr>;
          sv = sv\<lparr>sv_threads := map (\<lambda>th. snd (UdpThread_SignalForStop (sv_arrSockets sv) True th)) (sv_threads sv)\<rparr>
      in (S_OK, sv\<lparr>sv_threads := map (\<lambda>th. snd (UdpThread_WaitForStopAndClose th)) (sv_threads sv)\<rparr>))"

text \<open>The destructor of a thread that has been stopped has no effect.\<close>

definition StunServer_Shutdown :: "CStunServer \<Rightarrow> HRESULT \<times> CStunServer" where
  "StunServer_Shutdown sv =
     (let sv = snd (StunServer_Stop sv);
          sv = fold (\<lambda>index sv. case StunSocket_Close (sv_arrSockets sv ! index) of
                 (closed, s) \<Rightarrow> sv\<lparr>sv_arrSockets := (sv_arrSockets sv)[index := s], sv_closed := sv_closed sv @ closed\<rparr>) [0..<4] sv;
          sv = sv\<lparr>sv_threads := []\<rparr>
      in (S_OK, sv\<lparr>sv_spAuth := None\<rparr>))"

text \<open>The authentication provider given to the threads is the function's local variable, which is null.\<close>

definition StunServer_Initialize_body :: "(nat \<Rightarrow> socket_os) \<Rightarrow> CStunServerConfig \<Rightarrow> CStunServer \<Rightarrow> HRESULT \<times> CStunServer" where
  "StunServer_Initialize_body os config sv =
     (let reuse = cs_fReuseAddr config; spAuth = None;
          tsa = replicate 4 \<lparr>ta_addr = CSocketAddress_zero, ta_fValid = False\<rparr>;
          drop = (\<lambda>(socketcount, tsa, sv). sv)
      in ChkTo drop (StunServer_AddConfigured os (cs_fHasPP config) RolePP (cs_addrPP config) (cs_addrPrimaryAdvertised config) reuse (0, tsa, sv)) (\<lambda>hr st.
         ChkTo drop (StunServer_AddConfigured os (cs_fHasPA config) RolePA (cs_addrPA config) (cs_addrPrimaryAdvertised config) reuse st) (\<lambda>hr st.
         ChkTo drop (StunServer_AddConfigured os (cs_fHasAP config) RoleAP (cs_addrAP config) (cs_addrAlternateAdvertised config) reuse st) (\<lambda>hr st.
         ChkTo drop (StunServer_AddConfigured os (cs_fHasAA config) RoleAA (cs_addrAA config) (cs_addrAlternateAdvertised config) reuse st)
           (\<lambda>hr (socketcount, tsa, sv).
              if socketcount = 0 then (E_INVALIDARG, sv)
              else
                (let spLimiter = (if cs_fEnableDosProtection config then Some (RateLimiter_new 25000 (cs_fMultiThreadedMode config)) else None)
                 in if cs_fMultiThreadedMode config = False
                    then
                      (let (hr, pThread) = UdpThread_Init (Some (sv_arrSockets sv)) (Some tsa) spAuth (-1) spLimiter UdpThread_new
                       in (hr, sv\<lparr>sv_threads := sv_threads sv @ [pThread]\<rparr>))
                    else StunServer_Threads_loop tsa spAuth spLimiter [0..<4] sv))))))"

definition StunServer_Initialize :: "(nat \<Rightarrow> socket_os) \<Rightarrow> CStunServerConfig \<Rightarrow> CStunServer \<Rightarrow> HRESULT \<times> CStunServer" where
  "StunServer_Initialize os config sv =
     (let sv = snd (StunServer_Shutdown sv);
          (hr, sv) = StunServer_Initialize_body os config sv
      in (hr, if FAILED hr then snd (StunServer_Shutdown sv) else sv))"

text \<open>The results of \<^verbatim>\<open>pthread_create\<close> for the threads are a list.\<close>

fun StunServer_Start_loop :: "int list \<Rightarrow> CStunSocketThread list \<Rightarrow> HRESULT \<times> CStunSocketThread list" where
  "StunServer_Start_loop rets [] = (S_OK, [])"
| "StunServer_Start_loop rets (pThread # threads) =
     (case UdpThread_Start (hd rets) pThread of
        (hr, pThread) \<Rightarrow>
          if FAILED hr then (hr, pThread # threads)
          else (case StunServer_Start_loop (tl rets) threads of (hr, threads) \<Rightarrow> (hr, pThread # threads)))"

definition StunServer_Start :: "int list \<Rightarrow> CStunServer \<Rightarrow> HRESULT \<times> CStunServer" where
  "StunServer_Start rets sv =
     (let (hr, sv) = (if length (sv_threads sv) = 0 then (E_UNEXPECTED, sv)
                      else (case StunServer_Start_loop rets (sv_threads sv) of (hr, threads) \<Rightarrow> (hr, sv\<lparr>sv_threads := threads\<rparr>)))
      in (hr, if FAILED hr then snd (StunServer_Stop sv) else sv))"

subsection \<open>The TCP server\<close>

record CTCPServer =
  ts_threads :: "CTCPStunThread option list"
  ts_spAuth :: "IStunAuth option"
  ts_closed :: "int list"

definition TcpServer_new :: CTCPServer where
  "TcpServer_new = \<lparr>ts_threads = replicate 4 None, ts_spAuth = None, ts_closed = []\<rparr>"

definition TcpServer_InitTSA ::
  "TransportAddressSet \<Rightarrow> SocketRole \<Rightarrow> bool \<Rightarrow> CSocketAddress \<Rightarrow> CSocketAddress \<Rightarrow> TransportAddressSet" where
  "TcpServer_InitTSA pTSA role fValid addrListen addrAdvertise =
     (if fValid = False then pTSA[unat role := \<lparr>ta_addr = CSocketAddress_zero, ta_fValid = False\<rparr>]
      else pTSA[unat role :=
             \<lparr>ta_addr = (if CSocketAddress_IsIPAddressZero addrAdvertise then addrListen
                         else CSocketAddress_SetPort (CSocketAddress_GetPort addrListen) addrAdvertise),
              ta_fValid = True\<rparr>])"

text \<open>Deleting a thread stops it.\<close>

definition TcpServer_Shutdown :: "int \<Rightarrow> CTCPServer \<Rightarrow> HRESULT \<times> CTCPServer" where
  "TcpServer_Shutdown timeNow ts =
     (let ts = fold (\<lambda>role ts. case ts_threads ts ! role of
                   None \<Rightarrow> ts
                 | Some th \<Rightarrow> ts\<lparr>ts_threads := (ts_threads ts)[role := None],
                                 ts_closed := ts_closed ts @ th_closed (snd (Thread_Stop timeNow th))\<rparr>)
            [unat RolePP..<unat RoleAA + 1] ts
      in (S_OK, ts\<lparr>ts_spAuth := None\<rparr>))"

definition TcpServer_tsaHandler :: "CStunServerConfig \<Rightarrow> TransportAddressSet \<Rightarrow> TransportAddressSet" where
  "TcpServer_tsaHandler config tsa =
     (let tsa = TcpServer_InitTSA tsa RolePP (cs_fHasPP config) (cs_addrPP config) (cs_addrPrimaryAdvertised config);
          tsa = TcpServer_InitTSA tsa RolePA (cs_fHasPA config) (cs_addrPA config) (cs_addrPrimaryAdvertised config);
          tsa = TcpServer_InitTSA tsa RoleAP (cs_fHasAP config) (cs_addrAP config) (cs_addrAlternateAdvertised config)
      in TcpServer_InitTSA tsa RoleAA (cs_fHasAA config) (cs_addrAA config) (cs_addrAlternateAdvertised config))"

definition TcpServer_tsaListenAll :: "CStunServerConfig \<Rightarrow> TransportAddressSet \<Rightarrow> TransportAddressSet" where
  "TcpServer_tsaListenAll config tsa =
     (let tsa = TcpServer_InitTSA tsa RolePP (cs_fHasPP config) (cs_addrPP config) CSocketAddress_zero;
          tsa = TcpServer_InitTSA tsa RolePA (cs_fHasPA config) (cs_addrPA config) CSocketAddress_zero;
          tsa = TcpServer_InitTSA tsa RoleAP (cs_fHasAP config) (cs_addrAP config) CSocketAddress_zero
      in TcpServer_InitTSA tsa RoleAA (cs_fHasAA config) (cs_addrAA config) CSocketAddress_zero)"

text \<open>The addresses without those of the other threads.\<close>

definition TcpServer_tsaListen :: "nat \<Rightarrow> TransportAddressSet \<Rightarrow> TransportAddressSet" where
  "TcpServer_tsaListen threadindex tsaListenAll =
     fold (\<lambda>temp tsa. if temp \<noteq> threadindex then tsa[temp := \<lparr>ta_addr = CSocketAddress_zero, ta_fValid = False\<rparr>] else tsa)
       [0..<4] tsaListenAll"

fun TcpServer_Init_loop ::
  "(nat \<Rightarrow> init_env) \<Rightarrow> TransportAddressSet \<Rightarrow> TransportAddressSet \<Rightarrow> int \<Rightarrow> RateLimiter option \<Rightarrow> nat list
   \<Rightarrow> CTCPServer \<Rightarrow> HRESULT \<times> CTCPServer" where
  "TcpServer_Init_loop ie tsaListenAll tsaHandler maxConnections spLimiter [] ts = (S_OK, ts)"
| "TcpServer_Init_loop ie tsaListenAll tsaHandler maxConnections spLimiter (threadindex # indices) ts =
     (if ta_fValid (tsaHandler ! threadindex)
      then
        (case Thread_Init (ie threadindex) (TcpServer_tsaListen threadindex tsaListenAll) tsaHandler (ts_spAuth ts) maxConnections
                spLimiter (Thread_new (ie_time (ie threadindex))) of
           (hr, th) \<Rightarrow>
             (let ts = ts\<lparr>ts_threads := (ts_threads ts)[threadindex := Some th]\<rparr>
              in if FAILED hr then (hr, ts)
                 else TcpServer_Init_loop ie tsaListenAll tsaHandler maxConnections spLimiter indices ts))
      else TcpServer_Init_loop ie tsaListenAll tsaHandler maxConnections spLimiter indices ts)"

text \<open>The sets start as uninitialised memory; every entry is set.\<close>

definition TcpServer_Initialize ::
  "(nat \<Rightarrow> init_env) \<Rightarrow> TransportAddressSet \<Rightarrow> CStunServerConfig \<Rightarrow> CTCPServer \<Rightarrow> HRESULT \<times> CTCPServer" where
  "TcpServer_Initialize ie uninit config ts =
     (let (hr, ts) =
        (if ts_threads ts ! 0 \<noteq> None then (E_UNEXPECTED, ts)
         else
           (let tsaHandler = TcpServer_tsaHandler config uninit;
                tsaListenAll = TcpServer_tsaListenAll config uninit;
                spLimiter = (if cs_fEnableDosProtection config then Some (RateLimiter_new 20000 (cs_fMultiThreadedMode config)) else None);
                maxConnections = sint (cs_nMaxConnections config)
            in if cs_fMultiThreadedMode config = False
               then
                 (case Thread_Init (ie 0) tsaListenAll tsaHandler (ts_spAuth ts) maxConnections spLimiter (Thread_new (ie_time (ie 0))) of
                    (hr, th) \<Rightarrow> (hr, ts\<lparr>ts_threads := (ts_threads ts)[0 := Some th]\<rparr>))
               else TcpServer_Init_loop ie tsaListenAll tsaHandler maxConnections spLimiter [0..<4] ts))
      in (hr, if FAILED hr then snd (TcpServer_Shutdown (ie_time (ie 0)) ts) else ts))"

fun TcpServer_Start_loop :: "int list \<Rightarrow> CTCPStunThread option list \<Rightarrow> HRESULT \<times> CTCPStunThread option list" where
  "TcpServer_Start_loop rets [] = (S_OK, [])"
| "TcpServer_Start_loop rets (None # threads) =
     (case TcpServer_Start_loop rets threads of (hr, threads) \<Rightarrow> (hr, None # threads))"
| "TcpServer_Start_loop rets (Some th # threads) =
     (case Thread_Start (hd rets) th of
        (hr, th) \<Rightarrow>
          if FAILED hr then (hr, Some th # threads)
          else (case TcpServer_Start_loop (tl rets) threads of (hr, threads) \<Rightarrow> (hr, Some th # threads)))"

definition TcpServer_Start :: "int list \<Rightarrow> CTCPServer \<Rightarrow> HRESULT \<times> CTCPServer" where
  "TcpServer_Start rets ts =
     (case TcpServer_Start_loop rets (ts_threads ts) of (hr, threads) \<Rightarrow> (hr, ts\<lparr>ts_threads := threads\<rparr>))"

definition TcpServer_Stop :: "int \<Rightarrow> CTCPServer \<Rightarrow> HRESULT \<times> CTCPServer" where
  "TcpServer_Stop timeNow ts = (S_OK, snd (TcpServer_Shutdown timeNow ts))"

end
