(* ===== verification/StunServerProps.thy ===== *)
theory StunServerProps
  imports UdpTheorems StunServer
begin

text \<open>
  The UDP server: what \<^verbatim>\<open>Initialize\<close> sets up, and that its threads answer from its own sockets.
\<close>

section \<open>The configured addresses\<close>

definition cs_has :: "CStunServerConfig \<Rightarrow> nat \<Rightarrow> bool" where
  "cs_has config r = [cs_fHasPP config, cs_fHasPA config, cs_fHasAP config, cs_fHasAA config] ! r"

definition cs_addr :: "CStunServerConfig \<Rightarrow> nat \<Rightarrow> CSocketAddress" where
  "cs_addr config r = [cs_addrPP config, cs_addrPA config, cs_addrAP config, cs_addrAA config] ! r"

text \<open>The address of a role as it is advertised: the advertised address with the port of the socket, if there is one.\<close>

definition cs_advertised :: "CStunServerConfig \<Rightarrow> nat \<Rightarrow> CSocketAddress" where
  "cs_advertised config r =
     (let a = (if r < 2 then cs_addrPrimaryAdvertised config else cs_addrAlternateAdvertised config)
      in if CSocketAddress_IsIPAddressZero a then cs_addr config r
         else CSocketAddress_SetPort (CSocketAddress_GetPort (cs_addr config r)) a)"

definition config_wf :: "CStunServerConfig \<Rightarrow> bool" where
  "config_wf config \<longleftrightarrow> sa_wf (cs_addrPP config) \<and> sa_wf (cs_addrPA config) \<and> sa_wf (cs_addrAP config) \<and> sa_wf (cs_addrAA config) \<and>
     sa_wf (cs_addrPrimaryAdvertised config) \<and> sa_wf (cs_addrAlternateAdvertised config)"

lemma four: "i < 4 \<longleftrightarrow> i = 0 \<or> i = 1 \<or> i = 2 \<or> i = (3 :: nat)" by auto

lemma cs_advertised_wf: "config_wf config \<Longrightarrow> r < 4 \<Longrightarrow> sa_wf (cs_advertised config r)"
  by (auto simp: config_wf_def cs_advertised_def cs_addr_def four Let_def)

section \<open>Adding the sockets\<close>

text \<open>
  After the sockets of the first \<open>n\<close> roles: those that are configured are open, have their role and
  are in the set; the others are as they were.
\<close>

definition sockets_added :: "CStunServerConfig \<Rightarrow> nat \<Rightarrow> nat \<times> TransportAddressSet \<times> CStunServer \<Rightarrow> bool" where
  "sockets_added config n st \<longleftrightarrow>
     (case st of (cnt, tsa, sv) \<Rightarrow>
        length (sv_arrSockets sv) = 4 \<and> length tsa = 4 \<and> sv_threads sv = [] \<and>
        cnt = length (filter (cs_has config) [0..<n]) \<and>
        (\<forall>r < 4. StunSocket_IsValid (sv_arrSockets sv ! r) \<longleftrightarrow> r < n \<and> cs_has config r) \<and>
        (\<forall>r < 4. r < n \<and> cs_has config r \<longrightarrow> ss_role (sv_arrSockets sv ! r) = of_nat r) \<and>
        (\<forall>r < 4. tsa ! r = (if r < n \<and> cs_has config r then \<lparr>ta_addr = cs_advertised config r, ta_fValid = True\<rparr>
           else \<lparr>ta_addr = CSocketAddress_zero, ta_fValid = False\<rparr>)))"

lemma UDPInit_ok:
  assumes "StunSocket_UDPInit os addr role reuse s = (hr, closed, s')" "SUCCEEDED hr"
  shows "StunSocket_IsValid s'" "ss_role s' = role"
  using assms
  by (auto simp: StunSocket_UDPInit_def StunSocket_InitCommon_def StunSocket_IsValid_def StunSocket_Attach_def StunSocket_SetRole_def
      StunSocket_UpdateAddresses_def Let_def split: if_splits prod.splits option.splits)

lemma AddConfigured_ok:
  assumes st: "sockets_added config n st" and n: "n < 4"
    and run: "StunServer_AddConfigured os (cs_has config n) (of_nat n) (cs_addr config n)
       (if n < 2 then cs_addrPrimaryAdvertised config else cs_addrAlternateAdvertised config) reuse st = (hr, st')"
    and ok: "SUCCEEDED hr"
  shows "sockets_added config (Suc n) st'"
proof -
  obtain cnt tsa sv where s: "st = (cnt, tsa, sv)" by (cases st)
  note S = st [unfolded sockets_added_def s prod.case]
  have u: "unat (of_nat n :: u32) = n" using n by (simp add: unat_of_nat)
  show ?thesis
  proof (cases "cs_has config n")
    case False
    then show ?thesis using run S by (auto simp: StunServer_AddConfigured_def s sockets_added_def less_Suc_eq)
  next
    case True
    obtain hr1 closed sk where i: "StunSocket_UDPInit (os n) (cs_addr config n) (of_nat n) reuse (sv_arrSockets sv ! n) = (hr1, closed, sk)"
      by (metis prod_cases3)
    let ?sv = "sv\<lparr>sv_arrSockets := (sv_arrSockets sv)[n := sk], sv_closed := sv_closed sv @ closed\<rparr>"
    have h: "SUCCEEDED hr1" "st' = (Suc cnt, tsa[n := \<lparr>ta_addr = cs_advertised config n, ta_fValid = True\<rparr>], ?sv)"
      using run ok True i u
      by (auto simp: StunServer_AddConfigured_def s StunServer_AddSocket_def Let_def cs_advertised_def split: if_splits)
    note k = UDPInit_ok [OF i h(1)]
    show ?thesis using S True k n
      by (auto simp: sockets_added_def h(2) nth_list_update less_Suc_eq)
  qed
qed

section \<open>The threads\<close>

lemma IsValidSocketRole_nat: "r < 4 \<Longrightarrow> IsValidSocketRole (of_nat r)"
  by (auto simp: four IsValidSocketRole_def RolePP_def RoleAA_def)

lemma Threads_loop_ok:
  assumes "StunServer_Threads_loop tsa auth lim indices sv = (hr, sv')" "SUCCEEDED hr" "set indices \<subseteq> {..<4}"
    "\<forall>r < 4. StunSocket_IsValid (sv_arrSockets sv ! r) \<longrightarrow> ss_role (sv_arrSockets sv ! r) = of_nat r"
    "\<forall>th \<in> set (sv_threads sv). udp_inv (ut_socks th) tsa auth th \<and> ut_sent th = []"
  shows "sv_arrSockets sv' = sv_arrSockets sv \<and>
    (\<forall>th \<in> set (sv_threads sv'). udp_inv (ut_socks th) tsa auth th \<and> ut_sent th = []) \<and>
    concat (map ut_socks (sv_threads sv')) = concat (map ut_socks (sv_threads sv)) @
      filter (\<lambda>i. StunSocket_IsValid (sv_arrSockets sv ! i)) indices \<and>
    ((\<forall>th \<in> set (sv_threads sv). ut_socks th \<noteq> []) \<longrightarrow> (\<forall>th \<in> set (sv_threads sv'). ut_socks th \<noteq> []))"
  using assms
proof (induction indices arbitrary: sv)
  case (Cons i indices)
  show ?case
  proof (cases "StunSocket_IsValid (sv_arrSockets sv ! i)")
    case False
    then show ?thesis using Cons.IH [of sv] Cons.prems by simp
  next
    case True
    have i: "i < 4" using Cons.prems(3) by simp
    obtain hr1 th where t: "UdpThread_Init (Some (sv_arrSockets sv)) (Some tsa) auth (of_nat i) lim UdpThread_new = (hr1, th)"
      by (metis surj_pair)
    have role: "StunSocket_GetRole (sv_arrSockets sv ! i) = of_nat i"
      using Cons.prems(4) True i by (simp add: StunSocket_GetRole_def)
    let ?sv = "sv\<lparr>sv_threads := sv_threads sv @ [th]\<rparr>"
    have ok: "SUCCEEDED hr1" "StunServer_Threads_loop tsa auth lim indices ?sv = (hr, sv')"
      using Cons.prems(1,2) True t role by (auto simp: Let_def split: if_splits)
    note I = Init_new [OF t ok(1)]
    have so: "ut_socks th = [i]" using I(7) IsValidSocketRole_nat [OF i] i by (simp add: unat_of_nat)
    show ?thesis using Cons.IH [OF ok(2) Cons.prems(2)] Cons.prems(3-5) I(1,3) so True by simp
  qed
qed simp

text \<open>The server is up: what holds after a successful \<^verbatim>\<open>Initialize\<close>.\<close>

definition server_up :: "CStunServerConfig \<Rightarrow> TransportAddressSet \<Rightarrow> CStunServer \<Rightarrow> bool" where
  "server_up config tsa sv \<longleftrightarrow>
     (\<forall>r < 4. StunSocket_IsValid (sv_arrSockets sv ! r) \<longleftrightarrow> cs_has config r) \<and>
     (\<forall>r < 4. cs_has config r \<longrightarrow> ss_role (sv_arrSockets sv ! r) = of_nat r) \<and>
     tsa = map (\<lambda>r. if cs_has config r then \<lparr>ta_addr = cs_advertised config r, ta_fValid = True\<rparr>
        else \<lparr>ta_addr = CSocketAddress_zero, ta_fValid = False\<rparr>) [0..<4] \<and>
     (\<forall>th \<in> set (sv_threads sv). udp_inv (ut_socks th) tsa None th \<and> ut_sent th = [] \<and> ut_socks th \<noteq> []) \<and>
     concat (map ut_socks (sv_threads sv)) = filter (cs_has config) [0..<4] \<and>
     (\<not> cs_fMultiThreadedMode config \<longrightarrow> length (sv_threads sv) = 1)"

lemma minus_one_role: "\<not> IsValidSocketRole (-1)"
  by (simp add: IsValidSocketRole_def RolePP_def RoleAA_def word_le_def unsigned_minus_1_eq_mask mask_eq_exp_minus_1)

lemma roles_of_nat: "RolePP = of_nat 0" "RolePA = of_nat 1" "RoleAP = of_nat 2" "RoleAA = of_nat 3"
  by (simp_all add: RolePP_def RolePA_def RoleAP_def RoleAA_def)

lemma Initialize_body_ok:
  assumes run: "StunServer_Initialize_body os config sv = (hr, sv')" and ok: "SUCCEEDED hr"
    and start: "sockets_added config 0 (0, replicate 4 \<lparr>ta_addr = CSocketAddress_zero, ta_fValid = False\<rparr>, sv)"
  obtains tsa where "server_up config tsa sv'"
proof -
  let ?drop = "\<lambda>(socketcount :: nat, tsa :: TransportAddressSet, sv :: CStunServer). sv"
  let ?add = "\<lambda>n st. StunServer_AddConfigured os (cs_has config n) (of_nat n) (cs_addr config n)
       (if n < 2 then cs_addrPrimaryAdvertised config else cs_addrAlternateAdvertised config) (cs_fReuseAddr config) st"
  let ?lim = "if cs_fEnableDosProtection config then Some (RateLimiter_new 25000 (cs_fMultiThreadedMode config)) else None"
  let ?rest = "\<lambda>hr (socketcount, tsa, sv).
              if socketcount = 0 then (E_INVALIDARG, sv)
              else if cs_fMultiThreadedMode config = False
                   then (let (hr, pThread) = UdpThread_Init (Some (sv_arrSockets sv)) (Some tsa) None (-1) ?lim UdpThread_new
                         in (hr, sv\<lparr>sv_threads := sv_threads sv @ [pThread]\<rparr>))
                   else StunServer_Threads_loop tsa None ?lim [0..<4] sv"
  let ?st = "(0, replicate 4 \<lparr>ta_addr = CSocketAddress_zero, ta_fValid = False\<rparr>, sv)"
  have B: "StunServer_Initialize_body os config sv = ChkTo ?drop (?add 0 ?st) (\<lambda>hr st. ChkTo ?drop (?add 1 st) (\<lambda>hr st.
      ChkTo ?drop (?add 2 st) (\<lambda>hr st. ChkTo ?drop (?add 3 st) ?rest)))"
    unfolding StunServer_Initialize_body_def roles_of_nat Let_def by (simp add: cs_has_def cs_addr_def numeral_2_eq_2 numeral_3_eq_3)
  have step: "\<exists>hr' st'. ?add n st = (hr', st') \<and> SUCCEEDED hr' \<and> sockets_added config (Suc n) st' \<and> k hr' st' = (hr, sv')"
    if "sockets_added config n st" "n < 4" "ChkTo ?drop (?add n st) k = (hr, sv')" for n st k
  proof -
    obtain hr' st' where a: "?add n st = (hr', st')" by (metis surj_pair)
    have "SUCCEEDED hr'" "k hr' st' = (hr, sv')" using that(3) ok a by (auto simp: ChkTo_def split: if_splits)
    then show ?thesis using AddConfigured_ok [OF that(1,2) a] a by blast
  qed
  obtain hr1 st1 where 1: "sockets_added config 1 st1" "ChkTo ?drop (?add 1 st1) (\<lambda>hr st.
      ChkTo ?drop (?add 2 st) (\<lambda>hr st. ChkTo ?drop (?add 3 st) ?rest)) = (hr, sv')"
    using step [OF start _ run [unfolded B]] by auto
  obtain hr2 st2 where 2: "sockets_added config 2 st2" "ChkTo ?drop (?add 2 st2) (\<lambda>hr st. ChkTo ?drop (?add 3 st) ?rest) = (hr, sv')"
    using step [OF 1(1) _ 1(2)] by (auto simp: numeral_2_eq_2)
  obtain hr3 st3 where 3: "sockets_added config 3 st3" "ChkTo ?drop (?add 3 st3) ?rest = (hr, sv')"
    using step [OF 2(1) _ 2(2)] by (auto simp: numeral_3_eq_3 numeral_2_eq_2)
  obtain hr4 cnt tsa sv4 where 4: "sockets_added config 4 (cnt, tsa, sv4)" "?rest hr4 (cnt, tsa, sv4) = (hr, sv')"
    using step [OF 3(1) _ 3(2)] by (auto simp: eval_nat_numeral)
  note S = 4(1) [unfolded sockets_added_def prod.case]
  have n: "cnt \<noteq> 0" using 4(2) ok by (cases "cnt = 0") auto
  have tsa: "tsa = map (\<lambda>r. if cs_has config r then \<lparr>ta_addr = cs_advertised config r, ta_fValid = True\<rparr>
        else \<lparr>ta_addr = CSocketAddress_zero, ta_fValid = False\<rparr>) [0..<4]"
    using S by (intro nth_equalityI) auto
  have valid: "filter (\<lambda>i. StunSocket_IsValid (sv_arrSockets sv4 ! i)) [0..<4] = filter (cs_has config) [0..<4]"
    using S by (intro filter_cong) auto
  have "server_up config tsa sv'"
  proof (cases "cs_fMultiThreadedMode config")
    case False
    obtain hr5 th where t: "UdpThread_Init (Some (sv_arrSockets sv4)) (Some tsa) None (-1) ?lim UdpThread_new = (hr5, th)"
      by (metis surj_pair)
    have r: "hr5 = hr" "sv' = sv4\<lparr>sv_threads := sv_threads sv4 @ [th]\<rparr>" using 4(2) n False t by (simp_all split: if_splits)
    have "SUCCEEDED hr5" using ok r by simp
    note I = Init_new [OF t this]
    have so: "ut_socks th = filter (cs_has config) [0..<4]" using I(7) minus_one_role valid by simp
    then have "ut_socks th \<noteq> []" using n S by auto
    then show ?thesis using S I(1,3) so tsa False by (simp add: server_up_def r(2))
  next
    case True
    have L: "StunServer_Threads_loop tsa None ?lim [0..<4] sv4 = (hr, sv')" using 4(2) n True by simp
    have sub: "set [0..<4] \<subseteq> {..<4 :: nat}" by auto
    show ?thesis using Threads_loop_ok [OF L ok sub] S valid tsa True by (simp add: server_up_def)
  qed
  then show ?thesis by (rule that)
qed

section \<open>Shutting down\<close>

lemma Shutdown_closes:
  assumes "length (sv_arrSockets sv) = 4"
  shows "\<forall>r < 4. \<not> StunSocket_IsValid (sv_arrSockets (snd (StunServer_Shutdown sv)) ! r)"
    "sv_threads (snd (StunServer_Shutdown sv)) = []" "length (sv_arrSockets (snd (StunServer_Shutdown sv))) = 4"
proof -
  have c: "\<not> StunSocket_IsValid (snd (StunSocket_Close s))" for s
    by (simp add: StunSocket_Close_def StunSocket_Reset_def StunSocket_IsValid_def)
  have f: "[0..<4] = [0, 1, 2, 3 :: nat]" by (simp add: upt_rec)
  obtain a b c' d where arr: "sv_arrSockets sv = [a, b, c', d]"
    using assms by (auto simp: numeral_eq_Suc length_Suc_conv)
  have s: "sv_arrSockets (snd (StunServer_Stop sv)) = [a, b, c', d]" by (simp add: StunServer_Stop_def arr Let_def)
  show "\<forall>r < 4. \<not> StunSocket_IsValid (sv_arrSockets (snd (StunServer_Shutdown sv)) ! r)"
    "sv_threads (snd (StunServer_Shutdown sv)) = []" "length (sv_arrSockets (snd (StunServer_Shutdown sv))) = 4"
    using c [of a] c [of b] c [of c'] c [of d] by (auto simp: StunServer_Shutdown_def f s case_prod_beta four Let_def)
qed

lemma AddConfigured_length:
  "length (sv_arrSockets (snd (snd (snd (StunServer_AddConfigured os b role addr adv reuse st))))) = length (sv_arrSockets (snd (snd st)))"
  by (simp add: StunServer_AddConfigured_def StunServer_AddSocket_def case_prod_beta Let_def)

lemma Threads_loop_sockets: "sv_arrSockets (snd (StunServer_Threads_loop tsa auth lim indices sv)) = sv_arrSockets sv"
  by (induction indices arbitrary: sv) (simp_all add: case_prod_beta Let_def)

lemma Initialize_body_length:
  "length (sv_arrSockets sv) = 4 \<Longrightarrow> length (sv_arrSockets (snd (StunServer_Initialize_body os config sv))) = 4"
  unfolding StunServer_Initialize_body_def Let_def case_prod_beta
  by (auto intro!: snd_ChkTo [where P = "\<lambda>sv. length (sv_arrSockets sv) = 4"] simp: AddConfigured_length Threads_loop_sockets)

lemma Initialize_parts:
  assumes "StunServer_Initialize os config sv = (hr, sv')" "SUCCEEDED hr" "length (sv_arrSockets sv) = 4"
  obtains tsa where "server_up config tsa sv'"
proof -
  let ?sv = "snd (StunServer_Shutdown sv)"
  note S = Shutdown_closes [OF assms(3)]
  have start: "sockets_added config 0 (0, replicate 4 \<lparr>ta_addr = CSocketAddress_zero, ta_fValid = False\<rparr>, ?sv)"
    using S by (simp add: sockets_added_def)
  have "StunServer_Initialize_body os config ?sv = (hr, sv')"
    using assms(1,2) by (auto simp: StunServer_Initialize_def Let_def case_prod_beta split: if_splits)
  from Initialize_body_ok [OF this assms(2) start] that show ?thesis by blast
qed

end
