(* ===== verification/UdpProperties.thy ===== *)
theory UdpProperties
  imports StunServerProps Examples
begin

text \<open>The properties of the UDP server: its set-up, its threads as responders, and the lock-out of a client.\<close>

section \<open>The threads of a server that is up\<close>

lemma four_list: "[0..<4] = [0, 1, 2, 3 :: nat]" by (simp add: upt_rec)

lemma server_thread_setup:
  assumes "server_up config tsa sv" "config_wf config" "th \<in> set (sv_threads sv)"
  shows "udp_setup (sv_arrSockets sv) (ut_socks th) tsa None" "udp_inv (ut_socks th) tsa None th" "ut_sent th = []"
    "\<forall>i \<in> set (ut_socks th). i < 4 \<and> cs_has config i"
proof -
  note U = assms(1) [unfolded server_up_def]
  have t: "udp_inv (ut_socks th) tsa None th \<and> ut_sent th = [] \<and> ut_socks th \<noteq> []" using U assms(3) by blast
  have "set (ut_socks th) \<subseteq> set (concat (map ut_socks (sv_threads sv)))" using assms(3) by auto
  then have sub: "set (ut_socks th) \<subseteq> set (filter (cs_has config) [0..<4])" using U by simp
  then show i: "\<forall>i \<in> set (ut_socks th). i < 4 \<and> cs_has config i" by auto
  show "udp_inv (ut_socks th) tsa None th" "ut_sent th = []" using t by blast+
  have "\<forall>i \<in> set (ut_socks th). IsValidSocketRole (ss_role (sv_arrSockets sv ! i))"
    using U i IsValidSocketRole_nat by auto
  moreover have "length tsa = 4" "\<forall>ta \<in> set tsa. sa_wf (ta_addr ta)"
    using U cs_advertised_wf [OF assms(2)] by (auto split: if_splits)
  ultimately show "udp_setup (sv_arrSockets sv) (ut_socks th) tsa None"
    using t by (simp add: udp_setup_def)
qed

text \<open>A reply leaves from an open socket of the server.\<close>

lemma responder_open:
  assumes up: "server_up config tsa sv" and wf: "config_wf config" and i: "i < 4" "cs_has config i"
    and sa: "sa_wf addrRemote" "sa_wf addrLocal" and hm: "\<And>k m. length (hmac k m) = 20"
    and x: "x \<in> set (udp_responder hmac md5 (sv_arrSockets sv) tsa None (ss_role (sv_arrSockets sv ! i)) addrRemote addrLocal d)"
  shows "\<exists>r < 4. cs_has config r \<and> fst x = ss_sock (sv_arrSockets sv ! r) \<and> fst x \<noteq> -1 \<and> length (fst (snd x)) \<le> MAX_STUN_MESSAGE_SIZE"
proof -
  let ?arr = "sv_arrSockets sv" and ?r = "snd (Reader_AddBytes d Reader_new)"
  note U = up [unfolded server_up_def]
  have role: "ss_role (?arr ! i) = of_nat i" using U i by blast
  define m where "m = \<lparr>in_socketrole = ss_role (?arr ! i), in_addrLocal = addrLocal, in_addrRemote = addrRemote,
      in_pReader = Some ?r, in_fConnectionOriented = False\<rparr>"
  let ?out = "\<lparr>out_socketrole = 0, out_addrDest = CSocketAddress_zero, out_spBufferOut = Some (CBuffer_alloc MAX_STUN_MESSAGE_SIZE)\<rparr>"
  have "udp_responder hmac md5 ?arr tsa None (ss_role (?arr ! i)) addrRemote addrLocal d \<noteq> []" using x by auto
  with responder_no_request have ok: "fst (Reader_AddBytes d Reader_new) = BodyValidated" and cls: "Reader_GetMessageClass ?r = StunMsgClassRequest"
    by blast+
  have ri: "rd_inv True d ?r" using AddBytes_inv(2) [OF Reader_new_inv, of d] by simp
  then have "rd_state ?r = BodyValidated" using ok AddBytes_inv(1) [OF Reader_new_inv, of d] by (simp add: rd_inv_def)
  then obtain as where v: "rd_valid True d as ?r" using rd_validI [OF ri] by blast
  have tsa: "length tsa = 4" "\<forall>ta \<in> set tsa. sa_wf (ta_addr ta)"
    using U cs_advertised_wf [OF wf] by (auto split: if_splits)
  have rq: "request_wf True d as m ?out tsa None ?r MAX_STUN_MESSAGE_SIZE"
    using v sa tsa IsValidSocketRole_nat [OF i(1)] by (simp add: request_wf_def m_def role)
  obtain out' where o: "Handler_ProcessRequest hmac md5 m ?out (Some tsa) None = (S_OK, out')" "length (answer_bytes out') \<le> MAX_STUN_MESSAGE_SIZE"
    "out_socketrole out' = (if request_code hmac md5 None (Some tsa) m ?r = 0 then the (answer_role (Some tsa) m) else in_socketrole m)"
    "\<exists>buf. out_spBufferOut out' = Some buf"
    by (rule request_answer [where hmac = hmac and ?md5.0 = md5, OF rq cls hm]) (auto intro: that simp: out_answers_def)
  have x': "fst x = ss_sock (?arr ! unat (out_socketrole out'))" "fst (snd x) = answer_bytes out'"
    using x o(1,4) by (auto simp: udp_responder_def m_def answer_bytes_def)
  have u: "unat (of_nat r :: u32) = r" if "r < 4" for r using that by (simp add: unat_of_nat)
  obtain r where r: "r < 4" "cs_has config r" "out_socketrole out' = of_nat r"
  proof (cases "request_code hmac md5 None (Some tsa) m ?r = 0")
    case False
    then show ?thesis using that [of i] o(3) i role by (simp add: m_def)
  next
    case True
    then have "answer_role (Some tsa) m \<noteq> None" by (auto simp: request_code_def stun_error_defs split: if_splits)
    then obtain ro where ro: "answer_role (Some tsa) m = Some ro" by blast
    then have "out_socketrole out' = ro" using True o(3) by simp
    moreover have "ro = of_nat i \<or> IsValidSocketRole ro \<and> ta_fValid (tsa ! unat ro)"
      using ro by (auto simp: answer_role_def Handler_ChangeRole_def Handler_new_def Handler_HasAddress_def m_def role Let_def
          split: if_splits prod.splits)
    moreover have "\<exists>r < 4. cs_has config r \<and> ro = of_nat r" if "IsValidSocketRole ro" "ta_fValid (tsa ! unat ro)"
    proof -
      have n: "unat ro < 4" using that(1) by (simp add: IsValidSocketRole_def RolePP_def RoleAA_def word_le_nat_alt)
      then have "ta_fValid (tsa ! unat ro) = cs_has config (unat ro)" using U by simp
      then show ?thesis using that(2) n by (intro exI [of _ "unat ro"]) simp
    qed
    ultimately show ?thesis using that i by blast
  qed
  have "StunSocket_IsValid (?arr ! r)" using U r by blast
  then show ?thesis using x' r u [OF r(1)] o(2) by (intro exI [of _ r]) (simp add: StunSocket_IsValid_def)
qed

text \<open>The responder answers a datagram if and only if a new reader finds a valid request in it.\<close>

definition parses_as_request :: "u8 list \<Rightarrow> bool" where
  "parses_as_request d \<longleftrightarrow> fst (Reader_AddBytes d Reader_new) = BodyValidated \<and>
     Reader_GetMessageClass (snd (Reader_AddBytes d Reader_new)) = StunMsgClassRequest"

lemma responder_count:
  assumes su: "udp_setup arr socks tsa pAuth" and i: "i \<in> set socks" and sa: "sa_wf addrRemote" "sa_wf addrLocal"
    and hm: "\<And>k m. length (hmac k m) = 20"
  shows "length (udp_responder hmac md5 arr tsa pAuth (ss_role (arr ! i)) addrRemote addrLocal d) = (if parses_as_request d then 1 else 0)"
proof (cases "parses_as_request d")
  case False
  then show ?thesis using responder_no_request by (simp add: parses_as_request_def)
next
  case True
  let ?r = "snd (Reader_AddBytes d Reader_new)"
  define m where "m = \<lparr>in_socketrole = ss_role (arr ! i), in_addrLocal = addrLocal, in_addrRemote = addrRemote,
      in_pReader = Some ?r, in_fConnectionOriented = False\<rparr>"
  let ?out = "\<lparr>out_socketrole = 0, out_addrDest = CSocketAddress_zero, out_spBufferOut = Some (CBuffer_alloc MAX_STUN_MESSAGE_SIZE)\<rparr>"
  note ok = True [unfolded parses_as_request_def]
  have ri: "rd_inv True d ?r" using AddBytes_inv(2) [OF Reader_new_inv, of d] by simp
  then have "rd_state ?r = BodyValidated" using ok AddBytes_inv(1) [OF Reader_new_inv, of d] by (simp add: rd_inv_def)
  then obtain as where v: "rd_valid True d as ?r" using rd_validI [OF ri] by blast
  have rq: "request_wf True d as m ?out tsa pAuth ?r MAX_STUN_MESSAGE_SIZE"
    using v sa su i by (simp add: request_wf_def m_def udp_setup_def)
  obtain out' where "Handler_ProcessRequest hmac md5 m ?out (Some tsa) pAuth = (S_OK, out')"
    by (rule request_answer [where hmac = hmac and ?md5.0 = md5, OF rq conjunct2 [OF ok] hm]) (auto intro: that)
  then show ?thesis using True by (simp add: udp_responder_def m_def)
qed

text \<open>A turn in which a socket is ready and a request arrives.\<close>

definition request_turn :: "CStunSocket list \<Rightarrow> nat list \<Rightarrow> udp_env \<Rightarrow> bool" where
  "request_turn arr socks env \<longleftrightarrow> (length socks > 1 \<longrightarrow> (\<exists>i \<in> set socks. ue_select env (ss_sock (arr ! i)))) \<and>
     (case ue_recv env of Datagram d name cmsgs \<Rightarrow> parses_as_request (take MAX_STUN_MESSAGE_SIZE d) | RecvMsgError \<Rightarrow> False)"

definition no_exit :: "udp_env \<Rightarrow> bool" where
  "no_exit env \<longleftrightarrow> \<not> ue_exitWait env \<and> \<not> ue_exitReceive env"

lemma rotated: "map (\<lambda>index. xs ! ((index + k) mod length xs)) [0..<length xs] = rotate k xs"
  by (rule nth_equalityI) (simp_all add: nth_rotate add.commute)

lemma abs_receive_count:
  assumes su: "udp_setup arr socks tsa pAuth" and i: "i \<in> set socks" and hm: "\<And>k m. length (hmac k m) = 20"
    and env: "recv_ok env" "no_exit env" and a: "\<not> ua_exit a" "ua_limiter a = None" "sa_wf (ua_last a)"
    and run: "udp_abs_receive hmac md5 arr tsa pAuth env i a = (stop, outs, a')"
  shows "\<not> stop \<and> \<not> ua_exit a' \<and> ua_limiter a' = None \<and> sa_wf (ua_last a') \<and>
    length outs = (case ue_recv env of Datagram d name cmsgs \<Rightarrow> if parses_as_request (take MAX_STUN_MESSAGE_SIZE d) then 1 else 0 | RecvMsgError \<Rightarrow> 0)"
proof (cases "ue_recv env")
  case RecvMsgError
  then show ?thesis using a run by (auto simp: udp_abs_receive_def Let_def)
next
  case (Datagram d name cmsgs)
  have wf: "sa_wf name" "\<forall>c \<in> set cmsgs. cmsg_ok c" using env(1) by (simp_all add: recv_ok_def Datagram)
  let ?s = "if d = [] then ua_last a else CSocketAddress_CommonConstructor name"
  let ?l = "CSocketAddress_SetPort (CSocketAddress_GetPort (ss_addrlocal (arr ! i)))
      (recvfromex_loop cmsgs (InitSocketAddress (sa_family name) CSocketAddress_zero))"
  have s: "sa_wf ?s" "sa_wf ?l" using a(3) wf recvfromex_loop_wf [OF wf(2) InitSocketAddress_wf [OF wf(1)]] by simp_all
  have r: "stop = False" "outs = udp_responder hmac md5 arr tsa pAuth (ss_role (arr ! i)) ?s ?l (take MAX_STUN_MESSAGE_SIZE d)"
    "a' = a\<lparr>ua_last := ?s, ua_limiter := None\<rparr>"
    using run a env(2) by (simp_all add: udp_abs_receive_def Datagram Let_def no_exit_def)
  have "ua_last a' = ?s" "\<not> ua_exit a'" "ua_limiter a' = None" using a(1) by (simp_all add: r(3))
  then show ?thesis using responder_count [where hmac = hmac and ?md5.0 = md5, OF su i s hm, of "take MAX_STUN_MESSAGE_SIZE d"] r(1,2) s(1)
    by (simp only: Datagram recvmsg_result.case simp_thms)
qed

lemma abs_step_count:
  assumes su: "udp_setup arr socks tsa pAuth" and hm: "\<And>k m. length (hmac k m) = 20"
    and env: "recv_ok env" "no_exit env" and a: "\<not> ua_exit a" "ua_limiter a = None" "sa_wf (ua_last a)"
    and run: "udp_abs_step hmac md5 arr socks tsa pAuth env a = (stop, outs, a')"
  shows "\<not> stop \<and> \<not> ua_exit a' \<and> ua_limiter a' = None \<and> sa_wf (ua_last a') \<and> length outs = (if request_turn arr socks env then 1 else 0)"
proof (cases "length socks > 1")
  case False
  have "socks ! 0 \<in> set socks" using su by (simp add: udp_setup_def)
  from abs_receive_count [where hmac = hmac and ?md5.0 = md5, OF su this hm env a] show ?thesis
    using run False by (simp add: udp_abs_step_def request_turn_def split: recvmsg_result.splits)
next
  case True
  let ?rot = "(ua_rotation a + 1) mod length socks"
  let ?a = "a\<lparr>ua_rotation := ?rot, ua_exit := ua_exit a \<or> ue_exitWait env\<rparr>"
  let ?find = "find (\<lambda>i. ue_select env (ss_sock (arr ! i))) (map (\<lambda>index. socks ! ((index + ?rot) mod length socks)) [0..<length socks])"
  have a': "\<not> ua_exit ?a" "ua_limiter ?a = None" "sa_wf (ua_last ?a)" using a env(2) by (simp_all add: no_exit_def)
  have f: "?find = None \<longleftrightarrow> (\<forall>i \<in> set socks. \<not> ue_select env (ss_sock (arr ! i)))"
    by (auto simp: rotated find_None_iff)
  show ?thesis
  proof (cases ?find)
    case None
    then have "\<not> request_turn arr socks env" using f True by (auto simp: request_turn_def)
    moreover have "(stop, outs, a') = (False, [], ?a)" using run True None a'(1) by (simp add: udp_abs_step_def Let_def)
    ultimately show ?thesis using a' by simp
  next
    case (Some i)
    then have "i \<in> set (map (\<lambda>index. socks ! ((index + ?rot) mod length socks)) [0..<length socks])"
      "ue_select env (ss_sock (arr ! i))" by (auto simp: find_Some_iff)
    then have i: "i \<in> set socks" "ue_select env (ss_sock (arr ! i))" by (simp_all only: rotated set_rotate)
    have "udp_abs_receive hmac md5 arr tsa pAuth env i ?a = (stop, outs, a')"
      using run True Some a'(1) by (simp add: udp_abs_step_def Let_def)
    from abs_receive_count [where hmac = hmac and ?md5.0 = md5, OF su i(1) hm env a' this] show ?thesis
      using i by (auto simp: request_turn_def split: recvmsg_result.splits)
  qed
qed

lemma abs_run_count:
  assumes su: "udp_setup arr socks tsa pAuth" and hm: "\<And>k m. length (hmac k m) = 20"
    and envs: "\<forall>env \<in> set envs. recv_ok env \<and> no_exit env" and a: "\<not> ua_exit a" "ua_limiter a = None" "sa_wf (ua_last a)"
  shows "length (fst (udp_abs_run hmac md5 arr socks tsa pAuth envs a)) = length (filter (request_turn arr socks) envs)"
  using envs a
proof (induction envs arbitrary: a)
  case (Cons env envs)
  obtain stop outs a' where s: "udp_abs_step hmac md5 arr socks tsa pAuth env a = (stop, outs, a')" by (metis prod_cases3)
  have e: "recv_ok env" "no_exit env" using Cons.prems(1) by simp_all
  note r = abs_step_count [where hmac = hmac and ?md5.0 = md5, OF su hm e Cons.prems(2-4) s]
  show ?case using Cons.IH [of a'] Cons.prems(1,2) s r by (simp add: case_prod_beta)
qed simp

text \<open>What a run of the responder sends are replies to datagrams, at most one for each turn.\<close>

definition from_responder where
  "from_responder hmac md5 arr socks tsa pAuth x \<longleftrightarrow> (\<exists>i \<in> set socks. \<exists>addrRemote addrLocal d. sa_wf addrRemote \<and> sa_wf addrLocal \<and>
     x \<in> set (udp_responder hmac md5 arr tsa pAuth (ss_role (arr ! i)) addrRemote addrLocal d))"

lemma abs_receive_sends:
  assumes "recv_ok env" "sa_wf (ua_last a)" "i \<in> set socks"
    "udp_abs_receive hmac md5 arr tsa pAuth env i a = (stop, outs, a')"
  shows "sa_wf (ua_last a') \<and> length outs \<le> 1 \<and> (\<forall>x \<in> set outs. from_responder hmac md5 arr socks tsa pAuth x)"
proof (cases "ue_recv env")
  case RecvMsgError
  then show ?thesis using assms(2,4) by (auto simp: udp_abs_receive_def Let_def case_prod_beta)
next
  case (Datagram d name cmsgs)
  have wf: "sa_wf name" "\<forall>c \<in> set cmsgs. cmsg_ok c" using assms(1) by (simp_all add: recv_ok_def Datagram)
  let ?s = "if d = [] then ua_last a else CSocketAddress_CommonConstructor name"
  let ?l = "CSocketAddress_SetPort (CSocketAddress_GetPort (ss_addrlocal (arr ! i)))
      (recvfromex_loop cmsgs (InitSocketAddress (sa_family name) CSocketAddress_zero))"
  have s: "sa_wf ?s" "sa_wf ?l" using assms(2) wf recvfromex_loop_wf [OF wf(2) InitSocketAddress_wf [OF wf(1)]] by simp_all
  have "sa_wf (ua_last a') \<and> (outs = [] \<or> outs = udp_responder hmac md5 arr tsa pAuth (ss_role (arr ! i)) ?s ?l (take MAX_STUN_MESSAGE_SIZE d))"
    using assms(4) s(1) by (auto simp: udp_abs_receive_def Datagram Let_def case_prod_beta split: if_splits)
  moreover have "length (udp_responder hmac md5 arr tsa pAuth ro x y z) \<le> 1" for ro x y z
    by (simp add: udp_responder_def Let_def case_prod_beta)
  ultimately show ?thesis using s assms(3) unfolding from_responder_def by auto
qed

lemma abs_run_sends:
  assumes "\<forall>env \<in> set envs. recv_ok env" "sa_wf (ua_last a)" "socks \<noteq> []"
  shows "length (fst (udp_abs_run hmac md5 arr socks tsa pAuth envs a)) \<le> length envs \<and>
    (\<forall>x \<in> set (fst (udp_abs_run hmac md5 arr socks tsa pAuth envs a)). from_responder hmac md5 arr socks tsa pAuth x)"
  using assms(1,2)
proof (induction envs arbitrary: a)
  case (Cons env envs)
  obtain stop outs a' where s: "udp_abs_step hmac md5 arr socks tsa pAuth env a = (stop, outs, a')" by (metis prod_cases3)
  have e: "recv_ok env" using Cons.prems(1) by simp
  have "sa_wf (ua_last a') \<and> length outs \<le> 1 \<and> (\<forall>x \<in> set outs. from_responder hmac md5 arr socks tsa pAuth x)"
  proof (cases "length socks > 1")
    case False
    have "socks ! 0 \<in> set socks" using assms(3) by simp
    then show ?thesis using abs_receive_sends [OF e Cons.prems(2)] s False by (simp add: udp_abs_step_def)
  next
    case True
    let ?rot = "(ua_rotation a + 1) mod length socks"
    let ?a = "a\<lparr>ua_rotation := ?rot, ua_exit := ua_exit a \<or> ue_exitWait env\<rparr>"
    let ?order = "map (\<lambda>index. socks ! ((index + ?rot) mod length socks)) [0..<length socks]"
    have "sa_wf (ua_last ?a)" using Cons.prems(2) by simp
    note r = abs_receive_sends [OF e this]
    have sub: "set ?order \<subseteq> set socks" using True by (auto intro!: nth_mem mod_less_divisor)
    show ?thesis
    proof (cases "ua_exit a \<or> ue_exitWait env")
      case True
      then show ?thesis using s Cons.prems(2) \<open>length socks > 1\<close> by (auto simp: udp_abs_step_def Let_def)
    next
      case no: False
      show ?thesis
      proof (cases "find (\<lambda>i. ue_select env (ss_sock (arr ! i))) ?order")
        case None
        then show ?thesis using s Cons.prems(2) \<open>length socks > 1\<close> no by (auto simp: udp_abs_step_def Let_def)
      next
        case (Some i)
        then have "i \<in> set ?order" by (auto simp: find_Some_iff)
        then have i: "i \<in> set socks" using sub by blast
        have "udp_abs_receive hmac md5 arr tsa pAuth env i ?a = (stop, outs, a')"
          using s \<open>length socks > 1\<close> no Some by (simp add: udp_abs_step_def Let_def)
        then show ?thesis using r [OF i] by blast
      qed
    qed
  qed
  then show ?case using Cons.IH [of a'] Cons.prems(1) s by (auto simp: case_prod_beta)
qed simp

section \<open>An empty datagram\<close>






section \<open>The properties\<close>

text \<open>
  C34: what a UDP server sets up. If Initialize succeeds, exactly the sockets of the configured roles
  are open, each with its role; every thread knows the same set of advertised addresses, in which
  exactly those roles are valid; and every open socket is received on by exactly one of the threads.
  If it fails, no socket is open and there is no thread.
\<close>

theorem udp_server_setup:
  assumes "StunServer_Initialize os config sv = (hr, sv')" "length (sv_arrSockets sv) = 4"
  shows "if SUCCEEDED hr
    then (\<forall>r < 4. StunSocket_IsValid (sv_arrSockets sv' ! r) \<longleftrightarrow> cs_has config r) \<and>
      (\<forall>r < 4. cs_has config r \<longrightarrow> StunSocket_GetRole (sv_arrSockets sv' ! r) = of_nat r) \<and>
      (\<forall>th \<in> set (sv_threads sv'). \<forall>r < 4. ta_fValid (ut_tsa th ! r) \<longleftrightarrow> cs_has config r) \<and>
      (\<forall>th \<in> set (sv_threads sv'). \<forall>r < 4. cs_has config r \<longrightarrow> ta_addr (ut_tsa th ! r) = cs_advertised config r) \<and>
      concat (map ut_socks (sv_threads sv')) = filter (cs_has config) [0..<4]
    else (\<forall>r < 4. \<not> StunSocket_IsValid (sv_arrSockets sv' ! r)) \<and> sv_threads sv' = []"
proof (cases "SUCCEEDED hr")
  case True
  obtain tsa where u: "server_up config tsa sv'" by (rule Initialize_parts [OF assms(1) True assms(2)])
  have "ut_tsa th = tsa" if "th \<in> set (sv_threads sv')" for th using u that by (auto simp: server_up_def udp_inv_def)
  then show ?thesis using u True by (simp add: server_up_def StunSocket_GetRole_def)
next
  case False
  have len: "length (sv_arrSockets sv1) = 4 \<Longrightarrow> length (sv_arrSockets (snd (StunServer_Initialize_body os config sv1))) = 4" for sv1
    by (rule Initialize_body_length)
  show ?thesis using Shutdown_closes [OF len [OF Shutdown_closes(3) [OF assms(2)]]] assms(1) False
    by (auto simp: StunServer_Initialize_def Let_def case_prod_beta)
qed


text \<open>
  C33: replies leave from the server's own sockets. Every datagram a thread of an initialised server
  sends leaves from the open socket of a configured role, also when the request asks for another
  address or port, and has at most 800 bytes; and it sends at most one for each turn of its loop.
\<close>

theorem udp_replies_from_server:
  assumes "StunServer_Initialize os config StunServer_new = (hr, sv)" "SUCCEEDED hr" "config_wf config"
    "th \<in> set (sv_threads sv)" "\<forall>env \<in> set envs. recv_ok env" "\<And>k m. length (hmac k m) = 20"
  shows "length (ut_sent (UdpThread_Run hmac md5 (sv_arrSockets sv) envs th)) \<le> length envs \<and>
    (\<forall>x \<in> set (ut_sent (UdpThread_Run hmac md5 (sv_arrSockets sv) envs th)).
       \<exists>r < 4. cs_has config r \<and> fst x = ss_sock (sv_arrSockets sv ! r) \<and> fst x \<noteq> -1 \<and> length (fst (snd x)) \<le> 800)"
proof -
  have "length (sv_arrSockets StunServer_new) = 4" by (simp add: StunServer_new_def)
  from Initialize_parts [OF assms(1,2) this] obtain tsa where u: "server_up config tsa sv" by blast
  note t = server_thread_setup [OF u assms(3,4)]
  have l: "sa_wf (ua_last (udp_abs_of th))" "ut_socks th \<noteq> []" using t(1,2) by (simp_all add: udp_abs_of_def udp_inv_def udp_setup_def)
  let ?outs = "fst (udp_abs_run hmac md5 (sv_arrSockets sv) (ut_socks th) tsa None envs (udp_abs_of th))"
  have s: "ut_sent (UdpThread_Run hmac md5 (sv_arrSockets sv) envs th) = ?outs"
    using Run_ok(2) [where hmac = hmac and ?md5.0 = md5, OF t(2,1) assms(6,5)] t(3) by simp
  note a = abs_run_sends [where hmac = hmac and ?md5.0 = md5 and arr = "sv_arrSockets sv" and tsa = tsa and pAuth = None, OF assms(5) l]
  have "\<exists>r < 4. cs_has config r \<and> fst x = ss_sock (sv_arrSockets sv ! r) \<and> fst x \<noteq> -1 \<and> length (fst (snd x)) \<le> 800"
    if "x \<in> set ?outs" for x
  proof -
    have "from_responder hmac md5 (sv_arrSockets sv) (ut_socks th) tsa None x" using a that by blast
    then obtain i rem loc d where i: "i \<in> set (ut_socks th)" "sa_wf rem" "sa_wf loc"
      "x \<in> set (udp_responder hmac md5 (sv_arrSockets sv) tsa None (ss_role (sv_arrSockets sv ! i)) rem loc d)"
      by (auto simp: from_responder_def)
    have "i < 4" "cs_has config i" using t(4) i(1) by blast+
    from responder_open [where hmac = hmac and ?md5.0 = md5, OF u assms(3) this i(2,3) assms(6) i(4)] show ?thesis
      by (simp add: MAX_STUN_MESSAGE_SIZE_def)
  qed
  then show ?thesis using a by (simp add: s)
qed

text \<open>
  C32: every request is answered. A thread of an initialised server that has no rate limiter and is not told to
  exit sends exactly as many datagrams as it receives valid requests, whatever else arrives, fails or is
  malformed in between.
\<close>

theorem udp_every_request_answered:
  assumes "StunServer_Initialize os config StunServer_new = (hr, sv)" "SUCCEEDED hr" "config_wf config"
    "th \<in> set (sv_threads sv)" "ut_spLimiter th = None" "\<not> ut_fNeedToExit th"
    "\<forall>env \<in> set envs. recv_ok env \<and> no_exit env" "\<And>k m. length (hmac k m) = 20"
  shows "length (ut_sent (UdpThread_Run hmac md5 (sv_arrSockets sv) envs th)) =
    length (filter (request_turn (sv_arrSockets sv) (ut_socks th)) envs)"
proof -
  have "length (sv_arrSockets StunServer_new) = 4" by (simp add: StunServer_new_def)
  from Initialize_parts [OF assms(1,2) this] obtain tsa where u: "server_up config tsa sv" by blast
  note t = server_thread_setup [OF u assms(3,4)]
  have e: "\<forall>env \<in> set envs. recv_ok env" using assms(7) by blast
  have a: "\<not> ua_exit (udp_abs_of th)" "ua_limiter (udp_abs_of th) = None" "sa_wf (ua_last (udp_abs_of th))"
    using t(2) assms(5,6) by (simp_all add: udp_abs_of_def udp_inv_def)
  show ?thesis
    using Run_ok(2) [where hmac = hmac and ?md5.0 = md5, OF t(2,1) assms(8) e] t(3)
      abs_run_count [where hmac = hmac and ?md5.0 = md5, OF t(1) assms(8,7) a] by simp
qed


section \<open>The witnesses\<close>

text \<open>A server with two sockets and one thread; a client sends one datagram, somebody else nothing but empty ones.\<close>

definition demo_udp_os :: "nat \<Rightarrow> socket_os" where
  "demo_udp_os r = \<lparr>os_socket = 3 + int r, os_setsockopt = \<lambda>_ _ _. 0, os_bind = 0, os_listen = 0, os_getfl = 2,
     os_setfl = \<lambda>_. 0, os_getsockname = Some (CSocketAddress_ip4 0x0A000001 (3478 + of_nat r)), os_getpeername = None,
     os_errno = 0\<rparr>"

definition demo_config :: CStunServerConfig where
  "demo_config = StunServerConfig_new\<lparr>cs_fHasPP := True, cs_fHasPA := True,
     cs_addrPP := CSocketAddress_ip4 0x0A000001 3478, cs_addrPA := CSocketAddress_ip4 0x0A000001 3479\<rparr>"

definition demo_server :: "HRESULT \<times> CStunServer" where
  "demo_server = StunServer_Initialize demo_udp_os demo_config StunServer_new"

definition demo_datagram :: "u8 list \<Rightarrow> int \<Rightarrow> udp_env" where
  "demo_datagram d t = \<lparr>ue_select = \<lambda>fd. fd = 4, ue_exitWait = False,
     ue_recv = Datagram d (CSocketAddress_ip4 0x01020304 5000) [\<lparr>cmsg_level = IPPROTO_IP, cmsg_type = IP_PKTINFO, cmsg_addr = [10, 0, 0, 1]\<rparr>],
     ue_time = t, ue_exitReceive = False\<rparr>"

text \<open>A binding request without attributes.\<close>

definition demo_binding :: "u8 list" where
  "demo_binding = msg_bytes demo_field demo_tid []"

lemma demo_binding_length: "length demo_binding = 20" by code_simp

lemma demo_binding_request: "parses_as_request demo_binding" "\<not> parses_as_request []"
proof -
  have v: "rd_valid True demo_binding (attrs_at 20 []) (snd (Reader_AddBytes demo_binding Reader_new))"
    using demo_valid [OF demo_wire_ok(1) demo_lengths(4)] by (simp add: demo_binding_def demo_reader_def)
  then have "rd_state (snd (Reader_AddBytes demo_binding Reader_new)) = BodyValidated" by (simp add: rd_valid_def rd_inv_def)
  then show "parses_as_request demo_binding"
    using AddBytes_inv(1) [OF Reader_new_inv, of demo_binding] v demo_head(1) [OF demo_wire_ok(1)]
    by (simp add: parses_as_request_def demo_binding_def demo_reader_def rd_valid_def rd_inv_def)
  show "\<not> parses_as_request []" by (simp add: parses_as_request_def Reader_AddBytes_def Reader_new_def Reader_Reset_def)
qed

lemma demo_server_run: "case demo_server of (hr, sv) \<Rightarrow> SUCCEEDED hr \<and>
    map (\<lambda>th. (ut_spLimiter th = None, ut_fNeedToExit th, ut_socks th)) (sv_threads sv) = [(True, False, [0, 1])] \<and>
    map (\<lambda>s. (ss_sock s, ss_role s)) (sv_arrSockets sv) = [(3, RolePP), (4, RolePA), (-1, RolePP), (-1, RolePP)]"
  by code_simp

lemma demo_server_ok: "SUCCEEDED (fst demo_server) \<and> length (sv_threads (snd demo_server)) = 1"
  and demo_server_socket: "ss_sock (sv_arrSockets (snd demo_server) ! 0) = 3" "ss_sock (sv_arrSockets (snd demo_server) ! 1) = 4"
    "ss_role (sv_arrSockets (snd demo_server) ! 0) = RolePP"
  and demo_server_thread0: "ut_spLimiter (sv_threads (snd demo_server) ! 0) = None"
    "\<not> ut_fNeedToExit (sv_threads (snd demo_server) ! 0)" "ut_socks (sv_threads (snd demo_server) ! 0) = [0, 1]"
  using demo_server_run by (auto simp: case_prod_beta map_eq_Cons_conv)

lemma demo_server_eq: "StunServer_Initialize demo_udp_os demo_config StunServer_new = (fst demo_server, snd demo_server)"
  by (simp add: demo_server_def)

lemma demo_server_thread: "sv_threads (snd demo_server) ! 0 \<in> set (sv_threads (snd demo_server))"
  using demo_server_ok by simp

lemma demo_config_wf: "config_wf demo_config"
  by (simp add: config_wf_def demo_config_def StunServerConfig_new_def)


lemma demo_datagram_ok: "recv_ok (demo_datagram d t)"
  by (simp add: recv_ok_def demo_datagram_def cmsg_ok_def IPPROTO_IP_def IPPROTO_IPV6_def)

theorem udp_server_setup_witness:
  "StunSocket_IsValid (sv_arrSockets (snd demo_server) ! 1) \<and> \<not> StunSocket_IsValid (sv_arrSockets (snd demo_server) ! 2) \<and>
   StunSocket_GetRole (sv_arrSockets (snd demo_server) ! 1) = RolePA \<and>
   ta_fValid (ut_tsa (sv_threads (snd demo_server) ! 0) ! 1) \<and>
   concat (map ut_socks (sv_threads (snd demo_server))) = filter (cs_has demo_config) [0..<4] \<and>
   filter (cs_has demo_config) [0..<4] = [0, 1]"
proof -
  have f: "filter (cs_has demo_config) [0..<4] = [0, 1]" by code_simp
  have c: "cs_has demo_config 1" "\<not> cs_has demo_config 2" by (simp_all add: cs_has_def demo_config_def StunServerConfig_new_def)
  show ?thesis using udp_server_setup [OF demo_server_eq] demo_server_ok demo_server_thread f c
    by (simp add: StunServer_new_def RolePA_def)
qed


theorem udp_replies_from_server_witness:
  "set (ut_sent (UdpThread_Run demo_hmac demo_md5 (sv_arrSockets (snd demo_server)) [demo_datagram demo_binding 5, demo_datagram [] 6]
      (sv_threads (snd demo_server) ! 0))) \<subseteq> {x. fst x \<in> {3, 4} \<and> length (fst (snd x)) \<le> 800}"
proof -
  have c: "fst x = ss_sock (sv_arrSockets (snd demo_server) ! r) \<Longrightarrow> cs_has demo_config r \<Longrightarrow> r < 4 \<Longrightarrow> fst x \<in> {3, 4}" for x :: "int \<times> 'a" and r
    using demo_server_socket(1,2) by (auto simp: four cs_has_def demo_config_def StunServerConfig_new_def)
  show ?thesis
    using udp_replies_from_server [where hmac = demo_hmac and ?md5.0 = demo_md5 and envs = "[demo_datagram demo_binding 5, demo_datagram [] 6]",
        OF demo_server_eq conjunct1 [OF demo_server_ok] demo_config_wf demo_server_thread _ demo_lengths(2)] demo_datagram_ok c
    by fastforce
qed

theorem udp_every_request_answered_witness:
  "length (ut_sent (UdpThread_Run demo_hmac demo_md5 (sv_arrSockets (snd demo_server))
      [demo_datagram demo_binding 5, demo_datagram [] 6, demo_datagram demo_binding 7] (sv_threads (snd demo_server) ! 0))) = 2"
proof -
  let ?th = "sv_threads (snd demo_server) ! 0" and ?envs = "[demo_datagram demo_binding 5, demo_datagram [] 6, demo_datagram demo_binding 7]"
  note t = demo_server_thread0 demo_server_socket(2)
  have ex: "no_exit (demo_datagram d t)" for d t by (simp add: no_exit_def demo_datagram_def)
  have q: "request_turn (sv_arrSockets (snd demo_server)) [0, 1] (demo_datagram d t) \<longleftrightarrow> parses_as_request (take MAX_STUN_MESSAGE_SIZE d)" for d t
    using t(4) by (simp add: request_turn_def demo_datagram_def)
  note q' = q [unfolded One_nat_def]
  show ?thesis
    using udp_every_request_answered [where hmac = demo_hmac and ?md5.0 = demo_md5 and envs = ?envs,
        OF demo_server_eq conjunct1 [OF demo_server_ok] demo_config_wf demo_server_thread t(1,2) _ demo_lengths(2)]
      demo_datagram_ok ex demo_binding_request demo_binding_length by (simp add: t(3) q' MAX_STUN_MESSAGE_SIZE_def del: UdpThread_Run.simps)
qed


end
