(* ===== verification/Adapters.thy ===== *)
theory Adapters
  imports StunSocket StringHelper
begin

text \<open>
  The network adapters of the host (\<^verbatim>\<open>networkutils/adapters.cpp\<close>) and the resolution of names
  (\<^verbatim>\<open>networkutils/resolvehostname.cpp\<close>). The list that \<^verbatim>\<open>getifaddrs\<close> returns, and the functions
  \<^verbatim>\<open>inet_pton\<close> and \<^verbatim>\<open>getaddrinfo\<close> of the C library, are arguments.
\<close>

subsection \<open>The text of an address\<close>

text \<open>The array has room for every address; it is left empty when the conversion fails.\<close>

definition CSocketAddress_ToString :: "(u16 \<Rightarrow> u8 list \<Rightarrow> nat \<Rightarrow> string option) \<Rightarrow> HRESULT \<Rightarrow> CSocketAddress \<Rightarrow> string" where
  "CSocketAddress_ToString inet_ntop errnohr a =
     (case snd (CSocketAddress_ToStringBuffer inet_ntop errnohr (INET6_ADDRSTRLEN + 6) a) of Some sz \<Rightarrow> cstring sz | None \<Rightarrow> [])"

subsection \<open>Adapters\<close>

record ifaddrs =
  ifa_name :: "string option"
  ifa_flags :: u32
  ifa_addr :: "CSocketAddress option"

definition IFF_UP :: u32 where "IFF_UP = 1"
definition IFF_LOOPBACK :: u32 where "IFF_LOOPBACK = 8"

text \<open>The list, or the value of \<^verbatim>\<open>errno\<close>.\<close>

type_synonym getifaddrs_result = "int + ifaddrs list"

definition adapter_usable :: "u16 \<Rightarrow> ifaddrs \<Rightarrow> bool" where
  "adapter_usable family pAdapter \<longleftrightarrow>
     (case ifa_addr pAdapter of None \<Rightarrow> False | Some a \<Rightarrow> sa_family a = family) \<and>
     ifa_flags pAdapter AND IFF_UP \<noteq> 0 \<and> \<not> ifa_flags pAdapter AND IFF_LOOPBACK \<noteq> 0"

text \<open>The walk stops at the second adapter found.\<close>

fun GetDefaultAdapters_loop ::
  "u16 \<Rightarrow> ifaddrs list \<Rightarrow> ifaddrs option \<times> ifaddrs option \<Rightarrow> ifaddrs option \<times> ifaddrs option" where
  "GetDefaultAdapters_loop family [] st = st"
| "GetDefaultAdapters_loop family (pAdapter # rest) (pAddrPrimary, pAddrAlternate) =
     (if adapter_usable family pAdapter
      then (if pAddrPrimary = None then GetDefaultAdapters_loop family rest (Some pAdapter, pAddrAlternate)
            else (pAddrPrimary, Some pAdapter))
      else GetDefaultAdapters_loop family rest (pAddrPrimary, pAddrAlternate))"

definition GetDefaultAdapters :: "u16 \<Rightarrow> ifaddrs list \<Rightarrow> ifaddrs option \<times> ifaddrs option" where
  "GetDefaultAdapters family pList = GetDefaultAdapters_loop family pList (None, None)"

definition HasAtLeastTwoAdapters :: "getifaddrs_result \<Rightarrow> u16 \<Rightarrow> bool" where
  "HasAtLeastTwoAdapters r family =
     (case r of
        Inl errno \<Rightarrow> False
      | Inr pList \<Rightarrow> (case GetDefaultAdapters family pList of
                        (pAdapter1, pAdapter2) \<Rightarrow> pAdapter1 \<noteq> None \<and> pAdapter2 \<noteq> None))"

definition GetBestAddressForSocketBind ::
  "getifaddrs_result \<Rightarrow> bool \<Rightarrow> u16 \<Rightarrow> u16 \<Rightarrow> CSocketAddress \<Rightarrow> HRESULT \<times> CSocketAddress" where
  "GetBestAddressForSocketBind r fPrimary family port pSocketAddr =
     (case r of
        Inl errno \<Rightarrow> (ERRNOHR errno, pSocketAddr)
      | Inr pList \<Rightarrow>
          (let (pAdapter1, pAdapter2) = GetDefaultAdapters family pList
           in case (if fPrimary then pAdapter1 else pAdapter2) of
                None \<Rightarrow> (E_FAIL, pSocketAddr)
              | Some pAdapter \<Rightarrow>
                  (case ifa_addr pAdapter of
                     None \<Rightarrow> (E_UNEXPECTED, pSocketAddr)
                   | Some a \<Rightarrow> (S_OK, CSocketAddress_SetPort port (CSocketAddress_CommonConstructor a)))))"

definition adapter_of_family :: "u16 \<Rightarrow> ifaddrs \<Rightarrow> bool" where
  "adapter_of_family family pAdapter = (case ifa_addr pAdapter of None \<Rightarrow> False | Some a \<Rightarrow> family = sa_family a)"

text \<open>An adapter is looked for by its name, then by its address.\<close>

definition GetSocketAddressForAdapter ::
  "getifaddrs_result \<Rightarrow> (u16 \<Rightarrow> string \<Rightarrow> u8 list option) \<Rightarrow> u16 \<Rightarrow> string option \<Rightarrow> u16 \<Rightarrow> CSocketAddress
   \<Rightarrow> HRESULT \<times> CSocketAddress" where
  "GetSocketAddressForAdapter r inet_pton family pszAdapterName port pSocketAddr =
     (case pszAdapterName of
        None \<Rightarrow> (E_INVALIDARG, pSocketAddr)
      | Some name \<Rightarrow>
          if cstring name = [] then (E_INVALIDARG, pSocketAddr)
          else
            (case r of
               Inl errno \<Rightarrow> (ERRNOHR errno, pSocketAddr)
             | Inr pList \<Rightarrow>
                 (let pAdapterFound =
                        find (\<lambda>p. adapter_of_family family p \<and> (case ifa_name p of None \<Rightarrow> False | Some n \<Rightarrow> n = cstring name)) pList;
                      pAdapterFound =
                        (if pAdapterFound = None \<and> (family = AF_INET \<or> family = AF_INET6)
                         then (case inet_pton family (cstring name) of
                                 None \<Rightarrow> None
                               | Some addrbytes \<Rightarrow>
                                   find (\<lambda>p. adapter_of_family family p \<and>
                                       (if family = AF_INET then sa_addr4 (the (ifa_addr p)) = addrbytes
                                        else sa_addr6 (the (ifa_addr p)) = addrbytes)) pList)
                         else pAdapterFound)
                  in case pAdapterFound of
                       None \<Rightarrow> (E_FAIL, pSocketAddr)
                     | Some p \<Rightarrow> (S_OK, CSocketAddress_SetPort port (CSocketAddress_CommonConstructor (the (ifa_addr p)))))))"

subsection \<open>Names\<close>

text \<open>\<^verbatim>\<open>getaddrinfo\<close> gets the name, the family and whether the name must be numeric; it answers with its code and a list.\<close>

definition ResolveHostName ::
  "(string \<Rightarrow> u16 \<Rightarrow> bool \<Rightarrow> int \<times> CSocketAddress list) \<Rightarrow> string \<Rightarrow> u16 \<Rightarrow> bool \<Rightarrow> CSocketAddress \<Rightarrow> HRESULT \<times> CSocketAddress" where
  "ResolveHostName getaddrinfo pszHostName family fNumericOnly pAddr =
     (let strHostName = StringHelper_Trim (cstring pszHostName)
      in if length strHostName = 0 then (E_INVALIDARG, pAddr)
         else
           (case getaddrinfo strHostName family fNumericOnly of
              (ret, pResultList) \<Rightarrow>
                if ret \<noteq> 0 then (ERRNO_TO_HRESULT ret, pAddr)
                else (case pResultList of
                        [] \<Rightarrow> (E_FAIL, pAddr)
                      | a # _ \<Rightarrow> (S_OK, CSocketAddress_CommonConstructor a))))"

definition NumericIPToAddress ::
  "(u16 \<Rightarrow> string \<Rightarrow> u8 list option) \<Rightarrow> u16 \<Rightarrow> string \<Rightarrow> CSocketAddress \<Rightarrow> HRESULT \<times> CSocketAddress" where
  "NumericIPToAddress inet_pton family pszIP pAddr =
     (if family \<noteq> AF_INET \<and> family \<noteq> AF_INET6 then (E_INVALIDARG, pAddr)
      else if family = AF_INET
      then (case inet_pton family (cstring pszIP) of
              None \<Rightarrow> (E_FAIL, pAddr)
            | Some b \<Rightarrow> (S_OK, CSocketAddress_CommonConstructor (CSocketAddress_zero\<lparr>sa_addr4 := b\<rparr>)))
      else (case inet_pton family (cstring pszIP) of
              None \<Rightarrow> (E_FAIL, pAddr)
            | Some b \<Rightarrow> (S_OK, CSocketAddress_ip6 0 b)))"

end
