(* ===== verification/CmdLine.thy ===== *)
theory CmdLine
  imports StringHelper
begin

text \<open>
  The command line parser (\<^verbatim>\<open>common/cmdlineparser.cpp\<close>). A \<^verbatim>\<open>std::string*\<close> into the caller's arguments
  is the update of the member it points to. \<^verbatim>\<open>getopt_long_only\<close> belongs to the C library: what its
  calls return, in order, is a list, and so are the words left over from \<^verbatim>\<open>optind\<close> on.
\<close>

type_synonym 'a string_ptr = "(string \<Rightarrow> string) \<Rightarrow> 'a \<Rightarrow> 'a"

record 'a OptionDetail =
  od_strName :: string
  od_has_arg :: int
  od_pStrResult :: "'a string_ptr"

record 'a CCmdLineParser =
  cp_options :: "(string option \<times> int) list"
  cp_namelessArgs :: "'a string_ptr list"
  cp_listOptionDetails :: "'a OptionDetail list"

definition CmdLineParser_new :: "'a CCmdLineParser" where
  "CmdLineParser_new = \<lparr>cp_options = [], cp_namelessArgs = [], cp_listOptionDetails = []\<rparr>"

text \<open>The table for the library: names and argument kinds, closed by an empty entry.\<close>

definition CmdLineParser_GenerateOptions :: "'a CCmdLineParser \<Rightarrow> 'a CCmdLineParser" where
  "CmdLineParser_GenerateOptions p =
     p\<lparr>cp_options := map (\<lambda>od. (Some (cstring (od_strName od)), od_has_arg od)) (cp_listOptionDetails p) @ [(None, 0)]\<rparr>"

definition CmdLineParser_AddOption ::
  "string option \<Rightarrow> int \<Rightarrow> 'a string_ptr option \<Rightarrow> 'a CCmdLineParser \<Rightarrow> HRESULT \<times> 'a CCmdLineParser" where
  "CmdLineParser_AddOption pszName has_arg pStrResult p =
     (case pszName of
        None \<Rightarrow> (E_INVALIDARG, p)
      | Some name \<Rightarrow>
          if has_arg < 0 then (E_INVALIDARG, p)
          else if has_arg > 2 then (E_INVALIDARG, p)
          else (case pStrResult of
                  None \<Rightarrow> (E_INVALIDARG, p)
                | Some ptr \<Rightarrow> (S_OK, p\<lparr>cp_listOptionDetails := cp_listOptionDetails p @
                     [\<lparr>od_strName = name, od_has_arg = has_arg, od_pStrResult = ptr\<rparr>]\<rparr>)))"

definition CmdLineParser_AddNonOption :: "'a string_ptr \<Rightarrow> 'a CCmdLineParser \<Rightarrow> HRESULT \<times> 'a CCmdLineParser" where
  "CmdLineParser_AddNonOption pStrResult p = (S_OK, p\<lparr>cp_namelessArgs := cp_namelessArgs p @ [pStrResult]\<rparr>)"

text \<open>A call returns -1 at the end of the options, \<^verbatim>\<open>?\<close> or \<^verbatim>\<open>:\<close> for an error, or the index of an option and its argument.\<close>

datatype getopt_result = GetoptEnd | GetoptError | GetoptOption nat "string option"

definition string_assign :: "'a string_ptr \<Rightarrow> string \<Rightarrow> 'a \<Rightarrow> 'a" where
  "string_assign ptr s = ptr (\<lambda>_. s)"

fun CmdLineParser_options_loop ::
  "'a CCmdLineParser \<Rightarrow> getopt_result list \<Rightarrow> bool \<Rightarrow> 'a \<Rightarrow> bool \<times> 'a" where
  "CmdLineParser_options_loop p [] fError args = (fError, args)"
| "CmdLineParser_options_loop p (GetoptEnd # rets) fError args = (fError, args)"
| "CmdLineParser_options_loop p (GetoptError # rets) fError args = CmdLineParser_options_loop p rets True args"
| "CmdLineParser_options_loop p (GetoptOption index optarg # rets) fError args =
     (let ptr = od_pStrResult (cp_listOptionDetails p ! index)
      in CmdLineParser_options_loop p rets fError
           (if snd (cp_options p ! index) \<noteq> 0 \<and> optarg \<noteq> None then string_assign ptr (the optarg) args
            else string_assign ptr ''1'' args))"

text \<open>The words that are no options go to the unnamed arguments in order; what is left over is ignored.\<close>

fun CmdLineParser_words_loop :: "'a string_ptr list \<Rightarrow> string list \<Rightarrow> 'a \<Rightarrow> 'a" where
  "CmdLineParser_words_loop ptrs [] args = args"
| "CmdLineParser_words_loop ptrs (arg # argv) args =
     (if arg = ''--'' then CmdLineParser_words_loop ptrs argv args
      else (case ptrs of [] \<Rightarrow> args
            | ptr # ptrs' \<Rightarrow> CmdLineParser_words_loop ptrs' argv (string_assign ptr arg args)))"

text \<open>The result, the error flag and the arguments.\<close>

definition CmdLineParser_ParseCommandLine ::
  "getopt_result list \<Rightarrow> string list \<Rightarrow> 'a CCmdLineParser \<Rightarrow> 'a \<Rightarrow> HRESULT \<times> bool \<times> 'a" where
  "CmdLineParser_ParseCommandLine rets argv p args =
     (let p = CmdLineParser_GenerateOptions p;
          (fError, args) = CmdLineParser_options_loop p rets False args
      in (S_OK, fError, CmdLineParser_words_loop (cp_namelessArgs p) argv args))"

subsection \<open>What the parser does\<close>

text \<open>An option the library reports sets its own argument, the last one wins; the words fill the unnamed arguments.\<close>

lemma options_loop_append:
  assumes "\<forall>r \<in> set rets. r \<noteq> GetoptEnd"
  shows "CmdLineParser_options_loop p (rets @ rets') e args =
    (case CmdLineParser_options_loop p rets e args of (e', args') \<Rightarrow> CmdLineParser_options_loop p rets' e' args')"
  using assms by (induction p rets e args rule: CmdLineParser_options_loop.induct) (simp_all add: Let_def)

lemma options_loop_error: "fst (CmdLineParser_options_loop p rets e args) \<longleftrightarrow> e \<or> GetoptError \<in> set (takeWhile (\<lambda>r. r \<noteq> GetoptEnd) rets)"
  by (induction p rets e args rule: CmdLineParser_options_loop.induct) (simp_all add: Let_def)

end
