(* ===== verification/ServerMain.thy ===== *)
theory ServerMain
  imports StunServer Adapters CmdLine
begin

text \<open>
  The server program (\<^verbatim>\<open>server/main.cpp\<close>): its arguments, from the command line or from a file, the
  configurations built from them and the servers started with these. What the system answers while a
  configuration is built is the record \<open>main_os\<close>, what it answers for a whole server the record \<open>server_env\<close>.
  The JSON parser of the file, logging and usage texts are left out.
\<close>

subsection \<open>The arguments\<close>

record StartupArgs =
  arg_strMode :: string
  arg_strPrimaryInterface :: string
  arg_strAltInterface :: string
  arg_strPrimaryPort :: string
  arg_strAltPort :: string
  arg_strPrimaryAdvertised :: string
  arg_strAlternateAdvertised :: string
  arg_strFamily :: string
  arg_strProtocol :: string
  arg_strHelp :: string
  arg_strVerbosity :: string
  arg_strMaxConnections :: string
  arg_strDosProtect :: string
  arg_strConfigFile :: string
  arg_strReuseAddr :: string

definition StartupArgs_new :: StartupArgs where
  "StartupArgs_new = \<lparr>arg_strMode = [], arg_strPrimaryInterface = [], arg_strAltInterface = [], arg_strPrimaryPort = [],
     arg_strAltPort = [], arg_strPrimaryAdvertised = [], arg_strAlternateAdvertised = [], arg_strFamily = [],
     arg_strProtocol = [], arg_strHelp = [], arg_strVerbosity = [], arg_strMaxConnections = [], arg_strDosProtect = [],
     arg_strConfigFile = [], arg_strReuseAddr = []\<rparr>"

definition no_argument :: int where "no_argument = 0"
definition required_argument :: int where "required_argument = 1"

definition ServerMain_options :: "StartupArgs CCmdLineParser" where
  "ServerMain_options =
     fold (\<lambda>(name, has_arg, ptr) p. snd (CmdLineParser_AddOption (Some name) has_arg (Some ptr) p))
       [(''mode'', required_argument, arg_strMode_update),
        (''primaryinterface'', required_argument, arg_strPrimaryInterface_update),
        (''altinterface'', required_argument, arg_strAltInterface_update),
        (''primaryadvertised'', required_argument, arg_strPrimaryAdvertised_update),
        (''altadvertised'', required_argument, arg_strAlternateAdvertised_update),
        (''primaryport'', required_argument, arg_strPrimaryPort_update),
        (''altport'', required_argument, arg_strAltPort_update),
        (''family'', required_argument, arg_strFamily_update),
        (''protocol'', required_argument, arg_strProtocol_update),
        (''maxconn'', required_argument, arg_strMaxConnections_update),
        (''help'', no_argument, arg_strHelp_update),
        (''verbosity'', required_argument, arg_strVerbosity_update),
        (''ddp'', no_argument, arg_strDosProtect_update),
        (''configfile'', required_argument, arg_strConfigFile_update),
        (''reuseaddr'', no_argument, arg_strReuseAddr_update)] CmdLineParser_new"

definition ServerMain_ParseCommandLineArgs :: "getopt_result list \<Rightarrow> string list \<Rightarrow> StartupArgs \<Rightarrow> HRESULT \<times> StartupArgs" where
  "ServerMain_ParseCommandLineArgs rets argv args =
     (case CmdLineParser_ParseCommandLine rets argv ServerMain_options args of
        (_, fError, args) \<Rightarrow> (if fError then E_INVALIDARG else S_OK, args))"

text \<open>The file is the list of the tables under \<^verbatim>\<open>configurations\<close>, or an error of the JSON library.\<close>

definition ServerMain_FromTable :: "(string \<Rightarrow> string option) \<Rightarrow> StartupArgs" where
  "ServerMain_FromTable child =
     (let get = (\<lambda>key. case child key of None \<Rightarrow> [] | Some v \<Rightarrow> v)
      in StartupArgs_new\<lparr>arg_strMode := get ''mode'', arg_strPrimaryInterface := get ''primaryinterface'',
           arg_strAltInterface := get ''altinterface'', arg_strPrimaryAdvertised := get ''primaryadvertised'',
           arg_strAlternateAdvertised := get ''altadvertised'', arg_strPrimaryPort := get ''primaryport'',
           arg_strAltPort := get ''altport'', arg_strFamily := get ''family'', arg_strProtocol := get ''protocol'',
           arg_strMaxConnections := get ''maxconn'', arg_strDosProtect := get ''ddp'', arg_strReuseAddr := get ''reuseaddr''\<rparr>)"

definition ServerMain_LoadConfigsFromFile :: "(string \<Rightarrow> string option) list option \<Rightarrow> HRESULT \<times> StartupArgs list" where
  "ServerMain_LoadConfigsFromFile tree =
     (case tree of
        None \<Rightarrow> (E_FAIL, [])
      | Some root \<Rightarrow>
          (let configurations = map ServerMain_FromTable root
           in if length configurations = 0 then (E_FAIL, []) else (S_OK, configurations)))"

subsection \<open>The configuration\<close>

text \<open>\<open>mo_getifaddrs n\<close> is what the call of \<^verbatim>\<open>getifaddrs\<close> number \<open>n\<close> returns.\<close>

record main_os =
  mo_getifaddrs :: "nat \<Rightarrow> getifaddrs_result"
  mo_inet_pton :: "u16 \<Rightarrow> string \<Rightarrow> u8 list option"
  mo_inet_ntop :: "u16 \<Rightarrow> u8 list \<Rightarrow> nat \<Rightarrow> string option"
  mo_errno :: int

datatype ServerMode = Basic | Full

text \<open>The name of the interface chosen is its address without the port.\<close>

definition until_last :: "char \<Rightarrow> string \<Rightarrow> string" where
  "until_last ch s = (if ch \<in> set s then rev (tl (dropWhile (\<lambda>c. c \<noteq> ch) (rev s))) else s)"

definition ResolveAdapterName ::
  "main_os \<Rightarrow> getifaddrs_result \<Rightarrow> bool \<Rightarrow> u16 \<Rightarrow> string \<Rightarrow> u16 \<Rightarrow> CSocketAddress \<Rightarrow> HRESULT \<times> string \<times> CSocketAddress" where
  "ResolveAdapterName os r fPrimary family strAdapterName port pAddr =
     (if length strAdapterName = 0
      then
        (case GetBestAddressForSocketBind r fPrimary family port pAddr of
           (hr, pAddr) \<Rightarrow>
             (hr, if SUCCEEDED hr
                  then until_last CHR '':'' (CSocketAddress_ToString (mo_inet_ntop os) (ERRNOHR (mo_errno os)) pAddr)
                  else strAdapterName, pAddr))
      else
        (case GetSocketAddressForAdapter r (mo_inet_pton os) family (Some strAdapterName) port pAddr of
           (hr, pAddr) \<Rightarrow> (hr, strAdapterName, pAddr)))"

definition ServerMain_Normalize :: "StartupArgs \<Rightarrow> StartupArgs" where
  "ServerMain_Normalize args =
     (let args = arg_strMode_update StringHelper_ToLower args;
          args = arg_strMode_update StringHelper_Trim args;
          args = arg_strPrimaryInterface_update StringHelper_Trim args;
          args = arg_strAltInterface_update StringHelper_Trim args;
          args = arg_strPrimaryPort_update StringHelper_Trim args;
          args = arg_strAltPort_update StringHelper_Trim args;
          args = arg_strFamily_update StringHelper_Trim args;
          args = arg_strProtocol_update StringHelper_ToLower args;
          args = arg_strProtocol_update StringHelper_Trim args;
          args = arg_strPrimaryAdvertised_update StringHelper_Trim args
      in arg_strAlternateAdvertised_update StringHelper_Trim args)"

definition ServerMain_Mode :: "string \<Rightarrow> HRESULT \<times> ServerMode" where
  "ServerMain_Mode strMode =
     (if length strMode > 0
      then (if strMode = ''basic'' then (S_OK, Basic)
            else if strMode = ''full'' then (S_OK, Full)
            else (E_INVALIDARG, Basic))
      else (S_OK, Basic))"

definition ServerMain_Family :: "string \<Rightarrow> HRESULT \<times> u16" where
  "ServerMain_Family strFamily =
     (if length strFamily > 0
      then (if strFamily = ''4'' then (S_OK, AF_INET)
            else if strFamily = ''6'' then (S_OK, AF_INET6)
            else (E_INVALIDARG, AF_INET))
      else (S_OK, AF_INET))"

text \<open>The constructor of the configuration has set \<^verbatim>\<open>fTCP\<close> to false.\<close>

definition ServerMain_Protocol :: "string \<Rightarrow> CStunServerConfig \<Rightarrow> HRESULT \<times> CStunServerConfig" where
  "ServerMain_Protocol strProtocol config =
     (if length strProtocol > 0
      then (if strProtocol \<noteq> ''udp'' \<and> strProtocol \<noteq> ''tcp'' then (E_INVALIDARG, config)
            else (S_OK, config\<lparr>cs_fTCP := (strProtocol = ''tcp'')\<rparr>))
      else (S_OK, config))"

definition ServerMain_MaxConnections :: "string \<Rightarrow> CStunServerConfig \<Rightarrow> HRESULT \<times> CStunServerConfig" where
  "ServerMain_MaxConnections strMaxConnections config =
     (if length strMaxConnections > 0
      then
        (if cs_fTCP config = False then (S_OK, config\<lparr>cs_nMaxConnections := 0\<rparr>)
         else (case StringHelper_ValidateNumberString (Some strMaxConnections) 1 100000 0 of
                 (hr, nMaxConnections) \<Rightarrow>
                   if FAILED hr then (hr, config)
                   else (hr, config\<lparr>cs_nMaxConnections := word_of_int nMaxConnections\<rparr>)))
      else (S_OK, config))"

definition ServerMain_Port :: "string \<Rightarrow> int \<Rightarrow> HRESULT \<times> int" where
  "ServerMain_Port strPort nPort =
     (if length strPort > 0 then StringHelper_ValidateNumberString (Some strPort) 0x0001 0xffff nPort else (S_OK, nPort))"

definition ServerMain_BasicAddresses ::
  "main_os \<Rightarrow> string \<Rightarrow> u16 \<Rightarrow> int \<Rightarrow> CStunServerConfig \<Rightarrow> HRESULT \<times> CStunServerConfig" where
  "ServerMain_BasicAddresses os strPrimaryInterface family nPrimaryPort config =
     (let port = word_of_int nPrimaryPort
      in if length strPrimaryInterface = 0
         then
           (if family = AF_INET then (S_OK, config\<lparr>cs_addrPP := CSocketAddress_ip4 0 port, cs_fHasPP := True\<rparr>)
            else if family = AF_INET6
            then (S_OK, config\<lparr>cs_addrPP := CSocketAddress_SetPort port (CSocketAddress_ip6 0 (replicate 16 0)), cs_fHasPP := True\<rparr>)
            else (S_OK, config))
         else
           (case GetSocketAddressForAdapter (mo_getifaddrs os 1) (mo_inet_pton os) family (Some strPrimaryInterface) port
                   CSocketAddress_zero of
              (hr, addr) \<Rightarrow> if FAILED hr then (hr, config) else (hr, config\<lparr>cs_addrPP := addr, cs_fHasPP := True\<rparr>)))"

definition ServerMain_FullAddresses ::
  "main_os \<Rightarrow> string \<Rightarrow> string \<Rightarrow> u16 \<Rightarrow> int \<Rightarrow> int \<Rightarrow> bool \<Rightarrow> CStunServerConfig \<Rightarrow> HRESULT \<times> CStunServerConfig" where
  "ServerMain_FullAddresses os strPrimaryInterface strAltInterface family nPrimaryPort nAltPort fHasAtLeastTwoAdapters config =
     (let portPrimary = word_of_int nPrimaryPort; portAlternate = word_of_int nAltPort
      in if fHasAtLeastTwoAdapters = False then (E_UNEXPECTED, config)
         else
           ChkTo (\<lambda>_. config) (ResolveAdapterName os (mo_getifaddrs os 1) True family strPrimaryInterface 0 CSocketAddress_zero)
             (\<lambda>hr (_, addrPrimary).
           ChkTo (\<lambda>_. config) (ResolveAdapterName os (mo_getifaddrs os 2) False family strAltInterface 0 CSocketAddress_zero)
             (\<lambda>hr (_, addrAlternate).
              if CSocketAddress_IsSameIP addrPrimary addrAlternate then (E_INVALIDARG, config)
              else
                (hr, config\<lparr>cs_addrPP := CSocketAddress_SetPort portPrimary addrPrimary, cs_fHasPP := True,
                       cs_addrPA := CSocketAddress_SetPort portAlternate addrPrimary, cs_fHasPA := True,
                       cs_addrAP := CSocketAddress_SetPort portPrimary addrAlternate, cs_fHasAP := True,
                       cs_addrAA := CSocketAddress_SetPort portAlternate addrAlternate, cs_fHasAA := True\<rparr>))))"

text \<open>The strings are those of the arguments as they were given, not the trimmed ones.\<close>

definition ServerMain_Advertised ::
  "main_os \<Rightarrow> string \<Rightarrow> string \<Rightarrow> u16 \<Rightarrow> ServerMode \<Rightarrow> CStunServerConfig \<Rightarrow> HRESULT \<times> CStunServerConfig" where
  "ServerMain_Advertised os pszPrimaryAdvertised pszAltAdvertised family mode config =
     Chk (if \<not> StringHelper_IsNullOrEmpty (Some pszPrimaryAdvertised)
          then (case NumericIPToAddress (mo_inet_pton os) family pszPrimaryAdvertised (cs_addrPrimaryAdvertised config) of
                  (hr, addr) \<Rightarrow> (hr, config\<lparr>cs_addrPrimaryAdvertised := addr\<rparr>))
          else (S_OK, config))
       (\<lambda>hr config.
         if \<not> StringHelper_IsNullOrEmpty (Some pszAltAdvertised)
         then
           (if mode \<noteq> Full \<and> cs_fHasAA config then (E_INVALIDARG, config)
            else (case NumericIPToAddress (mo_inet_pton os) family pszAltAdvertised (cs_addrAlternateAdvertised config) of
                    (hr, addr) \<Rightarrow> (hr, config\<lparr>cs_addrAlternateAdvertised := addr\<rparr>)))
         else (S_OK, config))"

definition BuildServerConfigurationFromArgs ::
  "main_os \<Rightarrow> StartupArgs \<Rightarrow> CStunServerConfig option \<Rightarrow> HRESULT \<times> CStunServerConfig option" where
  "BuildServerConfigurationFromArgs os argsIn pConfigOut =
     (let args = ServerMain_Normalize argsIn
      in if pConfigOut = None then (E_INVALIDARG, pConfigOut)
         else
           ChkTo (\<lambda>_. pConfigOut) (ServerMain_Mode (arg_strMode args)) (\<lambda>hr mode.
           ChkTo (\<lambda>_. pConfigOut) (ServerMain_Family (arg_strFamily args)) (\<lambda>hr family.
           ChkTo (\<lambda>_. pConfigOut) (ServerMain_Protocol (arg_strProtocol args) StunServerConfig_new) (\<lambda>hr config.
           ChkTo (\<lambda>_. pConfigOut) (ServerMain_MaxConnections (arg_strMaxConnections args) config) (\<lambda>hr config.
           ChkTo (\<lambda>_. pConfigOut) (ServerMain_Port (arg_strPrimaryPort args) (uint DEFAULT_STUN_PORT)) (\<lambda>hr nPrimaryPort.
           ChkTo (\<lambda>_. pConfigOut) (ServerMain_Port (arg_strAltPort args) (uint DEFAULT_STUN_PORT + 1)) (\<lambda>hr nAltPort.
             if nPrimaryPort = nAltPort then (E_INVALIDARG, pConfigOut)
             else
               (let fHasAtLeastTwoAdapters = HasAtLeastTwoAdapters (mo_getifaddrs os 0) family
                in ChkTo (\<lambda>_. pConfigOut)
                     (if mode = Basic
                      then ServerMain_BasicAddresses os (arg_strPrimaryInterface args) family nPrimaryPort config
                      else ServerMain_FullAddresses os (arg_strPrimaryInterface args) (arg_strAltInterface args) family
                             nPrimaryPort nAltPort fHasAtLeastTwoAdapters config) (\<lambda>hr config.
                   ChkTo (\<lambda>_. pConfigOut) (ServerMain_Advertised os (arg_strPrimaryAdvertised argsIn) (arg_strAlternateAdvertised argsIn) family mode config)
                     (\<lambda>hr config.
                        (let config = config\<lparr>cs_fEnableDosProtection := (length (arg_strDosProtect argsIn) > 0)\<rparr>;
                             config = config\<lparr>cs_fReuseAddr := (length (arg_strReuseAddr argsIn) > 0)\<rparr>
                         in (S_OK, Some config))))))))))))"

subsection \<open>The servers\<close>

record server_env =
  se_main :: main_os
  se_udp :: "nat \<Rightarrow> socket_os"
  se_tcp :: "nat \<Rightarrow> init_env"
  se_uninit :: TransportAddressSet
  se_pthread :: "int list"

text \<open>A server whose initialisation failed is released.\<close>

definition ServerMain_StartUDP :: "server_env \<Rightarrow> CStunServerConfig \<Rightarrow> HRESULT \<times> CStunServer option" where
  "ServerMain_StartUDP env config =
     (case StunServer_Initialize (se_udp env) config StunServer_new of
        (hr, sv) \<Rightarrow>
          if FAILED hr then (hr, None)
          else (case StunServer_Start (se_pthread env) sv of
                  (hr, sv) \<Rightarrow> if FAILED hr then (hr, Some sv) else (S_OK, Some sv)))"

definition ServerMain_StartTCP :: "server_env \<Rightarrow> CStunServerConfig \<Rightarrow> HRESULT \<times> CTCPServer option" where
  "ServerMain_StartTCP env config =
     (case TcpServer_Initialize (se_tcp env) (se_uninit env) config TcpServer_new of
        (hr, ts) \<Rightarrow>
          if FAILED hr then (hr, None)
          else (case TcpServer_Start (se_pthread env) ts of
                  (hr, ts) \<Rightarrow> if FAILED hr then (hr, Some ts) else (S_OK, Some ts)))"

text \<open>The servers of the configurations, up to the first that fails.\<close>

fun ServerMain_Servers_loop ::
  "server_env list \<Rightarrow> StartupArgs list \<Rightarrow> CStunServer list \<Rightarrow> CTCPServer list \<Rightarrow> HRESULT \<times> CStunServer list \<times> CTCPServer list" where
  "ServerMain_Servers_loop envs [] udpServers tcpServers = (S_OK, udpServers, tcpServers)"
| "ServerMain_Servers_loop envs (args # argsVector) udpServers tcpServers =
     (case BuildServerConfigurationFromArgs (se_main (hd envs)) args (Some StunServerConfig_new) of
        (hr, config) \<Rightarrow>
          if FAILED hr then (hr, udpServers, tcpServers)
          else if cs_fTCP (the config)
          then (case ServerMain_StartTCP (hd envs) (the config) of
                  (hr, ts) \<Rightarrow>
                    if FAILED hr then (hr, udpServers, tcpServers)
                    else ServerMain_Servers_loop (tl envs) argsVector udpServers (tcpServers @ [the ts]))
          else (case ServerMain_StartUDP (hd envs) (the config) of
                  (hr, sv) \<Rightarrow>
                    if FAILED hr then (hr, udpServers, tcpServers)
                    else ServerMain_Servers_loop (tl envs) argsVector (udpServers @ [the sv]) tcpServers))"

text \<open>
  The exit code and the servers after they were stopped. The program waits for a signal when all of them
  have started; the threads run meanwhile, which is the argument \<open>running\<close>.
\<close>

definition ServerMain_main ::
  "getopt_result list \<Rightarrow> string list \<Rightarrow> (string \<Rightarrow> (string \<Rightarrow> string option) list option) \<Rightarrow> server_env list
   \<Rightarrow> (CStunServer list \<times> CTCPServer list \<Rightarrow> CStunServer list \<times> CTCPServer list) \<Rightarrow> int
   \<Rightarrow> int \<times> CStunServer list \<times> CTCPServer list" where
  "ServerMain_main rets argv read_json envs running timeNow =
     (case ServerMain_ParseCommandLineArgs rets argv StartupArgs_new of
        (hr, args) \<Rightarrow>
          if FAILED hr then (-1, [], [])
          else if length (arg_strHelp args) > 0 then (-2, [], [])
          else
            (case (if arg_strConfigFile args \<noteq> [] then ServerMain_LoadConfigsFromFile (read_json (arg_strConfigFile args))
                   else (hr, [args])) of
               (hr, argsVector) \<Rightarrow>
                 if FAILED hr then (-3, [], [])
                 else
                   (case ServerMain_Servers_loop envs argsVector [] [] of
                      (hr, servers) \<Rightarrow>
                        (let (udpServers, tcpServers) = (if SUCCEEDED hr then running servers else servers)
                         in (0, map (\<lambda>sv. snd (StunServer_Stop sv)) udpServers,
                             map (\<lambda>ts. snd (TcpServer_Stop timeNow ts)) tcpServers)))))"

end
