(* ===== verification/ServerMainProps.thy ===== *)
theory ServerMainProps
  imports ServerMain UdpProperties TcpDemo
begin

unbundle bit_operations_syntax

text \<open>The properties of the server program: the configurations it builds and the servers it starts with them.\<close>

section \<open>Addresses\<close>

text \<open>The adapters' internet addresses are well formed, and \<^verbatim>\<open>inet_pton\<close> gives addresses of their family's length.\<close>

definition adapters_ok :: "getifaddrs_result \<Rightarrow> bool" where
  "adapters_ok r \<longleftrightarrow> (case r of Inl _ \<Rightarrow> True | Inr l \<Rightarrow>
     (\<forall>p \<in> set l. \<forall>a. ifa_addr p = Some a \<and> (sa_family a = AF_INET \<or> sa_family a = AF_INET6) \<longrightarrow> sa_wf a))"

definition main_os_ok :: "main_os \<Rightarrow> bool" where
  "main_os_ok os \<longleftrightarrow> (\<forall>n. adapters_ok (mo_getifaddrs os n)) \<and>
     (\<forall>s b. mo_inet_pton os AF_INET s = Some b \<longrightarrow> length b = 4) \<and> (\<forall>s b. mo_inet_pton os AF_INET6 s = Some b \<longrightarrow> length b = 16)"

lemma DefaultAdapters_loop:
  assumes "GetDefaultAdapters_loop family l (a, b) = (a', b')"
  shows "(a' = a \<or> (\<exists>p. a' = Some p \<and> p \<in> set l \<and> adapter_usable family p)) \<and> (b' = b \<or> (\<exists>p. b' = Some p \<and> p \<in> set l \<and> adapter_usable family p))"
  using assms by (induction family l "(a, b)" arbitrary: a b rule: GetDefaultAdapters_loop.induct) (auto split: if_splits)

lemma copied_address:
  assumes "sa_wf x"
  shows "sa_wf (CSocketAddress_SetPort port (CSocketAddress_CommonConstructor x))"
    "sa_family (CSocketAddress_SetPort port (CSocketAddress_CommonConstructor x)) = sa_family x"
    "CSocketAddress_GetPort (CSocketAddress_SetPort port (CSocketAddress_CommonConstructor x)) = port"
  using assms by (simp_all only: sa_wf_constructors GetPort_SetPort) (simp add: CSocketAddress_SetPort_def CSocketAddress_CommonConstructor_def)

lemma best_address_ok:
  assumes "GetBestAddressForSocketBind r primary family port a = (hr, a')" "SUCCEEDED hr" "adapters_ok r" "family = AF_INET \<or> family = AF_INET6"
  shows "sa_wf a' \<and> sa_family a' = family \<and> CSocketAddress_GetPort a' = port"
proof -
  obtain l where r: "r = Inr l" using assms(1,2) by (cases r) (auto simp: GetBestAddressForSocketBind_def)
  obtain p1 p2 where d: "GetDefaultAdapters family l = (p1, p2)" by (metis prod.collapse)
  let ?p = "if primary then p1 else p2"
  obtain p x where p: "?p = Some p" "ifa_addr p = Some x" "a' = CSocketAddress_SetPort port (CSocketAddress_CommonConstructor x)"
    using assms(1,2) by (auto simp: GetBestAddressForSocketBind_def r d hresult_defs split: option.splits if_splits)
  have "p \<in> set l \<and> adapter_usable family p"
    using DefaultAdapters_loop [of family l None None p1 p2] d p(1) by (auto simp: GetDefaultAdapters_def split: if_splits)
  then have "sa_family x = family" "sa_wf x" using assms(3,4) p(2) by (auto simp: adapter_usable_def adapters_ok_def r)
  then show ?thesis using copied_address [of x port] by (simp only: p(3) simp_thms)
qed

lemma adapter_address_ok:
  assumes "GetSocketAddressForAdapter r pton family name port a = (hr, a')" "SUCCEEDED hr" "adapters_ok r" "family = AF_INET \<or> family = AF_INET6"
  shows "sa_wf a' \<and> sa_family a' = family \<and> CSocketAddress_GetPort a' = port"
proof -
  obtain l where r: "r = Inr l" using assms(1,2)
    by (cases r) (auto simp: GetSocketAddressForAdapter_def hresult_simps split: option.splits if_splits)
  obtain p where p: "p \<in> set l" "adapter_of_family family p" "a' = CSocketAddress_SetPort port (CSocketAddress_CommonConstructor (the (ifa_addr p)))"
    using assms(1,2)
    by (auto simp: GetSocketAddressForAdapter_def r hresult_simps Let_def dest!: find_SomeD split: option.splits if_splits)
  obtain x where x: "ifa_addr p = Some x" "sa_family x = family" using p(2) by (auto simp: adapter_of_family_def split: option.splits)
  then have "sa_wf x" using assms(3,4) p(1) by (auto simp: adapters_ok_def r)
  then show ?thesis using copied_address [of x port] x by (simp only: p(3) option.sel simp_thms)
qed

lemma resolve_adapter_ok:
  assumes "ResolveAdapterName os r primary family name port a = (hr, name', a')" "SUCCEEDED hr" "adapters_ok r" "family = AF_INET \<or> family = AF_INET6"
  shows "sa_wf a' \<and> sa_family a' = family \<and> CSocketAddress_GetPort a' = port"
  using assms best_address_ok [OF _ assms(2-4)] adapter_address_ok [OF _ assms(2-4)]
  by (auto simp: ResolveAdapterName_def split: prod.splits if_splits)

lemma numeric_ip_ok:
  assumes "NumericIPToAddress (mo_inet_pton os) family ip a = (hr, a')" "main_os_ok os" "sa_wf a"
  shows "sa_wf a'"
proof -
  have "sa_wf (CSocketAddress_zero\<lparr>sa_addr4 := b\<rparr>)" if "length b = 4" for b
    using that by (simp add: sa_wf_def CSocketAddress_zero_def)
  then show ?thesis using assms by (auto simp: NumericIPToAddress_def main_os_ok_def split: if_splits option.splits)
qed

lemma SetPort_same_ip:
  "sa_wf a \<Longrightarrow> sa_wf b \<Longrightarrow> CSocketAddress_IsSameIP (CSocketAddress_SetPort p a) (CSocketAddress_SetPort q b) = CSocketAddress_IsSameIP a b"
  by (simp add: IsSameIP_iff) (simp add: CSocketAddress_SetPort_def sa_ip_def)

section \<open>The parts of the configuration\<close>

lemma port_ok:
  assumes "ServerMain_Port s d = (hr, n)" "SUCCEEDED hr" "1 \<le> d" "d \<le> 65535"
  shows "1 \<le> n \<and> n \<le> 65535"
  using assms by (auto simp: ServerMain_Port_def StringHelper_ValidateNumberString_def SUCCEEDED_def Let_def split: if_splits)

lemma port_word:
  assumes "1 \<le> n" "n \<le> 65535"
  shows "uint (word_of_int n :: u16) = n"
  using assms by (simp add: uint_word_of_int)

lemma protocol_ok:
  assumes "ServerMain_Protocol s c = (hr, c')" "SUCCEEDED hr"
  shows "c' = c \<or> (\<exists>b. c' = c\<lparr>cs_fTCP := b\<rparr>)"
  using assms by (auto simp: ServerMain_Protocol_def hresult_simps split: if_splits)

lemma max_connections_ok:
  assumes "ServerMain_MaxConnections s c = (hr, c')" "SUCCEEDED hr" "cs_nMaxConnections c = 0"
  shows "\<exists>n. c' = c\<lparr>cs_nMaxConnections := n\<rparr> \<and> unat n \<le> 100000 \<and> (n \<noteq> 0 \<longrightarrow> cs_fTCP c)"
proof (cases "length s > 0 \<and> cs_fTCP c")
  case False
  then show ?thesis using assms by (auto simp: ServerMain_MaxConnections_def intro!: exI [of _ "0 :: u32"] split: if_splits)
next
  case True
  obtain hr1 n where v: "StringHelper_ValidateNumberString (Some s) 1 100000 0 = (hr1, n)" by (metis prod.collapse)
  then have h: "SUCCEEDED hr1" "c' = c\<lparr>cs_nMaxConnections := word_of_int n\<rparr>"
    using assms(1,2) True by (auto simp: ServerMain_MaxConnections_def split: if_splits)
  then have "1 \<le> n \<and> n \<le> 100000"
    using v by (auto simp: StringHelper_ValidateNumberString_def SUCCEEDED_def Let_def split: if_splits)
  then have "unat (word_of_int n :: u32) \<le> 100000" by (simp add: unat_eq_nat_uint uint_word_of_int nat_le_iff)
  then show ?thesis using h(2) True by blast
qed

text \<open>The addresses of the roles: in basic mode only the primary one, in full mode all four.\<close>

definition roles_ok :: "bool \<Rightarrow> CStunServerConfig \<Rightarrow> bool" where
  "roles_ok full config \<longleftrightarrow>
     (\<forall>r < 4. cs_has config r \<longleftrightarrow> r = 0 \<or> full) \<and>
     (\<forall>r < 4. sa_wf (cs_addr config r) \<and> (cs_has config r \<longrightarrow> CSocketAddress_GetPort (cs_addr config r) \<noteq> 0)) \<and>
     (full \<longrightarrow> CSocketAddress_IsSameIP (cs_addr config 0) (cs_addr config 1) \<and> CSocketAddress_IsSameIP (cs_addr config 2) (cs_addr config 3) \<and>
        \<not> CSocketAddress_IsSameIP (cs_addr config 0) (cs_addr config 2) \<and>
        CSocketAddress_GetPort (cs_addr config 0) = CSocketAddress_GetPort (cs_addr config 2) \<and>
        CSocketAddress_GetPort (cs_addr config 1) = CSocketAddress_GetPort (cs_addr config 3) \<and>
        CSocketAddress_GetPort (cs_addr config 0) \<noteq> CSocketAddress_GetPort (cs_addr config 1))"

definition no_roles :: "CStunServerConfig \<Rightarrow> bool" where
  "no_roles config \<longleftrightarrow> (\<forall>r < 4. \<not> cs_has config r \<and> cs_addr config r = CSocketAddress_zero)"

text \<open>What the addresses leave as it was.\<close>

definition same_rest :: "CStunServerConfig \<Rightarrow> CStunServerConfig \<Rightarrow> bool" where
  "same_rest c c' \<longleftrightarrow> cs_fTCP c' = cs_fTCP c \<and> cs_nMaxConnections c' = cs_nMaxConnections c \<and>
     cs_fMultiThreadedMode c' = cs_fMultiThreadedMode c"

definition same_advertised :: "CStunServerConfig \<Rightarrow> CStunServerConfig \<Rightarrow> bool" where
  "same_advertised c c' \<longleftrightarrow> cs_addrPrimaryAdvertised c' = cs_addrPrimaryAdvertised c \<and> cs_addrAlternateAdvertised c' = cs_addrAlternateAdvertised c"

lemma basic_ok:
  assumes "ServerMain_BasicAddresses os name family n c = (hr, c')" "SUCCEEDED hr" "main_os_ok os" "no_roles c"
    "family = AF_INET \<or> family = AF_INET6" "1 \<le> n" "n \<le> 65535"
  shows "roles_ok False c' \<and> same_rest c c' \<and> same_advertised c c'"
proof -
  let ?port = "word_of_int n :: u16"
  have port: "?port \<noteq> 0" using port_word [OF assms(6,7)] assms(6) by (metis not_one_le_zero unsigned_0)
  obtain a where a: "c' = c\<lparr>cs_addrPP := a, cs_fHasPP := True\<rparr>" "sa_wf a" "CSocketAddress_GetPort a = ?port"
  proof (cases "name = []")
    case True
    have "CSocketAddress_GetPort (CSocketAddress_ip4 0 p) = p" for p
      by (simp add: CSocketAddress_ip4_def)
    moreover have "c' = c\<lparr>cs_addrPP := CSocketAddress_ip4 0 ?port, cs_fHasPP := True\<rparr> \<or>
        c' = c\<lparr>cs_addrPP := CSocketAddress_SetPort ?port (CSocketAddress_ip6 0 (replicate 16 0)), cs_fHasPP := True\<rparr>"
      using assms(1,5) True by (auto simp: ServerMain_BasicAddresses_def Let_def split: if_splits)
    moreover have "sa_wf (CSocketAddress_ip6 0 (replicate 16 0))" by simp
    ultimately show ?thesis using that GetPort_SetPort sa_wf_constructors(2,4) by blast
  next
    case False
    obtain hr1 a where g: "GetSocketAddressForAdapter (mo_getifaddrs os 1) (mo_inet_pton os) family (Some name) ?port CSocketAddress_zero = (hr1, a)"
      by (metis prod.collapse)
    have h: "SUCCEEDED hr1" "c' = c\<lparr>cs_addrPP := a, cs_fHasPP := True\<rparr>"
      using assms(1,2) False g by (auto simp: ServerMain_BasicAddresses_def Let_def split: if_splits)
    then show ?thesis using that adapter_address_ok [OF g h(1) _ assms(5)] assms(3) by (simp add: main_os_ok_def)
  qed
  have n: "\<not> cs_fHasPA c" "\<not> cs_fHasAP c" "\<not> cs_fHasAA c" "cs_addrPA c = CSocketAddress_zero" "cs_addrAP c = CSocketAddress_zero"
    "cs_addrAA c = CSocketAddress_zero" using assms(4) by (simp_all add: no_roles_def cs_has_def cs_addr_def four)
  show ?thesis using a(2,3) port n
    by (simp add: roles_ok_def same_rest_def same_advertised_def four cs_has_def cs_addr_def a(1) all_conj_distrib)
qed

lemma full_ok:
  assumes "ServerMain_FullAddresses os name1 name2 family n m two c = (hr, c')" "SUCCEEDED hr" "main_os_ok os" "no_roles c"
    "family = AF_INET \<or> family = AF_INET6" "1 \<le> n" "n \<le> 65535" "1 \<le> m" "m \<le> 65535" "n \<noteq> m"
  shows "roles_ok True c' \<and> same_rest c c' \<and> same_advertised c c'"
proof -
  let ?n = "word_of_int n :: u16" and ?m = "word_of_int m :: u16"
  have port: "?n \<noteq> 0" "?m \<noteq> 0" "?n \<noteq> ?m"
    using port_word [OF assms(6,7)] port_word [OF assms(8,9)] assms(6,8,10) by (metis not_one_le_zero unsigned_0)+
  obtain hr1 s1 a where a: "ResolveAdapterName os (mo_getifaddrs os 1) True family name1 0 CSocketAddress_zero = (hr1, s1, a)"
    by (metis prod_cases3)
  obtain hr2 s2 b where b: "ResolveAdapterName os (mo_getifaddrs os 2) False family name2 0 CSocketAddress_zero = (hr2, s2, b)"
    by (metis prod_cases3)
  have h: "SUCCEEDED hr1" "SUCCEEDED hr2" "\<not> CSocketAddress_IsSameIP a b" "c' = c\<lparr>cs_addrPP := CSocketAddress_SetPort ?n a, cs_fHasPP := True,
      cs_addrPA := CSocketAddress_SetPort ?m a, cs_fHasPA := True, cs_addrAP := CSocketAddress_SetPort ?n b, cs_fHasAP := True,
      cs_addrAA := CSocketAddress_SetPort ?m b, cs_fHasAA := True\<rparr>"
    using assms(1,2) by (auto simp: ServerMain_FullAddresses_def Let_def a [unfolded One_nat_def] b ChkTo_def hresult_simps split: if_splits)
  have "sa_wf a" "sa_wf b"
    using resolve_adapter_ok [OF a h(1) _ assms(5)] resolve_adapter_ok [OF b h(2) _ assms(5)] assms(3) by (simp_all add: main_os_ok_def)
  then show ?thesis using h(3) port
    by (auto simp: h(4) roles_ok_def same_rest_def same_advertised_def four cs_has_def cs_addr_def GetPort_SetPort SetPort_same_ip)
      (auto simp: IsSameIP_iff)
qed

lemma advertised_ok:
  assumes "ServerMain_Advertised os s1 s2 family mode c = (hr, c')" "SUCCEEDED hr" "main_os_ok os"
    "sa_wf (cs_addrPrimaryAdvertised c)" "sa_wf (cs_addrAlternateAdvertised c)"
  shows "\<exists>a b. c' = c\<lparr>cs_addrPrimaryAdvertised := a, cs_addrAlternateAdvertised := b\<rparr> \<and> sa_wf a \<and> sa_wf b"
proof -
  obtain hp x where p: "NumericIPToAddress (mo_inet_pton os) family s1 (cs_addrPrimaryAdvertised c) = (hp, x)" by (metis prod.collapse)
  obtain ha y where a: "NumericIPToAddress (mo_inet_pton os) family s2 (cs_addrAlternateAdvertised c) = (ha, y)" by (metis prod.collapse)
  define n1 n2 where "n1 = StringHelper_IsNullOrEmpty (Some s1)" and "n2 = StringHelper_IsNullOrEmpty (Some s2)"
  note d = ServerMain_Advertised_def n1_def [symmetric] n2_def [symmetric] p hresult_simps
  have "n1 \<Longrightarrow> n2 \<Longrightarrow> c' = c" using assms(1) by (simp add: d)
  moreover have "n1 \<Longrightarrow> \<not> n2 \<Longrightarrow> c' = c\<lparr>cs_addrAlternateAdvertised := y\<rparr>"
    using assms(1,2) by (cases "mode \<noteq> Full \<and> cs_fHasAA c") (simp_all add: d a)
  moreover have "\<not> n1 \<Longrightarrow> n2 \<Longrightarrow> c' = c\<lparr>cs_addrPrimaryAdvertised := x\<rparr>"
    using assms(1,2) by (cases "SUCCEEDED hp") (simp_all add: d)
  moreover have "\<not> n1 \<Longrightarrow> \<not> n2 \<Longrightarrow> c' = c\<lparr>cs_addrPrimaryAdvertised := x, cs_addrAlternateAdvertised := y\<rparr>"
    using assms(1,2) by (cases "SUCCEEDED hp"; cases "mode \<noteq> Full \<and> cs_fHasAA c") (simp_all add: d a)
  moreover have "sa_wf x" "sa_wf y" using numeric_ip_ok [OF p assms(3,4)] numeric_ip_ok [OF a assms(3,5)] .
  moreover have "c = c\<lparr>cs_addrPrimaryAdvertised := cs_addrPrimaryAdvertised c, cs_addrAlternateAdvertised := cs_addrAlternateAdvertised c\<rparr>"
    "c\<lparr>cs_addrPrimaryAdvertised := x\<rparr> = c\<lparr>cs_addrPrimaryAdvertised := x, cs_addrAlternateAdvertised := cs_addrAlternateAdvertised c\<rparr>"
    "c\<lparr>cs_addrAlternateAdvertised := y\<rparr> = c\<lparr>cs_addrPrimaryAdvertised := cs_addrPrimaryAdvertised c, cs_addrAlternateAdvertised := y\<rparr>"
    by simp_all
  ultimately show ?thesis using assms(4,5) by metis
qed

section \<open>The configuration as a whole\<close>

lemma ChkTo_success:
  assumes "ChkTo c r k = (hr, x)" "SUCCEEDED hr"
  obtains hr1 y where "r = (hr1, y)" "SUCCEEDED hr1" "k hr1 y = (hr, x)"
  using assms that [of "fst r" "snd r"] by (cases r) (auto simp: ChkTo_def split: if_splits)

definition wants_full :: "StartupArgs \<Rightarrow> bool" where
  "wants_full args \<longleftrightarrow> StringHelper_Trim (StringHelper_ToLower (arg_strMode args)) = ''full''"

lemma no_roles_new: "no_roles StunServerConfig_new"
  by (simp add: no_roles_def StunServerConfig_new_def cs_has_def cs_addr_def four)

lemma family_ok:
  assumes "ServerMain_Family s = (hr, family)"
  shows "family = AF_INET \<or> family = AF_INET6"
  using assms by (auto simp: ServerMain_Family_def split: if_splits)

lemma mode_ok:
  assumes "ServerMain_Mode s = (hr, mode)" "SUCCEEDED hr"
  shows "mode = Full \<longleftrightarrow> s = ''full''"
  using assms by (auto simp: ServerMain_Mode_def hresult_simps split: if_splits)

lemma build_ok:
  assumes "BuildServerConfigurationFromArgs os args (Some c0) = (hr, out)" "SUCCEEDED hr" "main_os_ok os"
  obtains config where "out = Some config" "roles_ok (wants_full args) config" "\<not> cs_fMultiThreadedMode config"
    "unat (cs_nMaxConnections config) \<le> 100000" "cs_nMaxConnections config \<noteq> 0 \<longrightarrow> cs_fTCP config"
    "sa_wf (cs_addrPrimaryAdvertised config)" "sa_wf (cs_addrAlternateAdvertised config)"
    "cs_fEnableDosProtection config \<longleftrightarrow> arg_strDosProtect args \<noteq> []" "cs_fReuseAddr config \<longleftrightarrow> arg_strReuseAddr args \<noteq> []"
proof -
  let ?args = "ServerMain_Normalize args"
  obtain hr1 mode where m: "ServerMain_Mode (arg_strMode ?args) = (hr1, mode)" by (metis prod.collapse)
  obtain hr2 family where f: "ServerMain_Family (arg_strFamily ?args) = (hr2, family)" by (metis prod.collapse)
  obtain hr3 c1 where p: "ServerMain_Protocol (arg_strProtocol ?args) StunServerConfig_new = (hr3, c1)" by (metis prod.collapse)
  obtain hr4 c2 where x: "ServerMain_MaxConnections (arg_strMaxConnections ?args) c1 = (hr4, c2)" by (metis prod.collapse)
  obtain hr5 n where n: "ServerMain_Port (arg_strPrimaryPort ?args) (uint DEFAULT_STUN_PORT) = (hr5, n)" by (metis prod.collapse)
  obtain hr6 k where k: "ServerMain_Port (arg_strAltPort ?args) (uint DEFAULT_STUN_PORT + 1) = (hr6, k)" by (metis prod.collapse)
  obtain hr7 c3 where a: "(if mode = Basic then ServerMain_BasicAddresses os (arg_strPrimaryInterface ?args) family n c2
      else ServerMain_FullAddresses os (arg_strPrimaryInterface ?args) (arg_strAltInterface ?args) family n k
        (HasAtLeastTwoAdapters (mo_getifaddrs os 0) family) c2) = (hr7, c3)" by (metis surj_pair)
  obtain hr8 c4 where v: "ServerMain_Advertised os (arg_strPrimaryAdvertised args) (arg_strAlternateAdvertised args) family mode c3 = (hr8, c4)"
    by (metis prod.collapse)
  have ok: "SUCCEEDED hr1" "SUCCEEDED hr2" "SUCCEEDED hr3" "SUCCEEDED hr4" "SUCCEEDED hr5" "SUCCEEDED hr6" "n \<noteq> k" "SUCCEEDED hr7" "SUCCEEDED hr8"
    "out = Some (c4\<lparr>cs_fEnableDosProtection := (length (arg_strDosProtect args) > 0), cs_fReuseAddr := (length (arg_strReuseAddr args) > 0)\<rparr>)"
    using assms(1,2) unfolding BuildServerConfigurationFromArgs_def Let_def
    by (auto elim!: ChkTo_success simp: m f p x n k a v hresult_simps split: if_splits)
  have d: "cs_nMaxConnections c1 = 0" "no_roles c1" "\<not> cs_fMultiThreadedMode c1" "sa_wf (cs_addrPrimaryAdvertised c1)" "sa_wf (cs_addrAlternateAdvertised c1)"
    using protocol_ok [OF p ok(3)] no_roles_new by (auto simp: StunServerConfig_new_def no_roles_def cs_has_def cs_addr_def)
  obtain w where w: "c2 = c1\<lparr>cs_nMaxConnections := w\<rparr>" "unat w \<le> 100000" "w \<noteq> 0 \<longrightarrow> cs_fTCP c1"
    using max_connections_ok [OF x ok(4) d(1)] by blast
  have d2: "no_roles c2" using d(2) by (simp add: w(1) no_roles_def cs_has_def cs_addr_def)
  have ports: "1 \<le> n" "n \<le> 65535" "1 \<le> k" "k \<le> 65535"
    using port_ok [OF n ok(5)] port_ok [OF k ok(6)] by (simp_all add: DEFAULT_STUN_PORT_def)
  have full: "mode = Full \<longleftrightarrow> wants_full args"
    using mode_ok [OF m ok(1)] by (simp add: wants_full_def ServerMain_Normalize_def Let_def)
  have r: "roles_ok (wants_full args) c3" "same_rest c2 c3" "same_advertised c2 c3"
  proof -
    have "roles_ok (wants_full args) c3 \<and> same_rest c2 c3 \<and> same_advertised c2 c3"
    proof (cases mode)
      case Basic
      then show ?thesis using basic_ok [OF _ ok(8) assms(3) d2 family_ok [OF f] ports(1,2)] a full by auto
    next
      case Full
      then show ?thesis using full_ok [OF _ ok(8) assms(3) d2 family_ok [OF f] ports ok(7)] a full by auto
    qed
    then show "roles_ok (wants_full args) c3" "same_rest c2 c3" "same_advertised c2 c3" by blast+
  qed
  have "sa_wf (cs_addrPrimaryAdvertised c3)" "sa_wf (cs_addrAlternateAdvertised c3)"
    using r(3) d(4,5) by (simp_all add: same_advertised_def w(1))
  from advertised_ok [OF v ok(9) assms(3) this] obtain g h where gh: "c4 = c3\<lparr>cs_addrPrimaryAdvertised := g, cs_addrAlternateAdvertised := h\<rparr>"
    "sa_wf g" "sa_wf h" by blast
  let ?c = "c4\<lparr>cs_fEnableDosProtection := (length (arg_strDosProtect args) > 0), cs_fReuseAddr := (length (arg_strReuseAddr args) > 0)\<rparr>"
  have same: "cs_has ?c = cs_has c3" "cs_addr ?c = cs_addr c3" by (simp_all add: gh(1) cs_has_def cs_addr_def fun_eq_iff)
  have "roles_ok (wants_full args) ?c" using r(1) by (simp only: roles_ok_def same)
  then show ?thesis
    by (rule that [OF ok(10)]) (use r(2) d(3) w gh(2,3) in \<open>simp_all add: gh(1) same_rest_def\<close>)
qed

section \<open>Properties\<close>

text \<open>
  C36: what the server program makes of its arguments. A configuration it accepts is complete and
  consistent: every address is well formed; in basic mode only the primary socket is configured; in full
  mode all four are, on two different addresses with the same two ports, so that the four are pairwise
  different; no configured port is zero; the number of connections is at most 100000 and given for TCP only;
  and there is one thread for all the sockets.
\<close>

theorem server_config_sound:
  assumes "BuildServerConfigurationFromArgs os args (Some c0) = (hr, out)" "SUCCEEDED hr" "main_os_ok os"
  shows "\<exists>config. out = Some config \<and> config_wf config \<and> \<not> cs_fMultiThreadedMode config \<and>
    (\<forall>r < 4. cs_has config r \<longleftrightarrow> r = 0 \<or> wants_full args) \<and>
    (\<forall>r < 4. cs_has config r \<longrightarrow> CSocketAddress_GetPort (cs_addr config r) \<noteq> 0) \<and>
    (\<forall>r < 4. \<forall>r' < 4. cs_has config r \<and> cs_has config r' \<and> r \<noteq> r' \<longrightarrow>
       \<not> CSocketAddress_IsSameIP_and_Port (cs_addr config r) (cs_addr config r')) \<and>
    (\<forall>r < 4. wants_full args \<longrightarrow>
       CSocketAddress_IsSameIP (cs_addr config r) (cs_addr config (r XOR 1)) \<and>
       CSocketAddress_GetPort (cs_addr config r) = CSocketAddress_GetPort (cs_addr config (r XOR 2))) \<and>
    unat (cs_nMaxConnections config) \<le> 100000 \<and> (cs_nMaxConnections config \<noteq> 0 \<longrightarrow> cs_fTCP config)"
proof -
  obtain config where c: "out = Some config" "roles_ok (wants_full args) config" "\<not> cs_fMultiThreadedMode config"
    "unat (cs_nMaxConnections config) \<le> 100000" "cs_nMaxConnections config \<noteq> 0 \<longrightarrow> cs_fTCP config"
    "sa_wf (cs_addrPrimaryAdvertised config)" "sa_wf (cs_addrAlternateAdvertised config)"
    by (rule build_ok [OF assms])
  note R = c(2) [unfolded roles_ok_def]
  have wf: "sa_wf (cs_addr config 0)" "sa_wf (cs_addr config 1)" "sa_wf (cs_addr config 2)" "sa_wf (cs_addr config 3)"
    using R by auto
  have cw: "config_wf config" using wf c(6,7) by (simp add: config_wf_def cs_addr_def numeral_2_eq_2 numeral_3_eq_3)
  have x: "(0 :: nat) XOR 1 = 1" "(1 :: nat) XOR 1 = 0" "(2 :: nat) XOR 1 = 3" "(3 :: nat) XOR 1 = 2"
    "(0 :: nat) XOR 2 = 2" "(1 :: nat) XOR 2 = 3" "(2 :: nat) XOR 2 = 0" "(3 :: nat) XOR 2 = 1" by code_simp+
  have sym: "CSocketAddress_IsSameIP a b \<Longrightarrow> CSocketAddress_IsSameIP b a" for a b
    by (auto simp: CSocketAddress_IsSameIP_def split: if_splits)
  have trans: "CSocketAddress_IsSameIP a b \<Longrightarrow> CSocketAddress_IsSameIP b c \<Longrightarrow> CSocketAddress_IsSameIP a c" for a b c
    by (auto simp: CSocketAddress_IsSameIP_def split: if_splits)
  have pairs: "\<forall>r < 4. wants_full args \<longrightarrow> CSocketAddress_IsSameIP (cs_addr config r) (cs_addr config (r XOR 1)) \<and>
       CSocketAddress_GetPort (cs_addr config r) = CSocketAddress_GetPort (cs_addr config (r XOR 2))"
    using R sym by (simp add: four all_conj_distrib x del: GetPort_bytes)
  have diff: "\<not> CSocketAddress_IsSameIP_and_Port (cs_addr config r) (cs_addr config r')"
    if h: "r < 4" "r' < 4" "cs_has config r" "cs_has config r'" "r \<noteq> r'" for r r'
  proof -
    have full: "wants_full args" using R h by auto
    have ip: "CSocketAddress_IsSameIP (cs_addr config 0) (cs_addr config 1)" "CSocketAddress_IsSameIP (cs_addr config 2) (cs_addr config 3)"
      "\<not> CSocketAddress_IsSameIP (cs_addr config 0) (cs_addr config 2)" using R full by blast+
    have "\<not> CSocketAddress_IsSameIP (cs_addr config 0) (cs_addr config 2)" "\<not> CSocketAddress_IsSameIP (cs_addr config 0) (cs_addr config 3)"
      "\<not> CSocketAddress_IsSameIP (cs_addr config 1) (cs_addr config 2)" "\<not> CSocketAddress_IsSameIP (cs_addr config 1) (cs_addr config 3)"
      "\<not> CSocketAddress_IsSameIP (cs_addr config 2) (cs_addr config 0)" "\<not> CSocketAddress_IsSameIP (cs_addr config 3) (cs_addr config 0)"
      "\<not> CSocketAddress_IsSameIP (cs_addr config 2) (cs_addr config 1)" "\<not> CSocketAddress_IsSameIP (cs_addr config 3) (cs_addr config 1)"
      using ip sym trans by blast+
    moreover have "CSocketAddress_GetPort (cs_addr config 0) \<noteq> CSocketAddress_GetPort (cs_addr config 1)"
      "CSocketAddress_GetPort (cs_addr config 0) = CSocketAddress_GetPort (cs_addr config 2)"
      "CSocketAddress_GetPort (cs_addr config 1) = CSocketAddress_GetPort (cs_addr config 3)" using R full by blast+
    ultimately show ?thesis using h(1,2,5) unfolding four CSocketAddress_IsSameIP_and_Port_def
      by (elim disjE) (simp_all del: GetPort_bytes)
  qed
  show ?thesis using c(1,3-5) cw R pairs diff by blast
qed


text \<open>
  Two limits that disagree. The program accepts 100000 connections for a TCP server, but the server's threads refuse
  them: such a server never starts, whatever the system answers.
\<close>

theorem hundred_thousand_connections_refused:
  "ServerMain_MaxConnections ''100000'' (config\<lparr>cs_fTCP := True\<rparr>) = (S_OK, config\<lparr>cs_fTCP := True, cs_nMaxConnections := 100000\<rparr>) \<and>
   ServerMain_StartTCP env (config\<lparr>cs_nMaxConnections := 100000, cs_fMultiThreadedMode := False\<rparr>) = (E_INVALIDARG, None)"
proof -
  have v: "StringHelper_ValidateNumberString (Some ''100000'') 1 100000 0 = (0, 100000)" by code_simp
  have m: "ServerMain_MaxConnections ''100000'' (config\<lparr>cs_fTCP := True\<rparr>) = (S_OK, config\<lparr>cs_fTCP := True, cs_nMaxConnections := 100000\<rparr>)"
    by (simp add: ServerMain_MaxConnections_def v hresult_defs)
  have i: "fst (Thread_Init ie tl th auth 100000 lim (Thread_new t)) = E_INVALIDARG" for ie tl th auth lim t
    by (simp add: Thread_Init_def Thread_new_eq Let_def hresult_simps)
  have s: "sint (100000 :: u32) = 100000" by (simp add: signed_take_bit_eq_if_positive take_bit_eq_mod)
  have "ServerMain_StartTCP env (config\<lparr>cs_nMaxConnections := 100000, cs_fMultiThreadedMode := False\<rparr>) = (E_INVALIDARG, None)"
    using i by (simp add: ServerMain_StartTCP_def TcpServer_Initialize_def TcpServer_new_def Let_def case_prod_beta s hresult_simps)
  then show ?thesis using m by blast
qed

text \<open>The check for an alternate advertised address in basic mode asks for a flag that is only set in full mode.\<close>

lemma alternate_advertised_in_basic_mode:
  "\<not> cs_fHasAA config \<Longrightarrow> ServerMain_Advertised os p a family Basic config = ServerMain_Advertised os p a family Full config"
  unfolding ServerMain_Advertised_def ChkTo_def by (auto split: prod.splits)

section \<open>Witnesses\<close>

text \<open>A host with two adapters and the loopback device.\<close>

definition demo_adapters :: "ifaddrs list" where
  "demo_adapters = [\<lparr>ifa_name = Some ''lo'', ifa_flags = 9, ifa_addr = Some (CSocketAddress_ip4 0x7f000001 0)\<rparr>,
     \<lparr>ifa_name = Some ''eth0'', ifa_flags = 1, ifa_addr = Some (CSocketAddress_ip4 0x0A000001 0)\<rparr>,
     \<lparr>ifa_name = Some ''eth1'', ifa_flags = 1, ifa_addr = Some (CSocketAddress_ip4 0x0A000002 0)\<rparr>]"

definition demo_main_os :: main_os where
  "demo_main_os = \<lparr>mo_getifaddrs = \<lambda>_. Inr demo_adapters, mo_inet_pton = \<lambda>_ _. None, mo_inet_ntop = \<lambda>_ _ _. Some ''10.0.0.1'', mo_errno = 0\<rparr>"

definition demo_args :: StartupArgs where
  "demo_args = StartupArgs_new\<lparr>arg_strMode := '' Full'', arg_strAltInterface := ''eth1'', arg_strAltPort := ''3500''\<rparr>"

lemma demo_main_os_ok: "main_os_ok demo_main_os"
  by (auto simp: main_os_ok_def adapters_ok_def demo_main_os_def demo_adapters_def)

lemma demo_build_run: "case BuildServerConfigurationFromArgs demo_main_os demo_args (Some StunServerConfig_new) of (hr, out) \<Rightarrow>
    SUCCEEDED hr \<and> (case out of None \<Rightarrow> False | Some c \<Rightarrow> \<not> cs_fTCP c \<and> CSocketAddress_GetPort (cs_addrAA c) = 3500)"
  by code_simp

definition demo_built :: "HRESULT \<times> CStunServerConfig option" where
  "demo_built = BuildServerConfigurationFromArgs demo_main_os demo_args (Some StunServerConfig_new)"

lemma demo_built_ok:
  "BuildServerConfigurationFromArgs demo_main_os demo_args (Some StunServerConfig_new) = (fst demo_built, snd demo_built)"
  "SUCCEEDED (fst demo_built)"
  using demo_build_run by (simp_all add: demo_built_def case_prod_beta)

lemma demo_wants_full: "wants_full demo_args" by code_simp

theorem server_config_sound_witness:
  "\<exists>config. snd demo_built = Some config \<and> config_wf config \<and> cs_has config 3 \<and>
    \<not> CSocketAddress_IsSameIP_and_Port (cs_addr config 1) (cs_addr config 3)"
  using server_config_sound [OF demo_built_ok demo_main_os_ok] demo_wants_full by auto




end
