(* ===== verification/ClientMain.thy ===== *)
theory ClientMain
  imports ClientLogic Adapters CmdLine UdpThread
begin

text \<open>
  The client program (\<^verbatim>\<open>client/clientmain.cpp\<close>): its arguments, the configuration built from them, and the
  two loops that drive the client logic over UDP and over TCP. What the system answers in one turn of a loop
  is the record \<open>udp_client_env\<close> or \<open>tcp_client_env\<close>. The member \<open>uk_sent\<close> records the datagrams handed to
  \<^verbatim>\<open>sendto\<close>. Logging and usage texts are left out; instead of printing them, a loop returns the results.
\<close>

subsection \<open>The configuration\<close>

record ClientCmdLineArgs =
  ca_strRemoteServer :: string
  ca_strRemotePort :: string
  ca_strLocalAddr :: string
  ca_strLocalPort :: string
  ca_strMode :: string
  ca_strFamily :: string
  ca_strProtocol :: string
  ca_strVerbosity :: string
  ca_strHelp :: string

definition ClientCmdLineArgs_new :: ClientCmdLineArgs where
  "ClientCmdLineArgs_new = \<lparr>ca_strRemoteServer = [], ca_strRemotePort = [], ca_strLocalAddr = [], ca_strLocalPort = [],
     ca_strMode = [], ca_strFamily = [], ca_strProtocol = [], ca_strVerbosity = [], ca_strHelp = []\<rparr>"

record ClientSocketConfig =
  csc_family :: u16
  csc_socktype :: int
  csc_addrLocal :: CSocketAddress

record client_os =
  co_getifaddrs :: getifaddrs_result
  co_inet_pton :: "u16 \<Rightarrow> string \<Rightarrow> u8 list option"
  co_getaddrinfo :: "string \<Rightarrow> u16 \<Rightarrow> bool \<Rightarrow> int \<times> CSocketAddress list"

definition ClientMain_Family :: "string \<Rightarrow> HRESULT \<times> u16" where
  "ClientMain_Family strFamily =
     (if StringHelper_IsNullOrEmpty (Some strFamily) = False
      then
        (let optvalue = atoi (bytes_of (cstring strFamily))
         in if optvalue = 4 then (S_OK, AF_INET)
            else if optvalue = 6 then (S_OK, AF_INET6)
            else (E_INVALIDARG, AF_INET))
      else (S_OK, AF_INET))"

text \<open>The second component is \<^verbatim>\<open>fTCP\<close>.\<close>

definition ClientMain_Protocol :: "string \<Rightarrow> HRESULT \<times> bool" where
  "ClientMain_Protocol strProtocol =
     (if StringHelper_IsNullOrEmpty (Some strProtocol) = False
      then (if strProtocol \<noteq> ''udp'' \<and> strProtocol \<noteq> ''tcp'' then (E_INVALIDARG, False)
            else (S_OK, strProtocol = ''tcp''))
      else (S_OK, False))"

definition ClientMain_Port :: "string \<Rightarrow> u16 \<Rightarrow> HRESULT \<times> u16" where
  "ClientMain_Port strPort port =
     (if StringHelper_IsNullOrEmpty (Some strPort) = False
      then (case StringHelper_ValidateNumberString (Some strPort) 1 0xffff 0 of
              (ret, nPort) \<Rightarrow> if ret < 0 then (E_INVALIDARG, port) else (S_OK, word_of_int nPort))
      else (S_OK, port))"

definition ClientMain_LocalAddress :: "client_os \<Rightarrow> u16 \<Rightarrow> string \<Rightarrow> u16 \<Rightarrow> CSocketAddress \<Rightarrow> HRESULT \<times> CSocketAddress" where
  "ClientMain_LocalAddress os family strLocalAddr localport addrLocal =
     (if StringHelper_IsNullOrEmpty (Some strLocalAddr) = False
      then GetSocketAddressForAdapter (co_getifaddrs os) (co_inet_pton os) family (Some strLocalAddr) localport addrLocal
      else if family = AF_INET6 then (S_OK, CSocketAddress_SetPort localport (CSocketAddress_ip6 0 (replicate 16 0)))
      else (S_OK, CSocketAddress_ip4 0 localport))"

text \<open>An unknown mode is reported, but it is no error.\<close>

definition ClientMain_Mode :: "string \<Rightarrow> bool \<Rightarrow> StunClientLogicConfig \<Rightarrow> StunClientLogicConfig" where
  "ClientMain_Mode strMode fTCP config =
     (if StringHelper_IsNullOrEmpty (Some strMode) = False
      then
        (if strMode = ''basic'' then config
         else if strMode = ''full'' then config\<lparr>cfg_fBehaviorTest := True, cfg_fFilteringTest := (fTCP = False)\<rparr>
         else if strMode = ''behavior'' then config\<lparr>cfg_fBehaviorTest := True\<rparr>
         else if strMode = ''filtering'' then config\<lparr>cfg_fFilteringTest := True\<rparr>
         else config)
      else config)"

definition CreateConfigFromCommandLine ::
  "client_os \<Rightarrow> ClientCmdLineArgs \<Rightarrow> StunClientLogicConfig \<Rightarrow> ClientSocketConfig
   \<Rightarrow> HRESULT \<times> StunClientLogicConfig \<times> ClientSocketConfig" where
  "CreateConfigFromCommandLine os args config socketconfig =
     (let config = config\<lparr>cfg_fBehaviorTest := False, cfg_fFilteringTest := False, cfg_fTimeoutIsInstant := False,
            cfg_timeoutSeconds := 0, cfg_uMaxAttempts := 0\<rparr>;
          socketconfig = socketconfig\<lparr>csc_family := AF_INET, csc_socktype := SOCK_DGRAM, csc_addrLocal := CSocketAddress_ip4 0 0\<rparr>
      in ChkTo (\<lambda>_. (config, socketconfig)) (ClientMain_Family (ca_strFamily args)) (\<lambda>hr family.
         (let socketconfig = socketconfig\<lparr>csc_family := family\<rparr>
          in ChkTo (\<lambda>_. (config, socketconfig)) (ClientMain_Protocol (StringHelper_ToLower (ca_strProtocol args))) (\<lambda>hr fTCP.
             (let socketconfig = (if fTCP then socketconfig\<lparr>csc_socktype := SOCK_STREAM\<rparr> else socketconfig);
                  config = (if fTCP then config\<lparr>cfg_uMaxAttempts := 1\<rparr> else config)
              in ChkTo (\<lambda>_. (config, socketconfig)) (ClientMain_Port (ca_strRemotePort args) DEFAULT_STUN_PORT) (\<lambda>hr remoteport.
                 if StringHelper_IsNullOrEmpty (Some (ca_strRemoteServer args)) then (E_INVALIDARG, (config, socketconfig))
                 else
                   ChkTo (\<lambda>addr. (config\<lparr>cfg_addrServer := addr\<rparr>, socketconfig))
                     (ResolveHostName (co_getaddrinfo os) (ca_strRemoteServer args) family False (cfg_addrServer config)) (\<lambda>hr addr.
                   (let config = config\<lparr>cfg_addrServer := CSocketAddress_SetPort remoteport addr\<rparr>
                    in ChkTo (\<lambda>_. (config, socketconfig)) (ClientMain_Port (ca_strLocalPort args) 0) (\<lambda>hr localport.
                       ChkTo (\<lambda>addr. (config, socketconfig\<lparr>csc_addrLocal := addr\<rparr>))
                         (ClientMain_LocalAddress os family (ca_strLocalAddr args) localport (csc_addrLocal socketconfig)) (\<lambda>hr addr.
                         (hr, (ClientMain_Mode (StringHelper_ToLower (ca_strMode args)) fTCP config,
                               socketconfig\<lparr>csc_addrLocal := addr\<rparr>))))))))))))"

subsection \<open>The loop over UDP\<close>

record udp_client_env =
  uc_rnd :: "nat \<Rightarrow> u8"
  uc_time :: u32
  uc_select :: int
  uc_recv :: recvmsg_result

record UdpClient =
  uk_clientlogic :: CStunClientLogic
  uk_stunSocket :: CStunSocket
  uk_spMsg :: CBuffer
  uk_addrDest :: CSocketAddress
  uk_addrRemote :: CSocketAddress
  uk_addrLocal :: CSocketAddress
  uk_sent :: "(u8 list \<times> CSocketAddress) list"

text \<open>The second half of a turn: waiting for a response, and handing it to the logic.\<close>

definition UdpClient_Wait :: "udp_client_env \<Rightarrow> UdpClient \<Rightarrow> UdpClient" where
  "UdpClient_Wait env c =
     (let c = c\<lparr>uk_spMsg := snd (CBuffer_SetSize 0 (uk_spMsg c))\<rparr>
      in if uc_select env > 0
         then
           (case recvfromex (uc_recv env) (CBuffer_GetAllocatedSize (uk_spMsg c)) (uk_addrRemote c) (uk_addrLocal c) of
              (ret, d, addrRemote, addrLocal) \<Rightarrow>
                (let c = c\<lparr>uk_addrRemote := addrRemote, uk_addrLocal := addrLocal,
                           uk_spMsg := (uk_spMsg c)\<lparr>b_data := map_option (poke 0 d) (b_data (uk_spMsg c))\<rparr>\<rparr>
                 in if ret > 0
                    then
                      (let c = c\<lparr>uk_addrLocal := CSocketAddress_SetPort
                                 (CSocketAddress_GetPort (StunSocket_GetLocalAddress (uk_stunSocket c))) (uk_addrLocal c)\<rparr>;
                           c = c\<lparr>uk_spMsg := snd (CBuffer_SetSize (nat ret) (uk_spMsg c))\<rparr>
                       in c\<lparr>uk_clientlogic := snd (ClientLogic_ProcessResponse (uk_spMsg c) (uk_addrRemote c) (uk_addrLocal c) (uk_clientlogic c))\<rparr>)
                    else c))
         else c)"

text \<open>A turn leaves the loop with a code, or goes on.\<close>

definition UdpClient_step :: "udp_client_env \<Rightarrow> UdpClient \<Rightarrow> HRESULT option \<times> UdpClient" where
  "UdpClient_step env c =
     (let c = c\<lparr>uk_spMsg := snd (CBuffer_SetSize 0 (uk_spMsg c))\<rparr>
      in case ClientLogic_GetNextMessage (uc_rnd env) (uk_spMsg c) (uk_addrDest c) (uc_time env) (uk_clientlogic c) of
           (hrRet, spMsg, addrDest, clientlogic) \<Rightarrow>
             (let c = c\<lparr>uk_spMsg := spMsg, uk_addrDest := addrDest, uk_clientlogic := clientlogic\<rparr>
              in if SUCCEEDED hrRet
                 then (None, UdpClient_Wait env (c\<lparr>uk_sent := uk_sent c @ [(buf_bytes (uk_spMsg c), uk_addrDest c)]\<rparr>))
                 else if hrRet = E_STUNCLIENT_STILL_WAITING then (None, UdpClient_Wait env c)
                 else (Some hrRet, c)))"

fun UdpClient_loop :: "udp_client_env list \<Rightarrow> UdpClient \<Rightarrow> HRESULT option \<times> UdpClient" where
  "UdpClient_loop [] c = (None, c)"
| "UdpClient_loop (env # envs) c =
     (case UdpClient_step env c of
        (None, c) \<Rightarrow> UdpClient_loop envs c
      | (Some hrRet, c) \<Rightarrow> (Some hrRet, c))"

text \<open>
  The code and the results that are shown; no code as long as the loop runs. The result of
  \<^verbatim>\<open>EnablePktInfoOption\<close> is ignored.
\<close>

definition UdpClientLoop ::
  "socket_os \<Rightarrow> udp_client_env list \<Rightarrow> StunClientLogicConfig \<Rightarrow> ClientSocketConfig \<Rightarrow> HRESULT option \<times> StunClientResults option" where
  "UdpClientLoop os envs config socketconfig =
     (case ClientLogic_Initialize config CStunClientLogic_new of
        (hr, clientlogic) \<Rightarrow>
          if FAILED hr then (Some hr, None)
          else
            (case StunSocket_UDPInit os (csc_addrLocal socketconfig) RolePP False StunSocket_new of
               (hr, _, stunSocket) \<Rightarrow>
                 if FAILED hr then (Some hr, None)
                 else
                   (let hrPktInfo = StunSocket_EnablePktInfoOption os True stunSocket
                    in case UdpClient_loop envs
                      \<lparr>uk_clientlogic = clientlogic, uk_stunSocket = stunSocket, uk_spMsg = CBuffer_alloc MAX_STUN_MESSAGE_SIZE,
                       uk_addrDest = CSocketAddress_zero, uk_addrRemote = CSocketAddress_zero, uk_addrLocal = CSocketAddress_zero,
                       uk_sent = []\<rparr> of
                      (None, c) \<Rightarrow> (None, None)
                    | (Some hrRet, c) \<Rightarrow>
                        if hrRet = E_STUNCLIENT_RESULTS_READY
                        then (Some hr, Some (snd (ClientLogic_GetResults (uk_clientlogic c))))
                        else (Some hrRet, None))))"

subsection \<open>The loop over TCP\<close>

text \<open>\<open>tk_recv\<close> has one entry for each call of \<^verbatim>\<open>recv\<close>: the bytes (none when the connection was closed) or an error;
  a call beyond the end of the list fails, and so it is for \<open>tk_send\<close>.\<close>

record tcp_client_env =
  tk_os :: socket_os
  tk_rnd :: "nat \<Rightarrow> u8"
  tk_time :: u32
  tk_connect :: int
  tk_send :: "int list"
  tk_recv :: "u8 list option list"
  tk_errno :: int
  tk_after :: socket_os

record TcpClient =
  tk_clientlogic :: CStunClientLogic
  tk_stunsocket :: CStunSocket
  tk_spMsg :: CBuffer
  tk_spMsgReader :: CBuffer
  tk_reader :: CStunMessageReader
  tk_addrDest :: CSocketAddress
  tk_addrLocal :: CSocketAddress
  tk_sent :: "u8 list"

text \<open>The pieces sent, unless a call fails.\<close>

fun TcpClient_Send_loop :: "int list \<Rightarrow> u8 list \<Rightarrow> nat \<Rightarrow> u8 list option" where
  "TcpClient_Send_loop rets pData bytes_sent =
     (if bytes_sent < length pData
      then
        (case rets of
           [] \<Rightarrow> None
         | ret # rets \<Rightarrow> if ret < 0 then None else TcpClient_Send_loop rets pData (bytes_sent + nat ret))
      else Some (take bytes_sent pData))"

text \<open>The bytes are received behind those already in the buffer, of which there are \<open>bytes_recv\<close>.\<close>

fun TcpClient_Recv_loop ::
  "u8 list option list \<Rightarrow> nat \<Rightarrow> nat \<Rightarrow> CBuffer \<Rightarrow> CStunMessageReader \<Rightarrow> bool \<times> CBuffer \<times> CStunMessageReader" where
  "TcpClient_Recv_loop rets max_bytes_recv bytes_recv spMsg reader =
     (let remaining = max_bytes_recv - bytes_recv
      in if remaining > 0
         then
           (let readsize = unat (Reader_HowManyBytesNeeded reader)
            in if readsize = 0 then (True, spMsg, reader)
               else if readsize > remaining then (True, spMsg, reader)
               else
                 (case rets of
                    [] \<Rightarrow> (False, spMsg, reader)
                  | None # rets \<Rightarrow> (False, spMsg, reader)
                  | Some d # rets \<Rightarrow>
                      (let d = take readsize d
                       in if d = [] then (True, spMsg, reader)
                          else
                            (let spMsg = spMsg\<lparr>b_data := map_option (poke bytes_recv d) (b_data spMsg)\<rparr>;
                                 reader = snd (Reader_AddBytes d reader);
                                 bytes_recv = bytes_recv + length d
                             in TcpClient_Recv_loop rets max_bytes_recv bytes_recv (snd (CBuffer_SetSize bytes_recv spMsg)) reader))))
         else (True, spMsg, reader))"

declare TcpClient_Send_loop.simps [simp del] TcpClient_Recv_loop.simps [simp del]

definition TcpClient_step :: "tcp_client_env \<Rightarrow> TcpClient \<Rightarrow> HRESULT option \<times> TcpClient" where
  "TcpClient_step env c =
     (let c = c\<lparr>tk_stunsocket := snd (StunSocket_Close (tk_stunsocket c))\<rparr>
      in case StunSocket_TCPInit (tk_os env) (tk_addrLocal c) RolePP True (tk_stunsocket c) of
           (hr, _, s) \<Rightarrow>
             (let c = c\<lparr>tk_stunsocket := s\<rparr>
              in if FAILED hr then (Some hr, c)
                 else
                   (case ClientLogic_GetNextMessage (tk_rnd env) (tk_spMsg c) (tk_addrDest c) (tk_time env) (tk_clientlogic c) of
                      (hrRet, spMsg, addrDest, clientlogic) \<Rightarrow>
                        (let c = c\<lparr>tk_spMsg := spMsg, tk_addrDest := addrDest, tk_clientlogic := clientlogic\<rparr>
                         in if FAILED hrRet then (Some hrRet, c)
                            else if tk_connect env = -1 then (Some (ERRNOHR (tk_errno env)), c)
                            else
                              (case TcpClient_Send_loop (tk_send env) (buf_bytes (tk_spMsg c)) 0 of
                                 None \<Rightarrow> (Some (ERRNOHR (tk_errno env)), c)
                               | Some sent \<Rightarrow>
                                   (let c = c\<lparr>tk_sent := tk_sent c @ sent\<rparr>;
                                        reader = Reader_Reset (tk_reader c);
                                        reader = reader\<lparr>rd_stream := DS_Attach (Some (tk_spMsgReader c)) True (rd_stream reader)\<rparr>;
                                        (ok, spMsg, reader) = TcpClient_Recv_loop (tk_recv env) (CBuffer_GetAllocatedSize (tk_spMsg c)) 0
                                          (tk_spMsg c) reader;
                                        c = c\<lparr>tk_spMsg := spMsg, tk_reader := reader,
                                              tk_spMsgReader := (case ds_attached_view (rd_stream reader) of Some b \<Rightarrow> b | None \<Rightarrow> tk_spMsgReader c)\<rparr>
                                    in if \<not> ok then (Some (ERRNOHR (tk_errno env)), c)
                                       else
                                         (let c = c\<lparr>tk_stunsocket := StunSocket_UpdateAddresses (tk_after env) (tk_stunsocket c)\<rparr>;
                                              c = c\<lparr>tk_addrLocal := StunSocket_GetLocalAddress (tk_stunsocket c)\<rparr>
                                          in (None, c\<lparr>tk_clientlogic := snd (ClientLogic_ProcessResponse (tk_spMsg c) (tk_addrDest c)
                                                       (tk_addrLocal c) (tk_clientlogic c))\<rparr>))))))))"

fun TcpClient_loop :: "tcp_client_env list \<Rightarrow> TcpClient \<Rightarrow> HRESULT option \<times> TcpClient" where
  "TcpClient_loop [] c = (None, c)"
| "TcpClient_loop (env # envs) c =
     (case TcpClient_step env c of
        (None, c) \<Rightarrow> TcpClient_loop envs c
      | (Some hrRet, c) \<Rightarrow> (Some hrRet, c))"

text \<open>The results that are shown, if the loop was left in the regular way.\<close>

definition TcpClientLoop :: "tcp_client_env list \<Rightarrow> StunClientLogicConfig \<Rightarrow> ClientSocketConfig \<Rightarrow> StunClientResults option" where
  "TcpClientLoop envs config socketconfig =
     (case ClientLogic_Initialize config CStunClientLogic_new of
        (hr, clientlogic) \<Rightarrow>
          if FAILED hr then None
          else
            (case TcpClient_loop envs
               \<lparr>tk_clientlogic = clientlogic, tk_stunsocket = StunSocket_new, tk_spMsg = CBuffer_alloc 1500,
                tk_spMsgReader = CBuffer_alloc 1500, tk_reader = Reader_new, tk_addrDest = CSocketAddress_zero,
                tk_addrLocal = csc_addrLocal socketconfig, tk_sent = []\<rparr> of
               (None, c) \<Rightarrow> None
             | (Some hrRet, c) \<Rightarrow>
                 if hrRet = E_STUNCLIENT_RESULTS_READY then Some (snd (ClientLogic_GetResults (tk_clientlogic c))) else None))"

subsection \<open>The program\<close>

definition ClientMain_options :: "ClientCmdLineArgs CCmdLineParser" where
  "ClientMain_options =
     fold (\<lambda>(name, has_arg, ptr) p. snd (CmdLineParser_AddOption (Some name) has_arg (Some ptr) p))
       [(''localaddr'', 1, ca_strLocalAddr_update), (''localport'', 1, ca_strLocalPort_update), (''mode'', 1, ca_strMode_update),
        (''family'', 1, ca_strFamily_update), (''protocol'', 1, ca_strProtocol_update), (''verbosity'', 1, ca_strVerbosity_update),
        (''help'', 0, ca_strHelp_update)]
       (snd (CmdLineParser_AddNonOption ca_strRemotePort_update (snd (CmdLineParser_AddNonOption ca_strRemoteServer_update CmdLineParser_new))))"

text \<open>The exit code, and the results that were shown.\<close>

definition ClientMain_main ::
  "int \<Rightarrow> getopt_result list \<Rightarrow> string list \<Rightarrow> client_os \<Rightarrow> StunClientLogicConfig \<Rightarrow> ClientSocketConfig \<Rightarrow> socket_os
   \<Rightarrow> udp_client_env list \<Rightarrow> tcp_client_env list \<Rightarrow> int \<times> StunClientResults option" where
  "ClientMain_main argc rets argv os config socketconfig sos udp tcp =
     (if argc \<le> 1 then (-1, None)
      else
        (case CmdLineParser_ParseCommandLine rets argv ClientMain_options ClientCmdLineArgs_new of
           (_, fError, args) \<Rightarrow>
             if length (ca_strHelp args) > 0 then (-2, None)
             else if fError then (-3, None)
             else
               (case CreateConfigFromCommandLine os args config socketconfig of
                  (hr, config, socketconfig) \<Rightarrow>
                    if FAILED hr then (-4, None)
                    else if csc_socktype socketconfig = SOCK_STREAM then (0, TcpClientLoop tcp config socketconfig)
                    else (0, snd (UdpClientLoop sos udp config socketconfig)))))"

end
