(* ===== verification/ClientMainProps.thy ===== *)
theory ClientMainProps
  imports ClientMain ClientServer
begin

text \<open>
  The properties of the client program: its loops are sessions of the client logic, the loop over UDP ends in
  bounded time, and what the loop over TCP makes of a server that does not answer.
\<close>

section \<open>A poll of the logic\<close>

text \<open>Only a poll that changes nothing waits.\<close>

lemma loop_busy:
  assumes "ClientLogic_loop rnd now buf dest l = (hr, b, d, l')"
    "cl_sendCount l = 0 \<or> cl_nTestIndex l < length (cl_testlist l) \<and> ct_fCompleted (cl_test l)"
  shows "hr \<noteq> E_STUNCLIENT_STILL_WAITING"
  using assms
proof (induction rnd now buf dest l rule: ClientLogic_loop.induct)
  case (1 rnd now buf dest l)
  show ?case
  proof (cases "ClientLogic_loop_step rnd now buf dest l")
    case (Inl r)
    then have "ClientLogic_loop_step rnd now buf dest l = Inl (hr, b, d, l')"
      using "1.prems"(1) by (simp add: ClientLogic_loop.simps [of rnd now buf dest l])
    from loop_step_Inl [OF this] show ?thesis using "1.prems"(2) PreCheck_completed [of l] by auto
  next
    case (Inr k)
    then have "ClientLogic_loop rnd now buf dest k = (hr, b, d, l')"
      using "1.prems"(1) by (simp add: ClientLogic_loop.simps [of rnd now buf dest l])
    moreover have "cl_sendCount k = 0 \<or> cl_nTestIndex k < length (cl_testlist k) \<and> ct_fCompleted (cl_test k)"
      using loop_step_Inr [OF Inr] by auto
    ultimately show ?thesis using "1.IH" [OF Inr] by blast
  qed
qed

lemma loop_frame:
  assumes "ClientLogic_loop rnd now buf dest l = (hr, b, d, l')"
  shows "hr = E_STUNCLIENT_STILL_WAITING \<Longrightarrow> cl_timeLastMessageSent l' = cl_timeLastMessageSent l \<and> cl_sendCount l' = cl_sendCount l"
    "hr \<noteq> S_OK \<Longrightarrow> b = buf"
proof -
  show "cl_timeLastMessageSent l' = cl_timeLastMessageSent l \<and> cl_sendCount l' = cl_sendCount l" if w: "hr = E_STUNCLIENT_STILL_WAITING"
  proof (cases "ClientLogic_loop_step rnd now buf dest l")
    case (Inl r)
    then have "ClientLogic_loop_step rnd now buf dest l = Inl (hr, b, d, l')"
      using assms by (simp add: ClientLogic_loop.simps [of rnd now buf dest l])
    from loop_step_Inl [OF this] show ?thesis using w by auto
  next
    case (Inr k)
    then have k: "ClientLogic_loop rnd now buf dest k = (hr, b, d, l')"
      using assms by (simp add: ClientLogic_loop.simps [of rnd now buf dest l])
    have "cl_sendCount k = 0 \<or> cl_nTestIndex k < length (cl_testlist k) \<and> ct_fCompleted (cl_test k)"
      using loop_step_Inr [OF Inr] by auto
    then show ?thesis using loop_busy [OF k] w by blast
  qed
  show "hr \<noteq> S_OK \<Longrightarrow> b = buf"
    using assms
  proof (induction rnd now buf dest l rule: ClientLogic_loop.induct)
    case (1 rnd now buf dest l)
    show ?case
    proof (cases "ClientLogic_loop_step rnd now buf dest l")
      case (Inl r)
      then have "ClientLogic_loop_step rnd now buf dest l = Inl (hr, b, d, l')"
        using "1.prems"(2) by (simp add: ClientLogic_loop.simps [of rnd now buf dest l])
      then show ?thesis using "1.prems"(1) GetMessage_ok
        by (auto simp: ClientLogic_loop_step_def Let_def hresult_simps split: if_splits prod.splits) (metis fst_conv)+
    next
      case (Inr k)
      then show ?thesis using "1.IH" [OF Inr "1.prems"(1)] "1.prems"(2)
        by (simp add: ClientLogic_loop.simps [of rnd now buf dest l])
    qed
  qed
qed

text \<open>The states a session can reach from the one \<open>Initialize\<close> left, by polls and received messages.\<close>

inductive session_of :: "CStunClientLogic \<Rightarrow> CStunClientLogic \<Rightarrow> bool" for l0 where
  session_of_refl: "session_of l0 l0"
| session_of_step: "session_of l0 l \<Longrightarrow> session_of l0 (snd (client_step e l))"

lemma session_of_run: "session_of l0 l \<Longrightarrow> \<exists>es. l = snd (run client_step es l0)"
proof (induction rule: session_of.induct)
  case session_of_refl
  show ?case by (rule exI [of _ "[]"]) simp
next
  case (session_of_step l e)
  then obtain es where "l = snd (run client_step es l0)" by blast
  then have "snd (client_step e l) = snd (run client_step (es @ [e]) l0)" by (simp add: run_append case_prod_beta Let_def)
  then show ?case by blast
qed

definition msg_ok :: "CBuffer \<Rightarrow> bool" where
  "msg_ok b \<longleftrightarrow> buf_wf b \<and> MAX_STUN_MESSAGE_SIZE \<le> b_allocated b"

lemma session_facts:
  assumes "ClientLogic_Initialize config CStunClientLogic_new = (S_OK, l0)" "session_of l0 l"
  shows "send_ok l" "cl_config l = cl_config l0" "session_means l" "ids_ok l" "cfg_addrServer (cl_config l) = cfg_addrServer config"
proof -
  obtain es where l: "l = snd (run client_step es l0)" using session_of_run [OF assms(2)] by blast
  note i = Initialize_inv [OF assms(1)] and s = run_session [OF Initialize_ok(1) [OF assms(1)], of es]
  show "send_ok l" "cl_config l = cl_config l0" using s by (simp_all add: l)
  then show "cfg_addrServer (cl_config l) = cfg_addrServer config" using i(2) by simp
  show "session_means l" using run_inv [OF i(1), of es] by (simp add: l session_inv_def)
  show "ids_ok l" using run_ids [OF i(1) Initialize_ids [OF assms(1)], of es] by (simp add: l)
qed

lemma poll_result:
  assumes init: "ClientLogic_Initialize config CStunClientLogic_new = (S_OK, l0)" and l: "session_of l0 l" and b: "msg_ok buf"
    and g: "ClientLogic_GetNextMessage rnd buf dest now l = (hr, buf', dest', l')"
  shows "session_of l0 l'" "msg_ok buf'" "b_allocated buf' = b_allocated buf"
    "hr = S_OK \<and> send_budget l' < send_budget l \<and> cl_timeLastMessageSent l' = now \<or>
     hr = E_STUNCLIENT_RESULTS_READY \<and> session_over l' \<or>
     hr = E_STUNCLIENT_STILL_WAITING \<and> send_budget l' \<le> send_budget l \<and> cl_sendCount l \<noteq> 0 \<and> cl_sendCount l' = cl_sendCount l \<and>
       cl_timeLastMessageSent l' = cl_timeLastMessageSent l \<and>
       (now - cl_timeLastMessageSent l) div 1000 < cfg_timeoutSeconds (cl_config l)"
    "hr = S_OK \<Longrightarrow> \<exists>p. sent_by rnd buf buf' dest' p l'"
proof -
  note s = session_facts [OF init l]
  show "session_of l0 l'" using session_of_step [OF l, of "Poll rnd buf dest now"] g by simp
  have loop: "ClientLogic_loop rnd now buf dest l = (hr, buf', dest', l')"
    using g b s(1) MAX_STUN_MESSAGE_SIZE_pos by (auto simp: ClientLogic_GetNextMessage_def msg_ok_def send_ok_def CBuffer_GetAllocatedSize_def split: if_splits)
  show "hr = S_OK \<and> send_budget l' < send_budget l \<and> cl_timeLastMessageSent l' = now \<or>
     hr = E_STUNCLIENT_RESULTS_READY \<and> session_over l' \<or>
     hr = E_STUNCLIENT_STILL_WAITING \<and> send_budget l' \<le> send_budget l \<and> cl_sendCount l \<noteq> 0 \<and> cl_sendCount l' = cl_sendCount l \<and>
       cl_timeLastMessageSent l' = cl_timeLastMessageSent l \<and>
       (now - cl_timeLastMessageSent l) div 1000 < cfg_timeoutSeconds (cl_config l)"
    using loop_result [OF loop s(1)] loop_frame(1) [OF loop] by (auto simp: session_over_def)
  have sent: "hr = S_OK \<Longrightarrow> \<exists>p. sent_by rnd buf buf' dest' p l'" using loop_sends [OF s(3,4) loop] by blast
  then show "hr = S_OK \<Longrightarrow> \<exists>p. sent_by rnd buf buf' dest' p l'" .
  have "msg_ok buf' \<and> b_allocated buf' = b_allocated buf"
  proof (cases "hr = S_OK")
    case False
    then show ?thesis using loop_frame(2) [OF loop] b by simp
  next
    case True
    then obtain p t where p: "ids_ok p" "\<not> session_over p" "Test_GetMessage rnd (cl_config p) (cl_results p) buf (cl_test p) = (S_OK, buf', dest', t)"
      using sent by (auto simp: sent_by_def)
    have "length (ct_transid (cl_test p)) = 16" using cl_test_id [OF p(1,2)] by (simp add: STUN_TRANSACTION_ID_LENGTH_def)
    then show ?thesis using GetMessage_message [OF _ _ _ p(3)] b by (simp add: msg_ok_def)
  qed
  then show "msg_ok buf'" "b_allocated buf' = b_allocated buf" by blast+
qed

section \<open>The loop over UDP\<close>

lemma msg_poke: "msg_ok b \<Longrightarrow> length d \<le> b_allocated b \<Longrightarrow> msg_ok (b\<lparr>b_data := map_option (poke 0 d) (b_data b)\<rparr>)"
  by (auto simp: msg_ok_def buf_wf_def poke_def split: option.splits)

lemma msg_size: "msg_ok b \<Longrightarrow> n \<le> b_allocated b \<Longrightarrow> msg_ok (snd (CBuffer_SetSize n b)) \<and> b_allocated (snd (CBuffer_SetSize n b)) = b_allocated b"
  by (auto simp: CBuffer_SetSize_def msg_ok_def buf_wf_def SUCCEEDED_def Let_def split: option.splits)

lemma Wait_ok:
  assumes "msg_ok (uk_spMsg c)"
  shows "msg_ok (uk_spMsg (UdpClient_Wait env c))"
    "uk_clientlogic (UdpClient_Wait env c) = uk_clientlogic c \<or>
     (\<exists>msg remote local. uk_clientlogic (UdpClient_Wait env c) = snd (client_step (Receive msg remote local) (uk_clientlogic c)))"
proof -
  let ?b = "snd (CBuffer_SetSize 0 (uk_spMsg c))"
  have b: "msg_ok ?b" using msg_size [OF assms, of 0] by simp
  obtain ret d rem loc where r: "recvfromex (uc_recv env) (CBuffer_GetAllocatedSize ?b) (uk_addrRemote c) (uk_addrLocal c) = (ret, d, rem, loc)"
    by (metis prod_cases4)
  have d: "length d \<le> b_allocated ?b" "ret > 0 \<Longrightarrow> nat ret = length d"
    using r by (auto simp: recvfromex_def CBuffer_GetAllocatedSize_def Let_def split: recvmsg_result.splits if_splits)
  note p = msg_poke [OF b d(1)]
  have "msg_ok (snd (CBuffer_SetSize (length d) (?b\<lparr>b_data := map_option (poke 0 d) (b_data ?b)\<rparr>)))"
    using msg_size [OF p, of "length d"] d(1) by simp
  then show "msg_ok (uk_spMsg (UdpClient_Wait env c))" using b p r d(2) by (simp add: UdpClient_Wait_def Let_def)
  show "uk_clientlogic (UdpClient_Wait env c) = uk_clientlogic c \<or>
     (\<exists>msg remote local. uk_clientlogic (UdpClient_Wait env c) = snd (client_step (Receive msg remote local) (uk_clientlogic c)))"
    using r by (auto simp: UdpClient_Wait_def Let_def)
qed

definition udp_client_ok :: "CStunClientLogic \<Rightarrow> UdpClient \<Rightarrow> bool" where
  "udp_client_ok l0 c \<longleftrightarrow> session_of l0 (uk_clientlogic c) \<and> msg_ok (uk_spMsg c)"

lemma not_succeeded_codes: "\<not> SUCCEEDED E_STUNCLIENT_STILL_WAITING" "\<not> SUCCEEDED E_STUNCLIENT_RESULTS_READY" "SUCCEEDED S_OK"
  by (simp_all add: E_STUNCLIENT_STILL_WAITING_def E_STUNCLIENT_RESULTS_READY_def hresult_defs)

text \<open>A turn of the loop polls once, and may hand one message to the logic.\<close>

lemma UdpClient_step_ok:
  assumes init: "ClientLogic_Initialize config CStunClientLogic_new = (S_OK, l0)" and c: "udp_client_ok l0 c"
    and run: "UdpClient_step env c = (res, c')"
  obtains hr buf dest l where "ClientLogic_GetNextMessage (uc_rnd env) (snd (CBuffer_SetSize 0 (uk_spMsg c))) (uk_addrDest c) (uc_time env)
      (uk_clientlogic c) = (hr, buf, dest, l)" "udp_client_ok l0 c'" "msg_ok (snd (CBuffer_SetSize 0 (uk_spMsg c)))" "msg_ok buf"
    "(hr = S_OK \<or> hr = E_STUNCLIENT_STILL_WAITING) \<and> res = None \<and> uk_sent c' = uk_sent c @ (if hr = S_OK then [(buf_bytes buf, dest)] else []) \<and>
       (uk_clientlogic c' = l \<or> (\<exists>msg remote local. uk_clientlogic c' = snd (client_step (Receive msg remote local) l))) \<or>
     hr = E_STUNCLIENT_RESULTS_READY \<and> res = Some hr \<and> uk_clientlogic c' = l \<and> session_over l \<and> uk_sent c' = uk_sent c"
proof -
  let ?b = "snd (CBuffer_SetSize 0 (uk_spMsg c))"
  have cs: "session_of l0 (uk_clientlogic c)" "msg_ok ?b" using c msg_size [of "uk_spMsg c" 0] by (simp_all add: udp_client_ok_def)
  obtain hr buf dest l where g: "ClientLogic_GetNextMessage (uc_rnd env) ?b (uk_addrDest c) (uc_time env) (uk_clientlogic c) = (hr, buf, dest, l)"
    by (metis prod_cases4)
  note p = poll_result [OF init cs g]
  let ?c = "c\<lparr>uk_spMsg := buf, uk_addrDest := dest, uk_clientlogic := l\<rparr>"
  let ?s = "if hr = S_OK then ?c\<lparr>uk_sent := uk_sent ?c @ [(buf_bytes (uk_spMsg ?c), uk_addrDest ?c)]\<rparr> else ?c"
  have w: "msg_ok (uk_spMsg ?s)" "uk_clientlogic ?s = l" using p(2) by simp_all
  note W = Wait_ok [OF w(1), of env, unfolded w(2)]
  have sw: "uk_sent (UdpClient_Wait env x) = uk_sent x" for x
    by (simp add: UdpClient_Wait_def Let_def split: prod.splits)
  consider "hr = S_OK \<or> hr = E_STUNCLIENT_STILL_WAITING" | "hr = E_STUNCLIENT_RESULTS_READY" "session_over l" using p(4) by blast
  then show ?thesis
  proof cases
    case 1
    then have r: "res = None" "c' = UdpClient_Wait env ?s"
      using run g not_succeeded_codes by (auto simp: UdpClient_step_def Let_def)
    have "session_of l0 (uk_clientlogic c')"
      using W(2) p(1) session_of_step [OF p(1)] unfolding r(2) by metis
    then have ok: "udp_client_ok l0 c'" using W(1) by (simp add: udp_client_ok_def r(2))
    show ?thesis by (rule that [OF g ok cs(2) p(2)]) (use 1 r W(2) in \<open>auto simp: sw\<close>)
  next
    case 2
    then have r: "res = Some hr" "c' = ?c" using run g not_succeeded_codes by (auto simp: UdpClient_step_def Let_def)
    then have ok: "udp_client_ok l0 c'" using p(1,2) by (simp add: udp_client_ok_def)
    show ?thesis by (rule that [OF g ok cs(2) p(2)]) (use 2 r in auto)
  qed
qed

text \<open>
  The real time, in milliseconds, of the turns: the clock is monotone and a turn comes at most \<open>G\<close> after the one before.
\<close>

fun turn_times :: "nat \<Rightarrow> nat \<Rightarrow> udp_client_env list \<Rightarrow> nat list \<Rightarrow> bool" where
  "turn_times G p [] [] = True"
| "turn_times G p (env # envs) (t # ts) = (uc_time env = of_nat t \<and> p \<le> t \<and> t \<le> p + G \<and> turn_times G t envs ts)"
| "turn_times G p envs ts = False"

text \<open>
  The next message is sent, or the session is over, by time \<open>X\<close>; each message that is still allowed takes at
  most \<open>TG\<close>, the timeout and the time between two turns.
\<close>

definition client_clock :: "nat \<Rightarrow> nat \<Rightarrow> nat \<Rightarrow> nat \<Rightarrow> nat \<Rightarrow> CStunClientLogic \<Rightarrow> bool" where
  "client_clock TG G D p X l \<longleftrightarrow> p + G \<le> X \<and> X + send_budget l * TG \<le> D \<and>
     (cl_sendCount l \<noteq> 0 \<longrightarrow> (\<exists>\<tau> \<le> p. cl_timeLastMessageSent l = of_nat \<tau> \<and> \<tau> + TG = X))"

lemma clock_diff:
  assumes "\<tau> \<le> t" "t - \<tau> < 2 ^ 32" "(of_nat t - of_nat \<tau> :: u32) div 1000 < timeout"
  shows "t < \<tau> + 1000 * unat timeout"
proof -
  have "of_nat t - of_nat \<tau> = (of_nat (t - \<tau>) :: u32)" using assms(1) by simp
  moreover have "unat (of_nat (t - \<tau>) :: u32) = t - \<tau>" using assms(2) by (simp add: unat_of_nat)
  ultimately have "(t - \<tau>) div 1000 < unat timeout" using assms(3) by (simp add: word_less_nat_alt unat_div)
  then show ?thesis using assms(1) by (simp add: div_less_iff_less_mult)
qed

lemma poll_clock:
  assumes init: "ClientLogic_Initialize config CStunClientLogic_new = (S_OK, l0)" and l: "session_of l0 l" and b: "msg_ok buf"
    and g: "ClientLogic_GetNextMessage rnd buf dest (of_nat t) l = (hr, buf', dest', l')" and hr: "hr \<noteq> E_STUNCLIENT_RESULTS_READY"
    and k: "client_clock TG G D p X l" and t: "p \<le> t" "t \<le> p + G"
    and TG: "1000 * unat (cfg_timeoutSeconds (cl_config l0)) + G \<le> TG" "TG < 2 ^ 32"
  shows "\<exists>X'. client_clock TG G D t X' l'"
proof -
  note r = poll_result(4) [OF init l b g]
  have K: "p + G \<le> X" "X + send_budget l * TG \<le> D" using k by (simp_all add: client_clock_def)
  from r hr consider "hr = S_OK" "send_budget l' < send_budget l" "cl_timeLastMessageSent l' = of_nat t"
    | "send_budget l' \<le> send_budget l" "cl_sendCount l \<noteq> 0" "cl_sendCount l' = cl_sendCount l" "cl_timeLastMessageSent l' = cl_timeLastMessageSent l"
      "(of_nat t - cl_timeLastMessageSent l) div 1000 < cfg_timeoutSeconds (cl_config l)" by blast
  then show ?thesis
  proof cases
    case 1
    have "send_budget l' * TG + TG \<le> send_budget l * TG" using mult_le_mono1 [of "Suc (send_budget l')" "send_budget l" TG] 1(2) by simp
    then have "client_clock TG G D t (t + TG) l'" using K t TG(1) 1(3) by (auto simp: client_clock_def)
    then show ?thesis by blast
  next
    case 2
    obtain \<tau> where u: "\<tau> \<le> p" "cl_timeLastMessageSent l = of_nat \<tau>" "\<tau> + TG = X" using k 2(2) by (auto simp: client_clock_def)
    have "t - \<tau> < 2 ^ 32" using u(1,3) K(1) t TG(2) by linarith
    from clock_diff [OF _ this] have "t < \<tau> + 1000 * unat (cfg_timeoutSeconds (cl_config l0))"
      using 2(5) u(1,2) t(1) session_facts(2) [OF init l] by simp
    then have "t + G \<le> X" using TG(1) u(3) by linarith
    moreover have "X + send_budget l' * TG \<le> D" using K(2) 2(1) mult_le_mono1 [of "send_budget l'" "send_budget l" TG] by linarith
    moreover have "\<tau> \<le> t" using u(1) t(1) by simp
    ultimately have "client_clock TG G D t X l'" using u 2(3,4) by (auto simp: client_clock_def)
    then show ?thesis by blast
  qed
qed

lemma UdpClient_loop_ends:
  assumes init: "ClientLogic_Initialize config CStunClientLogic_new = (S_OK, l0)"
    and TG: "1000 * unat (cfg_timeoutSeconds (cl_config l0)) + G \<le> TG" "TG < 2 ^ 32"
  shows "udp_client_ok l0 c \<Longrightarrow> client_clock TG G D p X (uk_clientlogic c) \<Longrightarrow> turn_times G p envs ts \<Longrightarrow> \<exists>t \<in> set ts. D < t \<Longrightarrow>
    \<exists>c'. UdpClient_loop envs c = (Some E_STUNCLIENT_RESULTS_READY, c') \<and> session_of l0 (uk_clientlogic c')"
proof (induction envs arbitrary: c p X ts)
  case Nil
  then show ?case by (cases ts) auto
next
  case (Cons env envs)
  obtain t ts' where ts: "ts = t # ts'" "uc_time env = of_nat t" "p \<le> t" "t \<le> p + G" "turn_times G t envs ts'"
    using Cons.prems(3) by (cases ts) auto
  have "t \<le> D" using Cons.prems(2) ts(4) by (simp add: client_clock_def)
  then have later: "\<exists>t \<in> set ts'. D < t" using Cons.prems(4) by (auto simp: ts(1))
  have sess: "session_of l0 (uk_clientlogic c)" using Cons.prems(1) by (simp add: udp_client_ok_def)
  obtain res c' where s: "UdpClient_step env c = (res, c')" by (metis prod.collapse)
  obtain hr buf dest l where o: "ClientLogic_GetNextMessage (uc_rnd env) (snd (CBuffer_SetSize 0 (uk_spMsg c))) (uk_addrDest c) (uc_time env)
      (uk_clientlogic c) = (hr, buf, dest, l)" "udp_client_ok l0 c'" "msg_ok (snd (CBuffer_SetSize 0 (uk_spMsg c)))"
    and alt: "(hr = S_OK \<or> hr = E_STUNCLIENT_STILL_WAITING) \<and> res = None \<and>
       (uk_clientlogic c' = l \<or> (\<exists>msg remote local. uk_clientlogic c' = snd (client_step (Receive msg remote local) l))) \<or>
     hr = E_STUNCLIENT_RESULTS_READY \<and> res = Some hr"
    by (rule UdpClient_step_ok [OF init Cons.prems(1) s]) blast
  show ?case
  proof (cases "hr = E_STUNCLIENT_RESULTS_READY")
    case True
    then have "res = Some E_STUNCLIENT_RESULTS_READY" using alt not_succeeded_codes by auto
    then show ?thesis using s o(2) by (simp add: udp_client_ok_def)
  next
    case False
    obtain X' where x: "client_clock TG G D t X' l"
      using poll_clock [OF init sess o(3) o(1) [unfolded ts(2)] False Cons.prems(2) ts(3,4) TG] by blast
    have res: "res = None" using alt False by blast
    have "client_clock TG G D t X' (uk_clientlogic c')"
    proof -
      have "client_clock TG G D t X' (snd (client_step (Receive msg remote local) l))" for msg remote local
        using x Receive_keeps(2) [OF refl, of msg remote local l] ProcessResponse_keeps(3,4) [of msg remote local l]
        by (simp add: client_clock_def)
      then show ?thesis using alt False x by metis
    qed
    from Cons.IH [OF o(2) this ts(5) later] show ?thesis using s res by simp
  qed
qed



lemma udp_client_new:
  "udp_client_ok l \<lparr>uk_clientlogic = l, uk_stunSocket = sk, uk_spMsg = CBuffer_alloc MAX_STUN_MESSAGE_SIZE, uk_addrDest = CSocketAddress_zero,
     uk_addrRemote = CSocketAddress_zero, uk_addrLocal = CSocketAddress_zero, uk_sent = []\<rparr>"
  using session_of_refl by (simp add: udp_client_ok_def msg_ok_def buf_wf_def CBuffer_alloc_def CBuffer_InitWithAllocation_def)

section \<open>The properties\<close>

text \<open>The loop from its start: it returns with the results of a session.\<close>

lemma UdpClientLoop_returns:
  assumes "ClientLogic_Initialize config CStunClientLogic_new = (S_OK, l)"
    "SUCCEEDED (fst (StunSocket_UDPInit os (csc_addrLocal socketconfig) RolePP False StunSocket_new))"
    "turn_times G t0 envs ts" "1000 * unat (cfg_timeoutSeconds (cl_config l)) + G < 2 ^ 32"
    "\<exists>t \<in> set ts. t0 + G + unat (cfg_uMaxAttempts (cl_config l)) * length (cl_testlist l) *
       (1000 * unat (cfg_timeoutSeconds (cl_config l)) + G) < t"
  shows "\<exists>hr k. UdpClientLoop os envs config socketconfig = (Some hr, Some (cl_results k)) \<and> SUCCEEDED hr \<and> session_of l k"
proof -
  let ?TG = "1000 * unat (cfg_timeoutSeconds (cl_config l)) + G"
  obtain hr closed sk where u: "StunSocket_UDPInit os (csc_addrLocal socketconfig) RolePP False StunSocket_new = (hr, closed, sk)"
    by (metis prod_cases3)
  let ?c = "\<lparr>uk_clientlogic = l, uk_stunSocket = sk, uk_spMsg = CBuffer_alloc MAX_STUN_MESSAGE_SIZE, uk_addrDest = CSocketAddress_zero,
      uk_addrRemote = CSocketAddress_zero, uk_addrLocal = CSocketAddress_zero, uk_sent = []\<rparr>"
  note i = Initialize_ok [OF assms(1)]
  have k: "client_clock ?TG G (t0 + G + send_budget l * ?TG) t0 (t0 + G) (uk_clientlogic ?c)"
    using i(2) by (simp add: client_clock_def)
  have "send_budget l = unat (cfg_uMaxAttempts (cl_config l)) * length (cl_testlist l)" using i(6) by (simp add: max_attempts_def)
  then obtain c' where e: "UdpClient_loop envs ?c = (Some E_STUNCLIENT_RESULTS_READY, c')" "session_of l (uk_clientlogic c')"
    using UdpClient_loop_ends [OF assms(1) order_refl assms(4) udp_client_new k assms(3)] assms(5) by auto
  then show ?thesis using assms(1,2) u by (auto simp: UdpClientLoop_def hresult_simps ClientLogic_GetResults_def)
qed

text \<open>
  C38: the client comes to an end in bounded time. Whatever arrives or fails, if the clock advances and
  a turn of the loop over UDP comes at most \<open>G\<close> milliseconds after the one before, the loop has ended by the time the
  timeout and \<open>G\<close> have passed once for each message the session may send; it then shows results, and they mean
  what they say.
\<close>

theorem udp_client_ends:
  assumes "ClientLogic_Initialize config CStunClientLogic_new = (S_OK, l)"
    "SUCCEEDED (fst (StunSocket_UDPInit os (csc_addrLocal socketconfig) RolePP False StunSocket_new))"
    "turn_times G t0 envs ts" "1000 * unat (cfg_timeoutSeconds (cl_config l)) + G < 2 ^ 32"
    "\<exists>t \<in> set ts. t0 + G + unat (cfg_uMaxAttempts (cl_config l)) * length (cl_testlist l) *
       (1000 * unat (cfg_timeoutSeconds (cl_config l)) + G) < t"
  shows "\<exists>hr results. UdpClientLoop os envs config socketconfig = (Some hr, Some results) \<and> SUCCEEDED hr \<and>
    results_mean (cfg_addrServer config) results"
  using UdpClientLoop_returns [OF assms] session_facts(3,5) [OF assms(1)] by (auto simp: session_means_def)


text \<open>
  C40: over TCP the client can take its own request for a response. The request and the response share a
  buffer, and nothing but the transaction id is checked in the filtering test: if the server closes the connection without
  an answer, the test succeeds and reports that the filtering does not depend on the endpoint.
\<close>

theorem tcp_client_hears_itself:
  assumes "ClientLogic_Initialize config CStunClientLogic_new = (S_OK, l0)" "session_of l0 (tk_clientlogic c)" "msg_ok (tk_spMsg c)"
    "ClientLogic_GetNextMessage (tk_rnd env) (tk_spMsg c) (tk_addrDest c) (tk_time env) (tk_clientlogic c) = (S_OK, req, dest, l)"
    "ct_class (cl_test l) = CFilteringTest" "tk_recv env = Some [] # rets" "tk_connect env \<noteq> -1"
    "SUCCEEDED (fst (StunSocket_TCPInit (tk_os env) (tk_addrLocal c) RolePP True (snd (StunSocket_Close (tk_stunsocket c)))))"
    "TcpClient_Send_loop (tk_send env) (buf_bytes req) 0 = Some sent"
  shows "\<exists>c'. TcpClient_step env c = (None, c') \<and> res_fFilteringTestSuccess (cl_results (tk_clientlogic c')) \<and>
    res_filtering (cl_results (tk_clientlogic c')) = (if ct_fIsTest3 (cl_test l) then AddressDependentFiltering else EndpointIndependentFiltering)"
proof -
  note r = poll_result [OF assms(1-4)]
  obtain p t where p: "ids_ok p" "\<not> session_over p" "\<not> ct_fCompleted (cl_test p)" "session_means p"
    "Test_GetMessage (tk_rnd env) (cl_config p) (cl_results p) (tk_spMsg c) (cl_test p) = (S_OK, req, dest, t)"
    "cl_testlist l = (cl_testlist p)[cl_nTestIndex p := t]" "cl_nTestIndex l = cl_nTestIndex p"
    using r(5) by (auto simp: sent_by_def)
  have tid: "length (ct_transid (cl_test p)) = 16" using cl_test_id [OF p(1,2)] by (simp add: STUN_TRANSACTION_ID_LENGTH_def)
  have m: "buf_bytes req = msg_bytes request_field (ct_transid t) [(STUN_ATTRIBUTE_CHANGEREQUEST, be32 (change_flags (test_change (cl_test p))))]"
    "length (ct_transid t) = 16" "t = (cl_test p)\<lparr>ct_transid := ct_transid t\<rparr>"
    using GetMessage_message [OF _ _ tid p(5)] assms(3) by (simp_all add: msg_ok_def)
  have i: "cl_nTestIndex l < length (cl_testlist l)" "cl_test l = t" using p(2,6,7) by (simp_all add: session_over_def)
  have nc: "\<not> ct_fCompleted t" using p(3) by (subst m(3)) simp
  have init: "cl_fInitialized l" using session_facts(1) [OF assms(1) r(1)] by (simp add: send_ok_def)
  note v = request_rd_msg [OF m(2), of "change_flags (test_change (cl_test p))", folded m(1)]
  have valid: "Test_BasicReaderValidation req t = (S_OK, snd (Reader_AddBytes (buf_bytes req) Reader_new))"
    using v(2) rd_msg_head(1) [OF v(1)] by (simp add: Test_BasicReaderValidation_def case_prod_beta Let_def hresult_simps)
  have size: "CBuffer_GetSize req \<noteq> 0"
    using buf_wf_size [of req] r(2) m(1,2) by (simp add: msg_ok_def CBuffer_GetSize_def msg_bytes_def)
  have resp: "ct_class t = CFilteringTest" using assms(5) i(2) by simp
  let ?reader = "(Reader_Reset (tk_reader c))\<lparr>rd_stream := DS_Attach (Some (tk_spMsgReader c)) True (rd_stream (Reader_Reset (tk_reader c)))\<rparr>"
  have need: "Reader_HowManyBytesNeeded ?reader = 20"
    by (simp add: Reader_HowManyBytesNeeded_def Reader_Reset_def DS_Attach_def DS_GetSize_def CBuffer_GetSize_def CBuffer_SetSize_def
        SUCCEEDED_def STUN_HEADER_SIZE_def Let_def)
  have alloc: "20 \<le> CBuffer_GetAllocatedSize req" using r(2) by (simp add: msg_ok_def CBuffer_GetAllocatedSize_def MAX_STUN_MESSAGE_SIZE_def)
  have recv: "TcpClient_Recv_loop (tk_recv env) (CBuffer_GetAllocatedSize req) 0 req ?reader = (True, req, ?reader)"
    using alloc by (subst TcpClient_Recv_loop.simps) (simp add: need assms(6) Let_def)
  obtain hr1 closed s where u: "StunSocket_TCPInit (tk_os env) (tk_addrLocal c) RolePP True (snd (StunSocket_Close (tk_stunsocket c))) = (hr1, closed, s)"
    by (metis prod_cases3)
  have out: "fst (TcpClient_step env c) = None" "\<exists>loc. tk_clientlogic (snd (TcpClient_step env c)) = snd (ClientLogic_ProcessResponse req dest loc l)"
    using assms(4,7,8,9) u recv by (auto simp: TcpClient_step_def Let_def hresult_simps)
  then obtain loc where loc: "tk_clientlogic (snd (TcpClient_step env c)) = snd (ClientLogic_ProcessResponse req dest loc l)" by blast
  have "res_fFilteringTestSuccess (cl_results (snd (ClientLogic_ProcessResponse req dest loc l))) \<and>
      res_filtering (cl_results (snd (ClientLogic_ProcessResponse req dest loc l))) = (if ct_fIsTest3 t then AddressDependentFiltering else EndpointIndependentFiltering)"
    using init size i nc resp valid
    by (simp add: ClientLogic_ProcessResponse_def Test_IsCompleted_def Test_ProcessResponse_def CFilteringTest_ProcessResponse_def Let_def
        hresult_simps case_prod_beta)
  then show ?thesis using out(1) loc i(2) by (metis prod.collapse)
qed

section \<open>The witnesses\<close>

text \<open>A client whose messages are never answered, and which takes a turn every four seconds.\<close>

definition demo_client_sos :: socket_os where
  "demo_client_sos = \<lparr>os_socket = 3, os_setsockopt = \<lambda>_ _ _. 0, os_bind = 0, os_listen = 0, os_getfl = 2, os_setfl = \<lambda>_. 0,
     os_getsockname = Some (CSocketAddress_ip4 0x0A000005 40000), os_getpeername = None, os_errno = 0\<rparr>"

definition demo_client_turn :: "nat \<Rightarrow> udp_client_env" where
  "demo_client_turn t = \<lparr>uc_rnd = \<lambda>_. 7, uc_time = of_nat t, uc_select = 0, uc_recv = RecvMsgError\<rparr>"

definition demo_socketconfig :: ClientSocketConfig where
  "demo_socketconfig = \<lparr>csc_family = AF_INET, csc_socktype = SOCK_DGRAM, csc_addrLocal = CSocketAddress_ip4 0 0\<rparr>"

lemma demo_client_socket:
  "SUCCEEDED (fst (StunSocket_UDPInit demo_client_sos (csc_addrLocal demo_socketconfig) RolePP False StunSocket_new))"
  by code_simp

theorem udp_client_ends_witness:
  "\<exists>hr results. UdpClientLoop demo_client_sos (map demo_client_turn [4000, 8000, 12000]) (demo_config False) demo_socketconfig = (Some hr, Some results) \<and>
    results_mean (demo_addr 1) results"
  using udp_client_ends [OF demo_Initialize demo_client_socket, of 4000 0 "map demo_client_turn [4000, 8000, 12000]" "[4000, 8000, 12000]" False]
  by (auto simp: demo_client_turn_def demo_logic_limits demo_config_def)








text \<open>A session over TCP that has come to the first filtering test, after an answer to the binding test.\<close>

lemma loop_sends_now:
  assumes "\<not> session_over l" "cl_sendCount l = 0" "cfg_uMaxAttempts (cl_config l) \<noteq> 0" "ClientLogic_PreCheck l = p"
    "\<not> ct_fCompleted (cl_test p)" "Test_IsReadyToRun (cl_results p) (cl_test p)"
    "Test_GetMessage rnd (cl_config p) (cl_results p) buf (cl_test p) = (S_OK, b, d, t)"
  shows "ClientLogic_loop rnd now buf dest l =
    (S_OK, b, d, p\<lparr>cl_testlist := (cl_testlist p)[cl_nTestIndex p := t], cl_sendCount := 1, cl_timeLastMessageSent := now\<rparr>)"
proof -
  have p: "cl_sendCount p = 0" "cl_config p = cl_config l" "cl_nTestIndex p = cl_nTestIndex l"
    using assms(2) unfolding assms(4) [symmetric] by (simp_all add: ClientLogic_PreCheck_def)
  have "ClientLogic_loop_step rnd now buf dest l = Inl
    (S_OK, b, d, p\<lparr>cl_testlist := (cl_testlist p)[cl_nTestIndex p := t], cl_sendCount := 1, cl_timeLastMessageSent := now\<rparr>)"
    using assms p by (simp add: ClientLogic_loop_step_def session_over_def Let_def Test_IsCompleted_def hresult_simps)
  then show ?thesis by (simp add: ClientLogic_loop.simps [of rnd now buf dest l])
qed

definition hear_attrs :: "StunTransactionId \<Rightarrow> wire_attr list" where
  "hear_attrs tid = [(STUN_ATTRIBUTE_XORMAPPEDADDRESS, addr_attr (CSocketAddress_ApplyStunXorMap tid (demo_addr 9))),
     (STUN_ATTRIBUTE_OTHER_ADDRESS, addr_attr (demo_addr 4))]"

definition hear_resp :: "StunTransactionId \<Rightarrow> CBuffer" where
  "hear_resp tid = (let bs = msg_bytes 0x0101 tid (hear_attrs tid) in \<lparr>b_data = Some bs, b_size = length bs, b_allocated = length bs\<rparr>)"

lemma hear_answers:
  assumes "length tid = 16" "ct_transid t = tid" "CBasicBindingTest_ProcessResponse cfg (hear_resp tid) local (t, res) = (hr, t', res')"
  shows "hr = S_OK \<and> t' = t\<lparr>ct_fCompleted := True\<rparr> \<and> res_fBindingTestSuccess res' \<and> res_fHasOtherAddress res' \<and>
    res_fFilteringTestSuccess res' = res_fFilteringTestSuccess res \<and> res_fGotTest2Response res' = res_fGotTest2Response res"
proof -
  let ?r = "snd (Reader_AddBytes (msg_bytes 0x0101 tid (hear_attrs tid)) Reader_new)"
  have w: "wire_ok (hear_attrs tid)"
    by (rule wire_okI) (auto simp: hear_attrs_def length_addr_attr)
  have f: "(0x0101 :: u16) AND 0xc000 = 0" by simp
  have r: "rd_msg True 0x0101 tid (hear_attrs tid) ?r" by (rule read_rd_msg [OF Reader_new_inv assms(1) w f]) simp
  have v: "fst (Reader_AddBytes (msg_bytes 0x0101 tid (hear_attrs tid)) Reader_new) = BodyValidated"
    by (rule read_msg(1) [OF Reader_new_inv assms(1) w f]) simp
  have b: "buf_bytes (hear_resp tid) = msg_bytes 0x0101 tid (hear_attrs tid)" by (simp add: hear_resp_def buf_bytes_def Let_def)
  obtain x where x: "Reader_GetXorMappedAddress CSocketAddress_zero ?r = (S_OK, x)"
    by (rule rd_msg_xor [OF r demo_addr_wf, of False "9"]) (simp_all add: wire_last_def hear_attrs_def xor_type_def stun_attribute_defs)
  have o: "\<exists>z. Reader_GetOtherAddress CSocketAddress_zero ?r = (S_OK, z)"
    using rd_msg_other [OF r, of False "Some (demo_addr 4)"] by (auto simp: wire_last_def hear_attrs_def other_type_def stun_attribute_defs)
  have st: "Test_BasicReaderValidation (hear_resp tid) t = (S_OK, ?r)"
    using v rd_msg_head(1) [OF r] by (simp add: Test_BasicReaderValidation_def b case_prod_beta Let_def hresult_simps assms(2))
  show ?thesis using assms(3) o
    by (auto simp: CBasicBindingTest_ProcessResponse_def st Test_GetMappedAddress_def x Let_def hresult_simps)
qed
lemma demo_logic_tests:
  "cl_testlist (demo_logic True) = [Test_Init (CStunClientTest_new CBasicBindingTest), Test_Init (CStunClientTest_new CFilteringTest),
     Test_RunAsTest3 True (Test_Init (CStunClientTest_new CFilteringTest)), Test_Init (CStunClientTest_new CBehaviorTest),
     Test_RunAsTest3 True (Test_Init (CStunClientTest_new CBehaviorTest))]"
  "cl_nTestIndex (demo_logic True) = 0" "cl_fInitialized (demo_logic True)" "cl_sendCount (demo_logic True) = 0"
  "cl_fPreCheckRunOnTest (demo_logic True) = False" "cfg_uMaxAttempts (cl_config (demo_logic True)) = 1"
  "\<not> res_fFilteringTestSuccess (cl_results (demo_logic True))" "\<not> res_fGotTest2Response (cl_results (demo_logic True))"
proof -
  have a: "\<not> CSocketAddress_IsIPAddressZero (demo_addr 1)" "CSocketAddress_GetPort (demo_addr 1) \<noteq> 0" by code_simp+
  have r: "\<not> res_fFilteringTestSuccess (cl_results CStunClientLogic_new)" "\<not> res_fGotTest2Response (cl_results CStunClientLogic_new)"
    by code_simp+
  show "cl_testlist (demo_logic True) = [Test_Init (CStunClientTest_new CBasicBindingTest), Test_Init (CStunClientTest_new CFilteringTest),
     Test_RunAsTest3 True (Test_Init (CStunClientTest_new CFilteringTest)), Test_Init (CStunClientTest_new CBehaviorTest),
     Test_RunAsTest3 True (Test_Init (CStunClientTest_new CBehaviorTest))]"
    "cl_nTestIndex (demo_logic True) = 0" "cl_fInitialized (demo_logic True)" "cl_sendCount (demo_logic True) = 0"
    "cl_fPreCheckRunOnTest (demo_logic True) = False" "cfg_uMaxAttempts (cl_config (demo_logic True)) = 1"
    using a by (simp_all add: demo_logic_def ClientLogic_Initialize_def demo_config_def CStunClientLogic_new_def Let_def)
  show "\<not> res_fFilteringTestSuccess (cl_results (demo_logic True))" "\<not> res_fGotTest2Response (cl_results (demo_logic True))"
    using a r by (simp_all add: demo_logic_def ClientLogic_Initialize_def demo_config_def CStunClientLogic_new_def Let_def)
qed

lemma hear_session:
  obtains k req dest l where "session_of (demo_logic True) k"
    "ClientLogic_GetNextMessage (\<lambda>_. 7) (CBuffer_alloc 1500) CSocketAddress_zero 0 k = (S_OK, req, dest, l)"
    "ct_class (cl_test l) = CFilteringTest" "\<not> ct_fIsTest3 (cl_test l)" "length (buf_bytes req) = 28"
proof -
  let ?l = "demo_logic True" and ?b = "CBuffer_alloc 1500" and ?z = "CSocketAddress_zero" and ?rnd = "\<lambda>_. 7 :: u8"
  have buf: "buf_wf ?b" "MAX_STUN_MESSAGE_SIZE \<le> b_allocated ?b" "b_allocated ?b = 1500"
    by (simp_all add: CBuffer_alloc_def CBuffer_InitWithAllocation_def buf_wf_def MAX_STUN_MESSAGE_SIZE_def)
  have poll: "ClientLogic_GetNextMessage ?rnd ?b ?z 0 l = ClientLogic_loop ?rnd 0 ?b ?z l" if "cl_fInitialized l" for l
    using that buf(2,3) by (simp add: ClientLogic_GetNextMessage_def CBuffer_GetAllocatedSize_def)
  have one: "length (ct_transid t) = 16 \<Longrightarrow> \<exists>req dest t'. Test_GetMessage ?rnd cfg res ?b t = (S_OK, req, dest, t') \<and>
      length (buf_bytes req) = 28 \<and> length (ct_transid t') = 16 \<and> t' = t\<lparr>ct_transid := ct_transid t'\<rparr>" for cfg res t
    using GetMessage_message [OF buf(1,2), of t ?rnd cfg res]
    by (cases "Test_GetMessage ?rnd cfg res ?b t") (simp add: msg_bytes_def enc_attr_def pad4_def)
  have t: "length (ct_transid (Test_Init (CStunClientTest_new c))) = 16" "ct_class (Test_Init (CStunClientTest_new c)) = c"
    "\<not> ct_fCompleted (Test_Init (CStunClientTest_new c))" "\<not> ct_fIsTest3 (Test_Init (CStunClientTest_new c))" for c
    by (simp_all add: Test_Init_def CStunClientTest_new_def STUN_TRANSACTION_ID_LENGTH_def)
  let ?t0 = "Test_Init (CStunClientTest_new CBasicBindingTest)" and ?t1 = "Test_Init (CStunClientTest_new CFilteringTest)"
  obtain req dest t' where m: "Test_GetMessage ?rnd (cl_config ?l) (cl_results ?l) ?b ?t0 = (S_OK, req, dest, t')"
    "length (ct_transid t') = 16" "t' = ?t0\<lparr>ct_transid := ct_transid t'\<rparr>"
    using one [OF t(1), of "cl_config ?l" "cl_results ?l" CBasicBindingTest] by (elim exE conjE) (rule that; assumption)
  define p where "p = ?l\<lparr>cl_fPreCheckRunOnTest := True\<rparr>"
  have p: "ClientLogic_PreCheck ?l = p" by (simp add: ClientLogic_PreCheck_def demo_logic_tests on_test_def Test_PreRunCheck_def t p_def)
  define l1 where "l1 = p\<lparr>cl_testlist := (cl_testlist p)[0 := t'], cl_sendCount := 1, cl_timeLastMessageSent := 0\<rparr>"
  have l1: "ClientLogic_GetNextMessage ?rnd ?b ?z 0 ?l = (S_OK, req, dest, l1)"
    using loop_sends_now [OF _ demo_logic_tests(4) _ p, of ?rnd ?b req dest t' 0 ?z] m(1)
    by (simp add: poll demo_logic_tests session_over_def p_def l1_def t Test_IsReadyToRun_def CBasicBindingTest_IsReadyToRun_def)
  have t': "ct_class t' = CBasicBindingTest" "\<not> ct_fCompleted t'" by (subst m(3), simp add: t)+
  obtain hr t'' res where r: "CBasicBindingTest_ProcessResponse (cl_config l1) (hear_resp (ct_transid t')) (demo_addr 9) (t', cl_results l1) = (hr, t'', res)"
    by (metis prod_cases3)
  note a = hear_answers [OF m(2) refl r]
  define l2 where "l2 = l1\<lparr>cl_testlist := (cl_testlist l1)[0 := t''], cl_results := res\<rparr>"
  have size: "CBuffer_GetSize (hear_resp (ct_transid t')) \<noteq> 0"
    using m(2) by (simp add: hear_resp_def CBuffer_GetSize_def msg_bytes_def Let_def)
  have l2: "ClientLogic_ProcessResponse (hear_resp (ct_transid t')) (demo_addr 1) (demo_addr 9) l1 = (hr, l2)"
    using r t' size by (simp add: ClientLogic_ProcessResponse_def l1_def l2_def p_def demo_logic_tests Test_IsCompleted_def Test_ProcessResponse_def)
  have s1: "session_of ?l l1" using session_of_step [OF session_of_refl, of ?l "Poll ?rnd ?b ?z 0"] l1 by simp
  have s2: "session_of ?l l2"
    using session_of_step [OF s1, of "Receive (hear_resp (ct_transid t')) (demo_addr 1) (demo_addr 9)"] l2 by simp
  define l3 where "l3 = l2\<lparr>cl_nTestIndex := 1, cl_sendCount := 0, cl_fPreCheckRunOnTest := False\<rparr>"
  have l3: "ClientLogic_loop_step ?rnd 0 ?b ?z l2 = Inr l3"
    using a by (simp add: ClientLogic_loop_step_def l2_def l3_def l1_def p_def demo_logic_tests ClientLogic_PreCheck_def Test_IsCompleted_def)
  obtain req3 dest3 t3 where m3: "Test_GetMessage ?rnd (cl_config l3) (cl_results l3) ?b ?t1 = (S_OK, req3, dest3, t3)"
    "length (buf_bytes req3) = 28" "t3 = ?t1\<lparr>ct_transid := ct_transid t3\<rparr>"
    using one [OF t(1), of "cl_config l3" "cl_results l3" CFilteringTest] by (elim exE conjE) (rule that; assumption)
  have f: "cl_testlist l3 ! Suc 0 = ?t1" "Suc 0 < length (cl_testlist l3)" "cl_config l3 = cl_config ?l" "cl_results l3 = res" "cl_nTestIndex l3 = 1"
    "cl_fInitialized l2" by (simp_all add: l3_def l2_def l1_def p_def demo_logic_tests)
  define p3 where "p3 = l3\<lparr>cl_fPreCheckRunOnTest := True\<rparr>"
  have "ClientLogic_PreCheck l3 = p3"
    by (simp add: ClientLogic_PreCheck_def on_test_def Test_PreRunCheck_def t p3_def l3_def l2_def l1_def p_def demo_logic_tests)
  moreover have "Test_IsReadyToRun (cl_results p3) (cl_test p3)"
    using a by (simp add: p3_def f t Test_IsReadyToRun_def CFilteringTest_IsReadyToRun_def l1_def p_def demo_logic_tests)
  ultimately have "ClientLogic_loop ?rnd 0 ?b ?z l3 = (S_OK, req3, dest3,
      p3\<lparr>cl_testlist := (cl_testlist p3)[cl_nTestIndex p3 := t3], cl_sendCount := 1, cl_timeLastMessageSent := 0\<rparr>)"
    using m3(1) f by (intro loop_sends_now) (simp_all add: session_over_def p3_def t demo_logic_tests l3_def)
  then have g: "ClientLogic_GetNextMessage ?rnd ?b ?z 0 l2 = (S_OK, req3, dest3,
      p3\<lparr>cl_testlist := (cl_testlist p3)[cl_nTestIndex p3 := t3], cl_sendCount := 1, cl_timeLastMessageSent := 0\<rparr>)"
    using l3 f(6) by (simp add: poll ClientLogic_loop.simps [of ?rnd 0 ?b ?z l2])
  have "ct_class t3 = CFilteringTest" "\<not> ct_fIsTest3 t3" by (subst m3(3), simp add: t)+
  then show ?thesis using that [OF s2 g] m3(2) f by (simp add: p3_def)
qed

text \<open>A turn in which the server accepts the connection and closes it.\<close>

definition demo_hangup :: tcp_client_env where
  "demo_hangup = \<lparr>tk_os = demo_client_sos, tk_rnd = \<lambda>_. 7, tk_time = 0, tk_connect = 0, tk_send = [28], tk_recv = [Some []],
     tk_errno = 0, tk_after = demo_client_sos\<rparr>"

definition demo_tcp_client :: "CStunClientLogic \<Rightarrow> TcpClient" where
  "demo_tcp_client k = \<lparr>tk_clientlogic = k, tk_stunsocket = StunSocket_new, tk_spMsg = CBuffer_alloc 1500, tk_spMsgReader = CBuffer_alloc 1500,
     tk_reader = Reader_new, tk_addrDest = CSocketAddress_zero, tk_addrLocal = CSocketAddress_ip4 0 0, tk_sent = []\<rparr>"

lemma demo_tcp_socket:
  "SUCCEEDED (fst (StunSocket_TCPInit demo_client_sos (CSocketAddress_ip4 0 0) RolePP True (snd (StunSocket_Close StunSocket_new))))"
  by code_simp

theorem tcp_client_hears_itself_witness:
  "\<exists>k c'. session_of (demo_logic True) k \<and> TcpClient_step demo_hangup (demo_tcp_client k) = (None, c') \<and>
    res_filtering (cl_results (tk_clientlogic c')) = EndpointIndependentFiltering"
proof -
  obtain k req dest l where k: "session_of (demo_logic True) k"
    "ClientLogic_GetNextMessage (\<lambda>_. 7) (CBuffer_alloc 1500) CSocketAddress_zero 0 k = (S_OK, req, dest, l)"
    "ct_class (cl_test l) = CFilteringTest" "\<not> ct_fIsTest3 (cl_test l)" "length (buf_bytes req) = 28"
    by (rule hear_session)
  have b: "msg_ok (CBuffer_alloc 1500)"
    by (simp add: msg_ok_def CBuffer_alloc_def CBuffer_InitWithAllocation_def buf_wf_def MAX_STUN_MESSAGE_SIZE_def)
  have "\<exists>c'. TcpClient_step demo_hangup (demo_tcp_client k) = (None, c') \<and> res_fFilteringTestSuccess (cl_results (tk_clientlogic c')) \<and>
    res_filtering (cl_results (tk_clientlogic c')) = (if ct_fIsTest3 (cl_test l) then AddressDependentFiltering else EndpointIndependentFiltering)"
    by (rule tcp_client_hears_itself [OF demo_Initialize [of True], where req = req and dest = dest and rets = "[]" and sent = "buf_bytes req"])
      (use k b demo_tcp_socket in \<open>simp_all add: demo_hangup_def demo_tcp_client_def TcpClient_Send_loop.simps\<close>)
  then show ?thesis using k(1,4) by auto
qed

end
