(* ===== verification/Spec2Isabelle.thy ===== *)
theory Spec2Isabelle
  imports ClientServer RateLimiter AuthTheorems TcpDemo UdpProperties ServerMainProps ClientMainProps
begin

text \<open>
  Verification library for the STUN server and client \<^verbatim>\<open>stunserver\<close>: its message codec, request handler, client
  logic, UDP and TCP servers, and the two programs, as definitions that compute, with the properties that make
  them correct.

  \<^bold>\<open>The program.\<close> A client sends a binding request and learns from the response which address the server saw;
  with further requests, to the other address of the server or asking it to answer from there, it classifies the NAT
  in between. The server has up to four sockets (two addresses, two ports). A datagram, or the bytes of a connection,
  goes into a message reader; the request handler answers a validated request through a message builder, after the
  checks of an authentication provider; the thread sends the answer from the socket of the role the handler chose.
  A rate limiter may refuse senders. Reader and builder work on a stream over a shared buffer. The hash tables of
  \<^verbatim>\<open>common/fasthash.h\<close> serve the rate limiter, the polling object and the TCP connections. The server program
  builds the configurations from its arguments and runs the servers; the client program builds one configuration and
  drives the client logic.

  \<^bold>\<open>The theories, from the bottom up.\<close>

  \<^item> \<open>Prelude\<close>: bytes and words, byte orders of a little-endian host, \<^verbatim>\<open>HRESULT\<close> and the \<^verbatim>\<open>Chk\<close> macros
    (\<open>Chk\<close>, \<open>ChkTo\<close>), \<^verbatim>\<open>memcpy\<close> as \<open>poke\<close> and \<open>peek\<close>, runs of operations (\<open>run\<close>). \<open>StringHelper\<close>, \<open>CmdLine\<close>: strings and
    the command line parser of \<^verbatim>\<open>common\<close>.
  \<^item> \<open>Buffer\<close>, \<open>DataStream\<close>: \<^verbatim>\<open>CBuffer\<close> and \<^verbatim>\<open>CDataStream\<close>. \<open>StorageTheorems\<close>: a stream is a growing file with a cursor.
  \<^item> \<open>FastHash\<close>, \<open>FastHashDynamic\<close>, \<open>FastHashProps\<close>, \<open>ConnectionMap\<close>: the hash table with its arrays, free list and
    chains, the prime search for its width, and its two abstractions, stacks of values per key and a bounded map.
  \<^item> \<open>StunTypes\<close>, \<open>SocketAddress\<close>: the message vocabulary (\<^verbatim>\<open>stuntypes.h\<close>, \<^verbatim>\<open>socketrole.h\<close>), \<^verbatim>\<open>CSocketAddress\<close> and \<^verbatim>\<open>stunutils.cpp\<close>.
  \<^item> \<open>StunReader\<close>, \<open>StunReaderProps\<close>, \<open>StunReaderAccess\<close>, \<open>ReaderBuffer\<close>: \<^verbatim>\<open>CStunMessageReader\<close>, an incremental
    parser, against the parser of whole messages \<open>verdict\<close> and \<open>parse_attrs\<close>; what its attribute operations return.
  \<^item> \<open>StunBuilder\<close>, \<open>StunBuilderProps\<close>, \<open>StunRoundTrip\<close>, \<open>CodecTheorems\<close>: \<^verbatim>\<open>CStunMessageBuilder\<close>; what is built is
    the byte string \<open>msg_bytes\<close>, which the reader takes apart again; integrity and fingerprint.
  \<^item> \<open>MessageHandler\<close>, \<open>MessageHandlerProps\<close>, \<open>RequestSpec\<close>, \<open>RequestFunction\<close>, \<open>Transaction\<close>, \<open>Examples\<close>:
    \<^verbatim>\<open>CStunRequestHandler\<close>; its answer as a function of the request (\<open>request_code\<close>, \<open>answer_dest\<close>) and as the client
    reads it. \<open>SampleAuth\<close>, \<open>AuthTheorems\<close>: the providers of \<^verbatim>\<open>sampleauthprovider.cpp\<close>.
  \<^item> \<open>ClientTests\<close>, \<open>ClientLogic\<close>, \<open>ClientTheorems\<close>, \<open>ClientResults\<close>, \<open>ClientServer\<close>: the tests and the state
    machine of the client; its sessions are runs of \<open>client_step\<close>; the exchange with the request handler.
  \<^item> \<open>RateLimiter\<close>: the table of counters of \<^verbatim>\<open>ratelimiter.cpp\<close> against a bounded map.
  \<^item> \<open>StunSocket\<close>, \<open>Polling\<close>, \<open>PollingTheorems\<close>, \<open>Adapters\<close>: \<^verbatim>\<open>networkutils\<close>. \<^verbatim>\<open>CPoll\<close> is a set of descriptors with events.
  \<^item> \<open>ConnectionPool\<close>, \<open>ConnectionPoolProps\<close>: \<^verbatim>\<open>CConnectionPool\<close> as a heap with a free list, an allocator.
  \<^item> \<open>TcpThread\<close> and \<open>TcpLoop\<close>: \<^verbatim>\<open>CTCPStunThread\<close>. \<open>TcpInv\<close>, \<open>TcpHandlers\<close>, \<open>TcpInit\<close>, \<open>TcpRun\<close>: its invariant, which
    every operation keeps. \<open>TcpTheorems\<close>, \<open>TcpProperties\<close>, \<open>TcpDemo\<close>: properties of whole runs, and their instances.
  \<^item> \<open>UdpThread\<close>, \<open>UdpTheorems\<close>: \<^verbatim>\<open>CStunSocketThread\<close> with \<^verbatim>\<open>recvfromex\<close>, against the responder \<open>udp_responder\<close>, which
    treats each datagram with a new reader and a new buffer. \<open>StunServer\<close>, \<open>StunServerProps\<close>, \<open>UdpProperties\<close>:
    \<^verbatim>\<open>CStunServer\<close> and \<^verbatim>\<open>CTCPServer\<close>, and what the threads of a server do once it is set up.
  \<^item> \<open>ServerMain\<close>, \<open>ServerMainProps\<close>, \<open>ClientMain\<close>, \<open>ClientMainProps\<close>: the two programs \<^verbatim>\<open>server/main.cpp\<close> and
    \<^verbatim>\<open>client/clientmain.cpp\<close>, from the arguments to running servers and to the results that are shown.
  \<^item> This theory holds the properties of the request handler.

  \<^bold>\<open>The model.\<close> A class is a record and a member function a function from the record (with its arguments) to
  the result and the changed record. Machine integers are words of
  their width, \<^verbatim>\<open>size_t\<close> a natural number, \<^verbatim>\<open>HRESULT\<close> an integer. A reference-counted buffer that a stream writes is
  kept in the stream and read back through \<open>ds_attached_view\<close>; the connections of the TCP server, which the code links
  by pointers, live in an explicit heap (\<open>pool_heap\<close>). Bytes that the code leaves uninitialised are
  \<open>uninit_byte\<close>, on whose value no property rests. Members named \<open>th_accepted\<close>, \<open>th_closed\<close>, \<open>th_sent\<close>, \<open>ut_sent\<close>, \<open>sv_closed\<close>,
  \<open>ts_closed\<close>, \<open>uk_sent\<close> and \<open>tk_sent\<close> record calls of the system and are read by no operation.

  \<^bold>\<open>Parameters.\<close> HMAC-SHA1, MD5 and CRC32, random numbers, the authentication provider and what the system
  answers are arguments: \<open>socket_os\<close> for the calls on one socket, \<open>tcp_env\<close>, \<open>udp_env\<close>, \<open>udp_client_env\<close> and
  \<open>tcp_client_env\<close> for one turn of a loop, \<open>main_os\<close> and \<open>server_env\<close> for the server program, the list of results for
  \<^verbatim>\<open>getopt_long_only\<close>. Where a property needs something of them, it is a named hypothesis: a digest has 20 bytes; \<open>auth_wf\<close>,
  a provider keeps its arrays in place; \<open>poll_os\<close>, \<^verbatim>\<open>poll\<close> reports what it was asked for and how much; \<open>accept_fresh\<close> and
  \<open>init_ok\<close>, a new descriptor is not one in use (\<open>turn_ok\<close> is both for a turn); \<open>recv_ok\<close>, a sender is a socket address;
  \<open>main_os_ok\<close>, adapters have well-formed addresses; \<open>turn_times\<close>, the clock does not go back.

  \<^bold>\<open>Loops.\<close> Loops that end are recursive functions with a measure; the endless loops of the threads and the client run
  over the list of the turns they take, so that a property of every list is one of every moment. Fuel bounds the loops
  over linked nodes: the number of nodes of the table in \<open>fh_probe\<close>, the number of objects ever created in
  \<open>Pool_Reset_loop\<close>, one more than the number of entries in the loop that closes the connections of a table. Chains and free list have no
  more nodes than that, and the lemmas about these loops show that the fuel is never used up in a consistent state.
  The loop of the client over UDP ends by the time that the timeout and the longest turn have passed once for each
  message a session may send.

  \<^bold>\<open>Contracts.\<close> \<open>byte_stream\<close>, \<open>key_table\<close>, \<open>bounded_map\<close>, \<open>incremental_parser\<close>, \<open>interest_set\<close> and \<open>object_pool\<close> state what
  a component promises to its clients; each is interpreted on the definitions of the component that provides it.

  \<^bold>\<open>What modelling showed.\<close> With the long-term provider nobody is ever let in, and its nonces never validate; an
  empty datagram is charged to the sender of the previous one, so that others can have a client refused; a TCP client can
  take its own request for the response; \<^verbatim>\<open>CEpoll\<close> hides that its set-up failed; some attribute operations
  of reader and builder do not check lengths. Each of these is a theorem.

  \<^bold>\<open>Left out.\<close> The TCP thread is that of the build without \<^verbatim>\<open>epoll\<close> (\<^verbatim>\<open>CEpoll\<close> itself is modelled). Threads share
  nothing but the rate limiter, which each thread is given as a copy, and run one at a time. Logging, usage texts,
  signals, the JSON parser, \<^verbatim>\<open>getopt\<close>, reference counts and the unit tests are not modelled: they are output, platform or
  third-party code.
\<close>

section \<open>The request handler\<close>

text \<open>
  C1: every request is answered. For a validated request, a sender and local addresses that are
  socket addresses, a set of four addresses and an output buffer of at least 800 bytes,
  \<^verbatim>\<open>ProcessRequest\<close> succeeds; what it leaves in the caller's own buffer (its capacity is unchanged)
  is a message of at most 800 bytes that a new reader validates, with the transaction id and the
  format (legacy or not) of the request; and the destination is the sender, on the response port
  if the request names one and came over UDP.
\<close>

theorem request_answered:
  assumes "request_wf allow bs as m out aset pAuth r cap" "Reader_GetMessageClass r = StunMsgClassRequest"
    "\<And>k m. length (hmac k m) = 20"
  shows "\<exists>out' buf. Handler_ProcessRequest hmac md5 m out (Some aset) pAuth = (S_OK, out') \<and>
    out_spBufferOut out' = Some buf \<and> b_allocated buf = cap \<and> b_size buf \<le> MAX_STUN_MESSAGE_SIZE \<and>
    fst (Reader_AddBytes (buf_bytes buf) Reader_new) = BodyValidated \<and>
    Reader_GetTransactionId (answer_reader out') = Reader_GetTransactionId r \<and>
    Reader_IsMessageLegacyFormat (answer_reader out') = Reader_IsMessageLegacyFormat r \<and>
    out_addrDest out' = answer_dest m r"
proof -
  obtain out' field ws where o: "Handler_ProcessRequest hmac md5 m out (Some aset) pAuth = (S_OK, out')"
    "out_addrDest out' = answer_dest m r" "out_answers out' cap (msg_bytes field (Reader_GetTransactionId r) ws)"
    "rd_msg True field (Reader_GetTransactionId r) ws (answer_reader out')"
    "Reader_GetState (answer_reader out') = BodyValidated" "length (answer_bytes out') \<le> MAX_STUN_MESSAGE_SIZE"
    by (rule request_answer [where hmac = hmac and ?md5.0 = md5, OF assms])
  then obtain buf where b: "out_spBufferOut out' = Some buf" "buf_wf buf" "b_allocated buf = cap"
    by (auto simp: out_answers_def)
  have "fst (Reader_AddBytes (buf_bytes buf) Reader_new) = BodyValidated"
    using AddBytes_inv [OF Reader_new_inv, of "buf_bytes buf"] o(5) b
    by (simp add: answer_reader_def answer_bytes_def Reader_GetState_def rd_inv_def)
  moreover have "rd_valid allow bs as r" using assms(1) by (simp add: request_wf_def)
  ultimately show ?thesis
    using o b rd_msg_head [OF o(4)] valid_legacy by (auto simp: answer_bytes_def)
qed

theorem request_answered_witness:
  "\<exists>out' buf. Handler_ProcessRequest demo_hmac demo_md5 (demo_in False (demo_reader demo_field [])) demo_out
      (Some demo_set) None = (S_OK, out') \<and>
    out_spBufferOut out' = Some buf \<and> b_allocated buf = 1500 \<and> b_size buf \<le> MAX_STUN_MESSAGE_SIZE \<and>
    fst (Reader_AddBytes (buf_bytes buf) Reader_new) = BodyValidated \<and>
    Reader_GetTransactionId (answer_reader out') = Reader_GetTransactionId (demo_reader demo_field []) \<and>
    Reader_IsMessageLegacyFormat (answer_reader out') = Reader_IsMessageLegacyFormat (demo_reader demo_field []) \<and>
    out_addrDest out' = answer_dest (demo_in False (demo_reader demo_field [])) (demo_reader demo_field [])"
proof -
  have w: "wire_ok []" by (simp add: wire_ok_def)
  show ?thesis
    by (rule request_answered [OF demo_request_wf [OF w demo_lengths(4)] demo_head(1) [OF w] demo_lengths(2)])
      simp_all
qed

text \<open>
  C2: what the answer is. It is a binding success response, sent from the role the request's
  change request leads to, exactly when the port, type, authentication, padding and role checks
  pass in that order (\<open>request_code\<close> is 0); otherwise it is an error response, sent from the
  receiving socket, in which the client finds the code of the first check that failed: 400, 401 or
  438.
\<close>

theorem request_outcome:
  assumes "request_wf allow bs as m out aset pAuth r cap" "Reader_GetMessageClass r = StunMsgClassRequest"
    "\<And>k m. length (hmac k m) = 20"
  shows "\<exists>out'. Handler_ProcessRequest hmac md5 m out (Some aset) pAuth = (S_OK, out') \<and>
    (if request_code hmac md5 pAuth (Some aset) m r = 0
     then Reader_GetMessageClass (answer_reader out') = StunMsgClassSuccessResponse \<and>
       Reader_GetMessageType (answer_reader out') = StunMsgTypeBinding \<and>
       answer_role (Some aset) m = Some (out_socketrole out')
     else Reader_GetMessageClass (answer_reader out') = StunMsgClassFailureResponse \<and>
       Reader_GetErrorCode 0 (answer_reader out') = (S_OK, request_code hmac md5 pAuth (Some aset) m r) \<and>
       out_socketrole out' = in_socketrole m)"
proof -
  obtain out' field ws where o: "Handler_ProcessRequest hmac md5 m out (Some aset) pAuth = (S_OK, out')"
    "rd_msg True field (Reader_GetTransactionId r) ws (answer_reader out')"
    "request_code hmac md5 pAuth (Some aset) m r = 0 \<Longrightarrow>
      answer_role (Some aset) m = Some (out_socketrole out') \<and> field = success_field"
    "request_code hmac md5 pAuth (Some aset) m r \<noteq> 0 \<Longrightarrow>
      out_socketrole out' = in_socketrole m \<and> class_of_field field = StunMsgClassFailureResponse \<and>
      Reader_GetErrorCode 0 (answer_reader out') = (S_OK, request_code hmac md5 pAuth (Some aset) m r)"
    by (rule request_answer [where hmac = hmac and ?md5.0 = md5, OF assms]) blast
  then show ?thesis using rd_msg_head(2,3) [OF o(2)] by (intro exI [of _ out']) auto
qed

theorem request_outcome_witness:
  "\<exists>out'. Handler_ProcessRequest demo_hmac demo_md5 (demo_in False (demo_reader demo_field [])) demo_out
      (Some demo_set) None = (S_OK, out') \<and>
    Reader_GetMessageClass (answer_reader out') = StunMsgClassSuccessResponse \<and>
    out_socketrole out' = RolePP"
proof -
  have w: "wire_ok []" by (simp add: wire_ok_def)
  show ?thesis
    using request_outcome [where ?md5.0 = demo_md5 and hmac = demo_hmac, OF demo_request_wf [OF w demo_lengths(4),
        where pAuth = None and conn = False] demo_head(1) [OF w] demo_lengths(2)] demo_quiet(1) [OF w, of demo_hmac demo_md5 False]
      demo_quiet(2) [OF w, of False]
    by auto
qed

text \<open>
  C3: the point of the protocol. From a success response the client gets back the address its
  request came from, both from the plain and from the xored attribute, and the other address of
  the server, when all four sockets are valid and that address is known.
\<close>

theorem client_learns_address:
  assumes "request_wf allow bs as m out aset pAuth r cap" "Reader_GetMessageClass r = StunMsgClassRequest"
    "\<And>k m. length (hmac k m) = 20" "request_code hmac md5 pAuth (Some aset) m r = 0"
    "Handler_ProcessRequest hmac md5 m out (Some aset) pAuth = (S_OK, out')"
  shows "\<exists>x y. Reader_GetXorMappedAddress p (answer_reader out') = (S_OK, x) \<and>
      Reader_GetMappedAddress q (answer_reader out') = (S_OK, y) \<and>
      CSocketAddress_IsSameIP_and_Port x (in_addrRemote m) \<and>
      CSocketAddress_IsSameIP_and_Port y (in_addrRemote m) \<and>
      (case other_address aset m of None \<Rightarrow> \<not> SUCCEEDED (fst (Reader_GetOtherAddress p (answer_reader out')))
       | Some a \<Rightarrow> (\<exists>z. Reader_GetOtherAddress p (answer_reader out') = (S_OK, z) \<and>
           CSocketAddress_IsSameIP_and_Port z a))"
proof -
  let ?tid = "Reader_GetTransactionId r" and ?leg = "Reader_IsMessageLegacyFormat r"
  let ?ws = "with_integrity hmac success_field ?tid (auth_key md5 pAuth r) (success_attrs (Some aset) m r (out_socketrole out'))"
  note o = answer_success [OF assms(1-3) assms(5,4)]
  show ?thesis
    by (rule success_addresses [OF assms(1) answer_role_valid [OF assms(1) o(1)] o(2), of p q p]) blast
qed

text \<open>The example request is answered in a way that gives the client its address.\<close>

theorem client_learns_address_witness:
  "\<exists>out' x y. Handler_ProcessRequest demo_hmac demo_md5 (demo_in False (demo_reader demo_field [])) demo_out
      (Some demo_set) None = (S_OK, out') \<and>
    Reader_GetXorMappedAddress CSocketAddress_zero (answer_reader out') = (S_OK, x) \<and>
    Reader_GetMappedAddress CSocketAddress_zero (answer_reader out') = (S_OK, y) \<and>
    CSocketAddress_IsSameIP_and_Port x (demo_addr 9) \<and> CSocketAddress_IsSameIP_and_Port y (demo_addr 9)"
proof -
  obtain out' where o: "Handler_ProcessRequest demo_hmac demo_md5 (demo_in False (demo_reader demo_field [])) demo_out
      (Some demo_set) None = (S_OK, out')"
    by (rule demo_run [of "[]" None False]) simp_all
  show ?thesis
    using client_learns_address [OF demo_request_wf [OF demo_wire_ok(1) demo_lengths(4)] demo_head(1) [OF demo_wire_ok(1)]
        demo_lengths(2) demo_quiet(1) [OF demo_wire_ok(1)] o, of CSocketAddress_zero CSocketAddress_zero] o
    by (auto simp: demo_in_def)
qed

text \<open>
  C4: integrity works both ways. When the provider lets a request in on the condition of its
  integrity, it is answered with success only if its integrity attribute is the digest under the
  provider's key; and the success response then carries an integrity attribute that validates at
  the client under the same key.
\<close>

theorem mutual_integrity:
  assumes "request_wf allow bs as m out aset (Some p) r cap" "Reader_GetMessageClass r = StunMsgClassRequest"
    "\<And>k m. length (hmac k m) = 20"
    "Handler_ProcessRequest hmac md5 m out (Some aset) (Some p) = (S_OK, out')"
    "auth_key md5 (Some p) r = Some key" "Reader_GetMessageClass (answer_reader out') = StunMsgClassSuccessResponse"
  shows "Reader_ValidateMessageIntegrity hmac key r = S_OK \<and>
    Reader_ValidateMessageIntegrity hmac key (answer_reader out') = S_OK"
proof -
  have code: "request_code hmac md5 (Some p) (Some aset) m r = 0"
    using answer_class [OF assms(1-4), unfolded assms(6)] stun_class_distinct by (metis (no_types))
  show ?thesis
    using code_integrity [OF assms(1) code assms(5)] success_integrity [OF assms(1-4) code assms(5)] ..
qed

theorem mutual_integrity_witness:
  "\<exists>out'. Handler_ProcessRequest demo_hmac demo_md5
      (demo_in False (demo_reader demo_field [(STUN_ATTRIBUTE_MESSAGEINTEGRITY, replicate 20 7)])) demo_out
      (Some demo_set) (Some demo_auth) = (S_OK, out') \<and>
    Reader_ValidateMessageIntegrity demo_hmac [0x70] (answer_reader out') = S_OK"
proof -
  let ?as = "[(STUN_ATTRIBUTE_MESSAGEINTEGRITY, replicate 20 (7 :: u8))]"
  have w: "auth_wf p" if "Some demo_auth = Some p" for p using that demo_auth_wf by simp
  have wf: "request_wf True (msg_bytes demo_field demo_tid ?as) (attrs_at 20 ?as) (demo_in False (demo_reader demo_field ?as))
      demo_out demo_set (Some demo_auth) (demo_reader demo_field ?as) 1500"
    by (rule demo_request_wf [OF demo_wire_ok(4) demo_lengths(4)]) (rule w)
  obtain out' where o: "Handler_ProcessRequest demo_hmac demo_md5 (demo_in False (demo_reader demo_field ?as)) demo_out
      (Some demo_set) (Some demo_auth) = (S_OK, out')"
    by (rule demo_run [where as = ?as and pAuth = "Some demo_auth" and conn = False, OF demo_wire_ok(4)]) (rule w, assumption)
  have c: "Reader_GetMessageClass (answer_reader out') = StunMsgClassSuccessResponse"
    using answer_class [OF wf demo_head(1) [OF demo_wire_ok(4)] demo_lengths(2) o] demo_authorised(3) by simp
  have "Reader_ValidateMessageIntegrity demo_hmac [0x70] (answer_reader out') = S_OK"
    by (rule mutual_integrity [OF wf demo_head(1) [OF demo_wire_ok(4)] demo_lengths(2) o demo_authorised(2) c, THEN conjunct2])
  with o show ?thesis by blast
qed



text \<open>
  C6: a change request is honoured exactly or refused. If the request asks for another address or
  port, a success response is sent from the role with exactly the asked parts swapped, over UDP
  and from a valid address of the server; in every other case the answer is an error response from
  the receiving socket.
\<close>

theorem change_request_honoured:
  assumes "request_wf allow bs as m out aset pAuth r cap" "Reader_GetMessageClass r = StunMsgClassRequest"
    "\<And>k m. length (hmac k m) = 20" "Reader_GetChangeRequest r = (S_OK, c)" "fChangeIP c \<or> fChangePort c"
  shows "\<exists>out'. Handler_ProcessRequest hmac md5 m out (Some aset) pAuth = (S_OK, out') \<and>
    (if Reader_GetMessageClass (answer_reader out') = StunMsgClassSuccessResponse
     then out_socketrole out' = (let sr = (if fChangeIP c then SocketRoleSwapIP (in_socketrole m) else in_socketrole m)
         in if fChangePort c then SocketRoleSwapPort sr else sr) \<and>
       \<not> in_fConnectionOriented m \<and> ta_fValid (aset ! unat (out_socketrole out'))
     else out_socketrole out' = in_socketrole m \<and>
       Reader_GetMessageClass (answer_reader out') = StunMsgClassFailureResponse)"
proof -
  obtain out' field ws where o: "Handler_ProcessRequest hmac md5 m out (Some aset) pAuth = (S_OK, out')"
    "rd_msg True field (Reader_GetTransactionId r) ws (answer_reader out')"
    "request_code hmac md5 pAuth (Some aset) m r = 0 \<Longrightarrow>
      answer_role (Some aset) m = Some (out_socketrole out') \<and> field = success_field"
    "request_code hmac md5 pAuth (Some aset) m r \<noteq> 0 \<Longrightarrow>
      out_socketrole out' = in_socketrole m \<and> class_of_field field = StunMsgClassFailureResponse"
    by (rule request_answer [where hmac = hmac and ?md5.0 = md5, OF assms(1-3)]) blast
  have "in_pReader m = Some r" using assms(1) by (simp add: request_wf_def)
  note role = answer_role_change [OF this assms(4,5)]
  show ?thesis
    using o(1,3,4) rd_msg_head(2) [OF o(2)] role
    by (cases "request_code hmac md5 pAuth (Some aset) m r = 0")
      (auto simp: stun_message_defs success_field_ok intro!: exI [of _ out'])
qed

theorem change_request_honoured_witness:
  "\<exists>out'. Handler_ProcessRequest demo_hmac demo_md5
      (demo_in True (demo_reader demo_field [(STUN_ATTRIBUTE_CHANGEREQUEST, [0, 0, 0, 6])])) demo_out
      (Some demo_set) None = (S_OK, out') \<and> out_socketrole out' = RolePP"
proof -
  let ?as = "[(STUN_ATTRIBUTE_CHANGEREQUEST, [0, 0, 0, 6])]"
  have "wire_last STUN_ATTRIBUTE_CHANGEREQUEST ?as = Some [0, 0, 0, 6]" by (simp add: wire_last_def)
  then have c: "Reader_GetChangeRequest (demo_reader demo_field ?as) = (S_OK, \<lparr>fChangeIP = True, fChangePort = True\<rparr>)"
    using rd_msg_change [OF demo_rd_msg [OF demo_wire_ok(3) demo_lengths(4)], of STUN_ATTRIBUTE_CHANGEREQUEST 0 0 0 6] by simp
  show ?thesis
    using change_request_honoured [where hmac = demo_hmac and ?md5.0 = demo_md5, OF demo_request_wf [OF demo_wire_ok(3) demo_lengths(4), where pAuth = None and conn = True]
        demo_head(1) [OF demo_wire_ok(3)] demo_lengths(2) c] by (auto simp: demo_in_def split: if_splits)
qed

end
